(* ===== verification/Prelude.thy ===== *)
theory Prelude
  imports Main
begin

text \<open>
  Shared vocabulary of the development: Python exceptions as values, Python subscripts and
  slices of immutable tuples (modelled as lists), decimal rendering of integers for event labels,
  the events a Python generator yields, and generic facts about list updates, cyclic slots and
  sums that the component theories use.
\<close>

section \<open>Exceptions\<close>

datatype exn =
    ValueError string
  | RuntimeError string
  | IndexError
  | KeyError string
  | TypeError string
  | BufferError string
  | ImportError string
  | SystemError string
  | MemoryError
  | AttributeError
  | OverflowError
  | ZeroDivisionError
  | OSError string
  | StopIteration
  | AssertionError string

section \<open>Subscripts and slices\<close>

text \<open>
  \<open>sub err xs i k\<close> is the Python expression \<open>k(xs[i])\<close>: a negative index counts from the end,
  an index out of range raises, which is the value \<open>err\<close> of the enclosing computation.
\<close>

definition sub :: "'r \<Rightarrow> 'a list \<Rightarrow> int \<Rightarrow> ('a \<Rightarrow> 'r) \<Rightarrow> 'r" where
  "sub err xs i k =
     (let j = (if i < 0 then i + int (length xs) else i)
      in if 0 \<le> j \<and> j < int (length xs) then k (xs ! nat j) else err)"

text \<open>The bound a slice end denotes: clamped to the sequence, negative ends count from the end.\<close>

definition slice_end :: "'a list \<Rightarrow> int \<Rightarrow> nat" where
  "slice_end xs i = (if i < 0 then nat (i + int (length xs)) else min (nat i) (length xs))"

text \<open>\<open>put(items, index, value)\<close>, literally \<open>items[:index] + (value,) + items[index+1:]\<close>.\<close>

definition put :: "'a list \<Rightarrow> int \<Rightarrow> 'a \<Rightarrow> 'a list" where
  "put items index v =
     take (slice_end items index) items @ [v] @ drop (slice_end items (index + 1)) items"

named_theorems py_simps \<open>evaluation of Python subscripts and slices that are in range\<close>

lemma sub_in_range [py_simps]:
  "0 \<le> i \<Longrightarrow> i < int (length xs) \<Longrightarrow> sub err xs i k = k (xs ! nat i)"
  by (simp add: sub_def)

lemma put_in_range [py_simps]:
  assumes "0 \<le> i" "i < int (length xs)"
  shows "put xs i v = xs[nat i := v]"
proof -
  have "slice_end xs i = nat i" "slice_end xs (i + 1) = Suc (nat i)"
    using assms by (auto simp: slice_end_def)
  then show ?thesis
    using assms by (simp add: put_def upd_conv_take_nth_drop nat_less_iff)
qed

section \<open>Decimal rendering\<close>

definition digit_char :: "nat \<Rightarrow> char" where
  "digit_char d = ''0123456789'' ! d"

fun show_nat :: "nat \<Rightarrow> string" where
  "show_nat n = (if n < 10 then [digit_char n] else show_nat (n div 10) @ [digit_char (n mod 10)])"

declare show_nat.simps [simp del]

definition show_int :: "int \<Rightarrow> string" where
  "show_int i = (if i < 0 then CHR ''-'' # show_nat (nat (- i)) else show_nat (nat i))"

lemma digit_char_code: "d < 10 \<Longrightarrow> (of_char (digit_char d) :: nat) = 48 + d"
  by (auto simp: digit_char_def less_Suc_eq eval_nat_numeral)

lemma digit_char_inject: "d < 10 \<Longrightarrow> e < 10 \<Longrightarrow> digit_char d = digit_char e \<longleftrightarrow> d = e"
  by (metis digit_char_code add_left_cancel)

lemma set_show_nat: "c \<in> set (show_nat n) \<Longrightarrow> \<exists>d<10. c = digit_char d"
proof (induction n rule: show_nat.induct)
  case (1 n)
  then show ?case
    by (cases "n < 10") (auto simp: show_nat.simps [of n] intro: exI [of _ "n mod 10"])
qed

lemma colon_not_in_show_nat: "CHR '':'' \<notin> set (show_nat n)"
proof
  assume "CHR '':'' \<in> set (show_nat n)"
  then obtain d where d: "d < 10" "CHR '':'' = digit_char d" using set_show_nat by blast
  have "(of_char (digit_char d) :: nat) = 58" unfolding d(2) [symmetric] by simp
  with digit_char_code [OF d(1)] d(1) show False by simp
qed

lemma show_nat_inject: "show_nat m = show_nat n \<longleftrightarrow> m = n"
proof
  show "show_nat m = show_nat n \<Longrightarrow> m = n"
  proof (induction m arbitrary: n rule: show_nat.induct)
    case (1 m)
    have len: "show_nat k \<noteq> []" for k by (subst show_nat.simps) simp
    show ?case
    proof (cases "m < 10")
      case True
      with "1.prems" have eq: "show_nat n = [digit_char m]" by (simp add: show_nat.simps [of m])
      have "n < 10"
      proof (rule ccontr)
        assume "\<not> n < 10"
        with eq len [of "n div 10"] show False by (simp add: show_nat.simps [of n])
      qed
      with eq True show ?thesis by (simp add: show_nat.simps [of n] digit_char_inject)
    next
      case False
      note m = False
      have n: "\<not> n < 10"
      proof
        assume "n < 10"
        with "1.prems" m len [of "m div 10"] show False
          by (simp add: show_nat.simps [of m] show_nat.simps [of n])
      qed
      with "1.prems" m have "show_nat (m div 10) = show_nat (n div 10)"
        and "digit_char (m mod 10) = digit_char (n mod 10)"
        by (simp_all add: show_nat.simps [of m] show_nat.simps [of n])
      with "1.IH" [OF m] have "m div 10 = n div 10" "m mod 10 = n mod 10"
        by (simp_all add: digit_char_inject)
      then show ?thesis by (metis div_mult_mod_eq)
    qed
  qed
qed simp

section \<open>Events of a generator\<close>

text \<open>
  \<open>successors\<close> of the transition models is a Python generator of quadruples (label, target state,
  progress flag, violation or None). A generator may also raise: everything yielded before the
  exception has been consumed by then, nothing follows it.
\<close>

datatype ('s, 'v) event = Yield string 's bool "'v option" | Raise exn

fun is_raise :: "('s, 'v) event \<Rightarrow> bool" where
  "is_raise (Raise e) = True"
| "is_raise (Yield l t p v) = False"

fun cut :: "('s, 'v) event list \<Rightarrow> ('s, 'v) event list" where
  "cut [] = []"
| "cut (e # es) = (if is_raise e then [e] else e # cut es)"

lemma set_cut_subset: "e \<in> set (cut es) \<Longrightarrow> e \<in> set es"
  by (induction es) (auto split: if_splits)

lemma cut_id: "\<forall>e \<in> set es. \<not> is_raise e \<Longrightarrow> cut es = es"
  by (induction es) auto

lemma cut_Nil_iff [simp]: "cut es = [] \<longleftrightarrow> es = []"
  by (cases es) auto

section \<open>Lists, slots of a ring and sums\<close>

lemma nth_list_update_nat:
  "0 \<le> i \<Longrightarrow> 0 \<le> j \<Longrightarrow> j < int (length xs) \<Longrightarrow>
   xs[nat i := v] ! nat j = (if i = j then v else xs ! nat j)"
  by (auto simp: nth_list_update nat_eq_iff)

text \<open>Two tickets less than one lap apart use different slots of the ring.\<close>

lemma mod_eq_within_lap:
  fixes x y n :: int
  assumes "x mod n = y mod n" "\<bar>x - y\<bar> < n"
  shows "x = y"
proof -
  from assms(1) have "n dvd x - y" by (simp add: mod_eq_dvd_iff)
  moreover have "\<bar>x - y\<bar> < \<bar>n\<bar>" using assms(2) by linarith
  ultimately have "x - y = 0" by (metis dvd_imp_le_int not_le)
  then show ?thesis by simp
qed

text \<open>The last ticket before \<open>u\<close> that uses the slot of ticket \<open>T\<close>.\<close>

lemma slot_owner:
  fixes T u n :: int
  assumes "0 < n"
  obtains T' where "u - n \<le> T'" "T' < u" "T' mod n = T mod n"
proof -
  let ?T' = "u - 1 - (u - 1 - T) mod n"
  have b: "0 \<le> (u - 1 - T) mod n" "(u - 1 - T) mod n < n" using assms by simp_all
  have "?T' mod n = ((u - 1) - (u - 1 - T)) mod n" by (simp only: mod_diff_right_eq)
  then have "?T' mod n = T mod n" by simp
  with b that [of ?T'] show thesis by linarith
qed

lemma div_less_of_slot:
  fixes T T' n :: int
  assumes "0 < n" "T mod n = T' mod n" "T < T'"
  shows "T div n < T' div n"
proof (rule ccontr)
  assume "\<not> T div n < T' div n"
  then have "T' div n * n \<le> T div n * n" using assms(1) by simp
  with assms show False using div_mult_mod_eq [of T n] div_mult_mod_eq [of T' n] by linarith
qed

lemma sum_fun_upd_int:
  fixes f g :: "nat \<Rightarrow> int"
  assumes "i < k" "\<And>j. j < k \<Longrightarrow> j \<noteq> i \<Longrightarrow> g j = f j"
  shows "(\<Sum>j<k. g j) = (\<Sum>j<k. f j) - f i + g i"
proof -
  have "(\<Sum>j<k. g j) = g i + (\<Sum>j\<in>{..<k} - {i}. g j)"
    using assms(1) by (simp add: sum.remove)
  also have "(\<Sum>j\<in>{..<k} - {i}. g j) = (\<Sum>j\<in>{..<k} - {i}. f j)"
    by (rule sum.cong) (auto simp: assms(2))
  also have "\<dots> = (\<Sum>j<k. f j) - f i"
    using assms(1) by (simp add: sum.remove)
  finally show ?thesis by simp
qed

end
