(* ===== verification/Violations.thy ===== *)
theory Violations
  imports Prelude
begin

text \<open>
  The violations the two transition models report, \<open>formal/models/ncq.py\<close> and
  \<open>formal/models/spsc.py\<close>, and the outcome of an invariant check in progress.
\<close>

section \<open>Violations\<close>

text \<open>One constructor per property name of the source, with the entries of its detail dictionary.\<close>

datatype violation =
    QUEUE_FRONTIER_ORDER int int int int
  | PUBLICATION_HOLE int int int
  | DUPLICATE_QUEUE_TOKEN int int
  | TOKEN_MEMBERSHIP int int int
  | QUEUED_PHASE int int
  | UNFINISHED_PAYLOAD_PUBLISHED int
  | TOKEN_IN_BOTH_QUEUES
  | DOUBLE_ALLOCATION int int "int option"
  | RECLAIM_WITH_LIVE_ALIAS int int
  | TOKEN_CONSERVATION "int list"
  | EPOCH_RANGE
  | INVALID_FREE_PHASE int
  | TORN_OR_UNCOMMITTED int
  | TORN_PAYLOAD int
  | INSTALL_WITHOUT_OWNERSHIP
  | OUT_OF_ORDER_PUBLICATION int int
  | POST_LP_PAYLOAD_ACCESS int
  | OWNER_MISMATCH
  | SPSC_CAPACITY
  | FUTURE_SNAPSHOT
  | SPSC_LIVE_TICKET_OWNERSHIP int
  | SPSC_TORN_OR_UNCOMMITTED int
  | OVERWRITE_LIVE_LEASE int
  | READ_UNCOMMITTED int

section \<open>Checks in progress\<close>

text \<open>
  A check in progress has raised, has found a violation, or continues with a value.
\<close>

datatype 'a check = Crash exn | Found violation | Go 'a

fun check_result :: "'a check \<Rightarrow> exn + violation option" where
  "check_result (Crash e) = Inl e"
| "check_result (Found v) = Inr (Some v)"
| "check_result (Go x) = Inr None"

end
