(* ===== verification/Ncq.thy ===== *)
theory Ncq
  imports Violations
begin

unbundle bit_operations_syntax

text \<open>
  The finite transition system of the publish-first multi-producer/multi-consumer queue NCQ-SC64,
  \<open>formal/models/ncq.py\<close>: its actors and shared state, the construction of a model with its
  configuration checks, the checked invariant, and the successor generator, one definition per
  program counter of the source. Tuples are lists read and written with the Python subscript and
  slice of \<open>Prelude\<close>; every integer is unbounded, as in Python; the mutation switches are kept.
\<close>

section \<open>State\<close>

record actor =
  pc :: int
  ticket :: int
  entry :: int
  block :: int
  epoch :: int
  left :: int
  owns :: bool
  queue :: int
  aliased :: bool
  read :: int

text \<open>\<open>Actor()\<close>: the dataclass defaults.\<close>

definition Actor :: actor where
  "Actor = \<lparr>pc = 0, ticket = 0, entry = 0, block = -1, epoch = 0, left = 1, owns = False,
            queue = 0, aliased = False, read = 0\<rparr>"

record ncq_state =
  heads :: "int list"
  tails :: "int list"
  frontiers :: "int list"
  entries :: "int list"
  epochs :: "int list"
  phases :: "int list"
  status_epochs :: "int list"
  word0 :: "int list"
  word1 :: "int list"
  owners :: "int list"
  actors :: "actor list"

text \<open>The attributes \<open>n, p, c, m, mutation, abort, limit\<close> of a \<open>Model\<close> object.\<close>

record ncq_model =
  m_n :: int
  m_p :: int
  m_c :: int
  m_m :: int
  m_mutation :: string
  m_abort :: bool
  m_limit :: int

definition ncq_mutations :: "string list" where
  "ncq_mutations = [''none'', ''split_head'', ''stale_head_retry'', ''overwrite_current'',
     ''tail_before_entry'', ''post_lp_write'', ''early_return'']"

definition ncq_model_init ::
    "int \<Rightarrow> int \<Rightarrow> int \<Rightarrow> int \<Rightarrow> string \<Rightarrow> bool \<Rightarrow> exn + ncq_model" where
  "ncq_model_init capacity producers consumers operations mutation allow_abort =
     (if capacity < 2 \<or> capacity AND (capacity - 1) \<noteq> 0 \<or> producers < 1 \<or> consumers < 1
      then Inl (ValueError ''invalid finite model configuration'')
      else if producers + consumers > capacity \<or> operations < 1
      then Inl (ValueError ''K <= N and positive finite reservation budget required'')
      else if mutation \<notin> set ncq_mutations then Inl (ValueError ''invalid NCQ mutation'')
      else Inr \<lparr>m_n = capacity, m_p = producers, m_c = consumers, m_m = operations,
                m_mutation = mutation, m_abort = allow_abort,
                m_limit = push_bit 64 1 - capacity - 1\<rparr>)"

definition ncq_initial :: "ncq_model \<Rightarrow> ncq_state" where
  "ncq_initial M =
     (let n = m_n M; zero = replicate (nat n) 0 in
      \<lparr>heads = [0, n], tails = [n, n], frontiers = [n, n],
       entries = [0..n - 1] @ zero,
       epochs = zero, phases = zero, status_epochs = zero, word0 = zero, word1 = zero,
       owners = replicate (nat n) (-1),
       actors = replicate (nat (m_p M + m_c M)) (Actor\<lparr>left := m_m M\<rparr>)\<rparr>)"

section \<open>The checked invariant\<close>

text \<open>The loop over the live tickets of queue \<open>q\<close>; \<open>live\<close> is \<open>live[q]\<close> so far.\<close>

fun inv_tickets :: "ncq_model \<Rightarrow> ncq_state \<Rightarrow> int \<Rightarrow> int list \<Rightarrow> int list \<Rightarrow> int list check" where
  "inv_tickets M s q [] live = Go live"
| "inv_tickets M s q (t # ts) live =
     sub (Crash IndexError) (entries s) (q * m_n M + t mod m_n M) (\<lambda>e.
       if e div m_n M \<noteq> t div m_n M then Found (PUBLICATION_HOLE q t e)
       else let b = e mod m_n M in
         if b \<in> set live then Found (DUPLICATE_QUEUE_TOKEN q b)
         else sub (Crash IndexError) (owners s) b (\<lambda>ow.
           if ow \<noteq> -1 - q then Found (TOKEN_MEMBERSHIP q b ow)
           else sub (Crash IndexError) (phases s) b (\<lambda>ph.
             if ph \<noteq> (if q = 0 then 0 else 2) then Found (QUEUED_PHASE q b)
             else sub (Crash IndexError) (status_epochs s) b (\<lambda>se.
               sub (Crash IndexError) (epochs s) b (\<lambda>ep.
                 if se \<noteq> ep then Found (QUEUED_PHASE q b)
                 else if q = 1 then
                   sub (Crash IndexError) (word0 s) b (\<lambda>w0.
                     sub (Crash IndexError) (word1 s) b (\<lambda>w1.
                       if w0 \<noteq> w1 then Found (UNFINISHED_PAYLOAD_PUBLISHED b)
                       else inv_tickets M s q ts (live @ [b])))
                 else inv_tickets M s q ts (live @ [b]))))))"

definition inv_queue :: "ncq_model \<Rightarrow> ncq_state \<Rightarrow> int \<Rightarrow> int list check" where
  "inv_queue M s q =
     sub (Crash IndexError) (heads s) q (\<lambda>h.
       sub (Crash IndexError) (tails s) q (\<lambda>t.
         sub (Crash IndexError) (frontiers s) q (\<lambda>u.
           if \<not> (0 \<le> h \<and> h \<le> u \<and> 0 \<le> u - h \<and> u - h \<le> m_n M \<and> u - 1 \<le> t \<and> t \<le> u)
           then Found (QUEUE_FRONTIER_ORDER q h t u)
           else inv_tickets M s q [h..u - 1] [])))"

text \<open>The loop over the actors; \<open>seen\<close> collects the blocks held by actors.\<close>

fun inv_actors :: "ncq_state \<Rightarrow> int \<Rightarrow> actor list \<Rightarrow> int list \<Rightarrow> int list check" where
  "inv_actors s i [] seen = Go seen"
| "inv_actors s i (a # as) seen =
     (if owns a then
        (if block a < 0 then Found (DOUBLE_ALLOCATION i (block a) None)
         else sub (Crash IndexError) (owners s) (block a) (\<lambda>ow.
           if ow \<noteq> i then Found (DOUBLE_ALLOCATION i (block a) None)
           else inv_actors s (i + 1) as (seen @ [block a])))
      else if aliased a then Found (RECLAIM_WITH_LIVE_ALIAS i (block a))
      else inv_actors s (i + 1) as seen)"

definition ncq_invariant :: "ncq_model \<Rightarrow> ncq_state \<Rightarrow> exn + violation option" where
  "ncq_invariant M s = check_result
     (case inv_queue M s 0 of Crash e \<Rightarrow> Crash e | Found v \<Rightarrow> Found v | Go live0 \<Rightarrow>
      (case inv_queue M s 1 of Crash e \<Rightarrow> Crash e | Found v \<Rightarrow> Found v | Go live1 \<Rightarrow>
       (if set live0 \<inter> set live1 \<noteq> {} then Found TOKEN_IN_BOTH_QUEUES
        else case inv_actors s 0 (actors s) (live0 @ live1) of
          Crash e \<Rightarrow> Crash e | Found v \<Rightarrow> Found v
        | Go seen \<Rightarrow>
            (if sort seen \<noteq> [0..m_n M - 1] then Found (TOKEN_CONSERVATION seen)
             else if \<exists>x \<in> set (epochs s). x < 0 then Found EPOCH_RANGE
             else Go seen))))"

definition ncq_terminal :: "ncq_state \<Rightarrow> bool" where
  "ncq_terminal s \<longleftrightarrow> (\<forall>a \<in> set (actors s). pc a = 99)"

section \<open>Event labels\<close>

text \<open>The label of a transition is the text \<open>f'{i}: {event}'\<close>; its alternatives are constructors.\<close>

datatype ncq_label =
    FinishedBudget
  | BeginDequeue int
  | LoadHead int
  | LoadEntryCurrent int
  | EmptyObservation int
  | StaleGenerationRetry int
  | ClaimDouble int int
  | HeadCasSuccess int int int
  | MutantRefreshedHead
  | HeadCasFailure
  | ValidateFreeToken
  | OwnedEpochMirror int
  | ReleaseReserved
  | AbortOwnedWrite
  | OrdinaryWrite string int
  | ReleaseCommitted
  | ValidateClaimedReady
  | ConsumedAliasStarts
  | OrdinaryRead0
  | MutantEarlyReturn
  | ReadWord1
  | FinalAliasEnds
  | ReleaseEmpty
  | LoadTail int
  | CurrentEntryHelp
  | OneOlderEntry
  | MutantAdvanceTail
  | StaleEnqueueObservation
  | InstallWithoutToken
  | InstallationAt int
  | EntryCasSuccess int int int
  | MutantAdoptWinner
  | EntryCasFailure
  | MutantPostLpWrite
  | TailCas int bool
  | EnqueueResponse
  | BeforeOwnedAccess

fun event_text :: "ncq_label \<Rightarrow> string" where
  "event_text FinishedBudget = ''producer finished finite budget''"
| "event_text (BeginDequeue q) = ''begin dequeue Q'' @ show_int q"
| "event_text (LoadHead q) = ''load Q'' @ show_int q @ ''.head''"
| "event_text (LoadEntryCurrent q) = ''load Q'' @ show_int q @ ''.entry current generation''"
| "event_text (EmptyObservation q) = ''Q'' @ show_int q @ '' empty observation / return''"
| "event_text (StaleGenerationRetry q) = ''Q'' @ show_int q @ '' stale generation retry''"
| "event_text (ClaimDouble q t) = ''claim Q'' @ show_int q @ '' ticket '' @ show_int t"
| "event_text (HeadCasSuccess q t b) =
     ''Q'' @ show_int q @ '' HEAD CAS success ticket '' @ show_int t @ '', token '' @ show_int b
       @ '' [dequeue LP]''"
| "event_text MutantRefreshedHead = ''MUTANT: refreshed head, retained stale entry''"
| "event_text HeadCasFailure = ''head CAS failure; discard observation set''"
| "event_text ValidateFreeToken = ''validate free token''"
| "event_text (OwnedEpochMirror g) = ''owned epoch mirror '' @ show_int g"
| "event_text ReleaseReserved = ''release RESERVED''"
| "event_text AbortOwnedWrite = ''abort owned write; release EMPTY''"
| "event_text (OrdinaryWrite field v) = ''ordinary write '' @ field @ ''='' @ show_int v"
| "event_text ReleaseCommitted = ''release COMMITTED; not queue membership''"
| "event_text ValidateClaimedReady = ''validate claimed ready token''"
| "event_text ConsumedAliasStarts = ''owned metadata validation; CONSUMED; alias starts''"
| "event_text OrdinaryRead0 = ''ordinary read word0''"
| "event_text MutantEarlyReturn = ''MUTANT: return while read alias remains''"
| "event_text ReadWord1 = ''read word1''"
| "event_text FinalAliasEnds = ''ordinary read word1; final alias ends''"
| "event_text ReleaseEmpty = ''release EMPTY; not QF membership''"
| "event_text (LoadTail q) = ''load Q'' @ show_int q @ ''.tail''"
| "event_text CurrentEntryHelp = ''current entry; choose tail helping''"
| "event_text OneOlderEntry = ''one-older entry; prepare install''"
| "event_text MutantAdvanceTail = ''MUTANT: advance tail before installation''"
| "event_text StaleEnqueueObservation = ''stale enqueue observation''"
| "event_text InstallWithoutToken = ''install without token''"
| "event_text (InstallationAt t) = ''installation at '' @ show_int t"
| "event_text (EntryCasSuccess q t b) =
     ''Q'' @ show_int q @ '' ENTRY CAS success ticket '' @ show_int t @ '', token '' @ show_int b
       @ '' [publication LP]''"
| "event_text MutantAdoptWinner = ''MUTANT: adopt winner entry as replacement expected''"
| "event_text EntryCasFailure = ''entry CAS failure; discard observation set''"
| "event_text MutantPostLpWrite = ''MUTANT descriptor write after publication''"
| "event_text (TailCas q own) =
     ''Q'' @ show_int q @ '' tail CAS; '' @ (if own then ''return tail'' else ''helper retry'')"
| "event_text EnqueueResponse = ''enqueue response; no transferred-block access''"
| "event_text BeforeOwnedAccess = ''before owned access''"

definition lab :: "int \<Rightarrow> ncq_label \<Rightarrow> string" where
  "lab i l = show_int i @ '': '' @ event_text l"

section \<open>Successors, one definition per program counter\<close>

type_synonym ncq_event = "(ncq_state, violation) event"

abbreviation at :: "'a list \<Rightarrow> int \<Rightarrow> ('a \<Rightarrow> ncq_event list) \<Rightarrow> ncq_event list" where
  "at \<equiv> sub [Raise IndexError]"

text \<open>A violating transition yields the unchanged state and ends the actor's turn (\<open>continue\<close>).\<close>

definition bad :: "ncq_state \<Rightarrow> int \<Rightarrow> ncq_label \<Rightarrow> violation \<Rightarrow> ncq_event list" where
  "bad s i l v = [Yield (lab i l) s False (Some v)]"

text \<open>
  The common end of a turn: the ownership check on the old actor and the yield. \<open>s'\<close> is \<open>s\<close>
  with the fields collected in \<open>kw\<close>.
\<close>

definition emit ::
    "ncq_state \<Rightarrow> int \<Rightarrow> actor \<Rightarrow> ncq_state \<Rightarrow> actor \<Rightarrow> ncq_label \<Rightarrow> bool \<Rightarrow> ncq_event list" where
  "emit s i a s' new l progress =
     (let out = [Yield (lab i l) (s'\<lparr>actors := put (actors s) i new\<rparr>) progress None] in
      if owns a then
        at (owners s) (block a) (\<lambda>ow.
          if ow \<noteq> i then bad s i BeforeOwnedAccess OWNER_MISMATCH else out)
      else out)"

text \<open>Program counters 0 to 4: dequeue of a token from \<open>QF\<close> (producers) or \<open>QR\<close> (consumers).\<close>

definition begin_dequeue :: "ncq_model \<Rightarrow> ncq_state \<Rightarrow> int \<Rightarrow> actor \<Rightarrow> int \<Rightarrow> ncq_event list" where
  "begin_dequeue M s i a q =
     (if i < m_p M \<and> left a = 0
      then emit s i a s (Actor\<lparr>pc := 99, left := 0\<rparr>) FinishedBudget False
      else emit s i a s
        (a\<lparr>pc := 1, ticket := 0, entry := 0, block := -1, epoch := 0, owns := False, queue := q,
           aliased := False, read := 0\<rparr>) (BeginDequeue q) False)"

definition load_head :: "ncq_model \<Rightarrow> ncq_state \<Rightarrow> int \<Rightarrow> actor \<Rightarrow> int \<Rightarrow> ncq_event list" where
  "load_head M s i a q =
     at (heads s) q (\<lambda>h. emit s i a s (a\<lparr>pc := 2, ticket := h\<rparr>) (LoadHead q) False)"

definition load_entry :: "ncq_model \<Rightarrow> ncq_state \<Rightarrow> int \<Rightarrow> actor \<Rightarrow> int \<Rightarrow> ncq_event list" where
  "load_entry M s i a q =
     (let n = m_n M in
      at (entries s) (q * n + ticket a mod n) (\<lambda>e.
        let ec = e div n; tc = ticket a div n in
        if ec = tc then emit s i a s (a\<lparr>pc := 4, entry := e\<rparr>) (LoadEntryCurrent q) False
        else if tc > 0 \<and> ec = tc - 1 then
          let quiet = (\<not> i < m_p M \<and>
                (\<forall>x \<in> set (take (slice_end (actors s) (m_p M)) (actors s)). pc x = 99))
          in emit s i a s (a\<lparr>pc := if quiet then 99 else 0, ticket := 0, entry := 0\<rparr>)
               (EmptyObservation q) True
        else emit s i a s (a\<lparr>pc := 1, ticket := 0, entry := 0\<rparr>) (StaleGenerationRetry q) False))"

definition cas_head :: "ncq_model \<Rightarrow> ncq_state \<Rightarrow> int \<Rightarrow> actor \<Rightarrow> int \<Rightarrow> ncq_event list" where
  "cas_head M s i a q =
     at (heads s) q (\<lambda>h.
       if h = ticket a \<or> m_mutation M = ''split_head'' then
         let b = entry a mod m_n M in
         at (owners s) b (\<lambda>ow.
           if ow \<noteq> -1 - q
           then bad s i (ClaimDouble q (ticket a)) (DOUBLE_ALLOCATION i b (Some ow))
           else emit s i a
             (s\<lparr>heads := put (heads s) q (ticket a + 1), owners := put (owners s) b i\<rparr>)
             (a\<lparr>pc := if i < m_p M then 5 else 10, block := b, owns := True, ticket := 0,
                entry := 0\<rparr>) (HeadCasSuccess q (ticket a) b) True)
       else if m_mutation M = ''stale_head_retry''
       then emit s i a s (a\<lparr>ticket := h\<rparr>) MutantRefreshedHead False
       else emit s i a s (a\<lparr>pc := 1, ticket := 0, entry := 0\<rparr>) HeadCasFailure False)"

text \<open>Program counters 5 to 9: a producer's private construction of the claimed block.\<close>

definition mirror_epoch :: "ncq_model \<Rightarrow> ncq_state \<Rightarrow> int \<Rightarrow> actor \<Rightarrow> ncq_event list" where
  "mirror_epoch M s i a =
     (let b = block a in
      at (phases s) b (\<lambda>ph.
        if ph \<noteq> 0 then bad s i ValidateFreeToken (INVALID_FREE_PHASE b)
        else at (status_epochs s) b (\<lambda>se. at (epochs s) b (\<lambda>ep.
          if se \<noteq> ep then bad s i ValidateFreeToken (INVALID_FREE_PHASE b)
          else emit s i a (s\<lparr>epochs := put (epochs s) b (ep + 1)\<rparr>)
            (a\<lparr>pc := 6, epoch := ep + 1, left := left a - 1\<rparr>) (OwnedEpochMirror (ep + 1)) False))))"

definition release_reserved :: "ncq_model \<Rightarrow> ncq_state \<Rightarrow> int \<Rightarrow> actor \<Rightarrow> ncq_event list" where
  "release_reserved M s i a =
     (let b = block a in
      at (epochs s) b (\<lambda>ep.
        emit s i a (s\<lparr>phases := put (phases s) b 1, status_epochs := put (status_epochs s) b ep\<rparr>)
          (a\<lparr>pc := 7\<rparr>) ReleaseReserved False))"

definition write_word :: "ncq_model \<Rightarrow> ncq_state \<Rightarrow> int \<Rightarrow> actor \<Rightarrow> ncq_event list" where
  "write_word M s i a =
     (let b = block a; v = 1 + i * m_m M + (m_m M - left a - 1) in
      (if m_abort M
       then [Yield (lab i AbortOwnedWrite)
               (s\<lparr>phases := put (phases s) b 0,
                  actors := put (actors s) i (a\<lparr>pc := 20, queue := 0\<rparr>)\<rparr>) False None]
       else [])
      @ (if pc a = 7
         then emit s i a (s\<lparr>word0 := put (word0 s) b v\<rparr>) (a\<lparr>pc := pc a + 1\<rparr>)
                (OrdinaryWrite ''word0'' v) False
         else emit s i a (s\<lparr>word1 := put (word1 s) b v\<rparr>) (a\<lparr>pc := pc a + 1\<rparr>)
                (OrdinaryWrite ''word1'' v) False))"

definition release_committed :: "ncq_model \<Rightarrow> ncq_state \<Rightarrow> int \<Rightarrow> actor \<Rightarrow> ncq_event list" where
  "release_committed M s i a =
     emit s i a (s\<lparr>phases := put (phases s) (block a) 2\<rparr>) (a\<lparr>pc := 20, queue := 1\<rparr>)
       ReleaseCommitted False"

text \<open>Program counters 10 to 13: a consumer's borrow of a ready block.\<close>

definition validate_ready :: "ncq_model \<Rightarrow> ncq_state \<Rightarrow> int \<Rightarrow> actor \<Rightarrow> ncq_event list" where
  "validate_ready M s i a =
     (let b = block a; torn = bad s i ValidateClaimedReady (TORN_OR_UNCOMMITTED b) in
      at (phases s) b (\<lambda>ph.
        if ph \<noteq> 2 then torn
        else at (status_epochs s) b (\<lambda>se. at (epochs s) b (\<lambda>ep.
          if se \<noteq> ep then torn
          else at (word0 s) b (\<lambda>w0. at (word1 s) b (\<lambda>w1.
            if w0 \<noteq> w1 then torn
            else emit s i a (s\<lparr>phases := put (phases s) b 3\<rparr>)
              (a\<lparr>pc := 11, epoch := ep, aliased := True\<rparr>) ConsumedAliasStarts False))))))"

definition read_word0 :: "ncq_model \<Rightarrow> ncq_state \<Rightarrow> int \<Rightarrow> actor \<Rightarrow> ncq_event list" where
  "read_word0 M s i a =
     (let b = block a in
      at (word0 s) b (\<lambda>w0.
        if m_mutation M = ''early_return''
        then emit s i a (s\<lparr>phases := put (phases s) b 0\<rparr>)
               (a\<lparr>pc := 20, read := w0, queue := 0\<rparr>) MutantEarlyReturn False
        else emit s i a s (a\<lparr>pc := 12, read := w0\<rparr>) OrdinaryRead0 False))"

definition read_word1 :: "ncq_model \<Rightarrow> ncq_state \<Rightarrow> int \<Rightarrow> actor \<Rightarrow> ncq_event list" where
  "read_word1 M s i a =
     at (word1 s) (block a) (\<lambda>w1.
       if w1 \<noteq> read a then bad s i ReadWord1 (TORN_PAYLOAD (block a))
       else emit s i a s (a\<lparr>pc := 13, aliased := False, read := 0\<rparr>) FinalAliasEnds False)"

definition release_empty :: "ncq_model \<Rightarrow> ncq_state \<Rightarrow> int \<Rightarrow> actor \<Rightarrow> ncq_event list" where
  "release_empty M s i a =
     emit s i a (s\<lparr>phases := put (phases s) (block a) 0\<rparr>) (a\<lparr>pc := 20, queue := 0\<rparr>)
       ReleaseEmpty False"

text \<open>Program counters 20 to 25: enqueue of an owned token, with tail helping.\<close>

definition load_tail :: "ncq_model \<Rightarrow> ncq_state \<Rightarrow> int \<Rightarrow> actor \<Rightarrow> ncq_event list" where
  "load_tail M s i a =
     at (tails s) (queue a) (\<lambda>t.
       if t \<ge> m_limit M
       then [Raise (RuntimeError ''finite run unexpectedly reached native ticket ceiling'')]
       else emit s i a s (a\<lparr>pc := 21, ticket := t, entry := 0\<rparr>) (LoadTail (queue a)) False)"

definition observe_entry :: "ncq_model \<Rightarrow> ncq_state \<Rightarrow> int \<Rightarrow> actor \<Rightarrow> ncq_event list" where
  "observe_entry M s i a =
     (let n = m_n M; q = queue a in
      at (entries s) (q * n + ticket a mod n) (\<lambda>e.
        if e div n = ticket a div n
        then emit s i a s (a\<lparr>pc := 25, entry := e\<rparr>) CurrentEntryHelp False
        else if ticket a \<ge> n \<and> e div n = ticket a div n - 1 then
          (if m_mutation M = ''tail_before_entry''
           then emit s i a (s\<lparr>tails := put (tails s) q (ticket a + 1)\<rparr>)
                  (a\<lparr>pc := 22, entry := e\<rparr>) MutantAdvanceTail False
           else emit s i a s (a\<lparr>pc := 22, entry := e\<rparr>) OneOlderEntry False)
        else emit s i a s (a\<lparr>pc := 20, ticket := 0, entry := 0\<rparr>) StaleEnqueueObservation False))"

definition cas_entry :: "ncq_model \<Rightarrow> ncq_state \<Rightarrow> int \<Rightarrow> actor \<Rightarrow> ncq_event list" where
  "cas_entry M s i a =
     (let n = m_n M; q = queue a; b = block a; pos = q * n + ticket a mod n;
          without = bad s i InstallWithoutToken INSTALL_WITHOUT_OWNERSHIP;
          install = at (frontiers s) q (\<lambda>u.
            if ticket a \<noteq> u
            then bad s i (InstallationAt (ticket a)) (OUT_OF_ORDER_PUBLICATION (ticket a) u)
            else emit s i a
              (s\<lparr>entries := put (entries s) pos (ticket a div n * n + b),
                 frontiers := put (frontiers s) q (ticket a + 1),
                 owners := put (owners s) b (-1 - q)\<rparr>)
              (a\<lparr>pc := 23, owns := False\<rparr>) (EntryCasSuccess q (ticket a) b) True)
      in at (entries s) pos (\<lambda>e.
        if e = entry a then
          (if \<not> owns a then without
           else at (owners s) b (\<lambda>ow. if ow \<noteq> i then without else install))
        else if m_mutation M = ''overwrite_current''
        then emit s i a s (a\<lparr>entry := e\<rparr>) MutantAdoptWinner False
        else emit s i a s (a\<lparr>pc := 20, ticket := 0, entry := 0\<rparr>) EntryCasFailure False))"

definition cas_tail :: "ncq_model \<Rightarrow> ncq_state \<Rightarrow> int \<Rightarrow> actor \<Rightarrow> ncq_event list" where
  "cas_tail M s i a =
     (let q = queue a in
      if m_mutation M = ''post_lp_write'' \<and> pc a = 23
      then bad s i MutantPostLpWrite (POST_LP_PAYLOAD_ACCESS (block a))
      else at (tails s) q (\<lambda>t.
        emit s i a (if t = ticket a then s\<lparr>tails := put (tails s) q (ticket a + 1)\<rparr> else s)
          (a\<lparr>pc := if pc a = 23 then 24 else 20, ticket := 0, entry := 0\<rparr>)
          (TailCas q (pc a = 23)) False))"

definition enqueue_response :: "ncq_model \<Rightarrow> ncq_state \<Rightarrow> int \<Rightarrow> actor \<Rightarrow> ncq_event list" where
  "enqueue_response M s i a = emit s i a s (Actor\<lparr>pc := 0, left := left a\<rparr>) EnqueueResponse True"

text \<open>One turn of actor \<open>i\<close>: the dispatch on its program counter.\<close>

definition actor_turn :: "ncq_model \<Rightarrow> ncq_state \<Rightarrow> int \<Rightarrow> actor \<Rightarrow> ncq_event list" where
  "actor_turn M s i a =
     (let q = (if i < m_p M then 0 else 1) in
      if pc a = 0 then begin_dequeue M s i a q
      else if pc a = 1 then load_head M s i a q
      else if pc a = 2 then load_entry M s i a q
      else if pc a = 4 then cas_head M s i a q
      else if pc a = 5 then mirror_epoch M s i a
      else if pc a = 6 then release_reserved M s i a
      else if pc a = 7 \<or> pc a = 8 then write_word M s i a
      else if pc a = 9 then release_committed M s i a
      else if pc a = 10 then validate_ready M s i a
      else if pc a = 11 then read_word0 M s i a
      else if pc a = 12 then read_word1 M s i a
      else if pc a = 13 then release_empty M s i a
      else if pc a = 20 then load_tail M s i a
      else if pc a = 21 then observe_entry M s i a
      else if pc a = 22 then cas_entry M s i a
      else if pc a = 23 \<or> pc a = 25 then cas_tail M s i a
      else if pc a = 24 then enqueue_response M s i a
      else [Raise (RuntimeError (''unknown pc '' @ show_int (pc a)))])"

text \<open>\<open>successors\<close>: the turns of all actors that have not finished, in actor order.\<close>

fun actor_turns :: "ncq_model \<Rightarrow> ncq_state \<Rightarrow> int \<Rightarrow> actor list \<Rightarrow> ncq_event list" where
  "actor_turns M s i [] = []"
| "actor_turns M s i (a # as) =
     (if pc a = 99 then [] else actor_turn M s i a) @ actor_turns M s (i + 1) as"

definition ncq_successors :: "ncq_model \<Rightarrow> ncq_state \<Rightarrow> ncq_event list" where
  "ncq_successors M s = cut (actor_turns M s 0 (actors s))"

end
