(* ===== verification/Ncq_Invariant.thy ===== *)
theory Ncq_Invariant
  imports Ncq
begin

text \<open>
  The inductive invariant of NCQ-SC64 without mutation. It strengthens the invariant the source
  checks with what the program counters know: which slots hold the entry of which cycle, how far an
  observed ticket can lag behind, and what an owner knows of the block it holds.
\<close>

section \<open>Vocabulary\<close>

definition slot :: "ncq_model \<Rightarrow> int \<Rightarrow> int \<Rightarrow> nat" where
  "slot M q T = nat (q * m_n M + T mod m_n M)"

definition ent :: "ncq_model \<Rightarrow> ncq_state \<Rightarrow> int \<Rightarrow> int \<Rightarrow> int" where
  "ent M s q T = entries s ! slot M q T"

definition tok :: "ncq_model \<Rightarrow> ncq_state \<Rightarrow> int \<Rightarrow> int \<Rightarrow> int" where
  "tok M s q T = ent M s q T mod m_n M"

abbreviation Hd :: "ncq_state \<Rightarrow> int \<Rightarrow> int" where "Hd s q \<equiv> heads s ! nat q"
abbreviation Tl :: "ncq_state \<Rightarrow> int \<Rightarrow> int" where "Tl s q \<equiv> tails s ! nat q"
abbreviation Fr :: "ncq_state \<Rightarrow> int \<Rightarrow> int" where "Fr s q \<equiv> frontiers s ! nat q"
abbreviation Ow :: "ncq_state \<Rightarrow> int \<Rightarrow> int" where "Ow s b \<equiv> owners s ! nat b"

text \<open>The queue an actor dequeues from.\<close>

definition deq_queue :: "ncq_model \<Rightarrow> nat \<Rightarrow> int" where
  "deq_queue M i = (if int i < m_p M then 0 else 1)"

section \<open>The invariant\<close>

definition model_ok :: "ncq_model \<Rightarrow> bool" where
  "model_ok M \<longleftrightarrow> 2 \<le> m_n M \<and> 1 \<le> m_p M \<and> 1 \<le> m_c M \<and> m_p M + m_c M \<le> m_n M \<and> 1 \<le> m_m M
     \<and> m_mutation M = ''none''"

definition shape_ok :: "ncq_model \<Rightarrow> ncq_state \<Rightarrow> bool" where
  "shape_ok M s \<longleftrightarrow> length (heads s) = 2 \<and> length (tails s) = 2 \<and> length (frontiers s) = 2
     \<and> int (length (entries s)) = 2 * m_n M \<and> int (length (epochs s)) = m_n M
     \<and> int (length (phases s)) = m_n M \<and> int (length (status_epochs s)) = m_n M
     \<and> int (length (word0 s)) = m_n M \<and> int (length (word1 s)) = m_n M
     \<and> int (length (owners s)) = m_n M \<and> int (length (actors s)) = m_p M + m_c M"

definition queue_ok :: "ncq_model \<Rightarrow> ncq_state \<Rightarrow> int \<Rightarrow> bool" where
  "queue_ok M s q \<longleftrightarrow> 0 \<le> Hd s q \<and> Hd s q \<le> Fr s q \<and> Fr s q - Hd s q \<le> m_n M
     \<and> Fr s q - 1 \<le> Tl s q \<and> Tl s q \<le> Fr s q \<and> m_n M \<le> Tl s q
     \<and> (\<forall>T. Fr s q - m_n M \<le> T \<and> T < Fr s q \<longrightarrow> ent M s q T div m_n M = T div m_n M)"

definition tokens_ok :: "ncq_model \<Rightarrow> ncq_state \<Rightarrow> int \<Rightarrow> bool" where
  "tokens_ok M s q \<longleftrightarrow>
     (\<forall>T. Hd s q \<le> T \<and> T < Fr s q \<longrightarrow> Ow s (tok M s q T) = -1 - q)
     \<and> inj_on (tok M s q) {Hd s q..<Fr s q}
     \<and> (\<forall>b. 0 \<le> b \<and> b < m_n M \<and> Ow s b = -1 - q \<longrightarrow> b \<in> tok M s q ` {Hd s q..<Fr s q})"

definition queued_ok :: "ncq_state \<Rightarrow> int \<Rightarrow> int \<Rightarrow> bool" where
  "queued_ok s q b \<longleftrightarrow> status_epochs s ! nat b = epochs s ! nat b
     \<and> phases s ! nat b = (if q = 0 then 0 else 2)
     \<and> (q = 0 \<or> word0 s ! nat b = word1 s ! nat b)"

definition blocks_ok :: "ncq_model \<Rightarrow> ncq_state \<Rightarrow> bool" where
  "blocks_ok M s \<longleftrightarrow> (\<forall>b. 0 \<le> b \<and> b < m_n M \<longrightarrow>
     0 \<le> epochs s ! nat b \<and> -2 \<le> Ow s b \<and> Ow s b < m_p M + m_c M
     \<and> (Ow s b = -1 \<longrightarrow> queued_ok s 0 b) \<and> (Ow s b = -2 \<longrightarrow> queued_ok s 1 b))"

definition holders_ok :: "ncq_model \<Rightarrow> ncq_state \<Rightarrow> bool" where
  "holders_ok M s \<longleftrightarrow>
     (\<forall>i < length (actors s). owns (actors s ! i) \<longrightarrow>
        0 \<le> block (actors s ! i) \<and> block (actors s ! i) < m_n M
        \<and> Ow s (block (actors s ! i)) = int i)
     \<and> (\<forall>b. \<forall>i < length (actors s). 0 \<le> b \<and> b < m_n M \<and> Ow s b = int i \<longrightarrow>
        owns (actors s ! i) \<and> block (actors s ! i) = b)"

text \<open>What an actor knows of the queues (its observations) at each program counter.\<close>

definition actor_ok :: "ncq_model \<Rightarrow> ncq_state \<Rightarrow> nat \<Rightarrow> actor \<Rightarrow> bool" where
  "actor_ok M s i a \<longleftrightarrow>
     (let q = deq_queue M i; n = m_n M in
      pc a \<in> {0, 1, 2, 4, 5, 6, 7, 8, 9, 10, 11, 12, 13, 20, 21, 22, 23, 24, 25, 99}
      \<and> owns a = (pc a \<in> {5, 6, 7, 8, 9, 10, 11, 12, 13, 20, 21, 22, 25})
      \<and> aliased a = (pc a \<in> {11, 12})
      \<and> (pc a = 2 \<longrightarrow> 0 \<le> ticket a \<and> ticket a \<le> Hd s q)
      \<and> (pc a = 4 \<longrightarrow> 0 \<le> ticket a \<and> ticket a \<le> Hd s q \<and> ticket a < Fr s q
           \<and> (ticket a = Hd s q \<longrightarrow> entry a = ent M s q (ticket a)))
      \<and> (pc a \<in> {5, 6, 7, 8, 9} \<longrightarrow> int i < m_p M)
      \<and> (pc a \<in> {10, 11, 12, 13} \<longrightarrow> m_p M \<le> int i)
      \<and> (pc a \<in> {20, 21, 22, 23, 25} \<longrightarrow> queue a = 0 \<or> queue a = 1)
      \<and> (pc a \<in> {21, 22} \<longrightarrow> n \<le> ticket a \<and> ticket a \<le> Tl s (queue a))
      \<and> (pc a = 22 \<longrightarrow> entry a div n = ticket a div n - 1)
      \<and> (pc a \<in> {23, 25} \<longrightarrow> ticket a < Fr s (queue a)))"

text \<open>What an owner knows of its block.\<close>

definition held_ok :: "ncq_model \<Rightarrow> ncq_state \<Rightarrow> nat \<Rightarrow> actor \<Rightarrow> bool" where
  "held_ok M s i a \<longleftrightarrow>
     (let b = nat (block a); v = 1 + int i * m_m M + (m_m M - left a - 1) in
      (pc a \<in> {5, 7, 8, 9, 10, 11, 12, 13, 20, 21, 22, 25} \<longrightarrow>
         status_epochs s ! b = epochs s ! b)
      \<and> (pc a \<in> {5, 6} \<longrightarrow> phases s ! b = 0)
      \<and> (pc a \<in> {7, 8, 9} \<longrightarrow> phases s ! b = 1)
      \<and> (pc a \<in> {8, 9} \<longrightarrow> word0 s ! b = v)
      \<and> (pc a = 9 \<longrightarrow> word1 s ! b = v)
      \<and> (pc a = 10 \<longrightarrow> phases s ! b = 2)
      \<and> (pc a \<in> {11, 12, 13} \<longrightarrow> phases s ! b = 3)
      \<and> (pc a \<in> {10, 11, 12} \<longrightarrow> word0 s ! b = word1 s ! b)
      \<and> (pc a = 12 \<longrightarrow> read a = word0 s ! b)
      \<and> (pc a \<in> {20, 21, 22, 25} \<longrightarrow> queued_ok s (queue a) (block a)))"

definition ncq_inv :: "ncq_model \<Rightarrow> ncq_state \<Rightarrow> bool" where
  "ncq_inv M s \<longleftrightarrow> shape_ok M s
     \<and> (\<forall>q \<in> {0, 1}. queue_ok M s q \<and> tokens_ok M s q)
     \<and> blocks_ok M s \<and> holders_ok M s
     \<and> (\<forall>i < length (actors s). actor_ok M s i (actors s ! i) \<and> held_ok M s i (actors s ! i))"

section \<open>Slots\<close>

lemma slot_bounds:
  assumes "0 < m_n M" "q \<in> {0, 1}"
  shows "int (slot M q T) = q * m_n M + T mod m_n M"
    and "q * m_n M + T mod m_n M < 2 * m_n M" "0 \<le> q * m_n M + T mod m_n M"
proof -
  have "0 \<le> T mod m_n M" "T mod m_n M < m_n M" using assms(1) by simp_all
  with assms show "q * m_n M + T mod m_n M < 2 * m_n M" and "0 \<le> q * m_n M + T mod m_n M"
    by (elim insertE emptyE; simp; linarith)+
  then show "int (slot M q T) = q * m_n M + T mod m_n M" by (simp add: slot_def)
qed

lemma slot_eq_iff:
  assumes "0 < m_n M" "q \<in> {0, 1}" "q' \<in> {0, 1}"
  shows "slot M q T = slot M q' T' \<longleftrightarrow> q = q' \<and> T mod m_n M = T' mod m_n M"
proof -
  have "slot M q T = slot M q' T' \<longleftrightarrow> q * m_n M + T mod m_n M = q' * m_n M + T' mod m_n M"
    using slot_bounds(1) [OF assms(1,2), of T] slot_bounds(1) [OF assms(1,3), of T'] by linarith
  also have "\<dots> \<longleftrightarrow> q = q' \<and> T mod m_n M = T' mod m_n M"
  proof -
    have "0 \<le> T mod m_n M" "T mod m_n M < m_n M" "0 \<le> T' mod m_n M" "T' mod m_n M < m_n M"
      using assms(1) by simp_all
    then show ?thesis using assms(2,3) by (elim insertE emptyE; simp; linarith)
  qed
  finally show ?thesis .
qed

lemma tok_range: "0 < m_n M \<Longrightarrow> 0 \<le> tok M s q T \<and> tok M s q T < m_n M"
  by (simp add: tok_def)

lemma ent_slot_cong: "T mod m_n M = T' mod m_n M \<Longrightarrow> ent M s q T = ent M s q T'"
  by (simp add: ent_def slot_def)

text \<open>A slot of a past ticket holds that ticket's cycle or a later one.\<close>

lemma entry_cycle_past:
  assumes "0 < m_n M" "queue_ok M s q" "T < Fr s q"
  shows "T div m_n M \<le> ent M s q T div m_n M"
proof -
  obtain T' where T': "Fr s q - m_n M \<le> T'" "T' < Fr s q" "T' mod m_n M = T mod m_n M"
    using slot_owner [OF assms(1)] .
  have "T \<le> T'"
  proof (rule ccontr)
    assume "\<not> T \<le> T'"
    then show False using mod_eq_within_lap [of T "m_n M" T'] T' assms(3) by auto
  qed
  then have "T div m_n M \<le> T' div m_n M" using assms(1) by (simp add: zdiv_mono1)
  also have "\<dots> = ent M s q T' div m_n M" using assms(2) T' by (simp add: queue_ok_def)
  finally show ?thesis using ent_slot_cong [OF T'(3)] by simp
qed

text \<open>The slot of the next ticket to publish holds the cycle before.\<close>

lemma entry_cycle_frontier:
  assumes "0 < m_n M" "queue_ok M s q"
  shows "ent M s q (Fr s q) div m_n M = Fr s q div m_n M - 1"
proof -
  have "ent M s q (Fr s q - m_n M) div m_n M = (Fr s q - m_n M) div m_n M"
    using assms by (simp add: queue_ok_def)
  moreover have "(Fr s q - m_n M) div m_n M = Fr s q div m_n M - 1"
    using assms(1) div_mult_self1 [of "m_n M" "Fr s q" "-1"] by simp
  moreover have "ent M s q (Fr s q - m_n M) = ent M s q (Fr s q)"
    by (rule ent_slot_cong) simp
  ultimately show ?thesis by simp
qed


section \<open>Frame: steps that leave tokens and published entries alone\<close>

lemmas ent_frame = ent_def tok_def

lemma actor_okD:
  assumes "actor_ok M s i a"
  shows "pc a \<in> {0, 1, 2, 4, 5, 6, 7, 8, 9, 10, 11, 12, 13, 20, 21, 22, 23, 24, 25, 99}"
    "owns a = (pc a \<in> {5, 6, 7, 8, 9, 10, 11, 12, 13, 20, 21, 22, 25})"
    "aliased a = (pc a \<in> {11, 12})"
    "pc a = 2 \<longrightarrow> 0 \<le> ticket a \<and> ticket a \<le> Hd s (deq_queue M i)"
    "pc a = 4 \<longrightarrow> 0 \<le> ticket a \<and> ticket a \<le> Hd s (deq_queue M i)
       \<and> ticket a < Fr s (deq_queue M i)
       \<and> (ticket a = Hd s (deq_queue M i) \<longrightarrow> entry a = ent M s (deq_queue M i) (ticket a))"
    "pc a \<in> {5, 6, 7, 8, 9} \<longrightarrow> int i < m_p M"
    "pc a \<in> {10, 11, 12, 13} \<longrightarrow> m_p M \<le> int i"
    "pc a \<in> {20, 21, 22, 23, 25} \<longrightarrow> queue a = 0 \<or> queue a = 1"
    "pc a \<in> {21, 22} \<longrightarrow> m_n M \<le> ticket a \<and> ticket a \<le> Tl s (queue a)"
    "pc a = 22 \<longrightarrow> entry a div m_n M = ticket a div m_n M - 1"
    "pc a \<in> {23, 25} \<longrightarrow> ticket a < Fr s (queue a)"
  using assms unfolding actor_ok_def Let_def by - (elim conjE, assumption)+

lemma actor_okI:
  assumes "pc a \<in> {0, 1, 2, 4, 5, 6, 7, 8, 9, 10, 11, 12, 13, 20, 21, 22, 23, 24, 25, 99}"
    "owns a = (pc a \<in> {5, 6, 7, 8, 9, 10, 11, 12, 13, 20, 21, 22, 25})"
    "aliased a = (pc a \<in> {11, 12})"
    "pc a = 2 \<longrightarrow> 0 \<le> ticket a \<and> ticket a \<le> Hd s (deq_queue M i)"
    "pc a = 4 \<longrightarrow> 0 \<le> ticket a \<and> ticket a \<le> Hd s (deq_queue M i)
       \<and> ticket a < Fr s (deq_queue M i)
       \<and> (ticket a = Hd s (deq_queue M i) \<longrightarrow> entry a = ent M s (deq_queue M i) (ticket a))"
    "pc a \<in> {5, 6, 7, 8, 9} \<longrightarrow> int i < m_p M"
    "pc a \<in> {10, 11, 12, 13} \<longrightarrow> m_p M \<le> int i"
    "pc a \<in> {20, 21, 22, 23, 25} \<longrightarrow> queue a = 0 \<or> queue a = 1"
    "pc a \<in> {21, 22} \<longrightarrow> m_n M \<le> ticket a \<and> ticket a \<le> Tl s (queue a)"
    "pc a = 22 \<longrightarrow> entry a div m_n M = ticket a div m_n M - 1"
    "pc a \<in> {23, 25} \<longrightarrow> ticket a < Fr s (queue a)"
  shows "actor_ok M s i a"
  unfolding actor_ok_def Let_def by (intro conjI assms)

lemma actor_ok_mono:
  assumes ok: "actor_ok M s i a"
    and h: "\<And>q. q \<in> {0, 1} \<Longrightarrow> Hd s q \<le> Hd s' q" and t: "\<And>q. q \<in> {0, 1} \<Longrightarrow> Tl s q \<le> Tl s' q"
    and f: "\<And>q. q \<in> {0, 1} \<Longrightarrow> Fr s q \<le> Fr s' q"
    and e: "pc a = 4 \<Longrightarrow> ticket a = Hd s' (deq_queue M i) \<Longrightarrow> Hd s (deq_queue M i) = ticket a \<Longrightarrow>
      ent M s' (deq_queue M i) (ticket a) = ent M s (deq_queue M i) (ticket a)"
  shows "actor_ok M s' i a"
proof (rule actor_okI [OF actor_okD(1,2,3) [OF ok] _ _ actor_okD(6,7,8) [OF ok] _
      actor_okD(10) [OF ok] _])
  let ?q = "deq_queue M i"
  have q: "?q \<in> {0, 1}" by (simp add: deq_queue_def)
  note m = h [OF q] f [OF q]
  show "pc a = 2 \<longrightarrow> 0 \<le> ticket a \<and> ticket a \<le> Hd s' ?q"
    using actor_okD(4) [OF ok] m(1) by linarith
  show "pc a = 4 \<longrightarrow> 0 \<le> ticket a \<and> ticket a \<le> Hd s' ?q \<and> ticket a < Fr s' ?q
       \<and> (ticket a = Hd s' ?q \<longrightarrow> entry a = ent M s' ?q (ticket a))"
  proof
    assume p: "pc a = 4"
    with actor_okD(5) [OF ok] have c: "0 \<le> ticket a" "ticket a \<le> Hd s ?q" "ticket a < Fr s ?q"
      "ticket a = Hd s ?q \<longrightarrow> entry a = ent M s ?q (ticket a)" by blast+
    have "entry a = ent M s' ?q (ticket a)" if x: "ticket a = Hd s' ?q"
    proof -
      have "ticket a = Hd s ?q" using x c(2) m(1) by linarith
      with c(4) e [OF p x] show ?thesis by simp
    qed
    with c m show "0 \<le> ticket a \<and> ticket a \<le> Hd s' ?q \<and> ticket a < Fr s' ?q
       \<and> (ticket a = Hd s' ?q \<longrightarrow> entry a = ent M s' ?q (ticket a))" by linarith
  qed
  show "pc a \<in> {21, 22} \<longrightarrow> m_n M \<le> ticket a \<and> ticket a \<le> Tl s' (queue a)"
  proof
    assume p: "pc a \<in> {21, 22}"
    then have "pc a \<in> {20, 21, 22, 23, 25}" by blast
    then have "queue a \<in> {0, 1}" using actor_okD(8) [OF ok] by simp
    from t [OF this] actor_okD(9) [OF ok] p
    show "m_n M \<le> ticket a \<and> ticket a \<le> Tl s' (queue a)" by linarith
  qed
  show "pc a \<in> {23, 25} \<longrightarrow> ticket a < Fr s' (queue a)"
  proof
    assume p: "pc a \<in> {23, 25}"
    then have "pc a \<in> {20, 21, 22, 23, 25}" by blast
    then have "queue a \<in> {0, 1}" using actor_okD(8) [OF ok] by simp
    from f [OF this] actor_okD(11) [OF ok] p show "ticket a < Fr s' (queue a)" by linarith
  qed
qed

definition same_block :: "ncq_state \<Rightarrow> ncq_state \<Rightarrow> int \<Rightarrow> bool" where
  "same_block s s' b \<longleftrightarrow> phases s' ! nat b = phases s ! nat b
     \<and> epochs s' ! nat b = epochs s ! nat b \<and> status_epochs s' ! nat b = status_epochs s ! nat b
     \<and> word0 s' ! nat b = word0 s ! nat b \<and> word1 s' ! nat b = word1 s ! nat b"

lemma queued_ok_cong: "same_block s s' b \<Longrightarrow> queued_ok s' q b = queued_ok s q b"
  by (simp add: queued_ok_def same_block_def)

lemma held_ok_cong: "same_block s s' (block a) \<Longrightarrow> held_ok M s' i a = held_ok M s i a"
  by (simp add: held_ok_def same_block_def queued_ok_def Let_def)

lemma held_ok_not_owner: "actor_ok M s i a \<Longrightarrow> \<not> owns a \<Longrightarrow> held_ok M s' i a"
  by (auto simp: actor_ok_def held_ok_def Let_def)

lemma holders_okD:
  assumes "holders_ok M s" "i < length (actors s)" "owns (actors s ! i)"
  shows "0 \<le> block (actors s ! i)" "block (actors s ! i) < m_n M"
    "Ow s (block (actors s ! i)) = int i"
  using assms by (simp_all add: holders_ok_def)

lemma holders_ok_blockD:
  assumes "holders_ok M s" "i < length (actors s)" "0 \<le> b" "b < m_n M" "Ow s b = int i"
  shows "owns (actors s ! i)" "block (actors s ! i) = b"
  using assms unfolding holders_ok_def by blast+

lemma inv_frame:
  assumes I: "ncq_inv M s" and i: "i < length (actors s)"
    and q: "heads s' = heads s" "frontiers s' = frontiers s" "entries s' = entries s"
      "owners s' = owners s"
    and t: "\<And>q. q = 0 \<or> q = 1 \<Longrightarrow> Tl s q \<le> Tl s' q \<and> Tl s' q \<le> Fr s q"
    and sh: "shape_ok M s'" and act: "actors s' = (actors s)[i := new]"
    and same: "\<And>b. 0 \<le> b \<Longrightarrow> b < m_n M \<Longrightarrow> Ow s b \<noteq> int i \<Longrightarrow> same_block s s' b"
    and ep: "\<And>b. 0 \<le> b \<Longrightarrow> b < m_n M \<Longrightarrow> 0 \<le> epochs s' ! nat b"
    and ow: "owns new = owns (actors s ! i)"
      "owns new \<Longrightarrow> block new = block (actors s ! i)"
    and new: "actor_ok M s' i new" "held_ok M s' i new"
  shows "ncq_inv M s'"
proof -
  have e: "ent M s' q T = ent M s q T" for q T by (simp add: ent_def q)
  have k: "tok M s' q T = tok M s q T" for q T by (simp add: tok_def e)
  have kf: "tok M s' = tok M s" by (intro ext k)
  have Q: "queue_ok M s' q \<and> tokens_ok M s' q" if "q \<in> {0, 1}" for q
  proof -
    from I that have "queue_ok M s q" "tokens_ok M s q" by (auto simp: ncq_inv_def)
    moreover from t [of q] that have "Tl s q \<le> Tl s' q" "Tl s' q \<le> Fr s q" by auto
    ultimately show ?thesis unfolding queue_ok_def tokens_ok_def e kf q by auto
  qed
  have blk: "blocks_ok M s" and hol: "holders_ok M s" using I by (auto simp: ncq_inv_def)
  have B: "blocks_ok M s'" unfolding blocks_ok_def q
  proof (intro allI impI)
    fix b assume b: "0 \<le> b \<and> b < m_n M"
    with blk have old: "-2 \<le> Ow s b \<and> Ow s b < m_p M + m_c M"
      "Ow s b = -1 \<Longrightarrow> queued_ok s 0 b" "Ow s b = -2 \<Longrightarrow> queued_ok s 1 b"
      by (auto simp: blocks_ok_def)
    have c: "queued_ok s q b \<Longrightarrow> Ow s b \<noteq> int i \<Longrightarrow> queued_ok s' q b" for q
      using b same [of b] by (simp add: queued_ok_cong)
    have "Ow s b = -1 \<Longrightarrow> queued_ok s' 0 b" "Ow s b = -2 \<Longrightarrow> queued_ok s' 1 b"
      using old(2,3) c by simp_all
    with old(1) ep b show "0 \<le> epochs s' ! nat b \<and> -2 \<le> Ow s b \<and> Ow s b < m_p M + m_c M
        \<and> (Ow s b = -1 \<longrightarrow> queued_ok s' 0 b) \<and> (Ow s b = -2 \<longrightarrow> queued_ok s' 1 b)"
      by blast
  qed
  have oi: "owns (actors s' ! j) = owns (actors s ! j)"
    "owns (actors s ! j) \<Longrightarrow> block (actors s' ! j) = block (actors s ! j)"
    if "j < length (actors s)" for j
    using ow i that by (auto simp: act nth_list_update)
  have len: "length (actors s') = length (actors s)" by (simp add: act)
  have H1: "0 \<le> block (actors s' ! j) \<and> block (actors s' ! j) < m_n M
      \<and> Ow s (block (actors s' ! j)) = int j"
    if l: "j < length (actors s)" and o: "owns (actors s' ! j)" for j
  proof -
    from o oi [OF l] have "owns (actors s ! j)" "block (actors s' ! j) = block (actors s ! j)" by auto
    with holders_okD [OF hol l] show ?thesis by simp
  qed
  have H2: "owns (actors s' ! j) \<and> block (actors s' ! j) = b"
    if l: "j < length (actors s)" and b: "0 \<le> b \<and> b < m_n M \<and> Ow s b = int j" for j b
  proof -
    from holders_ok_blockD [OF hol l] b have "owns (actors s ! j) \<and> block (actors s ! j) = b"
      by blast
    with oi [OF l] show ?thesis by auto
  qed
  have H: "holders_ok M s'" unfolding holders_ok_def q len using H1 H2 by blast
  have A: "actor_ok M s' j (actors s' ! j) \<and> held_ok M s' j (actors s' ! j)"
    if j: "j < length (actors s')" for j
  proof (cases "j = i")
    case True then show ?thesis using new i act by simp
  next
    case False
    let ?a = "actors s ! j"
    have jl: "j < length (actors s)" using j act by simp
    have a: "actors s' ! j = ?a" using False act by simp
    from I jl have ok: "actor_ok M s j ?a" "held_ok M s j ?a" by (auto simp: ncq_inv_def)
    have 1: "actor_ok M s' j ?a" by (rule actor_ok_mono [OF ok(1)]) (use t q e in auto)
    have 2: "held_ok M s' j ?a"
    proof (cases "owns ?a")
      case True
      note h = holders_okD [OF hol jl True]
      from h(3) False have "same_block s s' (block ?a)" by (intro same [OF h(1,2)]) simp
      with ok(2) show ?thesis by (simp add: held_ok_cong)
    next
      case False then show ?thesis using ok(1) by (intro held_ok_not_owner)
    qed
    from 1 2 show ?thesis by (simp add: a)
  qed
  show ?thesis unfolding ncq_inv_def using sh Q B H A by blast
qed


section \<open>Handing a block over\<close>

lemma tokens_okD:
  assumes "tokens_ok M s q" "Hd s q \<le> T" "T < Fr s q"
  shows "Ow s (tok M s q T) = -1 - q"
  using assms by (simp add: tokens_ok_def)

lemma tokens_ok_inj:
  assumes "tokens_ok M s q" "Hd s q \<le> T" "T < Fr s q" "Hd s q \<le> T'" "T' < Fr s q"
    "tok M s q T = tok M s q T'"
  shows "T = T'"
  using assms inj_onD [of "tok M s q" "{Hd s q..<Fr s q}" T T'] by (simp add: tokens_ok_def)

lemma tokens_ok_surj:
  assumes "tokens_ok M s q" "0 \<le> b" "b < m_n M" "Ow s b = -1 - q"
  obtains T where "b = tok M s q T" "Hd s q \<le> T" "T < Fr s q"
  using assms by (auto simp: tokens_ok_def)

lemma deq_queue_cases: "deq_queue M i \<in> {0, 1}"
  by (simp add: deq_queue_def)

lemma blocks_ok_handover:
  assumes "blocks_ok M s" "0 \<le> b" "int (length (owners s)) = m_n M"
    and s': "owners s' = (owners s)[nat b := v]" "\<And>c. same_block s s' c"
    and v: "-2 \<le> v" "v < m_p M + m_c M"
      "v = -1 \<Longrightarrow> queued_ok s 0 b" "v = -2 \<Longrightarrow> queued_ok s 1 b"
  shows "blocks_ok M s'"
  unfolding blocks_ok_def
proof (intro allI impI)
  fix c assume c: "0 \<le> c \<and> c < m_n M"
  have ov: "Ow s' c = (if c = b then v else Ow s c)"
    using c assms(2,3) by (simp add: s'(1) nth_list_update_nat)
  have "0 \<le> epochs s' ! nat c" using assms(1) c s'(2) [of c] by (simp add: blocks_ok_def same_block_def)
  moreover have "-2 \<le> Ow s c" "Ow s c < m_p M + m_c M"
    "Ow s c = -1 \<Longrightarrow> queued_ok s 0 c" "Ow s c = -2 \<Longrightarrow> queued_ok s 1 c"
    using assms(1) c by (auto simp: blocks_ok_def)
  ultimately show "0 \<le> epochs s' ! nat c \<and> -2 \<le> Ow s' c \<and> Ow s' c < m_p M + m_c M
      \<and> (Ow s' c = -1 \<longrightarrow> queued_ok s' 0 c) \<and> (Ow s' c = -2 \<longrightarrow> queued_ok s' 1 c)"
    unfolding queued_ok_cong [OF s'(2)] ov using v by (cases "c = b") simp_all
qed

lemma holders_ok_claim:
  assumes hol: "holders_ok M s" and i: "i < length (actors s)" and b: "0 \<le> b" "b < m_n M"
    and lo: "int (length (owners s)) = m_n M"
    and s': "owners s' = (owners s)[nat b := int i]" "actors s' = (actors s)[i := new]"
    and new: "owns new" "block new = b" "\<not> owns (actors s ! i)" "Ow s b < 0"
  shows "holders_ok M s'"
proof -
  have O: "Ow s' c = (if c = b then int i else Ow s c)" if "0 \<le> c" "c < m_n M" for c
    using that b lo by (simp add: s' nth_list_update_nat)
  have 1: "0 \<le> block (actors s' ! j) \<and> block (actors s' ! j) < m_n M
      \<and> Ow s' (block (actors s' ! j)) = int j"
    if l: "j < length (actors s)" and o: "owns (actors s' ! j)" for j
  proof (cases "j = i")
    case True then show ?thesis using new b i O [OF b] by (simp add: s'(2))
  next
    case False
    with o l have "owns (actors s ! j)" by (simp add: s'(2))
    note h = holders_okD [OF hol l this]
    have "block (actors s ! j) \<noteq> b" using h(3) new(4) by auto
    then show ?thesis using False l h O [OF h(1,2)] by (simp add: s'(2))
  qed
  have 2: "owns (actors s' ! j) \<and> block (actors s' ! j) = c"
    if l: "j < length (actors s)" and c: "0 \<le> c" "c < m_n M" "Ow s' c = int j" for j c
  proof (cases "c = b")
    case True then have "j = i" using c(3) O [OF c(1,2)] by simp
    then show ?thesis using True new i by (simp add: s'(2))
  next
    case False
    then have "Ow s c = int j" using c(3) O [OF c(1,2)] by simp
    note h = holders_ok_blockD [OF hol l c(1,2) this]
    with new(3) have "j \<noteq> i" by auto
    with h l show ?thesis by (simp add: s'(2))
  qed
  have len: "length (actors s') = length (actors s)" by (simp add: s'(2))
  show ?thesis unfolding holders_ok_def len using 1 2 by blast
qed

lemma holders_ok_install:
  assumes hol: "holders_ok M s" and i: "i < length (actors s)"
    and lo: "int (length (owners s)) = m_n M" and ai: "owns (actors s ! i)"
    and s': "owners s' = (owners s)[nat (block (actors s ! i)) := v]"
      "actors s' = (actors s)[i := new]"
    and new: "\<not> owns new" "v < 0"
  shows "holders_ok M s'"
proof -
  let ?b = "block (actors s ! i)"
  note hi = holders_okD [OF hol i ai]
  have O: "Ow s' c = (if c = ?b then v else Ow s c)" if "0 \<le> c" "c < m_n M" for c
    using that hi lo by (simp add: s' nth_list_update_nat)
  have 1: "0 \<le> block (actors s' ! j) \<and> block (actors s' ! j) < m_n M
      \<and> Ow s' (block (actors s' ! j)) = int j"
    if l: "j < length (actors s)" and o: "owns (actors s' ! j)" for j
  proof -
    have ne: "j \<noteq> i" using o l new by (auto simp: s'(2))
    with o l have "owns (actors s ! j)" by (simp add: s'(2))
    note h = holders_okD [OF hol l this]
    have "block (actors s ! j) \<noteq> ?b" using h(3) hi(3) ne by auto
    then show ?thesis using ne l h O [OF h(1,2)] by (simp add: s'(2))
  qed
  have 2: "owns (actors s' ! j) \<and> block (actors s' ! j) = c"
    if l: "j < length (actors s)" and c: "0 \<le> c" "c < m_n M" "Ow s' c = int j" for j c
  proof -
    have ne: "c \<noteq> ?b" using c(3) O [OF c(1,2)] new(2) by auto
    then have "Ow s c = int j" using c(3) O [OF c(1,2)] by simp
    note h = holders_ok_blockD [OF hol l c(1,2) this]
    with ne have "j \<noteq> i" by auto
    with h l show ?thesis by (simp add: s'(2))
  qed
  have len: "length (actors s') = length (actors s)" by (simp add: s'(2))
  show ?thesis unfolding holders_ok_def len using 1 2 by blast
qed

section \<open>Claim: the dequeue linearization point\<close>

lemma tokens_ok_claim:
  assumes n: "0 < m_n M" and t: "tokens_ok M s q" "tokens_ok M s p" and pq: "q \<in> {0, 1}" "p \<in> {0, 1}"
    and live: "Hd s q < Fr s q" and lo: "int (length (owners s)) = m_n M" "length (heads s) = 2"
    and s': "heads s' = (heads s)[nat q := Hd s q + 1]" "frontiers s' = frontiers s"
      "entries s' = entries s" "owners s' = (owners s)[nat (tok M s q (Hd s q)) := v]" "0 \<le> v"
  shows "tokens_ok M s' p"
proof -
  let ?b = "tok M s q (Hd s q)"
  have br: "0 \<le> ?b" "?b < m_n M" using tok_range [OF n] by auto
  have k: "tok M s' q = tok M s q" for q by (intro ext) (simp add: tok_def ent_def s')
  have H: "Hd s' p = (if p = q then Hd s q + 1 else Hd s p)"
    using pq lo by (auto simp: s' nth_list_update)
  have O: "Ow s' c = (if c = ?b then v else Ow s c)" if "0 \<le> c" "c < m_n M" for c
    using that br lo by (simp add: s' nth_list_update_nat)
  have sub: "{Hd s' p..<Fr s p} \<subseteq> {Hd s p..<Fr s p}" by (auto simp: H)
  have nb: "tok M s p T \<noteq> ?b" if T: "Hd s' p \<le> T" "T < Fr s p" for T
  proof
    assume tb: "tok M s p T = ?b"
    have T': "Hd s p \<le> T" using T(1) by (simp add: H split: if_splits)
    have "p = q" using tokens_okD [OF t(2) T' T(2)] tokens_okD [OF t(1) order_refl live] tb by simp
    with tokens_ok_inj [OF t(1), of T "Hd s q"] T T' tb live H show False by simp
  qed
  have "Ow s' (tok M s p T) = -1 - p" if T: "Hd s' p \<le> T" "T < Fr s p" for T
    using nb [OF T] tokens_okD [OF t(2), of T] T sub tok_range [OF n, of s p T] O by auto
  moreover have "inj_on (tok M s p) {Hd s' p..<Fr s p}"
    using t(2) sub by (auto simp: tokens_ok_def intro: inj_on_subset)
  moreover have "c \<in> tok M s p ` {Hd s' p..<Fr s p}"
    if c: "0 \<le> c" "c < m_n M" "Ow s' c = -1 - p" for c
  proof -
    have cb: "c \<noteq> ?b" using c(3) O [OF c(1,2)] pq s'(5) by auto
    with c O [OF c(1,2)] have "Ow s c = -1 - p" by simp
    then obtain T where T: "c = tok M s p T" "Hd s p \<le> T" "T < Fr s p"
      using tokens_ok_surj [OF t(2) c(1,2)] by metis
    with cb have "\<not> (p = q \<and> T = Hd s q)" by auto
    with T have "Hd s' p \<le> T" by (auto simp: H)
    with T show ?thesis by auto
  qed
  ultimately show ?thesis unfolding tokens_ok_def k s'(2) by blast
qed

lemma inv_claim:
  assumes I: "ncq_inv M s" and n: "0 < m_n M" and i: "i < length (actors s)"
    and free: "\<not> owns (actors s ! i)" and q: "q \<in> {0, 1}"
    and live: "Hd s q < Fr s q" and b: "b = tok M s q (Hd s q)"
    and s': "s' = s\<lparr>heads := (heads s)[nat q := Hd s q + 1], owners := (owners s)[nat b := int i],
                  actors := (actors s)[i := new]\<rparr>"
    and new: "owns new" "block new = b" "actor_ok M s' i new" "held_ok M s' i new"
  shows "ncq_inv M s'"
proof -
  have sh: "shape_ok M s" and blk: "blocks_ok M s" and hol: "holders_ok M s"
    using I by (auto simp: ncq_inv_def)
  have QT: "queue_ok M s q" "tokens_ok M s q" if "q \<in> {0, 1}" for q
    using I that by (auto simp: ncq_inv_def)
  have br: "0 \<le> b" "b < m_n M" using tok_range [OF n] b by auto
  have lo: "int (length (owners s)) = m_n M" "length (heads s) = 2"
    "int (length (actors s)) = m_p M + m_c M" using sh by (auto simp: shape_ok_def)
  have ob: "Ow s b < 0" using tokens_okD [OF QT(2) [OF q] order_refl live] b q by auto
  have e: "ent M s' q T = ent M s q T" for q T by (simp add: ent_def s')
  have H: "Hd s' p = (if p = q then Hd s q + 1 else Hd s p)" if "p \<in> {0, 1}" for p
    using that q lo by (auto simp: s' nth_list_update)
  have sb: "same_block s s' c" for c by (simp add: same_block_def s')
  have Q: "queue_ok M s' p \<and> tokens_ok M s' p" if p: "p \<in> {0, 1}" for p
  proof
    show "queue_ok M s' p"
      using QT(1) [OF p] live unfolding queue_ok_def e H [OF p] by (auto simp: s')
    show "tokens_ok M s' p"
      by (rule tokens_ok_claim [OF n QT(2) [OF q] QT(2) [OF p] q p live lo(1,2), where v = "int i"])
         (simp_all add: s' b)
  qed
  have B: "blocks_ok M s'"
    by (rule blocks_ok_handover [OF blk br(1) lo(1) _ sb, of "int i"]) (use i lo in \<open>auto simp: s'\<close>)
  have Hol: "holders_ok M s'"
    by (rule holders_ok_claim [OF hol i br lo(1) _ _ new(1,2) free ob]) (simp_all add: s')
  have A: "actor_ok M s' j (actors s' ! j) \<and> held_ok M s' j (actors s' ! j)"
    if l: "j < length (actors s)" for j
  proof (cases "j = i")
    case True then show ?thesis using new i by (simp add: s')
  next
    case False
    have ok: "actor_ok M s j (actors s ! j)" "held_ok M s j (actors s ! j)"
      using I l by (auto simp: ncq_inv_def)
    have "actor_ok M s' j (actors s ! j)"
      by (rule actor_ok_mono [OF ok(1)]) (auto simp: H e, auto simp: s')
    moreover from ok(2) have "held_ok M s' j (actors s ! j)" by (simp add: held_ok_cong [OF sb])
    moreover have "actors s' ! j = actors s ! j" using False by (simp add: s')
    ultimately show ?thesis by simp
  qed
  have len: "length (actors s') = length (actors s)" and S: "shape_ok M s'"
    using sh by (simp_all add: shape_ok_def s')
  show ?thesis unfolding ncq_inv_def len using S Q B Hol A by blast
qed

section \<open>Installation: the publication linearization point\<close>

text \<open>A held token is outside the queue, so the ring has a free slot for it.\<close>

lemma held_token_room:
  assumes n: "0 < m_n M" and Q: "queue_ok M s q" and T: "tokens_ok M s q"
    and b: "0 \<le> b" "b < m_n M" "Ow s b \<noteq> -1 - q"
  shows "Fr s q - Hd s q < m_n M"
proof -
  have "tok M s q ` {Hd s q..<Fr s q} \<subseteq> {0..<m_n M} - {b}"
    using tok_range [OF n] tokens_okD [OF T] b(3) by fastforce
  then have "card (tok M s q ` {Hd s q..<Fr s q}) \<le> card ({0..<m_n M} - {b})"
    by (intro card_mono) auto
  moreover have "card (tok M s q ` {Hd s q..<Fr s q}) = nat (Fr s q - Hd s q)"
    using T by (simp add: tokens_ok_def card_image)
  moreover have "card ({0..<m_n M} - {b}) = nat (m_n M) - 1" using b by simp
  ultimately show ?thesis using n by linarith
qed

text \<open>A successful entry CAS can only happen at the frontier.\<close>

lemma install_at_frontier:
  assumes n: "0 < m_n M" and Q: "queue_ok M s q" and q: "q \<in> {0, 1}"
    and T: "T \<le> Tl s q" "ent M s q T div m_n M = T div m_n M - 1"
  shows "T = Fr s q" "Tl s q = Fr s q"
proof -
  have le: "T \<le> Fr s q" "Tl s q \<le> Fr s q" using Q T by (auto simp: queue_ok_def)
  have "\<not> T < Fr s q" using entry_cycle_past [OF n Q] T(2) by fastforce
  with le T(1) show "T = Fr s q" "Tl s q = Fr s q" by auto
qed

lemma ent_install:
  assumes n: "0 < m_n M" and q: "q \<in> {0, 1}" "p \<in> {0, 1}"
    and len: "int (length (entries s)) = 2 * m_n M"
    and s': "entries s' = (entries s)[slot M q u := e]"
  shows "ent M s' p T = (if p = q \<and> T mod m_n M = u mod m_n M then e else ent M s p T)"
proof -
  have "slot M q u < length (entries s)" using slot_bounds [OF n q(1), of u] len by linarith
  then show ?thesis
    using slot_eq_iff [OF n q(1) q(2), of u T] by (auto simp: ent_def s' nth_list_update)
qed

lemma queue_ok_install:
  assumes n: "0 < m_n M" and Q: "queue_ok M s p" and q: "q \<in> {0, 1}" "p \<in> {0, 1}"
    and u: "u = Fr s q" "Tl s q = u" "u - Hd s q < m_n M" and e: "e div m_n M = u div m_n M"
    and len: "int (length (entries s)) = 2 * m_n M" "length (frontiers s) = 2"
    and s': "entries s' = (entries s)[slot M q u := e]" "heads s' = heads s" "tails s' = tails s"
      "frontiers s' = (frontiers s)[nat q := u + 1]"
  shows "queue_ok M s' p"
proof -
  have F: "Fr s' p = (if p = q then u + 1 else Fr s p)"
    using q len by (auto simp: s' nth_list_update)
  have "ent M s' p T div m_n M = T div m_n M" if T: "Fr s' p - m_n M \<le> T" "T < Fr s' p" for T
  proof (cases "p = q \<and> T mod m_n M = u mod m_n M")
    case True
    then have "T = u" using T mod_eq_within_lap [of T "m_n M" u] F by auto
    then show ?thesis using True e ent_install [OF n q len(1) s'(1), of T] by simp
  next
    case False
    then have "T \<noteq> u \<or> p \<noteq> q" by auto
    then have "Fr s p - m_n M \<le> T" "T < Fr s p" using T F u(1) by (auto split: if_splits)
    then have "ent M s p T div m_n M = T div m_n M" using Q by (simp add: queue_ok_def)
    then show ?thesis
      unfolding ent_install [OF n q len(1) s'(1), of T] if_not_P [OF False] .
  qed
  moreover have "0 \<le> Hd s p \<and> Hd s p \<le> Fr s' p \<and> Fr s' p - Hd s p \<le> m_n M
      \<and> Fr s' p - 1 \<le> Tl s p \<and> Tl s p \<le> Fr s' p \<and> m_n M \<le> Tl s p"
  proof (cases "p = q")
    case True
    then show ?thesis using Q u F by (simp add: queue_ok_def)
  next
    case False
    then show ?thesis using Q F by (simp add: queue_ok_def)
  qed
  ultimately show ?thesis unfolding queue_ok_def s'(2,3) by blast
qed

lemma tokens_ok_install:
  assumes n: "0 < m_n M" and Q: "queue_ok M s q" and t: "tokens_ok M s q" "tokens_ok M s p"
    and q: "q \<in> {0, 1}" "p \<in> {0, 1}"
    and u: "u = Fr s q" "u - Hd s q < m_n M" "0 \<le> b" "b < m_n M" "0 \<le> Ow s b"
    and len: "int (length (entries s)) = 2 * m_n M" "length (frontiers s) = 2"
      "int (length (owners s)) = m_n M"
    and s': "entries s' = (entries s)[slot M q u := u div m_n M * m_n M + b]" "heads s' = heads s"
      "frontiers s' = (frontiers s)[nat q := u + 1]" "owners s' = (owners s)[nat b := -1 - q]"
  shows "tokens_ok M s' p"
proof -
  have F: "Fr s' p = (if p = q then u + 1 else Fr s p)"
    using q len by (auto simp: s' nth_list_update)
  have O: "Ow s' c = (if c = b then -1 - q else Ow s c)" if "0 \<le> c" "c < m_n M" for c
    using that u len by (simp add: s' nth_list_update_nat)
  have hu: "Hd s q \<le> u" using Q u by (simp add: queue_ok_def)
  have K: "tok M s' p T = (if p = q \<and> T = u then b else tok M s p T)"
    if T: "Hd s p \<le> T" "T < Fr s' p" for T
  proof (cases "p = q")
    case True
    have "T mod m_n M = u mod m_n M \<longleftrightarrow> T = u"
      using True T F u(2) mod_eq_within_lap [of T "m_n M" u] by auto
    then show ?thesis
      using True u(3,4) ent_install [OF n q len(1) s'(1), of T] by (simp add: tok_def)
  next
    case False then show ?thesis by (simp add: tok_def ent_install [OF n q len(1) s'(1)])
  qed
  have old: "T < Fr s p" if "T < Fr s' p" "\<not> (p = q \<and> T = u)" for T
    using that F u(1) by (auto split: if_splits)
  have tb: "tok M s p T \<noteq> b" if "Hd s p \<le> T" "T < Fr s p" for T
    using tokens_okD [OF t(2) that] u(5) q by auto
  have 1: "Ow s' (tok M s' p T) = -1 - p" if T: "Hd s p \<le> T" "T < Fr s' p" for T
    using T old [OF T(2)] tb [OF T(1)] tokens_okD [OF t(2) T(1)] tok_range [OF n, of s p T]
      O [of b] O [of "tok M s p T"] u(3,4) by (auto simp: K [OF T])
  have 2: "inj_on (tok M s' p) {Hd s p..<Fr s' p}"
  proof (rule inj_onI)
    fix T T' assume "T \<in> {Hd s p..<Fr s' p}" "T' \<in> {Hd s p..<Fr s' p}"
      and eq: "tok M s' p T = tok M s' p T'"
    then have T: "Hd s p \<le> T" "T < Fr s' p" "Hd s p \<le> T'" "T' < Fr s' p" by auto
    show "T = T'"
      using eq tb [OF T(1)] tb [OF T(3)] old [OF T(2)] old [OF T(4)]
        tokens_ok_inj [OF t(2) T(1) _ T(3)]
      unfolding K [OF T(1,2)] K [OF T(3,4)] by (auto split: if_splits)
  qed
  have 3: "c \<in> tok M s' p ` {Hd s p..<Fr s' p}"
    if c: "0 \<le> c" "c < m_n M" "Ow s' c = -1 - p" for c
  proof (cases "c = b")
    case True
    then have "p = q" using c O [OF c(1,2)] by simp
    then have "tok M s' p u = c" "Hd s p \<le> u" "u < Fr s' p" using True K [of u] hu F by auto
    then show ?thesis by force
  next
    case False
    then have "Ow s c = -1 - p" using c O [OF c(1,2)] by simp
    then obtain T where T: "c = tok M s p T" "Hd s p \<le> T" "T < Fr s p"
      using tokens_ok_surj [OF t(2) c(1,2)] by metis
    then have "T < Fr s' p" "\<not> (p = q \<and> T = u)" using F u(1) by auto
    with T K [of T] have "tok M s' p T = c" by simp
    with T \<open>T < Fr s' p\<close> show ?thesis by force
  qed
  show ?thesis unfolding tokens_ok_def s'(2) using 1 2 3 by blast
qed

lemma inv_install:
  assumes I: "ncq_inv M s" and n: "0 < m_n M" and i: "i < length (actors s)"
    and ai: "owns (actors s ! i)" "b = block (actors s ! i)" and q: "q \<in> {0, 1}"
    and u: "u = Fr s q" "Tl s q = u" and qb: "queued_ok s q b"
    and s': "s' = s\<lparr>entries := (entries s)[slot M q u := u div m_n M * m_n M + b],
                   frontiers := (frontiers s)[nat q := u + 1],
                   owners := (owners s)[nat b := -1 - q], actors := (actors s)[i := new]\<rparr>"
    and new: "\<not> owns new" "actor_ok M s' i new"
  shows "ncq_inv M s'"
proof -
  have sh: "shape_ok M s" and blk: "blocks_ok M s" and hol: "holders_ok M s"
    using I by (auto simp: ncq_inv_def)
  have QT: "queue_ok M s q" "tokens_ok M s q" if "q \<in> {0, 1}" for q
    using I that by (auto simp: ncq_inv_def)
  note h = holders_okD [OF hol i ai(1), folded ai(2)]
  have lo: "int (length (entries s)) = 2 * m_n M" "length (frontiers s) = 2"
    "int (length (owners s)) = m_n M" using sh by (auto simp: shape_ok_def)
  have ob: "0 \<le> Ow s b" "Ow s b \<noteq> -1 - q" using h(3) q by auto
  have room: "u - Hd s q < m_n M" using held_token_room [OF n QT [OF q] h(1,2) ob(2)] u by simp
  have e: "(u div m_n M * m_n M + b) div m_n M = u div m_n M" using n h by simp
  have sb: "same_block s s' c" for c by (simp add: same_block_def s')
  have Q: "queue_ok M s' p \<and> tokens_ok M s' p" if p: "p \<in> {0, 1}" for p
    using queue_ok_install [OF n QT(1) [OF p] q p u room e lo(1,2), of s']
      tokens_ok_install [OF n QT(1) [OF q] QT(2) [OF q] QT(2) [OF p] q p u(1) room h(1,2) ob(1) lo, of s']
    by (simp add: s')
  have B: "blocks_ok M s'"
    by (rule blocks_ok_handover [OF blk h(1) lo(3) _ sb, of "-1 - q"])
      (use q qb sh in \<open>auto simp: s' shape_ok_def\<close>)
  have Hol: "holders_ok M s'"
    by (rule holders_ok_install [OF hol i lo(3) ai(1) _ _ new(1), of _ "-1 - q"])
      (use q ai(2) in \<open>auto simp: s'\<close>)
  have A: "actor_ok M s' j (actors s' ! j) \<and> held_ok M s' j (actors s' ! j)"
    if l: "j < length (actors s)" for j
  proof (cases "j = i")
    case True
    then have "actors s' ! j = new" using i by (simp add: s')
    then show ?thesis
      using True new(2) held_ok_not_owner [OF new(2,1), of s'] by simp
  next
    case False
    have ok: "actor_ok M s j (actors s ! j)" "held_ok M s j (actors s ! j)"
      using I l by (auto simp: ncq_inv_def)
    have "actor_ok M s' j (actors s ! j)"
    proof (rule actor_ok_mono [OF ok(1)])
      let ?q = "deq_queue M j" and ?T = "ticket (actors s ! j)"
      assume "pc (actors s ! j) = 4" "Hd s ?q = ?T"
      with actor_okD(5) [OF ok(1)] have T: "?T < Fr s ?q" "Hd s ?q = ?T" by auto
      have "\<not> (?q = q \<and> ?T mod m_n M = u mod m_n M)"
        using T u room mod_eq_within_lap [of ?T "m_n M" u] by auto
      then show "ent M s' ?q ?T = ent M s ?q ?T"
        by (subst ent_install [OF n q deq_queue_cases lo(1)]) (auto simp: s')
    qed (use q lo u in \<open>auto simp: s' nth_list_update\<close>)
    moreover from ok(2) have "held_ok M s' j (actors s ! j)" by (simp add: held_ok_cong [OF sb])
    moreover have "actors s' ! j = actors s ! j" using False by (simp add: s')
    ultimately show ?thesis by simp
  qed
  have len: "length (actors s') = length (actors s)" and S: "shape_ok M s'"
    using sh by (simp_all add: shape_ok_def s')
  show ?thesis unfolding ncq_inv_def len using S Q B Hol A by blast
qed

end
