(* ===== verification/Ncq_Turns.thy ===== *)
theory Ncq_Turns
  imports Ncq_Invariant
begin

text \<open>
  What each turn of an actor does in a state that satisfies the invariant: every subscript is in
  range, every ownership check passes, no violation is yielded, and the definition of the source
  reduces to one explicit transition per branch.
\<close>

section \<open>Subscripts under the invariant\<close>

definition upd :: "ncq_state \<Rightarrow> nat \<Rightarrow> actor \<Rightarrow> ncq_state" where
  "upd s i new = s\<lparr>actors := (actors s)[i := new]\<rparr>"

definition turn_ctx :: "ncq_model \<Rightarrow> ncq_state \<Rightarrow> nat \<Rightarrow> actor \<Rightarrow> bool" where
  "turn_ctx M s i a \<longleftrightarrow> model_ok M \<and> ncq_inv M s \<and> i < length (actors s) \<and> a = actors s ! i"

named_theorems ncq_at \<open>subscripts of a well-shaped state\<close>

lemma turn_ctxD:
  assumes "turn_ctx M s i a"
  shows "model_ok M" "ncq_inv M s" "i < length (actors s)" "a = actors s ! i"
    "0 < m_n M" "shape_ok M s" "m_mutation M = ''none''" "actor_ok M s i a" "held_ok M s i a"
    "blocks_ok M s" "holders_ok M s" "actors s ! i = a"
  using assms by (auto simp: turn_ctx_def ncq_inv_def model_ok_def)

lemma turn_ctx_queue:
  assumes "turn_ctx M s i a" "q \<in> {0, 1}"
  shows "queue_ok M s q" "tokens_ok M s q"
  using assms by (auto simp: turn_ctx_def ncq_inv_def)

lemma turn_ctx_owner:
  assumes "turn_ctx M s i a" "owns a"
  shows "0 \<le> block a" "block a < m_n M" "Ow s (block a) = int i"
  using holders_okD [OF turn_ctxD(11,3) [OF assms(1)]] turn_ctxD(4) [OF assms(1)] assms(2) by auto

lemma at_queue [ncq_at]:
  assumes "shape_ok M s" "q \<in> {0, 1}"
  shows "sub err (heads s) q k = k (Hd s q)" "sub err (tails s) q k = k (Tl s q)"
    "sub err (frontiers s) q k = k (Fr s q)"
    "put (heads s) q v = (heads s)[nat q := v]" "put (tails s) q v = (tails s)[nat q := v]"
    "put (frontiers s) q v = (frontiers s)[nat q := v]"
  using assms by (auto simp: shape_ok_def py_simps)

lemma at_block [ncq_at]:
  assumes "shape_ok M s" "0 \<le> b" "b < m_n M"
  shows "sub err (phases s) b k = k (phases s ! nat b)"
    "sub err (epochs s) b k = k (epochs s ! nat b)"
    "sub err (status_epochs s) b k = k (status_epochs s ! nat b)"
    "sub err (word0 s) b k = k (word0 s ! nat b)" "sub err (word1 s) b k = k (word1 s ! nat b)"
    "sub err (owners s) b k = k (Ow s b)"
    "put (phases s) b v = (phases s)[nat b := v]" "put (epochs s) b v = (epochs s)[nat b := v]"
    "put (status_epochs s) b v = (status_epochs s)[nat b := v]"
    "put (word0 s) b v = (word0 s)[nat b := v]" "put (word1 s) b v = (word1 s)[nat b := v]"
    "put (owners s) b v = (owners s)[nat b := v]"
  using assms by (auto simp: shape_ok_def py_simps)

lemma at_entry [ncq_at]:
  assumes "shape_ok M s" "0 < m_n M" "q \<in> {0, 1}"
  shows "sub err (entries s) (q * m_n M + T mod m_n M) k = k (ent M s q T)"
    "put (entries s) (q * m_n M + T mod m_n M) v = (entries s)[slot M q T := v]"
  using assms slot_bounds [OF assms(2,3), of T]
  by (simp_all add: shape_ok_def py_simps ent_def slot_def)

lemma put_actor [ncq_at]: "i < length xs \<Longrightarrow> put xs (int i) v = xs[i := v]"
  by (simp add: py_simps)

lemma emit_eq:
  assumes "turn_ctx M s i a"
  shows "emit s (int i) a s' new l p =
    [Yield (lab (int i) l) (s'\<lparr>actors := (actors s)[i := new]\<rparr>) p None]"
proof (cases "owns a")
  case True
  note b = turn_ctx_owner [OF assms True]
  show ?thesis
    using True b turn_ctxD(3) [OF assms]
    by (simp add: emit_def at_block [OF turn_ctxD(6) [OF assms] b(1,2)] put_actor)
next
  case False
  then show ?thesis using turn_ctxD(3) [OF assms] by (simp add: emit_def put_actor)
qed

section \<open>Each turn, evaluated\<close>

lemma begin_dequeue_eq:
  assumes "turn_ctx M s i a"
  shows "begin_dequeue M s (int i) a q =
    (if int i < m_p M \<and> left a = 0
     then [Yield (lab (int i) FinishedBudget) (upd s i (Actor\<lparr>pc := 99, left := 0\<rparr>)) False None]
     else [Yield (lab (int i) (BeginDequeue q)) (upd s i
        (a\<lparr>pc := 1, ticket := 0, entry := 0, block := -1, epoch := 0, owns := False, queue := q,
           aliased := False, read := 0\<rparr>)) False None])"
  by (simp add: begin_dequeue_def emit_eq [OF assms] upd_def)

lemma load_head_eq:
  assumes "turn_ctx M s i a" "q \<in> {0, 1}"
  shows "load_head M s (int i) a q =
    [Yield (lab (int i) (LoadHead q)) (upd s i (a\<lparr>pc := 2, ticket := Hd s q\<rparr>)) False None]"
  by (simp add: load_head_def emit_eq [OF assms(1)] upd_def
      at_queue [OF turn_ctxD(6) [OF assms(1)] assms(2)])

definition consumers_may_stop :: "ncq_model \<Rightarrow> ncq_state \<Rightarrow> nat \<Rightarrow> bool" where
  "consumers_may_stop M s i \<longleftrightarrow> \<not> int i < m_p M \<and>
     (\<forall>x \<in> set (take (slice_end (actors s) (m_p M)) (actors s)). pc x = 99)"

lemma load_entry_eq:
  assumes "turn_ctx M s i a" "q \<in> {0, 1}"
  shows "load_entry M s (int i) a q =
    (let e = ent M s q (ticket a); c = ticket a div m_n M in
     if e div m_n M = c
     then [Yield (lab (int i) (LoadEntryCurrent q)) (upd s i (a\<lparr>pc := 4, entry := e\<rparr>)) False None]
     else if c > 0 \<and> e div m_n M = c - 1
     then [Yield (lab (int i) (EmptyObservation q)) (upd s i
             (a\<lparr>pc := if consumers_may_stop M s i then 99 else 0, ticket := 0, entry := 0\<rparr>)) True None]
     else [Yield (lab (int i) (StaleGenerationRetry q))
             (upd s i (a\<lparr>pc := 1, ticket := 0, entry := 0\<rparr>)) False None])"
  by (simp add: load_entry_def emit_eq [OF assms(1)] upd_def Let_def consumers_may_stop_def
      at_entry [OF turn_ctxD(6,5) [OF assms(1)] assms(2)])

text \<open>The state after a successful claim.\<close>

definition claimed :: "ncq_model \<Rightarrow> ncq_state \<Rightarrow> nat \<Rightarrow> actor \<Rightarrow> int \<Rightarrow> ncq_state" where
  "claimed M s i a q =
     (let b = tok M s q (Hd s q) in
      s\<lparr>heads := (heads s)[nat q := Hd s q + 1], owners := (owners s)[nat b := int i],
        actors := (actors s)[i := a\<lparr>pc := if int i < m_p M then 5 else 10, block := b, owns := True,
          ticket := 0, entry := 0\<rparr>]\<rparr>)"

lemma pc4_fresh:
  assumes "turn_ctx M s i a" "pc a = 4" "q = deq_queue M i" "Hd s q = ticket a"
  shows "entry a = ent M s q (Hd s q)" "Hd s q < Fr s q" "entry a mod m_n M = tok M s q (Hd s q)"
    "Ow s (tok M s q (Hd s q)) = -1 - q"
proof -
  note ok = actor_okD(5) [OF turn_ctxD(8) [OF assms(1)]]
  show e: "entry a = ent M s q (Hd s q)" and l: "Hd s q < Fr s q" using ok assms(2-4) by auto
  show "entry a mod m_n M = tok M s q (Hd s q)" using e by (simp add: tok_def)
  show "Ow s (tok M s q (Hd s q)) = -1 - q"
    using turn_ctx_queue(2) [OF assms(1)] deq_queue_cases assms(3) l by (intro tokens_okD) auto
qed

lemma cas_head_eq:
  assumes c: "turn_ctx M s i a" and p: "pc a = 4" and q: "q = deq_queue M i"
  shows "cas_head M s (int i) a q =
    (if Hd s q = ticket a
     then [Yield (lab (int i) (HeadCasSuccess q (ticket a) (tok M s q (Hd s q))))
             (claimed M s i a q) True None]
     else [Yield (lab (int i) HeadCasFailure) (upd s i (a\<lparr>pc := 1, ticket := 0, entry := 0\<rparr>))
             False None])"
proof -
  have q01: "q \<in> {0, 1}" using q deq_queue_cases by simp
  note sh = turn_ctxD(6) [OF c] and n = turn_ctxD(5) [OF c]
  show ?thesis
  proof (cases "Hd s q = ticket a")
    case True
    note f = pc4_fresh [OF c p q True]
    show ?thesis
      using True f(4) tok_range [OF n, of s q "Hd s q"] turn_ctxD(7) [OF c]
      by (simp add: cas_head_def at_queue [OF sh q01] f(3) at_block [OF sh] Let_def
          emit_eq [OF c] claimed_def)
  next
    case False
    then show ?thesis
      using turn_ctxD(7) [OF c]
      by (simp add: cas_head_def at_queue [OF sh q01] emit_eq [OF c] upd_def)
  qed
qed


text \<open>The private steps on a held block.\<close>

lemma pc_owner:
  assumes "turn_ctx M s i a" "pc a \<in> {5, 6, 7, 8, 9, 10, 11, 12, 13, 20, 21, 22, 25}"
  shows "owns a"
  using actor_okD(2) [OF turn_ctxD(8) [OF assms(1)]] assms(2) by simp

lemma mirror_epoch_eq:
  assumes c: "turn_ctx M s i a" and p: "pc a = 5"
  shows "mirror_epoch M s (int i) a =
    [Yield (lab (int i) (OwnedEpochMirror (epochs s ! nat (block a) + 1)))
      (upd (s\<lparr>epochs := (epochs s)[nat (block a) := epochs s ! nat (block a) + 1]\<rparr>) i
         (a\<lparr>pc := 6, epoch := epochs s ! nat (block a) + 1, left := left a - 1\<rparr>)) False None]"
proof -
  have o: "owns a" using p by (intro pc_owner [OF c]) simp
  note at = at_block [OF turn_ctxD(6) [OF c] turn_ctx_owner(1,2) [OF c o]]
  have "phases s ! nat (block a) = 0" "status_epochs s ! nat (block a) = epochs s ! nat (block a)"
    using turn_ctxD(9) [OF c] p by (auto simp: held_ok_def Let_def)
  then show ?thesis by (simp add: mirror_epoch_def Let_def at emit_eq [OF c] upd_def)
qed

lemma release_reserved_eq:
  assumes c: "turn_ctx M s i a" and p: "pc a = 6"
  shows "release_reserved M s (int i) a =
    [Yield (lab (int i) ReleaseReserved)
      (upd (s\<lparr>phases := (phases s)[nat (block a) := 1],
             status_epochs := (status_epochs s)[nat (block a) := epochs s ! nat (block a)]\<rparr>) i
         (a\<lparr>pc := 7\<rparr>)) False None]"
proof -
  have o: "owns a" using p by (intro pc_owner [OF c]) simp
  note at = at_block [OF turn_ctxD(6) [OF c] turn_ctx_owner(1,2) [OF c o]]
  show ?thesis by (simp add: release_reserved_def Let_def at emit_eq [OF c] upd_def)
qed

definition abort_event :: "ncq_model \<Rightarrow> ncq_state \<Rightarrow> nat \<Rightarrow> actor \<Rightarrow> ncq_event list" where
  "abort_event M s i a =
     (if m_abort M
      then [Yield (lab (int i) AbortOwnedWrite)
              (upd (s\<lparr>phases := (phases s)[nat (block a) := 0]\<rparr>) i (a\<lparr>pc := 20, queue := 0\<rparr>))
              False None]
      else [])"

lemma write_word_eq:
  assumes c: "turn_ctx M s i a" and p: "pc a = 7 \<or> pc a = 8"
  defines "v \<equiv> 1 + int i * m_m M + (m_m M - left a - 1)"
  shows "write_word M s (int i) a = abort_event M s i a @
    (if pc a = 7
     then [Yield (lab (int i) (OrdinaryWrite ''word0'' v))
             (upd (s\<lparr>word0 := (word0 s)[nat (block a) := v]\<rparr>) i (a\<lparr>pc := 8\<rparr>)) False None]
     else [Yield (lab (int i) (OrdinaryWrite ''word1'' v))
             (upd (s\<lparr>word1 := (word1 s)[nat (block a) := v]\<rparr>) i (a\<lparr>pc := 9\<rparr>)) False None])"
proof -
  have o: "owns a" using p by (intro pc_owner [OF c]) auto
  note at = at_block [OF turn_ctxD(6) [OF c] turn_ctx_owner(1,2) [OF c o]]
  show ?thesis
    using p turn_ctxD(3) [OF c]
    by (elim disjE) (simp_all add: write_word_def abort_event_def Let_def at emit_eq [OF c] upd_def
        put_actor v_def)
qed

lemma release_committed_eq:
  assumes c: "turn_ctx M s i a" and p: "pc a = 9"
  shows "release_committed M s (int i) a =
    [Yield (lab (int i) ReleaseCommitted)
      (upd (s\<lparr>phases := (phases s)[nat (block a) := 2]\<rparr>) i (a\<lparr>pc := 20, queue := 1\<rparr>)) False None]"
proof -
  have o: "owns a" using p by (intro pc_owner [OF c]) simp
  note at = at_block [OF turn_ctxD(6) [OF c] turn_ctx_owner(1,2) [OF c o]]
  show ?thesis by (simp add: release_committed_def at emit_eq [OF c] upd_def)
qed

lemma validate_ready_eq:
  assumes c: "turn_ctx M s i a" and p: "pc a = 10"
  shows "validate_ready M s (int i) a =
    [Yield (lab (int i) ConsumedAliasStarts)
      (upd (s\<lparr>phases := (phases s)[nat (block a) := 3]\<rparr>) i
         (a\<lparr>pc := 11, epoch := epochs s ! nat (block a), aliased := True\<rparr>)) False None]"
proof -
  have o: "owns a" using p by (intro pc_owner [OF c]) simp
  note at = at_block [OF turn_ctxD(6) [OF c] turn_ctx_owner(1,2) [OF c o]]
  have "phases s ! nat (block a) = 2" "status_epochs s ! nat (block a) = epochs s ! nat (block a)"
    "word0 s ! nat (block a) = word1 s ! nat (block a)"
    using turn_ctxD(9) [OF c] p by (auto simp: held_ok_def Let_def)
  then show ?thesis by (simp add: validate_ready_def Let_def at emit_eq [OF c] upd_def)
qed

lemma read_word0_eq:
  assumes c: "turn_ctx M s i a" and p: "pc a = 11"
  shows "read_word0 M s (int i) a =
    [Yield (lab (int i) OrdinaryRead0)
      (upd s i (a\<lparr>pc := 12, read := word0 s ! nat (block a)\<rparr>)) False None]"
proof -
  have o: "owns a" using p by (intro pc_owner [OF c]) simp
  note at = at_block [OF turn_ctxD(6) [OF c] turn_ctx_owner(1,2) [OF c o]]
  show ?thesis by (simp add: read_word0_def Let_def at emit_eq [OF c] upd_def turn_ctxD(7) [OF c])
qed

lemma read_word1_eq:
  assumes c: "turn_ctx M s i a" and p: "pc a = 12"
  shows "read_word1 M s (int i) a =
    [Yield (lab (int i) FinalAliasEnds)
      (upd s i (a\<lparr>pc := 13, aliased := False, read := 0\<rparr>)) False None]"
proof -
  have o: "owns a" using p by (intro pc_owner [OF c]) simp
  note at = at_block [OF turn_ctxD(6) [OF c] turn_ctx_owner(1,2) [OF c o]]
  have "read a = word1 s ! nat (block a)"
    using turn_ctxD(9) [OF c] p by (auto simp: held_ok_def Let_def)
  then show ?thesis by (simp add: read_word1_def at emit_eq [OF c] upd_def)
qed

lemma release_empty_eq:
  assumes c: "turn_ctx M s i a" and p: "pc a = 13"
  shows "release_empty M s (int i) a =
    [Yield (lab (int i) ReleaseEmpty)
      (upd (s\<lparr>phases := (phases s)[nat (block a) := 0]\<rparr>) i (a\<lparr>pc := 20, queue := 0\<rparr>)) False None]"
proof -
  have o: "owns a" using p by (intro pc_owner [OF c]) simp
  note at = at_block [OF turn_ctxD(6) [OF c] turn_ctx_owner(1,2) [OF c o]]
  show ?thesis by (simp add: release_empty_def at emit_eq [OF c] upd_def)
qed

text \<open>The enqueue steps.\<close>

lemma enq_queue:
  assumes "turn_ctx M s i a" "pc a \<in> {20, 21, 22, 23, 25}"
  shows "queue a \<in> {0, 1}"
  using mp [OF actor_okD(8) [OF turn_ctxD(8) [OF assms(1)]] assms(2)] by simp

lemma load_tail_eq:
  assumes c: "turn_ctx M s i a" and p: "pc a = 20" and lim: "Tl s (queue a) < m_limit M"
  shows "load_tail M s (int i) a =
    [Yield (lab (int i) (LoadTail (queue a)))
      (upd s i (a\<lparr>pc := 21, ticket := Tl s (queue a), entry := 0\<rparr>)) False None]"
proof -
  have q: "queue a \<in> {0, 1}" using p by (intro enq_queue [OF c]) simp
  show ?thesis
    using lim by (simp add: load_tail_def at_queue [OF turn_ctxD(6) [OF c] q] emit_eq [OF c] upd_def)
qed

lemma observe_entry_eq:
  assumes c: "turn_ctx M s i a" and p: "pc a = 21"
  shows "observe_entry M s (int i) a =
    (let e = ent M s (queue a) (ticket a); t = ticket a div m_n M in
     if e div m_n M = t
     then [Yield (lab (int i) CurrentEntryHelp) (upd s i (a\<lparr>pc := 25, entry := e\<rparr>)) False None]
     else if e div m_n M = t - 1
     then [Yield (lab (int i) OneOlderEntry) (upd s i (a\<lparr>pc := 22, entry := e\<rparr>)) False None]
     else [Yield (lab (int i) StaleEnqueueObservation)
             (upd s i (a\<lparr>pc := 20, ticket := 0, entry := 0\<rparr>)) False None])"
proof -
  have q: "queue a \<in> {0, 1}" using p by (intro enq_queue [OF c]) simp
  have t: "m_n M \<le> ticket a" using actor_okD(9) [OF turn_ctxD(8) [OF c]] p by simp
  show ?thesis
    using t by (simp add: observe_entry_def Let_def at_entry [OF turn_ctxD(6,5) [OF c] q]
        emit_eq [OF c] upd_def turn_ctxD(7) [OF c])
qed

text \<open>The state after a successful installation.\<close>

definition installed :: "ncq_model \<Rightarrow> ncq_state \<Rightarrow> nat \<Rightarrow> actor \<Rightarrow> ncq_state" where
  "installed M s i a =
     (let q = queue a; u = Fr s q; b = block a in
      s\<lparr>entries := (entries s)[slot M q u := u div m_n M * m_n M + b],
        frontiers := (frontiers s)[nat q := u + 1], owners := (owners s)[nat b := -1 - q],
        actors := (actors s)[i := a\<lparr>pc := 23, owns := False\<rparr>]\<rparr>)"

lemma pc22_fresh:
  assumes c: "turn_ctx M s i a" and p: "pc a = 22"
    and e: "ent M s (queue a) (ticket a) = entry a"
  shows "ticket a = Fr s (queue a)" "Tl s (queue a) = Fr s (queue a)"
proof -
  have q: "queue a \<in> {0, 1}" using p by (intro enq_queue [OF c]) simp
  note ok = turn_ctxD(8) [OF c]
  have t: "ticket a \<le> Tl s (queue a)" using actor_okD(9) [OF ok] p by simp
  have "ent M s (queue a) (ticket a) div m_n M = ticket a div m_n M - 1"
    using actor_okD(10) [OF ok] p e by simp
  from install_at_frontier [OF turn_ctxD(5) [OF c] turn_ctx_queue(1) [OF c q] q t this]
  show "ticket a = Fr s (queue a)" "Tl s (queue a) = Fr s (queue a)" by auto
qed

lemma cas_entry_eq:
  assumes c: "turn_ctx M s i a" and p: "pc a = 22"
  shows "cas_entry M s (int i) a =
    (if ent M s (queue a) (ticket a) = entry a
     then [Yield (lab (int i) (EntryCasSuccess (queue a) (ticket a) (block a)))
             (installed M s i a) True None]
     else [Yield (lab (int i) EntryCasFailure) (upd s i (a\<lparr>pc := 20, ticket := 0, entry := 0\<rparr>))
             False None])"
proof -
  have q: "queue a \<in> {0, 1}" using p by (intro enq_queue [OF c]) simp
  have o: "owns a" using p by (intro pc_owner [OF c]) simp
  note b = turn_ctx_owner [OF c o]
  note at = at_block [OF turn_ctxD(6) [OF c] b(1,2)] at_queue [OF turn_ctxD(6) [OF c] q]
    at_entry [OF turn_ctxD(6,5) [OF c] q]
  show ?thesis
  proof (cases "ent M s (queue a) (ticket a) = entry a")
    case True
    then show ?thesis
      using o b pc22_fresh [OF c p True]
      by (simp add: cas_entry_def Let_def at emit_eq [OF c] installed_def)
  next
    case False
    then show ?thesis
      using o by (simp add: cas_entry_def Let_def at emit_eq [OF c] upd_def turn_ctxD(7) [OF c])
  qed
qed

definition tail_helped :: "ncq_state \<Rightarrow> actor \<Rightarrow> ncq_state" where
  "tail_helped s a = (if Tl s (queue a) = ticket a
     then s\<lparr>tails := (tails s)[nat (queue a) := ticket a + 1]\<rparr> else s)"

lemma cas_tail_eq:
  assumes c: "turn_ctx M s i a" and p: "pc a = 23 \<or> pc a = 25"
  shows "cas_tail M s (int i) a =
    [Yield (lab (int i) (TailCas (queue a) (pc a = 23)))
      (upd (tail_helped s a) i (a\<lparr>pc := if pc a = 23 then 24 else 20, ticket := 0, entry := 0\<rparr>))
      False None]"
proof -
  have q: "queue a \<in> {0, 1}" using p by (intro enq_queue [OF c]) auto
  show ?thesis
    by (simp add: cas_tail_def Let_def at_queue [OF turn_ctxD(6) [OF c] q] emit_eq [OF c] upd_def
        turn_ctxD(7) [OF c] tail_helped_def)
qed

lemma enqueue_response_eq:
  assumes "turn_ctx M s i a"
  shows "enqueue_response M s (int i) a =
    [Yield (lab (int i) EnqueueResponse) (upd s i (Actor\<lparr>pc := 0, left := left a\<rparr>)) True None]"
  by (simp add: enqueue_response_def emit_eq [OF assms] upd_def)

end
