(* ===== verification/Ncq_Clean.thy ===== *)
theory Ncq_Clean
  imports Ncq_Turns
begin

text \<open>
  Preservation of the inductive invariant: in a state that satisfies it every turn of every actor
  is clean, i.e. it yields at least one transition, yields no violation, raises nothing, and leads
  only to states that satisfy the invariant again.
\<close>

section \<open>Updating one actor\<close>

lemma upd_simps [simp]:
  "heads (upd s i x) = heads s" "tails (upd s i x) = tails s" "frontiers (upd s i x) = frontiers s"
  "entries (upd s i x) = entries s" "epochs (upd s i x) = epochs s" "phases (upd s i x) = phases s"
  "status_epochs (upd s i x) = status_epochs s" "word0 (upd s i x) = word0 s"
  "word1 (upd s i x) = word1 s" "owners (upd s i x) = owners s"
  "actors (upd s i x) = (actors s)[i := x]"
  by (simp_all add: upd_def)

lemma ent_upd [simp]: "ent M (upd s i x) q T = ent M s q T" "tok M (upd s i x) q T = tok M s q T"
  by (simp_all add: ent_def tok_def)

lemma actor_ok_upd [simp]: "actor_ok M (upd s i x) j a = actor_ok M s j a"
  by (simp add: actor_ok_def)

lemma held_ok_upd [simp]: "held_ok M (upd s i x) j a = held_ok M s j a"
  by (simp add: held_ok_def queued_ok_def)

lemma shape_ok_upd [simp]: "shape_ok M (upd s i x) = shape_ok M s"
  by (simp add: shape_ok_def)

text \<open>
  \<open>only_held M s i a s1\<close>: the shared state \<open>s1\<close> differs from \<open>s\<close> at most in the fields of the block
  that actor \<open>i\<close> holds and in tails that stay behind the frontier.
\<close>

definition only_held :: "ncq_model \<Rightarrow> ncq_state \<Rightarrow> nat \<Rightarrow> ncq_state \<Rightarrow> bool" where
  "only_held M s i s1 \<longleftrightarrow> heads s1 = heads s \<and> frontiers s1 = frontiers s \<and> entries s1 = entries s
     \<and> owners s1 = owners s \<and> actors s1 = actors s \<and> shape_ok M s1
     \<and> (\<forall>q. q = 0 \<or> q = 1 \<longrightarrow> Tl s q \<le> Tl s1 q \<and> Tl s1 q \<le> Fr s q)
     \<and> (\<forall>b. 0 \<le> b \<longrightarrow> b < m_n M \<longrightarrow> Ow s b \<noteq> int i \<longrightarrow> same_block s s1 b)
     \<and> (\<forall>b. 0 \<le> b \<longrightarrow> b < m_n M \<longrightarrow> 0 \<le> epochs s1 ! nat b)"

lemma inv_only_held:
  assumes c: "turn_ctx M s i a" and p: "only_held M s i s1"
    and o: "owns new = owns a" "owns new \<Longrightarrow> block new = block a"
    and new: "actor_ok M s1 i new" "held_ok M s1 i new"
  shows "ncq_inv M (upd s1 i new)"
proof (rule inv_frame [OF turn_ctxD(2,3) [OF c]])
  show "\<And>b. 0 \<le> b \<Longrightarrow> b < m_n M \<Longrightarrow> Ow s b \<noteq> int i \<Longrightarrow> same_block s (upd s1 i new) b"
    using p by (simp add: only_held_def same_block_def)
  show "\<And>q. q = 0 \<or> q = 1 \<Longrightarrow> Tl s q \<le> Tl (upd s1 i new) q \<and> Tl (upd s1 i new) q \<le> Fr s q"
    using p unfolding only_held_def upd_simps by blast
qed (use assms turn_ctxD(4) [OF c] in \<open>simp_all add: only_held_def\<close>)

lemma only_held_refl:
  assumes "turn_ctx M s i a"
  shows "only_held M s i s"
proof -
  have "Tl s q \<le> Fr s q" if "q = 0 \<or> q = 1" for q
    using turn_ctx_queue(1) [OF assms, of q] that by (auto simp: queue_ok_def)
  then show ?thesis
    using turn_ctxD(6,10) [OF assms] by (simp add: only_held_def same_block_def blocks_ok_def)
qed

lemma inv_local:
  assumes "turn_ctx M s i a" "owns new = owns a" "owns new \<Longrightarrow> block new = block a"
    "actor_ok M s i new" "held_ok M s i new"
  shows "ncq_inv M (upd s i new)"
  by (rule inv_only_held [OF assms(1) only_held_refl [OF assms(1)] assms(2-5)])

lemma only_held_block:
  assumes c: "turn_ctx M s i a" and o: "owns a" and "b = nat (block a)"
  shows "only_held M s i (s\<lparr>phases := (phases s)[b := x]\<rparr>)"
    "only_held M s i (s\<lparr>word0 := (word0 s)[b := x]\<rparr>)"
    "only_held M s i (s\<lparr>word1 := (word1 s)[b := x]\<rparr>)"
    "only_held M s i (s\<lparr>phases := (phases s)[b := x], status_epochs := (status_epochs s)[b := y]\<rparr>)"
    "only_held M s i (s\<lparr>epochs := (epochs s)[b := epochs s ! b + 1]\<rparr>)"
proof -
  note h = turn_ctx_owner [OF c o]
  have ne: "b \<noteq> nat c" if "0 \<le> c" "Ow s c \<noteq> int i" for c
    using that h assms(3) by (auto simp: nat_eq_iff)
  have ep: "0 \<le> epochs s ! nat c" if "0 \<le> c" "c < m_n M" for c
    using turn_ctxD(10) [OF c] that by (simp add: blocks_ok_def)
  have ep': "0 \<le> (epochs s)[b := epochs s ! b + 1] ! nat c" if "0 \<le> c" "c < m_n M" for c
    using ep [OF that] turn_ctxD(6) [OF c] that
    by (cases "nat c = b") (auto simp: shape_ok_def nth_list_update)
  note r = only_held_refl [OF c, unfolded only_held_def]
  show "only_held M s i (s\<lparr>phases := (phases s)[b := x]\<rparr>)"
    "only_held M s i (s\<lparr>word0 := (word0 s)[b := x]\<rparr>)"
    "only_held M s i (s\<lparr>word1 := (word1 s)[b := x]\<rparr>)"
    "only_held M s i (s\<lparr>phases := (phases s)[b := x], status_epochs := (status_epochs s)[b := y]\<rparr>)"
    "only_held M s i (s\<lparr>epochs := (epochs s)[b := epochs s ! b + 1]\<rparr>)"
    unfolding only_held_def using r ne ep ep' by (simp_all add: same_block_def shape_ok_def)
qed


section \<open>Every turn is clean\<close>

text \<open>
  A clean turn yields at least one transition, yields no violation, raises nothing, and every target
  satisfies the invariant.
\<close>

definition clean :: "ncq_model \<Rightarrow> ncq_event list \<Rightarrow> bool" where
  "clean M es \<longleftrightarrow> es \<noteq> [] \<and> (\<forall>e \<in> set es. \<exists>l t p. e = Yield l t p None \<and> ncq_inv M t)"

lemma clean_single [simp]: "clean M [Yield l t p v] \<longleftrightarrow> v = None \<and> ncq_inv M t"
  by (auto simp: clean_def)

lemma clean_append: "clean M es \<Longrightarrow> clean M fs \<Longrightarrow> clean M (es @ fs)"
  by (auto simp: clean_def)

lemma not_owner:
  assumes "turn_ctx M s i a" "pc a \<in> {0, 1, 2, 4, 23, 24}"
  shows "\<not> owns a"
  using assms(2) unfolding actor_okD(2) [OF turn_ctxD(8) [OF assms(1)]] by (elim insertE emptyE) simp_all

lemma not_aliased:
  assumes "turn_ctx M s i a" "pc a \<notin> {11, 12}"
  shows "\<not> aliased a"
  using actor_okD(3) [OF turn_ctxD(8) [OF assms(1)]] assms(2) by auto

lemma inv_local_free:
  assumes "turn_ctx M s i a" "\<not> owns a" "\<not> owns new" "actor_ok M s i new"
  shows "ncq_inv M (upd s i new)"
  using assms(2,3,4) held_ok_not_owner [OF assms(4,3), of s]
  by (intro inv_local [OF assms(1)]) auto

lemma clean_begin_dequeue:
  assumes c: "turn_ctx M s i a" and p: "pc a = 0"
  shows "clean M (begin_dequeue M s (int i) a q)"
proof -
  have o: "\<not> owns a" using p by (intro not_owner [OF c]) simp
  have "actor_ok M s i (Actor\<lparr>pc := 99, left := 0\<rparr>)"
    by (simp add: actor_ok_def Actor_def)
  moreover have "actor_ok M s i (a\<lparr>pc := 1, ticket := 0, entry := 0, block := -1, epoch := 0,
      owns := False, queue := q, aliased := False, read := 0\<rparr>)"
    by (simp add: actor_ok_def)
  ultimately show ?thesis
    unfolding begin_dequeue_eq [OF c] using inv_local_free [OF c o] by (simp add: Actor_def)
qed

lemma clean_load_head:
  assumes c: "turn_ctx M s i a" and p: "pc a = 1"
  shows "clean M (load_head M s (int i) a (deq_queue M i))"
proof -
  have o: "\<not> owns a" using p by (intro not_owner [OF c]) simp
  have "0 \<le> Hd s (deq_queue M i)"
    using turn_ctx_queue(1) [OF c deq_queue_cases] by (simp add: queue_ok_def)
  then have "actor_ok M s i (a\<lparr>pc := 2, ticket := Hd s (deq_queue M i)\<rparr>)"
    using o p not_aliased [OF c] by (simp add: actor_ok_def)
  then show ?thesis
    unfolding load_head_eq [OF c deq_queue_cases] using inv_local_free [OF c o] o by simp
qed

text \<open>A claimable observation: the ticket of a current entry lies below the frontier.\<close>

lemma current_entry_published:
  assumes c: "turn_ctx M s i a" and q: "q \<in> {0, 1}"
    and e: "ent M s q T div m_n M = T div m_n M" and T: "T \<le> Fr s q"
  shows "T < Fr s q"
proof (rule ccontr)
  assume "\<not> T < Fr s q"
  then have "T = Fr s q" using T by simp
  with e entry_cycle_frontier [OF turn_ctxD(5) [OF c] turn_ctx_queue(1) [OF c q]] show False by simp
qed

lemma clean_load_entry:
  assumes c: "turn_ctx M s i a" and p: "pc a = 2"
  shows "clean M (load_entry M s (int i) a (deq_queue M i))"
proof -
  let ?q = "deq_queue M i"
  have o: "\<not> owns a" using p by (intro not_owner [OF c]) simp
  have al: "\<not> aliased a" using p by (intro not_aliased [OF c]) simp
  have t: "0 \<le> ticket a" "ticket a \<le> Hd s ?q"
    using actor_okD(4) [OF turn_ctxD(8) [OF c]] p by auto
  have hf: "Hd s ?q \<le> Fr s ?q"
    using turn_ctx_queue(1) [OF c deq_queue_cases [of M i]] by (simp add: queue_ok_def)
  have 1: "actor_ok M s i (a\<lparr>pc := 4, entry := ent M s ?q (ticket a)\<rparr>)"
    if "ent M s ?q (ticket a) div m_n M = ticket a div m_n M"
    using current_entry_published [OF c deq_queue_cases that] t hf o al by (simp add: actor_ok_def)
  have 2: "actor_ok M s i (a\<lparr>pc := x, ticket := 0, entry := 0\<rparr>)" if "x \<in> {0, 1, 99}" for x
    using that o al by (auto simp: actor_ok_def)
  show ?thesis
    unfolding load_entry_eq [OF c deq_queue_cases] Let_def
    using inv_local_free [OF c o _ 1] inv_local_free [OF c o _ 2] o by simp
qed

lemma clean_cas_head:
  assumes c: "turn_ctx M s i a" and p: "pc a = 4"
  shows "clean M (cas_head M s (int i) a (deq_queue M i))"
proof (cases "Hd s (deq_queue M i) = ticket a")
  case True
  let ?q = "deq_queue M i" and ?s' = "claimed M s i a (deq_queue M i)"
  let ?b = "tok M s ?q (Hd s ?q)"
  let ?new = "a\<lparr>pc := if int i < m_p M then 5 else 10, block := ?b, owns := True,
      ticket := 0, entry := 0\<rparr>"
  note f = pc4_fresh [OF c p refl True]
  have o: "\<not> owns a" using p by (intro not_owner [OF c]) simp
  have al: "\<not> aliased a" using p by (intro not_aliased [OF c]) simp
  have b: "0 \<le> ?b" "?b < m_n M" using tok_range [OF turn_ctxD(5) [OF c]] by auto
  have "Ow s ?b = -1 \<longrightarrow> queued_ok s 0 ?b" "Ow s ?b = -2 \<longrightarrow> queued_ok s 1 ?b"
    using turn_ctxD(10) [OF c] b unfolding blocks_ok_def by blast+
  then have qb: "queued_ok s ?q ?b" using f(4) by (auto simp: deq_queue_def split: if_splits)
  have "actor_ok M ?s' i ?new" using al by (simp add: actor_ok_def)
  moreover have "held_ok M ?s' i ?new"
  proof (cases "int i < m_p M")
    case True
    then show ?thesis
      using qb by (simp add: held_ok_def queued_ok_def deq_queue_def claimed_def Let_def)
  next
    case False
    then show ?thesis
      using qb by (simp add: held_ok_def queued_ok_def deq_queue_def claimed_def Let_def)
  qed
  ultimately have "ncq_inv M ?s'"
    by (intro inv_claim [OF turn_ctxD(2,5,3) [OF c] _ deq_queue_cases f(2) refl])
      (simp_all add: turn_ctxD(12) [OF c] o claimed_def Let_def)
  then show ?thesis by (simp add: cas_head_eq [OF c p refl] True)
next
  case False
  have o: "\<not> owns a" using p by (intro not_owner [OF c]) simp
  have al: "\<not> aliased a" using p by (intro not_aliased [OF c]) simp
  have "actor_ok M s i (a\<lparr>pc := 1, ticket := 0, entry := 0\<rparr>)"
    using o al by (simp add: actor_ok_def)
  then show ?thesis using False inv_local_free [OF c o] o by (simp add: cas_head_eq [OF c p refl])
qed


text \<open>The private steps.\<close>

lemma clean_mirror_epoch:
  assumes c: "turn_ctx M s i a" and p: "pc a = 5"
  shows "clean M (mirror_epoch M s (int i) a)"
proof -
  have o: "owns a" using p by (intro pc_owner [OF c]) simp
  have ip: "int i < m_p M" using actor_okD(6) [OF turn_ctxD(8) [OF c]] p by simp
  have al: "\<not> aliased a" using p by (intro not_aliased [OF c]) simp
  have h: "phases s ! nat (block a) = 0" using turn_ctxD(9) [OF c] p by (simp add: held_ok_def Let_def)
  show ?thesis
    unfolding mirror_epoch_eq [OF c p] clean_single
    by (intro conjI refl inv_only_held [OF c only_held_block(5) [OF c o refl]])
      (use o ip al h in \<open>simp_all add: actor_ok_def held_ok_def Let_def\<close>)
qed

lemma block_lengths:
  assumes c: "turn_ctx M s i a" and o: "owns a"
  shows "nat (block a) < length (phases s)" "nat (block a) < length (epochs s)"
    "nat (block a) < length (status_epochs s)" "nat (block a) < length (word0 s)"
    "nat (block a) < length (word1 s)"
  using turn_ctx_owner(1,2) [OF c o] turn_ctxD(6) [OF c] by (simp_all add: shape_ok_def nat_less_iff)

lemma clean_release_reserved:
  assumes c: "turn_ctx M s i a" and p: "pc a = 6"
  shows "clean M (release_reserved M s (int i) a)"
proof -
  have o: "owns a" using p by (intro pc_owner [OF c]) simp
  have ip: "int i < m_p M" using actor_okD(6) [OF turn_ctxD(8) [OF c]] p by simp
  have al: "\<not> aliased a" using p by (intro not_aliased [OF c]) simp
  note b = block_lengths [OF c o]
  show ?thesis
    unfolding release_reserved_eq [OF c p] clean_single
    by (intro conjI refl inv_only_held [OF c only_held_block(4) [OF c o refl]])
      (use o ip al b in \<open>simp_all add: actor_ok_def held_ok_def Let_def\<close>)
qed

lemma clean_abort_event:
  assumes c: "turn_ctx M s i a" and p: "pc a = 7 \<or> pc a = 8" and e: "e \<in> set (abort_event M s i a)"
  shows "\<exists>l t p. e = Yield l t p None \<and> ncq_inv M t"
proof -
  have o: "owns a" using p by (intro pc_owner [OF c]) auto
  have al: "\<not> aliased a" using p by (intro not_aliased [OF c]) auto
  have h: "status_epochs s ! nat (block a) = epochs s ! nat (block a)"
    using turn_ctxD(9) [OF c] p by (auto simp: held_ok_def Let_def)
  note b = block_lengths [OF c o]
  have "ncq_inv M (upd (s\<lparr>phases := (phases s)[nat (block a) := 0]\<rparr>) i (a\<lparr>pc := 20, queue := 0\<rparr>))"
    by (intro inv_only_held [OF c only_held_block(1) [OF c o refl]])
      (use o al h b in \<open>simp_all add: actor_ok_def held_ok_def queued_ok_def Let_def\<close>)
  then show ?thesis using e by (auto simp: abort_event_def split: if_splits)
qed

lemma clean_write_word:
  assumes c: "turn_ctx M s i a" and p: "pc a = 7 \<or> pc a = 8"
  shows "clean M (write_word M s (int i) a)"
proof -
  let ?v = "1 + int i * m_m M + (m_m M - left a - 1)"
  have o: "owns a" using p by (intro pc_owner [OF c]) auto
  have ip: "int i < m_p M" using actor_okD(6) [OF turn_ctxD(8) [OF c]] p by auto
  have al: "\<not> aliased a" using p by (intro not_aliased [OF c]) auto
  have h: "status_epochs s ! nat (block a) = epochs s ! nat (block a)"
    "phases s ! nat (block a) = 1" "pc a = 8 \<Longrightarrow> word0 s ! nat (block a) = ?v"
    using turn_ctxD(9) [OF c] p by (auto simp: held_ok_def Let_def)
  note b = block_lengths [OF c o]
  have 7: "ncq_inv M (upd (s\<lparr>word0 := (word0 s)[nat (block a) := ?v]\<rparr>) i (a\<lparr>pc := 8\<rparr>))"
    by (intro inv_only_held [OF c only_held_block(2) [OF c o refl]])
      (use o al h b ip in \<open>simp_all add: actor_ok_def held_ok_def Let_def\<close>)
  have 8: "ncq_inv M (upd (s\<lparr>word1 := (word1 s)[nat (block a) := ?v]\<rparr>) i (a\<lparr>pc := 9\<rparr>))"
    if p: "pc a = 8"
    by (intro inv_only_held [OF c only_held_block(3) [OF c o refl]])
      (use o al h(1,2) h(3) [OF p] b ip in \<open>simp_all add: actor_ok_def held_ok_def Let_def\<close>)
  show ?thesis
    unfolding write_word_eq [OF c p] clean_def
    using 7 8 p clean_abort_event [OF c p] by auto
qed

lemma clean_release_committed:
  assumes c: "turn_ctx M s i a" and p: "pc a = 9"
  shows "clean M (release_committed M s (int i) a)"
proof -
  have o: "owns a" using p by (intro pc_owner [OF c]) simp
  have al: "\<not> aliased a" using p by (intro not_aliased [OF c]) simp
  have h: "status_epochs s ! nat (block a) = epochs s ! nat (block a)"
    "word0 s ! nat (block a) = word1 s ! nat (block a)"
    using turn_ctxD(9) [OF c] p by (auto simp: held_ok_def Let_def)
  note b = block_lengths [OF c o]
  show ?thesis
    unfolding release_committed_eq [OF c p] clean_single
    by (intro conjI refl inv_only_held [OF c only_held_block(1) [OF c o refl]])
      (use o al h b in \<open>simp_all add: actor_ok_def held_ok_def queued_ok_def Let_def\<close>)
qed

lemma clean_validate_ready:
  assumes c: "turn_ctx M s i a" and p: "pc a = 10"
  shows "clean M (validate_ready M s (int i) a)"
proof -
  have o: "owns a" using p by (intro pc_owner [OF c]) simp
  have ip: "m_p M \<le> int i" using actor_okD(7) [OF turn_ctxD(8) [OF c]] p by simp
  have h: "status_epochs s ! nat (block a) = epochs s ! nat (block a)"
    "word0 s ! nat (block a) = word1 s ! nat (block a)"
    using turn_ctxD(9) [OF c] p by (auto simp: held_ok_def Let_def)
  note b = block_lengths [OF c o]
  show ?thesis
    unfolding validate_ready_eq [OF c p] clean_single
    by (intro conjI refl inv_only_held [OF c only_held_block(1) [OF c o refl]])
      (use o ip h b in \<open>simp_all add: actor_ok_def held_ok_def Let_def\<close>)
qed

lemma clean_read_words:
  assumes c: "turn_ctx M s i a"
  shows "pc a = 11 \<Longrightarrow> clean M (read_word0 M s (int i) a)"
    "pc a = 12 \<Longrightarrow> clean M (read_word1 M s (int i) a)"
proof -
  assume p: "pc a = 11"
  have o: "owns a" using p by (intro pc_owner [OF c]) simp
  have ip: "m_p M \<le> int i" using actor_okD(7) [OF turn_ctxD(8) [OF c]] p by simp
  have al: "aliased a" using actor_okD(3) [OF turn_ctxD(8) [OF c]] p by simp
  have h: "status_epochs s ! nat (block a) = epochs s ! nat (block a)"
    "word0 s ! nat (block a) = word1 s ! nat (block a)" "phases s ! nat (block a) = 3"
    using turn_ctxD(9) [OF c] p by (auto simp: held_ok_def Let_def)
  show "clean M (read_word0 M s (int i) a)"
    unfolding read_word0_eq [OF c p] clean_single
    by (intro conjI refl inv_local [OF c])
      (use o ip h al in \<open>simp_all add: actor_ok_def held_ok_def Let_def\<close>)
next
  assume p: "pc a = 12"
  have o: "owns a" using p by (intro pc_owner [OF c]) simp
  have ip: "m_p M \<le> int i" using actor_okD(7) [OF turn_ctxD(8) [OF c]] p by simp
  have h: "status_epochs s ! nat (block a) = epochs s ! nat (block a)"
    "phases s ! nat (block a) = 3"
    using turn_ctxD(9) [OF c] p by (auto simp: held_ok_def Let_def)
  show "clean M (read_word1 M s (int i) a)"
    unfolding read_word1_eq [OF c p] clean_single
    by (intro conjI refl inv_local [OF c])
      (use o ip h in \<open>simp_all add: actor_ok_def held_ok_def Let_def\<close>)
qed

lemma clean_release_empty:
  assumes c: "turn_ctx M s i a" and p: "pc a = 13"
  shows "clean M (release_empty M s (int i) a)"
proof -
  have o: "owns a" using p by (intro pc_owner [OF c]) simp
  have al: "\<not> aliased a" using p by (intro not_aliased [OF c]) simp
  have h: "status_epochs s ! nat (block a) = epochs s ! nat (block a)"
    using turn_ctxD(9) [OF c] p by (auto simp: held_ok_def Let_def)
  note b = block_lengths [OF c o]
  show ?thesis
    unfolding release_empty_eq [OF c p] clean_single
    by (intro conjI refl inv_only_held [OF c only_held_block(1) [OF c o refl]])
      (use o al h b in \<open>simp_all add: actor_ok_def held_ok_def queued_ok_def Let_def\<close>)
qed


text \<open>The enqueue steps.\<close>

lemma held_queued:
  assumes c: "turn_ctx M s i a" and p: "pc a \<in> {20, 21, 22, 25}"
  shows "queued_ok s (queue a) (block a)" "status_epochs s ! nat (block a) = epochs s ! nat (block a)"
  using p turn_ctxD(9) [OF c]
  by (elim insertE emptyE; simp add: held_ok_def Let_def queued_ok_def)+

lemma inv_enqueuing:
  assumes c: "turn_ctx M s i a" and p: "pc a \<in> {20, 21, 22, 25}" and p': "pc new \<in> {20, 21, 22, 25}"
    and same: "block new = block a" "queue new = queue a" "owns new = owns a"
    and ok: "actor_ok M s i new"
  shows "ncq_inv M (upd s i new)"
proof (rule inv_local [OF c same(3) same(1) ok])
  have "phases s ! nat (block a) = (if queue a = 0 then 0 else 2)" "queue a = 0 \<or> queue a = 1"
    using p held_queued(1) [OF c p] actor_okD(8) [OF turn_ctxD(8) [OF c]]
    by (elim insertE emptyE; simp add: queued_ok_def)+
  then show "held_ok M s i new"
    using p' held_queued [OF c p] unfolding same held_ok_def Let_def
    by (elim insertE emptyE) (simp_all add: same)
qed

lemma clean_load_tail:
  assumes c: "turn_ctx M s i a" and p: "pc a = 20" and lim: "Tl s (queue a) < m_limit M"
  shows "clean M (load_tail M s (int i) a)"
proof -
  have o: "owns a" using p by (intro pc_owner [OF c]) simp
  have al: "\<not> aliased a" using p by (intro not_aliased [OF c]) simp
  have q: "queue a \<in> {0, 1}" using p by (intro enq_queue [OF c]) simp
  then have "m_n M \<le> Tl s (queue a)"
    using turn_ctx_queue(1) [OF c q] by (simp add: queue_ok_def)
  then show ?thesis
    unfolding load_tail_eq [OF c p lim] clean_single
    by (intro conjI refl inv_enqueuing [OF c])
      (use p o al q in \<open>simp_all add: actor_ok_def Let_def\<close>)
qed

lemma clean_observe_entry:
  assumes c: "turn_ctx M s i a" and p: "pc a = 21"
  shows "clean M (observe_entry M s (int i) a)"
proof -
  let ?e = "ent M s (queue a) (ticket a)"
  have o: "owns a" using p by (intro pc_owner [OF c]) simp
  have al: "\<not> aliased a" using p by (intro not_aliased [OF c]) simp
  have q: "queue a \<in> {0, 1}" using p by (intro enq_queue [OF c]) simp
  have t: "m_n M \<le> ticket a" "ticket a \<le> Tl s (queue a)"
    using actor_okD(9) [OF turn_ctxD(8) [OF c]] p by auto
  have tf: "Tl s (queue a) \<le> Fr s (queue a)"
    using turn_ctx_queue(1) [OF c q] by (simp add: queue_ok_def)
  have 1: "ncq_inv M (upd s i (a\<lparr>pc := 25, entry := ?e\<rparr>))"
    if "?e div m_n M = ticket a div m_n M"
    by (intro inv_enqueuing [OF c])
      (use p o al q t tf current_entry_published [OF c q that] in \<open>simp_all add: actor_ok_def Let_def\<close>)
  have 2: "ncq_inv M (upd s i (a\<lparr>pc := 22, entry := ?e\<rparr>))"
    if "?e div m_n M = ticket a div m_n M - 1"
    by (intro inv_enqueuing [OF c]) (use p o al q t that in \<open>simp_all add: actor_ok_def Let_def\<close>)
  have 3: "ncq_inv M (upd s i (a\<lparr>pc := 20, ticket := 0, entry := 0\<rparr>))"
    by (intro inv_enqueuing [OF c]) (use p o al q in \<open>simp_all add: actor_ok_def Let_def\<close>)
  show ?thesis
    unfolding observe_entry_eq [OF c p] Let_def using 1 2 3 by simp
qed

lemma clean_cas_entry:
  assumes c: "turn_ctx M s i a" and p: "pc a = 22"
  shows "clean M (cas_entry M s (int i) a)"
proof (cases "ent M s (queue a) (ticket a) = entry a")
  case True
  let ?s' = "installed M s i a" and ?new = "a\<lparr>pc := 23, owns := False\<rparr>"
  have o: "owns a" using p by (intro pc_owner [OF c]) simp
  have al: "\<not> aliased a" using p by (intro not_aliased [OF c]) simp
  have q: "queue a \<in> {0, 1}" using p by (intro enq_queue [OF c]) simp
  have qb: "queued_ok s (queue a) (block a)" using p by (intro held_queued [OF c]) simp
  note f = pc22_fresh [OF c p True]
  have F: "Fr ?s' (queue a) = Fr s (queue a) + 1"
    using q turn_ctxD(6) [OF c] by (auto simp: installed_def Let_def shape_ok_def)
  have new: "\<not> owns ?new" "actor_ok M ?s' i ?new" using al q f F by (simp_all add: actor_ok_def Let_def)
  have "ncq_inv M ?s'"
    by (rule inv_install [OF turn_ctxD(2,5,3) [OF c] _ _ q refl f(2) qb _ new])
      (simp_all add: turn_ctxD(12) [OF c] o installed_def Let_def)
  then show ?thesis by (simp add: cas_entry_eq [OF c p] True)
next
  case False
  have o: "owns a" using p by (intro pc_owner [OF c]) simp
  have al: "\<not> aliased a" using p by (intro not_aliased [OF c]) simp
  have q: "queue a \<in> {0, 1}" using p by (intro enq_queue [OF c]) simp
  have "ncq_inv M (upd s i (a\<lparr>pc := 20, ticket := 0, entry := 0\<rparr>))"
    by (intro inv_enqueuing [OF c]) (use p o al q in \<open>simp_all add: actor_ok_def Let_def\<close>)
  then show ?thesis using False by (simp add: cas_entry_eq [OF c p])
qed

text \<open>A tail CAS only ever advances the tail past a published entry.\<close>

lemma only_held_tail:
  assumes c: "turn_ctx M s i a" and p: "pc a = 23 \<or> pc a = 25"
  shows "only_held M s i (tail_helped s a)"
proof (cases "Tl s (queue a) = ticket a")
  case True
  have q: "queue a \<in> {0, 1}" using p by (intro enq_queue [OF c]) auto
  have t: "ticket a < Fr s (queue a)" using actor_okD(11) [OF turn_ctxD(8) [OF c]] p by auto
  let ?s1 = "s\<lparr>tails := (tails s)[nat (queue a) := ticket a + 1]\<rparr>"
  have T: "Tl ?s1 r = (if r = queue a then ticket a + 1 else Tl s r)" if "r = 0 \<or> r = 1" for r
    using that q turn_ctxD(6) [OF c] by (auto simp: shape_ok_def nth_list_update)
  note r = only_held_refl [OF c, unfolded only_held_def]
  have "Tl s r \<le> Tl ?s1 r \<and> Tl ?s1 r \<le> Fr s r" if "r = 0 \<or> r = 1" for r
    unfolding T [OF that] using True t r that by auto
  then have "only_held M s i ?s1"
    unfolding only_held_def using r by (simp add: shape_ok_def same_block_def)
  then show ?thesis by (simp add: tail_helped_def True)
next
  case False
  then show ?thesis using only_held_refl [OF c] by (simp add: tail_helped_def)
qed

lemma tail_helped_simps [simp]:
  "heads (tail_helped s a) = heads s" "frontiers (tail_helped s a) = frontiers s"
  "entries (tail_helped s a) = entries s" "owners (tail_helped s a) = owners s"
  "epochs (tail_helped s a) = epochs s" "phases (tail_helped s a) = phases s"
  "status_epochs (tail_helped s a) = status_epochs s" "word0 (tail_helped s a) = word0 s"
  "word1 (tail_helped s a) = word1 s" "actors (tail_helped s a) = actors s"
  by (simp_all add: tail_helped_def)

lemma clean_cas_tail:
  assumes c: "turn_ctx M s i a" and p: "pc a = 23 \<or> pc a = 25"
  shows "clean M (cas_tail M s (int i) a)"
proof -
  let ?s1 = "tail_helped s a"
  have al: "\<not> aliased a" using p by (intro not_aliased [OF c]) auto
  note oh = only_held_tail [OF c p]
  have q: "queue a \<in> {0, 1}" using p by (intro enq_queue [OF c]) auto
  have "ncq_inv M (upd ?s1 i (a\<lparr>pc := if pc a = 23 then 24 else 20, ticket := 0, entry := 0\<rparr>))"
  proof (cases "pc a = 23")
    case True
    then have o: "\<not> owns a" by (intro not_owner [OF c]) simp
    show ?thesis
      by (intro inv_only_held [OF c oh])
        (use True o al in \<open>simp_all add: actor_ok_def held_ok_def Let_def\<close>)
  next
    case False
    then have p25: "pc a = 25" using p by simp
    then have o: "owns a" by (intro pc_owner [OF c]) simp
    have "queued_ok s (queue a) (block a)"
      "status_epochs s ! nat (block a) = epochs s ! nat (block a)"
      using p25 held_queued [OF c] by simp_all
    then show ?thesis
      by (intro inv_only_held [OF c oh])
        (use False o al q in \<open>simp_all add: actor_ok_def held_ok_def Let_def queued_ok_def\<close>)
  qed
  then show ?thesis by (simp add: cas_tail_eq [OF c p])
qed

lemma clean_enqueue_response:
  assumes c: "turn_ctx M s i a" and p: "pc a = 24"
  shows "clean M (enqueue_response M s (int i) a)"
proof -
  have o: "\<not> owns a" using p by (intro not_owner [OF c]) simp
  show ?thesis
    unfolding enqueue_response_eq [OF c] clean_single
    by (intro conjI refl inv_local_free [OF c o]) (simp_all add: Actor_def actor_ok_def)
qed

theorem clean_actor_turn:
  assumes c: "turn_ctx M s i a" and run: "pc a \<noteq> 99"
    and lim: "pc a = 20 \<Longrightarrow> Tl s (queue a) < m_limit M"
  shows "clean M (actor_turn M s (int i) a)"
proof -
  have q: "(if int i < m_p M then 0 else 1) = deq_queue M i" by (simp add: deq_queue_def)
  have pcs: "pc a \<in> {0, 1, 2, 4, 5, 6, 7, 8, 9, 10, 11, 12, 13, 20, 21, 22, 23, 24, 25, 99}"
    by (rule actor_okD(1) [OF turn_ctxD(8) [OF c]])
  note cl = clean_begin_dequeue [OF c] clean_load_head [OF c] clean_load_entry [OF c]
    clean_cas_head [OF c] clean_mirror_epoch [OF c] clean_release_reserved [OF c]
    clean_write_word [OF c] clean_release_committed [OF c] clean_validate_ready [OF c]
    clean_read_words [OF c] clean_release_empty [OF c] clean_load_tail [OF c _ lim]
    clean_observe_entry [OF c] clean_cas_entry [OF c] clean_cas_tail [OF c]
    clean_enqueue_response [OF c]
  show ?thesis
    using pcs run cl unfolding actor_turn_def Let_def q
    by (elim insertE emptyE) simp_all
qed

end
