(* ===== verification/Ncq_Checked.thy ===== *)
theory Ncq_Checked
  imports Ncq_Clean
begin

text \<open>
  The invariant the source checks follows from the inductive invariant, and the initial state of
  every admissible configuration satisfies both.
\<close>

section \<open>The checked invariant follows\<close>

lemma check_tickets:
  assumes n: "0 < m_n M" and sh: "shape_ok M s" and q: "q \<in> {0, 1}" and Q: "queue_ok M s q"
    and T: "tokens_ok M s q" and B: "blocks_ok M s"
  shows "Hd s q \<le> h \<Longrightarrow> h \<le> Fr s q \<Longrightarrow>
    inv_tickets M s q [h..Fr s q - 1] (map (tok M s q) [Hd s q..h - 1])
    = Go (map (tok M s q) [Hd s q..Fr s q - 1])"
proof (induction "nat (Fr s q - h)" arbitrary: h)
  case 0
  then show ?case by simp
next
  case (Suc k)
  then have h: "Hd s q \<le> h" "h < Fr s q" by auto
  have up: "[h..Fr s q - 1] = h # [h + 1..Fr s q - 1]" using h by (simp add: upto.simps)
  have dn: "[Hd s q..(h + 1) - 1] = [Hd s q..h - 1] @ [h]" using h upto_rec2 [of "Hd s q" h] by simp
  let ?b = "tok M s q h"
  have b: "0 \<le> ?b" "?b < m_n M" using tok_range [OF n] by auto
  have fresh: "?b \<notin> set (map (tok M s q) [Hd s q..h - 1])"
  proof
    assume "?b \<in> set (map (tok M s q) [Hd s q..h - 1])"
    then obtain T' where T': "Hd s q \<le> T'" "T' \<le> h - 1" "?b = tok M s q T'" by auto
    then have "T' < Fr s q" using h by linarith
    from tokens_ok_inj [OF T h T'(1) this T'(3)] T'(2) show False by simp
  qed
  have cyc: "ent M s q h div m_n M = h div m_n M"
    using Q h unfolding queue_ok_def by auto
  have own: "Ow s ?b = -1 - q" by (rule tokens_okD [OF T h])
  have qd: "queued_ok s q ?b"
    using B b own q unfolding blocks_ok_def by auto
  have IH: "inv_tickets M s q [h + 1..Fr s q - 1] (map (tok M s q) [Hd s q..(h + 1) - 1])
    = Go (map (tok M s q) [Hd s q..Fr s q - 1])"
    using Suc.hyps(2) h by (intro Suc.hyps(1)) auto
  have eb: "ent M s q h mod m_n M = ?b" by (simp add: tok_def)
  have dn': "map (tok M s q) [Hd s q..h] = map (tok M s q) [Hd s q..h - 1] @ [?b]" using dn by simp
  note ev = up inv_tickets.simps at_entry(1) [OF sh n q] Let_def eb at_block [OF sh b]
  consider "q = 0" | "q = 1" using q by blast
  then show ?case
  proof cases
    case 1
    then show ?thesis
      unfolding ev using qd cyc own fresh IH dn' by (simp add: queued_ok_def del: in_set_conv_nth)
  next
    case 2
    then show ?thesis
      unfolding ev using qd cyc own fresh IH dn' by (simp add: queued_ok_def del: in_set_conv_nth)
  qed
qed

lemma check_queue:
  assumes n: "0 < m_n M" and sh: "shape_ok M s" and q: "q \<in> {0, 1}" and Q: "queue_ok M s q"
    and T: "tokens_ok M s q" and B: "blocks_ok M s"
  shows "inv_queue M s q = Go (map (tok M s q) [Hd s q..Fr s q - 1])"
proof -
  have "0 \<le> Hd s q \<and> Hd s q \<le> Fr s q \<and> 0 \<le> Fr s q - Hd s q \<and> Fr s q - Hd s q \<le> m_n M
    \<and> Fr s q - 1 \<le> Tl s q \<and> Tl s q \<le> Fr s q" using Q by (simp add: queue_ok_def)
  moreover have "[Hd s q..Hd s q - 1] = []" by simp
  ultimately show ?thesis
    using check_tickets [OF n sh q Q T B, of "Hd s q"] by (simp add: inv_queue_def at_queue [OF sh q])
qed

text \<open>The blocks held by actors, in actor order.\<close>

definition held_blocks :: "actor list \<Rightarrow> int list" where
  "held_blocks as = map block (filter owns as)"

lemma check_actors:
  assumes sh: "shape_ok M s"
    and hol: "\<And>k. k < length as \<Longrightarrow> owns (as ! k) \<Longrightarrow>
       0 \<le> block (as ! k) \<and> block (as ! k) < m_n M \<and> Ow s (block (as ! k)) = i + int k"
    and al: "\<And>k. k < length as \<Longrightarrow> \<not> owns (as ! k) \<Longrightarrow> \<not> aliased (as ! k)"
  shows "inv_actors s i as seen = Go (seen @ held_blocks as)"
  using hol al
proof (induction as arbitrary: i seen)
  case Nil
  then show ?case by (simp add: held_blocks_def)
next
  case (Cons a as)
  have tl: "inv_actors s (i + 1) as x = Go (x @ held_blocks as)" for x
    using Cons.prems(1) [of "Suc k" for k] Cons.prems(2) [of "Suc k" for k]
    by (intro Cons.IH) (auto simp: add.assoc)
  show ?case
    using Cons.prems(1) [of 0] Cons.prems(2) [of 0]
    by (cases "owns a") (simp_all add: tl at_block [OF sh] held_blocks_def)
qed

lemma distinct_held_blocks:
  assumes "\<And>j k. j < k \<Longrightarrow> k < length as \<Longrightarrow> owns (as ! j) \<Longrightarrow> owns (as ! k) \<Longrightarrow>
    block (as ! j) \<noteq> block (as ! k)"
  shows "distinct (held_blocks as)"
  using assms
proof (induction as)
  case Nil
  then show ?case by (simp add: held_blocks_def)
next
  case (Cons a as)
  have "distinct (held_blocks as)"
    using Cons.prems [of "Suc j" "Suc k" for j k] by (intro Cons.IH) simp
  moreover have "block a \<notin> block ` {x \<in> set as. owns x}" if "owns a"
  proof
    assume "block a \<in> block ` {x \<in> set as. owns x}"
    then obtain k where "k < length as" "owns (as ! k)" "block a = block (as ! k)"
      by (auto simp: in_set_conv_nth)
    then show False using Cons.prems [of 0 "Suc k"] that by simp
  qed
  ultimately show ?case by (auto simp: held_blocks_def)
qed

lemma sort_partition:
  fixes xs :: "int list"
  assumes "distinct xs" "set xs = {0..n - 1}"
  shows "sort xs = [0..n - 1]"
  by (rule sorted_distinct_set_unique) (use assms in auto)

theorem inv_implies_checked:
  assumes M: "model_ok M" and I: "ncq_inv M s"
  shows "ncq_invariant M s = Inr None"
proof -
  have n: "0 < m_n M" using M by (simp add: model_ok_def)
  have sh: "shape_ok M s" and B: "blocks_ok M s" and H: "holders_ok M s" using I by (auto simp: ncq_inv_def)
  have Q: "queue_ok M s q" and T: "tokens_ok M s q" if "q \<in> {0, 1}" for q
    using I that by (auto simp: ncq_inv_def)
  have A: "actor_ok M s k (actors s ! k)" if "k < length (actors s)" for k
    using I that by (auto simp: ncq_inv_def)
  define L where "L q = map (tok M s q) [Hd s q..Fr s q - 1]" for q
  have iq: "inv_queue M s q = Go (L q)" if "q \<in> {0, 1}" for q
    unfolding L_def by (rule check_queue [OF n sh that Q [OF that] T [OF that] B])
  have setL: "set (L q) = {b. 0 \<le> b \<and> b < m_n M \<and> Ow s b = -1 - q}" if q: "q \<in> {0, 1}" for q
  proof -
    have "set (L q) = tok M s q ` {Hd s q..<Fr s q}" by (auto simp: L_def)
    also have "\<dots> = {b. 0 \<le> b \<and> b < m_n M \<and> Ow s b = -1 - q}"
    proof (intro equalityI subsetI)
      fix b assume "b \<in> tok M s q ` {Hd s q..<Fr s q}"
      then show "b \<in> {b. 0 \<le> b \<and> b < m_n M \<and> Ow s b = -1 - q}"
        using tokens_okD [OF T [OF q]] tok_range [OF n] by auto
    next
      fix b assume "b \<in> {b. 0 \<le> b \<and> b < m_n M \<and> Ow s b = -1 - q}"
      then show "b \<in> tok M s q ` {Hd s q..<Fr s q}"
        using T [OF q] unfolding tokens_ok_def by blast
    qed
    finally show ?thesis .
  qed
  have distL: "distinct (L q)" if q: "q \<in> {0, 1}" for q
    using T [OF q] unfolding L_def distinct_map tokens_ok_def
    by (auto intro: inj_on_subset)
  have disj: "set (L 0) \<inter> set (L 1) = {}" unfolding setL [of 0, simplified] setL [of 1, simplified] by auto
  have ia: "inv_actors s 0 (actors s) (L 0 @ L 1) = Go ((L 0 @ L 1) @ held_blocks (actors s))"
  proof (rule check_actors [OF sh])
    fix k assume k: "k < length (actors s)"
    show "owns (actors s ! k) \<Longrightarrow> 0 \<le> block (actors s ! k) \<and> block (actors s ! k) < m_n M
      \<and> Ow s (block (actors s ! k)) = 0 + int k" using holders_okD [OF H k] by simp
    assume "\<not> owns (actors s ! k)"
    then show "\<not> aliased (actors s ! k)"
      unfolding actor_okD(2) [OF A [OF k]] actor_okD(3) [OF A [OF k]] by blast
  qed
  have setH: "set (held_blocks (actors s)) = {b. 0 \<le> b \<and> b < m_n M \<and> 0 \<le> Ow s b}"
  proof (intro equalityI subsetI)
    fix b assume "b \<in> set (held_blocks (actors s))"
    then obtain k where k: "k < length (actors s)" "owns (actors s ! k)" "b = block (actors s ! k)"
      by (auto simp: held_blocks_def in_set_conv_nth)
    then show "b \<in> {b. 0 \<le> b \<and> b < m_n M \<and> 0 \<le> Ow s b}" using holders_okD [OF H k(1,2)] by simp
  next
    fix b assume b: "b \<in> {b. 0 \<le> b \<and> b < m_n M \<and> 0 \<le> Ow s b}"
    then have "Ow s b < m_p M + m_c M" using B by (auto simp: blocks_ok_def)
    then obtain k where k: "k < length (actors s)" "Ow s b = int k"
      using b sh by (intro that [of "nat (Ow s b)"]) (auto simp: shape_ok_def)
    then have "owns (actors s ! k) \<and> block (actors s ! k) = b" using H b by (auto simp: holders_ok_def)
    then show "b \<in> set (held_blocks (actors s))" using k by (force simp: held_blocks_def)
  qed
  have distH: "distinct (held_blocks (actors s))"
  proof (rule distinct_held_blocks)
    fix j k assume jk: "j < k" "k < length (actors s)" and "owns (actors s ! j)" "owns (actors s ! k)"
    then show "block (actors s ! j) \<noteq> block (actors s ! k)"
      using holders_okD(3) [OF H, of j] holders_okD(3) [OF H, of k] by auto
  qed
  let ?seen = "(L 0 @ L 1) @ held_blocks (actors s)"
  have all: "set ?seen = {0..m_n M - 1}"
  proof -
    have "Ow s b = -1 \<or> Ow s b = -2 \<or> 0 \<le> Ow s b" if "0 \<le> b" "b < m_n M" for b
    proof -
      have "-2 \<le> Ow s b" using B that by (simp add: blocks_ok_def)
      then show ?thesis by linarith
    qed
    then show ?thesis
      unfolding set_append setL [of 0, simplified] setL [of 1, simplified] setH by fastforce
  qed
  have "distinct ?seen"
    using distL [of 0] distL [of 1] distH disj setL [of 0] setL [of 1] setH by auto
  then have st: "sort ?seen = [0..m_n M - 1]" by (rule sort_partition [OF _ all])
  have ep: "\<not> (\<exists>x \<in> set (epochs s). x < 0)"
  proof
    assume "\<exists>x \<in> set (epochs s). x < 0"
    then obtain k where k: "k < length (epochs s)" "epochs s ! k < 0" by (auto simp: in_set_conv_nth)
    then have "0 \<le> epochs s ! nat (int k)"
      using B sh by (auto simp: blocks_ok_def shape_ok_def simp del: nat_int)
    with k show False by simp
  qed
  have iq0: "inv_queue M s 0 = Go (L 0)" and iq1: "inv_queue M s 1 = Go (L 1)" by (simp_all add: iq)
  show ?thesis unfolding ncq_invariant_def iq0 iq1 using disj ia st ep by simp
qed

section \<open>The initial state\<close>

lemma initial_inv:
  assumes M: "model_ok M"
  shows "ncq_inv M (ncq_initial M)"
proof -
  let ?s = "ncq_initial M" and ?n = "m_n M"
  have n: "2 \<le> ?n" using M by (simp add: model_ok_def)
  have ents: "entries ?s = [0..?n - 1] @ replicate (nat ?n) 0" by (simp add: ncq_initial_def Let_def)
  have ow: "Ow ?s b = -1" if "0 \<le> b" "b < ?n" for b
    using that by (simp add: ncq_initial_def Let_def)
  have e0: "ent M ?s 0 T = T mod ?n" for T
  proof -
    have "0 \<le> T mod ?n" "T mod ?n < ?n" using n by simp_all
    then show ?thesis by (simp add: ent_def slot_def ents nth_append nat_less_iff)
  qed
  have e1: "ent M ?s 1 T = 0" for T
  proof -
    have "0 \<le> T mod ?n" "T mod ?n < ?n" using n by simp_all
    then have "nat (?n + T mod ?n) = nat ?n + nat (T mod ?n)" "nat (T mod ?n) < nat ?n"
      using n by (simp_all add: nat_add_distrib nat_less_iff)
    then show ?thesis by (simp add: ent_def slot_def ents nth_append)
  qed
  have hd: "Hd ?s 0 = 0" "Hd ?s 1 = ?n" "Fr ?s 0 = ?n" "Fr ?s 1 = ?n" "Tl ?s 0 = ?n" "Tl ?s 1 = ?n"
    by (simp_all add: ncq_initial_def Let_def)
  have "shape_ok M ?s"
    using n M by (auto simp: shape_ok_def ncq_initial_def Let_def model_ok_def)
  moreover have "queue_ok M ?s 0"
  proof -
    have "ent M ?s 0 T div ?n = T div ?n" if "0 \<le> T" "T < ?n" for T
      using that by (simp add: e0)
    then show ?thesis using n unfolding queue_ok_def hd by simp
  qed
  moreover have "queue_ok M ?s 1"
  proof -
    have "ent M ?s 1 T div ?n = T div ?n" if "0 \<le> T" "T < ?n" for T
      using that by (simp add: e1)
    then show ?thesis using n unfolding queue_ok_def hd by simp
  qed
  moreover have "tokens_ok M ?s 0"
  proof -
    have tk: "tok M ?s 0 T = T mod ?n" for T by (simp add: tok_def e0)
    have "inj_on (tok M ?s 0) {0..<?n}" by (auto simp: inj_on_def tk)
    moreover have "b \<in> tok M ?s 0 ` {0..<?n}" if "0 \<le> b" "b < ?n" for b
      using that by (intro image_eqI [of _ _ b]) (auto simp: tk)
    ultimately show ?thesis using ow n unfolding tokens_ok_def hd by (simp add: tk)
  qed
  moreover have "tokens_ok M ?s 1"
    using ow n unfolding tokens_ok_def hd by simp
  moreover have "blocks_ok M ?s"
  proof -
    have "queued_ok ?s 0 b" if "0 \<le> b" "b < ?n" for b
      using that by (simp add: queued_ok_def ncq_initial_def Let_def)
    moreover have "epochs ?s ! nat b = 0" if "0 \<le> b" "b < ?n" for b
      using that by (simp add: ncq_initial_def Let_def)
    ultimately show ?thesis using ow M unfolding blocks_ok_def model_ok_def by simp
  qed
  moreover have act: "actors ?s ! i = Actor\<lparr>left := m_m M\<rparr>" if "i < length (actors ?s)" for i
    using that by (simp add: ncq_initial_def Let_def)
  moreover have "holders_ok M ?s"
    using ow act unfolding holders_ok_def by (auto simp: Actor_def)
  moreover have "actor_ok M ?s i (actors ?s ! i) \<and> held_ok M ?s i (actors ?s ! i)"
    if "i < length (actors ?s)" for i
    unfolding act [OF that] by (simp add: Actor_def actor_ok_def held_ok_def Let_def)
  ultimately show ?thesis unfolding ncq_inv_def by blast
qed

end
