(* ===== verification/Ncq_Steps.thy ===== *)
theory Ncq_Steps
  imports Ncq_Clean
begin

text \<open>
  The turns of an actor as a step relation with one rule per branch, its equivalence with the
  successor generator of the source under the invariant, and the reservation budget, which keeps
  every ticket below the native ceiling.
\<close>

section \<open>The step relation of one actor\<close>

definition begun :: "actor \<Rightarrow> int \<Rightarrow> actor" where
  "begun a q = a\<lparr>pc := 1, ticket := 0, entry := 0, block := -1, epoch := 0, owns := False, queue := q,
     aliased := False, read := 0\<rparr>"

definition forget :: "int \<Rightarrow> actor \<Rightarrow> actor" where
  "forget x a = a\<lparr>pc := x, ticket := 0, entry := 0\<rparr>"

definition payload :: "ncq_model \<Rightarrow> nat \<Rightarrow> actor \<Rightarrow> int" where
  "payload M i a = 1 + int i * m_m M + (m_m M - left a - 1)"

inductive turn ::
    "ncq_model \<Rightarrow> ncq_state \<Rightarrow> nat \<Rightarrow> actor \<Rightarrow> ncq_label \<Rightarrow> ncq_state \<Rightarrow> bool \<Rightarrow> bool"
  for M s i a where
  finished: "pc a = 0 \<Longrightarrow> int i < m_p M \<Longrightarrow> left a = 0 \<Longrightarrow>
    turn M s i a FinishedBudget (upd s i (Actor\<lparr>pc := 99, left := 0\<rparr>)) False"
| begins: "pc a = 0 \<Longrightarrow> \<not> (int i < m_p M \<and> left a = 0) \<Longrightarrow> q = deq_queue M i \<Longrightarrow>
    turn M s i a (BeginDequeue q) (upd s i (begun a q)) False"
| head_loaded: "pc a = 1 \<Longrightarrow> q = deq_queue M i \<Longrightarrow>
    turn M s i a (LoadHead q) (upd s i (a\<lparr>pc := 2, ticket := Hd s q\<rparr>)) False"
| entry_current: "pc a = 2 \<Longrightarrow> q = deq_queue M i \<Longrightarrow>
    ent M s q (ticket a) div m_n M = ticket a div m_n M \<Longrightarrow>
    turn M s i a (LoadEntryCurrent q) (upd s i (a\<lparr>pc := 4, entry := ent M s q (ticket a)\<rparr>)) False"
| empty: "pc a = 2 \<Longrightarrow> q = deq_queue M i \<Longrightarrow> ticket a div m_n M > 0 \<Longrightarrow>
    ent M s q (ticket a) div m_n M = ticket a div m_n M - 1 \<Longrightarrow>
    turn M s i a (EmptyObservation q)
      (upd s i (forget (if consumers_may_stop M s i then 99 else 0) a)) True"
| stale_generation: "pc a = 2 \<Longrightarrow> q = deq_queue M i \<Longrightarrow>
    ent M s q (ticket a) div m_n M \<noteq> ticket a div m_n M \<Longrightarrow>
    \<not> (ticket a div m_n M > 0 \<and> ent M s q (ticket a) div m_n M = ticket a div m_n M - 1) \<Longrightarrow>
    turn M s i a (StaleGenerationRetry q) (upd s i (forget 1 a)) False"
| claims: "pc a = 4 \<Longrightarrow> q = deq_queue M i \<Longrightarrow> ticket a = Hd s q \<Longrightarrow>
    turn M s i a (HeadCasSuccess q (ticket a) (tok M s q (Hd s q))) (claimed M s i a q) True"
| claim_fails: "pc a = 4 \<Longrightarrow> q = deq_queue M i \<Longrightarrow> ticket a \<noteq> Hd s q \<Longrightarrow>
    turn M s i a HeadCasFailure (upd s i (forget 1 a)) False"
| mirrors: "pc a = 5 \<Longrightarrow> g = epochs s ! nat (block a) + 1 \<Longrightarrow>
    turn M s i a (OwnedEpochMirror g)
      (upd (s\<lparr>epochs := (epochs s)[nat (block a) := g]\<rparr>) i
        (a\<lparr>pc := 6, epoch := g, left := left a - 1\<rparr>)) False"
| reserves: "pc a = 6 \<Longrightarrow>
    turn M s i a ReleaseReserved
      (upd (s\<lparr>phases := (phases s)[nat (block a) := 1],
             status_epochs := (status_epochs s)[nat (block a) := epochs s ! nat (block a)]\<rparr>) i
        (a\<lparr>pc := 7\<rparr>)) False"
| aborts: "pc a = 7 \<or> pc a = 8 \<Longrightarrow> m_abort M \<Longrightarrow>
    turn M s i a AbortOwnedWrite
      (upd (s\<lparr>phases := (phases s)[nat (block a) := 0]\<rparr>) i (a\<lparr>pc := 20, queue := 0\<rparr>)) False"
| writes0: "pc a = 7 \<Longrightarrow>
    turn M s i a (OrdinaryWrite ''word0'' (payload M i a))
      (upd (s\<lparr>word0 := (word0 s)[nat (block a) := payload M i a]\<rparr>) i (a\<lparr>pc := 8\<rparr>)) False"
| writes1: "pc a = 8 \<Longrightarrow>
    turn M s i a (OrdinaryWrite ''word1'' (payload M i a))
      (upd (s\<lparr>word1 := (word1 s)[nat (block a) := payload M i a]\<rparr>) i (a\<lparr>pc := 9\<rparr>)) False"
| commits: "pc a = 9 \<Longrightarrow>
    turn M s i a ReleaseCommitted
      (upd (s\<lparr>phases := (phases s)[nat (block a) := 2]\<rparr>) i (a\<lparr>pc := 20, queue := 1\<rparr>)) False"
| consumes: "pc a = 10 \<Longrightarrow>
    turn M s i a ConsumedAliasStarts
      (upd (s\<lparr>phases := (phases s)[nat (block a) := 3]\<rparr>) i
        (a\<lparr>pc := 11, epoch := epochs s ! nat (block a), aliased := True\<rparr>)) False"
| reads0: "pc a = 11 \<Longrightarrow>
    turn M s i a OrdinaryRead0 (upd s i (a\<lparr>pc := 12, read := word0 s ! nat (block a)\<rparr>)) False"
| reads1: "pc a = 12 \<Longrightarrow>
    turn M s i a FinalAliasEnds (upd s i (a\<lparr>pc := 13, aliased := False, read := 0\<rparr>)) False"
| empties: "pc a = 13 \<Longrightarrow>
    turn M s i a ReleaseEmpty
      (upd (s\<lparr>phases := (phases s)[nat (block a) := 0]\<rparr>) i (a\<lparr>pc := 20, queue := 0\<rparr>)) False"
| tail_loaded: "pc a = 20 \<Longrightarrow>
    turn M s i a (LoadTail (queue a))
      (upd s i (a\<lparr>pc := 21, ticket := Tl s (queue a), entry := 0\<rparr>)) False"
| helps: "pc a = 21 \<Longrightarrow> ent M s (queue a) (ticket a) div m_n M = ticket a div m_n M \<Longrightarrow>
    turn M s i a CurrentEntryHelp
      (upd s i (a\<lparr>pc := 25, entry := ent M s (queue a) (ticket a)\<rparr>)) False"
| prepares: "pc a = 21 \<Longrightarrow> ent M s (queue a) (ticket a) div m_n M = ticket a div m_n M - 1 \<Longrightarrow>
    turn M s i a OneOlderEntry
      (upd s i (a\<lparr>pc := 22, entry := ent M s (queue a) (ticket a)\<rparr>)) False"
| stale_tail: "pc a = 21 \<Longrightarrow> ent M s (queue a) (ticket a) div m_n M \<noteq> ticket a div m_n M \<Longrightarrow>
    ent M s (queue a) (ticket a) div m_n M \<noteq> ticket a div m_n M - 1 \<Longrightarrow>
    turn M s i a StaleEnqueueObservation (upd s i (forget 20 a)) False"
| installs: "pc a = 22 \<Longrightarrow> ent M s (queue a) (ticket a) = entry a \<Longrightarrow>
    turn M s i a (EntryCasSuccess (queue a) (ticket a) (block a)) (installed M s i a) True"
| install_fails: "pc a = 22 \<Longrightarrow> ent M s (queue a) (ticket a) \<noteq> entry a \<Longrightarrow>
    turn M s i a EntryCasFailure (upd s i (forget 20 a)) False"
| advances_own: "pc a = 23 \<Longrightarrow>
    turn M s i a (TailCas (queue a) True) (upd (tail_helped s a) i (forget 24 a)) False"
| advances_other: "pc a = 25 \<Longrightarrow>
    turn M s i a (TailCas (queue a) False) (upd (tail_helped s a) i (forget 20 a)) False"
| responds: "pc a = 24 \<Longrightarrow>
    turn M s i a EnqueueResponse (upd s i (Actor\<lparr>pc := 0, left := left a\<rparr>)) True"

inductive_simps turn_iff: "turn M s i a l t p"

lemma turn_exec_iff:
  assumes c: "turn_ctx M s i a" and run: "pc a \<noteq> 99"
    and lim: "pc a = 20 \<Longrightarrow> Tl s (queue a) < m_limit M"
  shows "e \<in> set (actor_turn M s (int i) a) \<longleftrightarrow>
    (\<exists>l t p. e = Yield (lab (int i) l) t p None \<and> turn M s i a l t p)"
proof -
  have q: "(if int i < m_p M then 0 else 1) = deq_queue M i" by (simp add: deq_queue_def)
  have pcs: "pc a \<in> {0, 1, 2, 4, 5, 6, 7, 8, 9, 10, 11, 12, 13, 20, 21, 22, 23, 24, 25, 99}"
    by (rule actor_okD(1) [OF turn_ctxD(8) [OF c]])
  note eqs = begin_dequeue_eq [OF c] load_head_eq [OF c deq_queue_cases] load_entry_eq [OF c deq_queue_cases]
    cas_head_eq [OF c _ refl] mirror_epoch_eq [OF c] release_reserved_eq [OF c] write_word_eq [OF c]
    release_committed_eq [OF c] validate_ready_eq [OF c] read_word0_eq [OF c] read_word1_eq [OF c]
    release_empty_eq [OF c] load_tail_eq [OF c _ lim] observe_entry_eq [OF c] cas_entry_eq [OF c]
    cas_tail_eq [OF c] enqueue_response_eq [OF c]
  show ?thesis
    using pcs run unfolding actor_turn_def Let_def q turn_iff
    by (elim insertE emptyE)
      (simp_all add: eqs Let_def begun_def forget_def payload_def abort_event_def, auto)
qed

text \<open>Every turn of the relation leads to a state that satisfies the invariant.\<close>

lemma turn_inv:
  assumes c: "turn_ctx M s i a" and run: "pc a \<noteq> 99"
    and lim: "pc a = 20 \<Longrightarrow> Tl s (queue a) < m_limit M" and t: "turn M s i a l t p"
  shows "ncq_inv M t"
  using clean_actor_turn [OF c run lim] turn_exec_iff [OF c run lim] t unfolding clean_def by blast

lemma turn_frame:
  assumes "turn M s i a l t p" "i < length (actors s)"
  shows "length (actors t) = length (actors s)"
    and "\<And>j. j \<noteq> i \<Longrightarrow> actors t ! j = actors s ! j"
  using assms by (auto elim!: turn.cases simp: claimed_def installed_def Let_def)

section \<open>The reservation budget bounds every ticket\<close>

definition remaining :: "actor \<Rightarrow> int" where
  "remaining a = left a - (if pc a = 5 then 1 else 0)"

definition budget_actor :: "ncq_model \<Rightarrow> nat \<Rightarrow> actor \<Rightarrow> bool" where
  "budget_actor M i a \<longleftrightarrow> 0 \<le> left a \<and> (pc a \<in> {1, 2, 4, 5} \<and> int i < m_p M \<longrightarrow> 1 \<le> left a)
     \<and> (pc a \<in> {20, 21, 22, 23, 25} \<and> m_p M \<le> int i \<longrightarrow> queue a = 0)"

definition producing :: "ncq_model \<Rightarrow> ncq_state \<Rightarrow> int" where
  "producing M s = (\<Sum>k<nat (m_p M). if owns (actors s ! k) then 1 else 0)"

definition remains :: "ncq_model \<Rightarrow> ncq_state \<Rightarrow> int" where
  "remains M s = (\<Sum>k<nat (m_p M). remaining (actors s ! k))"

definition budget_ok :: "ncq_model \<Rightarrow> ncq_state \<Rightarrow> bool" where
  "budget_ok M s \<longleftrightarrow> (\<forall>i < length (actors s). budget_actor M i (actors s ! i))
     \<and> Hd s 0 + remains M s = m_p M * m_m M
     \<and> Fr s 1 + producing M s \<le> m_n M + Hd s 0"

lemma sums_upd:
  assumes i: "i < length (actors s)" and t: "actors t = (actors s)[i := new]"
    and M: "m_p M \<le> int (length (actors s))"
  shows "int i < m_p M \<Longrightarrow> remains M t = remains M s - remaining (actors s ! i) + remaining new"
    "int i < m_p M \<Longrightarrow> producing M t
       = producing M s - (if owns (actors s ! i) then 1 else 0) + (if owns new then 1 else 0)"
    "m_p M \<le> int i \<Longrightarrow> remains M t = remains M s" "m_p M \<le> int i \<Longrightarrow> producing M t = producing M s"
proof -
  have o: "actors t ! k = actors s ! k" if "k \<noteq> i" for k using that t by simp
  have n: "actors t ! i = new" using i t by simp
  show "int i < m_p M \<Longrightarrow> remains M t = remains M s - remaining (actors s ! i) + remaining new"
    "int i < m_p M \<Longrightarrow> producing M t
       = producing M s - (if owns (actors s ! i) then 1 else 0) + (if owns new then 1 else 0)"
    unfolding remains_def producing_def using o n
    by (subst sum_fun_upd_int [of i, where f = "\<lambda>k. _ (actors s ! k)"]; simp)+
  have "k \<noteq> i" if "m_p M \<le> int i" "k < nat (m_p M)" for k using that by linarith
  then show "m_p M \<le> int i \<Longrightarrow> remains M t = remains M s"
    "m_p M \<le> int i \<Longrightarrow> producing M t = producing M s"
    unfolding remains_def producing_def using o by (auto intro!: sum.cong)
qed

lemma producers_are_actors: "turn_ctx M s i a \<Longrightarrow> m_p M \<le> int (length (actors s))"
  using turn_ctxD(1,6) [of M s i a] by (auto simp: shape_ok_def model_ok_def)

lemma budget_frame:
  assumes c: "turn_ctx M s i a" and B: "budget_ok M s"
    and t: "actors t = (actors s)[i := new]" "heads t = heads s" "frontiers t = frontiers s"
    and new: "budget_actor M i new" "int i < m_p M \<Longrightarrow> remaining new = remaining a"
      "owns new \<Longrightarrow> owns a"
  shows "budget_ok M t"
proof -
  note sm = sums_upd [OF turn_ctxD(3) [OF c] t(1) producers_are_actors [OF c], unfolded turn_ctxD(12) [OF c]]
  have "remains M t = remains M s"
    using sm(1,3) new(2) by (cases "int i < m_p M") auto
  moreover have "producing M t \<le> producing M s"
    using sm(2,4) new(3) by (cases "int i < m_p M") auto
  moreover have "budget_actor M j (actors t ! j)" if "j < length (actors t)" for j
    using B new(1) that t(1) by (cases "j = i") (auto simp: budget_ok_def)
  ultimately show ?thesis using B unfolding budget_ok_def t(2,3) by simp
qed

lemma budget_actorD:
  assumes "budget_ok M s" "turn_ctx M s i a"
  shows "budget_actor M i a"
  using assms by (auto simp: budget_ok_def turn_ctx_def)

lemma budget_claimed:
  assumes c: "turn_ctx M s i a" and p: "pc a = 4" and B: "budget_ok M s"
  shows "budget_ok M (claimed M s i a (deq_queue M i))"
proof -
  let ?q = "deq_queue M i" and ?t = "claimed M s i a (deq_queue M i)"
  let ?new = "a\<lparr>pc := if int i < m_p M then 5 else 10, block := tok M s ?q (Hd s ?q),
      owns := True, ticket := 0, entry := 0\<rparr>"
  have o: "\<not> owns a" using p by (intro not_owner [OF c]) simp
  have t: "actors ?t = (actors s)[i := ?new]" "frontiers ?t = frontiers s"
    by (simp_all add: claimed_def Let_def)
  note sm = sums_upd [OF turn_ctxD(3) [OF c] t(1) producers_are_actors [OF c], unfolded turn_ctxD(12) [OF c]]
  note ba = budget_actorD [OF B c, unfolded budget_actor_def]
  have len: "length (heads s) = 2" using turn_ctxD(6) [OF c] by (simp add: shape_ok_def)
  have other: "budget_actor M j (actors ?t ! j)" if "j < length (actors ?t)" for j
  proof (cases "j = i")
    case True
    then show ?thesis using ba p turn_ctxD(3) [OF c] by (simp add: t(1) budget_actor_def)
  next
    case False
    then show ?thesis using B that by (simp add: t(1) budget_ok_def)
  qed
  show ?thesis
  proof (cases "int i < m_p M")
    case True
    have "Hd ?t 0 = Hd s 0 + 1" using True len by (simp add: claimed_def Let_def deq_queue_def)
    moreover have "remains M ?t = remains M s - 1" "producing M ?t = producing M s + 1"
      using sm(1,2) [OF True] True p o by (simp_all add: remaining_def)
    ultimately show ?thesis using B other unfolding budget_ok_def t(2) by simp
  next
    case False
    then have "m_p M \<le> int i" by simp
    moreover have "Hd ?t 0 = Hd s 0" using False len by (simp add: claimed_def Let_def deq_queue_def)
    ultimately show ?thesis using B other sm(3,4) unfolding budget_ok_def t(2) by simp
  qed
qed

lemma budget_installed:
  assumes c: "turn_ctx M s i a" and p: "pc a = 22" and B: "budget_ok M s"
  shows "budget_ok M (installed M s i a)"
proof -
  let ?t = "installed M s i a" and ?new = "a\<lparr>pc := 23, owns := False\<rparr>"
  have o: "owns a" using p by (intro pc_owner [OF c]) simp
  have q: "queue a \<in> {0, 1}" using p by (intro enq_queue [OF c]) simp
  have t: "actors ?t = (actors s)[i := ?new]" "heads ?t = heads s"
    by (simp_all add: installed_def Let_def)
  note sm = sums_upd [OF turn_ctxD(3) [OF c] t(1) producers_are_actors [OF c], unfolded turn_ctxD(12) [OF c]]
  note ba = budget_actorD [OF B c, unfolded budget_actor_def]
  have len: "length (frontiers s) = 2" using turn_ctxD(6) [OF c] by (simp add: shape_ok_def)
  have F: "Fr ?t 1 = (if queue a = 1 then Fr s 1 + 1 else Fr s 1)"
    using q len by (auto simp: installed_def Let_def)
  have other: "budget_actor M j (actors ?t ! j)" if "j < length (actors ?t)" for j
  proof (cases "j = i")
    case True
    then show ?thesis using ba p turn_ctxD(3) [OF c] by (simp add: t(1) budget_actor_def)
  next
    case False
    then show ?thesis using B that by (simp add: t(1) budget_ok_def)
  qed
  show ?thesis
  proof (cases "int i < m_p M")
    case True
    have "remains M ?t = remains M s" "producing M ?t = producing M s - 1"
      using sm(1,2) [OF True] p o by (simp_all add: remaining_def)
    then show ?thesis using B other F unfolding budget_ok_def t(2) by auto
  next
    case False
    then have i: "m_p M \<le> int i" by simp
    then have "queue a = 0" using ba p by simp
    then show ?thesis using B other sm(3,4) [OF i] F unfolding budget_ok_def t(2) by simp
  qed
qed

lemma budget_upd:
  assumes "turn_ctx M s i a" "budget_ok M s" "actors s1 = actors s" "heads s1 = heads s"
    "frontiers s1 = frontiers s" "budget_actor M i new"
    "int i < m_p M \<longrightarrow> remaining new = remaining a" "owns new \<longrightarrow> owns a"
  shows "budget_ok M (upd s1 i new)"
  using assms(3-8) by (intro budget_frame [OF assms(1,2), where new = new]) simp_all

lemma turn_budget:
  assumes c: "turn_ctx M s i a" and B: "budget_ok M s" and t: "turn M s i a l t p"
  shows "budget_ok M t"
proof -
  note ba = budget_actorD [OF B c, unfolded budget_actor_def]
  note ok = turn_ctxD(8) [OF c]
  note fr = budget_upd [OF c B]
  show ?thesis
    using t
  proof cases
    case (claims q)
    then show ?thesis using budget_claimed [OF c _ B] by simp
  next
    case installs
    then show ?thesis using budget_installed [OF c _ B] by simp
  next
    case (begins q)
    then have "int i < m_p M \<longrightarrow> 1 \<le> left a" using ba by linarith
    then show ?thesis using begins ba unfolding begins(2)
      by (intro fr) (simp_all add: budget_actor_def remaining_def begun_def)
  next
    case aborts
    have "remaining a = left a" using aborts(4) by (auto simp: remaining_def)
    moreover have "owns a" using aborts(4) by (intro pc_owner [OF c]) auto
    ultimately show ?thesis using ba unfolding aborts(2)
      by (intro fr) (simp_all add: budget_actor_def remaining_def)
  qed (use ba actor_okD(2,6,7) [OF ok] in \<open>simp_all add: fr budget_actor_def remaining_def
      begun_def forget_def Actor_def\<close>)
qed

end
