(* ===== verification/Transition.thy ===== *)
theory Transition
  imports Prelude
begin

text \<open>
  The interface between the explorer and a transition model: the four methods of the \<open>model\<close>
  argument of \<open>run\<close> in \<open>formal/explore.py\<close>, the states reachable through its generator, and the
  contract of a correct model (a locale): an inductive invariant that implies the checked one,
  without violations, exceptions or deadlocks, and a rank that bounds steps without progress.
\<close>

section \<open>Models and reachability\<close>

record ('s, 'v) checker =
  ck_initial :: 's
  ck_invariant :: "'s \<Rightarrow> exn + 'v option"
  ck_terminal :: "'s \<Rightarrow> bool"
  ck_successors :: "'s \<Rightarrow> ('s, 'v) event list"

inductive step :: "('s, 'v) checker \<Rightarrow> 's \<Rightarrow> string \<Rightarrow> bool \<Rightarrow> 's \<Rightarrow> bool" for C where
  step: "Yield l t p v \<in> set (ck_successors C s) \<Longrightarrow> step C s l p t"

inductive reach :: "('s, 'v) checker \<Rightarrow> 's \<Rightarrow> bool" for C where
  start: "reach C (ck_initial C)"
| follow: "reach C s \<Longrightarrow> step C s l p t \<Longrightarrow> reach C t"

inductive_simps step_iff: "step C s l p t"

text \<open>A path of the given number of steps, none of which is marked as progress.\<close>

inductive idle_path :: "('s, 'v) checker \<Rightarrow> 's \<Rightarrow> nat \<Rightarrow> 's \<Rightarrow> bool" for C where
  idle_refl: "idle_path C s 0 s"
| idle_step: "idle_path C s k t \<Longrightarrow> step C t l False u \<Longrightarrow> idle_path C s (Suc k) u"

section \<open>The contract of a correct family of models\<close>

text \<open>
  A family of models is indexed by its configurations; \<open>ok\<close> are the admissible ones and \<open>I\<close> is an
  inductive invariant of each of them.
\<close>

locale safe_model =
  fixes ok :: "'m \<Rightarrow> bool" and C :: "'m \<Rightarrow> ('s, 'v) checker" and I :: "'m \<Rightarrow> 's \<Rightarrow> bool"
  assumes I_initial: "ok M \<Longrightarrow> I M (ck_initial (C M))"
    and I_checked: "ok M \<Longrightarrow> I M s \<Longrightarrow> ck_invariant (C M) s = Inr None"
    and I_event: "ok M \<Longrightarrow> I M s \<Longrightarrow> e \<in> set (ck_successors (C M) s) \<Longrightarrow>
      \<exists>l t p. e = Yield l t p None \<and> I M t"
    and I_live: "ok M \<Longrightarrow> I M s \<Longrightarrow> ck_successors (C M) s = [] \<longleftrightarrow> ck_terminal (C M) s"
begin

lemma I_step: "ok M \<Longrightarrow> I M s \<Longrightarrow> step (C M) s l p t \<Longrightarrow> I M t"
  using I_event by (fastforce simp: step_iff)

lemma reach_I: "reach (C M) s \<Longrightarrow> ok M \<Longrightarrow> I M s"
  by (induction rule: reach.induct) (auto intro: I_initial I_step)

lemma never_violates:
  assumes "ok M" "reach (C M) s"
  shows "ck_invariant (C M) s = Inr None"
    and "Yield l t p v \<in> set (ck_successors (C M) s) \<Longrightarrow> v = None"
    and "Raise x \<notin> set (ck_successors (C M) s)"
  using reach_I [OF assms(2,1)] I_checked [OF assms(1)] I_event [OF assms(1)] by fastforce+

lemma no_deadlock: "ok M \<Longrightarrow> reach (C M) s \<Longrightarrow> ck_successors (C M) s = [] \<longleftrightarrow> ck_terminal (C M) s"
  by (rule I_live [OF _ reach_I])

end

locale ranked_model = safe_model +
  fixes rank :: "'a \<Rightarrow> 'b \<Rightarrow> nat"
  assumes rank_decreases: "ok M \<Longrightarrow> I M s \<Longrightarrow> Yield l t False v \<in> set (ck_successors (C M) s) \<Longrightarrow>
    rank M t < rank M s"
begin

lemma idle_path_rank:
  "idle_path (C M) s k t \<Longrightarrow> ok M \<Longrightarrow> I M s \<Longrightarrow> I M t \<and> rank M t + k \<le> rank M s"
proof (induction rule: idle_path.induct)
  case (idle_step s k t l u)
  then show ?case using rank_decreases I_step by (fastforce simp: step_iff)
qed simp

lemma idle_bound: "ok M \<Longrightarrow> reach (C M) s \<Longrightarrow> idle_path (C M) s k t \<Longrightarrow> k \<le> rank M s"
  using idle_path_rank reach_I by fastforce

lemma no_idle_cycle:
  assumes "ok M" "reach (C M) s" "idle_path (C M) s k s"
  shows "k = 0"
  using idle_path_rank [OF assms(3,1) reach_I [OF assms(2,1)]] by simp

end

end
