(* ===== verification/Ncq_Safety.thy ===== *)
theory Ncq_Safety
  imports Ncq_Checked Ncq_Steps Transition
begin

text \<open>
  The safety contract of NCQ-SC64: admissible configurations keep every ticket below the native
  ceiling, the successor generator is exactly the step relation, a state without successors is a
  terminal state, and the family of models is an instance of the contract \<open>safe_model\<close>.
\<close>

section \<open>Admissible configurations\<close>

definition admissible :: "ncq_model \<Rightarrow> bool" where
  "admissible M \<longleftrightarrow> model_ok M \<and> m_n M + m_p M * m_m M < m_limit M"

lemma admissible_init:
  assumes "ncq_model_init n p c m ''none'' ab = Inr M" "2 * n + p * m + 1 < 2 ^ 64"
  shows "admissible M" "m_n M = n" "m_p M = p" "m_c M = c" "m_m M = m" "m_abort M = ab"
  using assms
  by (auto simp: ncq_model_init_def admissible_def model_ok_def push_bit_eq_mult split: if_splits)

definition ncq_safe :: "ncq_model \<Rightarrow> ncq_state \<Rightarrow> bool" where
  "ncq_safe M s \<longleftrightarrow> ncq_inv M s \<and> budget_ok M s"

lemma ncq_safe_ctx:
  "admissible M \<Longrightarrow> ncq_safe M s \<Longrightarrow> i < length (actors s) \<Longrightarrow> turn_ctx M s i (actors s ! i)"
  by (simp add: admissible_def ncq_safe_def turn_ctx_def)

lemma below_ceiling:
  assumes A: "admissible M" and S: "ncq_safe M s" and q: "q \<in> {0, 1}"
  shows "Fr s q \<le> m_n M + m_p M * m_m M" "Tl s q < m_limit M"
proof -
  have Q: "queue_ok M s 0" "queue_ok M s q" and B: "budget_ok M s"
    using S q by (auto simp: ncq_safe_def ncq_inv_def)
  have act: "0 \<le> remaining (actors s ! k)" if "k < nat (m_p M)" for k
  proof -
    have k: "k < length (actors s)" "int k < m_p M"
      using A S that by (auto simp: admissible_def model_ok_def ncq_safe_def ncq_inv_def shape_ok_def)
    then have "budget_actor M k (actors s ! k)" using B by (simp add: budget_ok_def)
    then show ?thesis using k(2) unfolding budget_actor_def remaining_def by simp
  qed
  have "0 \<le> remains M s" unfolding remains_def using act by (intro sum_nonneg) simp
  moreover have "0 \<le> producing M s" unfolding producing_def by (intro sum_nonneg) simp
  ultimately have hd: "Hd s 0 \<le> m_p M * m_m M" "Fr s 1 \<le> m_n M + m_p M * m_m M"
    using B unfolding budget_ok_def by linarith+
  have "Fr s 0 \<le> m_n M + m_p M * m_m M" using hd(1) Q(1) unfolding queue_ok_def by linarith
  then show fr: "Fr s q \<le> m_n M + m_p M * m_m M" using hd(2) q by auto
  have "Tl s q \<le> Fr s q" using Q(2) unfolding queue_ok_def by blast
  then show "Tl s q < m_limit M" using fr A unfolding admissible_def by linarith
qed

section \<open>Successors of a safe state\<close>

lemma actor_turns_iff:
  "e \<in> set (actor_turns M s i as) \<longleftrightarrow>
   (\<exists>k < length as. pc (as ! k) \<noteq> 99 \<and> e \<in> set (actor_turn M s (i + int k) (as ! k)))"
proof (induction as arbitrary: i)
  case (Cons a as)
  have split: "(\<exists>k < length (a # as). P k) \<longleftrightarrow> P 0 \<or> (\<exists>k < length as. P (Suc k))" for P
    using less_Suc_eq_0_disj by auto
  show ?case
    unfolding actor_turns.simps set_append Un_iff Cons.IH split by (auto simp: add.assoc)
qed simp

definition ncq_move :: "ncq_model \<Rightarrow> ncq_state \<Rightarrow> nat \<Rightarrow> ncq_label \<Rightarrow> ncq_state \<Rightarrow> bool \<Rightarrow> bool" where
  "ncq_move M s i l t p \<longleftrightarrow>
     i < length (actors s) \<and> pc (actors s ! i) \<noteq> 99 \<and> turn M s i (actors s ! i) l t p"

lemma ceiling_at:
  assumes "admissible M" "ncq_safe M s" "i < length (actors s)" "pc (actors s ! i) = 20"
  shows "Tl s (queue (actors s ! i)) < m_limit M"
  using assms(4) by (intro below_ceiling(2) [OF assms(1,2)] enq_queue [OF ncq_safe_ctx [OF assms(1-3)]]) simp

lemma actor_turns_moves:
  assumes "admissible M" "ncq_safe M s"
  shows "e \<in> set (actor_turns M s 0 (actors s)) \<longleftrightarrow>
    (\<exists>i l t p. ncq_move M s i l t p \<and> e = Yield (lab (int i) l) t p None)"
proof -
  have "e \<in> set (actor_turn M s (int i) (actors s ! i)) \<longleftrightarrow>
      (\<exists>l t p. e = Yield (lab (int i) l) t p None \<and> turn M s i (actors s ! i) l t p)"
    if "i < length (actors s)" "pc (actors s ! i) \<noteq> 99" for i
    using ceiling_at [OF assms that(1)]
    by (intro turn_exec_iff [OF ncq_safe_ctx [OF assms that(1)] that(2)])
  then show ?thesis unfolding actor_turns_iff ncq_move_def by fastforce
qed

lemma ncq_successors_uncut:
  assumes "admissible M" "ncq_safe M s"
  shows "ncq_successors M s = actor_turns M s 0 (actors s)"
  unfolding ncq_successors_def using actor_turns_moves [OF assms] by (intro cut_id) auto

lemma ncq_successors_iff:
  assumes "admissible M" "ncq_safe M s"
  shows "e \<in> set (ncq_successors M s) \<longleftrightarrow>
    (\<exists>i l t p. ncq_move M s i l t p \<and> e = Yield (lab (int i) l) t p None)"
  unfolding ncq_successors_uncut [OF assms] by (rule actor_turns_moves [OF assms])

lemma ncq_safe_move:
  assumes "admissible M" "ncq_safe M s" "ncq_move M s i l t p"
  shows "ncq_safe M t"
  using assms turn_inv [OF ncq_safe_ctx [OF assms(1,2)]] turn_budget [OF ncq_safe_ctx [OF assms(1,2)]]
    ceiling_at [OF assms(1,2)]
  unfolding ncq_move_def ncq_safe_def by blast

lemma ncq_safe_initial: "admissible M \<Longrightarrow> ncq_safe M (ncq_initial M)"
  unfolding ncq_safe_def
proof
  assume A: "admissible M"
  then have M: "model_ok M" by (simp add: admissible_def)
  show "ncq_inv M (ncq_initial M)" by (rule initial_inv [OF M])
  let ?s = "ncq_initial M"
  have act: "actors ?s ! i = Actor\<lparr>left := m_m M\<rparr>" if "i < length (actors ?s)" for i
    using that by (simp add: ncq_initial_def Let_def)
  have len: "k < length (actors ?s)" if "k < nat (m_p M)" for k
    using that M by (simp add: ncq_initial_def Let_def model_ok_def, linarith)
  have "remains M ?s = m_p M * m_m M" "producing M ?s = 0"
    using act len M by (simp_all add: remains_def producing_def remaining_def Actor_def model_ok_def)
  moreover have "budget_actor M i (actors ?s ! i)" if "i < length (actors ?s)" for i
    using M by (simp add: act [OF that] budget_actor_def Actor_def model_ok_def)
  moreover have "Hd ?s 0 = 0" "Fr ?s 1 = m_n M" by (simp_all add: ncq_initial_def Let_def)
  ultimately show "budget_ok M ?s" by (simp add: budget_ok_def)
qed

lemma ncq_stuck_iff_terminal:
  assumes "admissible M" "ncq_safe M s"
  shows "ncq_successors M s = [] \<longleftrightarrow> ncq_terminal s"
proof
  assume "ncq_terminal s"
  then have "actor_turns M s i as = []" if "set as \<subseteq> set (actors s)" for i as
    using that by (induction as arbitrary: i) (auto simp: ncq_terminal_def)
  then show "ncq_successors M s = []" by (simp add: ncq_successors_def)
next
  assume emp: "ncq_successors M s = []"
  show "ncq_terminal s"
    unfolding ncq_terminal_def
  proof (rule ccontr)
    assume "\<not> (\<forall>a\<in>set (actors s). pc a = 99)"
    then obtain i where i: "i < length (actors s)" "pc (actors s ! i) \<noteq> 99"
      by (auto simp: in_set_conv_nth)
    have "clean M (actor_turn M s (int i) (actors s ! i))"
      using ceiling_at [OF assms i(1)] by (intro clean_actor_turn [OF ncq_safe_ctx [OF assms i(1)] i(2)])
    then obtain e where "e \<in> set (actor_turn M s (0 + int i) (actors s ! i))"
      unfolding clean_def by (cases "actor_turn M s (int i) (actors s ! i)") auto
    then have "e \<in> set (ncq_successors M s)"
      unfolding ncq_successors_uncut [OF assms] actor_turns_iff using i by blast
    with emp show False by simp
  qed
qed

definition ncq_checker :: "ncq_model \<Rightarrow> (ncq_state, violation) checker" where
  "ncq_checker M = \<lparr>ck_initial = ncq_initial M, ck_invariant = ncq_invariant M,
     ck_terminal = ncq_terminal, ck_successors = ncq_successors M\<rparr>"

interpretation ncq: safe_model admissible ncq_checker ncq_safe
proof
  fix M s assume A: "admissible M"
  show "ncq_safe M (ck_initial (ncq_checker M))"
    using ncq_safe_initial [OF A] by (simp add: ncq_checker_def)
  assume S: "ncq_safe M s"
  show "ck_invariant (ncq_checker M) s = Inr None"
    using inv_implies_checked A S by (simp add: ncq_checker_def admissible_def ncq_safe_def)
  show "ck_successors (ncq_checker M) s = [] \<longleftrightarrow> ck_terminal (ncq_checker M) s"
    using ncq_stuck_iff_terminal [OF A S] by (simp add: ncq_checker_def)
  fix e assume "e \<in> set (ck_successors (ncq_checker M) s)"
  then show "\<exists>l t p. e = Yield l t p None \<and> ncq_safe M t"
    using ncq_successors_iff [OF A S] ncq_safe_move [OF A S] by (auto simp: ncq_checker_def)
qed

end
