(* ===== verification/Ncq_Progress.thy ===== *)
theory Ncq_Progress
  imports Ncq_Safety
begin

text \<open>
  Lock freedom of NCQ-SC64: a rank that every step without progress decreases. An observation that
  is still fresh cannot turn out stale, a stale one is retried once, and a tail CAS that succeeds
  closes the lag of its queue, which pays for the observations it makes stale.
\<close>

section \<open>The rank\<close>

text \<open>Turns an actor can still take before it must make progress, if its observations hold.\<close>

definition actor_rank :: "ncq_model \<Rightarrow> ncq_state \<Rightarrow> nat \<Rightarrow> actor \<Rightarrow> int" where
  "actor_rank M s i a =
     (let q = deq_queue M i in
      if pc a = 0 then 4 else if pc a = 1 then 3
      else if pc a = 2 then (if ticket a = Hd s q then 2 else 5)
      else if pc a = 4 then (if ticket a = Hd s q then 1 else 4)
      else if 5 \<le> pc a \<and> pc a \<le> 9 then 13 - pc a
      else if 10 \<le> pc a \<and> pc a \<le> 13 then 17 - pc a
      else if pc a = 20 then 3
      else if pc a = 21 then (if ticket a = Tl s (queue a) then 2 else 5)
      else if pc a = 22 then (if ent M s (queue a) (ticket a) = entry a then 1 else 4)
      else if pc a = 25 then (if ticket a = Tl s (queue a) then 1 else 4)
      else if pc a = 23 then 2 else if pc a = 24 then 1 else 0)"

definition lag :: "ncq_state \<Rightarrow> int" where
  "lag s = (Fr s 0 - Tl s 0) + (Fr s 1 - Tl s 1)"

definition rank_sum :: "ncq_model \<Rightarrow> ncq_state \<Rightarrow> int" where
  "rank_sum M s = (\<Sum>k<length (actors s). actor_rank M s k (actors s ! k))"

definition ncq_rank :: "ncq_model \<Rightarrow> ncq_state \<Rightarrow> nat" where
  "ncq_rank M s = nat (lag s * (3 * int (length (actors s)) + 4) + rank_sum M s)"

lemma actor_rank_bounds: "0 \<le> actor_rank M s i a" "actor_rank M s i a \<le> 8"
  by (simp_all add: actor_rank_def Let_def)

lemma actor_rank_cong:
  "heads t = heads s \<Longrightarrow> tails t = tails s \<Longrightarrow> entries t = entries s \<Longrightarrow>
   actor_rank M t i a = actor_rank M s i a"
  by (simp add: actor_rank_def ent_def Let_def)

lemma actor_rank_tails:
  "heads t = heads s \<Longrightarrow> entries t = entries s \<Longrightarrow> actor_rank M t i a \<le> actor_rank M s i a + 3"
  by (simp add: actor_rank_def ent_def Let_def)

lemma lag_bounds:
  assumes "ncq_inv M s"
  shows "0 \<le> lag s" "lag s \<le> 2"
  using assms by (auto simp: ncq_inv_def queue_ok_def lag_def)

lemma rank_sum_bounds:
  "0 \<le> rank_sum M s" "rank_sum M s \<le> 8 * int (length (actors s))"
proof -
  show "0 \<le> rank_sum M s"
    unfolding rank_sum_def by (intro sum_nonneg actor_rank_bounds)
  have "rank_sum M s \<le> (\<Sum>k<length (actors s). 8)"
    unfolding rank_sum_def by (intro sum_mono actor_rank_bounds)
  then show "rank_sum M s \<le> 8 * int (length (actors s))" by simp
qed

text \<open>No chain of steps without progress is longer than this.\<close>

lemma ncq_rank_bound:
  assumes "ncq_inv M s"
  shows "ncq_rank M s \<le> 14 * length (actors s) + 8"
proof -
  let ?k = "int (length (actors s))"
  have "lag s * (3 * ?k + 4) \<le> 2 * (3 * ?k + 4)"
    using lag_bounds [OF assms] by (intro mult_right_mono) auto
  then have "lag s * (3 * ?k + 4) + rank_sum M s \<le> 14 * ?k + 8"
    using rank_sum_bounds [of M s] by (simp only: distrib_left)
  then show ?thesis unfolding ncq_rank_def by linarith
qed

lemma rank_upd:
  assumes i: "i < length (actors s)" and s1: "actors s1 = actors s" "heads s1 = heads s"
    "tails s1 = tails s" "entries s1 = entries s" "frontiers s1 = frontiers s" and I: "ncq_inv M s"
    and new: "actor_rank M s i new < actor_rank M s i (actors s ! i)"
  shows "ncq_rank M (upd s1 i new) < ncq_rank M s"
proof -
  let ?t = "upd s1 i new"
  have c: "actor_rank M ?t j a = actor_rank M s j a" for j a by (rule actor_rank_cong) (simp_all add: s1)
  have "rank_sum M ?t = rank_sum M s - actor_rank M s i (actors s ! i) + actor_rank M s i new"
    unfolding rank_sum_def c using i s1
    by (simp, subst sum_fun_upd_int [of i, where f = "\<lambda>k. actor_rank M s k (actors s ! k)"]) simp_all
  then have "rank_sum M ?t < rank_sum M s" using new by simp
  moreover have "lag ?t = lag s" by (simp add: lag_def s1)
  moreover have "0 \<le> lag s * (3 * int (length (actors s)) + 4)" using lag_bounds [OF I] by simp
  ultimately show ?thesis
    using rank_sum_bounds(1) [of M ?t] rank_sum_bounds(1) [of M s]
    unfolding ncq_rank_def by (simp add: s1)
qed

text \<open>A successful tail CAS closes the lag of its queue, which pays for the observations it spoils.\<close>

lemma rank_helped:
  assumes c: "turn_ctx M s i a" and p: "pc a = 23 \<or> pc a = 25" and t: "Tl s (queue a) = ticket a"
    and new: "pc new = 20 \<or> pc new = 24"
  shows "ncq_rank M (upd (tail_helped s a) i new) < ncq_rank M s"
proof -
  let ?t = "upd (tail_helped s a) i new" and ?k = "length (actors s)"
  let ?w = "3 * int ?k + 4"
  have q: "queue a \<in> {0, 1}" using p by (intro enq_queue [OF c]) auto
  have r: "actor_rank M ?t j x \<le> actor_rank M s j x + 3" for j x by (rule actor_rank_tails) simp_all
  have own: "actor_rank M ?t i new \<le> 3" using new by (auto simp: actor_rank_def Let_def)
  have "rank_sum M ?t = (\<Sum>j<?k. actor_rank M ?t j (actors s ! j))
      - actor_rank M ?t i (actors s ! i) + actor_rank M ?t i new"
    unfolding rank_sum_def using turn_ctxD(3) [OF c]
    by (simp, subst sum_fun_upd_int [of i, where f = "\<lambda>k. actor_rank M ?t k (actors s ! k)"]) simp_all
  moreover have "(\<Sum>j<?k. actor_rank M ?t j (actors s ! j)) \<le> (\<Sum>j<?k. actor_rank M s j (actors s ! j) + 3)"
    by (intro sum_mono r)
  moreover have "(\<Sum>j<?k. actor_rank M s j (actors s ! j) + 3) = rank_sum M s + 3 * int ?k"
    by (simp add: rank_sum_def sum.distrib)
  ultimately have sum: "rank_sum M ?t < rank_sum M s + ?w"
    using actor_rank_bounds(1) [of M ?t i "actors s ! i"] own by linarith
  have lag: "lag ?t = lag s - 1"
    using q t turn_ctxD(6) [OF c] by (auto simp: lag_def tail_helped_def shape_ok_def)
  have "lag ?t * ?w + ?w = lag s * ?w" unfolding lag by (simp only: left_diff_distrib) simp
  moreover have "0 \<le> lag s * ?w" using lag_bounds [OF turn_ctxD(2) [OF c]] by simp
  moreover have "length (actors ?t) = ?k" by simp
  moreover have "0 < lag s * ?w + rank_sum M s"
  proof -
    have "Tl s r \<le> Fr s r" if "r \<in> {0, 1}" for r
      using turn_ctx_queue(1) [OF c that] by (simp add: queue_ok_def)
    then have "0 \<le> lag ?t"
      using only_held_tail [OF c p] by (simp add: only_held_def lag_def)
    then have "1 * ?w \<le> lag s * ?w" unfolding lag by (intro mult_right_mono) auto
    moreover have "0 < 1 * ?w" by simp
    ultimately have "0 < lag s * ?w" by (rule less_le_trans [rotated])
    then show ?thesis using rank_sum_bounds(1) [of M s] by (rule add_pos_nonneg)
  qed
  ultimately have "lag ?t * ?w + rank_sum M ?t < lag s * ?w + rank_sum M s" using sum by linarith
  with \<open>0 < lag s * ?w + rank_sum M s\<close> \<open>length (actors ?t) = ?k\<close> show ?thesis
    unfolding ncq_rank_def by simp
qed

text \<open>A fresh observation never turns out stale.\<close>

lemma fresh_head_entry:
  assumes c: "turn_ctx M s i a" and q: "q = deq_queue M i" and f: "ticket a = Hd s q"
  shows "ent M s q (ticket a) div m_n M = ticket a div m_n M
    \<or> ticket a div m_n M > 0 \<and> ent M s q (ticket a) div m_n M = ticket a div m_n M - 1"
proof -
  have q01: "q \<in> {0, 1}" using q deq_queue_cases by simp
  note Q = turn_ctx_queue(1) [OF c q01] and n = turn_ctxD(5) [OF c]
  show ?thesis
  proof (cases "Hd s q < Fr s q")
    case True
    then show ?thesis using Q f unfolding queue_ok_def by simp
  next
    case False
    then have T: "ticket a = Fr s q" "m_n M \<le> ticket a" using Q f unfolding queue_ok_def by auto
    have "1 \<le> ticket a div m_n M" using T(2) n zdiv_mono1 [of "m_n M" "ticket a" "m_n M"] by simp
    then show ?thesis using entry_cycle_frontier [OF n Q] T(1) by simp
  qed
qed

lemma fresh_tail_entry:
  assumes c: "turn_ctx M s i a" and q: "q \<in> {0, 1}" and f: "T = Tl s q"
  shows "ent M s q T div m_n M = T div m_n M \<or> ent M s q T div m_n M = T div m_n M - 1"
proof -
  note Q = turn_ctx_queue(1) [OF c q] and n = turn_ctxD(5) [OF c]
  show ?thesis
  proof (cases "T = Fr s q")
    case True
    then show ?thesis using entry_cycle_frontier [OF n Q] by simp
  next
    case False
    then have "Fr s q - m_n M \<le> T" "T < Fr s q"
      using Q f turn_ctxD(1) [OF c] unfolding queue_ok_def model_ok_def by auto
    then show ?thesis using Q unfolding queue_ok_def by blast
  qed
qed

lemma turn_rank:
  assumes c: "turn_ctx M s i a" and run: "pc a \<noteq> 99" and t: "turn M s i a l t False"
  shows "ncq_rank M t < ncq_rank M s"
proof -
  note up = rank_upd [OF turn_ctxD(3) [OF c] _ _ _ _ _ turn_ctxD(2) [OF c], unfolded turn_ctxD(12) [OF c]]
  note ok = actor_okD [OF turn_ctxD(8) [OF c]]
  show ?thesis
    using t
  proof cases
    case (stale_generation q)
    then have "ticket a \<noteq> Hd s q" using fresh_head_entry [OF c] by blast
    then show ?thesis using stale_generation by (auto intro!: up simp: actor_rank_def Let_def forget_def)
  next
    case prepares
    then show ?thesis by (auto intro!: up simp: actor_rank_def Let_def)
  next
    case stale_tail
    have q: "queue a \<in> {0, 1}" using stale_tail by (intro enq_queue [OF c]) auto
    have "ticket a \<noteq> Tl s (queue a)" using fresh_tail_entry [OF c q] stale_tail by blast
    then show ?thesis using stale_tail by (auto intro!: up simp: actor_rank_def Let_def forget_def)
  next
    case advances_own
    show ?thesis
    proof (cases "Tl s (queue a) = ticket a")
      case True
      then show ?thesis using advances_own rank_helped [OF c _ True] by (simp add: forget_def)
    next
      case False
      then have "tail_helped s a = s" by (simp add: tail_helped_def)
      then show ?thesis using advances_own by (auto intro!: up simp: actor_rank_def Let_def forget_def)
    qed
  next
    case advances_other
    show ?thesis
    proof (cases "Tl s (queue a) = ticket a")
      case True
      then show ?thesis using advances_other rank_helped [OF c _ True] by (simp add: forget_def)
    next
      case False
      then have "tail_helped s a = s" by (simp add: tail_helped_def)
      then show ?thesis
        using advances_other False by (auto intro!: up simp: actor_rank_def Let_def forget_def)
    qed
  qed (auto intro!: up simp: actor_rank_def Let_def begun_def forget_def Actor_def)
qed

interpretation ncq_ranked: ranked_model admissible ncq_checker ncq_safe ncq_rank
proof
  fix M s l t and v :: "violation option"
  assume A: "admissible M" and S: "ncq_safe M s"
    and e: "Yield l t False v \<in> set (ck_successors (ncq_checker M) s)"
  then obtain i l' where "ncq_move M s i l' t False"
    using ncq_successors_iff [OF A S] by (auto simp: ncq_checker_def)
  then show "ncq_rank M t < ncq_rank M s"
    using turn_rank [OF ncq_safe_ctx [OF A S]] unfolding ncq_move_def by blast
qed

end
