(* ===== verification/Ncq_Fifo.thy ===== *)
theory Ncq_Fifo
  imports Ncq_Safety
begin

text \<open>
  Refinement of NCQ-SC64 to an abstract exchange of blocks: two FIFO queues and the blocks held by
  actors. Every transition of a safe state is one abstract operation or none, so published blocks
  are borrowed in publication order, with the contents they were published with.
\<close>

section \<open>The abstract exchange\<close>

text \<open>
  Two FIFO queues and the blocks held by actors with their contents. A ready block is queued with
  the value it was published with.
\<close>

record exchange =
  free :: "int list"
  ready :: "(int \<times> int) list"
  held :: "nat \<Rightarrow> (int \<times> int) option"

datatype exchange_op =
    Acquire nat int int
  | Fill nat int int
  | Publish nat int int
  | Borrow nat int int
  | Deliver nat int int
  | Recycle nat int
  | Internal

fun exchange_step :: "exchange_op \<Rightarrow> exchange \<Rightarrow> exchange option" where
  "exchange_step (Acquire i b w) x =
     (if held x i = None \<and> free x \<noteq> [] \<and> hd (free x) = b
      then Some (x\<lparr>free := tl (free x), held := (held x)(i \<mapsto> (b, w))\<rparr>) else None)"
| "exchange_step (Fill i b v) x =
     (case held x i of None \<Rightarrow> None
      | Some (c, w) \<Rightarrow> if c = b then Some (x\<lparr>held := (held x)(i \<mapsto> (b, v))\<rparr>) else None)"
| "exchange_step (Publish i b v) x =
     (if held x i = Some (b, v)
      then Some (x\<lparr>ready := ready x @ [(b, v)], held := (held x)(i := None)\<rparr>) else None)"
| "exchange_step (Borrow i b v) x =
     (if held x i = None \<and> ready x \<noteq> [] \<and> hd (ready x) = (b, v)
      then Some (x\<lparr>ready := tl (ready x), held := (held x)(i \<mapsto> (b, v))\<rparr>) else None)"
| "exchange_step (Deliver i b v) x = (if held x i = Some (b, v) then Some x else None)"
| "exchange_step (Recycle i b) x =
     (case held x i of None \<Rightarrow> None
      | Some (c, w) \<Rightarrow>
          if c = b then Some (x\<lparr>free := free x @ [b], held := (held x)(i := None)\<rparr>) else None)"
| "exchange_step Internal x = Some x"

section \<open>The abstraction\<close>

definition live :: "ncq_model \<Rightarrow> ncq_state \<Rightarrow> int \<Rightarrow> int list" where
  "live M s q = map (tok M s q) [Hd s q..Fr s q - 1]"

definition content :: "ncq_state \<Rightarrow> int \<Rightarrow> int \<times> int" where
  "content s b = (b, word0 s ! nat b)"

definition ncq_abs :: "ncq_model \<Rightarrow> ncq_state \<Rightarrow> exchange" where
  "ncq_abs M s = \<lparr>free = live M s 0, ready = map (content s) (live M s 1),
     held = (\<lambda>i. if i < length (actors s) \<and> owns (actors s ! i)
                 then Some (content s (block (actors s ! i))) else None)\<rparr>"

text \<open>The operation a transition performs: the claims, the installations and the payload accesses.\<close>

fun op_of :: "ncq_state \<Rightarrow> nat \<Rightarrow> ncq_label \<Rightarrow> exchange_op" where
  "op_of s i (HeadCasSuccess q t b) =
     (if q = 0 then Acquire i b (word0 s ! nat b) else Borrow i b (word0 s ! nat b))"
| "op_of s i (EntryCasSuccess q t b) =
     (if q = 0 then Recycle i b else Publish i b (word0 s ! nat b))"
| "op_of s i (OrdinaryWrite f v) =
     (if f = ''word0'' then Fill i (block (actors s ! i)) v else Internal)"
| "op_of s i OrdinaryRead0 =
     Deliver i (block (actors s ! i)) (word0 s ! nat (block (actors s ! i)))"
| "op_of s i l = Internal"

lemma abs_stutter:
  assumes c: "turn_ctx M s i a"
    and s1: "actors s1 = actors s" "heads s1 = heads s" "frontiers s1 = frontiers s"
      "entries s1 = entries s" "word0 s1 = word0 s"
    and new: "owns new = owns a" "owns a \<longrightarrow> block new = block a"
  shows "ncq_abs M (upd s1 i new) = ncq_abs M s"
proof -
  have "live M (upd s1 i new) q = live M s q" for q
    by (simp add: live_def s1 tok_def ent_def)
  moreover have "held (ncq_abs M (upd s1 i new)) = held (ncq_abs M s)"
    using new turn_ctxD(3,12) [OF c] by (auto simp: ncq_abs_def fun_eq_iff nth_list_update s1 content_def)
  ultimately show ?thesis by (simp add: ncq_abs_def content_def [abs_def] s1)
qed

lemma live_Cons:
  assumes "Hd s q < Fr s q"
  shows "live M s q = tok M s q (Hd s q) # map (tok M s q) [Hd s q + 1..Fr s q - 1]"
  using assms by (simp add: live_def upto_rec1)

lemma live_owner:
  assumes c: "turn_ctx M s i a" and q: "q \<in> {0, 1}" and b: "b \<in> set (live M s q)"
  shows "Ow s b = -1 - q" "0 \<le> b" "b < m_n M"
proof -
  obtain T where T: "b = tok M s q T" "Hd s q \<le> T" "T < Fr s q" using b by (auto simp: live_def)
  show "Ow s b = -1 - q" unfolding T(1) by (rule tokens_okD [OF turn_ctx_queue(2) [OF c q] T(2,3)])
  show "0 \<le> b" "b < m_n M" using tok_range [OF turn_ctxD(5) [OF c]] by (simp_all add: T(1))
qed

lemma refine_claims:
  assumes c: "turn_ctx M s i a" and p: "pc a = 4" and q: "q = deq_queue M i" and t: "ticket a = Hd s q"
  shows "exchange_step (op_of s i (HeadCasSuccess q (ticket a) (tok M s q (Hd s q)))) (ncq_abs M s)
    = Some (ncq_abs M (claimed M s i a q))"
proof -
  let ?b = "tok M s q (Hd s q)" and ?t = "claimed M s i a q"
  have o: "\<not> owns a" using p by (intro not_owner [OF c]) simp
  have q01: "q \<in> {0, 1}" using q deq_queue_cases by simp
  have len: "length (heads s) = 2" using turn_ctxD(6) [OF c] by (simp add: shape_ok_def)
  note f = pc4_fresh [OF c p q t [symmetric]]
  have tk: "tok M ?t p T = tok M s p T" for p T
    by (simp add: claimed_def Let_def tok_def ent_def)
  have hd: "Hd ?t p = (if p = q then Hd s q + 1 else Hd s p)" if "p \<in> {0, 1}" for p
    using that q01 len by (auto simp: claimed_def Let_def)
  have fr: "Fr ?t p = Fr s p" "word0 ?t = word0 s" for p by (simp_all add: claimed_def Let_def)
  have lv: "live M ?t p = (if p = q then tl (live M s q) else live M s p)" if "p \<in> {0, 1}" for p
    using live_Cons [OF f(2)] by (auto simp: live_def hd [OF that] tk fr)
  have head: "live M s q \<noteq> []" "hd (live M s q) = ?b" using live_Cons [OF f(2)] by simp_all
  have hn: "held (ncq_abs M s) i = None" using o turn_ctxD(12) [OF c] by (simp add: ncq_abs_def)
  have ht: "held (ncq_abs M ?t) = (held (ncq_abs M s))(i \<mapsto> content s ?b)"
    using turn_ctxD(3) [OF c] by (auto simp: ncq_abs_def claimed_def Let_def content_def fun_eq_iff)
  have ct: "content ?t = content s" by (simp add: content_def [abs_def] fr)
  have l0: "live M ?t 0 = (if q = 0 then tl (live M s 0) else live M s 0)"
    and l1: "live M ?t 1 = (if q = 1 then tl (live M s 1) else live M s 1)"
    using lv [of 0] lv [of 1] by auto
  consider "q = 0" | "q = 1" using q01 by blast
  then show ?thesis
  proof cases
    case 1
    then have "ncq_abs M ?t = (ncq_abs M s)\<lparr>free := tl (live M s 0),
        held := (held (ncq_abs M s))(i \<mapsto> content s ?b)\<rparr>"
      using ht l0 l1 ct by (simp add: ncq_abs_def)
    then show ?thesis using 1 hn head by (simp add: ncq_abs_def content_def)
  next
    case 2
    then have "ncq_abs M ?t = (ncq_abs M s)\<lparr>ready := tl (map (content s) (live M s 1)),
        held := (held (ncq_abs M s))(i \<mapsto> content s ?b)\<rparr>"
      using ht l0 l1 ct by (simp add: ncq_abs_def map_tl)
    then show ?thesis using 2 hn head by (simp add: ncq_abs_def content_def hd_map)
  qed
qed

lemma refine_installs:
  assumes c: "turn_ctx M s i a" and p: "pc a = 22" and e: "ent M s (queue a) (ticket a) = entry a"
  shows "exchange_step (op_of s i (EntryCasSuccess (queue a) (ticket a) (block a))) (ncq_abs M s)
    = Some (ncq_abs M (installed M s i a))"
proof -
  let ?q = "queue a" and ?b = "block a" and ?t = "installed M s i a"
  have o: "owns a" using p by (intro pc_owner [OF c]) simp
  have q: "?q \<in> {0, 1}" using p by (intro enq_queue [OF c]) simp
  note b = turn_ctx_owner [OF c o] and n = turn_ctxD(5) [OF c]
  note f = pc22_fresh [OF c p e]
  have lo: "int (length (entries s)) = 2 * m_n M" "length (frontiers s) = 2"
    using turn_ctxD(6) [OF c] by (auto simp: shape_ok_def)
  have Q: "Hd s ?q \<le> Fr s ?q" using turn_ctx_queue(1) [OF c q] by (simp add: queue_ok_def)
  have room: "Fr s ?q - Hd s ?q < m_n M"
    using b(3) q by (intro held_token_room [OF n turn_ctx_queue [OF c q] b(1,2)]) auto
  have es: "entries ?t = (entries s)[slot M ?q (Fr s ?q) := Fr s ?q div m_n M * m_n M + ?b]"
    and hs: "Hd ?t p = Hd s p" and w: "word0 ?t = word0 s" for p
    by (simp_all add: installed_def Let_def)
  have F: "Fr ?t p = (if p = ?q then Fr s p + 1 else Fr s p)" if "p \<in> {0, 1}" for p
    using that q lo by (auto simp: installed_def Let_def)
  have K: "tok M ?t p T = (if p = ?q \<and> T = Fr s ?q then ?b else tok M s p T)"
    if "p \<in> {0, 1}" "Hd s p \<le> T" "T \<le> Fr s p" "p \<noteq> ?q \<longrightarrow> T < Fr s p" for p T
  proof -
    have "T mod m_n M = Fr s ?q mod m_n M \<longleftrightarrow> T = Fr s ?q" if "p = ?q"
      using that \<open>Hd s p \<le> T\<close> \<open>T \<le> Fr s p\<close> room mod_eq_within_lap [of T "m_n M" "Fr s ?q"] by auto
    then show ?thesis
      using b(1,2) ent_install [OF n q \<open>p \<in> {0, 1}\<close> lo(1) es, of T] by (auto simp: tok_def)
  qed
  have same: "map (tok M ?t p) [Hd s p..Fr s p - 1] = live M s p" if "p \<in> {0, 1}" for p
    unfolding live_def using K [OF that] by (intro map_cong) auto
  have lv: "live M ?t p = (if p = ?q then live M s p @ [?b] else live M s p)" if p: "p \<in> {0, 1}" for p
  proof (cases "p = ?q")
    case True
    have "[Hd s p..Fr s p] = [Hd s p..Fr s p - 1] @ [Fr s p]"
      using upto_rec2 [of "Hd s p" "Fr s p"] Q True by simp
    then show ?thesis using True same [OF p] K [OF p, of "Fr s p"] Q unfolding live_def [of M ?t] hs F [OF p] by simp
  next
    case False
    then show ?thesis using same [OF p] unfolding live_def [of M ?t] hs F [OF p] by simp
  qed
  have hb: "held (ncq_abs M s) i = Some (content s ?b)"
    using o turn_ctxD(3,12) [OF c] by (simp add: ncq_abs_def)
  have ht: "held (ncq_abs M ?t) = (held (ncq_abs M s))(i := None)"
    using turn_ctxD(3) [OF c] by (auto simp: ncq_abs_def installed_def Let_def content_def fun_eq_iff)
  have ct: "content ?t = content s" by (simp add: content_def [abs_def] w)
  have l0: "live M ?t 0 = (if ?q = 0 then live M s 0 @ [?b] else live M s 0)"
    and l1: "live M ?t 1 = (if ?q = 1 then live M s 1 @ [?b] else live M s 1)"
    using lv [of 0] lv [of 1] by auto
  consider "?q = 0" | "?q = 1" using q by blast
  then show ?thesis
  proof cases
    case 1
    then have "ncq_abs M ?t = (ncq_abs M s)\<lparr>free := live M s 0 @ [?b],
        held := (held (ncq_abs M s))(i := None)\<rparr>"
      using ht l0 l1 ct by (simp add: ncq_abs_def)
    then show ?thesis using 1 hb by (simp add: ncq_abs_def content_def)
  next
    case 2
    then have "ncq_abs M ?t = (ncq_abs M s)\<lparr>ready := map (content s) (live M s 1) @ [content s ?b],
        held := (held (ncq_abs M s))(i := None)\<rparr>"
      using ht l0 l1 ct by (simp add: ncq_abs_def)
    then show ?thesis using 2 hb by (simp add: ncq_abs_def content_def)
  qed
qed

text \<open>A producer writes only to the block it holds.\<close>

lemma refine_writes0:
  assumes c: "turn_ctx M s i a" and p: "pc a = 7"
  shows "exchange_step (Fill i (block a) v) (ncq_abs M s)
    = Some (ncq_abs M (upd (s\<lparr>word0 := (word0 s)[nat (block a) := v]\<rparr>) i (a\<lparr>pc := 8\<rparr>)))"
    (is "_ = Some (ncq_abs M ?t)")
proof -
  have o: "owns a" using p by (intro pc_owner [OF c]) simp
  note b = turn_ctx_owner [OF c o]
  have lb: "nat (block a) < length (word0 s)" by (rule block_lengths(4) [OF c o])
  have lv: "live M ?t q = live M s q" for q by (simp add: live_def tok_def ent_def)
  have ct: "content ?t x = (if x = block a then (x, v) else content s x)" if "0 \<le> x" for x
    using that b(1) lb by (auto simp: content_def nth_list_update nat_eq_iff)
  have rd: "map (content ?t) (live M s 1) = map (content s) (live M s 1)"
  proof (rule map_cong [OF refl])
    fix x assume "x \<in> set (live M s 1)"
    from live_owner [OF c _ this] have "Ow s x = -2" "0 \<le> x" by auto
    then show "content ?t x = content s x" using ct [of x] b(3) by auto
  qed
  have hd: "held (ncq_abs M ?t) = (held (ncq_abs M s))(i \<mapsto> (block a, v))"
  proof
    fix j
    show "held (ncq_abs M ?t) j = ((held (ncq_abs M s))(i \<mapsto> (block a, v))) j"
    proof (cases "j = i")
      case True
      then show ?thesis using o turn_ctxD(3) [OF c] b(1) ct by (simp add: ncq_abs_def)
    next
      case False
      have "block (actors s ! j) \<noteq> block a \<and> 0 \<le> block (actors s ! j)"
        if "j < length (actors s)" "owns (actors s ! j)"
        using holders_okD [OF turn_ctxD(11) [OF c] that] b(3) False by auto
      then show ?thesis using False ct by (auto simp: ncq_abs_def)
    qed
  qed
  have hb: "held (ncq_abs M s) i = Some (content s (block a))"
    using o turn_ctxD(3,12) [OF c] by (simp add: ncq_abs_def)
  have "ncq_abs M ?t = (ncq_abs M s)\<lparr>held := (held (ncq_abs M s))(i \<mapsto> (block a, v))\<rparr>"
    using hd rd by (simp add: ncq_abs_def lv)
  then show ?thesis using hb by (simp add: content_def)
qed

theorem turn_refines:
  assumes c: "turn_ctx M s i a" and run: "pc a \<noteq> 99" and t: "turn M s i a l t p"
  shows "exchange_step (op_of s i l) (ncq_abs M s) = Some (ncq_abs M t)"
proof -
  note st = abs_stutter [OF c]
  note ow = actor_okD(2) [OF turn_ctxD(8) [OF c]]
  note a = turn_ctxD(12) [OF c]
  show ?thesis
    using t
  proof cases
    case (claims q)
    then show ?thesis using refine_claims [OF c] by simp
  next
    case installs
    then show ?thesis using refine_installs [OF c] by simp
  next
    case writes0
    then show ?thesis using refine_writes0 [OF c] a by simp
  next
    case reads0
    then have "owns a" by (intro pc_owner [OF c]) simp
    moreover from this have "held (ncq_abs M s) i = Some (content s (block a))"
      using turn_ctxD(3,12) [OF c] by (simp add: ncq_abs_def)
    ultimately show ?thesis using reads0 a st [of s "a\<lparr>pc := 12, read := word0 s ! nat (block a)\<rparr>"]
      by (simp add: content_def)
  next
    case aborts
    then have "owns a" by (intro pc_owner [OF c]) auto
    then show ?thesis using aborts by (simp add: st)
  qed (use ow in \<open>simp_all add: st begun_def forget_def Actor_def\<close>)
qed

end
