(* ===== verification/Ncq_History.thy ===== *)
theory Ncq_History
  imports Ncq_Fifo
begin

text \<open>
  Histories of runs: the blocks borrowed so far are a prefix of the blocks published, the blocks
  acquired a prefix of the initial tokens and the blocks recycled, and every published value is the
  payload of one reservation of one producer, published once and in the producer's order.
\<close>

section \<open>Runs and their histories\<close>

inductive exchange_run :: "ncq_model \<Rightarrow> exchange_op list \<Rightarrow> ncq_state \<Rightarrow> bool" for M where
  run_start: "exchange_run M [] (ncq_initial M)"
| run_move: "exchange_run M ops s \<Longrightarrow> ncq_move M s i l t p \<Longrightarrow> exchange_run M (ops @ [op_of s i l]) t"

fun published :: "exchange_op list \<Rightarrow> (int \<times> int) list" where
  "published [] = []"
| "published (Publish i b v # ops) = (b, v) # published ops"
| "published (_ # ops) = published ops"

fun borrowed :: "exchange_op list \<Rightarrow> (int \<times> int) list" where
  "borrowed [] = []"
| "borrowed (Borrow i b v # ops) = (b, v) # borrowed ops"
| "borrowed (_ # ops) = borrowed ops"

fun acquired :: "exchange_op list \<Rightarrow> int list" where
  "acquired [] = []"
| "acquired (Acquire i b w # ops) = b # acquired ops"
| "acquired (_ # ops) = acquired ops"

fun recycled :: "exchange_op list \<Rightarrow> int list" where
  "recycled [] = []"
| "recycled (Recycle i b # ops) = b # recycled ops"
| "recycled (_ # ops) = recycled ops"

text \<open>The values published by actor \<open>i\<close>, in order.\<close>

fun published_by :: "nat \<Rightarrow> exchange_op list \<Rightarrow> int list" where
  "published_by i [] = []"
| "published_by i (Publish j b v # ops) = (if j = i then v # published_by i ops else published_by i ops)"
| "published_by i (_ # ops) = published_by i ops"

lemma history_append [simp]:
  "published (xs @ ys) = published xs @ published ys"
  "borrowed (xs @ ys) = borrowed xs @ borrowed ys"
  "acquired (xs @ ys) = acquired xs @ acquired ys"
  "recycled (xs @ ys) = recycled xs @ recycled ys"
  "published_by i (xs @ ys) = published_by i xs @ published_by i ys"
proof -
  show "published (xs @ ys) = published xs @ published ys"
    by (induction xs rule: published.induct) auto
  show "borrowed (xs @ ys) = borrowed xs @ borrowed ys"
    by (induction xs rule: borrowed.induct) auto
  show "acquired (xs @ ys) = acquired xs @ acquired ys"
    by (induction xs rule: acquired.induct) auto
  show "recycled (xs @ ys) = recycled xs @ recycled ys"
    by (induction xs rule: recycled.induct) auto
  show "published_by i (xs @ ys) = published_by i xs @ published_by i ys"
    by (induction xs rule: published_by.induct) auto
qed

lemma exchange_queues:
  assumes "exchange_step op x = Some y"
  shows "ready x @ published [op] = borrowed [op] @ ready y"
    "free x @ recycled [op] = acquired [op] @ free y"
  using assms by (cases op; auto split: if_splits option.splits simp: neq_Nil_conv)+

lemma exchange_run_safe: "exchange_run M ops s \<Longrightarrow> admissible M \<Longrightarrow> ncq_safe M s"
  by (induction rule: exchange_run.induct) (auto intro: ncq_safe_initial ncq_safe_move)

lemma move_refines:
  assumes "admissible M" "ncq_safe M s" "ncq_move M s i l t p"
  shows "exchange_step (op_of s i l) (ncq_abs M s) = Some (ncq_abs M t)"
  using assms(3) turn_refines [OF ncq_safe_ctx [OF assms(1,2)]] unfolding ncq_move_def by blast

lemma run_queues:
  assumes "exchange_run M ops s" "admissible M"
  shows "published ops = borrowed ops @ ready (ncq_abs M s)"
    "[0..m_n M - 1] @ recycled ops = acquired ops @ free (ncq_abs M s)"
proof -
  have "published ops = borrowed ops @ ready (ncq_abs M s) \<and>
    [0..m_n M - 1] @ recycled ops = acquired ops @ free (ncq_abs M s)"
    using assms
  proof (induction rule: exchange_run.induct)
    case run_start
    then have n: "2 \<le> m_n M" by (simp add: admissible_def model_ok_def)
    have "tok M (ncq_initial M) 0 T = T" if "0 \<le> T" "T < m_n M" for T
      using that n by (simp add: tok_def ent_def slot_def ncq_initial_def Let_def nth_append nat_less_iff)
    moreover have "Hd (ncq_initial M) 0 = 0" "Fr (ncq_initial M) 0 = m_n M"
      by (simp_all add: ncq_initial_def Let_def)
    ultimately have "live M (ncq_initial M) 0 = [0..m_n M - 1]"
      by (auto simp: live_def intro!: map_idI)
    moreover have "live M (ncq_initial M) 1 = []" by (simp add: live_def ncq_initial_def Let_def)
    ultimately show ?case by (simp add: ncq_abs_def)
  next
    case (run_move ops s i l t p)
    from exchange_queues [OF move_refines [OF run_move.prems exchange_run_safe [OF run_move.hyps(1) run_move.prems]
          run_move.hyps(2)]] run_move.IH [OF run_move.prems]
    show ?case by simp (metis append.assoc)
  qed
  then show "published ops = borrowed ops @ ready (ncq_abs M s)"
    "[0..m_n M - 1] @ recycled ops = acquired ops @ free (ncq_abs M s)" by auto
qed

section \<open>Published values\<close>

definition payload_actor :: "ncq_model \<Rightarrow> ncq_state \<Rightarrow> nat \<Rightarrow> actor \<Rightarrow> bool" where
  "payload_actor M s i a \<longleftrightarrow> int i < m_p M \<longrightarrow> left a \<le> m_m M
     \<and> (pc a \<in> {6, 7, 8, 9, 20, 21, 22, 25} \<longrightarrow> left a + 1 \<le> m_m M)
     \<and> (pc a \<in> {20, 21, 22, 25} \<and> queue a = 1 \<longrightarrow> word0 s ! nat (block a) = payload M i a)"

definition payload_ok :: "ncq_model \<Rightarrow> ncq_state \<Rightarrow> bool" where
  "payload_ok M s \<longleftrightarrow> (\<forall>i < length (actors s). payload_actor M s i (actors s ! i))"

text \<open>The value the next publication of actor \<open>i\<close> will carry, at least.\<close>

definition next_value :: "ncq_model \<Rightarrow> nat \<Rightarrow> actor \<Rightarrow> int" where
  "next_value M i a = 1 + int i * m_m M + (m_m M - left a)
     - (if pc a \<in> {6, 7, 8, 9, 20, 21, 22, 25} then 1 else 0)"

lemma payload_frame:
  assumes c: "turn_ctx M s i a" and P: "payload_ok M s"
    and t: "actors t = (actors s)[i := new]" "word0 t = word0 s" and new: "payload_actor M s i new"
  shows "payload_ok M t"
  using P new turn_ctxD(3) [OF c] unfolding payload_ok_def t payload_actor_def
  by (auto simp: nth_list_update)

lemma payload_upd:
  assumes "turn_ctx M s i a" "payload_ok M s" "actors s1 = actors s" "word0 s1 = word0 s"
    "payload_actor M s i new"
  shows "payload_ok M (upd s1 i new)"
  by (rule payload_frame [OF assms(1,2) _ _ assms(5)]) (simp_all add: assms)

lemma payload_writes0:
  assumes c: "turn_ctx M s i a" and p: "pc a = 7" and P: "payload_ok M s"
  shows "payload_ok M (upd (s\<lparr>word0 := (word0 s)[nat (block a) := v]\<rparr>) i (a\<lparr>pc := 8\<rparr>))"
    (is "payload_ok M ?t")
  unfolding payload_ok_def
proof (intro allI impI)
  fix j assume j: "j < length (actors ?t)"
  have o: "owns a" using p by (intro pc_owner [OF c]) simp
  note b = turn_ctx_owner [OF c o]
  show "payload_actor M ?t j (actors ?t ! j)"
  proof (cases "j = i")
    case True
    have "payload_actor M s i a" using P turn_ctxD(3,12) [OF c] by (auto simp: payload_ok_def)
    then show ?thesis using True p turn_ctxD(3) [OF c] by (simp add: payload_actor_def)
  next
    case False
    let ?x = "actors s ! j"
    have jl: "j < length (actors s)" using j by simp
    have Pj: "payload_actor M s j ?x" using P jl by (simp add: payload_ok_def)
    have "word0 ?t ! nat (block ?x) = word0 s ! nat (block ?x)" if "pc ?x \<in> {20, 21, 22, 25}"
    proof -
      have "turn_ctx M s j ?x" using turn_ctxD(1,2) [OF c] jl by (simp add: turn_ctx_def)
      note cj = this
      have oj: "owns ?x" using that by (intro pc_owner [OF cj]) blast
      note bj = turn_ctx_owner [OF cj oj]
      have "block ?x \<noteq> block a" using bj(3) b(3) False by auto
      then have "nat (block ?x) \<noteq> nat (block a)" using bj(1) b(1) by (simp add: nat_eq_iff)
      then show ?thesis by simp
    qed
    then show ?thesis using Pj False unfolding payload_actor_def by simp
  qed
qed

lemma turn_payload:
  assumes c: "turn_ctx M s i a" and P: "payload_ok M s" and t: "turn M s i a l t p"
  shows "payload_ok M t"
proof -
  note up = payload_upd [OF c P]
  have pa: "payload_actor M s i a" using P turn_ctxD(3,12) [OF c] by (auto simp: payload_ok_def)
  have m: "1 \<le> m_m M" using turn_ctxD(1) [OF c] by (simp add: model_ok_def)
  have w9: "pc a = 9 \<longrightarrow> word0 s ! nat (block a) = payload M i a"
    using turn_ctxD(9) [OF c] by (simp add: held_ok_def Let_def payload_def)
  note lf = pa [unfolded payload_actor_def]
  have p13: "pc a = 13 \<longrightarrow> m_p M \<le> int i" using actor_okD(7) [OF turn_ctxD(8) [OF c]] by simp
  show ?thesis
    using t
  proof cases
    case (claims q)
    show ?thesis unfolding claims(2)
      by (rule payload_frame [OF c P]) (use lf claims in \<open>auto simp: claimed_def Let_def payload_actor_def\<close>)
  next
    case installs
    show ?thesis unfolding installs(2)
      by (rule payload_frame [OF c P]) (use lf installs in \<open>auto simp: installed_def Let_def payload_actor_def\<close>)
  next
    case writes0
    then show ?thesis using payload_writes0 [OF c _ P] by simp
  next
    case (mirrors g)
    have "int i < m_p M \<longrightarrow> left a \<le> m_m M" using lf by blast
    then have "payload_actor M s i (a\<lparr>pc := 6, epoch := g, left := left a - 1\<rparr>)"
      by (auto simp: payload_actor_def)
    then show ?thesis unfolding mirrors(2) by (intro up) simp_all
  next
    case aborts
    have "pc a \<in> {6, 7, 8, 9, 20, 21, 22, 25}" using aborts(4) by auto
    then have "int i < m_p M \<longrightarrow> left a + 1 \<le> m_m M" using lf by blast
    then show ?thesis unfolding aborts(2) using lf
      by (intro up) (simp_all add: payload_actor_def)
  qed (use lf m w9 p13 in \<open>simp_all add: up payload_actor_def begun_def forget_def Actor_def payload_def\<close>)
qed

text \<open>Publications of one producer carry increasing values within the producer's own range.\<close>

definition history_ok :: "ncq_model \<Rightarrow> exchange_op list \<Rightarrow> ncq_state \<Rightarrow> bool" where
  "history_ok M ops s \<longleftrightarrow> (\<forall>i. published_by i ops \<noteq> [] \<longrightarrow> i < length (actors s) \<and> int i < m_p M)
     \<and> (\<forall>i < length (actors s). sorted_wrt (<) (published_by i ops)
        \<and> (\<forall>v \<in> set (published_by i ops). 1 + int i * m_m M \<le> v \<and> v < next_value M i (actors s ! i)))"

lemma next_value_mono:
  assumes c: "turn_ctx M s i a" and t: "turn M s i a l t p" and P: "payload_ok M s"
    and i: "int i < m_p M"
  shows "next_value M i a \<le> next_value M i (actors t ! i)"
proof -
  have m: "left a \<le> m_m M"
    using P turn_ctxD(3,12) [OF c] i by (auto simp: payload_ok_def payload_actor_def)
  have p13: "pc a = 13 \<longrightarrow> m_p M \<le> int i" using actor_okD(7) [OF turn_ctxD(8) [OF c]] by simp
  show ?thesis
    using t turn_ctxD(3) [OF c] i m p13
    by cases (auto simp: next_value_def begun_def forget_def Actor_def claimed_def installed_def Let_def)
qed

lemma turn_publishes:
  assumes c: "turn_ctx M s i a" and B: "budget_ok M s" and P: "payload_ok M s"
    and t: "turn M s i a l t p" and pub: "published_by j [op_of s i l] = v # vs"
  shows "j = i" "int i < m_p M" "v = payload M i a" "v = next_value M i a"
    "v < next_value M i (actors t ! i)" "vs = []" "left a + 1 \<le> m_m M"
proof -
  note a = turn_ctxD(3,12) [OF c]
  obtain q T b where l: "l = EntryCasSuccess q T b"
    using t pub by cases (auto split: if_splits)
  from t l have ins: "pc a = 22" "q = queue a" "b = block a" "t = installed M s i a"
    by (cases; simp)+
  have q: "queue a \<in> {0, 1}" using ins(1) by (intro enq_queue [OF c]) simp
  with pub l ins have q1: "queue a = 1" and j: "j = i" and v: "v = word0 s ! nat (block a)" and "vs = []"
    by (auto split: if_splits)
  then show "j = i" "vs = []" by auto
  have "queue a = 0" if "m_p M \<le> int i"
    using budget_actorD [OF B c] that ins(1) by (simp add: budget_actor_def)
  then show i: "int i < m_p M" using q1 by fastforce
  have pa: "payload_actor M s i a" using P a by (auto simp: payload_ok_def)
  then show pv: "v = payload M i a" and "left a + 1 \<le> m_m M"
    using i ins(1) q1 v by (simp_all add: payload_actor_def)
  then show "v = next_value M i a" "v < next_value M i (actors t ! i)"
    using a ins by (simp_all add: payload_def next_value_def installed_def Let_def)
qed

lemma history_move:
  assumes A: "admissible M" and S: "ncq_safe M s" and P: "payload_ok M s" and H: "history_ok M ops s"
    and mv: "ncq_move M s i l t p"
  shows "history_ok M (ops @ [op_of s i l]) t"
proof -
  let ?a = "actors s ! i" and ?op = "op_of s i l"
  have i: "i < length (actors s)" and t: "turn M s i ?a l t p" using mv by (auto simp: ncq_move_def)
  have c: "turn_ctx M s i ?a" by (rule ncq_safe_ctx [OF A S i])
  have B: "budget_ok M s" using S by (simp add: ncq_safe_def)
  note fr = turn_frame [OF t i]
  note tp = turn_publishes [OF c B P t]
  have one: "published_by j (ops @ [?op]) = published_by j ops \<or>
      (j = i \<and> int i < m_p M \<and> (\<exists>v. published_by j (ops @ [?op]) = published_by j ops @ [v]
        \<and> v = next_value M i ?a \<and> v < next_value M i (actors t ! i) \<and> 1 + int i * m_m M \<le> v))" for j
  proof (cases "published_by j [?op]")
    case (Cons v vs)
    note x = tp [OF Cons]
    from x(3,7) have "1 + int i * m_m M \<le> v" by (simp add: payload_def)
    with x Cons show ?thesis by simp
  qed simp
  have "i' < length (actors t) \<and> int i' < m_p M" if "published_by i' (ops @ [?op]) \<noteq> []" for i'
    using one [of i'] H i that unfolding history_ok_def fr(1) by auto
  moreover have "sorted_wrt (<) (published_by j (ops @ [?op])) \<and>
      (\<forall>v \<in> set (published_by j (ops @ [?op])). 1 + int j * m_m M \<le> v \<and> v < next_value M j (actors t ! j))"
    if j: "j < length (actors t)" for j
  proof -
    have Hj: "sorted_wrt (<) (published_by j ops)"
      "\<forall>v \<in> set (published_by j ops). 1 + int j * m_m M \<le> v \<and> v < next_value M j (actors s ! j)"
      using H j unfolding history_ok_def fr(1) by auto
    have up: "v < next_value M j (actors t ! j)" if v: "v \<in> set (published_by j ops)" for v
    proof (cases "j = i")
      case True
      have "published_by i ops \<noteq> []" using v True by auto
      then have "int i < m_p M" using H unfolding history_ok_def by blast
      from next_value_mono [OF c t P this] Hj(2) v True show ?thesis by fastforce
    next
      case False
      then show ?thesis using fr(2) Hj(2) v by simp
    qed
    from one [of j] show ?thesis
    proof
      assume "published_by j (ops @ [?op]) = published_by j ops"
      then show ?thesis using Hj up by auto
    next
      assume "j = i \<and> int i < m_p M \<and> (\<exists>v. published_by j (ops @ [?op]) = published_by j ops @ [v]
        \<and> v = next_value M i ?a \<and> v < next_value M i (actors t ! i) \<and> 1 + int i * m_m M \<le> v)"
      then obtain v where v: "j = i" "published_by j (ops @ [?op]) = published_by j ops @ [v]"
        "v = next_value M i ?a" "v < next_value M i (actors t ! i)" "1 + int i * m_m M \<le> v" by auto
      then show ?thesis using Hj up by (auto simp: sorted_wrt_append)
    qed
  qed
  ultimately show ?thesis unfolding history_ok_def by blast
qed

lemma run_history: "exchange_run M ops s \<Longrightarrow> admissible M \<Longrightarrow> payload_ok M s \<and> history_ok M ops s"
proof (induction rule: exchange_run.induct)
  case run_start
  then have m: "1 \<le> m_m M" by (simp add: admissible_def model_ok_def)
  have "actors (ncq_initial M) ! i = Actor\<lparr>left := m_m M\<rparr>" if "i < length (actors (ncq_initial M))" for i
    using that by (simp add: ncq_initial_def Let_def)
  then have "payload_ok M (ncq_initial M)"
    by (simp add: payload_ok_def payload_actor_def Actor_def)
  then show ?case by (simp add: history_ok_def)
next
  case (run_move ops s i l t p)
  note S = exchange_run_safe [OF run_move.hyps(1) run_move.prems]
  have "i < length (actors s)" "turn M s i (actors s ! i) l t p"
    using run_move.hyps(2) by (auto simp: ncq_move_def)
  then have "payload_ok M t"
    using turn_payload [OF ncq_safe_ctx [OF run_move.prems S]] run_move.IH [OF run_move.prems] by blast
  then show ?case
    using history_move [OF run_move.prems S _ _ run_move.hyps(2)] run_move.IH [OF run_move.prems] by blast
qed

text \<open>
  Over all producers: the values one producer publishes increase, and values of different producers
  lie in different ranges, so no value is published twice.
\<close>

definition origin :: "ncq_model \<Rightarrow> int \<Rightarrow> int" where
  "origin M v = (v - 1) div m_m M"

abbreviation producer_order :: "ncq_model \<Rightarrow> int list \<Rightarrow> bool" where
  "producer_order M \<equiv> sorted_wrt (\<lambda>v w. origin M v = origin M w \<longrightarrow> v < w)"

lemma producer_order_distinct: "producer_order M vs \<Longrightarrow> distinct vs"
  by (induction vs) auto

lemma published_values: "set (map snd (published ops)) = (\<Union>i. set (published_by i ops))"
  by (induction ops rule: published.induct) (auto split: if_splits)

lemma published_ordered:
  assumes "\<And>i. sorted_wrt (<) (published_by i ops)"
    and "\<And>i v. v \<in> set (published_by i ops) \<Longrightarrow> origin M v = int i"
  shows "producer_order M (map snd (published ops))"
  using assms
proof (induction ops rule: published.induct)
  case (2 i b v ops)
  have rest: "sorted_wrt (<) (published_by j ops)"
    "set (published_by j ops) \<subseteq> set (published_by j (Publish i b v # ops))" for j
    using "2.prems"(1) [of j] by (auto split: if_splits)
  have "producer_order M (map snd (published ops))"
    using rest(1) "2.prems"(2) rest(2) by (intro "2.IH") blast+
  moreover have "v < w" if "w \<in> set (map snd (published ops))" "origin M v = origin M w" for w
  proof -
    have "w \<in> (\<Union>j. set (published_by j ops))" using that(1) by (simp only: published_values)
    then obtain j where j: "w \<in> set (published_by j ops)" by (elim UN_E)
    then have "origin M w = int j" using "2.prems"(2) rest(2) by blast
    moreover have "origin M v = int i" by (rule "2.prems"(2)) simp
    ultimately have "j = i" using that(2) by simp
    then show ?thesis using "2.prems"(1) [of i] j by simp
  qed
  ultimately show ?case by simp
qed auto

lemma run_published_ordered:
  assumes r: "exchange_run M ops s" and A: "admissible M"
  shows "producer_order M (map snd (published ops))"
    "\<And>v. v \<in> set (map snd (published ops)) \<Longrightarrow> 1 \<le> v \<and> v \<le> m_p M * m_m M"
proof -
  have H: "history_ok M ops s" using run_history [OF r A] by auto
  have m: "1 \<le> m_m M" using A by (simp add: admissible_def model_ok_def)
  have B: "budget_ok M s" using exchange_run_safe [OF r A] by (simp add: ncq_safe_def)
  have rng: "1 + int i * m_m M \<le> v \<and> v < 1 + int i * m_m M + m_m M \<and> int i < m_p M"
    if v: "v \<in> set (published_by i ops)" for i v
  proof -
    have "published_by i ops \<noteq> []" using v by auto
    then have i: "i < length (actors s)" "int i < m_p M" using H unfolding history_ok_def by blast+
    then have "0 \<le> left (actors s ! i)" using B by (simp add: budget_ok_def budget_actor_def)
    then have "next_value M i (actors s ! i) \<le> 1 + int i * m_m M + m_m M" by (simp add: next_value_def)
    then show ?thesis using H i v by (fastforce simp: history_ok_def)
  qed
  show "producer_order M (map snd (published ops))"
  proof (rule published_ordered)
    show "sorted_wrt (<) (published_by i ops)" for i
      using H by (cases "published_by i ops = []") (auto simp: history_ok_def)
    show "origin M v = int i" if "v \<in> set (published_by i ops)" for i v
      unfolding origin_def
      by (rule int_div_pos_eq [of _ _ _ "v - 1 - int i * m_m M"])
        (use rng [OF that] m in \<open>auto simp: mult.commute\<close>)
  qed
  fix v assume "v \<in> set (map snd (published ops))"
  then obtain i where i: "v \<in> set (published_by i ops)" unfolding published_values by blast
  have "(int i + 1) * m_m M \<le> m_p M * m_m M" using rng [OF i] m by (intro mult_right_mono) auto
  then have "int i * m_m M + m_m M \<le> m_p M * m_m M" by (simp add: distrib_right)
  moreover have "0 \<le> int i * m_m M" using m by simp
  ultimately show "1 \<le> v \<and> v \<le> m_p M * m_m M" using rng [OF i] by linarith
qed

section \<open>Histories of the generator\<close>

text \<open>
  What a transition of the generator does to ownership, read off the two states: the actors that
  start to own a block, and those that give theirs up. A producer that starts to own a block has
  acquired it, a consumer has borrowed it with its content; an actor that gives its block up has
  published it with its content when it was heading for the ready queue, and recycled it otherwise.
\<close>

definition gainers :: "ncq_state \<Rightarrow> ncq_state \<Rightarrow> nat list" where
  "gainers s t = filter (\<lambda>i. \<not> owns (actors s ! i) \<and> owns (actors t ! i)) [0..<length (actors s)]"

definition losers :: "ncq_state \<Rightarrow> ncq_state \<Rightarrow> nat list" where
  "losers s t = filter (\<lambda>i. owns (actors s ! i) \<and> \<not> owns (actors t ! i)) [0..<length (actors s)]"

definition step_published :: "ncq_state \<Rightarrow> ncq_state \<Rightarrow> (int \<times> int) list" where
  "step_published s t =
     map (\<lambda>i. content t (block (actors s ! i))) (filter (\<lambda>i. queue (actors s ! i) = 1) (losers s t))"

definition step_recycled :: "ncq_state \<Rightarrow> ncq_state \<Rightarrow> int list" where
  "step_recycled s t =
     map (\<lambda>i. block (actors s ! i)) (filter (\<lambda>i. queue (actors s ! i) \<noteq> 1) (losers s t))"

definition step_borrowed :: "ncq_model \<Rightarrow> ncq_state \<Rightarrow> ncq_state \<Rightarrow> (int \<times> int) list" where
  "step_borrowed M s t =
     map (\<lambda>i. content t (block (actors t ! i))) (filter (\<lambda>i. m_p M \<le> int i) (gainers s t))"

definition step_acquired :: "ncq_model \<Rightarrow> ncq_state \<Rightarrow> ncq_state \<Rightarrow> int list" where
  "step_acquired M s t =
     map (\<lambda>i. block (actors t ! i)) (filter (\<lambda>i. int i < m_p M) (gainers s t))"

text \<open>
  \<open>ncq_run M ps bs qs rs s\<close>: a run of the generator from the initial state to \<open>s\<close> in which \<open>ps\<close>
  was published, \<open>bs\<close> borrowed, \<open>qs\<close> acquired and \<open>rs\<close> recycled, each in order.
\<close>

inductive ncq_run :: "ncq_model \<Rightarrow> (int \<times> int) list \<Rightarrow> (int \<times> int) list \<Rightarrow> int list \<Rightarrow> int list \<Rightarrow>
    ncq_state \<Rightarrow> bool" for M where
  ncq_start: "ncq_run M [] [] [] [] (ncq_initial M)"
| ncq_follow: "ncq_run M ps bs qs rs s \<Longrightarrow> Yield l t p v \<in> set (ncq_successors M s) \<Longrightarrow>
    ncq_run M (ps @ step_published s t) (bs @ step_borrowed M s t)
      (qs @ step_acquired M s t) (rs @ step_recycled s t) t"

lemma filter_upt_single: "i < n \<Longrightarrow> filter (\<lambda>j. j = i \<and> Q) [0..<n] = (if Q then [i] else [])"
proof -
  assume i: "i < n"
  have "filter (\<lambda>j. j = i) [0..<n] = [i]" if "i < n" for n
    using that by (induction n) (auto simp: filter_empty_conv less_Suc_eq)
  with i show ?thesis by simp
qed

lemma ownership_of_turn:
  assumes c: "turn_ctx M s i a" and t: "turn M s i a l t p"
  shows "gainers s t = (if \<not> owns a \<and> owns (actors t ! i) then [i] else [])"
    "losers s t = (if owns a \<and> \<not> owns (actors t ! i) then [i] else [])"
proof -
  note i = turn_ctxD(3,12) [OF c]
  have "owns (actors t ! j) = owns (actors s ! j)" if "j \<noteq> i" for j
    using turn_frame(2) [OF t i(1) that] by simp
  then have "(\<not> owns (actors s ! j) \<and> owns (actors t ! j)) = (j = i \<and> \<not> owns a \<and> owns (actors t ! i))"
    "(owns (actors s ! j) \<and> \<not> owns (actors t ! j)) = (j = i \<and> owns a \<and> \<not> owns (actors t ! i))" for j
    using i(2) by (cases "j = i"; auto)+
  then show "gainers s t = (if \<not> owns a \<and> owns (actors t ! i) then [i] else [])"
    "losers s t = (if owns a \<and> \<not> owns (actors t ! i) then [i] else [])"
    unfolding gainers_def losers_def using i(1) by (simp_all add: filter_upt_single)
qed

lemma step_of_turn:
  assumes c: "turn_ctx M s i a" and t: "turn M s i a l t p"
  shows "step_published s t
      = (if owns a \<and> \<not> owns (actors t ! i) \<and> queue a = 1 then [content t (block a)] else [])"
    "step_recycled s t
      = (if owns a \<and> \<not> owns (actors t ! i) \<and> queue a \<noteq> 1 then [block a] else [])"
    "step_borrowed M s t
      = (if \<not> owns a \<and> owns (actors t ! i) \<and> m_p M \<le> int i then [content t (block (actors t ! i))] else [])"
    "step_acquired M s t
      = (if \<not> owns a \<and> owns (actors t ! i) \<and> int i < m_p M then [block (actors t ! i)] else [])"
  using turn_ctxD(12) [OF c]
  by (simp_all add: step_published_def step_recycled_def step_borrowed_def step_acquired_def
      ownership_of_turn [OF c t])

lemma turn_history:
  assumes c: "turn_ctx M s i a" and t: "turn M s i a l t p"
  shows "step_published s t = published [op_of s i l]" "step_borrowed M s t = borrowed [op_of s i l]"
    "step_acquired M s t = acquired [op_of s i l]" "step_recycled s t = recycled [op_of s i l]"
proof -
  note i = turn_ctxD(3) [OF c]
  note defs = step_of_turn [OF c t]
  have all: "step_published s t = published [op_of s i l] \<and> step_borrowed M s t = borrowed [op_of s i l]
    \<and> step_acquired M s t = acquired [op_of s i l] \<and> step_recycled s t = recycled [op_of s i l]"
    using t
  proof cases
    case (claims q)
    have "\<not> owns a" using claims by (intro not_owner [OF c]) simp
    then show ?thesis unfolding defs using claims i
      by (simp add: claimed_def Let_def content_def deq_queue_def)
  next
    case installs
    have "owns a" using installs by (intro pc_owner [OF c]) simp
    moreover have "queue a \<in> {0, 1}" using installs by (intro enq_queue [OF c]) simp
    ultimately show ?thesis unfolding defs using installs i
      by (auto simp: installed_def Let_def content_def)
  next
    case responds
    have "\<not> owns a" using responds by (intro not_owner [OF c]) simp
    then show ?thesis unfolding defs using responds i by (simp add: Actor_def)
  next
    case finished
    have "\<not> owns a" using finished by (intro not_owner [OF c]) simp
    then show ?thesis unfolding defs using finished i by (simp add: Actor_def)
  next
    case (begins q)
    have "\<not> owns a" using begins by (intro not_owner [OF c]) simp
    then show ?thesis unfolding defs using begins i by (simp add: begun_def)
  qed (unfold defs, insert i, simp_all add: forget_def)
  then show "step_published s t = published [op_of s i l]" "step_borrowed M s t = borrowed [op_of s i l]"
    "step_acquired M s t = acquired [op_of s i l]" "step_recycled s t = recycled [op_of s i l]"
    by auto
qed

text \<open>Every run of the generator is a run of exchange operations with the same histories.\<close>

lemma run_exchanges:
  assumes "ncq_run M ps bs qs rs s" "admissible M"
  shows "\<exists>ops. exchange_run M ops s \<and> ps = published ops \<and> bs = borrowed ops
    \<and> qs = acquired ops \<and> rs = recycled ops"
  using assms
proof (induction rule: ncq_run.induct)
  case ncq_start
  show ?case by (intro exI [of _ "[]"]) (simp add: run_start)
next
  case (ncq_follow ps bs qs rs s l t p v)
  then obtain ops where r: "exchange_run M ops s" and h: "ps = published ops" "bs = borrowed ops"
    "qs = acquired ops" "rs = recycled ops" by blast
  note S = exchange_run_safe [OF r ncq_follow.prems]
  obtain i l' where mv: "ncq_move M s i l' t p"
    using ncq_follow.hyps(2) ncq_successors_iff [OF ncq_follow.prems S] by auto
  then have i: "i < length (actors s)" and t: "turn M s i (actors s ! i) l' t p"
    by (auto simp: ncq_move_def)
  note th = turn_history [OF ncq_safe_ctx [OF ncq_follow.prems S i] t]
  show ?case
    using run_move [OF r mv] by (intro exI [of _ "ops @ [op_of s i l']"]) (simp add: h th)
qed

text \<open>A schedule picks the successor to follow at each state; executable, for concrete runs.\<close>

fun ncq_schedule ::
    "ncq_model \<Rightarrow> nat list \<Rightarrow> (int \<times> int) list \<Rightarrow> (int \<times> int) list \<Rightarrow> int list \<Rightarrow> int list \<Rightarrow> ncq_state \<Rightarrow>
     ((int \<times> int) list \<times> (int \<times> int) list \<times> int list \<times> int list \<times> ncq_state) option" where
  "ncq_schedule M [] ps bs qs rs s = Some (ps, bs, qs, rs, s)"
| "ncq_schedule M (k # ks) ps bs qs rs s =
     (let es = ncq_successors M s in
      if k < length es then
        (case es ! k of
          Yield l t p v \<Rightarrow> ncq_schedule M ks (ps @ step_published s t) (bs @ step_borrowed M s t)
            (qs @ step_acquired M s t) (rs @ step_recycled s t) t
        | Raise x \<Rightarrow> None)
      else None)"

lemma schedule_runs:
  "ncq_schedule M ks ps bs qs rs s = Some (ps', bs', qs', rs', t) \<Longrightarrow> ncq_run M ps bs qs rs s \<Longrightarrow>
    ncq_run M ps' bs' qs' rs' t"
proof (induction ks arbitrary: ps bs qs rs s)
  case (Cons k ks)
  then obtain l u p v where "ncq_successors M s ! k = Yield l u p v" "k < length (ncq_successors M s)"
    by (auto simp: Let_def split: if_splits event.splits)
  then show ?case using Cons ncq_follow [OF Cons.prems(2), of l u p v]
    by (auto simp: Let_def dest: nth_mem)
qed simp

end
