(* ===== verification/Ncq_Claims.thy ===== *)
theory Ncq_Claims
  imports Ncq_Progress Ncq_History
begin

text \<open>
  The properties of NCQ-SC64, stated for the configurations the constructor accepts. Each rests on
  the contract the model interprets, on the refinement or on the history lemmas.
\<close>

section \<open>NCQ-SC64\<close>

lemma ncq_example: "ncq_model_init 2 1 1 1 ''none'' True =
    Inr \<lparr>m_n = 2, m_p = 1, m_c = 1, m_m = 1, m_mutation = ''none'', m_abort = True, m_limit = 2 ^ 64 - 3\<rparr>"
  by (simp add: ncq_model_init_def ncq_mutations_def push_bit_eq_mult)

abbreviation ncq_ex :: ncq_model where
  "ncq_ex \<equiv> \<lparr>m_n = 2, m_p = 1, m_c = 1, m_m = 1, m_mutation = ''none'', m_abort = True, m_limit = 2 ^ 64 - 3\<rparr>"

lemma ncq_ex_reach: "reach (ncq_checker ncq_ex) (ncq_initial ncq_ex)"
  using reach.start [of "ncq_checker ncq_ex"] by (simp add: ncq_checker_def)

lemma ncq_checker_simps [simp]:
  "ck_initial (ncq_checker M) = ncq_initial M" "ck_invariant (ncq_checker M) = ncq_invariant M"
  "ck_terminal (ncq_checker M) = ncq_terminal" "ck_successors (ncq_checker M) = ncq_successors M"
  by (simp_all add: ncq_checker_def)

text \<open>C1: In every reachable state of an accepted configuration without mutation the checked
  invariant holds (no publication hole, no duplicate or misplaced token, no live alias on a queued
  block, conservation of tokens), and no transition raises or reports a violation. The bound on the
  finite budget keeps the tickets below the native ceiling.\<close>

theorem ncq_safe_reachable:
  assumes "ncq_model_init n p c m ''none'' ab = Inr M" "2 * n + p * m + 1 < 2 ^ 64"
    and "reach (ncq_checker M) s"
  shows "ncq_invariant M s = Inr None
    \<and> (\<forall>e \<in> set (ncq_successors M s). \<exists>l t q. e = Yield l t q None)"
  using ncq.never_violates(1) [OF admissible_init(1) [OF assms(1,2)] assms(3)]
    ncq.I_event [OF admissible_init(1) [OF assms(1,2)] ncq.reach_I [OF assms(3) admissible_init(1) [OF assms(1,2)]]]
  by fastforce

theorem ncq_safe_reachable_witness:
  "ncq_invariant ncq_ex (ncq_initial ncq_ex) = Inr None
    \<and> Raise IndexError \<notin> set (ncq_successors ncq_ex (ncq_initial ncq_ex))"
  using ncq_safe_reachable [OF ncq_example _ ncq_ex_reach] by fastforce

text \<open>C2: No deadlock: a reachable state has no successor exactly when every actor has finished.\<close>

theorem ncq_deadlock_free:
  assumes "ncq_model_init n p c m ''none'' ab = Inr M" "2 * n + p * m + 1 < 2 ^ 64"
    and "reach (ncq_checker M) s"
  shows "ncq_successors M s = [] \<longleftrightarrow> (\<forall>a \<in> set (actors s). pc a = 99)"
  using ncq.no_deadlock [OF admissible_init(1) [OF assms(1,2)] assms(3)] by (simp add: ncq_terminal_def)

theorem ncq_deadlock_free_witness:
  "ncq_successors ncq_ex (ncq_initial ncq_ex) \<noteq> []"
  using ncq_deadlock_free [OF ncq_example _ ncq_ex_reach] by (simp add: ncq_initial_def Let_def Actor_def)

lemma reach_actors:
  assumes "reach (ncq_checker M) s" "admissible M"
  shows "int (length (actors s)) = m_p M + m_c M"
  using ncq.reach_I [OF assms] by (simp add: ncq_safe_def ncq_inv_def shape_ok_def)

text \<open>C3: Lock freedom: from a reachable state at most 14 * (P + C) + 8 consecutive steps make no
  progress (no linearization point and no response), whatever the schedule; in particular there is
  no cycle of such steps.\<close>

theorem ncq_lock_free:
  assumes "ncq_model_init n p c m ''none'' ab = Inr M" "2 * n + p * m + 1 < 2 ^ 64"
    and "reach (ncq_checker M) s" "idle_path (ncq_checker M) s k t"
  shows "int k \<le> 14 * (p + c) + 8 \<and> (s = t \<longrightarrow> k = 0)"
proof -
  note A = admissible_init [OF assms(1,2)]
  have "ncq_inv M s" using ncq.reach_I [OF assms(3) A(1)] by (simp add: ncq_safe_def)
  then have "k \<le> 14 * length (actors s) + 8"
    using ncq_rank_bound ncq_ranked.idle_bound [OF A(1) assms(3,4)] by (meson order_trans)
  then show ?thesis
    using reach_actors [OF assms(3) A(1)] A(3,4) ncq_ranked.no_idle_cycle [OF A(1) assms(3)] assms(4) by auto
qed

theorem ncq_lock_free_witness:
  "\<exists>t. idle_path (ncq_checker ncq_ex) (ncq_initial ncq_ex) 1 t \<and> int 1 \<le> 14 * (1 + 1) + 8 \<and> ncq_initial ncq_ex \<noteq> t"
proof -
  have "\<exists>t. Yield ''0: begin dequeue Q0'' t False None \<in> set (ncq_successors ncq_ex (ncq_initial ncq_ex))"
    by (simp add: ncq_successors_def ncq_initial_def Let_def numeral_2_eq_2 actor_turn_def begin_dequeue_def emit_def
        Actor_def lab_def show_int_def show_nat.simps digit_char_def py_simps)
  then obtain t where "Yield ''0: begin dequeue Q0'' t False None \<in> set (ck_successors (ncq_checker ncq_ex) (ncq_initial ncq_ex))"
    by auto
  then have "idle_path (ncq_checker ncq_ex) (ncq_initial ncq_ex) (Suc 0) t" by (rule idle_step [OF idle_refl step.step])
  with ncq_lock_free [OF ncq_example _ ncq_ex_reach this] show ?thesis by auto
qed

text \<open>C4: Bounds: in every reachable state head, tail and publication frontier of both queues
  satisfy 0 <= H <= U <= N + P * M and U - 1 <= T <= U, so no ticket reaches the native ceiling.\<close>

theorem ncq_ticket_bounds:
  assumes "ncq_model_init n p c m ''none'' ab = Inr M" "2 * n + p * m + 1 < 2 ^ 64"
    and "reach (ncq_checker M) s" and "q = 0 \<or> q = 1"
  shows "0 \<le> heads s ! nat q \<and> heads s ! nat q \<le> frontiers s ! nat q
    \<and> frontiers s ! nat q - heads s ! nat q \<le> n
    \<and> frontiers s ! nat q - 1 \<le> tails s ! nat q \<and> tails s ! nat q \<le> frontiers s ! nat q
    \<and> frontiers s ! nat q \<le> n + p * m \<and> tails s ! nat q < m_limit M"
proof -
  note A = admissible_init [OF assms(1,2)]
  have S: "ncq_safe M s" by (rule ncq.reach_I [OF assms(3) A(1)])
  have q: "q \<in> {0, 1}" using assms(4) by simp
  then have "queue_ok M s q" using S unfolding ncq_safe_def ncq_inv_def by blast
  then show ?thesis using below_ceiling [OF A(1) S q] A(2-5) by (simp add: queue_ok_def)
qed

theorem ncq_ticket_bounds_witness:
  "frontiers (ncq_initial ncq_ex) ! nat 0 \<le> 2 + 1 * 1 \<and> tails (ncq_initial ncq_ex) ! nat 0 < m_limit ncq_ex"
  using ncq_ticket_bounds [OF ncq_example _ ncq_ex_reach, of 0] by simp

text \<open>C5: Refinement: every transition of a reachable state is, under the abstraction, one operation
  of an exchange of blocks (acquire, fill, publish, borrow, deliver, recycle) or leaves it unchanged,
  with the abstract precondition satisfied.\<close>

theorem ncq_refines_exchange:
  assumes "ncq_model_init n p c m ''none'' ab = Inr M" "2 * n + p * m + 1 < 2 ^ 64"
    and "reach (ncq_checker M) s" and "Yield lb t g v \<in> set (ncq_successors M s)"
  shows "\<exists>i l. i < length (actors s) \<and> lb = lab (int i) l
    \<and> exchange_step (op_of s i l) (ncq_abs M s) = Some (ncq_abs M t)"
proof -
  note A = admissible_init(1) [OF assms(1,2)]
  have S: "ncq_safe M s" by (rule ncq.reach_I [OF assms(3) A])
  obtain i l where mv: "ncq_move M s i l t g" and "lb = lab (int i) l"
    using assms(4) ncq_successors_iff [OF A S] by auto
  moreover have "i < length (actors s)" using mv by (simp add: ncq_move_def)
  ultimately show ?thesis using move_refines [OF A S mv] by blast
qed

theorem ncq_refines_exchange_witness:
  "\<exists>t. \<exists>i l. i < length (actors (ncq_initial ncq_ex)) \<and> ''0: begin dequeue Q0'' = lab (int i) l
    \<and> exchange_step (op_of (ncq_initial ncq_ex) i l) (ncq_abs ncq_ex (ncq_initial ncq_ex)) = Some (ncq_abs ncq_ex t)"
proof -
  have "\<exists>t. Yield ''0: begin dequeue Q0'' t False None \<in> set (ncq_successors ncq_ex (ncq_initial ncq_ex))"
    by (simp add: ncq_successors_def ncq_initial_def Let_def numeral_2_eq_2 actor_turn_def begin_dequeue_def emit_def
        Actor_def lab_def show_int_def show_nat.simps digit_char_def py_simps)
  then show ?thesis using ncq_refines_exchange [OF ncq_example _ ncq_ex_reach] by fastforce
qed

text \<open>A run of the generator in which the producer publishes its value and the consumer borrows it.\<close>

lemma ncq_ex_run: "\<exists>s. ncq_run ncq_ex [(0, 1)] [(0, 1)] [0] [] s \<and> ready (ncq_abs ncq_ex s) = []"
proof -
  have "map_option (\<lambda>(ps, bs, qs, rs, s). (ps, bs, qs, rs, ready (ncq_abs ncq_ex s)))
      (ncq_schedule ncq_ex [0, 0, 0, 0, 0, 0, 1, 1, 0, 0, 0, 0, 1, 1, 1, 1] [] [] [] [] (ncq_initial ncq_ex)) = Some ([(0, 1)], [(0, 1)], [0], [], [])"
    by code_simp
  then obtain s where "ncq_schedule ncq_ex [0, 0, 0, 0, 0, 0, 1, 1, 0, 0, 0, 0, 1, 1, 1, 1] [] [] [] [] (ncq_initial ncq_ex) = Some ([(0, 1)], [(0, 1)], [0], [], s)"
    and "ready (ncq_abs ncq_ex s) = []" by (auto simp del: ncq_schedule.simps)
  then show ?thesis using schedule_runs ncq_start by blast
qed

text \<open>C6: FIFO: at any point of a run of the successor generator the blocks borrowed so far, with the
  contents they were borrowed with, followed by the ready queue, are the blocks published so far, in
  the same order and with the same contents; and the tokens acquired so far, followed by the free
  queue, are the initial tokens and the recycled ones in order. The histories are read off the
  ownership of the actors before and after each transition the generator yields.\<close>

theorem ncq_fifo:
  assumes "ncq_model_init n p c m ''none'' ab = Inr M" "2 * n + p * m + 1 < 2 ^ 64"
    and "ncq_run M ps bs qs rs s"
  shows "ps = bs @ ready (ncq_abs M s) \<and> [0..n - 1] @ rs = qs @ free (ncq_abs M s)"
proof -
  note A = admissible_init(1) [OF assms(1,2)]
  obtain ops where "exchange_run M ops s" "ps = published ops" "bs = borrowed ops" "qs = acquired ops"
    "rs = recycled ops" using run_exchanges [OF assms(3) A] by blast
  then show ?thesis using run_queues [OF _ A] admissible_init(2) [OF assms(1,2)] by simp
qed

theorem ncq_fifo_witness:
  "\<exists>s. ncq_run ncq_ex [(0, 1)] [(0, 1)] [0] [] s \<and> [(0, 1)] = [(0, 1)] @ ready (ncq_abs ncq_ex s)
    \<and> free (ncq_abs ncq_ex s) = [1]"
proof -
  obtain s where r: "ncq_run ncq_ex [(0, 1)] [(0, 1)] [0] [] s" using ncq_ex_run by blast
  from ncq_fifo [OF ncq_example _ r] show ?thesis using r by (auto simp: upto.simps)
qed

text \<open>C7: Exactly once: in a run of the successor generator no value is published twice, the values of
  one producer are published in increasing order and every value is one of the P * M reservations;
  the borrowed values have the same three properties, so none is delivered to two consumers.\<close>

theorem ncq_exactly_once:
  assumes "ncq_model_init n p c m ''none'' ab = Inr M" "2 * n + p * m + 1 < 2 ^ 64"
    and "ncq_run M ps bs qs rs s"
  shows "distinct (map snd ps) \<and> distinct (map snd bs)
    \<and> producer_order M (map snd ps) \<and> producer_order M (map snd bs)
    \<and> (\<forall>x \<in> set (ps @ bs). 1 \<le> snd x \<and> snd x \<le> p * m)"
proof -
  note A = admissible_init [OF assms(1,2)]
  obtain ops where r: "exchange_run M ops s" and h: "ps = published ops" "bs = borrowed ops"
    using run_exchanges [OF assms(3) A(1)] by blast
  have ps: "map snd ps = map snd bs @ map snd (ready (ncq_abs M s))"
    using run_queues(1) [OF r A(1)] h by simp
  have o: "producer_order M (map snd ps)" using run_published_ordered(1) [OF r A(1)] h by simp
  then have b: "producer_order M (map snd bs)" unfolding ps by (simp add: sorted_wrt_append)
  have "1 \<le> snd x \<and> snd x \<le> p * m" if "x \<in> set ps" for x
    using run_published_ordered(2) [OF r A(1)] that h A(2-5) by auto
  moreover have "set bs \<subseteq> set ps" using run_queues(1) [OF r A(1)] h by auto
  ultimately show ?thesis using o b producer_order_distinct by auto
qed

theorem ncq_exactly_once_witness:
  "\<exists>s. ncq_run ncq_ex [(0, 1)] [(0, 1)] [0] [] s \<and> distinct (map snd [(0::int, 1::int)])
    \<and> (\<forall>x \<in> set [(0::int, 1::int)]. 1 \<le> snd x \<and> snd x \<le> 1 * (1::int))"
proof -
  obtain s where r: "ncq_run ncq_ex [(0, 1)] [(0, 1)] [0] [] s" using ncq_ex_run by blast
  from ncq_exactly_once [OF ncq_example _ r] show ?thesis using r by auto
qed

end
