(* ===== verification/Spsc.thy ===== *)
theory Spsc
  imports Violations Transition
begin

unbundle bit_operations_syntax

text \<open>
  The single-producer/single-consumer control and ownership model, \<open>formal/models/spsc.py\<close>: its
  state, its configuration checks, the checked invariant, and the successor generator, one
  definition per program counter of the producer and of the consumer. The acquired cursor
  snapshots are nondeterministic, as in the source.
\<close>

section \<open>State\<close>

record spsc_state =
  published :: int
  reclaimed :: int
  producer_pc :: int
  consumer_pc :: int
  cached_c :: int
  cached_p :: int
  left :: int
  epochs :: "int list"
  word0 :: "int list"
  word1 :: "int list"
  committed :: "int list"
  owners :: "int list"
  read0 :: int
  producer_done :: bool

record spsc_model =
  sm_n :: int
  sm_m :: int
  sm_mutation :: string
  sm_abort :: bool

definition spsc_model_init ::
    "int \<Rightarrow> int \<Rightarrow> int \<Rightarrow> int \<Rightarrow> string \<Rightarrow> bool \<Rightarrow> exn + spsc_model" where
  "spsc_model_init capacity producers consumers operations mutation allow_abort =
     (if capacity < 2 \<or> capacity AND (capacity - 1) \<noteq> 0 \<or> (producers, consumers) \<noteq> (1, 1)
         \<or> operations < 1
      then Inl (ValueError ''SPSC requires N power-of-two >=2 and 1P1C'')
      else if mutation \<notin> {''none'', ''publish_early''} then Inl (ValueError ''invalid SPSC mutation'')
      else Inr \<lparr>sm_n = capacity, sm_m = operations, sm_mutation = mutation, sm_abort = allow_abort\<rparr>)"

definition spsc_initial :: "spsc_model \<Rightarrow> spsc_state" where
  "spsc_initial M =
     (let zero = replicate (nat (sm_n M)) 0 in
      \<lparr>published = 0, reclaimed = 0, producer_pc = 0, consumer_pc = 0, cached_c = 0, cached_p = 0,
       left = sm_m M, epochs = zero, word0 = zero, word1 = zero, committed = zero, owners = zero,
       read0 = 0, producer_done = False\<rparr>)"

definition spsc_terminal :: "spsc_state \<Rightarrow> bool" where
  "spsc_terminal s \<longleftrightarrow> producer_done s \<and> consumer_pc s = 99"

section \<open>The checked invariant\<close>

fun live_tickets :: "spsc_model \<Rightarrow> spsc_state \<Rightarrow> int list \<Rightarrow> unit check" where
  "live_tickets M s [] = Go ()"
| "live_tickets M s (t # ts) =
     (let b = t mod sm_n M in
      sub (Crash IndexError) (owners s) b (\<lambda>ow.
        if ow \<notin> {2, 3} then Found (SPSC_LIVE_TICKET_OWNERSHIP t)
        else sub (Crash IndexError) (word0 s) b (\<lambda>w0.
          sub (Crash IndexError) (committed s) b (\<lambda>c.
            if w0 \<noteq> c then Found (SPSC_TORN_OR_UNCOMMITTED t)
            else sub (Crash IndexError) (word1 s) b (\<lambda>w1.
              if w1 \<noteq> c then Found (SPSC_TORN_OR_UNCOMMITTED t) else live_tickets M s ts)))))"

definition spsc_invariant :: "spsc_model \<Rightarrow> spsc_state \<Rightarrow> exn + violation option" where
  "spsc_invariant M s = check_result
     (if \<not> (0 \<le> published s - reclaimed s \<and> published s - reclaimed s \<le> sm_n M)
      then Found SPSC_CAPACITY
      else if \<not> (0 \<le> cached_c s \<and> cached_c s \<le> reclaimed s)
           \<or> \<not> (0 \<le> cached_p s \<and> cached_p s \<le> published s)
      then Found FUTURE_SNAPSHOT
      else live_tickets M s [reclaimed s..published s - 1])"

section \<open>Successors\<close>

text \<open>A part of the generator: its events, and whether it returned before the other part.\<close>

type_synonym spsc_part = "(spsc_state, violation) event list \<times> bool"

definition index_error :: spsc_part where
  "index_error = ([Raise IndexError], True)"

text \<open>The producer, program counters 0 to 6; \<open>b\<close> is \<open>s.published % self.n\<close>.\<close>

definition p_begin :: "spsc_model \<Rightarrow> spsc_state \<Rightarrow> spsc_part" where
  "p_begin M s =
     (if left s = 0
      then ([Yield ''P: finite budget complete'' (s\<lparr>producer_done := True\<rparr>) True None], False)
      else if published s - cached_c s \<ge> sm_n M
      then (map (\<lambda>c. Yield (''P: acquire reclaimed snapshot '' @ show_int c)
                       (s\<lparr>cached_c := c, producer_pc := 1\<rparr>) False None)
              [cached_c s..reclaimed s], False)
      else ([Yield ''P: cached reclamation covers reserve'' (s\<lparr>producer_pc := 2\<rparr>) False None], False))"

definition p_capacity :: "spsc_model \<Rightarrow> spsc_state \<Rightarrow> spsc_part" where
  "p_capacity M s =
     (if published s - cached_c s \<ge> sm_n M
      then ([Yield ''P: NO_CAPACITY_OBSERVED'' (s\<lparr>producer_pc := 0\<rparr>) True None], False)
      else ([Yield ''P: capacity available'' (s\<lparr>producer_pc := 2\<rparr>) False None], False))"

definition p_reserve :: "spsc_state \<Rightarrow> int \<Rightarrow> spsc_part" where
  "p_reserve s b =
     sub index_error (owners s) b (\<lambda>ow.
       if ow \<noteq> 0 then ([Yield ''P: reserve conflict'' s False (Some (OVERWRITE_LIVE_LEASE b))], True)
       else sub index_error (epochs s) b (\<lambda>ep.
         ([Yield ''P: private reservation and epoch advance''
             (s\<lparr>producer_pc := 3, left := left s - 1, owners := put (owners s) b 1,
                epochs := put (epochs s) b (ep + 1)\<rparr>) False None], False)))"

definition p_publish :: "spsc_state \<Rightarrow> int \<Rightarrow> int \<Rightarrow> spsc_state" where
  "p_publish s b value =
     s\<lparr>published := published s + 1, producer_pc := 6, committed := put (committed s) b value,
       owners := put (owners s) b 2\<rparr>"

definition p_write :: "spsc_model \<Rightarrow> spsc_state \<Rightarrow> int \<Rightarrow> spsc_part" where
  "p_write M s b =
     (let value = sm_m M - left s in
      ((if sm_abort M
        then [Yield ''P: abort, no publication'' (s\<lparr>producer_pc := 0, owners := put (owners s) b 0\<rparr>)
                True None]
        else [])
       @ (if producer_pc s = 3
          then [Yield ''P: ordinary word0 write'' (s\<lparr>producer_pc := 4, word0 := put (word0 s) b value\<rparr>)
                  False None]
          else if producer_pc s = 4
          then Yield ''P: ordinary word1 write'' (s\<lparr>producer_pc := 5, word1 := put (word1 s) b value\<rparr>)
                 False None
               # (if sm_mutation M = ''publish_early''
                  then [Yield ''P: MUTANT publication before second word'' (p_publish s b value) True None]
                  else [])
          else [Yield ''P: release published [LP]'' (p_publish s b value) True None]), False))"

definition p_turn :: "spsc_model \<Rightarrow> spsc_state \<Rightarrow> spsc_part" where
  "p_turn M s =
     (let b = published s mod sm_n M; pc = producer_pc s in
      if producer_done s then ([], False)
      else if pc = 0 then p_begin M s
      else if pc = 1 then p_capacity M s
      else if pc = 2 then p_reserve s b
      else if pc = 3 \<or> pc = 4 \<or> pc = 5 then p_write M s b
      else if pc = 6
      then ([Yield ''P: local-only post-LP completion'' (s\<lparr>producer_pc := 0\<rparr>) True None], False)
      else ([], False))"

text \<open>The consumer, program counters 0 to 6; \<open>b\<close> is \<open>s.reclaimed % self.n\<close>.\<close>

definition c_begin :: "spsc_state \<Rightarrow> spsc_part" where
  "c_begin s =
     (if cached_p s \<le> reclaimed s
      then (map (\<lambda>p. Yield (''C: acquire publication snapshot '' @ show_int p)
                       (s\<lparr>cached_p := p, consumer_pc := 1\<rparr>) False None)
              [cached_p s..published s], False)
      else ([Yield ''C: covering cached publication'' (s\<lparr>consumer_pc := 2\<rparr>) False None], False))"

definition c_covered :: "spsc_state \<Rightarrow> spsc_part" where
  "c_covered s =
     (if cached_p s \<le> reclaimed s
      then (let done = producer_done s \<and> reclaimed s = published s in
            ([Yield ''C: NO_DATA_OBSERVED'' (s\<lparr>consumer_pc := if done then 99 else 0\<rparr>) True None], False))
      else ([Yield ''C: covered publication'' (s\<lparr>consumer_pc := 2\<rparr>) False None], False))"

definition c_borrow :: "spsc_state \<Rightarrow> int \<Rightarrow> spsc_part" where
  "c_borrow s b =
     sub index_error (owners s) b (\<lambda>ow.
       if ow \<noteq> 2 then ([Yield ''C: invalid borrow'' s False (Some (READ_UNCOMMITTED b))], True)
       else ([Yield ''C: borrow holds C cursor'' (s\<lparr>consumer_pc := 3, owners := put (owners s) b 3\<rparr>)
                False None], False))"

definition c_read0 :: "spsc_state \<Rightarrow> int \<Rightarrow> spsc_part" where
  "c_read0 s b = sub index_error (word0 s) b (\<lambda>w0.
     ([Yield ''C: ordinary word0 read'' (s\<lparr>consumer_pc := 4, read0 := w0\<rparr>) False None], False))"

definition c_read1 :: "spsc_state \<Rightarrow> int \<Rightarrow> spsc_part" where
  "c_read1 s b = sub index_error (word1 s) b (\<lambda>w1.
     if w1 \<noteq> read0 s then ([Yield ''C: ordinary word1 read'' s False (Some (TORN_PAYLOAD b))], True)
     else ([Yield ''C: final ordinary read'' (s\<lparr>consumer_pc := 5\<rparr>) False None], False))"

definition c_release :: "spsc_state \<Rightarrow> int \<Rightarrow> spsc_part" where
  "c_release s b =
     ([Yield ''C: release reclaimed [LP]''
         (s\<lparr>reclaimed := reclaimed s + 1, consumer_pc := 6, owners := put (owners s) b 0, read0 := 0\<rparr>)
         True None], False)"

definition c_turn :: "spsc_model \<Rightarrow> spsc_state \<Rightarrow> spsc_part" where
  "c_turn M s =
     (let b = reclaimed s mod sm_n M; pc = consumer_pc s in
      if pc = 0 then c_begin s
      else if pc = 1 then c_covered s
      else if pc = 2 then c_borrow s b
      else if pc = 3 then c_read0 s b
      else if pc = 4 then c_read1 s b
      else if pc = 5 then c_release s b
      else if pc = 6
      then ([Yield ''C: local-only post-LP completion'' (s\<lparr>consumer_pc := 0\<rparr>) True None], False)
      else ([], False))"

definition spsc_successors :: "spsc_model \<Rightarrow> spsc_state \<Rightarrow> (spsc_state, violation) event list" where
  "spsc_successors M s =
     cut (fst (p_turn M s) @ (if snd (p_turn M s) then [] else fst (c_turn M s)))"

definition spsc_checker :: "spsc_model \<Rightarrow> (spsc_state, violation) checker" where
  "spsc_checker M = \<lparr>ck_initial = spsc_initial M, ck_invariant = spsc_invariant M,
     ck_terminal = spsc_terminal, ck_successors = spsc_successors M\<rparr>"

end
