(* ===== verification/Spsc_Safety.thy ===== *)
theory Spsc_Safety
  imports Spsc
begin

text \<open>
  Correctness of the SPSC control model without mutation: an inductive invariant over the slots of
  one lap, its preservation by every producer and consumer turn, and the instance of the contract
  \<open>ranked_model\<close>: no violation, no exception, no deadlock, at most ten steps without progress.
\<close>

section \<open>The inductive invariant\<close>

definition cell :: "spsc_model \<Rightarrow> int \<Rightarrow> nat" where
  "cell M t = nat (t mod sm_n M)"

text \<open>The owner the slot of a ticket within one lap of the reclaimed cursor must have.\<close>

definition owner_of :: "spsc_state \<Rightarrow> int \<Rightarrow> int" where
  "owner_of s t =
     (if t < published s then (if t = reclaimed s \<and> consumer_pc s \<in> {3, 4, 5} then 3 else 2)
      else if t = published s \<and> producer_pc s \<in> {3, 4, 5} then 1 else 0)"

definition spsc_shape :: "spsc_model \<Rightarrow> spsc_state \<Rightarrow> bool" where
  "spsc_shape M s \<longleftrightarrow> 2 \<le> sm_n M
     \<and> int (length (owners s)) = sm_n M \<and> int (length (epochs s)) = sm_n M
     \<and> int (length (word0 s)) = sm_n M \<and> int (length (word1 s)) = sm_n M
     \<and> int (length (committed s)) = sm_n M"

definition cursors_ok :: "spsc_model \<Rightarrow> spsc_state \<Rightarrow> bool" where
  "cursors_ok M s \<longleftrightarrow> 0 \<le> reclaimed s \<and> reclaimed s \<le> published s
     \<and> published s - reclaimed s \<le> sm_n M
     \<and> 0 \<le> cached_c s \<and> cached_c s \<le> reclaimed s \<and> 0 \<le> cached_p s \<and> cached_p s \<le> published s
     \<and> 0 \<le> left s"

definition slots_ok :: "spsc_model \<Rightarrow> spsc_state \<Rightarrow> bool" where
  "slots_ok M s \<longleftrightarrow> (\<forall>t. reclaimed s \<le> t \<and> t < reclaimed s + sm_n M \<longrightarrow>
     owners s ! cell M t = owner_of s t
     \<and> (t < published s \<longrightarrow> word0 s ! cell M t = committed s ! cell M t
          \<and> word1 s ! cell M t = committed s ! cell M t))"

definition producer_ok :: "spsc_model \<Rightarrow> spsc_state \<Rightarrow> bool" where
  "producer_ok M s \<longleftrightarrow>
     (let p = producer_pc s; c = cell M (published s); v = sm_m M - left s in
      p \<in> {0, 1, 2, 3, 4, 5, 6} \<and> (producer_done s \<longrightarrow> p = 0)
      \<and> (p \<in> {1, 2} \<longrightarrow> 1 \<le> left s)
      \<and> (p \<in> {2, 3, 4, 5} \<longrightarrow> published s - cached_c s < sm_n M)
      \<and> (p \<in> {4, 5} \<longrightarrow> word0 s ! c = v) \<and> (p = 5 \<longrightarrow> word1 s ! c = v))"

definition consumer_ok :: "spsc_model \<Rightarrow> spsc_state \<Rightarrow> bool" where
  "consumer_ok M s \<longleftrightarrow>
     (let p = consumer_pc s; c = cell M (reclaimed s) in
      p \<in> {0, 1, 2, 3, 4, 5, 6, 99} \<and> (p = 99 \<longrightarrow> producer_done s \<and> reclaimed s = published s)
      \<and> (p \<in> {2, 3, 4, 5} \<longrightarrow> reclaimed s < published s)
      \<and> (p \<in> {4, 5} \<longrightarrow> read0 s = word0 s ! c))"

definition spsc_inv :: "spsc_model \<Rightarrow> spsc_state \<Rightarrow> bool" where
  "spsc_inv M s \<longleftrightarrow> spsc_shape M s \<and> cursors_ok M s \<and> slots_ok M s \<and> producer_ok M s
     \<and> consumer_ok M s"

definition spsc_ok :: "spsc_model \<Rightarrow> bool" where
  "spsc_ok M \<longleftrightarrow> 2 \<le> sm_n M \<and> 1 \<le> sm_m M \<and> sm_mutation M = ''none''"

section \<open>Slots\<close>

lemma cell_range: "0 < sm_n M \<Longrightarrow> 0 \<le> t mod sm_n M \<and> t mod sm_n M < sm_n M"
  by simp

lemma cell_at:
  assumes "spsc_shape M s"
  shows "sub err (owners s) (t mod sm_n M) k = k (owners s ! cell M t)"
    "sub err (epochs s) (t mod sm_n M) k = k (epochs s ! cell M t)"
    "sub err (word0 s) (t mod sm_n M) k = k (word0 s ! cell M t)"
    "sub err (word1 s) (t mod sm_n M) k = k (word1 s ! cell M t)"
    "sub err (committed s) (t mod sm_n M) k = k (committed s ! cell M t)"
    "put (owners s) (t mod sm_n M) v = (owners s)[cell M t := v]"
    "put (epochs s) (t mod sm_n M) v = (epochs s)[cell M t := v]"
    "put (word0 s) (t mod sm_n M) v = (word0 s)[cell M t := v]"
    "put (word1 s) (t mod sm_n M) v = (word1 s)[cell M t := v]"
    "put (committed s) (t mod sm_n M) v = (committed s)[cell M t := v]"
  using assms by (auto simp: spsc_shape_def py_simps cell_def)

lemma cell_less:
  assumes "spsc_shape M s"
  shows "cell M t < length (owners s)" "cell M t < length (epochs s)" "cell M t < length (word0 s)"
    "cell M t < length (word1 s)" "cell M t < length (committed s)"
  using assms cell_range [of M t] by (auto simp: spsc_shape_def cell_def nat_less_iff)

text \<open>Within one lap, tickets and slots correspond.\<close>

lemma cell_eq:
  assumes "2 \<le> sm_n M" "\<bar>t - u\<bar> < sm_n M"
  shows "cell M t = cell M u \<longleftrightarrow> t = u"
proof
  assume "cell M t = cell M u"
  then have "t mod sm_n M = u mod sm_n M"
    using cell_range [of M t] cell_range [of M u] assms(1) by (simp add: cell_def nat_eq_iff2)
  then show "t = u" using mod_eq_within_lap assms(2) by blast
qed simp

lemma cell_lap: "cell M (t + sm_n M) = cell M t"
  by (simp add: cell_def)

section \<open>The checked invariant follows\<close>

lemma check_live_tickets:
  assumes "spsc_shape M s" "slots_ok M s" "published s - reclaimed s \<le> sm_n M"
    and "set ts \<subseteq> {reclaimed s..published s - 1}"
  shows "live_tickets M s ts = Go ()"
  using assms(4)
proof (induction ts)
  case (Cons t ts)
  then have t: "reclaimed s \<le> t \<and> t < reclaimed s + sm_n M" "t < published s" using assms(3) by auto
  then have o: "owners s ! cell M t = owner_of s t"
    and w: "word0 s ! cell M t = committed s ! cell M t" "word1 s ! cell M t = committed s ! cell M t"
    using assms(2) by (auto simp: slots_ok_def)
  from Cons show ?case
    using o w t by (simp add: cell_at [OF assms(1)] Let_def owner_of_def)
qed simp

lemma spsc_checked:
  assumes "spsc_inv M s"
  shows "spsc_invariant M s = Inr None"
proof -
  have "spsc_shape M s" "slots_ok M s" and c: "cursors_ok M s" using assms by (auto simp: spsc_inv_def)
  moreover from c have "published s - reclaimed s \<le> sm_n M" by (simp add: cursors_ok_def)
  ultimately have "live_tickets M s [reclaimed s..published s - 1] = Go ()"
    by (intro check_live_tickets) auto
  then show ?thesis using c by (simp add: spsc_invariant_def cursors_ok_def)
qed

lemma spsc_initial_inv: "spsc_ok M \<Longrightarrow> spsc_inv M (spsc_initial M)"
  unfolding spsc_inv_def
  using cell_range [of M]
  by (auto simp: spsc_ok_def spsc_shape_def cursors_ok_def slots_ok_def producer_ok_def consumer_ok_def
      spsc_initial_def Let_def owner_of_def cell_def nat_less_iff)

section \<open>Every turn is clean\<close>

definition clean_part :: "spsc_model \<Rightarrow> spsc_part \<Rightarrow> bool" where
  "clean_part M part \<longleftrightarrow> \<not> snd part \<and> (\<forall>e \<in> set (fst part). \<exists>l t p. e = Yield l t p None \<and> spsc_inv M t)"

lemma clean_part_simps [simp]:
  "clean_part M ([Yield l t p v], False) \<longleftrightarrow> v = None \<and> spsc_inv M t"
  "clean_part M ([], False)"
  by (auto simp: clean_part_def)

lemma clean_part_map: "(\<And>x. x \<in> set xs \<Longrightarrow> spsc_inv M (f x)) \<Longrightarrow>
    clean_part M (map (\<lambda>x. Yield (l x) (f x) p None) xs, False)"
  by (auto simp: clean_part_def)

lemma spsc_invD:
  assumes "spsc_inv M s"
  shows "spsc_shape M s" "cursors_ok M s" "slots_ok M s" "producer_ok M s" "consumer_ok M s"
  using assms by (auto simp: spsc_inv_def)

lemma p_begin_clean:
  assumes I: "spsc_inv M s" and p: "producer_pc s = 0" "\<not> producer_done s"
  shows "clean_part M (p_begin M s)"
proof -
  have 1: "spsc_inv M (s\<lparr>cached_c := c, producer_pc := 1\<rparr>)"
    if "cached_c s \<le> c" "c \<le> reclaimed s" "left s \<noteq> 0" for c
    using I p that unfolding spsc_inv_def spsc_shape_def cursors_ok_def slots_ok_def producer_ok_def
      consumer_ok_def owner_of_def Let_def by (simp, blast?)
  have 2: "spsc_inv M (s\<lparr>producer_pc := 2\<rparr>)" if "published s - cached_c s < sm_n M" "left s \<noteq> 0"
    using I p that unfolding spsc_inv_def spsc_shape_def cursors_ok_def slots_ok_def producer_ok_def
      consumer_ok_def owner_of_def Let_def by (simp, blast?)
  have 3: "spsc_inv M (s\<lparr>producer_done := True\<rparr>)"
    using I p unfolding spsc_inv_def spsc_shape_def cursors_ok_def slots_ok_def producer_ok_def
      consumer_ok_def owner_of_def Let_def by (simp, blast?)
  show ?thesis
    unfolding p_begin_def using 1 2 3 by (auto intro!: clean_part_map)
qed

lemma p_capacity_clean:
  assumes I: "spsc_inv M s" and p: "producer_pc s = 1" "\<not> producer_done s"
  shows "clean_part M (p_capacity M s)"
proof -
  have "spsc_inv M (s\<lparr>producer_pc := 0\<rparr>)"
    using I p unfolding spsc_inv_def spsc_shape_def cursors_ok_def slots_ok_def producer_ok_def
      consumer_ok_def owner_of_def Let_def by (simp, blast)
  moreover have "spsc_inv M (s\<lparr>producer_pc := 2\<rparr>)" if "published s - cached_c s < sm_n M"
    using I p that unfolding spsc_inv_def spsc_shape_def cursors_ok_def slots_ok_def producer_ok_def
      consumer_ok_def owner_of_def Let_def by (simp, blast?)
  ultimately show ?thesis by (simp add: p_capacity_def)
qed

text \<open>A change of the slot of the published cursor while that slot is free.\<close>

lemma published_slot:
  assumes I: "spsc_inv M s" and room: "published s - cached_c s < sm_n M"
  shows "\<And>t. reclaimed s \<le> t \<Longrightarrow> t < reclaimed s + sm_n M \<Longrightarrow> cell M t = cell M (published s) \<longleftrightarrow> t = published s"
    "published s < reclaimed s + sm_n M" "owners s ! cell M (published s) = owner_of s (published s)"
    "cell M (reclaimed s) = cell M (published s) \<longleftrightarrow> reclaimed s = published s"
proof -
  have c: "reclaimed s \<le> published s" "cached_c s \<le> reclaimed s" "2 \<le> sm_n M"
    using spsc_invD(1,2) [OF I] by (auto simp: cursors_ok_def spsc_shape_def)
  show lt: "published s < reclaimed s + sm_n M" using c room by linarith
  show eq: "cell M t = cell M (published s) \<longleftrightarrow> t = published s"
    if "reclaimed s \<le> t" "t < reclaimed s + sm_n M" for t
    using that c lt by (intro cell_eq) auto
  show "cell M (reclaimed s) = cell M (published s) \<longleftrightarrow> reclaimed s = published s"
    using c by (intro eq) auto
  show "owners s ! cell M (published s) = owner_of s (published s)"
    using spsc_invD(3) [OF I] c lt by (simp add: slots_ok_def)
qed

lemma slots_okI:
  assumes "\<And>x. reclaimed s \<le> x \<Longrightarrow> x < reclaimed s + sm_n M \<Longrightarrow> owners s ! cell M x = owner_of s x"
    and "\<And>x. reclaimed s \<le> x \<Longrightarrow> x < reclaimed s + sm_n M \<Longrightarrow> x < published s \<Longrightarrow>
      word0 s ! cell M x = committed s ! cell M x \<and> word1 s ! cell M x = committed s ! cell M x"
  shows "slots_ok M s"
  using assms by (simp add: slots_ok_def)

lemma slots_okD:
  assumes "spsc_inv M s" "reclaimed s \<le> x" "x < reclaimed s + sm_n M"
  shows "owners s ! cell M x = owner_of s x"
    "x < published s \<longrightarrow> word0 s ! cell M x = committed s ! cell M x"
    "x < published s \<longrightarrow> word1 s ! cell M x = committed s ! cell M x"
  using spsc_invD(3) [OF assms(1)] assms(2,3) by (auto simp: slots_ok_def)

text \<open>A write to the free slot of the published cursor.\<close>

lemma slots_ok_write:
  assumes I: "spsc_inv M s" and room: "published s - cached_c s < sm_n M"
    and t: "published t = published s" "reclaimed t = reclaimed s" "consumer_pc t = consumer_pc s"
      "committed t = committed s"
    and o: "owners t ! cell M (published s) = (if producer_pc t \<in> {3, 4, 5} then 1 else 0)"
    and other: "\<And>x. cell M x \<noteq> cell M (published s) \<Longrightarrow> owners t ! cell M x = owners s ! cell M x
      \<and> word0 t ! cell M x = word0 s ! cell M x \<and> word1 t ! cell M x = word1 s ! cell M x"
  shows "slots_ok M t"
proof (rule slots_okI)
  note ps = published_slot [OF I room]
  fix x assume "reclaimed t \<le> x" "x < reclaimed t + sm_n M"
  then have x: "reclaimed s \<le> x" "x < reclaimed s + sm_n M" by (simp_all add: t)
  note d = slots_okD [OF I x]
  show "owners t ! cell M x = owner_of t x"
  proof (cases "x = published s")
    case True
    then show ?thesis using o by (simp add: owner_of_def t)
  next
    case False
    then show ?thesis using other [of x] ps(1) [OF x] d(1) by (simp add: owner_of_def t)
  qed
  assume "x < published t"
  then show "word0 t ! cell M x = committed t ! cell M x \<and> word1 t ! cell M x = committed t ! cell M x"
    using other [of x] ps(1) [OF x] d(2,3) by (simp add: t)
qed

lemma p_reserve_clean:
  assumes I: "spsc_inv M s" and p: "producer_pc s = 2" "\<not> producer_done s"
  shows "clean_part M (p_reserve s (published s mod sm_n M))"
proof -
  let ?c = "cell M (published s)"
  let ?t = "s\<lparr>producer_pc := 3, left := left s - 1, owners := (owners s)[?c := 1],
      epochs := (epochs s)[?c := epochs s ! ?c + 1]\<rparr>"
  note sh = spsc_invD(1) [OF I]
  have lf: "1 \<le> left s" "published s - cached_c s < sm_n M"
    using spsc_invD(4) [OF I] p by (simp_all add: producer_ok_def Let_def)
  note ps = published_slot [OF I lf(2)]
  have "owners s ! ?c = 0" using ps(3) p by (simp add: owner_of_def)
  moreover have "slots_ok M ?t"
    by (rule slots_ok_write [OF I lf(2)]) (use cell_less(1) [OF sh] in simp_all)
  then have "spsc_inv M ?t"
    using I p lf unfolding spsc_inv_def spsc_shape_def cursors_ok_def producer_ok_def
      consumer_ok_def Let_def by (simp, blast?)
  ultimately show ?thesis by (simp add: p_reserve_def cell_at [OF sh])
qed

lemma p_write_clean:
  assumes M: "spsc_ok M" and I: "spsc_inv M s" and p: "producer_pc s \<in> {3, 4, 5}" "\<not> producer_done s"
  shows "clean_part M (p_write M s (published s mod sm_n M))"
proof -
  let ?c = "cell M (published s)" and ?v = "sm_m M - left s"
  note sh = spsc_invD(1) [OF I]
  have room: "published s - cached_c s < sm_n M"
    using spsc_invD(4) [OF I] p(1) unfolding producer_ok_def Let_def by blast
  note ps = published_slot [OF I room] and ls = cell_less [OF sh]
  have "slots_ok M (s\<lparr>producer_pc := 0, owners := (owners s)[?c := 0]\<rparr>)"
    by (rule slots_ok_write [OF I room]) (use ls(1) in simp_all)
  then have abort: "spsc_inv M (s\<lparr>producer_pc := 0, owners := (owners s)[?c := 0]\<rparr>)"
    using I p unfolding spsc_inv_def spsc_shape_def cursors_ok_def producer_ok_def consumer_ok_def Let_def
    by (simp, blast?)
  have "consumer_pc s = 4 \<or> consumer_pc s = 5 \<longrightarrow> reclaimed s < published s"
    using spsc_invD(5) [OF I] by (auto simp: consumer_ok_def Let_def)
  then have ne: "consumer_pc s = 4 \<or> consumer_pc s = 5 \<longrightarrow> (word0 s)[?c := ?v] ! cell M (reclaimed s) = word0 s ! cell M (reclaimed s)"
    using ps(4) by auto
  have o1: "owners s ! ?c = 1" using ps(3) p(1) by (auto simp: owner_of_def)
  have "slots_ok M (s\<lparr>producer_pc := 4, word0 := (word0 s)[?c := ?v]\<rparr>)"
    by (rule slots_ok_write [OF I room]) (use o1 in simp_all)
  then have w0: "spsc_inv M (s\<lparr>producer_pc := 4, word0 := (word0 s)[?c := ?v]\<rparr>)" if "producer_pc s = 3"
    using I p room that ne ls(3)
    unfolding spsc_inv_def spsc_shape_def cursors_ok_def producer_ok_def consumer_ok_def Let_def
    by (simp, blast?)
  have "slots_ok M (s\<lparr>producer_pc := 5, word1 := (word1 s)[?c := ?v]\<rparr>)"
    by (rule slots_ok_write [OF I room]) (use o1 in simp_all)
  then have w1: "spsc_inv M (s\<lparr>producer_pc := 5, word1 := (word1 s)[?c := ?v]\<rparr>)" if "producer_pc s = 4"
    using I p room that ls(4)
    unfolding spsc_inv_def spsc_shape_def cursors_ok_def producer_ok_def consumer_ok_def Let_def
    by (simp, blast?)
  have pub: "spsc_inv M (p_publish s (published s mod sm_n M) ?v)" if p5: "producer_pc s = 5"
  proof -
    let ?t = "p_publish s (published s mod sm_n M) ?v"
    have w: "word0 s ! ?c = ?v" "word1 s ! ?c = ?v"
      using spsc_invD(4) [OF I] p5 by (simp_all add: producer_ok_def Let_def)
    have t: "?t = s\<lparr>published := published s + 1, producer_pc := 6,
        committed := (committed s)[?c := ?v], owners := (owners s)[?c := 2]\<rparr>"
      by (simp add: p_publish_def cell_at [OF sh])
    have cr: "consumer_pc s \<in> {3, 4, 5} \<longrightarrow> reclaimed s < published s"
      using spsc_invD(5) [OF I] by (auto simp: consumer_ok_def Let_def)
    have ow: "owner_of ?t x = (if x = published s then 2 else owner_of s x)" for x
      using cr p5 unfolding t by (auto simp: owner_of_def)
    have "slots_ok M ?t"
    proof (rule slots_okI)
      fix x assume "reclaimed ?t \<le> x" "x < reclaimed ?t + sm_n M"
      then have x: "reclaimed s \<le> x" "x < reclaimed s + sm_n M" by (simp_all add: t)
      note d = slots_okD [OF I x] and e = ps(1) [OF x]
      show "owners ?t ! cell M x = owner_of ?t x"
        using d(1) e ls(1) unfolding ow by (cases "x = published s") (simp_all add: t)
      assume "x < published ?t"
      then show "word0 ?t ! cell M x = committed ?t ! cell M x \<and> word1 ?t ! cell M x = committed ?t ! cell M x"
        using d(2,3) e ls(5) w by (cases "x = published s") (simp_all add: t)
    qed
    then show ?thesis
      using I p p5 ps(2)
      unfolding t spsc_inv_def spsc_shape_def cursors_ok_def producer_ok_def consumer_ok_def Let_def
      by auto
  qed
  have "sm_mutation M = ''none''" using M by (simp add: spsc_ok_def)
  then show ?thesis
    using abort w0 w1 pub p(1)
    unfolding p_write_def clean_part_def Let_def cell_at [OF sh] by auto
qed


text \<open>The consumer; the slot of the reclaimed cursor while it is published.\<close>

lemma reclaimed_slot:
  assumes I: "spsc_inv M s" and live: "reclaimed s < published s"
  shows "\<And>t. reclaimed s \<le> t \<Longrightarrow> t < reclaimed s + sm_n M \<Longrightarrow> cell M t = cell M (reclaimed s) \<longleftrightarrow> t = reclaimed s"
    "owners s ! cell M (reclaimed s) = (if consumer_pc s \<in> {3, 4, 5} then 3 else 2)"
    "word0 s ! cell M (reclaimed s) = committed s ! cell M (reclaimed s)"
    "word1 s ! cell M (reclaimed s) = committed s ! cell M (reclaimed s)"
proof -
  have n: "2 \<le> sm_n M" using spsc_invD(1) [OF I] by (simp add: spsc_shape_def)
  show "cell M t = cell M (reclaimed s) \<longleftrightarrow> t = reclaimed s"
    if "reclaimed s \<le> t" "t < reclaimed s + sm_n M" for t
    using that n by (intro cell_eq) auto
  have "reclaimed s < reclaimed s + sm_n M" using n by simp
  note d = slots_okD [OF I order_refl this]
  show "owners s ! cell M (reclaimed s) = (if consumer_pc s \<in> {3, 4, 5} then 3 else 2)"
    "word0 s ! cell M (reclaimed s) = committed s ! cell M (reclaimed s)"
    "word1 s ! cell M (reclaimed s) = committed s ! cell M (reclaimed s)"
    using d live by (simp_all add: owner_of_def)
qed

lemma slots_ok_consumer:
  assumes I: "spsc_inv M s" and t: "published t = published s" "reclaimed t = reclaimed s"
      "producer_pc t = producer_pc s" "committed t = committed s" "word0 t = word0 s" "word1 t = word1 s"
      "owners t = owners s" and c: "consumer_pc t \<in> {3, 4, 5} \<longleftrightarrow> consumer_pc s \<in> {3, 4, 5}"
  shows "slots_ok M t"
  using spsc_invD(3) [OF I] c unfolding slots_ok_def owner_of_def t by simp

lemma c_begin_clean:
  assumes I: "spsc_inv M s" and p: "consumer_pc s = 0"
  shows "clean_part M (c_begin s)"
proof -
  note sl = slots_ok_consumer [OF I]
  have 1: "spsc_inv M (s\<lparr>cached_p := x, consumer_pc := 1\<rparr>)" if "cached_p s \<le> x" "x \<le> published s" for x
    using I p that sl [of "s\<lparr>cached_p := x, consumer_pc := 1\<rparr>"]
    unfolding spsc_inv_def spsc_shape_def cursors_ok_def producer_ok_def consumer_ok_def Let_def by simp
  have 2: "spsc_inv M (s\<lparr>consumer_pc := 2\<rparr>)" if "reclaimed s < cached_p s"
    using I p that sl [of "s\<lparr>consumer_pc := 2\<rparr>"]
    unfolding spsc_inv_def spsc_shape_def cursors_ok_def producer_ok_def consumer_ok_def Let_def by simp
  show ?thesis unfolding c_begin_def using 1 2 by (auto intro!: clean_part_map)
qed

lemma c_covered_clean:
  assumes I: "spsc_inv M s" and p: "consumer_pc s = 1"
  shows "clean_part M (c_covered s)"
proof -
  note sl = slots_ok_consumer [OF I]
  have 1: "spsc_inv M (s\<lparr>consumer_pc := 0\<rparr>)"
    using I p sl [of "s\<lparr>consumer_pc := 0\<rparr>"]
    unfolding spsc_inv_def spsc_shape_def cursors_ok_def producer_ok_def consumer_ok_def Let_def by simp
  have 2: "spsc_inv M (s\<lparr>consumer_pc := 99\<rparr>)" if "producer_done s" "reclaimed s = published s"
    using I p that sl [of "s\<lparr>consumer_pc := 99\<rparr>"]
    unfolding spsc_inv_def spsc_shape_def cursors_ok_def producer_ok_def consumer_ok_def Let_def by simp
  have 3: "spsc_inv M (s\<lparr>consumer_pc := 2\<rparr>)" if "reclaimed s < cached_p s"
    using I p that sl [of "s\<lparr>consumer_pc := 2\<rparr>"]
    unfolding spsc_inv_def spsc_shape_def cursors_ok_def producer_ok_def consumer_ok_def Let_def by simp
  show ?thesis unfolding c_covered_def Let_def using 1 2 3 by simp
qed

lemma consumer_live:
  assumes "spsc_inv M s" "consumer_pc s \<in> {2, 3, 4, 5}"
  shows "reclaimed s < published s"
  using spsc_invD(5) [OF assms(1)] assms(2) unfolding consumer_ok_def Let_def by blast

lemma c_borrow_clean:
  assumes I: "spsc_inv M s" and p: "consumer_pc s = 2"
  shows "clean_part M (c_borrow s (reclaimed s mod sm_n M))"
proof -
  let ?c = "cell M (reclaimed s)" and ?t = "s\<lparr>consumer_pc := 3, owners := (owners s)[cell M (reclaimed s) := 3]\<rparr>"
  note sh = spsc_invD(1) [OF I]
  have lv: "reclaimed s < published s" using p by (intro consumer_live [OF I]) simp
  note rs = reclaimed_slot [OF I lv]
  have "slots_ok M ?t"
  proof (rule slots_okI)
    fix x assume "reclaimed ?t \<le> x" "x < reclaimed ?t + sm_n M"
    then have x: "reclaimed s \<le> x" "x < reclaimed s + sm_n M" by simp_all
    note d = slots_okD [OF I x] and e = rs(1) [OF x]
    show "owners ?t ! cell M x = owner_of ?t x"
      using d(1) e lv cell_less(1) [OF sh] p by (cases "x = reclaimed s") (simp_all add: owner_of_def)
    assume "x < published ?t"
    then show "word0 ?t ! cell M x = committed ?t ! cell M x \<and> word1 ?t ! cell M x = committed ?t ! cell M x"
      using d(2,3) by simp
  qed
  then have "spsc_inv M ?t"
    using I p lv
    unfolding spsc_inv_def spsc_shape_def cursors_ok_def producer_ok_def consumer_ok_def Let_def by simp
  then show ?thesis using rs(2) p by (simp add: c_borrow_def cell_at [OF sh])
qed

lemma c_reads_clean:
  assumes I: "spsc_inv M s"
  shows "consumer_pc s = 3 \<Longrightarrow> clean_part M (c_read0 s (reclaimed s mod sm_n M))"
    "consumer_pc s = 4 \<Longrightarrow> clean_part M (c_read1 s (reclaimed s mod sm_n M))"
proof -
  note sh = spsc_invD(1) [OF I] and sl = slots_ok_consumer [OF I]
  assume p: "consumer_pc s = 3"
  let ?t = "s\<lparr>consumer_pc := 4, read0 := word0 s ! cell M (reclaimed s)\<rparr>"
  have "spsc_inv M ?t"
    using I p sl [of ?t]
    unfolding spsc_inv_def spsc_shape_def cursors_ok_def producer_ok_def consumer_ok_def Let_def by simp
  then show "clean_part M (c_read0 s (reclaimed s mod sm_n M))"
    by (simp add: c_read0_def cell_at [OF sh])
next
  note sh = spsc_invD(1) [OF I] and sl = slots_ok_consumer [OF I]
  assume p: "consumer_pc s = 4"
  have lv: "reclaimed s < published s" using p by (intro consumer_live [OF I]) simp
  have "read0 s = word0 s ! cell M (reclaimed s)"
    using spsc_invD(5) [OF I] p by (simp add: consumer_ok_def Let_def)
  then have "read0 s = word1 s ! cell M (reclaimed s)" using reclaimed_slot(3,4) [OF I lv] by simp
  moreover have "spsc_inv M (s\<lparr>consumer_pc := 5\<rparr>)"
    using I p sl [of "s\<lparr>consumer_pc := 5\<rparr>"]
    unfolding spsc_inv_def spsc_shape_def cursors_ok_def producer_ok_def consumer_ok_def Let_def by simp
  ultimately show "clean_part M (c_read1 s (reclaimed s mod sm_n M))"
    by (simp add: c_read1_def cell_at [OF sh])
qed

lemma c_release_clean:
  assumes I: "spsc_inv M s" and p: "consumer_pc s = 5"
  shows "clean_part M (c_release s (reclaimed s mod sm_n M))"
proof -
  let ?t = "s\<lparr>reclaimed := reclaimed s + 1, consumer_pc := 6,
      owners := (owners s)[cell M (reclaimed s) := 0], read0 := 0\<rparr>"
  note sh = spsc_invD(1) [OF I]
  have lv: "reclaimed s < published s" using p by (intro consumer_live [OF I]) simp
  note rs = reclaimed_slot [OF I lv]
  have room: "producer_pc s \<in> {3, 4, 5} \<longrightarrow> published s < reclaimed s + sm_n M"
  proof
    assume "producer_pc s \<in> {3, 4, 5}"
    then have "published s - cached_c s < sm_n M"
      using spsc_invD(4) [OF I] unfolding producer_ok_def Let_def by blast
    then show "published s < reclaimed s + sm_n M" using spsc_invD(2) [OF I] by (simp add: cursors_ok_def)
  qed
  have pr: "published s \<le> reclaimed s + sm_n M" using spsc_invD(2) [OF I] by (simp add: cursors_ok_def)
  have "slots_ok M ?t"
  proof (rule slots_okI)
    fix x assume x: "reclaimed ?t \<le> x" "x < reclaimed ?t + sm_n M"
    show "owners ?t ! cell M x = owner_of ?t x"
    proof (cases "x = reclaimed s + sm_n M")
      case True
      then have "owner_of ?t x = 0" using room pr by (auto simp: owner_of_def)
      then show ?thesis using True cell_less(1) [OF sh] by (simp add: cell_lap)
    next
      case False
      then have "reclaimed s \<le> x" "x < reclaimed s + sm_n M" "x \<noteq> reclaimed s" using x by simp_all
      then show ?thesis using slots_okD(1) [OF I] rs(1) [of x] by (simp add: owner_of_def)
    qed
    assume "x < published ?t"
    then have "reclaimed s \<le> x" "x < reclaimed s + sm_n M" "x < published s" using x pr by simp_all
    then show "word0 ?t ! cell M x = committed ?t ! cell M x \<and> word1 ?t ! cell M x = committed ?t ! cell M x"
      using slots_okD(2,3) [OF I] by simp
  qed
  then have "spsc_inv M ?t"
    using I p lv
    unfolding spsc_inv_def spsc_shape_def cursors_ok_def producer_ok_def consumer_ok_def Let_def by simp
  then show ?thesis by (simp add: c_release_def cell_at [OF sh])
qed

theorem turns_clean:
  assumes M: "spsc_ok M" and I: "spsc_inv M s"
  shows "clean_part M (p_turn M s)" "clean_part M (c_turn M s)"
proof -
  have pp: "producer_pc s \<in> {0, 1, 2, 3, 4, 5, 6}" and pc: "consumer_pc s \<in> {0, 1, 2, 3, 4, 5, 6, 99}"
    using spsc_invD(4,5) [OF I] unfolding producer_ok_def consumer_ok_def Let_def by blast+
  show "clean_part M (p_turn M s)"
  proof (cases "producer_done s")
    case True
    then show ?thesis by (simp add: p_turn_def)
  next
    case False
    have "spsc_inv M (s\<lparr>producer_pc := 0\<rparr>)" if "producer_pc s = 6"
      using I that False unfolding spsc_inv_def spsc_shape_def cursors_ok_def slots_ok_def producer_ok_def
        consumer_ok_def owner_of_def Let_def by (simp, blast?)
    then show ?thesis
      using pp False p_begin_clean [OF I] p_capacity_clean [OF I] p_reserve_clean [OF I]
        p_write_clean [OF M I] unfolding p_turn_def Let_def
      by (elim insertE emptyE) simp_all
  qed
  have "spsc_inv M (s\<lparr>consumer_pc := 0\<rparr>)" if "consumer_pc s = 6"
    using I that slots_ok_consumer [OF I, of "s\<lparr>consumer_pc := 0\<rparr>"]
    unfolding spsc_inv_def spsc_shape_def cursors_ok_def producer_ok_def consumer_ok_def Let_def by simp
  then show "clean_part M (c_turn M s)"
    using pc c_begin_clean [OF I] c_covered_clean [OF I] c_borrow_clean [OF I] c_reads_clean [OF I]
      c_release_clean [OF I] unfolding c_turn_def Let_def
    by (elim insertE emptyE) simp_all
qed

section \<open>The contract\<close>

lemma spsc_successors_clean:
  assumes "spsc_ok M" "spsc_inv M s"
  shows "spsc_successors M s = fst (p_turn M s) @ fst (c_turn M s)"
    "e \<in> set (spsc_successors M s) \<Longrightarrow> \<exists>l t p. e = Yield l t p None \<and> spsc_inv M t"
proof -
  note cl = turns_clean [OF assms, unfolded clean_part_def]
  have all: "\<exists>l t p. e = Yield l t p None \<and> spsc_inv M t"
    if "e \<in> set (fst (p_turn M s) @ fst (c_turn M s))" for e
    using that cl by auto
  have nr: "\<forall>e \<in> set (fst (p_turn M s) @ fst (c_turn M s)). \<not> is_raise e" using all by fastforce
  show eq: "spsc_successors M s = fst (p_turn M s) @ fst (c_turn M s)"
    unfolding spsc_successors_def using cl cut_id [OF nr] by simp
  show "e \<in> set (spsc_successors M s) \<Longrightarrow> \<exists>l t p. e = Yield l t p None \<and> spsc_inv M t"
    unfolding eq by (rule all)
qed

lemma sub_nonempty:
  assumes "spsc_shape M s"
  shows "fst (p_reserve s (published s mod sm_n M)) \<noteq> []" "fst (c_borrow s (reclaimed s mod sm_n M)) \<noteq> []"
    "fst (c_read0 s (reclaimed s mod sm_n M)) \<noteq> []" "fst (c_read1 s (reclaimed s mod sm_n M)) \<noteq> []"
  by (simp_all add: p_reserve_def c_borrow_def c_read0_def c_read1_def cell_at [OF assms])

lemma spsc_live:
  assumes "spsc_ok M" "spsc_inv M s"
  shows "spsc_successors M s = [] \<longleftrightarrow> spsc_terminal s"
proof -
  note sh = spsc_invD(1) [OF assms(2)] and cu = spsc_invD(2) [OF assms(2)]
  have pp: "producer_pc s \<in> {0, 1, 2, 3, 4, 5, 6}" and pc: "consumer_pc s \<in> {0, 1, 2, 3, 4, 5, 6, 99}"
    using spsc_invD(4,5) [OF assms(2)] unfolding producer_ok_def consumer_ok_def Let_def by blast+
  have "fst (p_turn M s) = [] \<longleftrightarrow> producer_done s"
    using pp cu sub_nonempty(1) [OF sh] unfolding p_turn_def Let_def
    by (elim insertE emptyE) (auto simp: p_begin_def p_capacity_def p_write_def Let_def cursors_ok_def)
  moreover have "fst (c_turn M s) = [] \<longleftrightarrow> consumer_pc s = 99"
    using pc cu sub_nonempty(2-4) [OF sh] unfolding c_turn_def Let_def
    by (elim insertE emptyE) (auto simp: c_begin_def c_covered_def c_release_def Let_def cursors_ok_def)
  ultimately show ?thesis
    unfolding spsc_successors_clean(1) [OF assms] spsc_terminal_def by simp
qed

text \<open>Turns left before each side must make progress.\<close>

definition spsc_rank :: "spsc_model \<Rightarrow> spsc_state \<Rightarrow> nat" where
  "spsc_rank M s =
     (if producer_done s then 0
      else [5, 4, 3, 2, 1, 0, 0] ! nat (producer_pc s))
     + (if consumer_pc s = 99 then 0 else [5, 4, 3, 2, 1, 0, 0] ! nat (consumer_pc s))"

lemma spsc_rank_bound:
  assumes "spsc_inv M s"
  shows "spsc_rank M s \<le> 10"
proof -
  have pp: "producer_pc s \<in> {0, 1, 2, 3, 4, 5, 6}" and pc: "consumer_pc s \<in> {0, 1, 2, 3, 4, 5, 6, 99}"
    using spsc_invD(4,5) [OF assms] unfolding producer_ok_def consumer_ok_def Let_def by blast+
  have "(if producer_done s then 0 else [5, 4, 3, 2, 1, 0, 0::nat] ! nat (producer_pc s)) \<le> 5"
    using pp by (elim insertE emptyE) simp_all
  moreover have "(if consumer_pc s = 99 then 0 else [5, 4, 3, 2, 1, 0, 0::nat] ! nat (consumer_pc s)) \<le> 5"
    using pc by (elim insertE emptyE) simp_all
  ultimately show ?thesis unfolding spsc_rank_def by linarith
qed

lemma spsc_rank_decreases:
  assumes M: "spsc_ok M" and I: "spsc_inv M s" and e: "Yield l t False v \<in> set (spsc_successors M s)"
  shows "spsc_rank M t < spsc_rank M s"
proof -
  note sh = spsc_invD(1) [OF I]
  have pp: "producer_pc s \<in> {0, 1, 2, 3, 4, 5, 6}" and pc: "consumer_pc s \<in> {0, 1, 2, 3, 4, 5, 6, 99}"
    using spsc_invD(4,5) [OF I] unfolding producer_ok_def consumer_ok_def Let_def by blast+
  have v: "v = None" using spsc_successors_clean(2) [OF M I e] by auto
  have "Yield l t False v \<in> set (fst (p_turn M s)) \<or> Yield l t False v \<in> set (fst (c_turn M s))"
    using e unfolding spsc_successors_clean(1) [OF M I] by auto
  then show ?thesis
  proof
    assume "Yield l t False v \<in> set (fst (p_turn M s))"
    then show ?thesis
      using pp M v unfolding p_turn_def Let_def
      by (elim insertE emptyE)
        (auto simp: p_begin_def p_capacity_def p_reserve_def p_write_def Let_def spsc_rank_def
          cell_at [OF sh] spsc_ok_def split: if_splits)
  next
    assume "Yield l t False v \<in> set (fst (c_turn M s))"
    then show ?thesis
      using pc v unfolding c_turn_def Let_def
      by (elim insertE emptyE)
        (auto simp: c_begin_def c_covered_def c_borrow_def c_read0_def c_read1_def c_release_def Let_def
          spsc_rank_def cell_at [OF sh] split: if_splits)
  qed
qed

interpretation spsc: ranked_model spsc_ok spsc_checker spsc_inv spsc_rank
proof
  fix M s assume M: "spsc_ok M"
  show "spsc_inv M (ck_initial (spsc_checker M))"
    using spsc_initial_inv [OF M] by (simp add: spsc_checker_def)
  assume I: "spsc_inv M s"
  show "ck_invariant (spsc_checker M) s = Inr None" using spsc_checked [OF I] by (simp add: spsc_checker_def)
  show "ck_successors (spsc_checker M) s = [] \<longleftrightarrow> ck_terminal (spsc_checker M) s"
    using spsc_live [OF M I] by (simp add: spsc_checker_def)
  fix e assume "e \<in> set (ck_successors (spsc_checker M) s)"
  then show "\<exists>l t p. e = Yield l t p None \<and> spsc_inv M t"
    using spsc_successors_clean(2) [OF M I] by (simp add: spsc_checker_def)
next
  fix M s l t and v :: "violation option"
  assume "spsc_ok M" "spsc_inv M s" "Yield l t False v \<in> set (ck_successors (spsc_checker M) s)"
  then show "spsc_rank M t < spsc_rank M s"
    by (intro spsc_rank_decreases) (simp_all add: spsc_checker_def)
qed

end
