(* ===== verification/Spsc_Values.thy ===== *)
theory Spsc_Values
  imports Spsc_Safety
begin

text \<open>
  The values that cross the SPSC channel: what the consumer has read and verified so far is a prefix
  of what the producer has published, the rest are the live tickets, and the values increase.
\<close>

section \<open>Values through the channel\<close>

text \<open>The values of the live tickets, in ticket order.\<close>

definition channel :: "spsc_model \<Rightarrow> spsc_state \<Rightarrow> int list" where
  "channel M s = map (\<lambda>t. committed s ! cell M t) [reclaimed s..published s - 1]"

text \<open>What a transition sends (the committed value of the ticket it publishes) and delivers (the
  word the consumer has read and verified when it releases the ticket).\<close>

definition sent :: "spsc_model \<Rightarrow> spsc_state \<Rightarrow> spsc_state \<Rightarrow> int list" where
  "sent M s t = (if published t = published s + 1 then [committed t ! cell M (published s)] else [])"

definition delivered :: "spsc_state \<Rightarrow> spsc_state \<Rightarrow> int list" where
  "delivered s t = (if reclaimed t = reclaimed s + 1 then [read0 s] else [])"

inductive spsc_run :: "spsc_model \<Rightarrow> int list \<Rightarrow> int list \<Rightarrow> spsc_state \<Rightarrow> bool" for M where
  spsc_start: "spsc_run M [] [] (spsc_initial M)"
| spsc_move: "spsc_run M xs ys s \<Longrightarrow> Yield l t p v \<in> set (spsc_successors M s) \<Longrightarrow>
    spsc_run M (xs @ sent M s t) (ys @ delivered s t) t"

text \<open>A lower bound on the next value the producer can publish.\<close>

definition next_sent :: "spsc_model \<Rightarrow> spsc_state \<Rightarrow> int" where
  "next_sent M s = sm_m M - left s + (if producer_pc s \<in> {3, 4, 5} then 0 else 1)"

definition sent_ok :: "spsc_model \<Rightarrow> spsc_state \<Rightarrow> bool" where
  "sent_ok M s \<longleftrightarrow> left s \<le> sm_m M \<and> (producer_pc s \<in> {3, 4, 5} \<longrightarrow> left s + 1 \<le> sm_m M)"

lemma producer_move:
  assumes M: "spsc_ok M" and I: "spsc_inv M s" and W: "sent_ok M s"
    and e: "Yield l t p v \<in> set (fst (p_turn M s))"
  shows "reclaimed t = reclaimed s" "sent_ok M t"
    "published t = published s \<and> committed t = committed s \<and> next_sent M s \<le> next_sent M t
     \<or> published t = published s + 1 \<and> committed t = (committed s)[cell M (published s) := next_sent M s]
       \<and> next_sent M s < next_sent M t \<and> 1 \<le> next_sent M s \<and> published s < reclaimed s + sm_n M"
proof -
  note sh = spsc_invD(1) [OF I]
  have pp: "producer_pc s \<in> {0, 1, 2, 3, 4, 5, 6}"
    using spsc_invD(4) [OF I] unfolding producer_ok_def Let_def by blast
  have room: "published s < reclaimed s + sm_n M" if "producer_pc s = 5"
  proof -
    have "published s - cached_c s < sm_n M"
      using spsc_invD(4) [OF I] that by (simp add: producer_ok_def Let_def)
    then show ?thesis using spsc_invD(2) [OF I] by (simp add: cursors_ok_def)
  qed
  note defs = p_begin_def p_capacity_def p_reserve_def p_write_def p_publish_def Let_def
    cell_at [OF sh] sent_ok_def next_sent_def
  have "reclaimed t = reclaimed s \<and> sent_ok M t \<and>
    (published t = published s \<and> committed t = committed s \<and> next_sent M s \<le> next_sent M t
     \<or> published t = published s + 1 \<and> committed t = (committed s)[cell M (published s) := next_sent M s]
       \<and> next_sent M s < next_sent M t \<and> 1 \<le> next_sent M s \<and> published s < reclaimed s + sm_n M)"
    using pp M e W room unfolding p_turn_def Let_def
    by (elim insertE emptyE) (simp_all add: defs spsc_ok_def split: if_split_asm, auto)
  then show "reclaimed t = reclaimed s" "sent_ok M t"
    "published t = published s \<and> committed t = committed s \<and> next_sent M s \<le> next_sent M t
     \<or> published t = published s + 1 \<and> committed t = (committed s)[cell M (published s) := next_sent M s]
       \<and> next_sent M s < next_sent M t \<and> 1 \<le> next_sent M s \<and> published s < reclaimed s + sm_n M"
    by blast+
qed

lemma consumer_move:
  assumes I: "spsc_inv M s" and e: "Yield l t p v \<in> set (fst (c_turn M s))"
  shows "published t = published s" "committed t = committed s" "left t = left s"
    "producer_pc t = producer_pc s"
    "reclaimed t = reclaimed s \<or> reclaimed t = reclaimed s + 1 \<and> reclaimed s < published s
       \<and> read0 s = committed s ! cell M (reclaimed s)"
proof -
  note sh = spsc_invD(1) [OF I]
  have pc: "consumer_pc s \<in> {0, 1, 2, 3, 4, 5, 6, 99}"
    using spsc_invD(5) [OF I] unfolding consumer_ok_def Let_def by blast
  have rd: "reclaimed s < published s \<and> read0 s = committed s ! cell M (reclaimed s)" if p: "consumer_pc s = 5"
  proof -
    have lv: "reclaimed s < published s" using p by (intro consumer_live [OF I]) simp
    have "read0 s = word0 s ! cell M (reclaimed s)"
      using spsc_invD(5) [OF I] p by (simp add: consumer_ok_def Let_def)
    then show ?thesis using lv reclaimed_slot(3) [OF I lv] by simp
  qed
  note defs = c_begin_def c_covered_def c_borrow_def c_read0_def c_read1_def c_release_def Let_def
    cell_at [OF sh]
  have "published t = published s \<and> committed t = committed s \<and> left t = left s
    \<and> producer_pc t = producer_pc s \<and>
    (reclaimed t = reclaimed s \<or> reclaimed t = reclaimed s + 1 \<and> reclaimed s < published s
       \<and> read0 s = committed s ! cell M (reclaimed s))"
    using pc e rd unfolding c_turn_def Let_def
    by (elim insertE emptyE) (auto simp: defs split: if_splits)
  then show "published t = published s" "committed t = committed s" "left t = left s"
    "producer_pc t = producer_pc s"
    "reclaimed t = reclaimed s \<or> reclaimed t = reclaimed s + 1 \<and> reclaimed s < published s
       \<and> read0 s = committed s ! cell M (reclaimed s)"
    by blast+
qed

lemma channel_publish:
  assumes I: "spsc_inv M s" and room: "published s < reclaimed s + sm_n M"
    and t: "published t = published s + 1" "reclaimed t = reclaimed s"
      "committed t = (committed s)[cell M (published s) := v]"
  shows "channel M t = channel M s @ [v]" "committed t ! cell M (published s) = v"
proof -
  have n: "2 \<le> sm_n M" using spsc_invD(1) [OF I] by (simp add: spsc_shape_def)
  have le: "reclaimed s \<le> published s" using spsc_invD(2) [OF I] by (simp add: cursors_ok_def)
  have ne: "cell M (published s) \<noteq> cell M x" if "reclaimed s \<le> x" "x < published s" for x
    using that room cell_eq [OF n, of "published s" x] by auto
  have up: "[reclaimed s..published s] = [reclaimed s..published s - 1] @ [published s]"
    using le upto_rec2 [of "reclaimed s" "published s"] by simp
  show v: "committed t ! cell M (published s) = v"
    using cell_less(5) [OF spsc_invD(1) [OF I]] by (simp add: t)
  have "map (\<lambda>x. committed t ! cell M x) [reclaimed s..published s - 1] = channel M s"
    unfolding channel_def using ne by (intro map_cong) (auto simp: t)
  then show "channel M t = channel M s @ [v]" using v by (simp add: channel_def [of M t] t(1,2) up)
qed

lemma channel_release:
  assumes "reclaimed s < published s" "reclaimed t = reclaimed s + 1" "published t = published s"
    "committed t = committed s"
  shows "channel M s = committed s ! cell M (reclaimed s) # channel M t"
  using assms by (simp add: channel_def upto_rec1 [of "reclaimed s"])

lemma run_values:
  assumes r: "spsc_run M xs ys s" and M: "spsc_ok M"
  shows "spsc_inv M s" "xs = ys @ channel M s" "sorted_wrt (<) xs" "\<forall>x \<in> set xs. 1 \<le> x \<and> x < next_sent M s"
    "sent_ok M s"
proof -
  have "spsc_inv M s \<and> xs = ys @ channel M s \<and> sorted_wrt (<) xs
    \<and> (\<forall>x \<in> set xs. 1 \<le> x \<and> x < next_sent M s) \<and> sent_ok M s"
    using r
  proof (induction rule: spsc_run.induct)
    case spsc_start
    then show ?case
      using spsc_initial_inv [OF M] by (simp add: channel_def spsc_initial_def Let_def sent_ok_def)
  next
    case (spsc_move xs ys s l t p v)
    then have I: "spsc_inv M s" and eq: "xs = ys @ channel M s" and so: "sorted_wrt (<) xs"
      and nx: "\<And>x. x \<in> set xs \<Longrightarrow> 1 \<le> x \<and> x < next_sent M s" and W: "sent_ok M s" by auto
    have It: "spsc_inv M t" using spsc_successors_clean(2) [OF M I spsc_move.hyps(2)] by auto
    have "Yield l t p v \<in> set (fst (p_turn M s)) \<or> Yield l t p v \<in> set (fst (c_turn M s))"
      using spsc_move.hyps(2) unfolding spsc_successors_clean(1) [OF M I] by auto
    then show ?case
    proof
      assume "Yield l t p v \<in> set (fst (p_turn M s))"
      note pm = producer_move [OF M I W this]
      have d: "delivered s t = []" using pm(1) by (simp add: delivered_def)
      from pm(3) show ?thesis
      proof
        assume a: "published t = published s \<and> committed t = committed s \<and> next_sent M s \<le> next_sent M t"
        then have "sent M s t = []" "channel M t = channel M s"
          using pm(1) by (simp_all add: sent_def channel_def)
        then show ?thesis using It eq so nx d a pm(2) by force
      next
        assume a: "published t = published s + 1 \<and> committed t = (committed s)[cell M (published s) := next_sent M s]
          \<and> next_sent M s < next_sent M t \<and> 1 \<le> next_sent M s \<and> published s < reclaimed s + sm_n M"
        then have b: "published s < reclaimed s + sm_n M" "published t = published s + 1"
          "committed t = (committed s)[cell M (published s) := next_sent M s]" by auto
        note ch = channel_publish [OF I b(1,2) pm(1) b(3)]
        then have "sent M s t = [next_sent M s]" using a by (simp add: sent_def)
        then show ?thesis using It eq so nx d a pm(2) ch(1) by (force simp: sorted_wrt_append)
      qed
    next
      assume "Yield l t p v \<in> set (fst (c_turn M s))"
      note cm = consumer_move [OF I this]
      have s0: "sent M s t = []" using cm(1) by (simp add: sent_def)
      have ns: "next_sent M t = next_sent M s" "sent_ok M t"
        using cm(3,4) W by (simp_all add: next_sent_def sent_ok_def)
      have "xs = (ys @ delivered s t) @ channel M t"
        using cm(5)
      proof
        assume "reclaimed t = reclaimed s"
        then show ?thesis using eq cm(1,2) by (simp add: delivered_def channel_def)
      next
        assume a: "reclaimed t = reclaimed s + 1 \<and> reclaimed s < published s
          \<and> read0 s = committed s ! cell M (reclaimed s)"
        then show ?thesis using eq channel_release [of s t M] cm(1,2) by (simp add: delivered_def)
      qed
      then show ?thesis using It so nx s0 ns by simp
    qed
  qed
  then show "spsc_inv M s" "xs = ys @ channel M s" "sorted_wrt (<) xs"
    "\<forall>x \<in> set xs. 1 \<le> x \<and> x < next_sent M s" "sent_ok M s" by blast+
qed

text \<open>A schedule picks the successor to follow at each state; executable, for concrete runs.\<close>

fun spsc_schedule ::
    "spsc_model \<Rightarrow> nat list \<Rightarrow> int list \<Rightarrow> int list \<Rightarrow> spsc_state \<Rightarrow> (int list \<times> int list \<times> spsc_state) option"
  where
  "spsc_schedule M [] xs ys s = Some (xs, ys, s)"
| "spsc_schedule M (k # ks) xs ys s =
     (let es = spsc_successors M s in
      if k < length es then
        (case es ! k of
          Yield l t p v \<Rightarrow> spsc_schedule M ks (xs @ sent M s t) (ys @ delivered s t) t
        | Raise x \<Rightarrow> None)
      else None)"

lemma spsc_schedule_runs:
  "spsc_schedule M ks xs ys s = Some (xs', ys', t) \<Longrightarrow> spsc_run M xs ys s \<Longrightarrow> spsc_run M xs' ys' t"
proof (induction ks arbitrary: xs ys s)
  case (Cons k ks)
  then obtain l u p v where "spsc_successors M s ! k = Yield l u p v" "k < length (spsc_successors M s)"
    by (auto simp: Let_def split: if_splits event.splits)
  then show ?case using Cons spsc_move [OF Cons.prems(2), of l u p v]
    by (auto simp: Let_def dest: nth_mem)
qed simp

end
