(* ===== verification/Spsc_Claims.thy ===== *)
theory Spsc_Claims
  imports Spsc_Values
begin

text \<open>
  The properties of the SPSC model, stated for the configurations the constructor accepts.
\<close>

lemma spsc_admissible:
  assumes "spsc_model_init n p c m ''none'' ab = Inr M"
  shows "spsc_ok M" "sm_n M = n" "sm_m M = m"
  using assms by (auto simp: spsc_model_init_def spsc_ok_def split: if_splits)

abbreviation spsc_ex :: spsc_model where
  "spsc_ex \<equiv> \<lparr>sm_n = 2, sm_m = 4, sm_mutation = ''none'', sm_abort = True\<rparr>"

lemma spsc_example: "spsc_model_init 2 1 1 4 ''none'' True = Inr spsc_ex"
  by (simp add: spsc_model_init_def)

lemma spsc_ex_reach: "reach (spsc_checker spsc_ex) (spsc_initial spsc_ex)"
  using reach.start [of "spsc_checker spsc_ex"] by (simp add: spsc_checker_def)

lemma spsc_checker_simps [simp]:
  "ck_initial (spsc_checker M) = spsc_initial M" "ck_invariant (spsc_checker M) = spsc_invariant M"
  "ck_terminal (spsc_checker M) = spsc_terminal" "ck_successors (spsc_checker M) = spsc_successors M"
  by (simp_all add: spsc_checker_def)

text \<open>C8: In every reachable state of an accepted SPSC configuration without mutation the checked
  invariant holds (capacity, no snapshot from the future, live tickets committed and untorn), and no
  transition raises or reports a violation: no live lease is overwritten, nothing uncommitted is
  borrowed and no torn payload is read, whatever stale snapshots the two sides work with.\<close>

theorem spsc_safe_reachable:
  assumes "spsc_model_init n p c m ''none'' ab = Inr M" "reach (spsc_checker M) s"
  shows "spsc_invariant M s = Inr None
    \<and> (\<forall>e \<in> set (spsc_successors M s). \<exists>l t q. e = Yield l t q None)"
  using spsc.never_violates(1) [OF spsc_admissible(1) [OF assms(1)] assms(2)]
    spsc.I_event [OF spsc_admissible(1) [OF assms(1)] spsc.reach_I [OF assms(2) spsc_admissible(1) [OF assms(1)]]]
  by fastforce

theorem spsc_safe_reachable_witness:
  "spsc_invariant spsc_ex (spsc_initial spsc_ex) = Inr None
    \<and> Raise IndexError \<notin> set (spsc_successors spsc_ex (spsc_initial spsc_ex))"
  using spsc_safe_reachable [OF spsc_example spsc_ex_reach] by fastforce

text \<open>C9: Progress: a reachable SPSC state has no successor exactly when the producer is done and the
  consumer has stopped, and at most ten consecutive steps make no progress.\<close>

theorem spsc_progress:
  assumes "spsc_model_init n p c m ''none'' ab = Inr M" "reach (spsc_checker M) s"
  shows "(spsc_successors M s = [] \<longleftrightarrow> producer_done s \<and> consumer_pc s = 99)
    \<and> (\<forall>k t. idle_path (spsc_checker M) s k t \<longrightarrow> k \<le> 10 \<and> (s = t \<longrightarrow> k = 0))"
proof -
  note A = spsc_admissible(1) [OF assms(1)]
  have "spsc_rank M s \<le> 10" using spsc_rank_bound spsc.reach_I [OF assms(2) A] by blast
  then show ?thesis
    using spsc.no_deadlock [OF A assms(2)] spsc.idle_bound [OF A assms(2)] spsc.no_idle_cycle [OF A assms(2)]
    by (auto simp: spsc_terminal_def intro: order_trans)
qed

theorem spsc_progress_witness:
  "spsc_successors spsc_ex (spsc_initial spsc_ex) \<noteq> []
    \<and> (\<exists>t. idle_path (spsc_checker spsc_ex) (spsc_initial spsc_ex) 1 t \<and> spsc_initial spsc_ex \<noteq> t)"
proof -
  have "\<exists>t. Yield ''P: cached reclamation covers reserve'' t False None \<in> set (spsc_successors spsc_ex (spsc_initial spsc_ex))"
    by (simp add: spsc_successors_def spsc_initial_def Let_def p_turn_def p_begin_def c_turn_def c_begin_def upto.simps)
  then obtain t where "Yield ''P: cached reclamation covers reserve'' t False None \<in> set (ck_successors (spsc_checker spsc_ex) (spsc_initial spsc_ex))"
    by auto
  then have t: "idle_path (spsc_checker spsc_ex) (spsc_initial spsc_ex) (Suc 0) t"
    by (rule idle_step [OF idle_refl step.step])
  have "\<not> producer_done (spsc_initial spsc_ex)" by (simp add: spsc_initial_def Let_def)
  with t spsc_progress [OF spsc_example spsc_ex_reach] show ?thesis by auto
qed

text \<open>C10: Values: at any point of an SPSC run the values delivered so far, followed by the committed
  values of the live tickets (at most N of them), are the values published so far; published values
  increase, so nothing is lost, duplicated, reordered or torn.\<close>

theorem spsc_fifo_values:
  assumes "spsc_model_init n p c m ''none'' ab = Inr M" "spsc_run M xs ys s"
  shows "xs = ys @ channel M s \<and> int (length (channel M s)) \<le> n \<and> sorted_wrt (<) xs
    \<and> (\<forall>x \<in> set xs. 1 \<le> x \<and> x \<le> m)"
proof -
  note A = spsc_admissible [OF assms(1)] and R = run_values [OF assms(2) spsc_admissible(1) [OF assms(1)]]
  have c: "cursors_ok M s" by (rule spsc_invD(2) [OF R(1)])
  have "int (length (channel M s)) \<le> n" using c A(2) by (simp add: channel_def cursors_ok_def)
  moreover have "next_sent M s \<le> m + 1" using c A(3) by (simp add: next_sent_def cursors_ok_def)
  ultimately show ?thesis using R(2,3,4) by fastforce
qed

theorem spsc_fifo_values_witness:
  "\<exists>s. spsc_run spsc_ex [1, 2] [1] s \<and> channel spsc_ex s = [2]"
proof -
  have "map_option (\<lambda>(xs, ys, s). (xs, ys))
      (spsc_schedule spsc_ex [0, 0, 1, 1, 1, 0, 0, 0, 1, 1, 1, 3, 1, 1, 1, 1, 1] [] [] (spsc_initial spsc_ex))
      = Some ([1, 2], [1])"
    by code_simp
  then obtain s where "spsc_schedule spsc_ex [0, 0, 1, 1, 1, 0, 0, 0, 1, 1, 1, 3, 1, 1, 1, 1, 1] [] []
      (spsc_initial spsc_ex) = Some ([1, 2], [1], s)"
    by (auto simp del: spsc_schedule.simps)
  from spsc_schedule_runs [OF this spsc_start] have r: "spsc_run spsc_ex [1, 2] [1] s" .
  from spsc_fifo_values [OF spsc_example r] r show ?thesis by auto
qed

end
