(* ===== verification/Explore.thy ===== *)
theory Explore
  imports Transition
begin

text \<open>
  The exact-state explorer, \<open>formal/explore.py\<close>: the breadth-first search with its budgets and
  counterexamples, and the elimination that decides whether a cycle without progress exists. The
  model is a \<open>checker\<close>; the wall clock is the argument \<open>late\<close>, which tells for each iteration whether
  the time budget has run out; \<open>ahead\<close> is the test on \<open>heads\<close> and \<open>tails\<close> of a state that has them.
\<close>

section \<open>The search\<close>

datatype status = PASS_WITHIN_SCOPE | INCOMPLETE | FAIL_WITNESS | FAIL_DEADLOCK | FAIL_PROGRESS_CYCLE

text \<open>A counterexample; the property is \<open>None\<close> for \<open>NONTERMINAL_DEADLOCK\<close>.\<close>

record ('s, 'v) witness =
  wt_property :: "'v option"
  wt_initial :: 's
  wt_steps :: "(string \<times> 's) list"

text \<open>The local variables of \<open>run\<close>.\<close>

record ('s, 'v) search =
  sr_seen :: "'s \<Rightarrow> nat option"
  sr_states :: "'s list"
  sr_parents :: "(int \<times> string) list"
  sr_edges :: "(nat \<times> bool) list list"
  sr_bfs :: "nat list"
  sr_transitions :: nat
  sr_terminals :: nat
  sr_max_depth :: nat
  sr_depths :: "nat list"
  sr_status :: status
  sr_reason :: "string option"
  sr_witness :: "('s, 'v) witness option"
  sr_lag :: bool
  sr_deadends :: nat

definition search_start :: "('s, 'v) checker \<Rightarrow> ('s, 'v) search" where
  "search_start C =
     \<lparr>sr_seen = [ck_initial C \<mapsto> 0], sr_states = [ck_initial C], sr_parents = [(-1, '''')],
      sr_edges = [[]], sr_bfs = [0], sr_transitions = 0, sr_terminals = 0, sr_max_depth = 0,
      sr_depths = [0], sr_status = PASS_WITHIN_SCOPE, sr_reason = None, sr_witness = None,
      sr_lag = False, sr_deadends = 0\<rparr>"

text \<open>
  The walk along \<open>parents\<close> that reconstructs the shortest prefix, already in forward order. The
  fuel is the number of states: a parent has a smaller number than its child.
\<close>

fun walk_back :: "(int \<times> string) list \<Rightarrow> 's list \<Rightarrow> nat \<Rightarrow> nat \<Rightarrow> (string \<times> 's) list \<Rightarrow> (string \<times> 's) list"
where
  "walk_back parents states 0 cur path = path"
| "walk_back parents states (Suc fuel) cur path =
     (let (parent, why) = parents ! cur in
      if parent \<ge> 0 then walk_back parents states fuel (nat parent) ((why, states ! cur) # path)
      else path)"

definition prefix_to :: "('s, 'v) search \<Rightarrow> nat \<Rightarrow> (string \<times> 's) list" where
  "prefix_to sr sid = walk_back (sr_parents sr) (sr_states sr) (length (sr_states sr)) sid []"

definition add_state :: "nat \<Rightarrow> string \<Rightarrow> 's \<Rightarrow> ('s, 'v) search \<Rightarrow> ('s, 'v) search" where
  "add_state sid label t sr =
     (let tid = length (sr_states sr); d = sr_depths sr ! sid + 1 in
      sr\<lparr>sr_seen := (sr_seen sr)(t \<mapsto> tid), sr_states := sr_states sr @ [t],
         sr_parents := sr_parents sr @ [(int sid, label)], sr_edges := sr_edges sr @ [[]],
         sr_depths := sr_depths sr @ [d], sr_max_depth := max (sr_max_depth sr) d,
         sr_bfs := sr_bfs sr @ [tid]\<rparr>)"

definition add_edge :: "nat \<Rightarrow> nat \<Rightarrow> bool \<Rightarrow> ('s, 'v) search \<Rightarrow> ('s, 'v) search" where
  "add_edge sid tid progress sr =
     sr\<lparr>sr_edges := (sr_edges sr)[sid := sr_edges sr ! sid @ [(tid, progress)]]\<rparr>"

text \<open>The loop over the successors of state \<open>sid\<close>; the first result is \<open>any_successor\<close>.\<close>

fun expand ::
    "('s, 'v) checker \<Rightarrow> nat \<Rightarrow> nat \<Rightarrow> ('s, 'v) event list \<Rightarrow> bool \<Rightarrow> ('s, 'v) search \<Rightarrow>
     exn + bool \<times> ('s, 'v) search" where
  "expand C max_states sid [] any_successor sr = Inr (any_successor, sr)"
| "expand C max_states sid (Raise x # es) any_successor sr = Inl x"
| "expand C max_states sid (Yield label t progress violation # es) any_successor sr =
     (let sr = sr\<lparr>sr_transitions := sr_transitions sr + 1\<rparr> in
      case (case violation of Some v \<Rightarrow> Inr (Some v) | None \<Rightarrow> ck_invariant C t) of
        Inl x \<Rightarrow> Inl x
      | Inr (Some v) \<Rightarrow>
          Inr (True, sr\<lparr>sr_status := FAIL_WITNESS,
            sr_witness := Some \<lparr>wt_property = Some v, wt_initial = ck_initial C,
              wt_steps = prefix_to sr sid @ [(label, t)]\<rparr>\<rparr>)
      | Inr None \<Rightarrow>
          (case sr_seen sr t of
             None \<Rightarrow>
               if length (sr_states sr) \<ge> max_states
               then Inr (True, sr\<lparr>sr_status := INCOMPLETE, sr_reason := Some ''state_budget''\<rparr>)
               else expand C max_states sid es True
                      (add_edge sid (length (sr_states sr)) progress (add_state sid label t sr))
           | Some tid \<Rightarrow> expand C max_states sid es True (add_edge sid tid progress sr)))"

text \<open>A search only grows: every new state is queued, and the state budget is respected.\<close>

lemma expand_grows:
  "expand C mx sid es any sr = Inr (any', sr') \<Longrightarrow>
   \<exists>k. length (sr_states sr') = length (sr_states sr) + k
     \<and> length (sr_bfs sr') = length (sr_bfs sr) + k
     \<and> (k \<noteq> 0 \<longrightarrow> length (sr_states sr') \<le> mx)"
proof (induction C mx sid es any sr rule: expand.induct)
  case (3 C mx sid label t progress violation es any sr)
  define sr1 where "sr1 = sr\<lparr>sr_transitions := sr_transitions sr + 1\<rparr>"
  define v where "v = (case violation of Some v \<Rightarrow> Inr (Some v) | None \<Rightarrow> ck_invariant C t)"
  note IH = "3.IH" [OF sr1_def, folded v_def]
  note eq = "3.prems" [unfolded expand.simps, folded sr1_def v_def, unfolded Let_def]
  have len: "length (sr_states sr1) = length (sr_states sr)" "length (sr_bfs sr1) = length (sr_bfs sr)"
    by (simp_all add: sr1_def)
  show ?case
  proof (cases v)
    case (Inr w)
    show ?thesis
    proof (cases w)
      case None
      with Inr have v: "v = Inr None" by simp
      show ?thesis
      proof (cases "sr_seen sr1 t")
        case None
        show ?thesis
        proof (cases "length (sr_states sr1) \<ge> mx")
          case True
          then show ?thesis using eq v None len by (auto intro: exI [of _ 0])
        next
          case False
          let ?sr2 = "add_edge sid (length (sr_states sr1)) progress (add_state sid label t sr1)"
          have "expand C mx sid es True ?sr2 = Inr (any', sr')" using eq v None False by simp
          from IH(1) [OF v _ None False this]
          obtain k where "length (sr_states sr') = length (sr_states ?sr2) + k"
            "length (sr_bfs sr') = length (sr_bfs ?sr2) + k" "k \<noteq> 0 \<longrightarrow> length (sr_states sr') \<le> mx" by auto
          then show ?thesis using len False
            by (intro exI [of _ "Suc k"]) (auto simp: add_edge_def add_state_def Let_def)
        qed
      next
        case (Some tid)
        let ?sr2 = "add_edge sid tid progress sr1"
        have "expand C mx sid es True ?sr2 = Inr (any', sr')" using eq v Some by simp
        from IH(2) [OF v _ Some this] show ?thesis using len by (simp add: add_edge_def)
      qed
    qed (use eq Inr len in \<open>auto intro: exI [of _ 0]\<close>)
  qed (use eq in simp)
qed (auto intro: exI [of _ 0])

text \<open>The main loop; \<open>i\<close> counts its iterations.\<close>

function bfs_loop ::
    "('s, 'v) checker \<Rightarrow> ('s \<Rightarrow> bool) \<Rightarrow> nat \<Rightarrow> (nat \<Rightarrow> bool) \<Rightarrow> nat \<Rightarrow> ('s, 'v) search \<Rightarrow>
     exn + ('s, 'v) search" where
  "bfs_loop C ahead max_states late i sr =
     (case sr_bfs sr of
        [] \<Rightarrow> Inr sr
      | sid # rest \<Rightarrow>
          if late i then Inr (sr\<lparr>sr_status := INCOMPLETE, sr_reason := Some ''wall_budget''\<rparr>)
          else
            let s = sr_states sr ! sid; terminal = ck_terminal C s;
                sr1 = sr\<lparr>sr_bfs := rest,
                         sr_terminals := sr_terminals sr + (if terminal then 1 else 0),
                         sr_lag := sr_lag sr \<or> ahead s\<rparr> in
            (case expand C max_states sid (ck_successors C s) False sr1 of
               Inl x \<Rightarrow> Inl x
             | Inr (any_successor, sr2) \<Rightarrow>
                 if sr_status sr2 \<noteq> PASS_WITHIN_SCOPE then Inr sr2
                 else if \<not> any_successor \<and> \<not> terminal
                 then Inr (sr2\<lparr>sr_deadends := sr_deadends sr2 + 1, sr_status := FAIL_DEADLOCK,
                        sr_witness := Some \<lparr>wt_property = None, wt_initial = ck_initial C,
                          wt_steps = prefix_to sr2 sid\<rparr>\<rparr>)
                 else bfs_loop C ahead max_states late (Suc i) sr2))"
  by pat_completeness auto

termination
proof (relation "measure (\<lambda>(C, ahead, mx, late, i, sr). 2 * (mx - length (sr_states sr)) + length (sr_bfs sr))")
  fix C :: "('s, 'v) checker" and ahead mx late i and sr sr1 sr2 :: "('s, 'v) search"
    and sid rest s terminal y any
  assume a: "sr_bfs sr = sid # rest" and s1: "sr1 = sr\<lparr>sr_bfs := rest,
      sr_terminals := sr_terminals sr + (if terminal then 1 else 0), sr_lag := sr_lag sr \<or> ahead s\<rparr>"
    and e: "expand C mx sid (ck_successors C s) False sr1 = Inr y" "(any, sr2) = y"
  from expand_grows [of C mx sid "ck_successors C s" False sr1 any sr2] e
  obtain k where "length (sr_states sr2) = length (sr_states sr1) + k"
    "length (sr_bfs sr2) = length (sr_bfs sr1) + k" "k \<noteq> 0 \<longrightarrow> length (sr_states sr2) \<le> mx" by auto
  moreover have "length (sr_states sr1) = length (sr_states sr)"
    "length (sr_bfs sr) = Suc (length (sr_bfs sr1))" using a by (simp_all add: s1)
  ultimately show "((C, ahead, mx, late, Suc i, sr2), C, ahead, mx, late, i, sr)
    \<in> measure (\<lambda>(C, ahead, mx, late, i, sr). 2 * (mx - length (sr_states sr)) + length (sr_bfs sr))"
    by (cases "k = 0") auto
qed simp

declare bfs_loop.simps [simp del]

section \<open>Cycles without progress\<close>

text \<open>The indegree of every state in the graph of edges without progress.\<close>

fun count_edges :: "(nat \<times> bool) list \<Rightarrow> int list \<Rightarrow> exn + int list" where
  "count_edges [] ind = Inr ind"
| "count_edges ((target, progress) # es) ind =
     (if \<not> progress
      then (if target < length ind then count_edges es (ind[target := ind ! target + 1])
            else Inl IndexError)
      else count_edges es ind)"

fun count_all :: "(nat \<times> bool) list list \<Rightarrow> int list \<Rightarrow> exn + int list" where
  "count_all [] ind = Inr ind"
| "count_all (es # edges) ind =
     (case count_edges es ind of Inl x \<Rightarrow> Inl x | Inr ind' \<Rightarrow> count_all edges ind')"

text \<open>The loop over the edges of an eliminated state.\<close>

fun relax :: "(nat \<times> bool) list \<Rightarrow> int list \<Rightarrow> nat list \<Rightarrow> exn + int list \<times> nat list" where
  "relax [] ind ready = Inr (ind, ready)"
| "relax ((j, p) # es) ind ready =
     (if \<not> p
      then (if j < length ind
            then let ind' = ind[j := ind ! j - 1] in
                 relax es ind' (if ind' ! j = 0 then ready @ [j] else ready)
            else Inl IndexError)
      else relax es ind ready)"

definition positive :: "int list \<Rightarrow> nat" where
  "positive ind = length (filter (\<lambda>d. d > 0) ind)"

lemma positive_decrement:
  assumes "j < length ind"
  shows "positive (ind[j := ind ! j - 1]) + (if ind ! j = 1 then 1 else 0) = positive ind"
proof -
  have "positive ind = positive (take j ind) + (if ind ! j > 0 then 1 else 0) + positive (drop (Suc j) ind)"
    using assms by (subst id_take_nth_drop [of j ind]) (auto simp: positive_def)
  moreover have "positive (ind[j := ind ! j - 1]) = positive (take j ind)
    + (if ind ! j - 1 > 0 then 1 else 0) + positive (drop (Suc j) ind)"
    using assms by (subst upd_conv_take_nth_drop) (auto simp: positive_def)
  ultimately show ?thesis by auto
qed

text \<open>A state is queued when its indegree drops from one to zero, which happens once.\<close>

lemma relax_measure:
  "relax es ind ready = Inr (ind', ready') \<Longrightarrow>
   length ready' + positive ind' \<le> length ready + positive ind \<and> length ind' = length ind"
proof (induction es ind ready rule: relax.induct)
  case (2 j p es ind ready)
  show ?case
  proof (cases p)
    case False
    let ?ind = "ind[j := ind ! j - 1]"
    have j: "j < length ind" using "2.prems" False by (auto split: if_splits)
    have "relax es ?ind (if ?ind ! j = 0 then ready @ [j] else ready) = Inr (ind', ready')"
      using "2.prems" False j by (simp add: Let_def)
    from "2.IH"(1) [OF _ j refl this] False
    have "length ready' + positive ind'
      \<le> length (if ?ind ! j = 0 then ready @ [j] else ready) + positive ?ind \<and> length ind' = length ind"
      by simp
    then show ?thesis using positive_decrement [OF j] j by (auto split: if_splits)
  qed (use 2 in simp)
qed simp

function kahn :: "(nat \<times> bool) list list \<Rightarrow> int list \<Rightarrow> nat list \<Rightarrow> nat \<Rightarrow> exn + nat" where
  "kahn edges ind [] removed = Inr removed"
| "kahn edges ind (i # ready) removed =
     (case relax (edges ! i) ind ready of
        Inl x \<Rightarrow> Inl x
      | Inr (ind', ready') \<Rightarrow> kahn edges ind' ready' (removed + 1))"
  by pat_completeness auto

termination
proof (relation "measure (\<lambda>(edges, ind, ready, removed). length ready + positive ind)")
  fix edges ind i ready and removed :: nat and y ind' ready'
  assume "relax (edges ! i) ind ready = Inr y" "(ind', ready') = y"
  then have "relax (edges ! i) ind ready = Inr (ind', ready')" by simp
  from relax_measure [OF this]
  show "((edges, ind', ready', removed + 1), edges, ind, i # ready, removed)
    \<in> measure (\<lambda>(edges, ind, ready, removed). length ready + positive ind)" by simp
qed simp

definition residue :: "(nat \<times> bool) list list \<Rightarrow> exn + int" where
  "residue edges =
     (case count_all edges (replicate (length edges) 0) of
        Inl x \<Rightarrow> Inl x
      | Inr ind \<Rightarrow>
          (case kahn edges ind (filter (\<lambda>i. ind ! i = 0) [0..<length ind]) 0 of
             Inl x \<Rightarrow> Inl x
           | Inr removed \<Rightarrow> Inr (int (length edges) - int removed)))"

section \<open>The report\<close>

record ('s, 'v) report =
  rp_status :: status
  rp_cutoff :: "string option"
  rp_states :: nat
  rp_transitions :: nat
  rp_terminals :: nat
  rp_max_shortest_depth :: nat
  rp_frontier_remaining :: nat
  rp_exhaustive :: bool
  rp_nonterminal_deadends :: nat
  rp_head_ahead :: bool
  rp_residue :: "int option"
  rp_witness :: "('s, 'v) witness option"

definition report_of :: "status \<Rightarrow> int option \<Rightarrow> ('s, 'v) search \<Rightarrow> ('s, 'v) report" where
  "report_of status res sr =
     \<lparr>rp_status = status, rp_cutoff = sr_reason sr, rp_states = length (sr_states sr),
      rp_transitions = sr_transitions sr, rp_terminals = sr_terminals sr,
      rp_max_shortest_depth = sr_max_depth sr, rp_frontier_remaining = length (sr_bfs sr),
      rp_exhaustive = (status = PASS_WITHIN_SCOPE), rp_nonterminal_deadends = sr_deadends sr,
      rp_head_ahead = sr_lag sr, rp_residue = res, rp_witness = sr_witness sr\<rparr>"

definition run ::
    "('s, 'v) checker \<Rightarrow> ('s \<Rightarrow> bool) \<Rightarrow> nat \<Rightarrow> (nat \<Rightarrow> bool) \<Rightarrow> exn + ('s, 'v) report" where
  "run C ahead max_states late =
     (case bfs_loop C ahead max_states late 0 (search_start C) of
        Inl x \<Rightarrow> Inl x
      | Inr sr \<Rightarrow>
          if sr_status sr = PASS_WITHIN_SCOPE
          then (case residue (sr_edges sr) of
                  Inl x \<Rightarrow> Inl x
                | Inr r \<Rightarrow> Inr (report_of (if r \<noteq> 0 then FAIL_PROGRESS_CYCLE else sr_status sr) (Some r) sr))
          else Inr (report_of (sr_status sr) None sr))"

text \<open>The exit code of the command.\<close>

definition exit_code :: "status \<Rightarrow> int" where
  "exit_code st = (case st of PASS_WITHIN_SCOPE \<Rightarrow> 0 | INCOMPLETE \<Rightarrow> 2 | _ \<Rightarrow> 1)"

end
