(* ===== verification/Explore_Cycles.thy ===== *)
theory Explore_Cycles
  imports Explore
begin

text \<open>
  The elimination of \<open>run\<close> is exact: it returns, and its residue is zero if and only if the graph of
  edges without progress has no cycle.
\<close>

section \<open>The graph of edges without progress\<close>

definition idle_edges :: "(nat \<times> bool) list list \<Rightarrow> (nat \<times> nat) set" where
  "idle_edges edges = {(i, j). i < length edges \<and> (j, False) \<in> set (edges ! i)}"

definition targets_ok :: "(nat \<times> bool) list list \<Rightarrow> bool" where
  "targets_ok edges \<longleftrightarrow> (\<forall>es \<in> set edges. \<forall>(j, p) \<in> set es. j < length edges)"

text \<open>The number of idle edges from a list of edges to \<open>j\<close>.\<close>

definition idle_count :: "(nat \<times> bool) list \<Rightarrow> nat \<Rightarrow> int" where
  "idle_count es j = int (count_list es (j, False))"

lemma idle_count_simps [simp]:
  "idle_count [] j = 0"
  "idle_count ((k, p) # es) j = (if \<not> p \<and> k = j then 1 else 0) + idle_count es j"
  by (auto simp: idle_count_def)

lemma idle_count_pos: "0 \<le> idle_count es j" "0 < idle_count es j \<longleftrightarrow> (j, False) \<in> set es"
  using count_list_0_iff [of es "(j, False)"] by (auto simp: idle_count_def)

lemma count_edges_spec:
  assumes "\<And>j p. (j, p) \<in> set es \<Longrightarrow> j < length ind"
  shows "\<exists>ind'. count_edges es ind = Inr ind' \<and> length ind' = length ind
    \<and> (\<forall>j < length ind. ind' ! j = ind ! j + idle_count es j)"
  using assms
proof (induction es ind rule: count_edges.induct)
  case (2 target progress es ind)
  then have t: "target < length ind" by auto
  show ?case
  proof (cases progress)
    case True
    then show ?thesis using 2 by auto
  next
    case False
    then obtain ind' where "count_edges es (ind[target := ind ! target + 1]) = Inr ind'"
      "length ind' = length ind"
      "\<forall>j < length ind. ind' ! j = ind[target := ind ! target + 1] ! j + idle_count es j"
      using "2.IH"(1) t "2.prems" by fastforce
    then show ?thesis using False t by (auto simp: nth_list_update)
  qed
qed simp

lemma count_all_spec:
  assumes "\<And>es j p. es \<in> set edges \<Longrightarrow> (j, p) \<in> set es \<Longrightarrow> j < length ind"
  shows "\<exists>ind'. count_all edges ind = Inr ind' \<and> length ind' = length ind
    \<and> (\<forall>j < length ind. ind' ! j = ind ! j + (\<Sum>es \<leftarrow> edges. idle_count es j))"
  using assms
proof (induction edges ind rule: count_all.induct)
  case (2 es edges ind)
  obtain ind1 where i1: "count_edges es ind = Inr ind1" "length ind1 = length ind"
    "\<forall>j < length ind. ind1 ! j = ind ! j + idle_count es j"
    using count_edges_spec [of es ind] "2.prems" by auto
  from "2.IH" [OF i1(1)] i1(2) "2.prems" obtain ind' where
    "count_all edges ind1 = Inr ind'" "length ind' = length ind"
    "\<forall>j < length ind. ind' ! j = ind1 ! j + (\<Sum>es \<leftarrow> edges. idle_count es j)" by auto
  then show ?case using i1 by auto
qed simp

lemma relax_spec:
  assumes "\<And>j p. (j, p) \<in> set es \<Longrightarrow> j < length ind" "\<And>j. j < length ind \<Longrightarrow> idle_count es j \<le> ind ! j"
  shows "\<exists>ind' new. relax es ind ready = Inr (ind', ready @ new) \<and> length ind' = length ind
    \<and> (\<forall>j < length ind. ind' ! j = ind ! j - idle_count es j)
    \<and> distinct new \<and> set new = {j. j < length ind \<and> 0 < ind ! j \<and> ind' ! j = 0}"
  using assms
proof (induction es ind ready rule: relax.induct)
  case (1 ind ready)
  then show ?case by (auto intro!: exI [of _ "[]"])
next
  case (2 k p es ind ready)
  have k: "k < length ind" using "2.prems"(1) [of k p] by simp
  show ?case
  proof (cases p)
    case True
    then show ?thesis using 2 by auto
  next
    case False
    let ?ind = "ind[k := ind ! k - 1]"
    let ?r = "if ?ind ! k = 0 then ready @ [k] else ready"
    have bound: "idle_count es j \<le> ?ind ! j" if "j < length ?ind" for j
      using "2.prems"(2) [of j] that False by (cases "k = j") simp_all
    have range: "(j, p) \<in> set es \<Longrightarrow> j < length ?ind" for j p using "2.prems"(1) [of j p] by simp
    have pos: "0 < ind ! k" using "2.prems"(2) [OF k] False idle_count_pos(1) [of es k] by simp
    have "\<exists>ind' new. relax es ?ind ?r = Inr (ind', ?r @ new) \<and> length ind' = length ?ind
      \<and> (\<forall>j < length ?ind. ind' ! j = ?ind ! j - idle_count es j)
      \<and> distinct new \<and> set new = {j. j < length ?ind \<and> 0 < ?ind ! j \<and> ind' ! j = 0}"
      by (rule "2.IH"(1) [OF False k refl], erule range, erule bound)
    then obtain ind' new where r: "relax es ?ind ?r = Inr (ind', ?r @ new)" "length ind' = length ?ind"
      "\<forall>j < length ?ind. ind' ! j = ?ind ! j - idle_count es j"
      "distinct new" "set new = {j. j < length ?ind \<and> 0 < ?ind ! j \<and> ind' ! j = 0}"
      by blast
    note r = r [unfolded length_list_update]
    have eq: "relax ((k, p) # es) ind ready = relax es ?ind ?r" using False k by (simp only: relax.simps Let_def if_True not_False_eq_True)
    have v: "\<forall>j < length ind. ind' ! j = ind ! j - idle_count ((k, p) # es) j"
      using r(3) False k by (auto simp: nth_list_update)
    show ?thesis
    proof (cases "ind ! k = 1")
      case True
      have z: "ind' ! k = 0" using r(3) k bound [of k] True idle_count_pos(1) [of es k] by simp
      have "k \<notin> set new" using r(5) k True by simp
      have "x = k \<or> x \<in> set new \<longleftrightarrow> x < length ind \<and> 0 < ind ! x \<and> ind' ! x = 0" for x
        using k True z unfolding r(5) by (cases "x = k") simp_all
      then have "set (k # new) = {j. j < length ind \<and> 0 < ind ! j \<and> ind' ! j = 0}" by auto
      moreover note \<open>k \<notin> set new\<close>
      ultimately show ?thesis using eq r(1,2,4) v True k
        by (intro exI [of _ ind'] exI [of _ "k # new"]) simp
    next
      case False
      have "x \<in> set new \<longleftrightarrow> x < length ind \<and> 0 < ind ! x \<and> ind' ! x = 0" for x
        using k False pos unfolding r(5) by (cases "x = k") auto
      then have "set new = {j. j < length ind \<and> 0 < ind ! j \<and> ind' ! j = 0}" by blast
      then show ?thesis using eq r(1,2,4) v False k
        by (intro exI [of _ ind'] exI [of _ new]) simp
    qed
  qed
qed

section \<open>The elimination\<close>

text \<open>
  \<open>done\<close> are the eliminated states: the indegrees count the idle edges from the others, the ready
  queue holds the states of indegree zero, and no idle cycle runs through an eliminated state.
\<close>

definition kahn_inv :: "(nat \<times> bool) list list \<Rightarrow> nat list \<Rightarrow> int list \<Rightarrow> nat list \<Rightarrow> bool" where
  "kahn_inv edges done ind ready \<longleftrightarrow>
     length ind = length edges \<and> distinct (done @ ready)
     \<and> (\<forall>j < length edges. ind ! j = (\<Sum>i \<in> {..<length edges} - set done. idle_count (edges ! i) j))
     \<and> set (done @ ready) = {j. j < length edges \<and> ind ! j = 0}
     \<and> (\<forall>j \<in> set done. \<forall>i. (i, j) \<in> idle_edges edges \<longrightarrow> i \<in> set done)
     \<and> acyclic {(i, j). (i, j) \<in> idle_edges edges \<and> j \<in> set done}"

lemma kahn_invD:
  assumes "kahn_inv edges done ind ready"
  shows "length ind = length edges" "distinct (done @ ready)"
    "\<forall>j < length edges. ind ! j = (\<Sum>i \<in> {..<length edges} - set done. idle_count (edges ! i) j)"
    "set (done @ ready) = {j. j < length edges \<and> ind ! j = 0}"
    "\<forall>j \<in> set done. \<forall>i. (i, j) \<in> idle_edges edges \<longrightarrow> i \<in> set done"
    "acyclic {(i, j). (i, j) \<in> idle_edges edges \<and> j \<in> set done}"
  using assms unfolding kahn_inv_def by - (elim conjE, assumption)+

lemma acyclic_extend:
  assumes ac: "acyclic {(i, j). (i, j) \<in> E \<and> j \<in> D}" and x: "x \<notin> D"
    and D: "\<And>i j. (i, j) \<in> E \<Longrightarrow> j \<in> insert x D \<Longrightarrow> i \<in> D"
  shows "acyclic {(i, j). (i, j) \<in> E \<and> j \<in> insert x D}"
proof -
  let ?r = "{(i, j). (i, j) \<in> E \<and> j \<in> D}" and ?r' = "{(i, j). (i, j) \<in> E \<and> j \<in> insert x D}"
  have dom: "a \<in> D" if "(a, b) \<in> ?r'\<^sup>+" for a b using that D by (induction rule: trancl_induct) auto
  have "b = x \<or> (a, b) \<in> ?r\<^sup>+" if "(a, b) \<in> ?r'\<^sup>+" for a b
    using that
  proof (induction rule: trancl_induct)
    case (base b)
    then show ?case by auto
  next
    case (step b c)
    have "b \<in> D" using step(2) D by auto
    then have "(a, b) \<in> ?r\<^sup>+" using step(3) x by auto
    then show ?case using step(2) by (cases "c = x") (auto intro: trancl_into_trancl)
  qed
  then show ?thesis using dom x ac unfolding acyclic_def by blast
qed

lemma idle_sum_zero:
  assumes "finite S" "(\<Sum>i \<in> S. idle_count (edges ! i) j) = 0" "i \<in> S"
  shows "(j, False) \<notin> set (edges ! i)"
proof -
  have "idle_count (edges ! i) j = 0"
    using assms idle_count_pos(1) by (simp add: sum_nonneg_eq_0_iff)
  then show ?thesis using idle_count_pos(2) [of "edges ! i" j] by simp
qed

lemma kahn_step:
  assumes inv: "kahn_inv edges done ind (i # ready)" and ok: "targets_ok edges"
  shows "\<exists>ind' ready'. relax (edges ! i) ind ready = Inr (ind', ready') \<and> kahn_inv edges (done @ [i]) ind' ready'"
proof -
  let ?N = "length edges"
  have len: "length ind = ?N" and dist: "distinct (done @ i # ready)"
    and sum: "\<And>j. j < ?N \<Longrightarrow> ind ! j = (\<Sum>k \<in> {..<?N} - set done. idle_count (edges ! k) j)"
    and zero: "set (done @ i # ready) = {j. j < ?N \<and> ind ! j = 0}"
    and pre: "\<And>j k. j \<in> set done \<Longrightarrow> (k, j) \<in> idle_edges edges \<Longrightarrow> k \<in> set done"
    and ac: "acyclic {(k, j). (k, j) \<in> idle_edges edges \<and> j \<in> set done}"
    using kahn_invD [OF inv] by blast+
  have i: "i < ?N" "ind ! i = 0" "i \<notin> set done" using zero dist by auto
  have fin: "finite ({..<?N} - set done)" "i \<in> {..<?N} - set done" using i by auto
  have split: "(\<Sum>k \<in> {..<?N} - set done. idle_count (edges ! k) j)
    = idle_count (edges ! i) j + (\<Sum>k \<in> {..<?N} - set (done @ [i]). idle_count (edges ! k) j)" for j
  proof -
    have "{..<?N} - set (done @ [i]) = ({..<?N} - set done) - {i}" by auto
    then show ?thesis using sum.remove [OF fin, of "\<lambda>k. idle_count (edges ! k) j"] by simp
  qed
  have rest: "0 \<le> (\<Sum>k \<in> {..<?N} - set (done @ [i]). idle_count (edges ! k) j)" for j
    by (intro sum_nonneg idle_count_pos)
  have range: "(j, p) \<in> set (edges ! i) \<Longrightarrow> j < ?N" for j p
    using ok i by (fastforce simp: targets_ok_def)
  moreover have "idle_count (edges ! i) j \<le> ind ! j" if "j < ?N" for j
    using sum [of j] split [of j] rest [of j] that len by simp
  ultimately obtain ind' new where r: "relax (edges ! i) ind ready = Inr (ind', ready @ new)"
    "length ind' = ?N" "\<And>j. j < ?N \<Longrightarrow> ind' ! j = ind ! j - idle_count (edges ! i) j"
    "distinct new" "set new = {j. j < ?N \<and> 0 < ind ! j \<and> ind' ! j = 0}"
    using relax_spec [of "edges ! i" ind ready] unfolding len by blast
  have sum': "ind' ! j = (\<Sum>k \<in> {..<?N} - set (done @ [i]). idle_count (edges ! k) j)" if "j < ?N" for j
    using r(3) [OF that] sum [OF that] split [of j] by simp
  have keep: "ind' ! j = 0" if "j < ?N" "ind ! j = 0" for j
    using sum' [OF that(1)] r(3) [OF that(1)] that rest [of j] idle_count_pos(1) [of "edges ! i" j] by linarith
  have nonneg: "0 \<le> ind ! j" if "j < ?N" for j unfolding sum [OF that] by (intro sum_nonneg idle_count_pos)
  have zero': "set ((done @ [i]) @ ready @ new) = {j. j < ?N \<and> ind' ! j = 0}"
  proof (intro equalityI subsetI)
    fix j assume "j \<in> set ((done @ [i]) @ ready @ new)"
    then have "j \<in> set (done @ i # ready) \<or> j \<in> set new" by auto
    then show "j \<in> {j. j < ?N \<and> ind' ! j = 0}" using zero r(5) keep by auto
  next
    fix j assume j: "j \<in> {j. j < ?N \<and> ind' ! j = 0}"
    show "j \<in> set ((done @ [i]) @ ready @ new)"
    proof (cases "ind ! j = 0")
      case True
      then have "j \<in> set (done @ i # ready)" using zero j by blast
      then show ?thesis by auto
    next
      case False
      then have "j \<in> set new" using j nonneg [of j] r(5) by auto
      then show ?thesis by simp
    qed
  qed
  have disj: "set new \<inter> set (done @ i # ready) = {}" unfolding zero r(5) by auto
  have dist': "distinct ((done @ [i]) @ ready @ new)" using dist disj r(4) by auto
  have prei: "k \<in> set done" if "(k, i) \<in> idle_edges edges" for k
  proof (rule ccontr)
    assume "k \<notin> set done"
    then have "k \<in> {..<?N} - set done" "(i, False) \<in> set (edges ! k)"
      using that by (auto simp: idle_edges_def)
    with idle_sum_zero [OF fin(1), of edges i k] sum [OF i(1)] i(2) show False by simp
  qed
  have pre': "k \<in> set (done @ [i])" if "j \<in> set (done @ [i])" "(k, j) \<in> idle_edges edges" for j k
    using that pre prei by auto
  have "acyclic {(k, j). (k, j) \<in> idle_edges edges \<and> j \<in> insert i (set done)}"
    by (rule acyclic_extend [OF ac i(3)]) (use pre prei in auto)
  then have ac': "acyclic {(k, j). (k, j) \<in> idle_edges edges \<and> j \<in> set (done @ [i])}" by simp
  have "kahn_inv edges (done @ [i]) ind' (ready @ new)"
    unfolding kahn_inv_def using r(2) dist' sum' zero' pre' ac' by blast
  then show ?thesis using r(1) by blast
qed

lemma kahn_spec:
  assumes "kahn_inv edges done ind ready" "targets_ok edges"
  shows "\<exists>done' ind'. kahn edges ind ready (length done) = Inr (length done') \<and> kahn_inv edges done' ind' []"
  using assms(1)
proof (induction "length ready + positive ind" arbitrary: "done" ind ready rule: less_induct)
  case less
  show ?case
  proof (cases ready)
    case Nil
    then show ?thesis using less.prems by auto
  next
    case (Cons i rest)
    then obtain ind' ready' where r: "relax (edges ! i) ind rest = Inr (ind', ready')"
      and inv: "kahn_inv edges (done @ [i]) ind' ready'"
      using kahn_step [OF _ assms(2)] less.prems by blast
    have "length ready' + positive ind' < length ready + positive ind"
      using relax_measure [OF r] Cons by simp
    from less.hyps [OF this inv] show ?thesis using r Cons by simp
  qed
qed

text \<open>Finitely many states each of which has a predecessor among them contain a cycle.\<close>

lemma predecessors_cycle:
  assumes "finite U" "U \<noteq> {}" "\<And>j. j \<in> U \<Longrightarrow> \<exists>i \<in> U. (i, j) \<in> E"
  shows "\<not> acyclic E"
proof
  assume ac: "acyclic E"
  let ?E = "E \<inter> U \<times> U"
  have "acyclic ?E" using ac by (rule acyclic_subset) auto
  moreover have "finite ?E" using assms(1) by simp
  ultimately have "wf ?E" by (rule finite_acyclic_wf [rotated])
  then obtain m where "m \<in> U" "\<forall>y. (y, m) \<in> ?E \<longrightarrow> y \<notin> U" using assms(2) by (metis wfE_min ex_in_conv)
  then show False using assms(3) [of m] by blast
qed

theorem residue_spec:
  assumes ok: "targets_ok edges"
  shows "\<exists>r \<ge> 0. residue edges = Inr r \<and> (r = 0 \<longleftrightarrow> acyclic (idle_edges edges))"
proof -
  let ?N = "length edges"
  obtain ind where ind: "count_all edges (replicate ?N 0) = Inr ind" "length ind = ?N"
    "\<forall>j < ?N. ind ! j = (\<Sum>es \<leftarrow> edges. idle_count es j)"
    using count_all_spec [of edges "replicate ?N 0"] ok by (fastforce simp: targets_ok_def)
  let ?ready = "filter (\<lambda>i. ind ! i = 0) [0..<length ind]"
  have "(\<Sum>es \<leftarrow> edges. idle_count es j) = (\<Sum>i \<in> {..<?N} - set []. idle_count (edges ! i) j)" for j
    by (simp add: sum_list_sum_nth atLeast0LessThan)
  then have "\<forall>j < ?N. ind ! j = (\<Sum>i \<in> {..<?N} - set []. idle_count (edges ! i) j)" using ind(3) by simp
  moreover have "set ([] @ ?ready) = {j. j < ?N \<and> ind ! j = 0}" "distinct ([] @ ?ready)" using ind(2) by auto
  ultimately have "kahn_inv edges [] ind ?ready"
    unfolding kahn_inv_def using ind(2) by (simp add: acyclic_def)
  from kahn_spec [OF this ok] obtain done' ind' where k: "kahn edges ind ?ready 0 = Inr (length done')"
    and inv: "kahn_inv edges done' ind' []" by auto
  have res: "residue edges = Inr (int ?N - int (length done'))" using ind(1) k by (simp add: residue_def)
  have dist: "distinct done'" and set: "set done' = {j. j < ?N \<and> ind' ! j = 0}"
    and sum: "\<And>j. j < ?N \<Longrightarrow> ind' ! j = (\<Sum>k \<in> {..<?N} - set done'. idle_count (edges ! k) j)"
    and ac: "acyclic {(i, j). (i, j) \<in> idle_edges edges \<and> j \<in> set done'}"
    using kahn_invD [OF inv] unfolding append_Nil2 by blast+
  have card: "length done' = card (set done')" using dist by (simp add: distinct_card)
  have sub: "set done' \<subseteq> {..<?N}" using set by auto
  have le: "length done' \<le> ?N" using card card_mono [OF _ sub] by simp
  have "length done' = ?N \<longleftrightarrow> acyclic (idle_edges edges)"
  proof
    assume "length done' = ?N"
    then have "set done' = {..<?N}" using card sub by (intro card_subset_eq) auto
    moreover have "j < ?N" if "(i, j) \<in> idle_edges edges" for i j
      using that ok by (fastforce simp: idle_edges_def targets_ok_def)
    ultimately have "{(i, j). (i, j) \<in> idle_edges edges \<and> j \<in> set done'} = idle_edges edges" by auto
    then show "acyclic (idle_edges edges)" using ac by simp
  next
    assume acy: "acyclic (idle_edges edges)"
    show "length done' = ?N"
    proof (rule ccontr)
      assume "length done' \<noteq> ?N"
      then have "set done' \<noteq> {..<?N}" unfolding card by (metis card_lessThan)
      then have "{..<?N} - set done' \<noteq> {}" using sub by blast
      moreover have "\<exists>i \<in> {..<?N} - set done'. (i, j) \<in> idle_edges edges" if j: "j \<in> {..<?N} - set done'" for j
      proof (rule ccontr)
        assume none: "\<not> ?thesis"
        have "idle_count (edges ! k) j = 0" if "k \<in> {..<?N} - set done'" for k
          using none that idle_count_pos [of "edges ! k" j] by (fastforce simp: idle_edges_def)
        then have "ind' ! j = 0" using sum [of j] j by simp
        then show False using set j by auto
      qed
      ultimately show False using predecessors_cycle [of "{..<?N} - set done'" "idle_edges edges"] acy by blast
    qed
  qed
  then show ?thesis using res le by (intro exI [of _ "int ?N - int (length done')"]) auto
qed

end
