(* ===== verification/Explore_Search.thy ===== *)
theory Explore_Search
  imports Explore_Cycles
begin

text \<open>
  Correctness of the explorer for an arbitrary model: the breadth-first search numbers states by
  depth, keeps a real path to each of them, and its verdicts are exact. A complete search has found
  the reachable states and their transitions, a counterexample is real and none is shorter, and a
  search raises only what the model raises.
\<close>

section \<open>Paths\<close>

fun chain :: "('s, 'v) checker \<Rightarrow> 's \<Rightarrow> (string \<times> 's) list \<Rightarrow> bool" where
  "chain C s [] \<longleftrightarrow> True"
| "chain C s ((l, t) # xs) \<longleftrightarrow> (\<exists>p. step C s l p t) \<and> chain C t xs"

fun end_of :: "'s \<Rightarrow> (string \<times> 's) list \<Rightarrow> 's" where
  "end_of s [] = s"
| "end_of s ((l, t) # xs) = end_of t xs"

lemma end_of_append [simp]: "end_of s (xs @ ys) = end_of (end_of s xs) ys"
  by (induction s xs rule: end_of.induct) auto

lemma chain_append [simp]: "chain C s (xs @ ys) \<longleftrightarrow> chain C s xs \<and> chain C (end_of s xs) ys"
  by (induction C s xs rule: chain.induct) auto

lemma chain_reach: "chain C s xs \<Longrightarrow> reach C s \<Longrightarrow> reach C (end_of s xs)"
  by (induction C s xs rule: chain.induct) (auto intro: reach.follow)

text \<open>A transition the explorer must reject, and with which violation.\<close>

definition violating :: "('s, 'v) checker \<Rightarrow> 's \<Rightarrow> string \<Rightarrow> 's \<Rightarrow> 'v \<Rightarrow> bool" where
  "violating C s l t w \<longleftrightarrow> (\<exists>p v. Yield l t p v \<in> set (ck_successors C s)
     \<and> (v = Some w \<or> v = None \<and> ck_invariant C t = Inr (Some w)))"

section \<open>The search invariant\<close>

definition core :: "('s, 'v) checker \<Rightarrow> ('s, 'v) search \<Rightarrow> bool" where
  "core C sr \<longleftrightarrow>
     (let N = length (sr_states sr) in
      length (sr_parents sr) = N \<and> length (sr_edges sr) = N \<and> length (sr_depths sr) = N
      \<and> 0 < N \<and> sr_states sr ! 0 = ck_initial C \<and> fst (sr_parents sr ! 0) = -1
      \<and> (\<forall>t i. sr_seen sr t = Some i \<longleftrightarrow> i < N \<and> sr_states sr ! i = t)
      \<and> (\<forall>i. 0 < i \<and> i < N \<longrightarrow> (\<exists>p l pr. sr_parents sr ! i = (int p, l) \<and> p < i
           \<and> step C (sr_states sr ! p) l pr (sr_states sr ! i)
           \<and> sr_depths sr ! i = sr_depths sr ! p + 1))
      \<and> sr_depths sr ! 0 = 0 \<and> sorted (sr_depths sr)
      \<and> sr_status sr = PASS_WITHIN_SCOPE)"

text \<open>Edge \<open>(j, p)\<close> of state \<open>i\<close> stands for one unobjectionable event.\<close>

definition edge_ok :: "('s, 'v) checker \<Rightarrow> ('s, 'v) search \<Rightarrow> nat \<Rightarrow> ('s, 'v) event \<Rightarrow> nat \<times> bool \<Rightarrow> bool" where
  "edge_ok C sr i e = (\<lambda>(j, p). j < length (sr_states sr) \<and> (\<exists>l. e = Yield l (sr_states sr ! j) p None)
     \<and> ck_invariant C (sr_states sr ! j) = Inr None \<and> sr_depths sr ! j \<le> sr_depths sr ! i + 1)"

definition linked :: "('s, 'v) checker \<Rightarrow> ('s, 'v) search \<Rightarrow> nat \<Rightarrow> ('s, 'v) event list \<Rightarrow> bool" where
  "linked C sr i es \<longleftrightarrow> list_all2 (edge_ok C sr i) es (sr_edges sr ! i)"

text \<open>States before \<open>k\<close> are processed, of state \<open>k\<close> the events \<open>pre\<close> are.\<close>

definition processed :: "('s, 'v) checker \<Rightarrow> ('s, 'v) search \<Rightarrow> nat \<Rightarrow> ('s, 'v) event list \<Rightarrow> bool" where
  "processed C sr k pre \<longleftrightarrow> core C sr \<and> k < length (sr_states sr)
     \<and> (\<forall>i < k. linked C sr i (ck_successors C (sr_states sr ! i)))
     \<and> linked C sr k pre \<and> (\<forall>i. k < i \<and> i < length (sr_states sr) \<longrightarrow> sr_edges sr ! i = [])
     \<and> (\<forall>i < length (sr_states sr). sr_depths sr ! i \<le> sr_depths sr ! k + 1)
     \<and> sr_bfs sr = [Suc k..<length (sr_states sr)]"

lemma coreD:
  assumes "core C sr"
  shows "length (sr_parents sr) = length (sr_states sr)" "length (sr_edges sr) = length (sr_states sr)"
    "length (sr_depths sr) = length (sr_states sr)" "0 < length (sr_states sr)"
    "sr_states sr ! 0 = ck_initial C" "fst (sr_parents sr ! 0) = -1"
    "\<forall>t i. sr_seen sr t = Some i \<longleftrightarrow> i < length (sr_states sr) \<and> sr_states sr ! i = t"
    "\<forall>i. 0 < i \<and> i < length (sr_states sr) \<longrightarrow> (\<exists>p l pr. sr_parents sr ! i = (int p, l) \<and> p < i
       \<and> step C (sr_states sr ! p) l pr (sr_states sr ! i)
       \<and> sr_depths sr ! i = sr_depths sr ! p + 1)"
    "sr_depths sr ! 0 = 0" "sorted (sr_depths sr)" "sr_status sr = PASS_WITHIN_SCOPE"
  using assms unfolding core_def Let_def by - (elim conjE, assumption)+

lemma processedD:
  assumes "processed C sr k pre"
  shows "core C sr" "k < length (sr_states sr)"
    "\<forall>i < k. linked C sr i (ck_successors C (sr_states sr ! i))"
    "linked C sr k pre" "\<forall>i. k < i \<and> i < length (sr_states sr) \<longrightarrow> sr_edges sr ! i = []"
    "\<forall>i < length (sr_states sr). sr_depths sr ! i \<le> sr_depths sr ! k + 1"
    "sr_bfs sr = [Suc k..<length (sr_states sr)]"
  using assms unfolding processed_def by - (elim conjE, assumption)+

section \<open>Adding a state or an edge\<close>

lemma core_add_state:
  assumes c: "core C sr" and s: "sid < length (sr_states sr)" and new: "sr_seen sr t = None"
    and st: "step C (sr_states sr ! sid) l p t"
    and d: "\<forall>i < length (sr_states sr). sr_depths sr ! i \<le> sr_depths sr ! sid + 1"
  shows "core C (add_state sid l t sr)"
proof -
  let ?N = "length (sr_states sr)" and ?sr = "add_state sid l t sr"
  note D = coreD [OF c]
  have fresh: "sr_states sr ! i \<noteq> t" if "i < ?N" for i using D(7) new that by (metis option.distinct(1))
  have states: "sr_states ?sr = sr_states sr @ [t]" and seen: "sr_seen ?sr = (sr_seen sr)(t \<mapsto> ?N)"
    and par: "sr_parents ?sr = sr_parents sr @ [(int sid, l)]" and edg: "sr_edges ?sr = sr_edges sr @ [[]]"
    and dep: "sr_depths ?sr = sr_depths sr @ [sr_depths sr ! sid + 1]" and stat: "sr_status ?sr = sr_status sr"
    by (simp_all add: add_state_def Let_def)
  have seen': "sr_seen ?sr x = Some i \<longleftrightarrow> i < length (sr_states ?sr) \<and> sr_states ?sr ! i = x" for x i
    using D(7) fresh by (auto simp: seen states nth_append less_Suc_eq)
  have par': "\<exists>q m pr. sr_parents ?sr ! i = (int q, m) \<and> q < i \<and> step C (sr_states ?sr ! q) m pr (sr_states ?sr ! i)
      \<and> sr_depths ?sr ! i = sr_depths ?sr ! q + 1" if i: "0 < i" "i < length (sr_states ?sr)" for i
  proof (cases "i = ?N")
    case True
    then show ?thesis using s st D(1,3)
      by (intro exI [of _ sid] exI [of _ l] exI [of _ p]) (simp add: states par dep nth_append)
  next
    case False
    then have "i < ?N" using i by (simp add: states)
    then obtain q m pr where "sr_parents sr ! i = (int q, m)" "q < i"
      "step C (sr_states sr ! q) m pr (sr_states sr ! i)" "sr_depths sr ! i = sr_depths sr ! q + 1"
      using D(8) i(1) by blast
    then show ?thesis using \<open>i < ?N\<close> D(1,3)
      by (intro exI [of _ q] exI [of _ m] exI [of _ pr]) (simp add: states par dep nth_append)
  qed
  have so: "sorted (sr_depths ?sr)"
    using D(3,10) d unfolding dep by (auto simp: sorted_append in_set_conv_nth)
  have "sr_states ?sr ! 0 = ck_initial C" "fst (sr_parents ?sr ! 0) = -1" "sr_depths ?sr ! 0 = 0"
    "length (sr_parents ?sr) = length (sr_states ?sr)" "length (sr_edges ?sr) = length (sr_states ?sr)"
    "length (sr_depths ?sr) = length (sr_states ?sr)" "0 < length (sr_states ?sr)"
    "sr_status ?sr = PASS_WITHIN_SCOPE"
    using D(1-6,9,11) by (simp_all add: states par edg dep stat nth_append)
  then show ?thesis unfolding core_def Let_def using seen' par' so by blast
qed

lemma core_same:
  assumes "core C sr" "sr_states sr' = sr_states sr" "sr_seen sr' = sr_seen sr" "sr_parents sr' = sr_parents sr"
    "sr_depths sr' = sr_depths sr" "sr_status sr' = sr_status sr" "length (sr_edges sr') = length (sr_edges sr)"
  shows "core C sr'"
  using assms(1) unfolding core_def Let_def assms(2-7) .

lemma edge_ok_extend:
  assumes "edge_ok C sr i e x" "sr_states sr' = sr_states sr @ ts" "sr_depths sr' = sr_depths sr @ ds"
    "length (sr_depths sr) = length (sr_states sr)" "i < length (sr_states sr)"
  shows "edge_ok C sr' i e x"
  using assms by (auto simp: edge_ok_def nth_append)

lemma linked_extend:
  assumes "linked C sr i es" "sr_states sr' = sr_states sr @ ts" "sr_depths sr' = sr_depths sr @ ds"
    "length (sr_depths sr) = length (sr_states sr)" "i < length (sr_states sr)"
    "sr_edges sr' ! i = sr_edges sr ! i"
  shows "linked C sr' i es"
  using assms(1) edge_ok_extend [OF _ assms(2-5)] unfolding linked_def assms(6)
  by (auto elim: list_all2_mono)

lemma processed_add_edge:
  assumes P: "processed C sr k pre" and e: "edge_ok C sr k e (j, p)"
  shows "processed C (add_edge k j p sr) k (pre @ [e])"
proof -
  let ?sr = "add_edge k j p sr"
  note D = processedD [OF P] and E = coreD [OF processedD(1) [OF P]]
  have st: "sr_states ?sr = sr_states sr" "sr_depths ?sr = sr_depths sr" "sr_bfs ?sr = sr_bfs sr"
    by (simp_all add: add_edge_def)
  have ed: "sr_edges ?sr ! i = (if i = k then sr_edges sr ! k @ [(j, p)] else sr_edges sr ! i)" for i
    using D(2) E(2) by (simp add: add_edge_def nth_list_update)
  have ok: "edge_ok C ?sr i = edge_ok C sr i" for i by (simp add: edge_ok_def [abs_def] st)
  have "core C ?sr" by (rule core_same [OF D(1)]) (simp_all add: add_edge_def)
  moreover have "linked C ?sr i es" if "linked C sr i es" "i \<noteq> k" for i es
    using that by (simp add: linked_def ok ed)
  moreover have "linked C ?sr k (pre @ [e])"
    using D(4) e by (simp add: linked_def ok ed list_all2_appendI)
  ultimately show ?thesis using D(2,3,5,6,7) unfolding processed_def st by (simp add: ed)
qed

lemma processed_add_state:
  assumes P: "processed C sr k pre" and new: "sr_seen sr t = None"
    and st: "step C (sr_states sr ! k) l p t"
  shows "processed C (add_state k l t sr) k pre"
proof -
  let ?sr = "add_state k l t sr" and ?N = "length (sr_states sr)"
  note D = processedD [OF P] and E = coreD [OF processedD(1) [OF P]]
  have states: "sr_states ?sr = sr_states sr @ [t]" "sr_depths ?sr = sr_depths sr @ [sr_depths sr ! k + 1]"
    and bfs: "sr_bfs ?sr = sr_bfs sr @ [?N]" and edg: "sr_edges ?sr = sr_edges sr @ [[]]"
    by (simp_all add: add_state_def Let_def)
  have ed: "sr_edges ?sr ! i = sr_edges sr ! i" if "i < ?N" for i using that E(2) by (simp add: edg nth_append)
  have c: "core C ?sr" by (rule core_add_state [OF D(1,2) new st D(6)])
  have lk: "linked C ?sr i es" if "linked C sr i es" "i < ?N" for i es
    by (rule linked_extend [OF that(1) states E(3) that(2) ed [OF that(2)]])
  have nx: "sr_states ?sr ! i = sr_states sr ! i" if "i < ?N" for i using that by (simp add: states nth_append)
  have "linked C ?sr i (ck_successors C (sr_states ?sr ! i))" if "i < k" for i
    using lk D(2,3) nx that by simp
  moreover have "linked C ?sr k pre" using lk D(2,4) by simp
  moreover have "sr_edges ?sr ! i = []" if "k < i" "i < length (sr_states ?sr)" for i
    using that D(5) E(2) by (cases "i = ?N") (auto simp: edg states nth_append)
  moreover have "sr_depths ?sr ! i \<le> sr_depths ?sr ! k + 1" if "i < length (sr_states ?sr)" for i
    using that D(2,6) E(3) by (cases "i = ?N") (auto simp: states nth_append)
  moreover have "sr_bfs ?sr = [Suc k..<length (sr_states ?sr)]"
    using D(2,7) by (simp add: bfs states)
  ultimately show ?thesis using c D(2) unfolding processed_def by (simp add: states)
qed

section \<open>Counterexamples\<close>

lemma walk_back_spec:
  assumes c: "core C sr"
  shows "cur < length (sr_states sr) \<Longrightarrow> cur < fuel \<Longrightarrow>
    \<exists>xs. walk_back (sr_parents sr) (sr_states sr) fuel cur path = xs @ path
      \<and> chain C (ck_initial C) xs \<and> end_of (ck_initial C) xs = sr_states sr ! cur
      \<and> length xs = sr_depths sr ! cur"
proof (induction cur arbitrary: fuel path rule: less_induct)
  case (less cur)
  note D = coreD [OF c]
  obtain f where f: "fuel = Suc f" using less.prems(2) by (cases fuel) auto
  show ?case
  proof (cases "cur = 0")
    case True
    then show ?thesis using D(5,6,9) by (auto simp: f split: prod.splits)
  next
    case False
    then obtain q m pr where q: "sr_parents sr ! cur = (int q, m)" "q < cur"
      "step C (sr_states sr ! q) m pr (sr_states sr ! cur)" "sr_depths sr ! cur = sr_depths sr ! q + 1"
      using D(8) less.prems(1) by (meson gr0I)
    from less.IH [OF q(2), of f "(m, sr_states sr ! cur) # path"] q(2) less.prems f
    obtain xs where "walk_back (sr_parents sr) (sr_states sr) f q ((m, sr_states sr ! cur) # path)
        = xs @ (m, sr_states sr ! cur) # path"
      "chain C (ck_initial C) xs" "end_of (ck_initial C) xs = sr_states sr ! q" "length xs = sr_depths sr ! q"
      by auto
    then show ?thesis using q f
      by (intro exI [of _ "xs @ [(m, sr_states sr ! cur)]"]) auto
  qed
qed

lemma prefix_to_spec:
  assumes "core C sr" "sid < length (sr_states sr)"
  shows "chain C (ck_initial C) (prefix_to sr sid)" "end_of (ck_initial C) (prefix_to sr sid) = sr_states sr ! sid"
    "length (prefix_to sr sid) = sr_depths sr ! sid"
  using walk_back_spec [OF assms(1,2), of "length (sr_states sr)" "[]"] assms(2)
  by (auto simp: prefix_to_def)

text \<open>A processed state has no violating transition, and its targets are at most one deeper.\<close>

lemma linked_no_violation:
  assumes "linked C sr i (ck_successors C (sr_states sr ! i))"
  shows "\<not> violating C (sr_states sr ! i) l t w"
proof
  assume "violating C (sr_states sr ! i) l t w"
  then obtain p v where e: "Yield l t p v \<in> set (ck_successors C (sr_states sr ! i))"
    and v: "v = Some w \<or> v = None \<and> ck_invariant C t = Inr (Some w)" by (auto simp: violating_def)
  from e obtain n where "n < length (ck_successors C (sr_states sr ! i))"
    "ck_successors C (sr_states sr ! i) ! n = Yield l t p v" by (auto simp: in_set_conv_nth)
  then have "edge_ok C sr i (Yield l t p v) (sr_edges sr ! i ! n)"
    using assms list_all2_nthD unfolding linked_def by fastforce
  then show False using v by (auto simp: edge_ok_def split: prod.splits)
qed

lemma linked_targets:
  assumes "linked C sr i (ck_successors C (sr_states sr ! i))" "step C (sr_states sr ! i) l p t"
  shows "\<exists>j < length (sr_states sr). sr_states sr ! j = t \<and> (j, p) \<in> set (sr_edges sr ! i)
    \<and> sr_depths sr ! j \<le> sr_depths sr ! i + 1"
proof -
  obtain v where "Yield l t p v \<in> set (ck_successors C (sr_states sr ! i))" using assms(2) by (auto simp: step_iff)
  then obtain n where n: "n < length (ck_successors C (sr_states sr ! i))"
    "ck_successors C (sr_states sr ! i) ! n = Yield l t p v" by (auto simp: in_set_conv_nth)
  then have "edge_ok C sr i (Yield l t p v) (sr_edges sr ! i ! n)"
    using assms list_all2_nthD unfolding linked_def by fastforce
  moreover have "n < length (sr_edges sr ! i)"
    using assms(1) n(1) unfolding linked_def by (auto dest: list_all2_lengthD)
  then have "sr_edges sr ! i ! n \<in> set (sr_edges sr ! i)" by simp
  ultimately show ?thesis by (auto simp: edge_ok_def split: prod.splits)
qed

text \<open>Every path that is shorter than the depth of the current state stays among processed states.\<close>

lemma short_path:
  assumes P: "processed C sr k pre" and ch: "chain C (ck_initial C) xs" "length xs < sr_depths sr ! k"
  shows "\<exists>j < k. sr_states sr ! j = end_of (ck_initial C) xs \<and> sr_depths sr ! j \<le> length xs"
  using ch
proof (induction xs rule: rev_induct)
  case Nil
  note E = coreD [OF processedD(1) [OF P]]
  have "k \<noteq> 0" using Nil E(9) by (cases k) auto
  then show ?case using E(5,9) by (intro exI [of _ 0]) simp
next
  case (snoc x xs)
  note E = coreD [OF processedD(1) [OF P]]
  obtain l t where x: "x = (l, t)" by (cases x)
  from snoc obtain j where j: "j < k" "sr_states sr ! j = end_of (ck_initial C) xs" "sr_depths sr ! j \<le> length xs"
    by auto
  obtain p where "step C (sr_states sr ! j) l p t" using snoc.prems(1) x j(2) by auto
  from linked_targets [OF _ this] processedD(3) [OF P] j(1)
  obtain m where m: "m < length (sr_states sr)" "sr_states sr ! m = t" "sr_depths sr ! m \<le> sr_depths sr ! j + 1"
    by auto
  have lt: "sr_depths sr ! m < sr_depths sr ! k" using m(3) j(3) snoc.prems(2) by simp
  have "m < k"
  proof (rule ccontr)
    assume "\<not> m < k"
    then have "sr_depths sr ! k \<le> sr_depths sr ! m"
      using E(3,10) m(1) by (intro sorted_nth_mono) auto
    with lt show False by simp
  qed
  then show ?case using m j x by (intro exI [of _ m]) auto
qed

text \<open>A counterexample: a real path to a real violation, and no shorter path leads to one.\<close>

definition counterexample :: "('s, 'v) checker \<Rightarrow> (string \<times> 's) list \<Rightarrow> 'v \<Rightarrow> bool" where
  "counterexample C steps w \<longleftrightarrow> (\<exists>xs l t. steps = xs @ [(l, t)] \<and> chain C (ck_initial C) xs
     \<and> violating C (end_of (ck_initial C) xs) l t w)"

lemma counterexample_found:
  assumes P: "processed C sr k pre" and v: "violating C (sr_states sr ! k) l t w"
  shows "counterexample C (prefix_to sr k @ [(l, t)]) w"
    "counterexample C ys w' \<Longrightarrow> length (prefix_to sr k @ [(l, t)]) \<le> length ys"
proof -
  note p = prefix_to_spec [OF processedD(1,2) [OF P]]
  show "counterexample C (prefix_to sr k @ [(l, t)]) w"
    unfolding counterexample_def using p v by auto
  assume "counterexample C ys w'"
  then obtain xs l' t' where ys: "ys = xs @ [(l', t')]" "chain C (ck_initial C) xs"
    "violating C (end_of (ck_initial C) xs) l' t' w'" by (auto simp: counterexample_def)
  show "length (prefix_to sr k @ [(l, t)]) \<le> length ys"
  proof (rule ccontr)
    assume "\<not> ?thesis"
    then have "length xs < sr_depths sr ! k" using ys(1) p(3) by simp
    from short_path [OF P ys(2) this] obtain j where "j < k" "sr_states sr ! j = end_of (ck_initial C) xs" by auto
    then show False using linked_no_violation processedD(3) [OF P] ys(3) by metis
  qed
qed


section \<open>The loop over the successors\<close>

text \<open>How a search can stop early.\<close>

definition stopped :: "('s, 'v) checker \<Rightarrow> nat \<Rightarrow> ('s, 'v) search \<Rightarrow> bool" where
  "stopped C mx sr \<longleftrightarrow>
     (sr_status sr = INCOMPLETE
        \<and> (sr_reason sr = Some ''wall_budget''
           \<or> sr_reason sr = Some ''state_budget'' \<and> mx \<le> length (sr_states sr)
             \<and> distinct (sr_states sr) \<and> set (sr_states sr) \<subset> {s. reach C s}))
     \<or> (sr_status sr = FAIL_WITNESS \<and> (\<exists>steps w. sr_witness sr =
           Some \<lparr>wt_property = Some w, wt_initial = ck_initial C, wt_steps = steps\<rparr>
         \<and> counterexample C steps w
         \<and> (\<forall>ys w'. counterexample C ys w' \<longrightarrow> length steps \<le> length ys)))
     \<or> (sr_status sr = FAIL_DEADLOCK \<and> (\<exists>steps. sr_witness sr =
           Some \<lparr>wt_property = None, wt_initial = ck_initial C, wt_steps = steps\<rparr>
         \<and> chain C (ck_initial C) steps
         \<and> ck_successors C (end_of (ck_initial C) steps) = []
         \<and> \<not> ck_terminal C (end_of (ck_initial C) steps)))"

lemma core_reach:
  assumes c: "core C sr" and i: "i < length (sr_states sr)"
  shows "reach C (sr_states sr ! i)"
  using chain_reach [OF prefix_to_spec(1) [OF c i] reach.start] prefix_to_spec(2) [OF c i] by simp

lemma core_states:
  assumes "core C sr"
  shows "t \<in> set (sr_states sr) \<longleftrightarrow> sr_seen sr t \<noteq> None"
  using coreD(7) [OF assms] by (auto simp: in_set_conv_nth)

lemma core_distinct: "core C sr \<Longrightarrow> distinct (sr_states sr)"
  using coreD(7) [of C sr] by (metis distinct_conv_nth option.inject)

lemma core_subset: "core C sr \<Longrightarrow> set (sr_states sr) \<subseteq> {s. reach C s}"
  using core_reach by (fastforce simp: in_set_conv_nth)

lemma processed_transitions:
  "processed C (sr\<lparr>sr_transitions := n\<rparr>) k pre = processed C sr k pre"
  by (simp add: processed_def core_def linked_def edge_ok_def [abs_def] Let_def)

text \<open>One unobjectionable event, to a new state or to a known one.\<close>

lemma processed_new_state:
  assumes P: "processed C sr k pre" and new: "sr_seen sr t = None" and ok: "ck_invariant C t = Inr None"
    and st: "step C (sr_states sr ! k) l p t"
  shows "processed C (add_edge k (length (sr_states sr)) p (add_state k l t sr)) k (pre @ [Yield l t p None])"
proof -
  have P2: "processed C (add_state k l t sr) k pre" by (rule processed_add_state [OF P new st])
  have "edge_ok C (add_state k l t sr) k (Yield l t p None) (length (sr_states sr), p)"
    using ok processedD(6) [OF P2] by (auto simp: edge_ok_def add_state_def Let_def nth_append)
  then show ?thesis by (rule processed_add_edge [OF P2])
qed

lemma processed_known_state:
  assumes P: "processed C sr k pre" and known: "sr_seen sr t = Some j" and ok: "ck_invariant C t = Inr None"
  shows "processed C (add_edge k j p sr) k (pre @ [Yield l t p None])"
proof (rule processed_add_edge [OF P])
  have "j < length (sr_states sr)" "sr_states sr ! j = t"
    using coreD(7) [OF processedD(1) [OF P]] known by auto
  then show "edge_ok C sr k (Yield l t p None) (j, p)"
    using ok processedD(6) [OF P] by (auto simp: edge_ok_def)
qed

lemma expand_spec:
  "expand C mx k es any sr = Inr (any', sr') \<Longrightarrow> processed C sr k pre \<Longrightarrow>
   ck_successors C (sr_states sr ! k) = pre @ es \<Longrightarrow>
   processed C sr' k (ck_successors C (sr_states sr' ! k)) \<and> any' = (any \<or> es \<noteq> [])
     \<and> sr_states sr' ! k = sr_states sr ! k \<and> sr_reason sr' = sr_reason sr \<and> sr_witness sr' = sr_witness sr
   \<or> stopped C mx sr' \<and> sr_status sr' \<noteq> PASS_WITHIN_SCOPE"
proof (induction C mx k es any sr arbitrary: pre rule: expand.induct)
  case (1 C mx k any sr)
  then show ?case by simp
next
  case (2 C mx k x es any sr)
  then show ?case by simp
next
  case (3 C mx k label t progress violation es any sr)
  define sr1 where "sr1 = sr\<lparr>sr_transitions := sr_transitions sr + 1\<rparr>"
  define v where "v = (case violation of Some v \<Rightarrow> Inr (Some v) | None \<Rightarrow> ck_invariant C t)"
  note IH = "3.IH" [OF sr1_def, folded v_def]
  note eq = "3.prems"(1) [unfolded expand.simps, folded sr1_def v_def, unfolded Let_def]
  have same: "sr_states sr1 = sr_states sr" "sr_reason sr1 = sr_reason sr" "sr_witness sr1 = sr_witness sr"
    by (simp_all add: sr1_def)
  have P: "processed C sr1 k pre" using "3.prems"(2) unfolding sr1_def processed_transitions .
  note D = processedD [OF P] and E = coreD [OF processedD(1) [OF P]]
  have mem: "Yield label t progress violation \<in> set (ck_successors C (sr_states sr1 ! k))"
    using "3.prems"(3) by (simp add: same)
  then have st: "step C (sr_states sr1 ! k) label progress t" by (auto simp: step_iff)
  show ?case
  proof (cases v)
    case (Inl x)
    then show ?thesis using eq by simp
  next
    case (Inr w)
    show ?thesis
    proof (cases w)
      case (Some w')
      have viol: "violating C (sr_states sr1 ! k) label t w'"
        using mem Inr Some unfolding violating_def v_def by (auto split: option.splits)
      note ce = counterexample_found [OF P viol]
      have "sr' = sr1\<lparr>sr_status := FAIL_WITNESS, sr_witness := Some \<lparr>wt_property = Some w',
          wt_initial = ck_initial C, wt_steps = prefix_to sr1 k @ [(label, t)]\<rparr>\<rparr>"
        using eq Inr Some by simp
      then have "stopped C mx sr' \<and> sr_status sr' \<noteq> PASS_WITHIN_SCOPE"
        unfolding stopped_def using ce by auto
      then show ?thesis ..
    next
      case None
      with Inr have v: "v = Inr None" by simp
      then have ok: "violation = None" "ck_invariant C t = Inr None" by (auto simp: v_def split: option.splits)
      show ?thesis
      proof (cases "sr_seen sr1 t")
        case None
        show ?thesis
        proof (cases "length (sr_states sr1) \<ge> mx")
          case True
          then have "sr' = sr1\<lparr>sr_status := INCOMPLETE, sr_reason := Some ''state_budget''\<rparr>"
            using eq v None by simp
          moreover have "reach C t" using core_reach [OF D(1,2)] st by (rule reach.follow)
          moreover have "t \<notin> set (sr_states sr1)" using core_states [OF D(1)] None by simp
          moreover note core_distinct [OF D(1)] core_subset [OF D(1)]
          ultimately have "stopped C mx sr' \<and> sr_status sr' \<noteq> PASS_WITHIN_SCOPE"
            unfolding stopped_def using True by auto
          then show ?thesis ..
        next
          case False
          let ?N = "length (sr_states sr1)" and ?sr2 = "add_state k label t sr1"
          let ?sr3 = "add_edge k ?N progress ?sr2"
          have run: "expand C mx k es True ?sr3 = Inr (any', sr')" using eq v None False by simp
          have P3: "processed C ?sr3 k (pre @ [Yield label t progress violation])"
            using processed_new_state [OF P None ok(2) st] ok(1) by simp
          have "sr_states ?sr3 ! k = sr_states sr ! k" "sr_reason ?sr3 = sr_reason sr" "sr_witness ?sr3 = sr_witness sr"
            using D(2) by (simp_all add: add_edge_def add_state_def Let_def nth_append same)
          with IH(1) [OF v _ None False run P3] "3.prems"(3) show ?thesis by simp
        qed
      next
        case (Some tid)
        let ?sr3 = "add_edge k tid progress sr1"
        have run: "expand C mx k es True ?sr3 = Inr (any', sr')" using eq v Some by simp
        have P3: "processed C ?sr3 k (pre @ [Yield label t progress violation])"
          using processed_known_state [OF P Some ok(2)] ok(1) by simp
        have "sr_states ?sr3 ! k = sr_states sr ! k" "sr_reason ?sr3 = sr_reason sr" "sr_witness ?sr3 = sr_witness sr"
          by (simp_all add: add_edge_def same)
        with IH(2) [OF v _ Some run P3] "3.prems"(3) show ?thesis by simp
      qed
    qed
  qed
qed

lemma expand_extends:
  "expand C mx k es any sr = Inr (any', sr') \<Longrightarrow> \<exists>ts. sr_states sr' = sr_states sr @ ts"
proof (induction C mx k es any sr rule: expand.induct)
  case (3 C mx k label t progress violation es any sr)
  then show ?case
    by (auto simp: Let_def add_state_def add_edge_def split: sum.splits option.splits if_splits)
qed auto

text \<open>The search raises only what the model raises.\<close>

definition raises :: "('s, 'v) checker \<Rightarrow> exn \<Rightarrow> bool" where
  "raises C x \<longleftrightarrow> (\<exists>s. reach C s \<and> (Raise x \<in> set (ck_successors C s)
     \<or> (\<exists>l p t. step C s l p t \<and> ck_invariant C t = Inl x)))"

lemma expand_raises:
  "expand C mx k es any sr = Inl x \<Longrightarrow> processed C sr k pre \<Longrightarrow>
   ck_successors C (sr_states sr ! k) = pre @ es \<Longrightarrow> raises C x"
proof (induction C mx k es any sr arbitrary: pre rule: expand.induct)
  case (1 C mx k any sr)
  then show ?case by simp
next
  case (2 C mx k y es any sr)
  then have "Raise x \<in> set (ck_successors C (sr_states sr ! k))" by simp
  then show ?case using core_reach [OF processedD(1,2) [OF "2.prems"(2)]] unfolding raises_def by blast
next
  case (3 C mx k label t progress violation es any sr)
  define sr1 where "sr1 = sr\<lparr>sr_transitions := sr_transitions sr + 1\<rparr>"
  define v where "v = (case violation of Some v \<Rightarrow> Inr (Some v) | None \<Rightarrow> ck_invariant C t)"
  note IH = "3.IH" [OF sr1_def, folded v_def]
  note eq = "3.prems"(1) [unfolded expand.simps, folded sr1_def v_def, unfolded Let_def]
  have states: "sr_states sr1 = sr_states sr" by (simp add: sr1_def)
  have P: "processed C sr1 k pre" using "3.prems"(2) unfolding sr1_def processed_transitions .
  note D = processedD [OF P]
  have "Yield label t progress violation \<in> set (ck_successors C (sr_states sr1 ! k))"
    using "3.prems"(3) by (simp add: states)
  then have st: "step C (sr_states sr1 ! k) label progress t" by (auto simp: step_iff)
  show ?case
  proof (cases v)
    case (Inl y)
    then have "ck_invariant C t = Inl x" using eq by (auto simp: v_def split: option.splits)
    then show ?thesis using st core_reach [OF D(1,2)] unfolding raises_def by blast
  next
    case (Inr w)
    then have v: "v = Inr None" using eq by (cases w) auto
    then have ok: "violation = None" "ck_invariant C t = Inr None" by (auto simp: v_def split: option.splits)
    show ?thesis
    proof (cases "sr_seen sr1 t")
      case None
      then have lt: "\<not> length (sr_states sr1) \<ge> mx" using eq v by (auto split: if_splits)
      have run: "expand C mx k es True (add_edge k (length (sr_states sr1)) progress (add_state k label t sr1)) = Inl x"
        using eq v None lt by simp
      have "sr_states (add_edge k (length (sr_states sr1)) progress (add_state k label t sr1)) ! k = sr_states sr ! k"
        using D(2) by (simp add: add_edge_def add_state_def Let_def nth_append states)
      then show ?thesis
        using IH(1) [OF v _ None lt run processed_new_state [OF P None ok(2) st]] "3.prems"(3) ok(1) by simp
    next
      case (Some j)
      have run: "expand C mx k es True (add_edge k j progress sr1) = Inl x" using eq v Some by simp
      have "sr_states (add_edge k j progress sr1) ! k = sr_states sr ! k" by (simp add: add_edge_def states)
      then show ?thesis
        using IH(2) [OF v _ Some run processed_known_state [OF P Some ok(2), of progress label]] "3.prems"(3) ok(1) by simp
    qed
  qed
qed

section \<open>The main loop\<close>

text \<open>Between iterations: \<open>k\<close> states are processed and none of them is a deadlock.\<close>

definition loop_inv :: "('s, 'v) checker \<Rightarrow> ('s, 'v) search \<Rightarrow> nat \<Rightarrow> bool" where
  "loop_inv C sr k \<longleftrightarrow> core C sr \<and> k \<le> length (sr_states sr)
     \<and> (\<forall>i < k. linked C sr i (ck_successors C (sr_states sr ! i))
          \<and> (ck_successors C (sr_states sr ! i) = [] \<longrightarrow> ck_terminal C (sr_states sr ! i)))
     \<and> (\<forall>i. k \<le> i \<and> i < length (sr_states sr) \<longrightarrow> sr_edges sr ! i = [])
     \<and> (k < length (sr_states sr) \<longrightarrow>
          (\<forall>i < length (sr_states sr). sr_depths sr ! i \<le> sr_depths sr ! k + 1))
     \<and> sr_bfs sr = [k..<length (sr_states sr)] \<and> sr_reason sr = None \<and> sr_witness sr = None"

definition complete :: "('s, 'v) checker \<Rightarrow> ('s, 'v) search \<Rightarrow> bool" where
  "complete C sr \<longleftrightarrow> loop_inv C sr (length (sr_states sr))"

lemma loop_inv_start: "loop_inv C (search_start C) 0"
  unfolding loop_inv_def core_def search_start_def Let_def by auto

lemma processed_next:
  assumes P: "processed C sr k (ck_successors C (sr_states sr ! k))"
    and pre: "\<forall>i < k. ck_successors C (sr_states sr ! i) = [] \<longrightarrow> ck_terminal C (sr_states sr ! i)"
    and k: "ck_successors C (sr_states sr ! k) = [] \<longrightarrow> ck_terminal C (sr_states sr ! k)"
    and r: "sr_reason sr = None" "sr_witness sr = None"
  shows "loop_inv C sr (Suc k)"
proof -
  note D = processedD [OF P] and E = coreD [OF processedD(1) [OF P]]
  have "sr_depths sr ! i \<le> sr_depths sr ! Suc k + 1" if "Suc k < length (sr_states sr)" "i < length (sr_states sr)" for i
  proof -
    have "sr_depths sr ! k \<le> sr_depths sr ! Suc k" using E(3,10) that by (intro sorted_nth_mono) auto
    then show ?thesis using D(6) that(2) by (metis add_le_mono1 order_trans)
  qed
  then show ?thesis
    unfolding loop_inv_def using D E(11) pre k r by (auto simp: less_Suc_eq)
qed

definition verdict :: "('s, 'v) checker \<Rightarrow> nat \<Rightarrow> exn + ('s, 'v) search \<Rightarrow> bool" where
  "verdict C mx res \<longleftrightarrow> (case res of
     Inl x \<Rightarrow> raises C x
   | Inr sr \<Rightarrow> sr_status sr = PASS_WITHIN_SCOPE \<and> complete C sr
       \<or> stopped C mx sr \<and> sr_status sr \<noteq> PASS_WITHIN_SCOPE)"

lemma verdict_simps [simp]:
  "verdict C mx (Inl x) = raises C x"
  "sr_status sr \<noteq> PASS_WITHIN_SCOPE \<Longrightarrow> verdict C mx (Inr sr) = stopped C mx sr"
  by (auto simp: verdict_def)

lemma loop_invD:
  assumes "loop_inv C sr k"
  shows "core C sr" "k \<le> length (sr_states sr)"
    "\<forall>i < k. linked C sr i (ck_successors C (sr_states sr ! i))
       \<and> (ck_successors C (sr_states sr ! i) = [] \<longrightarrow> ck_terminal C (sr_states sr ! i))"
    "\<forall>i. k \<le> i \<and> i < length (sr_states sr) \<longrightarrow> sr_edges sr ! i = []"
    "k < length (sr_states sr) \<longrightarrow>
       (\<forall>i < length (sr_states sr). sr_depths sr ! i \<le> sr_depths sr ! k + 1)"
    "sr_bfs sr = [k..<length (sr_states sr)]" "sr_reason sr = None" "sr_witness sr = None"
  using assms unfolding loop_inv_def by - (elim conjE, assumption)+

text \<open>The state popped next starts being processed.\<close>

lemma processed_pop:
  assumes L: "loop_inv C sr k" and k: "k < length (sr_states sr)"
  shows "processed C (sr\<lparr>sr_bfs := [Suc k..<length (sr_states sr)], sr_terminals := n, sr_lag := b\<rparr>) k []"
proof -
  let ?sr1 = "sr\<lparr>sr_bfs := [Suc k..<length (sr_states sr)], sr_terminals := n, sr_lag := b\<rparr>"
  have lk: "linked C ?sr1 j es = linked C sr j es" for j es by (simp add: linked_def edge_ok_def [abs_def])
  have "core C ?sr1" by (rule core_same [OF loop_invD(1) [OF L]]) simp_all
  then show ?thesis
    unfolding processed_def using k loop_invD(3,4,5) [OF L] lk by (simp add: linked_def)
qed

lemma bfs_loop_spec: "loop_inv C sr k \<Longrightarrow> verdict C mx (bfs_loop C ahead mx late i sr)"
proof (induction C ahead mx late i sr arbitrary: k rule: bfs_loop.induct)
  case (1 C ahead mx late i sr)
  note L = loop_invD [OF "1.prems"]
  show ?case
  proof (cases "sr_bfs sr")
    case Nil
    then have "k = length (sr_states sr)" using L(2,6) by auto
    then have "complete C sr" using "1.prems" by (simp add: complete_def)
    then show ?thesis using coreD(11) [OF L(1)] Nil by (simp add: verdict_def bfs_loop.simps)
  next
    case (Cons sid rest)
    then have k: "k < length (sr_states sr)" "sid = k" "rest = [Suc k..<length (sr_states sr)]"
      using L(2,6) by (cases "k < length (sr_states sr)"; simp add: upt_conv_Cons)+
    show ?thesis
    proof (cases "late i")
      case True
      then show ?thesis using Cons by (simp add: bfs_loop.simps [of C ahead mx late i sr] stopped_def)
    next
      case False
      let ?s = "sr_states sr ! sid"
      let ?sr1 = "sr\<lparr>sr_bfs := rest, sr_terminals := sr_terminals sr + (if ck_terminal C ?s then 1 else 0),
          sr_lag := sr_lag sr \<or> ahead ?s\<rparr>"
      note loop = bfs_loop.simps [of C ahead mx late i sr] Cons False Let_def
      have P: "processed C ?sr1 k []" using processed_pop [OF "1.prems" k(1)] k(3) by simp
      show ?thesis
      proof (cases "expand C mx sid (ck_successors C ?s) False ?sr1")
        case (Inl x)
        have "raises C x" by (rule expand_raises [OF Inl]) (use P k(2) in simp_all)
        then show ?thesis using Inl by (simp add: loop)
      next
        case (Inr y)
        obtain any sr2 where y: "y = (any, sr2)" by (cases y)
        with Inr have ex: "expand C mx k (ck_successors C (sr_states sr ! k)) False ?sr1 = Inr (any, sr2)"
          using k(2) by simp
        from expand_spec [OF ex P] consider
            (through) "processed C sr2 k (ck_successors C (sr_states sr2 ! k))"
              "any = (ck_successors C (sr_states sr ! k) \<noteq> [])" "sr_states sr2 ! k = sr_states sr ! k"
              "sr_reason sr2 = None" "sr_witness sr2 = None"
          | (halt) "stopped C mx sr2" "sr_status sr2 \<noteq> PASS_WITHIN_SCOPE"
          using L(7,8) by auto
        then show ?thesis
        proof cases
          case halt
          then show ?thesis using Inr y by (simp add: loop)
        next
          case through
          note D2 = processedD [OF through(1)]
          have pass: "sr_status sr2 = PASS_WITHIN_SCOPE" by (rule coreD(11) [OF D2(1)])
          show ?thesis
          proof (cases "\<not> any \<and> \<not> ck_terminal C ?s")
            case True
            have "stopped C mx (sr2\<lparr>sr_deadends := sr_deadends sr2 + 1, sr_status := FAIL_DEADLOCK,
                sr_witness := Some \<lparr>wt_property = None, wt_initial = ck_initial C, wt_steps = prefix_to sr2 sid\<rparr>\<rparr>)"
              unfolding stopped_def using prefix_to_spec(1,2) [OF D2(1,2)] True through(2,3) k(2) by simp
            then show ?thesis using Inr y pass True by (simp add: loop)
          next
            case go: False
            have nth: "sr_states sr2 ! j = sr_states sr ! j" if "j < k" for j
              using expand_extends [OF ex] that k(1) by (auto simp: nth_append)
            have "loop_inv C sr2 (Suc k)"
              by (rule processed_next [OF through(1) _ _ through(4,5)]) (use L(3) nth through(2,3) go k(2) in auto)
            from "1.IH" [OF Cons False refl refl refl Inr y [symmetric] _ go this] pass
            have "verdict C mx (bfs_loop C ahead mx late (Suc i) sr2)" by simp
            moreover have "bfs_loop C ahead mx late i sr = bfs_loop C ahead mx late (Suc i) sr2"
              using Inr y pass go by (auto simp: loop)
            ultimately show ?thesis by simp
          qed
        qed
      qed
    qed
  qed
qed

section \<open>Verdicts\<close>

lemma complete_linked:
  assumes "complete C sr"
  shows "core C sr"
    and "\<And>i. i < length (sr_states sr) \<Longrightarrow> linked C sr i (ck_successors C (sr_states sr ! i))"
    and "\<And>i. i < length (sr_states sr) \<Longrightarrow> ck_successors C (sr_states sr ! i) = [] \<Longrightarrow>
      ck_terminal C (sr_states sr ! i)"
  using assms unfolding complete_def loop_inv_def by blast+

text \<open>A complete search has found exactly the reachable states.\<close>

lemma complete_reach:
  assumes c: "complete C sr"
  shows "set (sr_states sr) = {s. reach C s}"
proof (intro equalityI subsetI)
  fix s assume "s \<in> set (sr_states sr)"
  then show "s \<in> {s. reach C s}"
    using core_reach [OF complete_linked(1) [OF c]] by (auto simp: in_set_conv_nth)
next
  fix s assume "s \<in> {s. reach C s}"
  then have "reach C s" by simp
  then show "s \<in> set (sr_states sr)"
  proof (induction rule: reach.induct)
    case start
    then show ?case using coreD(4,5) [OF complete_linked(1) [OF c]] by (metis nth_mem)
  next
    case (follow s l p t)
    then obtain i where i: "i < length (sr_states sr)" "sr_states sr ! i = s" by (auto simp: in_set_conv_nth)
    from linked_targets [OF complete_linked(2) [OF c i(1)], unfolded i(2), OF follow.hyps(2)]
    show ?case by (metis nth_mem)
  qed
qed

lemma complete_targets_ok:
  assumes c: "complete C sr"
  shows "targets_ok (sr_edges sr)"
  unfolding targets_ok_def
proof (intro ballI, clarify)
  fix es j p assume e: "es \<in> set (sr_edges sr)" "(j, p) \<in> set es"
  note E = coreD [OF complete_linked(1) [OF c]]
  from e(1) E(2) obtain i where i: "i < length (sr_states sr)" "sr_edges sr ! i = es" by (auto simp: in_set_conv_nth)
  have l2: "list_all2 (edge_ok C sr i) (ck_successors C (sr_states sr ! i)) es"
    using complete_linked(2) [OF c i(1)] i(2) by (simp add: linked_def)
  obtain n where n: "n < length es" "es ! n = (j, p)" using e(2) by (auto simp: in_set_conv_nth)
  then have "edge_ok C sr i (ck_successors C (sr_states sr ! i) ! n) (j, p)"
    using list_all2_nthD2 [OF l2 n(1)] by simp
  then show "j < length (sr_edges sr)" using E(2) by (simp add: edge_ok_def)
qed

text \<open>The edges of a complete search are the transitions between reachable states.\<close>

lemma complete_edges:
  assumes c: "complete C sr" and i: "i < length (sr_states sr)"
  shows "(j, p) \<in> set (sr_edges sr ! i) \<longleftrightarrow>
    j < length (sr_states sr) \<and> (\<exists>l. step C (sr_states sr ! i) l p (sr_states sr ! j))"
proof
  have l2: "list_all2 (edge_ok C sr i) (ck_successors C (sr_states sr ! i)) (sr_edges sr ! i)"
    using complete_linked(2) [OF c i] by (simp add: linked_def)
  assume "(j, p) \<in> set (sr_edges sr ! i)"
  then obtain n where n: "n < length (sr_edges sr ! i)" "sr_edges sr ! i ! n = (j, p)"
    by (auto simp: in_set_conv_nth)
  have "n < length (ck_successors C (sr_states sr ! i))" using l2 n(1) by (auto dest: list_all2_lengthD)
  then have "ck_successors C (sr_states sr ! i) ! n \<in> set (ck_successors C (sr_states sr ! i))" by simp
  moreover have "edge_ok C sr i (ck_successors C (sr_states sr ! i) ! n) (j, p)"
    using list_all2_nthD2 [OF l2 n(1)] n(2) by simp
  ultimately show "j < length (sr_states sr) \<and> (\<exists>l. step C (sr_states sr ! i) l p (sr_states sr ! j))"
    by (auto simp: edge_ok_def step_iff) metis
next
  assume r: "j < length (sr_states sr) \<and> (\<exists>l. step C (sr_states sr ! i) l p (sr_states sr ! j))"
  then obtain l where "step C (sr_states sr ! i) l p (sr_states sr ! j)" by blast
  from linked_targets [OF complete_linked(2) [OF c i] this] obtain m where
    m: "m < length (sr_states sr)" "sr_states sr ! m = sr_states sr ! j" "(m, p) \<in> set (sr_edges sr ! i)" by blast
  have "m = j" using coreD(7) [OF complete_linked(1) [OF c]] m(1,2) r by (metis option.inject)
  then show "(j, p) \<in> set (sr_edges sr ! i)" using m(3) by simp
qed

text \<open>Idle cycles of the edge graph are idle cycles of reachable states.\<close>

lemma idle_path_append:
  "idle_path C t m u \<Longrightarrow> idle_path C s k t \<Longrightarrow> idle_path C s (k + m) u"
  by (induction rule: idle_path.induct) (auto intro: idle_path.intros)

lemma idle_edge_path:
  assumes c: "complete C sr" and e: "(i, j) \<in> (idle_edges (sr_edges sr))\<^sup>+"
  shows "i < length (sr_states sr) \<and> (\<exists>k > 0. idle_path C (sr_states sr ! i) k (sr_states sr ! j))"
  using e
proof (induction rule: trancl_induct)
  case (base j)
  then have "i < length (sr_states sr)" "(j, False) \<in> set (sr_edges sr ! i)"
    using coreD(2) [OF complete_linked(1) [OF c]] by (auto simp: idle_edges_def)
  then show ?case using complete_edges [OF c]
    by (metis idle_path.intros zero_less_Suc)
next
  case (step j m)
  then obtain k where k: "idle_path C (sr_states sr ! i) k (sr_states sr ! j)" by blast
  have "j < length (sr_states sr)" "(m, False) \<in> set (sr_edges sr ! j)"
    using step.hyps(2) coreD(2) [OF complete_linked(1) [OF c]] by (auto simp: idle_edges_def)
  then obtain l where "step C (sr_states sr ! j) l False (sr_states sr ! m)" using complete_edges [OF c] by blast
  then have "idle_path C (sr_states sr ! i) (Suc k) (sr_states sr ! m)" by (rule idle_step [OF k])
  then show ?case using step.IH by blast
qed

lemma idle_path_edges:
  assumes c: "complete C sr"
  shows "idle_path C s k t \<Longrightarrow> i < length (sr_states sr) \<Longrightarrow> sr_states sr ! i = s \<Longrightarrow>
    \<exists>j < length (sr_states sr). sr_states sr ! j = t \<and>
      (i, j) \<in> (idle_edges (sr_edges sr))\<^sup>* \<and> (k > 0 \<longrightarrow> (i, j) \<in> (idle_edges (sr_edges sr))\<^sup>+)"
proof (induction rule: idle_path.induct)
  case (idle_refl s)
  then show ?case by auto
next
  case (idle_step s k t l u)
  then obtain j where j: "j < length (sr_states sr)" "sr_states sr ! j = t"
    "(i, j) \<in> (idle_edges (sr_edges sr))\<^sup>*" by blast
  obtain m where m: "m < length (sr_states sr)" "sr_states sr ! m = u" "(m, False) \<in> set (sr_edges sr ! j)"
    using linked_targets [OF complete_linked(2) [OF c j(1)]] idle_step.hyps(2) j(2) by blast
  then have "(j, m) \<in> idle_edges (sr_edges sr)"
    using j(1) coreD(2) [OF complete_linked(1) [OF c]] by (simp add: idle_edges_def)
  then have "(i, m) \<in> (idle_edges (sr_edges sr))\<^sup>+" using j(3) by (rule rtrancl_into_trancl1 [rotated])
  then show ?case using m by (auto intro: trancl_into_rtrancl)
qed

lemma acyclic_iff_no_idle_cycle:
  assumes c: "complete C sr"
  shows "acyclic (idle_edges (sr_edges sr)) \<longleftrightarrow> (\<forall>s k. reach C s \<longrightarrow> idle_path C s k s \<longrightarrow> k = 0)"
proof
  assume ac: "acyclic (idle_edges (sr_edges sr))"
  show "\<forall>s k. reach C s \<longrightarrow> idle_path C s k s \<longrightarrow> k = 0"
  proof (intro allI impI)
    fix s k assume "reach C s" and p: "idle_path C s k s"
    then have "s \<in> set (sr_states sr)" using complete_reach [OF c] by simp
    then obtain i where i: "i < length (sr_states sr)" "sr_states sr ! i = s" by (auto simp: in_set_conv_nth)
    from idle_path_edges [OF c p i] obtain j where j: "j < length (sr_states sr)" "sr_states sr ! j = s"
      "k > 0 \<longrightarrow> (i, j) \<in> (idle_edges (sr_edges sr))\<^sup>+" by blast
    have "j = i" using coreD(7) [OF complete_linked(1) [OF c]] j(1,2) i by (metis option.inject)
    then show "k = 0" using j(3) ac by (auto simp: acyclic_def)
  qed
next
  assume none: "\<forall>s k. reach C s \<longrightarrow> idle_path C s k s \<longrightarrow> k = 0"
  show "acyclic (idle_edges (sr_edges sr))"
    unfolding acyclic_def
  proof (intro allI notI)
    fix i assume "(i, i) \<in> (idle_edges (sr_edges sr))\<^sup>+"
    from idle_edge_path [OF c this] obtain k where "i < length (sr_states sr)" "k > 0"
      "idle_path C (sr_states sr ! i) k (sr_states sr ! i)" by blast
    then show False using none core_reach [OF complete_linked(1) [OF c]] by blast
  qed
qed

text \<open>The five verdicts of \<open>run\<close>.\<close>

definition all_good :: "('s, 'v) checker \<Rightarrow> bool" where
  "all_good C \<longleftrightarrow>
     (\<forall>s. reach C s \<longrightarrow>
        (\<forall>e \<in> set (ck_successors C s). \<exists>l t p. e = Yield l t p None \<and> ck_invariant C t = Inr None)
        \<and> (ck_successors C s = [] \<longrightarrow> ck_terminal C s))"

lemma complete_all_good:
  assumes c: "complete C sr"
  shows "all_good C"
  unfolding all_good_def
proof (intro allI impI conjI ballI)
  fix s assume "reach C s"
  then have "s \<in> set (sr_states sr)" using complete_reach [OF c] by simp
  then obtain i where i: "i < length (sr_states sr)" "sr_states sr ! i = s" by (auto simp: in_set_conv_nth)
  show "ck_successors C s = [] \<Longrightarrow> ck_terminal C s" using complete_linked(3) [OF c i(1)] i(2) by simp
  fix e assume "e \<in> set (ck_successors C s)"
  then obtain n where n: "n < length (ck_successors C s)" "ck_successors C s ! n = e" by (auto simp: in_set_conv_nth)
  have "list_all2 (edge_ok C sr i) (ck_successors C s) (sr_edges sr ! i)"
    using complete_linked(2) [OF c i(1)] i(2) by (simp add: linked_def)
  from list_all2_nthD [OF this n(1)] n(2)
  show "\<exists>l t p. e = Yield l t p None \<and> ck_invariant C t = Inr None"
    by (auto simp: edge_ok_def split: prod.splits)
qed

text \<open>How a report comes about.\<close>

lemma run_inv:
  assumes "run C ahead mx late = Inr r"
  obtains (complete) sr x where "complete C sr"
      "r = report_of (if x \<noteq> 0 then FAIL_PROGRESS_CYCLE else PASS_WITHIN_SCOPE) (Some x) sr"
      "x = 0 \<longleftrightarrow> (\<forall>s k. reach C s \<longrightarrow> idle_path C s k s \<longrightarrow> k = 0)"
  | (stopped) sr where "stopped C mx sr" "sr_status sr \<noteq> PASS_WITHIN_SCOPE"
      "r = report_of (sr_status sr) None sr"
proof -
  obtain sr where sr: "bfs_loop C ahead mx late 0 (search_start C) = Inr sr"
    using assms by (auto simp: run_def split: sum.splits)
  from bfs_loop_spec [OF loop_inv_start, of C mx ahead late 0] sr
  consider (c) "sr_status sr = PASS_WITHIN_SCOPE" "complete C sr"
    | (s) "stopped C mx sr" "sr_status sr \<noteq> PASS_WITHIN_SCOPE" by (auto simp: verdict_def)
  then show thesis
  proof cases
    case c
    obtain x where x: "residue (sr_edges sr) = Inr x" "x = 0 \<longleftrightarrow> acyclic (idle_edges (sr_edges sr))"
      using residue_spec [OF complete_targets_ok [OF c(2)]] by blast
    have "r = report_of (if x \<noteq> 0 then FAIL_PROGRESS_CYCLE else PASS_WITHIN_SCOPE) (Some x) sr"
      using assms sr c(1) x(1) by (simp add: run_def split: if_splits)
    moreover have "x = 0 \<longleftrightarrow> (\<forall>s k. reach C s \<longrightarrow> idle_path C s k s \<longrightarrow> k = 0)"
      unfolding x(2) by (rule acyclic_iff_no_idle_cycle [OF c(2)])
    ultimately show thesis by (rule complete [OF c(2)])
  next
    case s
    then show thesis using assms sr by (intro stopped [of sr]) (simp_all add: run_def)
  qed
qed

lemma run_raises:
  assumes "run C ahead mx late = Inl x"
  shows "raises C x"
proof (cases "bfs_loop C ahead mx late 0 (search_start C)")
  case (Inl y)
  then show ?thesis
    using assms bfs_loop_spec [OF loop_inv_start, of C mx ahead late 0] by (simp add: run_def)
next
  case (Inr sr)
  have "complete C sr" if "sr_status sr = PASS_WITHIN_SCOPE"
    using bfs_loop_spec [OF loop_inv_start, of C mx ahead late 0] Inr that by (auto simp: verdict_def stopped_def)
  then have "\<exists>y. residue (sr_edges sr) = Inr y" if "sr_status sr = PASS_WITHIN_SCOPE"
    using residue_spec [OF complete_targets_ok] that by blast
  then show ?thesis using assms Inr by (auto simp: run_def split: if_splits sum.splits)
qed

lemma complete_card:
  assumes "complete C sr"
  shows "finite {s. reach C s}" "length (sr_states sr) = card {s. reach C s}"
  using complete_reach [OF assms] core_distinct [OF complete_linked(1) [OF assms]]
  by (metis finite_set, metis distinct_card)

lemma run_pass:
  assumes r: "run C ahead mx late = Inr r" and p: "rp_status r = PASS_WITHIN_SCOPE"
  shows "all_good C \<and> (\<forall>s k. reach C s \<longrightarrow> idle_path C s k s \<longrightarrow> k = 0)
    \<and> finite {s. reach C s} \<and> rp_states r = card {s. reach C s} \<and> rp_exhaustive r"
  using r
proof (cases rule: run_inv)
  case (complete sr x)
  then show ?thesis
    using p complete_all_good [OF complete(1)] complete_card [OF complete(1)]
    by (auto simp: report_of_def split: if_splits)
qed (use p in \<open>simp add: report_of_def\<close>)

lemma run_cycle:
  assumes r: "run C ahead mx late = Inr r" and p: "rp_status r = FAIL_PROGRESS_CYCLE"
  shows "all_good C \<and> (\<exists>s k. reach C s \<and> 0 < k \<and> idle_path C s k s)"
  using r
proof (cases rule: run_inv)
  case (complete sr x)
  then show ?thesis
    using p complete_all_good [OF complete(1)] by (auto simp: report_of_def split: if_splits)
qed (use p in \<open>auto simp: report_of_def stopped_def\<close>)

lemma run_witness:
  assumes r: "run C ahead mx late = Inr r" and p: "rp_status r = FAIL_WITNESS"
  shows "\<exists>steps w. rp_witness r = Some \<lparr>wt_property = Some w, wt_initial = ck_initial C, wt_steps = steps\<rparr>
    \<and> counterexample C steps w \<and> (\<forall>ys w'. counterexample C ys w' \<longrightarrow> length steps \<le> length ys)"
  using r
proof (cases rule: run_inv)
  case (complete sr x)
  then show ?thesis using p by (auto simp: report_of_def split: if_splits)
next
  case (stopped sr)
  then show ?thesis using p by (auto simp: report_of_def stopped_def)
qed

lemma run_deadlock:
  assumes r: "run C ahead mx late = Inr r" and p: "rp_status r = FAIL_DEADLOCK"
  shows "\<exists>steps. rp_witness r = Some \<lparr>wt_property = None, wt_initial = ck_initial C, wt_steps = steps\<rparr>
    \<and> chain C (ck_initial C) steps \<and> ck_successors C (end_of (ck_initial C) steps) = []
    \<and> \<not> ck_terminal C (end_of (ck_initial C) steps)"
  using r
proof (cases rule: run_inv)
  case (complete sr x)
  then show ?thesis using p by (auto simp: report_of_def split: if_splits)
next
  case (stopped sr)
  then show ?thesis using p by (auto simp: report_of_def stopped_def)
qed

lemma run_incomplete:
  assumes r: "run C ahead mx late = Inr r" and p: "rp_status r = INCOMPLETE"
  shows "rp_cutoff r = Some ''wall_budget'' \<or> rp_cutoff r = Some ''state_budget'' \<and> mx \<le> rp_states r
    \<and> (finite {s. reach C s} \<longrightarrow> rp_states r < card {s. reach C s})"
  using r
proof (cases rule: run_inv)
  case (complete sr x)
  then show ?thesis using p by (auto simp: report_of_def split: if_splits)
next
  case (stopped sr)
  then have c: "sr_reason sr = Some ''wall_budget'' \<or> sr_reason sr = Some ''state_budget''
      \<and> mx \<le> length (sr_states sr) \<and> distinct (sr_states sr) \<and> set (sr_states sr) \<subset> {s. reach C s}"
    using p by (auto simp: report_of_def stopped_def)
  have "length (sr_states sr) < card {s. reach C s}"
    if "distinct (sr_states sr)" "set (sr_states sr) \<subset> {s. reach C s}" "finite {s. reach C s}"
    using psubset_card_mono [OF that(3,2)] distinct_card [OF that(1)] by simp
  then show ?thesis using c stopped(3) by (auto simp: report_of_def)
qed

end
