(* ===== verification/Explore_Claims.thy ===== *)
theory Explore_Claims
  imports Explore_Search
begin

text \<open>
  The properties of the explorer, for every model, state budget and clock.
\<close>

text \<open>A three-state model for the witnesses: 0, 1, 2, with the check \<open>v\<close> and the events \<open>es\<close> of state 2.\<close>

definition demo :: "(exn + string option) \<Rightarrow> bool \<Rightarrow> (nat, string) event list \<Rightarrow> (nat, string) checker" where
  "demo v fin es = \<lparr>ck_initial = 0, ck_invariant = (\<lambda>s. if s = 2 then v else Inr None),
     ck_terminal = (\<lambda>s. s = 2 \<and> fin),
     ck_successors = (\<lambda>s. if s < 2 then [Yield ''step'' (s + 1) False None] else es)\<rparr>"

lemmas demo_run = run_def bfs_loop.simps search_start_def demo_def Let_def add_state_def add_edge_def
  prefix_to_def residue_def report_of_def

text \<open>C11: A passing exploration is exhaustive and exact: every transition of every reachable state
  yields a state whose check succeeds, with no violation and no exception, only terminal states have
  no successors, no cycle of steps without progress exists, and the reported number of states is the
  number of reachable states.\<close>

theorem pass_is_exhaustive:
  assumes "run C ahead mx late = Inr r" "rp_status r = PASS_WITHIN_SCOPE"
  shows "all_good C \<and> (\<forall>s k. reach C s \<longrightarrow> idle_path C s k s \<longrightarrow> k = 0)
    \<and> finite {s. reach C s} \<and> rp_states r = card {s. reach C s} \<and> rp_exhaustive r"
  by (rule run_pass [OF assms])

theorem pass_is_exhaustive_witness: "\<exists>r. run (demo (Inr None) True []) (\<lambda>s. False) 5 (\<lambda>i. False) = Inr r
    \<and> rp_states r = card {s. reach (demo (Inr None) True []) s}"
proof -
  have "\<exists>r. run (demo (Inr None) True []) (\<lambda>s. False) 5 (\<lambda>i. False) = Inr r \<and> rp_status r = PASS_WITHIN_SCOPE"
    by (simp add: demo_run)
  then show ?thesis using pass_is_exhaustive by blast
qed

text \<open>C12: A failing exploration reports a genuine counterexample: its steps are transitions from the
  initial state, the last one violates the reported property, and no violating execution is shorter.\<close>

theorem witness_is_shortest:
  assumes "run C ahead mx late = Inr r" "rp_status r = FAIL_WITNESS"
  shows "\<exists>steps w. rp_witness r = Some \<lparr>wt_property = Some w, wt_initial = ck_initial C, wt_steps = steps\<rparr>
    \<and> counterexample C steps w \<and> (\<forall>ys w'. counterexample C ys w' \<longrightarrow> length steps \<le> length ys)"
  by (rule run_witness [OF assms])

theorem witness_is_shortest_witness:
  "\<exists>steps. counterexample (demo (Inr (Some ''bad'')) True []) steps ''bad''
     \<and> (\<forall>ys w'. counterexample (demo (Inr (Some ''bad'')) True []) ys w' \<longrightarrow> length steps \<le> length ys)"
proof -
  obtain r where r: "run (demo (Inr (Some ''bad'')) True []) (\<lambda>s. False) 5 (\<lambda>i. False) = Inr r"
    "rp_status r = FAIL_WITNESS" "\<exists>w. rp_witness r = Some w \<and> wt_property w = Some ''bad''"
    by (simp add: demo_run)
  from witness_is_shortest [OF r(1,2)] obtain steps w where
    w: "rp_witness r = Some \<lparr>wt_property = Some w, wt_initial = ck_initial (demo (Inr (Some ''bad'')) True []), wt_steps = steps\<rparr>"
    and c: "counterexample (demo (Inr (Some ''bad'')) True []) steps w"
      "\<forall>ys w'. counterexample (demo (Inr (Some ''bad'')) True []) ys w' \<longrightarrow> length steps \<le> length ys" by blast
  have "w = ''bad''" using w r(3) by auto
  with c show ?thesis by blast
qed

text \<open>C13: A reported deadlock is genuine: the reported steps lead to a state without successors that
  is not terminal.\<close>

theorem deadlock_is_genuine:
  assumes "run C ahead mx late = Inr r" "rp_status r = FAIL_DEADLOCK"
  shows "\<exists>steps. rp_witness r = Some \<lparr>wt_property = None, wt_initial = ck_initial C, wt_steps = steps\<rparr>
    \<and> chain C (ck_initial C) steps \<and> ck_successors C (end_of (ck_initial C) steps) = []
    \<and> \<not> ck_terminal C (end_of (ck_initial C) steps)"
  by (rule run_deadlock [OF assms])

theorem deadlock_is_genuine_witness:
  "\<exists>steps. chain (demo (Inr None) False []) 0 steps
    \<and> \<not> ck_terminal (demo (Inr None) False []) (end_of 0 steps)"
proof -
  obtain r where r: "run (demo (Inr None) False []) (\<lambda>s. False) 5 (\<lambda>i. False) = Inr r"
    "rp_status r = FAIL_DEADLOCK" by (simp add: demo_run)
  have "ck_initial (demo (Inr None) False []) = 0" by (simp add: demo_def)
  with deadlock_is_genuine [OF r] show ?thesis by auto
qed

text \<open>C14: A reported progress cycle is genuine: everything is explored without violation or deadlock,
  and some reachable state lies on a cycle of one or more steps without progress.\<close>

theorem cycle_is_genuine:
  assumes "run C ahead mx late = Inr r" "rp_status r = FAIL_PROGRESS_CYCLE"
  shows "all_good C \<and> (\<exists>s k. reach C s \<and> 0 < k \<and> idle_path C s k s)"
  by (rule run_cycle [OF assms])

theorem cycle_is_genuine_witness:
  "\<exists>s k. reach (demo (Inr None) True [Yield ''back'' 1 False None]) s \<and> 0 < k
    \<and> idle_path (demo (Inr None) True [Yield ''back'' 1 False None]) s k s"
proof -
  obtain r where r: "run (demo (Inr None) True [Yield ''back'' 1 False None]) (\<lambda>s. False) 5 (\<lambda>i. False) = Inr r"
    "rp_status r = FAIL_PROGRESS_CYCLE" by (simp add: demo_run positive_def)
  from cycle_is_genuine [OF r] show ?thesis by blast
qed

text \<open>An incomplete exploration ran out of time, or ran out of its state budget with reachable
  states left over; it is never labelled a pass.\<close>

theorem incomplete_is_cut_off:
  assumes "run C ahead mx late = Inr r" "rp_status r = INCOMPLETE"
  shows "rp_cutoff r = Some ''wall_budget'' \<or> rp_cutoff r = Some ''state_budget'' \<and> mx \<le> rp_states r
    \<and> (finite {s. reach C s} \<longrightarrow> rp_states r < card {s. reach C s})"
  by (rule run_incomplete [OF assms])

theorem incomplete_is_cut_off_witness:
  "\<exists>r. run (demo (Inr None) True []) (\<lambda>s. False) 2 (\<lambda>i. False) = Inr r
    \<and> (rp_cutoff r = Some ''wall_budget'' \<or> rp_cutoff r = Some ''state_budget'' \<and> 2 \<le> rp_states r)"
proof -
  obtain r where r: "run (demo (Inr None) True []) (\<lambda>s. False) 2 (\<lambda>i. False) = Inr r" "rp_status r = INCOMPLETE"
    by (simp add: demo_run)
  from incomplete_is_cut_off [OF r] r(1) show ?thesis by blast
qed

text \<open>Exceptions: the exploration raises only an exception that the generator or the check of a
  reachable transition raises.\<close>

theorem run_raises_only_the_models:
  assumes "run C ahead mx late = Inl x"
  shows "\<exists>s. reach C s \<and> (Raise x \<in> set (ck_successors C s)
    \<or> (\<exists>l p t. step C s l p t \<and> ck_invariant C t = Inl x))"
  using run_raises [OF assms] by (simp add: raises_def)

theorem run_raises_only_the_models_witness:
  "\<exists>s. reach (demo (Inr None) True [Raise IndexError]) s
    \<and> (Raise IndexError \<in> set (ck_successors (demo (Inr None) True [Raise IndexError]) s)
      \<or> (\<exists>l p t. step (demo (Inr None) True [Raise IndexError]) s l p t
            \<and> ck_invariant (demo (Inr None) True [Raise IndexError]) t = Inl IndexError))"
  by (rule run_raises_only_the_models [where ahead = "\<lambda>s. False" and mx = 5 and late = "\<lambda>i. False"])
    (simp add: demo_run)

text \<open>C15: The elimination always ends, and its residue is zero exactly when the graph of edges without
  progress is acyclic.\<close>

theorem elimination_is_exact:
  assumes "\<forall>es \<in> set edges. \<forall>(j, p) \<in> set es. j < length edges"
  shows "\<exists>r \<ge> 0. residue edges = Inr r \<and> (r = 0 \<longleftrightarrow> acyclic (idle_edges edges))"
  using residue_spec [of edges] assms by (simp add: targets_ok_def)

theorem elimination_is_exact_witness:
  "\<exists>r \<ge> 0. residue [[(1, False)], [(0, True)]] = Inr r \<and> (r = 0 \<longleftrightarrow> acyclic (idle_edges [[(1, False)], [(0, True)]]))"
  by (rule elimination_is_exact) simp

end
