(* ===== verification/Effects.thy ===== *)
theory Effects
  imports Prelude
begin

text \<open>
  Stateful Python code that may raise: a program maps a state to an exception or a value and the
  state it leaves behind, effects before a raise included. \<open>attempt\<close> is \<open>try ... except\<close>. The weakest
  precondition \<open>wp m Q E\<close> asks for \<open>Q\<close> when \<open>m\<close> returns and for \<open>E\<close> when it raises; its equations
  are in \<open>wp_simps\<close>, and \<open>keeps I m\<close> says that \<open>m\<close> preserves \<open>I\<close> on both exits.
\<close>

section \<open>Programs\<close>

type_synonym ('s, 'e, 'a) prog = "'s \<Rightarrow> ('e + 'a) \<times> 's"

definition ret :: "'a \<Rightarrow> ('s, 'e, 'a) prog" where
  "ret a = (\<lambda>s. (Inr a, s))"

definition throw :: "'e \<Rightarrow> ('s, 'e, 'a) prog" where
  "throw e = (\<lambda>s. (Inl e, s))"

definition bind :: "('s, 'e, 'a) prog \<Rightarrow> ('a \<Rightarrow> ('s, 'e, 'b) prog) \<Rightarrow> ('s, 'e, 'b) prog" where
  "bind m k = (\<lambda>s. case m s of (Inl e, t) \<Rightarrow> (Inl e, t) | (Inr a, t) \<Rightarrow> k a t)"

definition andthen :: "('s, 'e, 'a) prog \<Rightarrow> ('s, 'e, 'b) prog \<Rightarrow> ('s, 'e, 'b) prog" where
  "andthen m n = bind m (\<lambda>_. n)"

definition attempt :: "('s, 'e, 'a) prog \<Rightarrow> ('e \<Rightarrow> ('s, 'e, 'a) prog) \<Rightarrow> ('s, 'e, 'a) prog" where
  "attempt m h = (\<lambda>s. case m s of (Inl e, t) \<Rightarrow> h e t | (Inr a, t) \<Rightarrow> (Inr a, t))"

definition gets :: "('s \<Rightarrow> 'a) \<Rightarrow> ('s, 'e, 'a) prog" where
  "gets f = (\<lambda>s. (Inr (f s), s))"

definition modify :: "('s \<Rightarrow> 's) \<Rightarrow> ('s, 'e, unit) prog" where
  "modify f = (\<lambda>s. (Inr (), f s))"

definition guard :: "bool \<Rightarrow> 'e \<Rightarrow> ('s, 'e, unit) prog" where
  "guard b e = (if b then ret () else throw e)"

fun lift_sum :: "('e \<Rightarrow> 'f) \<Rightarrow> 'e + 'a \<Rightarrow> ('s, 'f, 'a) prog" where
  "lift_sum f (Inl e) = throw (f e)"
| "lift_sum f (Inr a) = ret a"

fun for_each :: "('a \<Rightarrow> ('s, 'e, unit) prog) \<Rightarrow> 'a list \<Rightarrow> ('s, 'e, unit) prog" where
  "for_each f [] = ret ()"
| "for_each f (x # xs) = andthen (f x) (for_each f xs)"

section \<open>Weakest preconditions\<close>

definition wp :: "('s, 'e, 'a) prog \<Rightarrow> ('a \<Rightarrow> 's \<Rightarrow> bool) \<Rightarrow> ('e \<Rightarrow> 's \<Rightarrow> bool) \<Rightarrow> 's \<Rightarrow> bool" where
  "wp m Q E s = (case m s of (Inl e, t) \<Rightarrow> E e t | (Inr a, t) \<Rightarrow> Q a t)"

named_theorems wp_simps \<open>weakest preconditions of the program combinators\<close>

lemma wp_ret [wp_simps]: "wp (ret a) Q E s \<longleftrightarrow> Q a s"
  by (simp add: wp_def ret_def)

lemma wp_throw [wp_simps]: "wp (throw e) Q E s \<longleftrightarrow> E e s"
  by (simp add: wp_def throw_def)

lemma wp_bind [wp_simps]: "wp (bind m k) Q E s \<longleftrightarrow> wp m (\<lambda>a. wp (k a) Q E) E s"
  by (auto simp: wp_def bind_def split: sum.splits prod.splits)

lemma wp_andthen [wp_simps]: "wp (andthen m n) Q E s \<longleftrightarrow> wp m (\<lambda>a. wp n Q E) E s"
  by (simp add: andthen_def wp_bind)

lemma wp_attempt [wp_simps]: "wp (attempt m h) Q E s \<longleftrightarrow> wp m Q (\<lambda>e. wp (h e) Q E) s"
  by (auto simp: wp_def attempt_def split: sum.splits prod.splits)

lemma wp_gets [wp_simps]: "wp (gets f) Q E s \<longleftrightarrow> Q (f s) s"
  by (simp add: wp_def gets_def)

lemma wp_modify [wp_simps]: "wp (modify f) Q E s \<longleftrightarrow> Q () (f s)"
  by (simp add: wp_def modify_def)

lemma wp_guard [wp_simps]: "wp (guard b e) Q E s \<longleftrightarrow> (if b then Q () s else E e s)"
  by (simp add: guard_def wp_simps)

lemma wp_lift_sum [wp_simps]:
  "wp (lift_sum f r) Q E s \<longleftrightarrow> (case r of Inl e \<Rightarrow> E (f e) s | Inr a \<Rightarrow> Q a s)"
  by (cases r) (simp_all add: wp_simps)

lemma wp_if [wp_simps]: "wp (if b then m else n) Q E s \<longleftrightarrow> (if b then wp m Q E s else wp n Q E s)"
  by simp

lemma wp_let [wp_simps]: "wp (let x = v in m x) Q E s \<longleftrightarrow> (let x = v in wp (m x) Q E s)"
  by simp

lemma wp_prod [wp_simps]: "wp (case p of (a, b) \<Rightarrow> m a b) Q E s \<longleftrightarrow> (case p of (a, b) \<Rightarrow> wp (m a b) Q E s)"
  by (cases p) simp

lemma wp_option [wp_simps]:
  "wp (case x of None \<Rightarrow> m | Some a \<Rightarrow> k a) Q E s \<longleftrightarrow> (case x of None \<Rightarrow> wp m Q E s | Some a \<Rightarrow> wp (k a) Q E s)"
  by (cases x) simp_all

lemma wp_mono:
  assumes "wp m Q E s" "\<And>a t. Q a t \<Longrightarrow> Q' a t" "\<And>e t. E e t \<Longrightarrow> E' e t"
  shows "wp m Q' E' s"
  using assms by (auto simp: wp_def split: sum.splits prod.splits)

lemma wp_conj: "wp m Q E s \<Longrightarrow> wp m Q' E' s \<Longrightarrow> wp m (\<lambda>a t. Q a t \<and> Q' a t) (\<lambda>e t. E e t \<and> E' e t) s"
  by (auto simp: wp_def split: sum.splits prod.splits)

lemma wp_outcome: "wp m Q E s \<Longrightarrow> (case m s of (Inl e, t) \<Rightarrow> E e t | (Inr a, t) \<Rightarrow> Q a t)"
  by (simp add: wp_def)

section \<open>Preservation\<close>

definition keeps :: "('s \<Rightarrow> bool) \<Rightarrow> ('s, 'e, 'a) prog \<Rightarrow> bool" where
  "keeps I m \<longleftrightarrow> (\<forall>s. I s \<longrightarrow> I (snd (m s)))"

lemma wp_same: "wp m (\<lambda>_. I) (\<lambda>_. I) s \<longleftrightarrow> I (snd (m s))"
  by (cases "m s") (simp add: wp_def split: sum.splits)

lemma keeps_wp: "keeps I m \<longleftrightarrow> (\<forall>s. I s \<longrightarrow> wp m (\<lambda>_. I) (\<lambda>_. I) s)"
  by (simp add: keeps_def wp_same)

lemma keepsI: "(\<And>s. I s \<Longrightarrow> wp m (\<lambda>_. I) (\<lambda>_. I) s) \<Longrightarrow> keeps I m"
  by (simp add: keeps_wp)

lemma keepsD: "keeps I m \<Longrightarrow> I s \<Longrightarrow> I (snd (m s))"
  by (simp add: keeps_def)

lemma keeps_simps [intro!, simp]:
  "keeps I (ret a)" "keeps I (throw e)" "keeps I (gets f)" "keeps I (guard b e)" "keeps I (lift_sum g r)"
  by (auto simp: keeps_wp wp_simps split: sum.splits)

lemma keeps_bind [intro]: "keeps I m \<Longrightarrow> (\<And>a. keeps I (k a)) \<Longrightarrow> keeps I (bind m k)"
  by (simp add: keeps_wp wp_simps) (blast intro: wp_mono)

lemma keeps_andthen [intro]: "keeps I m \<Longrightarrow> keeps I n \<Longrightarrow> keeps I (andthen m n)"
  by (simp add: andthen_def keeps_bind)

lemma keeps_attempt [intro]: "keeps I m \<Longrightarrow> (\<And>e. keeps I (h e)) \<Longrightarrow> keeps I (attempt m h)"
  by (simp add: keeps_wp wp_simps) (blast intro: wp_mono)

lemma keeps_for_each [intro]: "(\<And>x. x \<in> set xs \<Longrightarrow> keeps I (f x)) \<Longrightarrow> keeps I (for_each f xs)"
  by (induction xs) auto

lemma keeps_if [intro]: "(b \<Longrightarrow> keeps I m) \<Longrightarrow> (\<not> b \<Longrightarrow> keeps I n) \<Longrightarrow> keeps I (if b then m else n)"
  by simp

lemma wp_keeps: "keeps I m \<Longrightarrow> I s \<Longrightarrow> wp m (\<lambda>_. I) (\<lambda>_. I) s"
  by (simp add: keeps_wp)

end
