(* ===== verification/Wire.thy ===== *)
theory Wire
  imports Prelude "HOL-Library.Word"
begin

text \<open>
  The process-local structures of \<open>elite_ringbuffer/_native.py\<close> with their layout check, and the
  fieldwise control encoding of grants and receipts in \<open>elite_ringbuffer/__init__.py\<close> (\<open>_uint\<close>,
  \<open>_encode\<close>, \<open>_decode\<close>). A structure instance is the list of its field values; Python strings are
  \<open>string\<close> (code points below 256).
\<close>

section \<open>Structures and their layout\<close>

datatype ctype = C_CHAR nat | C_UINT8 nat | C_UINT32 | C_INT32 | C_UINT64 | C_UINT64S nat | C_VOID_P

type_synonym cfields = "(string \<times> ctype) list"

abbreviation ID :: ctype where "ID \<equiv> C_UINT8 16"

definition Result_fields :: cfields where
  "Result_fields = [(''status'', C_UINT32), (''outcome'', C_UINT32), (''os_error'', C_INT32),
     (''reserved'', C_UINT32)]"

definition Lease_fields :: cfields where
  "Lease_fields = [(''opaque'', C_UINT64S 10)]"

definition WriteSpan_fields :: cfields where
  "WriteSpan_fields = [(''data'', C_VOID_P), (''capacity'', C_UINT32)]"

definition ReadSpan_fields :: cfields where
  "ReadSpan_fields = [(''data'', C_VOID_P), (''length'', C_UINT32), (''message_type'', C_UINT32),
     (''message_id'', C_UINT64), (''epoch'', C_UINT64)]"

definition Definition_fields :: cfields where
  "Definition_fields = [(''endpoint_id'', ID), (''process_incarnation_id'', ID), (''role'', C_UINT32)]"

definition Config_fields :: cfields where
  "Config_fields = [(''layout_profile'', C_UINT32), (''wait_mode'', C_UINT32),
     (''payload_checksum_mode'', C_UINT32), (''max_payload_bytes'', C_UINT32), (''capacity'', C_UINT64),
     (''producer_endpoints'', C_UINT32), (''consumer_endpoints'', C_UINT32),
     (''creation_utc_ns'', C_UINT64)]"

definition Grant_fields :: cfields where
  "Grant_fields = [(''name'', C_CHAR 31), (''constructed'', C_UINT32), (''segment_bytes'', C_UINT64),
     (''header_crc32'', C_UINT32), (''layout_profile'', C_UINT32), (''atomic_abi_id'', C_UINT32),
     (''endpoint_index'', C_UINT32), (''role'', C_UINT32), (''authority_epoch'', C_UINT64),
     (''grant_epoch'', C_UINT64), (''session_id'', ID), (''host_instance_id'', ID),
     (''authority_instance_id'', ID), (''endpoint_id'', ID), (''process_incarnation_id'', ID)]"

definition Receipt_fields :: cfields where
  "Receipt_fields = [(''session_id'', ID), (''endpoint_id'', ID), (''process_incarnation_id'', ID),
     (''endpoint_index'', C_UINT32), (''local_cleanup_complete'', C_UINT32),
     (''owns_grant_claim'', C_UINT32)]"

definition LOCAL_TYPES :: "cfields list" where
  "LOCAL_TYPES = [Result_fields, Lease_fields, WriteSpan_fields, ReadSpan_fields, Definition_fields,
     Config_fields, Grant_fields, Receipt_fields]"

text \<open>\<open>C.sizeof\<close> and \<open>.offset\<close>: every member at the next multiple of its alignment, the size a
  multiple of the largest alignment.\<close>

fun sizeof :: "ctype \<Rightarrow> nat" where
  "sizeof (C_CHAR n) = n"
| "sizeof (C_UINT8 n) = n"
| "sizeof C_UINT32 = 4"
| "sizeof C_INT32 = 4"
| "sizeof C_UINT64 = 8"
| "sizeof (C_UINT64S n) = 8 * n"
| "sizeof C_VOID_P = 8"

fun alignment :: "ctype \<Rightarrow> nat" where
  "alignment (C_CHAR n) = 1"
| "alignment (C_UINT8 n) = 1"
| "alignment C_UINT32 = 4"
| "alignment C_INT32 = 4"
| "alignment C_UINT64 = 8"
| "alignment (C_UINT64S n) = 8"
| "alignment C_VOID_P = 8"

definition align_up :: "nat \<Rightarrow> nat \<Rightarrow> nat" where
  "align_up p a = (p + a - 1) div a * a"

fun offsets :: "nat \<Rightarrow> ctype list \<Rightarrow> nat list" where
  "offsets p [] = []"
| "offsets p (t # ts) = align_up p (alignment t) # offsets (align_up p (alignment t) + sizeof t) ts"

fun end_of_fields :: "nat \<Rightarrow> ctype list \<Rightarrow> nat" where
  "end_of_fields p [] = p"
| "end_of_fields p (t # ts) = end_of_fields (align_up p (alignment t) + sizeof t) ts"

definition struct_size :: "cfields \<Rightarrow> nat" where
  "struct_size fs = align_up (end_of_fields 0 (map snd fs)) (foldr max (map (alignment \<circ> snd) fs) 1)"

text \<open>The comparison with the loaded library; \<open>layout i j\<close> is \<open>lib.elite_local_layout(i, j)\<close>.\<close>

fun check_members :: "(nat \<Rightarrow> nat \<Rightarrow> nat) \<Rightarrow> nat \<Rightarrow> nat \<Rightarrow> (string \<times> nat) list \<Rightarrow> exn + unit" where
  "check_members layout i j [] = Inr ()"
| "check_members layout i j ((member, off) # ms) =
     (if layout i j \<noteq> off then Inl (ImportError (''ctypes offset mismatch: '' @ member))
      else check_members layout i (j + 1) ms)"

fun check_types :: "(nat \<Rightarrow> nat \<Rightarrow> nat) \<Rightarrow> nat \<Rightarrow> cfields list \<Rightarrow> exn + unit" where
  "check_types layout i [] = Inr ()"
| "check_types layout i (fs # ts) =
     (if layout i 0xffffffff \<noteq> struct_size fs then Inl (ImportError ''ctypes sizeof mismatch'')
      else case check_members layout i 0 (zip (map fst fs) (offsets 0 (map snd fs))) of
        Inl e \<Rightarrow> Inl e
      | Inr u \<Rightarrow> check_types layout (i + 1) ts)"

definition import_native :: "nat \<Rightarrow> (nat \<Rightarrow> nat \<Rightarrow> nat) \<Rightarrow> exn + unit" where
  "import_native version layout =
     (if version \<noteq> 0x00010100 then Inl (ImportError ''native/binding release version mismatch'')
      else check_types layout 1 LOCAL_TYPES)"

section \<open>Values of control fields\<close>

datatype pyval = PNone | PBool bool | PInt int | PStr string | PMap "(string \<times> pyval) list" | PFloat

datatype cval = CInt nat | CBytes "8 word list"

fun isinstance_int :: "pyval \<Rightarrow> bool" where
  "isinstance_int (PInt i) = True"
| "isinstance_int (PBool b) = True"
| "isinstance_int v = False"

text \<open>\<open>_uint\<close>: the value itself, or \<open>ValueError\<close>.\<close>

definition uint_error :: "string \<Rightarrow> nat \<Rightarrow> exn" where
  "uint_error name bits = ValueError (name @ '' must be an unsigned '' @ show_nat bits @ ''-bit integer'')"

fun py_uint :: "pyval \<Rightarrow> nat \<Rightarrow> string \<Rightarrow> exn + nat" where
  "py_uint (PInt value) bits name =
     (if \<not> (0 \<le> value \<and> value < 2 ^ bits) then Inl (uint_error name bits) else Inr (nat value))"
| "py_uint v bits name = Inl (uint_error name bits)"

section \<open>Hexadecimal text and ASCII\<close>

definition hex_char :: "nat \<Rightarrow> char" where
  "hex_char d = ''0123456789abcdef'' ! d"

fun tohex :: "8 word list \<Rightarrow> string" where
  "tohex [] = []"
| "tohex (b # bs) = hex_char (unat b div 16) # hex_char (unat b mod 16) # tohex bs"

definition hex_value :: "char \<Rightarrow> nat option" where
  "hex_value c = (let n = (of_char c :: nat) in
     if 48 \<le> n \<and> n \<le> 57 then Some (n - 48)
     else if 97 \<le> n \<and> n \<le> 102 then Some (n - 87)
     else if 65 \<le> n \<and> n \<le> 70 then Some (n - 55)
     else None)"

definition is_space :: "char \<Rightarrow> bool" where
  "is_space c = (let n = (of_char c :: nat) in n = 32 \<or> 9 \<le> n \<and> n \<le> 13)"

text \<open>\<open>bytes.fromhex\<close>: pairs of digits of either case, white space allowed between the pairs.\<close>

fun fromhex :: "string \<Rightarrow> (8 word list) option" where
  "fromhex [] = Some []"
| "fromhex [c] = (if is_space c then Some [] else None)"
| "fromhex (c # d # cs) =
     (if is_space c then fromhex (d # cs)
      else case (hex_value c, hex_value d) of
        (Some h, Some l) \<Rightarrow> map_option (Cons (of_nat (16 * h + l))) (fromhex cs)
      | _ \<Rightarrow> None)"

definition ascii_encode :: "string \<Rightarrow> exn + 8 word list" where
  "ascii_encode s =
     (if \<forall>c \<in> set s. (of_char c :: nat) < 128 then Inr (map of_char s)
      else Inl (ValueError ''ascii codec cannot encode''))"

definition ascii_decode :: "8 word list \<Rightarrow> exn + string" where
  "ascii_decode bs =
     (if \<forall>b \<in> set bs. unat b < 128 then Inr (map (\<lambda>b. char_of (unat b)) bs)
      else Inl (ValueError ''ascii codec cannot decode''))"

text \<open>Reading a \<open>c_char\<close> array stops at the first NUL; writing pads with NUL.\<close>

definition c_string :: "8 word list \<Rightarrow> 8 word list" where
  "c_string bs = takeWhile (\<lambda>b. b \<noteq> 0) bs"

section \<open>Encoding and decoding\<close>

fun encode_value :: "ctype \<Rightarrow> cval \<Rightarrow> exn + pyval" where
  "encode_value (C_CHAR n) (CBytes bs) =
     (if n = 31 then (case ascii_decode (c_string bs) of Inl e \<Rightarrow> Inl e | Inr s \<Rightarrow> Inr (PStr s))
      else Inr (PStr (tohex bs)))"
| "encode_value t (CBytes bs) = Inr (PStr (tohex bs))"
| "encode_value t (CInt i) = Inr (PInt (int i))"

fun encode :: "cfields \<Rightarrow> cval list \<Rightarrow> exn + (string \<times> pyval) list" where
  "encode ((name, t) # fs) (v # vs) =
     (case encode_value t v of Inl e \<Rightarrow> Inl e | Inr p \<Rightarrow>
      (case encode fs vs of Inl e \<Rightarrow> Inl e | Inr out \<Rightarrow> Inr ((name, p) # out)))"
| "encode fs vs = Inr []"

definition decode_chars :: "nat \<Rightarrow> pyval \<Rightarrow> exn + cval" where
  "decode_chars n value = (case value of
     PStr s \<Rightarrow> (case ascii_encode s of Inl e \<Rightarrow> Inl e | Inr raw \<Rightarrow>
       if length raw \<noteq> 30 \<or> 0 \<in> set raw then Inl (ValueError ''invalid shm name'')
       else Inr (CBytes (raw @ replicate (n - length raw) 0)))
   | _ \<Rightarrow> Inl (ValueError ''invalid shm name''))"

text \<open>\<open>from_buffer_copy\<close> refuses a buffer shorter than the array.\<close>

definition decode_identity :: "nat \<Rightarrow> pyval \<Rightarrow> exn + cval" where
  "decode_identity n value = (case value of
     PStr s \<Rightarrow>
       if length s \<noteq> 32 then Inl (ValueError ''invalid identity'')
       else (case fromhex s of
         None \<Rightarrow> Inl (ValueError ''non-hexadecimal number found in fromhex()'')
       | Some raw \<Rightarrow>
           if length raw < n then Inl (ValueError ''Buffer size too small'')
           else Inr (CBytes (take n raw)))
   | _ \<Rightarrow> Inl (ValueError ''invalid identity''))"

fun decode_value :: "string \<Rightarrow> ctype \<Rightarrow> pyval \<Rightarrow> exn + cval" where
  "decode_value name (C_CHAR n) value = decode_chars n value"
| "decode_value name (C_UINT8 n) value = decode_identity n value"
| "decode_value name (C_UINT64S n) value = decode_identity (8 * n) value"
| "decode_value name t value =
     (case py_uint value (sizeof t * 8) name of Inl e \<Rightarrow> Inl e | Inr i \<Rightarrow> Inr (CInt i))"

fun decode_fields :: "cfields \<Rightarrow> (string \<times> pyval) list \<Rightarrow> exn + cval list" where
  "decode_fields [] data = Inr []"
| "decode_fields ((name, t) # fs) data =
     (case map_of data name of None \<Rightarrow> Inl (KeyError name) | Some value \<Rightarrow>
      (case decode_value name t value of Inl e \<Rightarrow> Inl e | Inr v \<Rightarrow>
       (case decode_fields fs data of Inl e \<Rightarrow> Inl e | Inr vs \<Rightarrow> Inr (v # vs))))"

fun decode :: "cfields \<Rightarrow> pyval \<Rightarrow> exn + cval list" where
  "decode fs (PMap data) =
     (if set (map fst data) \<noteq> set (map fst fs) then Inl (ValueError ''incorrect control fields'')
      else decode_fields fs data)"
| "decode fs v = Inl (ValueError ''incorrect control fields'')"

end
