(* ===== verification/Bindings.thy ===== *)
theory Bindings
  imports Effects Wire
begin

text \<open>
  The Python binding, \<open>elite_ringbuffer/__init__.py\<close>, and the buffer exporter \<open>elite_buffer.c\<close> it
  uses. The heap holds the objects by address: native lifetimes of endpoints (\<open>_EndpointLifetime\<close>),
  lease states (\<open>_LeaseState\<close>; the \<open>_Pin\<close> and the \<open>WriteLease\<close>/\<open>ReadLease\<close> made with it share its
  address), exporters, native object lifetimes (\<open>_ObjectLifetime\<close>), authorities, managers
  (\<open>EliteShm\<close>) and endpoints. The native library is a parameter \<open>L\<close>: a function from the call and
  the world to an answer. An operation is one critical section of the endpoint's lock.

  Three fields are observations only: \<open>calls\<close>, the native calls made on each endpoint lifetime with the
  process that made them, and
  \<open>finalized\<close>/\<open>dead\<close>, the pins and lease states the collector has taken.
\<close>

section \<open>Native results, calls and answers\<close>

type_synonym u32 = "32 word"
type_synonym u64 = "64 word"

record native_result =
  status :: u32
  outcome :: u32
  os_error :: u32

text \<open>\<open>N.Result(4, 5, 0, 0)\<close> and \<open>N.Result(12, 6, 0, 0)\<close>.\<close>

definition busy_result :: native_result where
  "busy_result = \<lparr>status = 4, outcome = 5, os_error = 0\<rparr>"

definition uncertain_result :: native_result where
  "uncertain_result = \<lparr>status = 12, outcome = 6, os_error = 0\<rparr>"

datatype error_class = EliteError | BusyError | WouldBlock | RetiredError

datatype resource =
    NoResource
  | TheLife nat
  | TheLease nat
  | TheWrapper nat
  | TheEndpoint nat
  | TheObject nat
  | TheShm nat
  | TheAuthority nat

datatype pyexn =
    Native error_class native_result string resource
  | Python exn
  | Signal string
  | Warned pyexn

definition status_class :: "u32 \<Rightarrow> error_class" where
  "status_class s =
     (if s = 4 then BusyError else if s = 1 \<or> s = 2 then WouldBlock
      else if s = 3 then RetiredError else EliteError)"

definition check :: "native_result \<Rightarrow> string \<Rightarrow> resource \<Rightarrow> ('h, pyexn, native_result) prog" where
  "check r operation resource =
     (if status r \<noteq> 0 then throw (Native (status_class (status r)) r operation resource) else ret r)"

text \<open>The spans of a lease; a null pointer reads as \<open>None\<close>.\<close>

record span =
  sp_data :: "nat option"
  sp_size :: u32
  sp_type :: u32
  sp_id :: u64

type_synonym lease = "u64 list"

datatype call =
    AuthorityCreate "8 word list" "8 word list" nat
  | AuthorityDestroy nat
  | Create nat "cval list" "cval list list"
  | Activate nat
  | RegisterProcess nat nat int
  | ObjectGrant nat nat
  | AckCleanup nat "cval list"
  | ReapChild nat int
  | ObjectRetire nat nat
  | Quarantine nat
  | ObjectDestroy nat
  | Attach "cval list"
  | WriteReserve nat
  | WriteCommit nat lease nat nat nat
  | WriteAbort nat lease
  | ReadBorrow nat
  | ReadRelease nat lease
  | ViewRetain nat lease
  | ViewEnd nat lease
  | Retire nat nat
  | EnableDrain nat
  | AbandonRetained nat lease
  | Detach nat
  | BindingInfo nat nat

text \<open>What a call leaves in its out parameters; a call reads the ones it has.\<close>

record outs =
  o_ptr :: nat
  o_lease :: lease
  o_span :: span
  o_struct :: "cval list"
  o_info :: "nat \<times> nat \<times> 8 word list"
  o_wait :: int

text \<open>A call returns, or a Python exception is delivered before its result is assigned.\<close>

datatype answer = Returned native_result outs | Interrupted pyexn outs

fun out_of :: "answer \<Rightarrow> outs" where
  "out_of (Returned r x) = x"
| "out_of (Interrupted e x) = x"

type_synonym 'w native = "call \<Rightarrow> 'w \<Rightarrow> answer \<times> 'w"

section \<open>The heap\<close>

record life =
  lf_ptr :: nat
  lf_pid :: int
  lf_owner :: "nat option"
  lf_pin :: "nat option"
  lf_receipt :: "(string \<times> pyval) list option"
  lf_close_requested :: bool
  lf_poisoned :: bool

record lease_state =
  ls_endpoint :: nat
  ls_lease :: lease
  ls_writing :: bool
  ls_address :: "nat option"
  ls_length :: u32
  ls_type :: u32
  ls_id :: u64
  ls_epoch :: u64
  ls_active :: bool
  ls_view_pin :: bool
  ls_uncertain :: bool
  ls_acquiring :: bool
  ls_cleanup_requested :: bool

record exporter =
  x_owner :: "nat option"
  x_cleanup :: "nat option"
  x_address :: "nat option"
  x_length :: u32
  x_exports :: nat
  x_pid :: int
  x_readonly :: bool
  x_closed :: bool
  x_closing :: bool
  x_close_requested :: bool

record object_life =
  ol_ptr :: nat
  ol_authority :: nat
  ol_pid :: int
  ol_connections :: "nat list"
  ol_close_requested :: bool

record authority =
  au_pid :: int
  au_ptr :: nat
  au_objects :: "nat list"
  au_max :: nat

record shm =
  sh_pid :: int
  sh_authority :: nat
  sh_life :: nat
  sh_local :: "nat list"
  sh_issued :: "(nat \<times> int) list"
  sh_spsc :: bool
  sh_capacity :: nat
  sh_max_payload :: nat
  sh_producers :: nat
  sh_consumers :: nat
  sh_checksum :: bool
  sh_parkable :: bool
  sh_session :: "8 word list"

record endpoint =
  ep_pid :: int
  ep_life :: nat
  ep_owner :: "nat option"
  ep_receipt :: "(string \<times> pyval) list option"
  ep_capacity :: nat
  ep_max_payload :: nat
  ep_session :: "8 word list"

record 'w heap =
  now_pid :: int
  world :: 'w
  lives :: "nat \<Rightarrow> life"
  n_lives :: nat
  leases :: "nat \<Rightarrow> lease_state"
  wrapper_exporter :: "nat \<Rightarrow> nat option"
  n_leases :: nat
  exporters :: "nat \<Rightarrow> exporter"
  n_exporters :: nat
  objects :: "nat \<Rightarrow> object_life"
  n_objects :: nat
  authorities :: "nat \<Rightarrow> authority"
  n_authorities :: nat
  shms :: "nat \<Rightarrow> shm"
  n_shms :: nat
  endpoints :: "nat \<Rightarrow> endpoint"
  n_endpoints :: nat
  live_shms :: "nat list"
  failed :: "(resource \<times> pyexn) list"
  warn_error :: bool
  calls :: "nat \<Rightarrow> (int \<times> call \<times> answer) list"
  finalized :: "nat set"
  dead :: "nat set"

type_synonym ('w, 'a) py = "('w heap, pyexn, 'a) prog"

definition set_life :: "nat \<Rightarrow> (life \<Rightarrow> life) \<Rightarrow> ('w, unit) py" where
  "set_life e f = modify (\<lambda>h. h\<lparr>lives := (lives h)(e := f (lives h e))\<rparr>)"

definition set_lease :: "nat \<Rightarrow> (lease_state \<Rightarrow> lease_state) \<Rightarrow> ('w, unit) py" where
  "set_lease i f = modify (\<lambda>h. h\<lparr>leases := (leases h)(i := f (leases h i))\<rparr>)"

definition set_exporter :: "nat \<Rightarrow> (exporter \<Rightarrow> exporter) \<Rightarrow> ('w, unit) py" where
  "set_exporter b f = modify (\<lambda>h. h\<lparr>exporters := (exporters h)(b := f (exporters h b))\<rparr>)"

definition set_object :: "nat \<Rightarrow> (object_life \<Rightarrow> object_life) \<Rightarrow> ('w, unit) py" where
  "set_object x f = modify (\<lambda>h. h\<lparr>objects := (objects h)(x := f (objects h x))\<rparr>)"

definition the_life :: "nat \<Rightarrow> ('w, life) py" where
  "the_life e = gets (\<lambda>h. lives h e)"

definition the_lease :: "nat \<Rightarrow> ('w, lease_state) py" where
  "the_lease i = gets (\<lambda>h. leases h i)"

definition the_exporter :: "nat \<Rightarrow> ('w, exporter) py" where
  "the_exporter b = gets (\<lambda>h. exporters h b)"

definition the_object :: "nat \<Rightarrow> ('w, object_life) py" where
  "the_object x = gets (\<lambda>h. objects h x)"

definition getpid :: "('w, int) py" where
  "getpid = gets now_pid"

text \<open>A call of the library, and one on an endpoint's connection.\<close>

definition ffi :: "'w native \<Rightarrow> call \<Rightarrow> ('w, answer) py" where
  "ffi L c = (\<lambda>h. let (a, w) = L c (world h) in (Inr a, h\<lparr>world := w\<rparr>))"

definition ffi_on :: "'w native \<Rightarrow> nat \<Rightarrow> call \<Rightarrow> ('w, answer) py" where
  "ffi_on L e c = bind (ffi L c) (\<lambda>a.
     andthen (modify (\<lambda>h. h\<lparr>calls := (calls h)(e := calls h e @ [(now_pid h, c, a)])\<rparr>)) (ret a))"

text \<open>The value of the call expression: an interruption raises there.\<close>

fun result_of :: "answer \<Rightarrow> ('h, pyexn, native_result) prog" where
  "result_of (Returned r x) = ret r"
| "result_of (Interrupted e x) = throw e"

text \<open>
  \<open>_retain_failure\<close>: the failure is recorded, then \<open>warnings.warn\<close> is called. \<open>warn_error\<close> tells whether
  the interpreter's filter turns a \<open>ResourceWarning\<close> into an error; then the call raises the warning
  (\<open>Warned\<close>, with the exception its message quotes) out of the handler that made the record.
\<close>

definition warn :: "pyexn \<Rightarrow> ('w, unit) py" where
  "warn e = bind (gets warn_error) (\<lambda>raises. if raises then throw (Warned e) else ret ())"

definition retain_failure :: "resource \<Rightarrow> pyexn \<Rightarrow> ('w, unit) py" where
  "retain_failure r e = andthen (modify (\<lambda>h. h\<lparr>failed := failed h @ [(r, e)]\<rparr>)) (warn e)"

definition cleanup_failures :: "('w, pyexn list) py" where
  "cleanup_failures = gets (\<lambda>h. map snd (failed h))"

section \<open>Authorities and object lifetimes\<close>

definition authority_check :: "nat \<Rightarrow> ('w, unit) py" where
  "authority_check u = bind getpid (\<lambda>pid. bind (gets (\<lambda>h. authorities h u)) (\<lambda>a.
     andthen (guard (au_pid a = pid)
       (Python (RuntimeError ''inherited authority: use a registered spawned child'')))
     (guard (au_ptr a \<noteq> 0) (Python (RuntimeError ''authority is closed'')))))"

definition authority_del :: "'w native \<Rightarrow> nat \<Rightarrow> ('w, unit) py" where
  "authority_del L u = attempt
     (bind getpid (\<lambda>pid. bind (gets (\<lambda>h. authorities h u)) (\<lambda>a.
       if au_pid a = pid \<and> au_ptr a \<noteq> 0 then
         bind (ffi L (AuthorityDestroy (au_ptr a))) (\<lambda>ans.
         andthen (modify (\<lambda>h. h\<lparr>authorities := (authorities h)(u := (authorities h u)\<lparr>au_ptr := o_ptr (out_of ans)\<rparr>)\<rparr>))
         (bind (result_of ans) (\<lambda>r. andthen (check r ''authority_destroy'' NoResource) (ret ()))))
       else ret ())))
     (retain_failure (TheAuthority u))"

definition object_ack :: "'w native \<Rightarrow> nat \<Rightarrow> cval list \<Rightarrow> ('w, unit) py" where
  "object_ack L x receipt = bind (the_object x) (\<lambda>o1.
     andthen (authority_check (ol_authority o1))
     (if ol_ptr o1 \<noteq> 0 then
        bind (ffi L (AckCleanup (ol_ptr o1) receipt)) (\<lambda>ans. bind (result_of ans) (\<lambda>r.
        andthen (check r ''ack_cleanup'' (TheObject x)) (ret ())))
      else ret ()))"

definition any_connected :: "'w heap \<Rightarrow> nat \<Rightarrow> bool" where
  "any_connected h x \<longleftrightarrow> (\<exists>e \<in> set (ol_connections (objects h x)). lf_ptr (lives h e) \<noteq> 0)"

definition object_close :: "'w native \<Rightarrow> nat \<Rightarrow> ('w, unit) py" where
  "object_close L x = bind (the_object x) (\<lambda>o1. bind (gets (\<lambda>h. any_connected h x)) (\<lambda>live.
     if ol_ptr o1 = 0 then ret ()
     else if live then throw (Native BusyError busy_result ''object lifetime: active endpoint'' (TheObject x))
     else andthen (authority_check (ol_authority o1))
       (bind (ffi L (ObjectDestroy (ol_ptr o1))) (\<lambda>ans.
        andthen (set_object x (\<lambda>o2. o2\<lparr>ol_ptr := o_ptr (out_of ans)\<rparr>))
        (bind (result_of ans) (\<lambda>r. andthen (check r ''object_destroy'' (TheObject x)) (ret ()))))))) "

definition object_try_close :: "'w native \<Rightarrow> nat \<Rightarrow> ('w, unit) py" where
  "object_try_close L x = bind getpid (\<lambda>pid. bind (the_object x) (\<lambda>o1. bind (gets (\<lambda>h. any_connected h x)) (\<lambda>live.
     if ol_pid o1 \<noteq> pid \<or> \<not> ol_close_requested o1 \<or> ol_ptr o1 = 0 \<or> live then ret ()
     else attempt (object_close L x) (retain_failure (TheObject x)))))"

definition object_request_close :: "'w native \<Rightarrow> nat \<Rightarrow> ('w, unit) py" where
  "object_request_close L x =
     andthen (set_object x (\<lambda>o1. o1\<lparr>ol_close_requested := True\<rparr>)) (object_try_close L x)"

section \<open>Endpoint lifetimes\<close>

definition life_check :: "nat \<Rightarrow> ('w, unit) py" where
  "life_check e = bind getpid (\<lambda>pid. bind (the_life e) (\<lambda>l.
     andthen (guard (lf_pid l = pid) (Python (RuntimeError ''inherited endpoint: spawn/exec required'')))
     (andthen (guard (lf_ptr l \<noteq> 0) (Python (RuntimeError ''endpoint is closed'')))
     (guard (\<not> lf_poisoned l)
       (Native EliteError uncertain_result ''endpoint outcome is uncertain'' (TheLife e))))))"

text \<open>\<open>_pin\<close> is a weak reference: it yields nothing once its lease state is dead.\<close>

definition pinned :: "'w heap \<Rightarrow> nat \<Rightarrow> nat option" where
  "pinned h e = (case lf_pin (lives h e) of None \<Rightarrow> None | Some i \<Rightarrow> if i \<in> dead h then None else Some i)"

definition life_busy :: "'w heap \<Rightarrow> nat \<Rightarrow> bool" where
  "life_busy h e \<longleftrightarrow> lf_poisoned (lives h e)
     \<or> (case pinned h e of None \<Rightarrow> False | Some i \<Rightarrow> ls_active (leases h i) \<or> ls_acquiring (leases h i))"

text \<open>\<open>_encode(receipt)\<close>: a receipt has no character field, so encoding cannot raise.\<close>

definition encode_receipt :: "cval list \<Rightarrow> (string \<times> pyval) list" where
  "encode_receipt vs = (case encode Receipt_fields vs of Inl e \<Rightarrow> [] | Inr out \<Rightarrow> out)"

definition notify_owner :: "'w native \<Rightarrow> nat option \<Rightarrow> cval list \<Rightarrow> ('w, unit) py" where
  "notify_owner L owner receipt = (case owner of None \<Rightarrow> ret ()
     | Some x \<Rightarrow> andthen (object_ack L x receipt) (object_try_close L x))"

definition life_close :: "'w native \<Rightarrow> nat \<Rightarrow> ('w, (string \<times> pyval) list option) py" where
  "life_close L e = bind (the_life e) (\<lambda>l.
     if lf_ptr l = 0 then ret (lf_receipt l)
     else andthen (life_check e) (bind (gets (\<lambda>h. life_busy h e)) (\<lambda>busy.
       if busy then throw (Native BusyError busy_result ''endpoint.close: outstanding lease/view'' (TheLife e))
       else bind (ffi_on L e (Detach (lf_ptr l))) (\<lambda>ans.
         andthen (set_life e (\<lambda>l2. l2\<lparr>lf_ptr := o_ptr (out_of ans)\<rparr>))
         (bind (result_of ans) (\<lambda>r.
          andthen (check r ''detach'' (TheLife e))
          (andthen (set_life e (\<lambda>l2. l2\<lparr>lf_receipt := Some (encode_receipt (o_struct (out_of ans)))\<rparr>))
          (andthen (notify_owner L (lf_owner l) (o_struct (out_of ans)))
          (bind (the_life e) (\<lambda>l3. ret (lf_receipt l3)))))))))))"

definition life_try_close :: "'w native \<Rightarrow> nat \<Rightarrow> ('w, unit) py" where
  "life_try_close L e = bind getpid (\<lambda>pid. bind (the_life e) (\<lambda>l. bind (gets (\<lambda>h. life_busy h e)) (\<lambda>busy.
     if lf_pid l \<noteq> pid \<or> \<not> lf_close_requested l \<or> lf_ptr l = 0 \<or> busy then ret ()
     else attempt (andthen (life_close L e) (ret ())) (retain_failure (TheLife e)))))"

definition life_request_close :: "'w native \<Rightarrow> nat \<Rightarrow> ('w, unit) py" where
  "life_request_close L e =
     andthen (set_life e (\<lambda>l. l\<lparr>lf_close_requested := True\<rparr>)) (life_try_close L e)"

end
