(* ===== verification/Binding_Leases.thy ===== *)
theory Binding_Leases
  imports Bindings
begin

text \<open>
  Leases of the binding: \<open>_LeaseState\<close>, \<open>_Lease\<close> with its two subclasses and \<open>_Endpoint._obtain\<close> of
  \<open>elite_ringbuffer/__init__.py\<close>, and the buffer exporter of \<open>elite_buffer.c\<close>.
\<close>

section \<open>Lease states\<close>

definition owns_token :: "lease \<Rightarrow> bool" where
  "owns_token l \<longleftrightarrow> (\<exists>w \<in> set l. w \<noteq> 0)"

definition null_span :: span where
  "null_span = \<lparr>sp_data = None, sp_size = 0, sp_type = 0, sp_id = 0\<rparr>"

definition LeaseState :: "nat \<Rightarrow> lease \<Rightarrow> span \<Rightarrow> bool \<Rightarrow> lease_state" where
  "LeaseState e l sp writing =
     \<lparr>ls_endpoint = e, ls_lease = l, ls_writing = writing, ls_address = sp_data sp,
      ls_length = sp_size sp, ls_type = (if writing then 0 else sp_type sp),
      ls_id = (if writing then 0 else sp_id sp), ls_epoch = l ! 5, ls_active = False, ls_view_pin = False,
      ls_uncertain = False, ls_acquiring = False, ls_cleanup_requested = False\<rparr>"

definition adopt :: "span \<Rightarrow> lease_state \<Rightarrow> lease_state" where
  "adopt sp s =
     s\<lparr>ls_active := owns_token (ls_lease s), ls_address := sp_data sp, ls_length := sp_size sp,
       ls_type := (if ls_writing s then 0 else sp_type sp), ls_id := (if ls_writing s then 0 else sp_id sp),
       ls_epoch := ls_lease s ! 5\<rparr>"

definition exporter_cleanup_failed :: "nat \<Rightarrow> ('w, unit) py" where
  "exporter_cleanup_failed i =
     retain_failure (TheLease i) (Python (RuntimeError ''exporter finalization did not complete native unpin''))"

definition assert_live :: "nat \<Rightarrow> ('w, unit) py" where
  "assert_live i = bind (the_lease i) (\<lambda>s. andthen (life_check (ls_endpoint s))
     (andthen (guard (ls_active s) (Python (BufferError ''lease ownership has ended'')))
     (guard (\<not> ls_uncertain s)
       (Python (BufferError ''asynchronous transfer outcome is unknown; fence this endpoint process'')))))"

text \<open>What the handlers of an interrupted pin call do.\<close>

definition poison :: "nat \<Rightarrow> pyexn \<Rightarrow> ('w, unit) py" where
  "poison i x = bind (the_lease i) (\<lambda>s.
     andthen (set_lease i (\<lambda>s2. s2\<lparr>ls_uncertain := True\<rparr>))
     (andthen (set_life (ls_endpoint s) (\<lambda>l. l\<lparr>lf_poisoned := True\<rparr>))
     (retain_failure (TheLease i) x)))"

definition retain_view_pin :: "'w native \<Rightarrow> nat \<Rightarrow> ('w, unit) py" where
  "retain_view_pin L i = bind (the_lease i) (\<lambda>s. bind (the_life (ls_endpoint s)) (\<lambda>l.
     andthen (assert_live i)
     (andthen (guard (\<not> ls_view_pin s) (Python (RuntimeError ''exporter already owns a native view pin'')))
     (andthen (set_lease i (\<lambda>s2. s2\<lparr>ls_view_pin := True\<rparr>))
     (bind (attempt
        (bind (ffi_on L (ls_endpoint s) (ViewRetain (lf_ptr l) (ls_lease s))) result_of)
        (\<lambda>x. andthen (poison i x) (throw x)))
      (\<lambda>r. if status r \<noteq> 0
        then andthen (set_lease i (\<lambda>s2. s2\<lparr>ls_view_pin := False\<rparr>))
          (andthen (check r ''view_retain'' (TheLease i)) (ret ()))
        else ret ()))))))"

datatype action = Commit nat nat nat | Abort | Release | Abandon

fun action_name :: "action \<Rightarrow> string" where
  "action_name (Commit a b c) = ''commit''"
| "action_name Abort = ''abort''"
| "action_name Release = ''release''"
| "action_name Abandon = ''abandon''"

fun action_call :: "action \<Rightarrow> nat \<Rightarrow> lease \<Rightarrow> call" where
  "action_call (Commit len kind mid) p l = WriteCommit p l len kind mid"
| "action_call Abort p l = WriteAbort p l"
| "action_call Release p l = ReadRelease p l"
| "action_call Abandon p l = AbandonRetained p l"

text \<open>The transfer is irrevocable.\<close>

definition transferred :: "action \<Rightarrow> native_result \<Rightarrow> bool" where
  "transferred a r \<longleftrightarrow> outcome r = 2 \<or> outcome r = 4 \<or> a = Abandon \<and> status r = 0"

definition finish :: "'w native \<Rightarrow> nat \<Rightarrow> action \<Rightarrow> ('w, native_result) py" where
  "finish L i a = bind (the_lease i) (\<lambda>s. bind (the_life (ls_endpoint s)) (\<lambda>l.
     andthen (assert_live i)
     (andthen (guard (\<not> ls_view_pin s) (Native BusyError busy_result ''live payload exporter'' (TheLease i)))
     (bind (attempt
        (bind (ffi_on L (ls_endpoint s) (action_call a (lf_ptr l) (ls_lease s))) result_of)
        (\<lambda>cause. let exc = Native EliteError uncertain_result ''asynchronously interrupted transfer'' (TheLease i) in
           andthen (set_lease i (\<lambda>s2. s2\<lparr>ls_uncertain := True, ls_address := None\<rparr>))
           (andthen (retain_failure (TheLease i) exc) (throw exc))))
      (\<lambda>r. andthen
         (if transferred a r
          then andthen (set_lease i (\<lambda>s2. s2\<lparr>ls_active := False, ls_address := None\<rparr>))
            (andthen (set_life (ls_endpoint s) (\<lambda>l2. l2\<lparr>lf_pin := None\<rparr>))
            (life_try_close L (ls_endpoint s)))
          else ret ())
         (check r (action_name a) (TheLease i)))))))"

fun is_elite :: "pyexn \<Rightarrow> bool" where
  "is_elite (Native c r op x) = True"
| "is_elite (Python x) = False"
| "is_elite (Signal x) = False"
| "is_elite (Warned x) = False"

definition cleanup :: "'w native \<Rightarrow> nat \<Rightarrow> ('w, unit) py" where
  "cleanup L i = attempt
     (bind getpid (\<lambda>pid. bind (the_lease i) (\<lambda>s. bind (the_life (ls_endpoint s)) (\<lambda>l.
       if lf_pid l \<noteq> pid \<or> \<not> ls_active s \<or> ls_uncertain s then ret ()
       else if ls_view_pin s then ret ()
       else attempt (andthen (finish L i (if ls_writing s then Abort else Release)) (ret ()))
         (\<lambda>x. if is_elite x then bind (the_lease i) (\<lambda>s2. bind (the_life (ls_endpoint s)) (\<lambda>l2.
             if ls_active s2
             then bind (ffi_on L (ls_endpoint s) (Retire (lf_ptr l2) 0)) (\<lambda>ans. bind (result_of ans) (\<lambda>r.
               andthen (check r ''finalizer retirement'' (TheLease i)) (andthen (finish L i Abandon) (ret ()))))
             else ret ()))
           else throw x)))))
     (retain_failure (TheLease i))"

definition request_cleanup :: "'w native \<Rightarrow> nat \<Rightarrow> ('w, unit) py" where
  "request_cleanup L i =
     andthen (set_lease i (\<lambda>s. s\<lparr>ls_cleanup_requested := True\<rparr>)) (cleanup L i)"

definition drop_view_pin :: "'w native \<Rightarrow> nat \<Rightarrow> ('w, unit) py" where
  "drop_view_pin L i = bind (the_lease i) (\<lambda>s. bind (the_life (ls_endpoint s)) (\<lambda>l.
     if \<not> ls_view_pin s then ret ()
     else andthen (assert_live i)
     (bind (attempt
        (bind (ffi_on L (ls_endpoint s) (ViewEnd (lf_ptr l) (ls_lease s))) result_of)
        (\<lambda>x. andthen (poison i x) (throw x)))
      (\<lambda>r. if status r \<noteq> 0
        then (let exc = Native EliteError r ''view_end'' (TheLease i) in
          andthen (retain_failure (TheLease i) exc) (throw exc))
        else andthen (set_lease i (\<lambda>s2. s2\<lparr>ls_view_pin := False\<rparr>))
          (bind (the_lease i) (\<lambda>s3. if ls_cleanup_requested s3 then cleanup L i else ret ()))))))"

section \<open>The buffer exporter\<close>

definition same_process :: "exporter \<Rightarrow> ('w, unit) py" where
  "same_process x = bind getpid (\<lambda>pid. guard (pid = x_pid x)
     (Python (RuntimeError ''inherited ELITE buffer: fork is not an attachment'')))"

definition close_buffer :: "'w native \<Rightarrow> nat \<Rightarrow> ('w, unit) py" where
  "close_buffer L b = bind (the_exporter b) (\<lambda>x. andthen (same_process x)
     (if x_closing x then throw (Python (BufferError ''ELITE exporter cleanup is in progress''))
      else if x_closed x then ret ()
      else if x_exports x \<noteq> 0 then throw (Python (BufferError
        ''live or pending buffer(s): release every view before transferring the slot''))
      else andthen (set_exporter b (\<lambda>y. y\<lparr>x_closing := True, x_closed := True\<rparr>))
        (andthen (attempt
           (case x_cleanup x of None \<Rightarrow> throw (Python (SystemError ''null argument to internal routine''))
            | Some i \<Rightarrow> drop_view_pin L i)
           (\<lambda>e. andthen (set_exporter b (\<lambda>y. y\<lparr>x_closed := False, x_closing := False\<rparr>)) (throw e)))
        (set_exporter b (\<lambda>y. y\<lparr>x_address := None, x_closing := False, x_owner := None, x_cleanup := None\<rparr>)))))"

text \<open>What the callback raises goes to \<open>PyErr_WriteUnraisable\<close>.\<close>

definition cleanup_unraisable :: "nat \<Rightarrow> ('w, unit) py" where
  "cleanup_unraisable b = bind (the_exporter b) (\<lambda>x.
     case x_cleanup x of None \<Rightarrow> ret () | Some i \<Rightarrow> attempt (exporter_cleanup_failed i) (\<lambda>e. ret ()))"

text \<open>The deferred close shared by \<open>rollback_export\<close> and \<open>buffer_release\<close>.\<close>

definition deferred_close :: "'w native \<Rightarrow> nat \<Rightarrow> ('w, unit) py" where
  "deferred_close L b = bind getpid (\<lambda>pid. bind (the_exporter b) (\<lambda>x.
     if x_exports x = 0 \<and> x_close_requested x \<and> \<not> x_closed x \<and> pid = x_pid x
     then attempt (close_buffer L b) (\<lambda>e. cleanup_unraisable b) else ret ()))"

definition rollback_export :: "'w native \<Rightarrow> nat \<Rightarrow> ('w, unit) py" where
  "rollback_export L b = andthen (set_exporter b (\<lambda>x. x\<lparr>x_exports := x_exports x - 1\<rparr>)) (deferred_close L b)"

text \<open>\<open>bf_getbuffer\<close>; \<open>writable\<close> is the \<open>PyBUF_WRITABLE\<close> flag.\<close>

definition buffer_get :: "'w native \<Rightarrow> nat \<Rightarrow> bool \<Rightarrow> ('w, unit) py" where
  "buffer_get L b writable = bind (the_exporter b) (\<lambda>x. andthen (same_process x)
     (case x_owner x of
        None \<Rightarrow> throw (Python (BufferError ''ELITE lease exporter is closed''))
      | Some i \<Rightarrow>
          if x_closed x \<or> x_close_requested x then throw (Python (BufferError ''ELITE lease exporter is closed''))
          else if int (x_exports x) = 2 ^ 63 - 1 then throw (Python (BufferError ''too many ELITE buffer exports''))
          else andthen (set_exporter b (\<lambda>y. y\<lparr>x_exports := x_exports y + 1\<rparr>))
            (andthen (attempt (assert_live i) (\<lambda>e. andthen (rollback_export L b) (throw e)))
            (if writable \<and> x_readonly x
             then andthen (rollback_export L b) (throw (Python (BufferError ''Object is not writable.'')))
             else ret ()))))"

definition buffer_release :: "'w native \<Rightarrow> nat \<Rightarrow> ('w, unit) py" where
  "buffer_release L b = andthen (set_exporter b (\<lambda>x. x\<lparr>x_exports := x_exports x - 1\<rparr>)) (deferred_close L b)"

definition buffer_finalize :: "'w native \<Rightarrow> nat \<Rightarrow> ('w, unit) py" where
  "buffer_finalize L b = andthen (set_exporter b (\<lambda>x. x\<lparr>x_close_requested := True\<rparr>))
     (bind getpid (\<lambda>pid. bind (the_exporter b) (\<lambda>x.
       if x_exports x = 0 \<and> \<not> x_closed x \<and> pid = x_pid x \<and> x_cleanup x \<noteq> None
       then attempt (close_buffer L b) (\<lambda>e. cleanup_unraisable b) else ret ())))"

definition buffer_clear :: "nat \<Rightarrow> ('w, unit) py" where
  "buffer_clear b = set_exporter b (\<lambda>x.
     if x_exports x \<noteq> 0 then x\<lparr>x_close_requested := True\<rparr>
     else x\<lparr>x_close_requested := True, x_closed := True, x_address := None, x_owner := None, x_cleanup := None\<rparr>)"

definition buffer_dealloc :: "'w native \<Rightarrow> nat \<Rightarrow> ('w, unit) py" where
  "buffer_dealloc L b = andthen (buffer_finalize L b) (buffer_clear b)"

text \<open>\<open>module_create\<close>; \<open>oom\<close> tells whether the allocation fails.\<close>

definition module_create :: "bool \<Rightarrow> nat option \<Rightarrow> u32 \<Rightarrow> bool \<Rightarrow> nat \<Rightarrow> ('w, nat) py" where
  "module_create oom address len readonly i = (case address of
     None \<Rightarrow> throw (Python (TypeError ''an integer is required''))
   | Some a \<Rightarrow>
       if a = 0 then throw (Python (ValueError ''NULL native payload''))
       else if oom then throw (Python MemoryError)
       else (\<lambda>h. (Inr (n_exporters h), h\<lparr>n_exporters := n_exporters h + 1,
         exporters := (exporters h)(n_exporters h := \<lparr>x_owner = Some i, x_cleanup = Some i, x_address = Some a,
           x_length = len, x_exports = 0, x_pid = now_pid h, x_readonly = readonly, x_closed = False,
           x_closing = False, x_close_requested = False\<rparr>)\<rparr>)))"

section \<open>Leases\<close>

definition set_wrapper :: "nat \<Rightarrow> nat \<Rightarrow> ('w, unit) py" where
  "set_wrapper i b = modify (\<lambda>h. h\<lparr>wrapper_exporter := (wrapper_exporter h)(i := Some b)\<rparr>)"

text \<open>\<open>_Lease.buffer\<close>: the exporter whose view it returns.\<close>

definition lease_buffer :: "'w native \<Rightarrow> bool \<Rightarrow> nat \<Rightarrow> ('w, nat) py" where
  "lease_buffer L oom i = andthen (assert_live i)
     (bind (gets (\<lambda>h. case wrapper_exporter h i of None \<Rightarrow> None
        | Some b \<Rightarrow> if x_closed (exporters h b) then None else Some b)) (\<lambda>current.
      bind (case current of Some b \<Rightarrow> ret b
        | None \<Rightarrow> andthen (retain_view_pin L i)
           (bind (the_lease i) (\<lambda>s.
            bind (attempt (module_create oom (ls_address s) (ls_length s) (\<not> ls_writing s) i)
              (\<lambda>e. andthen (drop_view_pin L i) (throw e))) (\<lambda>b.
            andthen (set_wrapper i b) (ret b)))))
      (\<lambda>b. andthen (buffer_get L b False) (ret b))))"

definition end_exports :: "'w native \<Rightarrow> nat \<Rightarrow> ('w, unit) py" where
  "end_exports L i = bind (gets (\<lambda>h. wrapper_exporter h i)) (\<lambda>x.
     case x of None \<Rightarrow> ret () | Some b \<Rightarrow> close_buffer L b)"

definition transfer :: "'w native \<Rightarrow> nat \<Rightarrow> action \<Rightarrow> ('w, unit) py" where
  "transfer L i a = andthen (end_exports L i) (andthen (finish L i a) (ret ()))"

definition lease_commit :: "'w native \<Rightarrow> nat \<Rightarrow> pyval \<Rightarrow> pyval \<Rightarrow> pyval \<Rightarrow> ('w, unit) py" where
  "lease_commit L i len message_type message_id =
     bind (lift_sum Python (py_uint len 32 ''length'')) (\<lambda>n.
     bind (lift_sum Python (py_uint message_type 32 ''message_type'')) (\<lambda>kind.
     bind (lift_sum Python (py_uint message_id 64 ''message_id'')) (\<lambda>mid.
     bind (the_lease i) (\<lambda>s.
       if n > unat (ls_length s) then throw (Python (ValueError ''length exceeds lease capacity''))
       else transfer L i (Commit n kind mid)))))"

definition lease_abort :: "'w native \<Rightarrow> nat \<Rightarrow> ('w, unit) py" where
  "lease_abort L i = transfer L i Abort"

definition lease_release :: "'w native \<Rightarrow> nat \<Rightarrow> ('w, unit) py" where
  "lease_release L i = transfer L i Release"

definition lease_abandon :: "'w native \<Rightarrow> nat \<Rightarrow> ('w, unit) py" where
  "lease_abandon L i = transfer L i Abandon"

definition lease_exit :: "'w native \<Rightarrow> nat \<Rightarrow> ('w, unit) py" where
  "lease_exit L i = bind (the_lease i) (\<lambda>s.
     if ls_active s then (if ls_writing s then lease_abort L i else lease_release L i) else ret ())"

text \<open>\<open>ReadLease.copy\<close>: the view it takes is released on the way out.\<close>

definition lease_copy :: "'w native \<Rightarrow> bool \<Rightarrow> nat \<Rightarrow> ('w, unit) py" where
  "lease_copy L oom i = bind (lease_buffer L oom i) (\<lambda>b. buffer_release L b)"

section \<open>Obtaining a lease\<close>

definition endpoint_check :: "nat \<Rightarrow> ('w, unit) py" where
  "endpoint_check p = bind getpid (\<lambda>pid. bind (gets (\<lambda>h. endpoints h p)) (\<lambda>ep.
     bind (the_life (ep_life ep)) (\<lambda>l.
     andthen (guard (ep_pid ep = pid)
       (Python (RuntimeError ''inherited endpoint: use spawn/exec and a constructed grant'')))
     (guard (lf_ptr l \<noteq> 0) (Python (RuntimeError ''endpoint is closed''))))))"

text \<open>A new lease state with its pin and wrapper, pinned by the endpoint.\<close>

definition new_lease :: "nat \<Rightarrow> bool \<Rightarrow> ('w, nat) py" where
  "new_lease e writing = (\<lambda>h. let i = n_leases h in
     (Inr i, h\<lparr>n_leases := i + 1,
        leases := (leases h)(i := LeaseState e (replicate 10 0) null_span writing),
        wrapper_exporter := (wrapper_exporter h)(i := None),
        lives := (lives h)(e := (lives h e)\<lparr>lf_pin := Some i\<rparr>)\<rparr>))"

definition unpin :: "nat \<Rightarrow> ('w, unit) py" where
  "unpin e = set_life e (\<lambda>l. l\<lparr>lf_pin := None\<rparr>)"

text \<open>The native acquisition and its handler: on both exits the lease holds what C wrote.\<close>

definition acquire :: "'w native \<Rightarrow> nat \<Rightarrow> nat \<Rightarrow> bool \<Rightarrow> ('w, native_result) py" where
  "acquire L e i writing = bind (the_life e) (\<lambda>l.
     andthen (set_lease i (\<lambda>s. s\<lparr>ls_acquiring := True\<rparr>))
     (bind (ffi_on L e ((if writing then WriteReserve else ReadBorrow) (lf_ptr l))) (\<lambda>ans.
     andthen (set_lease i (\<lambda>s. s\<lparr>ls_lease := o_lease (out_of ans)\<rparr>))
     (attempt
       (bind (result_of ans) (\<lambda>r.
        andthen (set_lease i (adopt (o_span (out_of ans))))
        (andthen (set_lease i (\<lambda>s. s\<lparr>ls_acquiring := False\<rparr>)) (ret r))))
       (\<lambda>x. andthen (set_lease i (\<lambda>s. s\<lparr>ls_acquiring := False, ls_uncertain := True,
            ls_active := owns_token (ls_lease s)\<rparr>))
          (andthen (set_life e (\<lambda>l2. l2\<lparr>lf_poisoned := True\<rparr>))
          (andthen (retain_failure (TheLease i) (Native EliteError uncertain_result
             ''interrupted acquisition: outcome uncertain'' (TheLease i)))
          (throw x))))))))"

definition obtain_lease :: "'w native \<Rightarrow> nat \<Rightarrow> bool \<Rightarrow> ('w, nat option) py" where
  "obtain_lease L p writing = andthen (endpoint_check p)
     (bind (gets (\<lambda>h. ep_life (endpoints h p))) (\<lambda>e. bind (gets (\<lambda>h. life_busy h e)) (\<lambda>busy.
      if busy then throw (Native BusyError busy_result ''one outstanding token per endpoint'' (TheEndpoint p))
      else bind (new_lease e writing) (\<lambda>i. bind (acquire L e i writing) (\<lambda>r. bind (the_lease i) (\<lambda>s.
        if status r = 1 \<or> status r = 2 then andthen (unpin e) (ret None)
        else if status r \<noteq> 0 \<and> \<not> owns_token (ls_lease s)
        then andthen (unpin e)
          (andthen (check r (if writing then ''reserve'' else ''borrow'') (TheEndpoint p)) (ret None))
        else if status r \<noteq> 0
        then throw (Native EliteError r ''lease acquisition retained ownership'' (TheWrapper i))
        else ret (Some i)))))))"

definition endpoint_busy :: "'w heap \<Rightarrow> nat \<Rightarrow> bool" where
  "endpoint_busy h p = life_busy h (ep_life (endpoints h p))"

definition endpoint_close :: "'w native \<Rightarrow> nat \<Rightarrow> ('w, (string \<times> pyval) list option) py" where
  "endpoint_close L p = bind (gets (\<lambda>h. ep_life (endpoints h p))) (\<lambda>e. bind (life_close L e) (\<lambda>receipt.
     andthen (modify (\<lambda>h. h\<lparr>endpoints := (endpoints h)(p := (endpoints h p)\<lparr>ep_receipt := receipt\<rparr>)\<rparr>))
     (ret receipt)))"

definition enable_drain :: "'w native \<Rightarrow> nat \<Rightarrow> ('w, unit) py" where
  "enable_drain L p = andthen (endpoint_check p)
     (bind (gets (\<lambda>h. ep_life (endpoints h p))) (\<lambda>e. bind (the_life e) (\<lambda>l.
      bind (ffi_on L e (EnableDrain (lf_ptr l))) (\<lambda>ans. bind (result_of ans) (\<lambda>r.
      andthen (check r ''enable_drain'' (TheEndpoint p)) (ret ()))))))"

section \<open>The collector\<close>

text \<open>The finalizer of \<open>_Pin\<close> runs once, when the pin is collected.\<close>

definition pin_finalized :: "'w native \<Rightarrow> nat \<Rightarrow> ('w, unit) py" where
  "pin_finalized L i = bind (gets finalized) (\<lambda>fin.
     if i \<in> fin then ret ()
     else andthen (modify (\<lambda>h. h\<lparr>finalized := insert i fin\<rparr>)) (request_cleanup L i))"

text \<open>What keeps a lease state alive: its pin's finalizer, an exporter, a retained failure.\<close>

definition rooted :: "'w heap \<Rightarrow> nat \<Rightarrow> bool" where
  "rooted h i \<longleftrightarrow> i \<notin> finalized h \<or> (\<exists>b < n_exporters h. x_cleanup (exporters h b) = Some i)
     \<or> TheLease i \<in> fst ` set (failed h)"

definition collect_lease :: "nat \<Rightarrow> ('w, unit) py" where
  "collect_lease i = modify (\<lambda>h. if i < n_leases h \<and> \<not> rooted h i then h\<lparr>dead := insert i (dead h)\<rparr> else h)"

end
