(* ===== verification/Binding_Protocol.thy ===== *)
theory Binding_Protocol
  imports Binding_Leases
begin

text \<open>
  The protocol of one native connection as \<open>include/elite_api.h\<close> documents it, an automaton over the
  calls made on the connection, and the invariant of the binding that ties the automaton to the
  Python objects.
\<close>

section \<open>The connection protocol\<close>

datatype phase = Fresh | Open nat | Closed

record conn =
  c_phase :: phase
  c_token :: "lease option"
  c_view :: bool
  c_stuck :: bool

definition conn_start :: conn where
  "conn_start = \<lparr>c_phase = Fresh, c_token = None, c_view = False, c_stuck = False\<rparr>"

text \<open>An answer of an acquisition, of a pin call, of a transfer and of a detachment.\<close>

fun on_acquire :: "answer \<Rightarrow> conn \<Rightarrow> conn" where
  "on_acquire (Returned r x) c = (if owns_token (o_lease x) then c\<lparr>c_token := Some (o_lease x)\<rparr> else c)"
| "on_acquire (Interrupted e x) c = c\<lparr>c_stuck := True\<rparr>"

fun on_view :: "bool \<Rightarrow> answer \<Rightarrow> conn \<Rightarrow> conn" where
  "on_view v (Returned r x) c = (if status r = 0 then c\<lparr>c_view := v\<rparr> else c)"
| "on_view v (Interrupted e x) c = c\<lparr>c_stuck := True\<rparr>"

fun on_transfer :: "action \<Rightarrow> answer \<Rightarrow> conn \<Rightarrow> conn" where
  "on_transfer a (Returned r x) c = (if transferred a r then c\<lparr>c_token := None\<rparr> else c)"
| "on_transfer a (Interrupted e x) c = c\<lparr>c_stuck := True\<rparr>"

definition on_handle :: "answer \<Rightarrow> conn \<Rightarrow> conn" where
  "on_handle a c = c\<lparr>c_phase := (if o_ptr (out_of a) = 0 then Closed else Open (o_ptr (out_of a)))\<rparr>"

definition may_acquire :: "nat \<Rightarrow> conn \<Rightarrow> bool" where
  "may_acquire p c \<longleftrightarrow> c_phase c = Open p \<and> c_token c = None \<and> \<not> c_stuck c"

definition may_use :: "nat \<Rightarrow> lease \<Rightarrow> bool \<Rightarrow> conn \<Rightarrow> bool" where
  "may_use p l v c \<longleftrightarrow> c_phase c = Open p \<and> c_token c = Some l \<and> c_view c = v \<and> \<not> c_stuck c"

text \<open>One call: \<open>None\<close> when the documentation forbids it in this state.\<close>

fun conn_step :: "conn \<Rightarrow> call \<times> answer \<Rightarrow> conn option" where
  "conn_step c (Attach g, a) = (if c_phase c = Fresh then Some (on_handle a c) else None)"
| "conn_step c (BindingInfo p q, a) = (if c_phase c = Open p then Some c else None)"
| "conn_step c (WriteReserve p, a) = (if may_acquire p c then Some (on_acquire a c) else None)"
| "conn_step c (ReadBorrow p, a) = (if may_acquire p c then Some (on_acquire a c) else None)"
| "conn_step c (ViewRetain p l, a) = (if may_use p l False c then Some (on_view True a c) else None)"
| "conn_step c (ViewEnd p l, a) = (if may_use p l True c then Some (on_view False a c) else None)"
| "conn_step c (WriteCommit p l n k m, a) = (if may_use p l False c then Some (on_transfer (Commit n k m) a c) else None)"
| "conn_step c (WriteAbort p l, a) = (if may_use p l False c then Some (on_transfer Abort a c) else None)"
| "conn_step c (ReadRelease p l, a) = (if may_use p l False c then Some (on_transfer Release a c) else None)"
| "conn_step c (AbandonRetained p l, a) = (if may_use p l False c then Some (on_transfer Abandon a c) else None)"
| "conn_step c (Retire p n, a) = (if c_phase c = Open p then Some c else None)"
| "conn_step c (EnableDrain p, a) = (if c_phase c = Open p then Some c else None)"
| "conn_step c (Detach p, a) = (if may_acquire p c then Some (on_handle a c) else None)"
| "conn_step c (call, a) = None"

fun replay :: "conn \<Rightarrow> (call \<times> answer) list \<Rightarrow> conn option" where
  "replay c [] = Some c"
| "replay c (x # xs) = (case conn_step c x of None \<Rightarrow> None | Some d \<Rightarrow> replay d xs)"

lemma replay_snoc: "replay c (xs @ [x]) = (case replay c xs of None \<Rightarrow> None | Some d \<Rightarrow> conn_step d x)"
  by (induction xs arbitrary: c) (auto split: option.splits)

section \<open>The documented behaviour the binding relies on\<close>

text \<open>
  \<open>empty_handed\<close>: an acquisition that observes no data or no capacity leaves no lease.
  \<open>ok_transfers\<close>: a transfer whose status is OK has transferred.
  \<open>attaches\<close>: an attachment whose status is OK has set the handle.
\<close>

definition empty_handed :: "'w native \<Rightarrow> bool" where
  "empty_handed L \<longleftrightarrow> (\<forall>p w r x. fst (L (WriteReserve p) w) = Returned r x \<or> fst (L (ReadBorrow p) w) = Returned r x
     \<longrightarrow> status r = 1 \<or> status r = 2 \<longrightarrow> \<not> owns_token (o_lease x))"

definition ok_transfers :: "'w native \<Rightarrow> bool" where
  "ok_transfers L \<longleftrightarrow> (\<forall>a p l w r x. fst (L (action_call a p l) w) = Returned r x
     \<longrightarrow> status r = 0 \<longrightarrow> transferred a r)"

definition attaches :: "'w native \<Rightarrow> bool" where
  "attaches L \<longleftrightarrow> (\<forall>g w r x. fst (L (Attach g) w) = Returned r x \<longrightarrow> status r = 0 \<longrightarrow> o_ptr x \<noteq> 0)"

definition documented :: "'w native \<Rightarrow> bool" where
  "documented L \<longleftrightarrow> empty_handed L \<and> ok_transfers L \<and> attaches L"

section \<open>The invariant\<close>

definition noted :: "'w heap \<Rightarrow> nat \<Rightarrow> bool" where
  "noted h i \<longleftrightarrow> TheLease i \<in> fst ` set (failed h)"

definition exported :: "'w heap \<Rightarrow> nat \<Rightarrow> bool" where
  "exported h i \<longleftrightarrow> (\<exists>b < n_exporters h. x_cleanup (exporters h b) = Some i)"

lemma rooted_iff: "rooted h i \<longleftrightarrow> i \<notin> finalized h \<or> exported h i \<or> noted h i"
  by (simp add: rooted_def exported_def noted_def)

abbreviation life_of :: "'w heap \<Rightarrow> nat \<Rightarrow> life" where
  "life_of h i \<equiv> lives h (ls_endpoint (leases h i))"

definition lease_core :: "'w heap \<Rightarrow> nat \<Rightarrow> bool" where
  "lease_core h i \<longleftrightarrow>
     ls_endpoint (leases h i) < n_lives h \<and> \<not> ls_acquiring (leases h i)
     \<and> (ls_active (leases h i) \<longrightarrow> lf_pin (life_of h i) = Some i \<and> lf_ptr (life_of h i) \<noteq> 0)
     \<and> (ls_view_pin (leases h i) \<longrightarrow> ls_active (leases h i))
     \<and> (ls_uncertain (leases h i) \<longrightarrow> noted h i \<and> (lf_poisoned (life_of h i) \<or> ls_active (leases h i)))
     \<and> (ls_active (leases h i) \<and> lf_poisoned (life_of h i) \<longrightarrow> noted h i)
     \<and> (i \<in> dead h \<longrightarrow> \<not> rooted h i)"

text \<open>In its own process a pinned lease has an exporter, and a lease whose pin is gone and which still
  owns its token has an exporter that will finish it; otherwise it is on record.\<close>

definition kept :: "'w heap \<Rightarrow> nat \<Rightarrow> bool" where
  "kept h i \<longleftrightarrow> (lf_pid (life_of h i) = now_pid h \<longrightarrow>
     (ls_view_pin (leases h i) \<longrightarrow> noted h i \<or> exported h i)
     \<and> (i \<in> finalized h \<and> ls_active (leases h i) \<longrightarrow>
          noted h i \<or> ls_view_pin (leases h i) \<and> ls_cleanup_requested (leases h i)))"

definition exporter_core :: "'w heap \<Rightarrow> nat \<Rightarrow> bool" where
  "exporter_core h b \<longleftrightarrow> (let x = exporters h b in
     \<not> x_closing x \<and> (x_exports x > 0 \<longrightarrow> \<not> x_closed x)
     \<and> (x_closed x \<longrightarrow> x_cleanup x = None)
     \<and> (\<not> x_closed x \<longrightarrow> (\<exists>i < n_leases h. x_owner x = Some i \<and> x_cleanup x = Some i
          \<and> ls_view_pin (leases h i) \<and> wrapper_exporter h i = Some b
          \<and> x_pid x = lf_pid (lives h (ls_endpoint (leases h i))))))"

text \<open>An exporter asked to close has no exports only if its failed close is on record.\<close>

definition settled :: "'w heap \<Rightarrow> nat \<Rightarrow> bool" where
  "settled h b \<longleftrightarrow> (let x = exporters h b in
     \<not> x_closed x \<and> x_close_requested x \<and> x_exports x = 0 \<and> x_pid x = now_pid h
     \<longrightarrow> (\<forall>i. x_cleanup x = Some i \<longrightarrow> noted h i))"

text \<open>The lease an endpoint holds, and how it shows in the protocol.\<close>

definition holder :: "'w heap \<Rightarrow> nat \<Rightarrow> nat option" where
  "holder h e = (case lf_pin (lives h e) of None \<Rightarrow> None | Some i \<Rightarrow> if ls_active (leases h i) then Some i else None)"

definition displays :: "'w heap \<Rightarrow> nat \<Rightarrow> conn \<Rightarrow> bool" where
  "displays h e c \<longleftrightarrow>
     (\<forall>p. c_phase c = Open p \<longleftrightarrow> lf_ptr (lives h e) = p \<and> p \<noteq> 0)
     \<and> (if c_stuck c
        then lf_poisoned (lives h e) \<or> (\<exists>i. holder h e = Some i \<and> ls_uncertain (leases h i))
        else c_token c = map_option (\<lambda>i. ls_lease (leases h i)) (holder h e)
          \<and> (c_view c \<longleftrightarrow> (\<exists>i. holder h e = Some i \<and> ls_view_pin (leases h i))))"

definition life_ok :: "'w heap \<Rightarrow> nat \<Rightarrow> bool" where
  "life_ok h e \<longleftrightarrow>
     (\<forall>i. lf_pin (lives h e) = Some i \<longrightarrow> i < n_leases h \<and> ls_endpoint (leases h i) = e)
     \<and> fst ` set (calls h e) \<subseteq> {lf_pid (lives h e)}
     \<and> (\<exists>c. replay conn_start (map snd (calls h e)) = Some c \<and> displays h e c)"

text \<open>The invariant; the leases in \<open>K\<close> are being finalized, the exporters in \<open>B\<close> are being closed.\<close>

definition inv_but :: "nat set \<Rightarrow> nat set \<Rightarrow> 'w heap \<Rightarrow> bool" where
  "inv_but K B h \<longleftrightarrow> dead h \<union> finalized h \<subseteq> {..<n_leases h}
     \<and> (\<forall>i b. wrapper_exporter h i = Some b \<longrightarrow> b < n_exporters h)
     \<and> (\<forall>i < n_leases h. lease_core h i \<and> (i \<notin> K \<longrightarrow> kept h i))
     \<and> (\<forall>b < n_exporters h. b \<notin> B \<longrightarrow> exporter_core h b \<and> settled h b)
     \<and> (\<forall>e < n_lives h. life_ok h e) \<and> \<not> warn_error h"

abbreviation inv :: "'w heap \<Rightarrow> bool" where
  "inv \<equiv> inv_but {} {}"

end
