(* ===== verification/Binding_Invariant.thy ===== *)
theory Binding_Invariant
  imports Binding_Protocol
begin

text \<open>
  The tools of the preservation proofs: the updates of the heap as functions with their projections,
  the weakest preconditions of the primitive steps, the frame of a local change, and the leaf
  lemmas for the native calls made for a live lease.
\<close>


section \<open>Calls and updates\<close>

definition upd_lease :: "nat \<Rightarrow> (lease_state \<Rightarrow> lease_state) \<Rightarrow> 'w heap \<Rightarrow> 'w heap" where
  "upd_lease i f h = h\<lparr>leases := (leases h)(i := f (leases h i))\<rparr>"

definition upd_life :: "nat \<Rightarrow> (life \<Rightarrow> life) \<Rightarrow> 'w heap \<Rightarrow> 'w heap" where
  "upd_life e f h = h\<lparr>lives := (lives h)(e := f (lives h e))\<rparr>"

definition upd_exporter :: "nat \<Rightarrow> (exporter \<Rightarrow> exporter) \<Rightarrow> 'w heap \<Rightarrow> 'w heap" where
  "upd_exporter b f h = h\<lparr>exporters := (exporters h)(b := f (exporters h b))\<rparr>"

definition note_failure :: "resource \<Rightarrow> pyexn \<Rightarrow> 'w heap \<Rightarrow> 'w heap" where
  "note_failure r x h = h\<lparr>failed := failed h @ [(r, x)]\<rparr>"

definition called :: "'w native \<Rightarrow> nat \<Rightarrow> call \<Rightarrow> 'w heap \<Rightarrow> 'w heap" where
  "called L e c h = h\<lparr>world := snd (L c (world h)), calls := (calls h)(e := calls h e @ [(now_pid h, c, fst (L c (world h)))])\<rparr>"

lemma heap_simps [simp]:
  "leases (upd_lease i f h) = (leases h)(i := f (leases h i))" "lives (upd_lease i f h) = lives h"
  "calls (upd_lease i f h) = calls h" "world (upd_lease i f h) = world h" "exporters (upd_lease i f h) = exporters h"
  "now_pid (upd_lease i f h) = now_pid h" "n_leases (upd_lease i f h) = n_leases h" "n_lives (upd_lease i f h) = n_lives h"
  "n_exporters (upd_lease i f h) = n_exporters h" "finalized (upd_lease i f h) = finalized h" "dead (upd_lease i f h) = dead h"
  "wrapper_exporter (upd_lease i f h) = wrapper_exporter h" "failed (upd_lease i f h) = failed h"
  "objects (upd_lease i f h) = objects h" "warn_error (upd_lease i f h) = warn_error h"
  "leases (upd_life e g h) = leases h" "lives (upd_life e g h) = (lives h)(e := g (lives h e))"
  "calls (upd_life e g h) = calls h" "world (upd_life e g h) = world h" "exporters (upd_life e g h) = exporters h"
  "now_pid (upd_life e g h) = now_pid h" "n_leases (upd_life e g h) = n_leases h" "n_lives (upd_life e g h) = n_lives h"
  "n_exporters (upd_life e g h) = n_exporters h" "finalized (upd_life e g h) = finalized h" "dead (upd_life e g h) = dead h"
  "wrapper_exporter (upd_life e g h) = wrapper_exporter h" "failed (upd_life e g h) = failed h"
  "objects (upd_life e g h) = objects h" "warn_error (upd_life e g h) = warn_error h"
  by (simp_all add: upd_lease_def upd_life_def)

lemma heap_simps2 [simp]:
  "leases (upd_exporter b k h) = leases h" "lives (upd_exporter b k h) = lives h"
  "calls (upd_exporter b k h) = calls h" "world (upd_exporter b k h) = world h"
  "exporters (upd_exporter b k h) = (exporters h)(b := k (exporters h b))"
  "now_pid (upd_exporter b k h) = now_pid h" "n_leases (upd_exporter b k h) = n_leases h" "n_lives (upd_exporter b k h) = n_lives h"
  "n_exporters (upd_exporter b k h) = n_exporters h" "finalized (upd_exporter b k h) = finalized h" "dead (upd_exporter b k h) = dead h"
  "wrapper_exporter (upd_exporter b k h) = wrapper_exporter h" "failed (upd_exporter b k h) = failed h"
  "objects (upd_exporter b k h) = objects h" "warn_error (upd_exporter b k h) = warn_error h"
  "leases (note_failure r x h) = leases h" "lives (note_failure r x h) = lives h"
  "calls (note_failure r x h) = calls h" "world (note_failure r x h) = world h" "exporters (note_failure r x h) = exporters h"
  "now_pid (note_failure r x h) = now_pid h" "n_leases (note_failure r x h) = n_leases h" "n_lives (note_failure r x h) = n_lives h"
  "n_exporters (note_failure r x h) = n_exporters h" "finalized (note_failure r x h) = finalized h" "dead (note_failure r x h) = dead h"
  "wrapper_exporter (note_failure r x h) = wrapper_exporter h" "failed (note_failure r x h) = failed h @ [(r, x)]"
  "objects (note_failure r x h) = objects h" "warn_error (note_failure r x h) = warn_error h"
  by (simp_all add: upd_exporter_def note_failure_def)

lemma heap_simps3 [simp]:
  "leases (called L e c h) = leases h" "lives (called L e c h) = lives h"
  "calls (called L e c h) = (calls h)(e := calls h e @ [(now_pid h, c, fst (L c (world h)))])"
  "world (called L e c h) = snd (L c (world h))" "exporters (called L e c h) = exporters h"
  "now_pid (called L e c h) = now_pid h" "n_leases (called L e c h) = n_leases h" "n_lives (called L e c h) = n_lives h"
  "n_exporters (called L e c h) = n_exporters h" "finalized (called L e c h) = finalized h" "dead (called L e c h) = dead h"
  "wrapper_exporter (called L e c h) = wrapper_exporter h" "failed (called L e c h) = failed h"
  "objects (called L e c h) = objects h" "warn_error (called L e c h) = warn_error h"
  by (simp_all add: called_def)

lemma noted_simps [simp]:
  "noted (upd_lease i f h) j = noted h j" "noted (upd_life e g h) j = noted h j"
  "noted (upd_exporter b k h) j = noted h j" "noted (called L e c h) j = noted h j"
  "noted (note_failure r x h) j \<longleftrightarrow> noted h j \<or> r = TheLease j"
  by (auto simp: noted_def)

lemma exported_simps [simp]:
  "exported (upd_lease i f h) j = exported h j" "exported (upd_life e g h) j = exported h j"
  "exported (called L e c h) j = exported h j" "exported (note_failure r x h) j = exported h j"
  by (auto simp: exported_def)

lemma wp_steps [wp_simps]:
  "wp (set_lease i f) Q E h \<longleftrightarrow> Q () (upd_lease i f h)"
  "wp (set_life e g) Q E h \<longleftrightarrow> Q () (upd_life e g h)"
  "wp (set_exporter b k) Q E h \<longleftrightarrow> Q () (upd_exporter b k h)"
  "wp (retain_failure r x) Q E h \<longleftrightarrow>
     (if warn_error h then E (Warned x) (note_failure r x h) else Q () (note_failure r x h))"
  "wp (unpin e) Q E h \<longleftrightarrow> Q () (upd_life e (\<lambda>l. l\<lparr>lf_pin := None\<rparr>) h)"
  by (simp_all add: set_lease_def set_life_def set_exporter_def retain_failure_def warn_def unpin_def wp_modify wp_andthen wp_bind wp_gets wp_throw wp_ret
      upd_lease_def upd_life_def upd_exporter_def note_failure_def)

lemma wp_reads [wp_simps]:
  "wp (the_lease i) Q' E h \<longleftrightarrow> Q' (leases h i) h" "wp (the_life e) Q'' E h \<longleftrightarrow> Q'' (lives h e) h"
  "wp (the_exporter b) Q3 E h \<longleftrightarrow> Q3 (exporters h b) h" "wp (the_object x) Q4 E h \<longleftrightarrow> Q4 (objects h x) h"
  "wp getpid Q5 E h \<longleftrightarrow> Q5 (now_pid h) h"
  by (simp_all add: the_lease_def the_life_def the_exporter_def the_object_def getpid_def wp_gets)

lemma wp_ffi [wp_simps]:
  "wp (ffi L c) Q E h \<longleftrightarrow> Q (fst (L c (world h))) (h\<lparr>world := snd (L c (world h))\<rparr>)"
  by (simp add: ffi_def wp_def split: prod.splits)

lemma wp_ffi_on [wp_simps]:
  "wp (ffi_on L e c) Q E h \<longleftrightarrow> Q (fst (L c (world h))) (called L e c h)"
  by (simp add: ffi_on_def wp_ffi wp_simps called_def)

lemma wp_result_of [wp_simps]:
  "wp (result_of a) Q E h \<longleftrightarrow> (case a of Returned r x \<Rightarrow> Q r h | Interrupted e x \<Rightarrow> E e h)"
  by (cases a) (simp_all add: wp_simps)

lemma wp_check [wp_simps]:
  "wp (check r op res) Q E h \<longleftrightarrow>
     (if status r \<noteq> 0 then E (Native (status_class (status r)) r op res) h else Q r h)"
  by (simp add: check_def wp_simps)

lemma wp_poison [wp_simps]:
  "wp (poison i x) Q E h \<longleftrightarrow> (if warn_error h then E (Warned x) else Q ()) (note_failure (TheLease i) x (upd_life (ls_endpoint (leases h i)) (\<lambda>l. l\<lparr>lf_poisoned := True\<rparr>)
     (upd_lease i (\<lambda>s. s\<lparr>ls_uncertain := True\<rparr>) h)))"
  by (simp add: poison_def wp_simps)

section \<open>The frame of a local change\<close>

text \<open>
  A change confined to lease \<open>i\<close>, endpoint lifetime \<open>e\<close> and its calls keeps the invariant when it
  keeps it there and no other lease of \<open>e\<close> is active.
\<close>

definition elsewhere :: "nat \<Rightarrow> nat \<Rightarrow> 'w heap \<Rightarrow> 'w heap \<Rightarrow> bool" where
  "elsewhere i e h h' \<longleftrightarrow>
     now_pid h' = now_pid h \<and> n_leases h' = n_leases h \<and> n_lives h' = n_lives h
     \<and> n_exporters h' = n_exporters h \<and> finalized h' = finalized h \<and> dead h' = dead h
     \<and> exporters h' = exporters h \<and> wrapper_exporter h' = wrapper_exporter h \<and> warn_error h' = warn_error h
     \<and> (\<forall>k. k \<noteq> e \<longrightarrow> lives h' k = lives h k \<and> calls h' k = calls h k)
     \<and> (\<forall>j. j \<noteq> i \<longrightarrow> leases h' j = leases h j)
     \<and> (\<forall>j. noted h j \<longrightarrow> noted h' j) \<and> (\<forall>j. j \<noteq> i \<longrightarrow> noted h' j \<longrightarrow> noted h j)
     \<and> lf_pid (lives h' e) = lf_pid (lives h e) \<and> (lf_poisoned (lives h e) \<longrightarrow> lf_poisoned (lives h' e))
     \<and> ls_endpoint (leases h' i) = ls_endpoint (leases h i)"

lemma exporter_transfer:
  assumes "elsewhere i e h h'" "exporter_core h b"
    and "ls_view_pin (leases h' i) = ls_view_pin (leases h i) \<or> x_cleanup (exporters h b) \<noteq> Some i"
  shows "exporter_core h' b"
proof -
  have pid: "lf_pid (lives h' k) = lf_pid (lives h k)" for k
    using assms(1) by (cases "k = e") (auto simp: elsewhere_def)
  have ls: "ls_endpoint (leases h' j) = ls_endpoint (leases h j)" for j
    using assms(1) by (cases "j = i") (auto simp: elsewhere_def)
  have "x_cleanup (exporters h b) = Some j \<Longrightarrow> ls_view_pin (leases h' j) = ls_view_pin (leases h j)" for j
    using assms(1,3) by (cases "j = i") (auto simp: elsewhere_def)
  moreover have "exporters h' = exporters h" "wrapper_exporter h' = wrapper_exporter h" "n_leases h' = n_leases h"
    using assms(1) by (auto simp: elsewhere_def)
  ultimately show ?thesis
    using assms(2) unfolding exporter_core_def Let_def by (auto simp: pid ls)
qed

lemma settled_transfer:
  assumes "elsewhere i e h h'" "settled h b"
  shows "settled h' b"
  using assms by (auto simp: elsewhere_def settled_def Let_def)

lemma lease_transfer:
  assumes el: "elsewhere i e h h'" and j: "j \<noteq> i"
    and idle: "ls_endpoint (leases h j) = e \<Longrightarrow> \<not> ls_active (leases h j)"
  shows "lease_core h j \<Longrightarrow> lease_core h' j" "kept h j \<Longrightarrow> kept h' j"
proof -
  have l: "leases h' j = leases h j" and n: "noted h' j = noted h j"
    and g: "now_pid h' = now_pid h" "finalized h' = finalized h" "dead h' = dead h" "n_lives h' = n_lives h"
      "exported h' j = exported h j"
    using el j by (auto simp: elsewhere_def exported_def)
  have same: "lives h' (ls_endpoint (leases h j)) = life_of h j" if "ls_active (leases h j)"
    using el idle that by (auto simp: elsewhere_def)
  have pid: "lf_pid (lives h' (ls_endpoint (leases h j))) = lf_pid (life_of h j)"
    and poi: "lf_poisoned (life_of h j) \<Longrightarrow> lf_poisoned (lives h' (ls_endpoint (leases h j)))"
    using el by (cases "ls_endpoint (leases h j) = e"; auto simp: elsewhere_def)+
  show "lease_core h j \<Longrightarrow> lease_core h' j"
    unfolding lease_core_def rooted_iff l n g using same poi by metis
  show "kept h j \<Longrightarrow> kept h' j"
    unfolding kept_def l n g pid .
qed

lemma life_okD:
  assumes "life_ok h e"
  shows "lf_pin (lives h e) = Some i \<Longrightarrow> i < n_leases h \<and> ls_endpoint (leases h i) = e"
    and "\<exists>c. replay conn_start (map snd (calls h e)) = Some c \<and> displays h e c"
    and "fst ` set (calls h e) \<subseteq> {lf_pid (lives h e)}"
  using assms unfolding life_ok_def by blast+

lemma life_transfer:
  assumes "elsewhere i e h h'" "life_ok h k" "k \<noteq> e" "ls_endpoint (leases h i) = e \<or> n_leases h \<le> i"
  shows "life_ok h' k"
proof -
  have k: "lives h' k = lives h k" "calls h' k = calls h k" "n_leases h' = n_leases h"
    using assms(1,3) by (auto simp: elsewhere_def)
  have pin: "leases h' j = leases h j" if "lf_pin (lives h k) = Some j" for j
  proof -
    have "j \<noteq> i" using life_okD(1) [OF assms(2) that] assms(3,4) by auto
    then show ?thesis using assms(1) by (simp add: elsewhere_def)
  qed
  have hold: "holder h' k = holder h k" using pin by (auto simp: holder_def k split: option.splits)
  have in_hold: "holder h k = Some j \<Longrightarrow> leases h' j = leases h j" for j
    using pin by (auto simp: holder_def split: option.splits if_splits)
  have "displays h' k c = displays h k c" for c
    unfolding displays_def hold k using in_hold by (cases "holder h k") auto
  with life_okD [OF assms(2)] show ?thesis unfolding life_ok_def k using pin by metis
qed

lemma inv_change:
  assumes I: "inv_but K B h" and el: "elsewhere i e h h'" and ie: "ls_endpoint (leases h i) = e \<or> n_leases h \<le> i"
    and idle: "\<And>j. j < n_leases h \<Longrightarrow> j \<noteq> i \<Longrightarrow> ls_endpoint (leases h j) = e \<Longrightarrow> \<not> ls_active (leases h j)"
    and exp: "\<And>b. b < n_exporters h \<Longrightarrow> b \<notin> B \<Longrightarrow> x_cleanup (exporters h b) = Some i \<Longrightarrow>
      ls_view_pin (leases h' i) = ls_view_pin (leases h i)"
    and lease: "i < n_leases h \<Longrightarrow> lease_core h' i" "i < n_leases h \<Longrightarrow> i \<notin> K \<Longrightarrow> kept h' i"
    and life: "e < n_lives h \<Longrightarrow> life_ok h' e"
  shows "inv_but K B h'"
proof -
  have n: "n_leases h' = n_leases h" "n_exporters h' = n_exporters h" "n_lives h' = n_lives h"
    using el by (auto simp: elsewhere_def)
  have "lease_core h' j \<and> (j \<notin> K \<longrightarrow> kept h' j)" if "j < n_leases h" for j
  proof (cases "j = i")
    case False
    with I that lease_transfer [OF el False idle [OF that False]] show ?thesis unfolding inv_but_def by blast
  qed (use lease that in blast)
  moreover have "exporter_core h' b \<and> settled h' b" if "b < n_exporters h" "b \<notin> B" for b
    using I that exporter_transfer [OF el] settled_transfer [OF el] exp
    unfolding inv_but_def by blast
  moreover have "life_ok h' k" if "k < n_lives h" for k
    using I ie life life_transfer [OF el, of k] that unfolding inv_but_def by (cases "k = e") blast+
  moreover have "dead h' \<union> finalized h' \<subseteq> {..<n_leases h}"
    "\<forall>i b. wrapper_exporter h' i = Some b \<longrightarrow> b < n_exporters h" "\<not> warn_error h'"
    using I el unfolding inv_but_def elsewhere_def by metis+
  ultimately show ?thesis unfolding inv_but_def n by blast
qed

section \<open>Reading the invariant\<close>

lemma inv_lease: "inv_but K B h \<Longrightarrow> i < n_leases h \<Longrightarrow> lease_core h i"
  by (simp add: inv_but_def)

lemma inv_kept: "inv_but K B h \<Longrightarrow> i < n_leases h \<Longrightarrow> i \<notin> K \<Longrightarrow> kept h i"
  by (simp add: inv_but_def)

lemma inv_life: "inv_but K B h \<Longrightarrow> e < n_lives h \<Longrightarrow> life_ok h e"
  by (simp add: inv_but_def)

lemma inv_exporter:
  assumes "inv_but K B h" "b < n_exporters h" "b \<notin> B"
  shows "exporter_core h b" "settled h b"
  using assms by (simp_all add: inv_but_def)

lemma inv_warn: "inv_but K B h \<Longrightarrow> \<not> warn_error h"
  by (simp add: inv_but_def)

lemma inv_mono: "inv_but K B h \<Longrightarrow> K \<subseteq> K' \<Longrightarrow> B \<subseteq> B' \<Longrightarrow> inv_but K' B' h"
  unfolding inv_but_def by blast

lemma lease_coreD:
  assumes "lease_core h i"
  shows "ls_endpoint (leases h i) < n_lives h" "\<not> ls_acquiring (leases h i)"
    "ls_active (leases h i) \<Longrightarrow> lf_pin (life_of h i) = Some i"
    "ls_active (leases h i) \<Longrightarrow> lf_ptr (life_of h i) \<noteq> 0"
    "ls_view_pin (leases h i) \<Longrightarrow> ls_active (leases h i)"
    "ls_uncertain (leases h i) \<Longrightarrow> noted h i"
    "ls_uncertain (leases h i) \<Longrightarrow> lf_poisoned (life_of h i) \<or> ls_active (leases h i)"
    "ls_active (leases h i) \<Longrightarrow> lf_poisoned (life_of h i) \<Longrightarrow> noted h i"
    "i \<in> dead h \<Longrightarrow> \<not> rooted h i"
  using assms unfolding lease_core_def by blast+

text \<open>The conditions under which \<open>_assert_live\<close> passes.\<close>

definition live_lease :: "'w heap \<Rightarrow> nat \<Rightarrow> bool" where
  "live_lease h i \<longleftrightarrow> lf_pid (life_of h i) = now_pid h \<and> lf_ptr (life_of h i) \<noteq> 0 \<and> \<not> lf_poisoned (life_of h i)
     \<and> ls_active (leases h i) \<and> \<not> ls_uncertain (leases h i)"

lemma wp_assert_live:
  assumes "live_lease h i \<Longrightarrow> Q () h" "\<And>x. \<not> live_lease h i \<Longrightarrow> E x h"
  shows "wp (assert_live i) Q E h"
proof (cases "live_lease h i")
  case True
  with assms(1) show ?thesis by (simp add: assert_live_def life_check_def live_lease_def wp_simps)
next
  case False
  then have e: "E x h" for x using assms(2) by blast
  show ?thesis using False
    by (simp add: e assert_live_def life_check_def live_lease_def wp_simps) auto
qed

lemma displaysD:
  assumes "displays h e c"
  shows "c_phase c = Open p \<longleftrightarrow> lf_ptr (lives h e) = p \<and> p \<noteq> 0"
    and "c_stuck c \<Longrightarrow> lf_poisoned (lives h e) \<or> (\<exists>i. holder h e = Some i \<and> ls_uncertain (leases h i))"
    and "\<not> c_stuck c \<Longrightarrow> c_token c = map_option (\<lambda>i. ls_lease (leases h i)) (holder h e)"
    and "\<not> c_stuck c \<Longrightarrow> c_view c \<longleftrightarrow> (\<exists>i. holder h e = Some i \<and> ls_view_pin (leases h i))"
  using assms unfolding displays_def by (blast, metis, metis, metis)

lemma displaysI:
  assumes "displays h e c" "lf_ptr (lives h' e) = lf_ptr (lives h e)" "c_phase d = c_phase c"
    and "c_stuck d \<Longrightarrow> lf_poisoned (lives h' e) \<or> (\<exists>i. holder h' e = Some i \<and> ls_uncertain (leases h' i))"
    and "\<not> c_stuck d \<Longrightarrow> c_token d = map_option (\<lambda>i. ls_lease (leases h' i)) (holder h' e)"
    and "\<not> c_stuck d \<Longrightarrow> c_view d \<longleftrightarrow> (\<exists>i. holder h' e = Some i \<and> ls_view_pin (leases h' i))"
  shows "displays h' e d"
proof -
  have "\<forall>p. c_phase d = Open p \<longleftrightarrow> lf_ptr (lives h' e) = p \<and> p \<noteq> 0"
    using displaysD(1) [OF assms(1)] assms(2,3) by simp
  then show ?thesis unfolding displays_def using assms(4-6) by presburger
qed

lemma active_facts:
  assumes "inv_but K B h" "i < n_leases h" "ls_active (leases h i)"
  shows "ls_endpoint (leases h i) < n_lives h" "lf_pin (life_of h i) = Some i"
    "holder h (ls_endpoint (leases h i)) = Some i" "lf_ptr (life_of h i) \<noteq> 0"
proof -
  note c = lease_coreD [OF inv_lease [OF assms(1,2)]]
  show "ls_endpoint (leases h i) < n_lives h" by (rule c(1))
  show "lf_pin (life_of h i) = Some i" by (rule c(3) [OF assms(3)])
  then show "holder h (ls_endpoint (leases h i)) = Some i" using assms(3) by (simp add: holder_def)
  show "lf_ptr (life_of h i) \<noteq> 0" by (rule c(4) [OF assms(3)])
qed

lemma others_inactive:
  assumes "inv_but K B h" "j < n_leases h" "j \<noteq> i" "ls_endpoint (leases h j) = e" "lf_pin (lives h e) = Some i"
  shows "\<not> ls_active (leases h j)"
  using lease_coreD(3) [OF inv_lease [OF assms(1,2)]] assms(3-5) by auto

lemma live_conn:
  assumes "inv_but K B h" "i < n_leases h" "live_lease h i"
  obtains c where "replay conn_start (map snd (calls h (ls_endpoint (leases h i)))) = Some c"
    "may_use (lf_ptr (life_of h i)) (ls_lease (leases h i)) (ls_view_pin (leases h i)) c"
    "displays h (ls_endpoint (leases h i)) c"
proof -
  have act: "ls_active (leases h i)" using assms(3) by (simp add: live_lease_def)
  note e = active_facts [OF assms(1,2) act]
  from life_okD(2) [OF inv_life [OF assms(1) e(1)]] obtain c where
    c: "replay conn_start (map snd (calls h (ls_endpoint (leases h i)))) = Some c" "displays h (ls_endpoint (leases h i)) c"
    by blast
  note d = displaysD [OF c(2)]
  have st: "\<not> c_stuck c" using d(2) e(3) assms(3) by (auto simp: live_lease_def)
  have mu: "may_use (lf_ptr (life_of h i)) (ls_lease (leases h i)) (ls_view_pin (leases h i)) c"
    using d(1) [of "lf_ptr (life_of h i)"] d(3,4) [OF st] st e(3,4) by (simp add: may_use_def)
  show thesis by (rule that [OF c(1) mu c(2)])
qed

lemma life_after_call:
  assumes "replay conn_start (map snd (calls h e)) = Some c" "conn_step c x = Some d"
    and "calls h' e = calls h e @ [(q, x)]" "displays h' e d"
    and "life_ok h e" "q = lf_pid (lives h e)" "lf_pid (lives h' e) = lf_pid (lives h e)"
    and "\<And>i. lf_pin (lives h' e) = Some i \<Longrightarrow> i < n_leases h' \<and> ls_endpoint (leases h' i) = e"
  shows "life_ok h' e"
  unfolding life_ok_def using assms life_okD(3) [OF assms(5)] by (auto simp: replay_snoc)

section \<open>View pins\<close>

text \<open>What the operations on lease \<open>i\<close> leave alone.\<close>

definition stable :: "nat \<Rightarrow> 'w heap \<Rightarrow> 'w heap \<Rightarrow> bool" where
  "stable i h h' \<longleftrightarrow>
     now_pid h' = now_pid h \<and> n_leases h' = n_leases h \<and> n_lives h' = n_lives h \<and> n_exporters h' = n_exporters h
     \<and> finalized h' = finalized h \<and> dead h' = dead h \<and> exporters h' = exporters h
     \<and> wrapper_exporter h' = wrapper_exporter h \<and> ls_endpoint (leases h' i) = ls_endpoint (leases h i)
     \<and> (\<forall>e. lf_pid (lives h' e) = lf_pid (lives h e)) \<and> (\<forall>j. noted h j \<longrightarrow> noted h' j)
     \<and> ls_cleanup_requested (leases h' i) = ls_cleanup_requested (leases h i)
     \<and> ls_writing (leases h' i) = ls_writing (leases h i)"

lemma stable_refl [simp]: "stable i h h"
  by (simp add: stable_def)

lemma stable_trans: "stable i h h' \<Longrightarrow> stable i h' h'' \<Longrightarrow> stable i h h''"
  by (simp add: stable_def)

text \<open>A call made for a live lease.\<close>

lemma call_leaf:
  assumes I: "inv_but K B h" and i: "i < n_leases h" and lv: "live_lease h i"
    and e: "e = ls_endpoint (leases h i)" and el: "elsewhere i e h h'"
    and calls: "calls h' e = calls h e @ [(now_pid h, call, a)]"
    and exp: "\<And>b. b < n_exporters h \<Longrightarrow> b \<notin> B \<Longrightarrow> x_cleanup (exporters h b) = Some i \<Longrightarrow>
      ls_view_pin (leases h' i) = ls_view_pin (leases h i)"
    and ok: "lease_core h' i" "i \<notin> K \<Longrightarrow> kept h' i"
    and pin: "lf_pin (lives h' e) = Some i \<or> lf_pin (lives h' e) = None"
    and conn: "\<And>c. may_use (lf_ptr (lives h e)) (ls_lease (leases h i)) (ls_view_pin (leases h i)) c \<Longrightarrow>
      displays h e c \<Longrightarrow> \<exists>d. conn_step c (call, a) = Some d \<and> displays h' e d"
  shows "inv_but K B h'"
proof (rule inv_change [OF I el])
  have act: "ls_active (leases h i)" using lv by (simp add: live_lease_def)
  note en = active_facts [OF I i act, folded e]
  show "\<not> ls_active (leases h j)" if "j < n_leases h" "j \<noteq> i" "ls_endpoint (leases h j) = e" for j
    by (rule others_inactive [OF I that en(2)])
  show "life_ok h' e"
  proof -
    from live_conn [OF I i lv, folded e] obtain c where c: "replay conn_start (map snd (calls h e)) = Some c"
      "may_use (lf_ptr (lives h e)) (ls_lease (leases h i)) (ls_view_pin (leases h i)) c" "displays h e c" .
    from conn [OF c(2,3)] obtain d where d: "conn_step c (call, a) = Some d" "displays h' e d" by blast
    have sz: "n_leases h' = n_leases h" "ls_endpoint (leases h' i) = e" using el e by (auto simp: elsewhere_def)
    show ?thesis
      by (rule life_after_call [OF c(1) d(1) calls d(2) inv_life [OF I en(1)]]) (use pin i sz lv el e in \<open>auto simp: live_lease_def elsewhere_def\<close>)
  qed
qed (use ok e exp in auto)

lemma elsewhereI:
  assumes "now_pid h' = now_pid h" "n_leases h' = n_leases h" "n_lives h' = n_lives h"
    "n_exporters h' = n_exporters h" "finalized h' = finalized h" "dead h' = dead h"
    "exporters h' = exporters h" "wrapper_exporter h' = wrapper_exporter h" "warn_error h' = warn_error h"
    "\<And>k. k \<noteq> e \<Longrightarrow> lives h' k = lives h k" "\<And>k. k \<noteq> e \<Longrightarrow> calls h' k = calls h k"
    "\<And>j. j \<noteq> i \<Longrightarrow> leases h' j = leases h j"
    "\<And>j. noted h j \<Longrightarrow> noted h' j" "\<And>j. j \<noteq> i \<Longrightarrow> noted h' j \<Longrightarrow> noted h j"
    "lf_pid (lives h' e) = lf_pid (lives h e)" "lf_poisoned (lives h e) \<Longrightarrow> lf_poisoned (lives h' e)"
    "ls_endpoint (leases h' i) = ls_endpoint (leases h i)"
  shows "elsewhere i e h h'"
  unfolding elsewhere_def using assms by blast

text \<open>A pin call: the lease changes its view pin, or everything is uncertain.\<close>

lemma view_leaf:
  assumes I: "inv_but K B h" and i: "i < n_leases h" "i \<notin> dead h" and lv: "live_lease h i"
    and e: "e = ls_endpoint (leases h i)" and el: "elsewhere i e h h'" and v: "ls_view_pin (leases h i) = (\<not> v)"
    and call: "call = (if v then ViewRetain else ViewEnd) (lf_ptr (lives h e)) (ls_lease (leases h i))"
    and calls: "calls h' e = calls h e @ [(now_pid h, call, a)]"
    and leases: "leases h' i = (leases h i)\<lparr>ls_view_pin := vp, ls_uncertain := unc\<rparr>"
    and lives: "lives h' e = (lives h e)\<lparr>lf_poisoned := unc\<rparr>"
    and out: "(\<exists>r x. a = Returned r x \<and> \<not> unc \<and> vp = (if status r = 0 then v else \<not> v))
      \<or> (\<exists>y x. a = Interrupted y x \<and> unc \<and> vp \<and> noted h' i)"
    and exp: "\<And>b. b < n_exporters h \<Longrightarrow> b \<notin> B \<Longrightarrow> x_cleanup (exporters h b) = Some i \<Longrightarrow> vp \<and> \<not> v"
    and ok: "i \<notin> K \<Longrightarrow> kept h' i"
  shows "inv_but K B h'"
proof (rule call_leaf [OF I i(1) lv e el calls])
  have act: "ls_active (leases h i)" using lv by (simp add: live_lease_def)
  note en = active_facts [OF I i(1) act, folded e]
  have g: "n_lives h' = n_lives h" "dead h' = dead h" using el by (auto simp: elsewhere_def)
  have hold: "holder h' e = Some i" using en(2) act by (simp add: holder_def lives leases)
  note core = lease_coreD [OF inv_lease [OF I i(1)]]
  have ls: "ls_endpoint (leases h' i) = e" "ls_active (leases h' i)" using act e by (simp_all add: leases)
  show "lease_core h' i"
    unfolding lease_core_def ls(1)
    using en core(2) act i(2) out lv [unfolded live_lease_def, folded e] by (auto simp: leases lives g)
  show "lf_pin (lives h' e) = Some i \<or> lf_pin (lives h' e) = None" using en(2) by (simp add: lives)
  show "ls_view_pin (leases h' i) = ls_view_pin (leases h i)"
    if "b < n_exporters h" "b \<notin> B" "x_cleanup (exporters h b) = Some i" for b
    using exp [OF that] v by (simp add: leases)
  fix c assume c: "may_use (lf_ptr (lives h e)) (ls_lease (leases h i)) (ls_view_pin (leases h i)) c" "displays h e c"
  have st: "\<not> c_stuck c" and tok: "c_token c = Some (ls_lease (leases h i))" and vw: "c_view c = (\<not> v)"
    using c(1) v by (simp_all add: may_use_def)
  have "conn_step c (call, a) = Some (on_view v a c)" using c(1) v unfolding call by (cases v) auto
  moreover have "displays h' e (on_view v a c)"
    by (rule displaysI [OF c(2)]) (use out st tok vw in \<open>auto simp: lives hold leases split: if_splits\<close>)
  ultimately show "\<exists>d. conn_step c (call, a) = Some d \<and> displays h' e d" by blast
qed (use ok in auto)

lemma retain_view_pin_inv:
  assumes I: "inv h" and i: "i < n_leases h" "i \<notin> finalized h"
  shows "wp (retain_view_pin L i)
    (\<lambda>_ h'. inv_but {i} {} h' \<and> stable i h h' \<and> live_lease h' i \<and> ls_view_pin (leases h' i) \<and> \<not> ls_view_pin (leases h i))
    (\<lambda>_ h'. inv h' \<and> stable i h h') h"
proof -
  let ?s = "leases h i" and ?e = "ls_endpoint (leases h i)"
  let ?call = "ViewRetain (lf_ptr (life_of h i)) (ls_lease ?s)"
  have I': "inv_but {i} {} h" by (rule inv_mono [OF I]) simp_all
  have nd: "i \<notin> dead h" using lease_coreD(9) [OF inv_lease [OF I i(1)]] i(2) by (auto simp: rooted_iff)
  have noexp: "x_cleanup (exporters h b) \<noteq> Some i" if "\<not> ls_view_pin ?s" "b < n_exporters h" for b
    using inv_exporter(1) [OF I that(2)] that(1) by (auto simp: exporter_core_def Let_def)
  show ?thesis
    unfolding retain_view_pin_def wp_simps
    apply (rule wp_assert_live)
     apply (simp_all add: wp_simps I Let_def split: answer.split)
    apply (intro impI conjI allI)
    subgoal for r
      by (elim exE, rule view_leaf [OF I i(1) nd _ refl, where v = True and call = ?call and a = "fst (L ?call (world h))"])
        (use i noexp in \<open>auto simp: live_lease_def kept_def intro!: elsewhereI\<close>)
    subgoal by (simp add: stable_def)
    subgoal for r
      by (elim exE, rule view_leaf [OF I' i(1) nd _ refl, where v = True and call = ?call and a = "fst (L ?call (world h))"])
        (use i noexp in \<open>auto simp: live_lease_def kept_def intro!: elsewhereI\<close>)
    subgoal by (simp add: stable_def)
    subgoal by (simp add: live_lease_def)
    subgoal for x
      by (elim exE, rule view_leaf [OF I i(1) nd _ refl, where v = True and call = ?call and a = "fst (L ?call (world h))"])
        (use i noexp in \<open>auto simp: live_lease_def kept_def intro!: elsewhereI\<close>)
    subgoal by (simp add: stable_def)
    done
qed

end
