(* ===== verification/Binding_Closing.thy ===== *)
theory Binding_Closing
  imports Binding_Invariant
begin

text \<open>
  Closing keeps the invariant: object lifetimes and authorities do not touch leases, and an endpoint
  lifetime detaches only when it holds no token.
\<close>


section \<open>Objects and authorities\<close>

text \<open>Steps on the manager's side change no lease, endpoint lifetime or exporter.\<close>

definition core_same :: "'w heap \<Rightarrow> 'w heap \<Rightarrow> bool" where
  "core_same h h' \<longleftrightarrow>
     now_pid h' = now_pid h \<and> n_leases h' = n_leases h \<and> n_lives h' = n_lives h
     \<and> n_exporters h' = n_exporters h \<and> finalized h' = finalized h \<and> dead h' = dead h
     \<and> exporters h' = exporters h \<and> wrapper_exporter h' = wrapper_exporter h
     \<and> lives h' = lives h \<and> calls h' = calls h \<and> leases h' = leases h \<and> warn_error h' = warn_error h \<and> (\<forall>j. noted h' j = noted h j)"

lemma core_same_refl [simp]: "core_same h h"
  by (simp add: core_same_def)

lemma core_same_trans: "core_same h h' \<Longrightarrow> core_same h' h'' \<Longrightarrow> core_same h h''"
  by (simp add: core_same_def)

lemma inv_core_same:
  assumes "core_same h h'" "inv_but K B h"
  shows "inv_but K B h'"
proof (rule inv_change [OF assms(2), where i = "n_leases h" and e = "n_lives h"])
  show "\<not> ls_active (leases h j)" if "j < n_leases h" "j \<noteq> n_leases h" "ls_endpoint (leases h j) = n_lives h" for j
    using lease_coreD(1) [OF inv_lease [OF assms(2) that(1)]] that(3) by simp
qed (use assms(1) in \<open>auto simp: core_same_def intro!: elsewhereI\<close>)

lemma set_object_same [wp_simps]: "wp (set_object x f) Q E h \<longleftrightarrow> Q () (h\<lparr>objects := (objects h)(x := f (objects h x))\<rparr>)"
  by (simp add: set_object_def wp_simps)

lemma core_same_objects [simp]: "core_same h (h\<lparr>objects := f\<rparr>)" "core_same h (h\<lparr>world := w\<rparr>)"
  by (simp_all add: core_same_def noted_def)

lemma core_same_note [simp]: "(\<And>j. r \<noteq> TheLease j) \<Longrightarrow> core_same h (note_failure r x h)"
  by (simp add: core_same_def)

lemma authority_check_same: "wp (authority_check u) (\<lambda>_ h'. h' = h) (\<lambda>_ h'. h' = h) h"
  by (simp add: authority_check_def wp_simps)

lemma object_ack_same: "wp (object_ack L x receipt) (\<lambda>_ h'. core_same h h') (\<lambda>_ h'. core_same h h') h"
  unfolding object_ack_def wp_simps
  by (rule wp_mono [OF authority_check_same]) (auto simp: wp_simps split: answer.split)

lemma object_close_same: "wp (object_close L x) (\<lambda>_ h'. core_same h h') (\<lambda>_ h'. core_same h h') h"
proof -
  have up: "core_same h (h\<lparr>world := w, objects := f\<rparr>)" for w f by (simp add: core_same_def noted_def)
  show ?thesis
    unfolding object_close_def wp_simps if_split
    by (auto intro!: wp_mono [OF authority_check_same] simp: wp_simps up split: answer.split)
qed

lemma object_try_close_same: "wp (object_try_close L x) (\<lambda>_ h'. core_same h h') (\<lambda>_ h'. core_same h h') h"
proof -
  have "wp (attempt (object_close L x) (retain_failure (TheObject x))) (\<lambda>_ h'. core_same h h') (\<lambda>_ h'. core_same h h') h"
    unfolding wp_attempt
    by (rule wp_mono [OF object_close_same]) (auto simp: wp_simps intro: core_same_trans)
  then show ?thesis unfolding object_try_close_def by (simp add: wp_simps)
qed

lemma notify_owner_same: "wp (notify_owner L owner receipt) (\<lambda>_ h'. core_same h h') (\<lambda>_ h'. core_same h h') h"
proof (cases owner)
  case (Some x)
  have tc: "wp (object_try_close L x) (\<lambda>_ h'. core_same h h') (\<lambda>_ h'. core_same h h') t" if "core_same h t" for t
    by (rule wp_mono [OF object_try_close_same]) (use that core_same_trans in blast)+
  show ?thesis unfolding Some notify_owner_def
    by (simp add: wp_simps) (rule wp_mono [OF object_ack_same], erule tc)
qed (simp add: notify_owner_def wp_simps)

section \<open>Closing an endpoint\<close>

lemma idle_endpoint:
  assumes I: "inv_but K B h" and e: "e < n_lives h" and pid: "lf_pid (lives h e) = now_pid h" and b: "\<not> life_busy h e"
    and K: "\<forall>j \<in> K. j < n_leases h \<longrightarrow> ls_endpoint (leases h j) = e \<longrightarrow> \<not> ls_active (leases h j)"
  shows "holder h e = None" and "\<And>j. j < n_leases h \<Longrightarrow> ls_endpoint (leases h j) = e \<Longrightarrow> \<not> ls_active (leases h j)"
proof -
  show no: "\<not> ls_active (leases h j)" if j: "j < n_leases h" "ls_endpoint (leases h j) = e" for j
  proof
    assume act: "ls_active (leases h j)"
    have p: "lf_pin (lives h e) = Some j" using active_facts(2) [OF I j(1) act] j(2) by simp
    have "j \<notin> K" using K j act by blast
    note k = inv_kept [OF I j(1) this] and core = lease_coreD(9) [OF inv_lease [OF I j(1)]]
    show False
    proof (cases "j \<in> dead h")
      case True
      from core [OF this] k pid act j(2) show False by (auto simp: rooted_iff kept_def)
    qed (use b p act in \<open>simp add: life_busy_def pinned_def\<close>)
  qed
  show "holder h e = None"
  proof (cases "lf_pin (lives h e)")
    case (Some j)
    with life_okD(1) [OF inv_life [OF I e]] no show ?thesis by (simp add: holder_def)
  qed (simp add: holder_def)
qed

lemma idle_conn:
  assumes I: "inv_but K B h" and e: "e < n_lives h" and idle: "holder h e = None" "\<not> lf_poisoned (lives h e)"
    and p: "lf_ptr (lives h e) \<noteq> 0"
  obtains c where "replay conn_start (map snd (calls h e)) = Some c" "may_acquire (lf_ptr (lives h e)) c" "displays h e c"
proof -
  from life_okD(2) [OF inv_life [OF I e]] obtain c where c: "replay conn_start (map snd (calls h e)) = Some c" "displays h e c"
    by blast
  note d = displaysD [OF c(2)]
  have st: "\<not> c_stuck c" using d(2) idle by auto
  have "may_acquire (lf_ptr (lives h e)) c" using d(1) [of "lf_ptr (lives h e)"] d(3) [OF st] st idle(1) p by (simp add: may_acquire_def)
  from that [OF c(1) this c(2)] show thesis .
qed

text \<open>What closing endpoint \<open>e\<close> leaves alone.\<close>

definition closing_at :: "nat \<Rightarrow> 'w heap \<Rightarrow> 'w heap \<Rightarrow> bool" where
  "closing_at e h h' \<longleftrightarrow>
     now_pid h' = now_pid h \<and> n_leases h' = n_leases h \<and> n_lives h' = n_lives h
     \<and> n_exporters h' = n_exporters h \<and> finalized h' = finalized h \<and> dead h' = dead h
     \<and> exporters h' = exporters h \<and> wrapper_exporter h' = wrapper_exporter h
     \<and> (\<forall>k. k \<noteq> e \<longrightarrow> lives h' k = lives h k) \<and> leases h' = leases h \<and> (\<forall>j. noted h' j = noted h j)
     \<and> lf_pid (lives h' e) = lf_pid (lives h e) \<and> lf_pin (lives h' e) = lf_pin (lives h e)
     \<and> lf_poisoned (lives h' e) = lf_poisoned (lives h e)"

lemma closing_at_refl [simp]: "closing_at e h h"
  by (simp add: closing_at_def)

lemma closing_at_same: "closing_at e h h' \<Longrightarrow> core_same h' h'' \<Longrightarrow> closing_at e h h''"
  by (simp add: closing_at_def core_same_def)

lemma closing_at_trans: "closing_at e h h' \<Longrightarrow> closing_at e h' h'' \<Longrightarrow> closing_at e h h''"
  by (simp add: closing_at_def)

lemma wp_life_check:
  assumes "lf_pid (lives h e) = now_pid h \<Longrightarrow> lf_ptr (lives h e) \<noteq> 0 \<Longrightarrow> \<not> lf_poisoned (lives h e) \<Longrightarrow> Q () h"
    and "\<And>x. E x h"
  shows "wp (life_check e) Q E h"
  using assms by (simp add: life_check_def wp_simps)

lemma displays_handle:
  assumes "displays h e c" "may_acquire p c" "holder h e = None"
    and "leases h' = leases h" "lf_pin (lives h' e) = lf_pin (lives h e)" "lf_ptr (lives h' e) = o_ptr (out_of a)"
  shows "displays h' e (on_handle a c)"
proof -
  have c: "\<not> c_stuck c" "c_token c = None" using assms(2) by (simp_all add: may_acquire_def)
  have v: "\<not> c_view c" using displaysD(4) [OF assms(1) c(1)] assms(3) by simp
  have h: "holder h' e = None" using assms(3) unfolding holder_def assms(4,5) .
  show ?thesis unfolding displays_def by (auto simp: on_handle_def c v h assms(6))
qed

lemma life_close_inv:
  assumes I: "inv_but K B h" and e: "e < n_lives h"
    and K: "\<forall>j \<in> K. j < n_leases h \<longrightarrow> ls_endpoint (leases h j) = e \<longrightarrow> \<not> ls_active (leases h j)"
  shows "wp (life_close L e) (\<lambda>_ h'. inv_but K B h' \<and> closing_at e h h') (\<lambda>_ h'. inv_but K B h' \<and> closing_at e h h') h"
proof -
  let ?call = "Detach (lf_ptr (lives h e))"
  let ?a = "fst (L ?call (world h))"
  let ?P = "\<lambda>h'. inv_but K B h' \<and> closing_at e h h'"
  let ?h1 = "upd_life e (\<lambda>l. l\<lparr>lf_ptr := o_ptr (out_of ?a)\<rparr>) (called L e ?call h)"
  have same: "core_same h1 h2 \<Longrightarrow> ?P h1 \<Longrightarrow> ?P h2" for h1 h2
    using inv_core_same closing_at_same by blast
  have leaf: "?P (upd_life e (\<lambda>l. l\<lparr>lf_receipt := r\<rparr>) ?h1) \<and> ?P ?h1"
    if ok: "lf_pid (lives h e) = now_pid h" "lf_ptr (lives h e) \<noteq> 0" "\<not> lf_poisoned (lives h e)" "\<not> life_busy h e" for r
  proof -
    note idle = idle_endpoint [OF I e ok(1,4) K]
    from idle_conn [OF I e idle(1) ok(3,2)] obtain c where c: "replay conn_start (map snd (calls h e)) = Some c"
      "may_acquire (lf_ptr (lives h e)) c" "displays h e c" .
    have step: "inv_but K B h'" if h': "leases h' = leases h" "lf_ptr (lives h' e) = o_ptr (out_of ?a)"
      "calls h' e = calls h e @ [(now_pid h, ?call, ?a)]" "elsewhere (n_leases h) e h h'" "lf_pin (lives h' e) = lf_pin (lives h e)" for h'
    proof (rule inv_change [OF I h'(4)])
      have "conn_step c (?call, ?a) = Some (on_handle ?a c)" using c(2) by simp
      moreover have "displays h' e (on_handle ?a c)"
        by (rule displays_handle [OF c(3,2) idle(1) h'(1,5,2)])
      moreover have "n_leases h' = n_leases h" using h'(4) by (simp add: elsewhere_def)
      ultimately show "life_ok h' e"
        using life_okD(1) [OF inv_life [OF I e]] h' c(1) by (intro life_after_call [OF c(1) _ h'(3) _ inv_life [OF I e]]) (auto simp: elsewhere_def ok(1))
      show "ls_view_pin (leases h' (n_leases h)) = ls_view_pin (leases h (n_leases h))" by (simp add: h'(1))
      show "\<not> ls_active (leases h j)" if "j < n_leases h" "j \<noteq> n_leases h" "ls_endpoint (leases h j) = e" for j
        by (rule idle(2) [OF that(1,3)])
    qed simp_all
    show ?thesis by (intro conjI; (rule step)?; (rule elsewhereI)?; simp add: closing_at_def)
  qed
  have end_: "wp (notify_owner L owner rc) (\<lambda>_ h'. ?P h') (\<lambda>_ h'. ?P h') h2" if "?P h2" for h2 owner rc
    by (rule wp_mono [OF notify_owner_same]) (erule same [OF _ that])+
  show ?thesis
  proof (cases "lf_ptr (lives h e) = 0 \<or> lf_pid (lives h e) \<noteq> now_pid h \<or> lf_poisoned (lives h e) \<or> life_busy h e")
    case True
    then show ?thesis using I by (auto simp: life_close_def life_check_def wp_simps)
  next
    case False
    then have ok: "lf_pid (lives h e) = now_pid h" "lf_ptr (lives h e) \<noteq> 0" "\<not> lf_poisoned (lives h e)" "\<not> life_busy h e"
      by auto
    show ?thesis
      using ok leaf [OF ok]
      by (simp add: life_close_def life_check_def wp_simps split: answer.split) (auto intro!: wp_mono [OF end_] simp: wp_simps)
  qed
qed

lemma life_try_close_inv:
  assumes I: "inv_but K B h" and e: "e < n_lives h"
    and K: "\<forall>j \<in> K. j < n_leases h \<longrightarrow> ls_endpoint (leases h j) = e \<longrightarrow> \<not> ls_active (leases h j)"
  shows "wp (life_try_close L e) (\<lambda>_ h'. inv_but K B h' \<and> closing_at e h h') (\<lambda>_ h'. False) h"
proof -
  have "wp (attempt (andthen (life_close L e) (ret ())) (retain_failure (TheLife e)))
      (\<lambda>_ h'. inv_but K B h' \<and> closing_at e h h') (\<lambda>_ h'. False) h"
    by (simp add: wp_attempt wp_andthen)
      (rule wp_mono [OF life_close_inv [OF I e K]], auto simp: wp_simps dest: inv_warn intro!: inv_core_same [OF core_same_note] closing_at_same [OF _ core_same_note])
  then show ?thesis using I by (simp add: life_try_close_def wp_bind wp_reads wp_gets wp_ret)
qed

end
