(* ===== verification/Binding_Transfers.thy ===== *)
theory Binding_Transfers
  imports Binding_Closing
begin

text \<open>
  Transfers keep the invariant: \<open>finish\<close> with its deferred close.
\<close>


section \<open>Transfers\<close>

text \<open>Not transferred by a normal answer, transferred, or uncertain.\<close>

lemma transfer_leaf:
  assumes I: "inv_but K B h" and i: "i < n_leases h" "i \<notin> dead h" and lv: "live_lease h i" and v: "\<not> ls_view_pin (leases h i)"
    and e: "e = ls_endpoint (leases h i)" and el: "elsewhere i e h h'"
    and calls: "calls h' e = calls h e @ [(now_pid h, action_call act (lf_ptr (lives h e)) (ls_lease (leases h i)), a)]"
    and leases: "leases h' i = (leases h i)\<lparr>ls_active := act', ls_uncertain := unc, ls_address := addr\<rparr>"
    and lives: "lives h' e = (lives h e)\<lparr>lf_pin := pin\<rparr>"
    and out: "(\<exists>r x. a = Returned r x \<and> \<not> unc \<and> act' = (\<not> transferred act r) \<and> pin = (if transferred act r then None else Some i))
      \<or> (\<exists>y x. a = Interrupted y x \<and> unc \<and> act' \<and> pin = Some i \<and> noted h' i)"
  shows "inv_but K B h'"
proof (rule call_leaf [OF I i(1) lv e el calls])
  have act: "ls_active (leases h i)" using lv by (simp add: live_lease_def)
  note en = active_facts [OF I i(1) act, folded e] and core = lease_coreD [OF inv_lease [OF I i(1)]]
  have g: "n_lives h' = n_lives h" "dead h' = dead h" "finalized h' = finalized h" "now_pid h' = now_pid h"
    "\<And>j. noted h j \<Longrightarrow> noted h' j" using el by (auto simp: elsewhere_def)
  have ls: "ls_endpoint (leases h' i) = e" using e by (simp add: leases)
  show "lease_core h' i"
    unfolding lease_core_def ls using en core(2) v i(2) out lv [unfolded live_lease_def, folded e]
    by (auto simp: leases lives g)
  show "lf_pin (lives h' e) = Some i \<or> lf_pin (lives h' e) = None" using out by (auto simp: lives)
  show "kept h' i" if "i \<notin> K"
    using inv_kept [OF I i(1) that] v out g(5) [of i] act unfolding kept_def ls
    by (auto simp: leases lives g(1-4) e [symmetric])
  fix c assume c: "may_use (lf_ptr (lives h e)) (ls_lease (leases h i)) (ls_view_pin (leases h i)) c" "displays h e c"
  have st: "\<not> c_stuck c" and tok: "c_token c = Some (ls_lease (leases h i))" and vw: "\<not> c_view c"
    using c(1) v by (simp_all add: may_use_def)
  have "conn_step c (action_call act (lf_ptr (lives h e)) (ls_lease (leases h i)), a) = Some (on_transfer act a c)"
    using c(1) v by (cases act) auto
  moreover have "displays h' e (on_transfer act a c)"
    by (rule displaysI [OF c(2)])
      (use out st tok vw v in \<open>auto simp: holder_def lives leases split: if_splits\<close>)
  ultimately show "\<exists>d. conn_step c (action_call act (lf_ptr (lives h e)) (ls_lease (leases h i)), a) = Some d
    \<and> displays h' e d" by blast
qed (use v in \<open>auto simp: leases\<close>)

text \<open>What a transfer of lease \<open>i\<close> leaves alone.\<close>

lemma stable_closing:
  assumes "stable i h h'" "closing_at e h' h''"
  shows "stable i h h''"
proof -
  have "lf_pid (lives h'' k) = lf_pid (lives h' k)" for k
    using assms(2) by (cases "k = e") (auto simp: closing_at_def)
  with assms show ?thesis by (auto simp: stable_def closing_at_def)
qed

lemma finish_inv:
  assumes I: "inv_but K B h" and K: "K \<subseteq> {i}" and i: "i < n_leases h" "i \<notin> dead h" and L: "ok_transfers L"
  shows "wp (finish L i act)
    (\<lambda>r h'. inv_but K B h' \<and> stable i h h' \<and> \<not> ls_active (leases h' i) \<and> ls_view_pin (leases h' i) = ls_view_pin (leases h i))
    (\<lambda>x h'. inv_but K B h' \<and> stable i h h' \<and> ls_view_pin (leases h' i) = ls_view_pin (leases h i)) h"
proof -
  let ?s = "leases h i" and ?e = "ls_endpoint (leases h i)"
  let ?call = "action_call act (lf_ptr (life_of h i)) (ls_lease ?s)"
  let ?a = "fst (L ?call (world h))"
  note leaf = transfer_leaf [OF I i _ _ refl, where act = act and a = ?a]
  have close: "wp (life_try_close L ?e)
      (\<lambda>_ h'. inv_but K B h' \<and> stable i h h' \<and> \<not> ls_active (leases h' i) \<and> ls_view_pin (leases h' i) = ls_view_pin ?s)
      (\<lambda>_ h'. False) h1"
    if "inv_but K B h1" "stable i h h1" "\<not> ls_active (leases h1 i)" "ls_view_pin (leases h1 i) = ls_view_pin ?s" for h1
  proof (rule wp_mono [OF life_try_close_inv [OF that(1)]])
    have "i < n_leases h1" "ls_endpoint (leases h1 i) = ?e" using that(2) i by (auto simp: stable_def)
    from lease_coreD(1) [OF inv_lease [OF that(1) this(1)]] this show "?e < n_lives h1" by simp
    show "\<forall>j \<in> K. j < n_leases h1 \<longrightarrow> ls_endpoint (leases h1 j) = ?e \<longrightarrow> \<not> ls_active (leases h1 j)" using K that(3) by auto
    fix a t assume t: "inv_but K B t \<and> closing_at ?e h1 t"
    have "leases t = leases h1" using t by (simp add: closing_at_def)
    with t that(3,4) stable_closing [OF that(2), of ?e t]
    show "inv_but K B t \<and> stable i h t \<and> \<not> ls_active (leases t i) \<and> ls_view_pin (leases t i) = ls_view_pin ?s" by simp
  qed simp
  show ?thesis
  proof (cases "live_lease h i \<and> \<not> ls_view_pin ?s")
    case False
    show ?thesis
      unfolding finish_def wp_simps
      by (rule wp_assert_live) (use False I in \<open>auto simp: wp_simps\<close>)
  next
    case True
    then have lv: "live_lease h i" and v: "\<not> ls_view_pin ?s" by auto
    have act: "ls_active ?s" "\<not> ls_uncertain ?s" using lv by (simp_all add: live_lease_def)
    note pin = active_facts(2) [OF I i(1) act(1)]
    show ?thesis
    proof (cases ?a)
      case (Interrupted x out)
      have "inv_but K B (note_failure (TheLease i) y (upd_lease i (\<lambda>s. s\<lparr>ls_uncertain := True, ls_address := None\<rparr>) (called L ?e ?call h)))" for y
        by (rule leaf [where act' = True and unc = True and pin = "Some i" and addr = None])
          (use lv v act pin Interrupted in \<open>auto intro!: elsewhereI\<close>)
      then show ?thesis
        unfolding finish_def wp_simps
        by (intro wp_assert_live) (use lv v Interrupted in \<open>auto simp: wp_simps Let_def stable_def\<close>)
    next
      case (Returned r out)
      show ?thesis
      proof (cases "transferred act r")
        case False
        have "status r \<noteq> 0"
          using L Returned False unfolding ok_transfers_def by blast
        moreover have "inv_but K B (called L ?e ?call h)"
          by (rule leaf [where act' = True and unc = False and pin = "Some i" and addr = "ls_address ?s"])
            (use lv v act pin Returned False in \<open>auto intro!: elsewhereI\<close>)
        ultimately show ?thesis
          unfolding finish_def wp_simps
          by (intro wp_assert_live) (use lv v Returned False in \<open>auto simp: wp_simps Let_def stable_def\<close>)
      next
        case T: True
        let ?h1 = "upd_life ?e (\<lambda>l. l\<lparr>lf_pin := None\<rparr>) (upd_lease i (\<lambda>s. s\<lparr>ls_active := False, ls_address := None\<rparr>) (called L ?e ?call h))"
        have "inv_but K B ?h1"
          by (rule leaf [where act' = False and unc = False and pin = None and addr = None])
            (use lv v act pin Returned T in \<open>auto intro!: elsewhereI\<close>)
        from close [OF this] have c: "wp (life_try_close L ?e)
            (\<lambda>_ h'. inv_but K B h' \<and> stable i h h' \<and> \<not> ls_active (leases h' i) \<and> ls_view_pin (leases h' i) = ls_view_pin ?s)
            (\<lambda>_ h'. False) ?h1" by (simp add: stable_def)
        show ?thesis
          unfolding finish_def wp_simps
          by (intro wp_assert_live) (use lv v Returned T in \<open>auto simp: wp_simps Let_def intro!: wp_mono [OF c]\<close>)
      qed
    qed
  qed
qed

end
