(* ===== verification/Binding_Finalizers.thy ===== *)
theory Binding_Finalizers
  imports Binding_Transfers
begin

text \<open>
  The finalizer's \<open>cleanup\<close> keeps the invariant and never raises.
\<close>


section \<open>Finalizers\<close>

lemma displays_cong:
  assumes "leases h' = leases h" "lives h' e = lives h e"
  shows "displays h' e c \<longleftrightarrow> displays h e c"
  unfolding displays_def holder_def assms ..

lemma life_ok_cong:
  assumes "leases h' = leases h" "lives h' e = lives h e" "n_leases h' = n_leases h" "calls h' e = calls h e"
  shows "life_ok h' e \<longleftrightarrow> life_ok h e"
  unfolding life_ok_def displays_cong [OF assms(1,2)] assms ..

lemma inv_keep: "inv_but {i} B h \<Longrightarrow> kept h i \<Longrightarrow> inv_but {} B h"
  unfolding inv_but_def by blast

lemma inv_note:
  assumes I: "inv_but K B h" and i: "i < n_leases h" "i \<notin> dead h"
  shows "inv_but (K - {i}) B (note_failure (TheLease i) x h)"
proof -
  let ?h = "note_failure (TheLease i) x h"
  have ex: "exported ?h j = exported h j" for j by simp
  have "lease_core ?h j" if "j < n_leases h" for j
    using inv_lease [OF I that] i(2) unfolding lease_core_def rooted_iff ex by auto
  moreover have "kept ?h j" if "j < n_leases h" "j \<notin> K - {i}" for j
  proof (cases "j = i")
    case False
    with inv_kept [OF I that(1)] that(2) show ?thesis unfolding kept_def ex by auto
  qed (simp add: kept_def)
  moreover have "exporter_core ?h b \<and> settled ?h b" if "b < n_exporters h" "b \<notin> B" for b
    using inv_exporter [OF I that] by (simp add: exporter_core_def settled_def Let_def)
  moreover have "life_ok ?h e" if "e < n_lives h" for e
    using inv_life [OF I that] life_ok_cong [of ?h h e] by simp
  ultimately show ?thesis using I unfolding inv_but_def by simp
qed

text \<open>A call that leaves the connection as it is.\<close>

lemma open_leaf:
  assumes I: "inv_but K B h" and e: "e < n_lives h" and p: "lf_ptr (lives h e) \<noteq> 0"
    and pid: "lf_pid (lives h e) = now_pid h"
    and call: "\<And>c. c_phase c = Open (lf_ptr (lives h e)) \<Longrightarrow> conn_step c (call, fst (L call (world h))) = Some c"
  shows "inv_but K B (called L e call h)"
proof -
  obtain c where c: "replay conn_start (map snd (calls h e)) = Some c" "displays h e c"
    using life_okD(2) [OF inv_life [OF I e]] by blast
  have "c_phase c = Open (lf_ptr (lives h e))" using displaysD(1) [OF c(2)] p by blast
  note st = call [OF this]
  let ?h = "called L e call h"
  have d: "displays ?h e c" using c(2) displays_cong [of ?h h e] by simp
  have ok: "life_ok ?h e"
    by (rule life_after_call [OF c(1) st _ d inv_life [OF I e]]) (use life_okD(1) [OF inv_life [OF I e]] pid in auto)
  have ex: "exported ?h j = exported h j" for j by simp
  have "lease_core ?h j" if "j < n_leases h" for j
    using inv_lease [OF I that] unfolding lease_core_def rooted_iff ex by simp
  moreover have "kept ?h j" if "j < n_leases h" "j \<notin> K" for j
    using inv_kept [OF I that] unfolding kept_def ex by simp
  moreover have "exporter_core ?h b \<and> settled ?h b" if "b < n_exporters h" "b \<notin> B" for b
    using inv_exporter [OF I that] by (simp add: exporter_core_def settled_def Let_def)
  moreover have "life_ok ?h k" if "k < n_lives h" for k
  proof (cases "k = e")
    case False
    with inv_life [OF I that] life_ok_cong [of ?h h k] show ?thesis by simp
  qed (simp add: ok)
  ultimately show ?thesis using I unfolding inv_but_def by simp
qed

lemma stable_called [simp]: "stable i h (called L e c h)"
  by (simp add: stable_def)

lemma cleanup_inv:
  assumes I: "inv_but {i} B h" and i: "i < n_leases h" "i \<notin> dead h" and L: "ok_transfers L"
    and v: "lf_pid (life_of h i) = now_pid h \<Longrightarrow> ls_view_pin (leases h i) \<Longrightarrow>
      ls_cleanup_requested (leases h i) \<and> (noted h i \<or> exported h i)"
  shows "wp (cleanup L i)
    (\<lambda>_ h'. inv_but {} B h' \<and> stable i h h' \<and> ls_view_pin (leases h' i) = ls_view_pin (leases h i))
    (\<lambda>_ h'. False) h"
proof -
  let ?s = "leases h i" and ?e = "ls_endpoint (leases h i)" and ?l = "life_of h i"
  let ?act = "if ls_writing ?s then Abort else Release"
  let ?st = "\<lambda>h'. inv_but {i} B h' \<and> stable i h h' \<and> ls_view_pin (leases h' i) = ls_view_pin ?s"
  let ?Q = "\<lambda>h'. inv_but {} B h' \<and> stable i h h' \<and> ls_view_pin (leases h' i) = ls_view_pin ?s"
  have done_: "?Q h'" if "?st h'" "\<not> ls_active (leases h' i)" "\<not> ls_view_pin ?s" for h'
    using that inv_keep [of i B h'] by (auto simp: kept_def)
  have fin: "wp (finish L i a) (\<lambda>r h'. ?st h' \<and> \<not> ls_active (leases h' i)) (\<lambda>x h'. ?st h') h1" if "?st h1" for a h1
  proof (rule wp_mono [OF finish_inv [OF _ subset_refl _ _ L]])
    show "inv_but {i} B h1" "i < n_leases h1" "i \<notin> dead h1" using that i by (auto simp: stable_def)
  qed (use that stable_trans in auto)
  have note_: "?Q (note_failure (TheLease i) x h1)" if "?st h1" for h1 x
  proof -
    have "i < n_leases h1" "i \<notin> dead h1" using that i by (auto simp: stable_def)
    from inv_note [OF _ this, of "{i}" B x] that show ?thesis by (auto simp: stable_def)
  qed
  have retire: "?st (called L ?e (Retire (lf_ptr (lives h1 ?e)) 0) h1)" if "?st h1" "ls_active (leases h1 i)" "lf_pid ?l = now_pid h" for h1
  proof -
    have h1: "i < n_leases h1" "ls_endpoint (leases h1 i) = ?e" using that(1) i by (auto simp: stable_def)
    have I1: "inv_but {i} B h1" using that(1) by blast
    note a = active_facts [OF I1 h1(1) that(2), unfolded h1(2)]
    have "inv_but {i} B (called L ?e (Retire (lf_ptr (lives h1 ?e)) 0) h1)"
      by (rule open_leaf [OF I1 a(1,4)]) (use that(1,3) in \<open>simp_all add: stable_def\<close>)
    then show ?thesis using that(1) stable_trans [of i h h1, OF _ stable_called] by simp
  qed
  show ?thesis
  proof (cases "lf_pid ?l \<noteq> now_pid h \<or> \<not> ls_active ?s \<or> ls_uncertain ?s \<or> ls_view_pin ?s")
    case True
    have "noted h i" if "ls_uncertain ?s" using lease_coreD(6) [OF inv_lease [OF I i(1)] that] .
    then have "kept h i" using True v lease_coreD(5) [OF inv_lease [OF I i(1)]] by (auto simp: kept_def)
    with True inv_keep [OF I] show ?thesis by (auto simp: cleanup_def wp_simps)
  next
    case False
    then have nv: "\<not> ls_view_pin ?s" and nv': "ls_view_pin ?s = False" by simp_all
    have go: "(lf_pid ?l \<noteq> now_pid h \<or> \<not> ls_active ?s \<or> ls_uncertain ?s) = False" using False by simp
    have st: "?st h" using I by simp
    have pd: "lf_pid ?l = now_pid h" using False by simp
    have ab: "wp (finish L i Abandon) (\<lambda>_ h'. ?Q h') (\<lambda>x h'. ?st h') h1" if "?st h1" for h1
      by (rule wp_mono [OF fin [OF that]]) (use done_ nv in blast)+
    have handler: "wp (if is_elite x then bind (the_lease i) (\<lambda>s2. bind (the_life ?e) (\<lambda>l2.
             if ls_active s2
             then bind (ffi_on L ?e (Retire (lf_ptr l2) 0)) (\<lambda>ans. bind (result_of ans) (\<lambda>r.
               andthen (check r ''finalizer retirement'' (TheLease i)) (andthen (finish L i Abandon) (ret ()))))
             else ret ())) else throw x) (\<lambda>_ h'. ?Q h') (\<lambda>x h'. ?st h') h1" if "?st h1" for h1 x
      using that retire [OF that _ pd] done_ [OF that] nv
      by (auto simp: wp_simps split: answer.split intro!: wp_mono [OF ab])
    have first: "wp (andthen (finish L i ?act) (ret ())) (\<lambda>_ h'. ?Q h') (\<lambda>x h'. ?st h') h"
      unfolding wp_andthen by (rule wp_mono [OF fin [OF st]]; use done_ nv in \<open>auto simp: wp_simps\<close>)
    show ?thesis
      unfolding cleanup_def
      apply (simp only: wp_attempt wp_bind wp_reads go nv' if_False)
      apply (rule wp_mono [OF first [unfolded nv']], assumption)
      apply (rule wp_mono [OF handler [unfolded nv']], assumption, assumption)
      using note_ [unfolded nv'] by (auto simp: wp_simps dest: inv_warn)
  qed
qed

end
