(* ===== verification/Binding_Exporters.thy ===== *)
theory Binding_Exporters
  imports Binding_Finalizers
begin

text \<open>
  Ending a view pin and closing an exporter keep the invariant; a failure leaves the exporter open
  and, in its own process, the lease on record.
\<close>


section \<open>The end of a view pin\<close>

lemma drop_view_pin_inv:
  assumes I: "inv_but {i} B h" and i: "i < n_leases h" "i \<notin> dead h" and L: "ok_transfers L"
    and v: "ls_view_pin (leases h i)" and exp: "\<And>b. b < n_exporters h \<Longrightarrow> b \<notin> B \<Longrightarrow> x_cleanup (exporters h b) \<noteq> Some i"
    and fin: "i \<in> finalized h \<Longrightarrow> lf_pid (life_of h i) = now_pid h \<Longrightarrow> ls_cleanup_requested (leases h i) \<or> noted h i"
  shows "wp (drop_view_pin L i)
    (\<lambda>_ h'. inv_but {} B h' \<and> stable i h h' \<and> \<not> ls_view_pin (leases h' i))
    (\<lambda>_ h'. inv_but {i} B h' \<and> stable i h h' \<and> ls_view_pin (leases h' i)
      \<and> (lf_pid (life_of h i) = now_pid h \<longrightarrow> noted h' i)) h"
proof -
  let ?s = "leases h i" and ?e = "ls_endpoint (leases h i)"
  let ?call = "ViewEnd (lf_ptr (life_of h i)) (ls_lease ?s)"
  let ?a = "fst (L ?call (world h))"
  note core = lease_coreD [OF inv_lease [OF I i(1)]]
  have act: "ls_active ?s" using core(5) v by blast
  show ?thesis
  proof (cases "live_lease h i")
    case False
    have "noted h i" if "lf_pid (life_of h i) = now_pid h"
      using False that act core(4,6,8) by (auto simp: live_lease_def)
    with I v False show ?thesis
      unfolding drop_view_pin_def wp_simps if_not_P [OF not_not [THEN iffD2, OF v]]
      by (auto intro!: wp_assert_live)
  next
    case lv: True
    have unc: "\<not> ls_uncertain ?s" "\<not> lf_poisoned (life_of h i)" using lv by (simp_all add: live_lease_def)
    note leaf = view_leaf [OF I i lv refl, where v = False and call = ?call and a = ?a]
    show ?thesis
    proof (cases ?a)
      case (Interrupted x out)
      have "inv_but {i} B (note_failure (TheLease i) x (upd_life ?e (\<lambda>l. l\<lparr>lf_poisoned := True\<rparr>)
          (upd_lease i (\<lambda>s. s\<lparr>ls_uncertain := True\<rparr>) (called L ?e ?call h))))"
        by (rule leaf [where vp = True and unc = True]) (use v unc Interrupted in \<open>auto intro!: elsewhereI\<close>)
      with v lv Interrupted show ?thesis
        unfolding drop_view_pin_def wp_simps
        by (auto simp: wp_simps stable_def intro!: wp_assert_live)
    next
      case (Returned r out)
      show ?thesis
      proof (cases "status r = 0")
        case False
        have "inv_but {i} B (called L ?e ?call h)"
          by (rule leaf [where vp = True and unc = False]) (use v unc Returned False in \<open>auto intro!: elsewhereI\<close>)
        then have "inv_but {i} B (note_failure (TheLease i) y (called L ?e ?call h))" for y
          using inv_note [of "{i}" B "called L ?e ?call h" i y] i inv_mono by (simp add: inv_mono)
        with v lv Returned False show ?thesis
          unfolding drop_view_pin_def wp_simps
          by (auto simp: wp_simps stable_def Let_def intro!: wp_assert_live)
      next
        case True
        let ?h1 = "upd_lease i (\<lambda>s. s\<lparr>ls_view_pin := False\<rparr>) (called L ?e ?call h)"
        have I1: "inv_but {i} B ?h1"
          by (rule leaf [where vp = False and unc = False]) (use v unc Returned True exp in \<open>auto intro!: elsewhereI\<close>)
        have st: "stable i h ?h1" by (simp add: stable_def)
        have c: "wp (cleanup L i) (\<lambda>_ h'. inv_but {} B h' \<and> stable i h h' \<and> \<not> ls_view_pin (leases h' i))
            (\<lambda>_ h'. inv_but {i} B h' \<and> stable i h h' \<and> ls_view_pin (leases h' i)
              \<and> (lf_pid (life_of h i) = now_pid h \<longrightarrow> noted h' i)) ?h1"
          by (rule wp_mono [OF cleanup_inv [OF I1 _ _ L]]) (use i stable_trans [OF st] in auto)
        have n: "inv_but {} B ?h1" if "\<not> ls_cleanup_requested ?s"
          by (rule inv_keep [OF I1]) (use that fin in \<open>auto simp: kept_def\<close>)
        from v lv Returned True c n st show ?thesis
          unfolding drop_view_pin_def wp_simps
          by (auto simp: wp_simps intro!: wp_assert_live)
      qed
    qed
  qed
qed

section \<open>Changes of one exporter\<close>

lemma inv_upd_exporter:
  assumes I: "inv_but K B h" and b: "b \<in> B" and k: "x_cleanup (k (exporters h b)) = x_cleanup (exporters h b)"
  shows "inv_but K B (upd_exporter b k h)"
proof -
  let ?h = "upd_exporter b k h"
  have ex: "exported ?h j = exported h j" for j
    using k by (auto simp: exported_def)
  have "lease_core ?h j" if "j < n_leases h" for j
    using inv_lease [OF I that] unfolding lease_core_def rooted_iff ex by simp
  moreover have "kept ?h j" if "j < n_leases h" "j \<notin> K" for j
    using inv_kept [OF I that] unfolding kept_def ex by simp
  moreover have "exporter_core ?h b' \<and> settled ?h b'" if "b' < n_exporters h" "b' \<notin> B" for b'
    using inv_exporter [OF I that] b that(2) by (auto simp: exporter_core_def settled_def Let_def)
  moreover have "life_ok ?h e" if "e < n_lives h" for e
    using inv_life [OF I that] life_ok_cong [of ?h h e] by simp
  ultimately show ?thesis using I unfolding inv_but_def by simp
qed

text \<open>The exporter of \<open>i\<close> is cut off, once the view pin is gone or the lease is on record.\<close>

lemma inv_sever:
  assumes I: "inv_but K B h" and b: "b \<in> B"
    and k: "x_cleanup (k (exporters h b)) = None"
    and i: "\<And>i. x_cleanup (exporters h b) = Some i \<Longrightarrow> lf_pid (life_of h i) = now_pid h \<Longrightarrow> \<not> ls_view_pin (leases h i) \<or> noted h i"
  shows "inv_but K B (upd_exporter b k h)"
proof -
  let ?h = "upd_exporter b k h"
  have ex: "exported ?h j \<Longrightarrow> exported h j" "exported h j \<Longrightarrow> exported ?h j \<or> x_cleanup (exporters h b) = Some j" for j
    using k by (auto simp: exported_def split: if_splits)
  have "lease_core ?h j" if "j < n_leases h" for j
    using inv_lease [OF I that] ex(1) [of j] unfolding lease_core_def rooted_iff by auto
  moreover have "kept ?h j" if "j < n_leases h" "j \<notin> K" for j
    using inv_kept [OF I that] ex(2) [of j] i [of j] unfolding kept_def by auto
  moreover have "exporter_core ?h b' \<and> settled ?h b'" if "b' < n_exporters h" "b' \<notin> B" for b'
    using inv_exporter [OF I that] b that(2) by (auto simp: exporter_core_def settled_def Let_def)
  moreover have "life_ok ?h e" if "e < n_lives h" for e
    using inv_life [OF I that] life_ok_cong [of ?h h e] by simp
  ultimately show ?thesis using I unfolding inv_but_def by simp
qed

lemma inv_readmit: "inv_but K {b} h \<Longrightarrow> exporter_core h b \<Longrightarrow> settled h b \<Longrightarrow> inv_but K {} h"
  unfolding inv_but_def by blast

lemma exporter_coreD:
  assumes "exporter_core h b"
  shows "\<not> x_closing (exporters h b)" "x_exports (exporters h b) > 0 \<Longrightarrow> \<not> x_closed (exporters h b)"
    "x_closed (exporters h b) \<Longrightarrow> x_cleanup (exporters h b) = None"
    "\<not> x_closed (exporters h b) \<Longrightarrow> \<exists>i < n_leases h. x_owner (exporters h b) = Some i \<and> x_cleanup (exporters h b) = Some i
       \<and> ls_view_pin (leases h i) \<and> wrapper_exporter h i = Some b
       \<and> x_pid (exporters h b) = lf_pid (life_of h i)"
  using assms unfolding exporter_core_def Let_def by blast+

section \<open>Closing an exporter\<close>

text \<open>What the operations on exporters leave alone.\<close>

definition steady :: "'w heap \<Rightarrow> 'w heap \<Rightarrow> bool" where
  "steady h h' \<longleftrightarrow>
     now_pid h' = now_pid h \<and> n_leases h' = n_leases h \<and> n_lives h' = n_lives h \<and> n_exporters h' = n_exporters h
     \<and> finalized h' = finalized h \<and> dead h' = dead h \<and> wrapper_exporter h' = wrapper_exporter h
     \<and> (\<forall>j. noted h j \<longrightarrow> noted h' j)"

lemma steady_refl [simp]: "steady h h"
  by (simp add: steady_def)

lemma steady_trans: "steady h h' \<Longrightarrow> steady h' h'' \<Longrightarrow> steady h h''"
  by (simp add: steady_def)

lemma stable_steady: "stable i h h' \<Longrightarrow> steady h h'"
  by (simp add: steady_def stable_def)

lemma steady_exporter [simp]: "steady h (upd_exporter b k h)" "steady h (note_failure r x h)"
  by (auto simp: steady_def)

lemma close_buffer_inv:
  assumes I: "inv_but {} {b} h" and c: "exporter_core h b" and b: "b < n_exporters h" and L: "ok_transfers L"
  shows "wp (close_buffer L b)
    (\<lambda>_ h'. inv h' \<and> steady h h' \<and> x_closed (exporters h' b))
    (\<lambda>_ h'. inv_but {} {b} h' \<and> steady h h' \<and> exporter_core h' b \<and> exporters h' = exporters h) h"
proof -
  let ?x = "exporters h b"
  note core = exporter_coreD [OF c]
  show ?thesis
  proof (cases "now_pid h = x_pid ?x \<and> \<not> x_closed ?x \<and> x_exports ?x = 0")
    case False
    have "settled h b" if "x_closed ?x" using that by (simp add: settled_def Let_def)
    with False I c core(1) inv_readmit [OF I c] show ?thesis
      by (auto simp: close_buffer_def same_process_def wp_simps)
  next
    case True
    then obtain i where i: "i < n_leases h" "x_owner ?x = Some i" "x_cleanup ?x = Some i" "ls_view_pin (leases h i)"
      "wrapper_exporter h i = Some b" "x_pid ?x = lf_pid (life_of h i)" using core(4) by blast
    let ?h1 = "upd_exporter b (\<lambda>y. y\<lparr>x_closing := True, x_closed := True\<rparr>) h"
    have "inv_but {} {b} ?h1" by (rule inv_upd_exporter [OF I]) simp_all
    then have I1: "inv_but {i} {b} ?h1" by (rule inv_mono) simp_all
    have nd: "i \<notin> dead h" using lease_coreD(9) [OF inv_lease [OF I i(1)]] i(3) b by (auto simp: rooted_def)
    have others: "x_cleanup (exporters ?h1 b') \<noteq> Some i" if "b' < n_exporters ?h1" "b' \<notin> {b}" for b'
    proof
      assume "x_cleanup (exporters ?h1 b') = Some i"
      then have "x_cleanup (exporters h b') = Some i" using that by simp
      moreover note e = exporter_coreD [OF inv_exporter(1) [OF I, of b']]
      ultimately show False using e(3,4) that i(5) by fastforce
    qed
    have fin: "ls_cleanup_requested (leases ?h1 i) \<or> noted ?h1 i"
      if "i \<in> finalized ?h1" "lf_pid (life_of ?h1 i) = now_pid ?h1"
      using inv_kept [OF I i(1)] that lease_coreD(5) [OF inv_lease [OF I i(1)] i(4)] by (auto simp: kept_def)
    have drop: "wp (drop_view_pin L i)
      (\<lambda>_ h'. inv_but {} {b} h' \<and> stable i ?h1 h' \<and> \<not> ls_view_pin (leases h' i))
      (\<lambda>_ h'. inv_but {i} {b} h' \<and> stable i ?h1 h' \<and> ls_view_pin (leases h' i)
        \<and> (lf_pid (life_of ?h1 i) = now_pid ?h1 \<longrightarrow> noted h' i)) ?h1"
      by (rule drop_view_pin_inv [OF I1 _ _ L _ others fin]) (use i nd in simp_all)
    have good: "inv (upd_exporter b k h2) \<and> steady h (upd_exporter b k h2) \<and> x_closed (exporters (upd_exporter b k h2) b)"
      if h2: "inv_but {} {b} h2" "stable i ?h1 h2" "\<not> ls_view_pin (leases h2 i)"
        and k: "k = (\<lambda>y. y\<lparr>x_address := None, x_closing := False, x_owner := None, x_cleanup := None\<rparr>)" for h2 k
    proof -
      have x2: "exporters h2 b = ?x\<lparr>x_closing := True, x_closed := True\<rparr>" using h2(2) by (simp add: stable_def)
      have "inv_but {} {b} (upd_exporter b k h2)"
        by (rule inv_sever [OF h2(1)]) (use i(3) h2(3) in \<open>auto simp: k x2\<close>)
      moreover have "exporter_core (upd_exporter b k h2) b" "settled (upd_exporter b k h2) b"
        using True by (simp_all add: exporter_core_def settled_def Let_def k x2)
      ultimately show ?thesis
        using inv_readmit h2(2) by (simp add: k x2 stable_def steady_def)
    qed
    have bad: "inv_but {} {b} (upd_exporter b (\<lambda>y. y\<lparr>x_closed := False, x_closing := False\<rparr>) h2)
        \<and> steady h (upd_exporter b (\<lambda>y. y\<lparr>x_closed := False, x_closing := False\<rparr>) h2)
        \<and> exporter_core (upd_exporter b (\<lambda>y. y\<lparr>x_closed := False, x_closing := False\<rparr>) h2) b
        \<and> exporters (upd_exporter b (\<lambda>y. y\<lparr>x_closed := False, x_closing := False\<rparr>) h2) = exporters h"
      if h2: "inv_but {i} {b} h2" "stable i ?h1 h2" "ls_view_pin (leases h2 i)"
        "lf_pid (life_of ?h1 i) = now_pid ?h1 \<longrightarrow> noted h2 i" for h2
    proof -
      let ?h3 = "upd_exporter b (\<lambda>y. y\<lparr>x_closed := False, x_closing := False\<rparr>) h2"
      have x: "exporters ?h3 = exporters h"
        using h2(2) True core(1) by (auto simp: stable_def fun_eq_iff)
      have st: "steady h ?h3" using h2(2) by (simp add: stable_def steady_def)
      have I3: "inv_but {i} {b} ?h3" by (rule inv_upd_exporter [OF h2(1)]) simp_all
      have pid: "lf_pid (life_of h2 i) = lf_pid (life_of h i)" using h2(2) by (simp add: stable_def)
      have "kept ?h3 i" using h2(2,4) pid by (auto simp: kept_def stable_def)
      with I3 have I4: "inv_but {} {b} ?h3" by (rule inv_keep)
      have "exporter_core ?h3 b"
        unfolding exporter_core_def Let_def x
        using core(1,2) True i h2(2,3) pid by (auto simp: stable_def)
      with I4 st x show ?thesis by blast
    qed
    show ?thesis
      using True core(1) i(3)
      apply (simp add: close_buffer_def same_process_def wp_simps)
      apply (rule wp_mono [OF drop])
      subgoal premises p for a t
        using good [OF _ _ _ refl, of t] p(4) by (simp only: wp_simps) blast
      subgoal premises p for e t
        using bad [of t] p(4) by (simp only: wp_simps) blast
      done
  qed
qed

end
