(* ===== verification/Binding_Views.thy ===== *)
theory Binding_Views
  imports Binding_Exporters
begin

text \<open>
  The buffer protocol of the exporter keeps the invariant: exports, their release, finalization and
  the clearing of a dead exporter.
\<close>


section \<open>Exports\<close>

lemma steady_left [simp]: "steady (upd_exporter b k h) t \<longleftrightarrow> steady h t"
  by (simp add: steady_def)

lemma cleanup_unraisable_inv:
  assumes I: "inv_but {} {b} h" and c: "exporter_core h b" and b: "b < n_exporters h" and o: "\<not> x_closed (exporters h b)"
  shows "wp (cleanup_unraisable b) (\<lambda>_ h'. inv h' \<and> steady h h') (\<lambda>_ h'. False) h"
proof -
  from exporter_coreD(4) [OF c o] obtain i where i: "i < n_leases h" "x_cleanup (exporters h b) = Some i" by blast
  have nd: "i \<notin> dead h" using lease_coreD(9) [OF inv_lease [OF I i(1)]] i(2) b by (auto simp: rooted_def)
  have "inv (note_failure (TheLease i) x h)" for x
  proof -
    have "inv_but {} {b} (note_failure (TheLease i) x h)"
      using inv_note [OF I i(1) nd] by simp
    moreover have "exporter_core (note_failure (TheLease i) x h) b" using c by (simp add: exporter_core_def Let_def)
    moreover have "settled (note_failure (TheLease i) x h) b" using i(2) by (simp add: settled_def Let_def)
    ultimately show ?thesis by (rule inv_readmit)
  qed
  then show ?thesis using i(2) by (simp add: cleanup_unraisable_def exporter_cleanup_failed_def wp_simps)
qed

lemma try_close_buffer_inv:
  assumes I: "inv_but {} {b} h" and c: "exporter_core h b" and b: "b < n_exporters h" and L: "ok_transfers L"
    and o: "\<not> x_closed (exporters h b)"
  shows "wp (attempt (close_buffer L b) (\<lambda>e. cleanup_unraisable b)) (\<lambda>_ h'. inv h' \<and> steady h h') (\<lambda>_ h'. False) h"
  unfolding wp_attempt
proof (rule wp_mono [OF close_buffer_inv [OF I c b L]])
  fix x t assume t: "inv_but {} {b} t \<and> steady h t \<and> exporter_core t b \<and> exporters t = exporters h"
  then have "b < n_exporters t" using b by (simp add: steady_def)
  then show "wp (cleanup_unraisable b) (\<lambda>_ h'. inv h' \<and> steady h h') (\<lambda>_ h'. False) t"
    using t o by (intro wp_mono [OF cleanup_unraisable_inv]) (auto intro: steady_trans)
qed auto

lemma deferred_close_inv:
  assumes I: "inv_but {} {b} h" and c: "exporter_core h b" and b: "b < n_exporters h" and L: "ok_transfers L"
  shows "wp (deferred_close L b) (\<lambda>_ h'. inv h' \<and> steady h h') (\<lambda>_ h'. False) h"
proof (cases "x_exports (exporters h b) = 0 \<and> x_close_requested (exporters h b) \<and> \<not> x_closed (exporters h b)
    \<and> now_pid h = x_pid (exporters h b)")
  case True
  with try_close_buffer_inv [OF I c b L] show ?thesis by (simp add: deferred_close_def wp_bind wp_reads)
next
  case False
  then have "settled h b" by (auto simp: settled_def Let_def)
  from inv_readmit [OF I c this] False show ?thesis by (auto simp: deferred_close_def wp_bind wp_reads wp_ret)
qed

lemma exports_down:
  assumes I: "inv h" and b: "b < n_exporters h"
  shows "inv_but {} {b} (upd_exporter b (\<lambda>x. x\<lparr>x_exports := x_exports x - 1\<rparr>) h)"
    and "exporter_core (upd_exporter b (\<lambda>x. x\<lparr>x_exports := x_exports x - 1\<rparr>) h) b"
proof -
  show "inv_but {} {b} (upd_exporter b (\<lambda>x. x\<lparr>x_exports := x_exports x - 1\<rparr>) h)"
    by (rule inv_upd_exporter [OF inv_mono [OF I]]) simp_all
  show "exporter_core (upd_exporter b (\<lambda>x. x\<lparr>x_exports := x_exports x - 1\<rparr>) h) b"
    using inv_exporter(1) [OF I b] by (auto simp: exporter_core_def Let_def)
qed

lemma buffer_release_inv:
  assumes I: "inv h" and b: "b < n_exporters h" and L: "ok_transfers L"
  shows "wp (buffer_release L b) (\<lambda>_ h'. inv h' \<and> steady h h') (\<lambda>_ h'. False) h"
  unfolding buffer_release_def wp_andthen wp_steps
  by (rule wp_mono [OF deferred_close_inv [OF exports_down [OF I b] _ L]]) (use b in auto)

lemma rollback_export_inv:
  assumes I: "inv h" and b: "b < n_exporters h" and L: "ok_transfers L"
  shows "wp (rollback_export L b) (\<lambda>_ h'. inv h' \<and> steady h h') (\<lambda>_ h'. False) h"
  using buffer_release_inv [OF assms] by (simp add: rollback_export_def buffer_release_def)

lemma buffer_get_inv:
  assumes I: "inv h" and b: "b < n_exporters h" and L: "ok_transfers L"
  shows "wp (buffer_get L b writable) (\<lambda>_ h'. inv h' \<and> steady h h') (\<lambda>_ h'. inv h' \<and> steady h h') h"
proof -
  let ?h1 = "upd_exporter b (\<lambda>y. y\<lparr>x_exports := Suc (x_exports y)\<rparr>) h"
  have I1: "inv ?h1" if "\<not> x_closed (exporters h b)"
  proof -
    have "inv_but {} {b} ?h1" by (rule inv_upd_exporter [OF inv_mono [OF I]]) simp_all
    moreover have "exporter_core ?h1 b" using inv_exporter(1) [OF I b] that by (simp add: exporter_core_def Let_def)
    moreover have "settled ?h1 b" by (simp add: settled_def Let_def)
    ultimately show ?thesis by (rule inv_readmit)
  qed
  have undo: "wp (rollback_export L b) (\<lambda>_ h'. inv h' \<and> steady h h') (\<lambda>_ h'. inv h' \<and> steady h h') ?h1"
    if "\<not> x_closed (exporters h b)"
    by (rule wp_mono [OF rollback_export_inv [OF I1 [OF that] _ L]]) (use b in auto)
  have al: "wp (attempt (assert_live i) (\<lambda>e. andthen (rollback_export L b) (throw e)))
      (\<lambda>_ h'. h' = ?h1) (\<lambda>_ h'. inv h' \<and> steady h h') ?h1" if "\<not> x_closed (exporters h b)" for i
    unfolding wp_attempt
    by (rule wp_assert_live, simp, unfold wp_andthen, rule wp_mono [OF undo [OF that]]) (simp_all add: wp_simps)
  have live_: "wp (attempt (assert_live i) (\<lambda>e. andthen (rollback_export L b) (throw e))) Q E ?h1"
    if "\<not> x_closed (exporters h b)" "Q () ?h1" "\<And>x t. inv t \<and> steady h t \<Longrightarrow> E x t" for i Q E
    by (rule wp_mono [OF al [OF that(1)]]) (use that in auto)
  show ?thesis
    unfolding buffer_get_def same_process_def
    using I I1 by (auto simp: wp_simps split: option.split
      intro!: live_ [unfolded wp_attempt] wp_mono [OF undo])
qed

lemma buffer_finalize_inv:
  assumes I: "inv h" and b: "b < n_exporters h" and L: "ok_transfers L"
  shows "wp (buffer_finalize L b) (\<lambda>_ h'. inv h' \<and> steady h h' \<and> True) (\<lambda>_ h'. False) h"
proof -
  let ?h1 = "upd_exporter b (\<lambda>x. x\<lparr>x_close_requested := True\<rparr>) h"
  have I1: "inv_but {} {b} ?h1" by (rule inv_upd_exporter [OF inv_mono [OF I]]) simp_all
  have c1: "exporter_core ?h1 b" using inv_exporter(1) [OF I b] by (simp add: exporter_core_def Let_def)
  show ?thesis
  proof (cases "x_exports (exporters h b) = 0 \<and> \<not> x_closed (exporters h b) \<and> now_pid h = x_pid (exporters h b)
      \<and> x_cleanup (exporters h b) \<noteq> None")
    case True
    have "wp (attempt (close_buffer L b) (\<lambda>e. cleanup_unraisable b)) (\<lambda>_ h'. inv h' \<and> steady h h' \<and> True) (\<lambda>_ h'. False) ?h1"
      by (rule wp_mono [OF try_close_buffer_inv [OF I1 c1 _ L]]) (use b True in auto)
    with True show ?thesis by (simp add: buffer_finalize_def wp_andthen wp_bind wp_reads wp_steps)
  next
    case False
    then have "settled ?h1 b" using exporter_coreD(4) [OF inv_exporter(1) [OF I b]] by (auto simp: settled_def Let_def)
    from inv_readmit [OF I1 c1 this] False show ?thesis
      by (auto simp: buffer_finalize_def wp_andthen wp_bind wp_reads wp_steps wp_ret)
  qed
qed

lemma buffer_clear_inv:
  assumes I: "inv h" and b: "b < n_exporters h" and r: "x_close_requested (exporters h b)"
  shows "wp (buffer_clear b) (\<lambda>_ h'. inv h' \<and> steady h h') (\<lambda>_ h'. False) h"
proof -
  define k :: "exporter \<Rightarrow> exporter" where "k = (\<lambda>x. if x_exports x \<noteq> 0 then x\<lparr>x_close_requested := True\<rparr>
     else x\<lparr>x_close_requested := True, x_closed := True, x_address := None, x_owner := None, x_cleanup := None\<rparr>)"
  have "inv (upd_exporter b k h)"
  proof (cases "x_exports (exporters h b) = 0")
    case True
    have "inv_but {} {b} (upd_exporter b k h)"
    proof (rule inv_sever [OF inv_mono [OF I]])
      fix i assume i: "x_cleanup (exporters h b) = Some i" "lf_pid (life_of h i) = now_pid h"
      have o: "\<not> x_closed (exporters h b)" using exporter_coreD(3) [OF inv_exporter(1) [OF I b]] i(1) by fastforce
      from exporter_coreD(4) [OF inv_exporter(1) [OF I b] o] i have "x_pid (exporters h b) = now_pid h" by auto
      with inv_exporter(2) [OF I b] o r True i(1) show "\<not> ls_view_pin (leases h i) \<or> noted h i"
        by (auto simp: settled_def Let_def)
    qed (simp_all add: k_def True)
    moreover have "exporter_core (upd_exporter b k h) b" "settled (upd_exporter b k h) b"
      using True exporter_coreD(1) [OF inv_exporter(1) [OF I b]] by (simp_all add: k_def exporter_core_def settled_def Let_def)
    ultimately show ?thesis by (rule inv_readmit)
  next
    case False
    have "inv_but {} {b} (upd_exporter b k h)"
      by (rule inv_upd_exporter [OF inv_mono [OF I]]) (use False in \<open>simp_all add: k_def\<close>)
    moreover have "exporter_core (upd_exporter b k h) b"
      using False inv_exporter(1) [OF I b] by (simp add: k_def exporter_core_def Let_def)
    moreover have "settled (upd_exporter b k h) b" using False by (simp add: k_def settled_def Let_def)
    ultimately show ?thesis by (rule inv_readmit)
  qed
  then show ?thesis unfolding buffer_clear_def wp_steps k_def [symmetric] by simp
qed

end
