(* ===== verification/Binding_Buffers.thy ===== *)
theory Binding_Buffers
  imports Binding_Views
begin

text \<open>
  \<open>_Lease.buffer\<close> keeps the invariant: the view pin and its exporter are made together or not at all.
\<close>


section \<open>Leases\<close>

lemma inv_scope:
  assumes "inv_but K B h"
  shows "i \<in> dead h \<Longrightarrow> i < n_leases h" "i \<in> finalized h \<Longrightarrow> i < n_leases h"
    "wrapper_exporter h i = Some b \<Longrightarrow> b < n_exporters h"
  using assms unfolding inv_but_def by blast+

lemma not_finalized_alive: "inv_but K B h \<Longrightarrow> i < n_leases h \<Longrightarrow> i \<notin> finalized h \<Longrightarrow> i \<notin> dead h"
  using lease_coreD(9) [OF inv_lease] by (auto simp: rooted_iff)

definition export_to :: "nat \<Rightarrow> exporter \<Rightarrow> 'w heap \<Rightarrow> 'w heap" where
  "export_to i x h = h\<lparr>n_exporters := n_exporters h + 1, exporters := (exporters h)(n_exporters h := x),
     wrapper_exporter := (wrapper_exporter h)(i := Some (n_exporters h))\<rparr>"

lemma export_to_simps [simp]:
  "leases (export_to i x h) = leases h" "lives (export_to i x h) = lives h" "calls (export_to i x h) = calls h"
  "now_pid (export_to i x h) = now_pid h" "n_leases (export_to i x h) = n_leases h" "n_lives (export_to i x h) = n_lives h"
  "n_exporters (export_to i x h) = n_exporters h + 1" "exporters (export_to i x h) = (exporters h)(n_exporters h := x)"
  "wrapper_exporter (export_to i x h) = (wrapper_exporter h)(i := Some (n_exporters h))"
  "warn_error (export_to i x h) = warn_error h" "finalized (export_to i x h) = finalized h" "dead (export_to i x h) = dead h" "noted (export_to i x h) j = noted h j"
  by (simp_all add: export_to_def noted_def)

lemma inv_export_to:
  assumes I: "inv_but {i} {} h" and i: "i < n_leases h" "i \<notin> finalized h" and lv: "live_lease h i" "ls_view_pin (leases h i)"
    and none: "\<And>b. b < n_exporters h \<Longrightarrow> x_cleanup (exporters h b) \<noteq> Some i"
    and x: "x_owner x = Some i" "x_cleanup x = Some i" "x_pid x = now_pid h" "\<not> x_closed x" "\<not> x_closing x" "\<not> x_close_requested x"
  shows "inv (export_to i x h)"
proof -
  let ?h = "export_to i x h"
  have ex: "exported ?h j \<longleftrightarrow> exported h j \<or> j = i" for j
    using x(2) by (auto simp: exported_def less_Suc_eq) (metis nat_neq_iff)
  have nd: "i \<notin> dead h" by (rule not_finalized_alive [OF I i])
  have "lease_core ?h j" if "j < n_leases h" for j
    using inv_lease [OF I that] nd unfolding lease_core_def rooted_iff ex by auto
  moreover have "kept ?h j" if "j < n_leases h" for j
    using inv_kept [OF I that] i unfolding kept_def ex by (cases "j = i") auto
  moreover have "exporter_core ?h b \<and> settled ?h b" if "b < n_exporters h + 1" for b
  proof (cases "b = n_exporters h")
    case True
    then show ?thesis using x i lv by (auto simp: exporter_core_def settled_def Let_def live_lease_def)
  next
    case False
    with that have b: "b < n_exporters h" by simp
    have o: "x_owner (exporters h b) \<noteq> Some i" if "\<not> x_closed (exporters h b)"
      using exporter_coreD(4) [OF inv_exporter(1) [OF I b] that] none [OF b] by auto
    show ?thesis using inv_exporter [OF I b] none [OF b] False by (auto simp: exporter_core_def settled_def Let_def)
  qed
  moreover have "life_ok ?h e" if "e < n_lives h" for e
    using inv_life [OF I that] life_ok_cong [of ?h h e] by simp
  moreover have "wrapper_exporter ?h j = Some b \<Longrightarrow> b < n_exporters ?h" for j b
    using inv_scope(3) [OF I, of j b] by (auto split: if_splits)
  ultimately show ?thesis using I unfolding inv_but_def by simp
qed

lemma lease_buffer_inv:
  assumes I: "inv h" and i: "i < n_leases h" "i \<notin> finalized h" and L: "ok_transfers L"
  shows "wp (lease_buffer L oom i) (\<lambda>b h'. inv h' \<and> b < n_exporters h') (\<lambda>_ h'. inv h') h"
proof -
  have get: "wp (andthen (buffer_get L b False) (ret b)) (\<lambda>b h'. inv h' \<and> b < n_exporters h') (\<lambda>_ h'. inv h') h1"
    if "inv h1" "b < n_exporters h1" for b h1
    unfolding wp_andthen
    by (rule wp_mono [OF buffer_get_inv [OF that L]]) (use that in \<open>auto simp: wp_simps steady_def\<close>)
  have drop: "wp (drop_view_pin L i) (\<lambda>_ h'. inv h') (\<lambda>_ h'. inv h') h1"
    if h1: "inv_but {i} {} h1" "stable i h h1" "ls_view_pin (leases h1 i)" "\<not> ls_view_pin (leases h i)" for h1
  proof (rule wp_mono [OF drop_view_pin_inv [OF h1(1) _ _ L h1(3)]])
    show n: "i < n_leases h1" "i \<notin> dead h1" using h1(2) i not_finalized_alive [OF I i] by (auto simp: stable_def)
    show "x_cleanup (exporters h1 b) \<noteq> Some i" if "b < n_exporters h1" "b \<notin> {}" for b
    proof -
      have b: "b < n_exporters h" "exporters h1 b = exporters h b" using that h1(2) by (auto simp: stable_def)
      show ?thesis using exporter_coreD(3,4) [OF inv_exporter(1) [OF I b(1)]] h1(4) b(2) by fastforce
    qed
    show "ls_cleanup_requested (leases h1 i) \<or> noted h1 i" if "i \<in> finalized h1"
      using that h1(2) i by (simp add: stable_def)
    fix x t assume t: "inv_but {i} {} t \<and> stable i h1 t \<and> ls_view_pin (leases t i) \<and> (lf_pid (life_of h1 i) = now_pid h1 \<longrightarrow> noted t i)"
    have "i \<notin> finalized t" using t h1(2) i by (simp add: stable_def)
    moreover have "lf_pid (life_of t i) = lf_pid (life_of h1 i)" "now_pid t = now_pid h1"
      using t by (simp_all add: stable_def)
    ultimately have "kept t i" using t by (auto simp: kept_def)
    then show "inv t" using t inv_keep by blast
  qed simp
  have fresh: "wp (andthen (retain_view_pin L i)
           (bind (the_lease i) (\<lambda>s.
            bind (attempt (module_create oom (ls_address s) (ls_length s) (\<not> ls_writing s) i)
              (\<lambda>e. andthen (drop_view_pin L i) (throw e))) (\<lambda>b.
            andthen (set_wrapper i b) (ret b)))))
     (\<lambda>b h'. inv h' \<and> b < n_exporters h') (\<lambda>_ h'. inv h') h"
    unfolding wp_andthen
  proof (rule wp_mono [OF retain_view_pin_inv [OF I i]])
    fix a t assume t: "inv_but {i} {} t \<and> stable i h t \<and> live_lease t i \<and> ls_view_pin (leases t i) \<and> \<not> ls_view_pin (leases h i)"
    have out: "wp (andthen (drop_view_pin L i) (throw x)) (\<lambda>_ h'. False) (\<lambda>_ h'. inv h') t" for x
      unfolding wp_andthen by (rule wp_mono [OF drop]) (use t in \<open>auto simp: wp_simps\<close>)
    have exp: "inv (export_to i x t)" if "x_owner x = Some i" "x_cleanup x = Some i" "x_pid x = now_pid t" "\<not> x_closed x"
      "\<not> x_closing x" "\<not> x_close_requested x" for x
    proof (rule inv_export_to [OF _ _ _ _ _ _ that])
      show "x_cleanup (exporters t b) \<noteq> Some i" if "b < n_exporters t" for b
      proof -
        have b: "b < n_exporters h" "exporters t b = exporters h b" using that t by (auto simp: stable_def)
        show ?thesis using exporter_coreD(3,4) [OF inv_exporter(1) [OF I b(1)]] t b(2) by fastforce
      qed
    qed (use t i in \<open>auto simp: stable_def\<close>)
    show "wp (bind (the_lease i) (\<lambda>s.
            bind (attempt (module_create oom (ls_address s) (ls_length s) (\<not> ls_writing s) i)
              (\<lambda>e. andthen (drop_view_pin L i) (throw e))) (\<lambda>b.
            andthen (set_wrapper i b) (ret b))))
     (\<lambda>b h'. inv h' \<and> b < n_exporters h') (\<lambda>_ h'. inv h') t"
    proof (cases "ls_address (leases t i) = None \<or> ls_address (leases t i) = Some 0 \<or> oom")
      case True
      then show ?thesis
        by (auto simp: module_create_def wp_bind wp_reads wp_attempt wp_throw split: option.split intro!: wp_mono [OF out])
    next
      case False
      then obtain a where a: "ls_address (leases t i) = Some a" "a \<noteq> 0" "\<not> oom" by auto
      define x where "x = \<lparr>x_owner = Some i, x_cleanup = Some i, x_address = Some a, x_length = ls_length (leases t i),
        x_exports = 0, x_pid = now_pid t, x_readonly = (\<not> ls_writing (leases t i)), x_closed = False, x_closing = False,
        x_close_requested = False\<rparr>"
      have "inv (export_to i x t)" by (rule exp) (simp_all add: x_def)
      moreover have "t\<lparr>n_exporters := n_exporters t + 1, exporters := (exporters t)(n_exporters t := x),
          wrapper_exporter := (wrapper_exporter t)(i := Some (n_exporters t))\<rparr> = export_to i x t"
        by (simp add: export_to_def)
      ultimately show ?thesis using a
        by (simp add: module_create_def set_wrapper_def wp_def bind_def the_lease_def gets_def attempt_def andthen_def
            modify_def ret_def flip: x_def)
    qed
  qed auto
  show ?thesis
    unfolding lease_buffer_def wp_andthen
  proof (rule wp_assert_live)
    let ?cur = "case wrapper_exporter h i of None \<Rightarrow> None | Some b \<Rightarrow> if x_closed (exporters h b) then None else Some b"
    show "wp (bind (gets (\<lambda>h. case wrapper_exporter h i of None \<Rightarrow> None
        | Some b \<Rightarrow> if x_closed (exporters h b) then None else Some b)) (\<lambda>current.
      bind (case current of Some b \<Rightarrow> ret b
        | None \<Rightarrow> andthen (retain_view_pin L i)
           (bind (the_lease i) (\<lambda>s.
            bind (attempt (module_create oom (ls_address s) (ls_length s) (\<not> ls_writing s) i)
              (\<lambda>e. andthen (drop_view_pin L i) (throw e))) (\<lambda>b.
            andthen (set_wrapper i b) (ret b)))))
      (\<lambda>b. andthen (buffer_get L b False) (ret b)))) (\<lambda>b h'. inv h' \<and> b < n_exporters h') (\<lambda>_ h'. inv h') h"
    proof (cases ?cur)
      case None
      show ?thesis unfolding wp_bind wp_gets None option.case
        by (rule wp_mono [OF fresh]) (use get in auto)
    next
      case (Some b)
      then have "wrapper_exporter h i = Some b" by (auto split: option.splits if_splits)
      then have "b < n_exporters h" by (rule inv_scope(3) [OF I])
      with get [OF I] Some show ?thesis unfolding wp_bind wp_gets Some option.case wp_ret by blast
    qed
  qed (use I in auto)
qed

end
