(* ===== verification/Binding_Endings.thy ===== *)
theory Binding_Endings
  imports Binding_Buffers
begin

text \<open>
  The invariant through the end of a lease - the close of its exporter, the transfer of its token, the
  finalizer of its pin and its collection - and through \<open>_EndpointLifetime.request_close\<close>.
\<close>

section \<open>Ending a lease\<close>

lemma end_exports_inv:
  assumes I: "inv h" and L: "ok_transfers L"
  shows "wp (end_exports L i) (\<lambda>_ h'. inv h' \<and> steady h h') (\<lambda>_ h'. inv h' \<and> steady h h') h"
proof (cases "wrapper_exporter h i")
  case (Some b)
  have b: "b < n_exporters h" by (rule inv_scope(3) [OF I Some])
  have "wp (close_buffer L b) (\<lambda>_ h'. inv h' \<and> steady h h') (\<lambda>_ h'. inv h' \<and> steady h h') h"
  proof (rule wp_mono [OF close_buffer_inv [OF inv_mono [OF I] _ b L]])
    show "exporter_core h b" by (rule inv_exporter(1) [OF I b]) simp
    fix x t assume t: "inv_but {} {b} t \<and> steady h t \<and> exporter_core t b \<and> exporters t = exporters h"
    have "settled t b" using inv_exporter(2) [OF I b] t by (auto simp: settled_def Let_def steady_def)
    with t inv_readmit show "inv t \<and> steady h t" by blast
  qed auto
  then show ?thesis by (simp add: end_exports_def wp_bind wp_gets Some)
qed (simp add: end_exports_def wp_simps I)

lemma transfer_inv:
  assumes I: "inv h" and i: "i < n_leases h" "i \<notin> dead h" and L: "ok_transfers L"
  shows "wp (transfer L i a) (\<lambda>_ h'. inv h' \<and> \<not> ls_active (leases h' i)) (\<lambda>_ h'. inv h') h"
  unfolding transfer_def wp_andthen
proof (rule wp_mono [OF end_exports_inv [OF I L]])
  fix u t assume t: "inv t \<and> steady h t"
  then have "i < n_leases t" "i \<notin> dead t" using i by (auto simp: steady_def)
  then show "wp (finish L i a) (\<lambda>_. wp (ret ()) (\<lambda>_ h'. inv h' \<and> \<not> ls_active (leases h' i)) (\<lambda>_ h'. inv h')) (\<lambda>_ h'. inv h') t"
    by (intro wp_mono [OF finish_inv [OF _ _ _ _ L]]) (use t in \<open>auto simp: wp_simps\<close>)
qed auto

lemma inv_finalize:
  assumes I: "inv h" and i: "i < n_leases h" "i \<notin> finalized h" and c: "c = (\<lambda>s. s\<lparr>ls_cleanup_requested := True\<rparr>)"
  shows "inv_but {i} {} (upd_lease i c (h\<lparr>finalized := insert i (finalized h)\<rparr>))"
proof -
  let ?h = "upd_lease i c (h\<lparr>finalized := insert i (finalized h)\<rparr>)"
  have nd: "i \<notin> dead h" by (rule not_finalized_alive [OF I i])
  have ex: "exported ?h j = exported h j" "noted ?h j = noted h j" for j by (simp_all add: exported_def noted_def)
  have ls: "leases ?h j = (if j = i then c (leases h i) else leases h j)" for j by simp
  have "lease_core ?h j" if "j < n_leases h" for j
    using inv_lease [OF I that] nd unfolding lease_core_def rooted_iff ex ls by (cases "j = i") (auto simp: c)
  moreover have "kept ?h j" if "j < n_leases h" "j \<noteq> i" for j
    using inv_kept [OF I that(1)] that(2) unfolding kept_def ex ls by auto
  moreover have "exporter_core ?h b \<and> settled ?h b" if "b < n_exporters h" for b
  proof -
    have "ls_view_pin (leases ?h j) = ls_view_pin (leases h j)" "ls_endpoint (leases ?h j) = ls_endpoint (leases h j)" for j
      by (auto simp: c)
    then show ?thesis using inv_exporter [OF I that] unfolding exporter_core_def settled_def Let_def ex by auto
  qed
  moreover have "life_ok ?h e" if "e < n_lives h" for e
  proof -
    have hold: "holder ?h e = holder h e" by (auto simp: holder_def c split: option.splits)
    have flags: "ls_uncertain (leases ?h j) = ls_uncertain (leases h j)" "ls_view_pin (leases ?h j) = ls_view_pin (leases h j)"
      "ls_lease (leases ?h j) = ls_lease (leases h j)" for j by (simp_all add: c)
    have disp: "displays ?h e x = displays h e x" for x
      unfolding displays_def hold flags by simp
    have ep: "ls_endpoint (leases ?h j) = ls_endpoint (leases h j)" for j by (simp add: c)
    have rest: "lives ?h = lives h" "n_leases ?h = n_leases h" "calls ?h = calls h" by simp_all
    show ?thesis using inv_life [OF I that] unfolding life_ok_def disp ep rest .
  qed
  ultimately show ?thesis using I i(1) unfolding inv_but_def by auto
qed

lemma finalized_notes [simp]:
  "noted (h\<lparr>finalized := F\<rparr>) j = noted h j" "exported (h\<lparr>finalized := F\<rparr>) j = exported h j"
  "noted (h\<lparr>dead := F\<rparr>) j = noted h j" "exported (h\<lparr>dead := F\<rparr>) j = exported h j"
  by (simp_all add: exported_def noted_def)

lemma pin_finalized_inv:
  assumes I: "inv h" and i: "i < n_leases h" and L: "ok_transfers L"
  shows "wp (pin_finalized L i) (\<lambda>_ h'. inv h') (\<lambda>_ h'. False) h"
proof (cases "i \<in> finalized h")
  case True
  then show ?thesis using I by (simp add: pin_finalized_def wp_simps)
next
  case False
  let ?h = "upd_lease i (\<lambda>s. s\<lparr>ls_cleanup_requested := True\<rparr>) (h\<lparr>finalized := insert i (finalized h)\<rparr>)"
  have nd: "i \<notin> dead ?h" using not_finalized_alive [OF I i False] by simp
  have ex: "exported ?h i = exported h i" "noted ?h i = noted h i" by (simp_all add: exported_def noted_def)
  have "wp (cleanup L i) (\<lambda>_ h'. inv h') (\<lambda>_ h'. False) ?h"
    by (rule wp_mono [OF cleanup_inv [OF inv_finalize [OF I i False refl] _ nd L]])
      (use i inv_kept [OF I i] in \<open>auto simp: ex kept_def\<close>)
  then show ?thesis using False
    by (simp add: pin_finalized_def request_cleanup_def wp_bind wp_gets wp_andthen wp_modify wp_steps)
qed

lemma collect_lease_inv:
  assumes I: "inv h"
  shows "wp (collect_lease i) (\<lambda>_ h'. inv h') (\<lambda>_ h'. False) h"
proof -
  have "inv (h\<lparr>dead := insert i (dead h)\<rparr>)" if i: "i < n_leases h" "\<not> rooted h i"
  proof -
    let ?h = "h\<lparr>dead := insert i (dead h)\<rparr>"
    have ex: "exported ?h j = exported h j" "noted ?h j = noted h j" for j by (simp_all add: exported_def noted_def)
    have "lease_core ?h j" if "j < n_leases h" for j
      using inv_lease [OF I that] i(2) unfolding lease_core_def rooted_iff ex by (cases "j = i") auto
    moreover have "kept ?h j" if "j < n_leases h" for j
      using inv_kept [OF I that] unfolding kept_def ex by auto
    moreover have "exporter_core ?h b \<and> settled ?h b" if "b < n_exporters h" for b
      using inv_exporter [OF I that] unfolding exporter_core_def settled_def Let_def ex by auto
    moreover have "life_ok ?h e" if "e < n_lives h" for e
      using inv_life [OF I that] life_ok_cong [of ?h h e] by simp
    ultimately show ?thesis using I i(1) unfolding inv_but_def by simp
  qed
  then show ?thesis using I by (simp add: collect_lease_def wp_modify)
qed

section \<open>Endpoint lifetimes\<close>

text \<open>Only pointer, process, pin and poison of a lifetime matter to the invariant.\<close>

lemma inv_upd_life:
  assumes I: "inv_but K B h" and f: "lf_ptr (f (lives h e)) = lf_ptr (lives h e)" "lf_pid (f (lives h e)) = lf_pid (lives h e)"
    "lf_pin (f (lives h e)) = lf_pin (lives h e)" "lf_poisoned (f (lives h e)) = lf_poisoned (lives h e)"
  shows "inv_but K B (upd_life e f h)"
proof -
  let ?h = "upd_life e f h"
  have same: "lf_ptr (lives ?h k) = lf_ptr (lives h k)" "lf_pid (lives ?h k) = lf_pid (lives h k)"
    "lf_pin (lives ?h k) = lf_pin (lives h k)" "lf_poisoned (lives ?h k) = lf_poisoned (lives h k)" for k
    using f by auto
  have ex: "exported ?h j = exported h j" "noted ?h j = noted h j" for j by simp_all
  have g: "leases ?h = leases h" "exporters ?h = exporters h" "n_leases ?h = n_leases h" by simp_all
  have "lease_core ?h j" if "j < n_leases h" for j
    using inv_lease [OF I that] unfolding lease_core_def rooted_iff ex g same by simp
  moreover have "kept ?h j" if "j < n_leases h" "j \<notin> K" for j
    using inv_kept [OF I that] unfolding kept_def ex g same by simp
  moreover have "exporter_core ?h b \<and> settled ?h b" if "b < n_exporters h" "b \<notin> B" for b
    using inv_exporter [OF I that] unfolding exporter_core_def settled_def Let_def ex g same by simp
  moreover have "life_ok ?h k" if "k < n_lives h" for k
  proof -
    have hold: "holder ?h k = holder h k" unfolding holder_def same g ..
    have "displays ?h k c = displays h k c" for c unfolding displays_def hold same g ..
    then show ?thesis using inv_life [OF I that] unfolding life_ok_def same g by simp
  qed
  ultimately show ?thesis using I unfolding inv_but_def by simp
qed

lemma life_request_close_inv:
  assumes I: "inv h" and e: "e < n_lives h"
  shows "wp (life_request_close L e) (\<lambda>_ h'. inv h') (\<lambda>_ h'. False) h"
  unfolding life_request_close_def wp_andthen wp_steps
  by (rule wp_mono [OF life_try_close_inv [OF inv_upd_life [OF I]]]) (use e in auto)

end
