(* ===== verification/Binding_Obtaining.thy ===== *)
theory Binding_Obtaining
  imports Binding_Endings
begin

text \<open>
  \<open>_Endpoint._obtain\<close> keeps the invariant: the new lease state, the native acquisition and its handler.
\<close>

section \<open>Obtaining a lease\<close>

definition with_lease :: "nat \<Rightarrow> bool \<Rightarrow> 'w heap \<Rightarrow> 'w heap" where
  "with_lease e writing h = h\<lparr>n_leases := n_leases h + 1,
     leases := (leases h)(n_leases h := LeaseState e (replicate 10 0) null_span writing),
     wrapper_exporter := (wrapper_exporter h)(n_leases h := None),
     lives := (lives h)(e := (lives h e)\<lparr>lf_pin := Some (n_leases h)\<rparr>)\<rparr>"

lemma wp_new_lease [wp_simps]: "wp (new_lease e writing) Q E h \<longleftrightarrow> Q (n_leases h) (with_lease e writing h)"
  by (simp add: new_lease_def with_lease_def wp_def Let_def)

lemma with_lease_simps [simp]:
  "leases (with_lease e w h) = (leases h)(n_leases h := LeaseState e (replicate 10 0) null_span w)"
  "lives (with_lease e w h) = (lives h)(e := (lives h e)\<lparr>lf_pin := Some (n_leases h)\<rparr>)"
  "wrapper_exporter (with_lease e w h) = (wrapper_exporter h)(n_leases h := None)"
  "warn_error (with_lease e w h) = warn_error h" "n_leases (with_lease e w h) = n_leases h + 1" "calls (with_lease e w h) = calls h" "now_pid (with_lease e w h) = now_pid h"
  "n_lives (with_lease e w h) = n_lives h" "n_exporters (with_lease e w h) = n_exporters h" "exporters (with_lease e w h) = exporters h"
  "finalized (with_lease e w h) = finalized h" "dead (with_lease e w h) = dead h" "world (with_lease e w h) = world h"
  "noted (with_lease e w h) j = noted h j" "exported (with_lease e w h) j = exported h j" "failed (with_lease e w h) = failed h"
  by (simp_all add: with_lease_def noted_def exported_def)

lemma LeaseState_simps [simp]:
  "ls_endpoint (LeaseState e l sp w) = e" "ls_lease (LeaseState e l sp w) = l" "ls_writing (LeaseState e l sp w) = w"
  "\<not> ls_active (LeaseState e l sp w)" "\<not> ls_view_pin (LeaseState e l sp w)" "\<not> ls_uncertain (LeaseState e l sp w)"
  "\<not> ls_acquiring (LeaseState e l sp w)"
  by (simp_all add: LeaseState_def)

lemma inv_with_lease:
  assumes I: "inv h" and e: "e < n_lives h" and idle: "holder h e = None"
    and no: "\<And>j. j < n_leases h \<Longrightarrow> ls_endpoint (leases h j) = e \<Longrightarrow> \<not> ls_active (leases h j)"
  shows "inv (with_lease e w h)" "holder (with_lease e w h) e = None"
proof -
  let ?h = "with_lease e w h" and ?i = "n_leases h"
  have ex: "exported ?h j = exported h j" "noted ?h j = noted h j" for j by simp_all
  have fresh: "?i \<notin> finalized h" "?i \<notin> dead h" using inv_scope(1,2) [OF I, of ?i] by blast+
  have ls: "leases ?h j = leases h j" if "j < ?i" for j using that by simp
  have same: "lf_ptr (lives ?h k) = lf_ptr (lives h k)" "lf_pid (lives ?h k) = lf_pid (lives h k)"
    "lf_poisoned (lives ?h k) = lf_poisoned (lives h k)" for k by simp_all
  have pin: "k \<noteq> e \<Longrightarrow> lf_pin (lives ?h k) = lf_pin (lives h k)" for k by simp
  show hold: "holder ?h e = None" by (simp add: holder_def)
  have "lease_core ?h j \<and> kept ?h j" if "j < ?i + 1" for j
  proof (cases "j = ?i")
    case True
    then show ?thesis using e fresh by (simp add: lease_core_def kept_def)
  next
    case False
    with that have j: "j < ?i" by simp
    have p: "lf_pin (lives ?h (ls_endpoint (leases h j))) = lf_pin (life_of h j)" if "ls_active (leases h j)"
      using no [OF j] that pin by blast
    have "lease_core ?h j"
      using inv_lease [OF I j] p unfolding lease_core_def rooted_iff ex ls [OF j] same by simp
    moreover have "kept ?h j" using inv_kept [OF I j] unfolding kept_def ex ls [OF j] same by simp
    ultimately show ?thesis ..
  qed
  moreover have "exporter_core ?h b \<and> settled ?h b" if "b < n_exporters h" for b
  proof -
    have "exporter_core ?h b"
    proof (cases "x_closed (exporters h b)")
      case True
      then show ?thesis using inv_exporter(1) [OF I that] by (simp add: exporter_core_def Let_def)
    next
      case False
      have xc: "exporter_core h b" by (rule inv_exporter(1) [OF I that]) simp
      note x = exporter_coreD [OF xc]
      from x(4) [OF False] obtain i where i: "i < ?i" "x_owner (exporters h b) = Some i" "x_cleanup (exporters h b) = Some i"
        "ls_view_pin (leases h i)" "wrapper_exporter h i = Some b" "x_pid (exporters h b) = lf_pid (life_of h i)" by blast
      have "lf_pid (lives ?h (ls_endpoint (leases ?h i))) = lf_pid (life_of h i)" using ls [OF i(1)] same by simp
      with i x(1) False show ?thesis unfolding exporter_core_def Let_def by auto
    qed
    moreover have "settled ?h b" using inv_exporter(2) [OF I that] by (simp add: settled_def)
    ultimately show ?thesis ..
  qed
  moreover have "life_ok ?h k" if "k < n_lives h" for k
  proof (cases "k = e")
    case True
    obtain c where c: "replay conn_start (map snd (calls h e)) = Some c" "displays h e c"
      using life_okD(2) [OF inv_life [OF I e]] by blast
    have "displays ?h e c"
      by (rule displaysI [OF c(2)]) (use displaysD [OF c(2)] idle hold same in auto)
    then show ?thesis using c True life_okD(3) [OF inv_life [OF I e]] by (simp add: life_ok_def)
  next
    case False
    have old: "j < ?i" "ls_endpoint (leases h j) = k" if "lf_pin (lives h k) = Some j" for j
      using life_okD(1) [OF inv_life [OF I \<open>k < n_lives h\<close>] that] by auto
    have hk: "holder ?h k = holder h k"
      using old(1) False by (auto simp: holder_def split: option.splits)
    have in_hold: "j < ?i" if "holder h k = Some j" for j
      using that old(1) by (auto simp: holder_def split: option.splits if_splits)
    have "displays ?h k c = displays h k c" for c
      unfolding displays_def hk same using in_hold by (cases "holder h k") auto
    moreover have "lf_pin (lives ?h k) = lf_pin (lives h k)" using False by simp
    ultimately show ?thesis using life_okD(2,3) [OF inv_life [OF I that]] old False
      unfolding life_ok_def by (simp add: less_Suc_eq) (metis less_irrefl)
  qed
  moreover have "wrapper_exporter ?h j = Some b \<Longrightarrow> b < n_exporters ?h" for j b
    using inv_scope(3) [OF I, of j b] by (auto split: if_splits)
  moreover have "dead ?h \<union> finalized ?h \<subseteq> {..<?i + 1}"
    using inv_scope(1,2) [OF I] by (auto simp: less_Suc_eq)
  ultimately show "inv ?h" unfolding inv_but_def using inv_warn [OF I] by simp
qed

lemma inv_unpin:
  assumes I: "inv h" and e: "e < n_lives h" and idle: "holder h e = None"
  shows "inv (upd_life e (\<lambda>l. l\<lparr>lf_pin := None\<rparr>) h)"
proof -
  let ?h = "upd_life e (\<lambda>l. l\<lparr>lf_pin := None\<rparr>) h"
  have no: "\<not> ls_active (leases h j)" if "j < n_leases h" "ls_endpoint (leases h j) = e" for j
    using active_facts(3) [OF I that(1)] idle that(2) by auto
  have same: "lf_ptr (lives ?h k) = lf_ptr (lives h k)" "lf_pid (lives ?h k) = lf_pid (lives h k)"
    "lf_poisoned (lives ?h k) = lf_poisoned (lives h k)" for k by simp_all
  have ex: "exported ?h j = exported h j" "noted ?h j = noted h j" for j by simp_all
  have g: "leases ?h = leases h" "exporters ?h = exporters h" "n_leases ?h = n_leases h" by simp_all
  have "lease_core ?h j" if "j < n_leases h" for j
  proof -
    have p: "lf_pin (lives ?h (ls_endpoint (leases h j))) = lf_pin (life_of h j)" if "ls_active (leases h j)"
      using no [OF \<open>j < n_leases h\<close>] that by auto
    show ?thesis using inv_lease [OF I that] p unfolding lease_core_def rooted_iff ex g same by simp
  qed
  moreover have "kept ?h j" if "j < n_leases h" for j
    using inv_kept [OF I that] unfolding kept_def ex g same by simp
  moreover have "exporter_core ?h b \<and> settled ?h b" if "b < n_exporters h" for b
    using inv_exporter [OF I that] unfolding exporter_core_def settled_def Let_def ex g same by simp
  moreover have "life_ok ?h k" if "k < n_lives h" for k
  proof -
    have pin: "lf_pin (lives ?h k) = (if k = e then None else lf_pin (lives h k))" by simp
    have hold: "holder ?h k = holder h k" unfolding holder_def pin g using idle by (simp add: holder_def)
    have "displays ?h k c = displays h k c" for c unfolding displays_def hold same g ..
    then show ?thesis using inv_life [OF I that] unfolding life_ok_def g pin same by simp
  qed
  ultimately show ?thesis using I unfolding inv_but_def by simp
qed

text \<open>The acquisition: what C wrote is adopted, or the endpoint is poisoned.\<close>

lemma acquire_inv:
  assumes I: "inv h" and e: "e < n_lives h" and idle: "holder h e = None" "\<not> lf_poisoned (lives h e)" "lf_ptr (lives h e) \<noteq> 0"
    and pid: "lf_pid (lives h e) = now_pid h"
    and i: "i < n_leases h" "lf_pin (lives h e) = Some i" "i \<notin> finalized h"
      "\<not> ls_view_pin (leases h i)" "\<not> ls_uncertain (leases h i)"
  shows "wp (acquire L e i w)
    (\<lambda>r h'. inv h' \<and> n_lives h' = n_lives h \<and> ls_active (leases h' i) = owns_token (ls_lease (leases h' i))
        \<and> lf_pin (lives h' e) = Some i
        \<and> (\<exists>x. fst (L ((if w then WriteReserve else ReadBorrow) (lf_ptr (lives h e))) (world h)) = Returned r x
            \<and> ls_lease (leases h' i) = o_lease x))
    (\<lambda>_ h'. inv h') h"
proof -
  let ?call = "(if w then WriteReserve else ReadBorrow) (lf_ptr (lives h e))"
  have ie: "ls_endpoint (leases h i) = e" using life_okD(1) [OF inv_life [OF I e] i(2)] by simp
  have act: "\<not> ls_active (leases h i)" using idle(1) i(2) by (simp add: holder_def split: if_splits)
  obtain c where c: "replay conn_start (map snd (calls h e)) = Some c" "may_acquire (lf_ptr (lives h e)) c" "displays h e c"
    by (rule idle_conn [OF I e idle])
  have st: "\<not> c_stuck c" "c_token c = None" using c(2) by (simp_all add: may_acquire_def)
  have vw: "\<not> c_view c" using displaysD(4) [OF c(3) st(1)] idle(1) by simp
  have step: "conn_step c (?call, a) = Some (on_acquire a c)" for a using c(2) by simp
  have others: "\<not> ls_active (leases h j)" if "j < n_leases h" "ls_endpoint (leases h j) = e" for j
    using active_facts(3) [OF I that(1)] idle(1) that(2) by auto
  have dead: "i \<notin> dead h" by (rule not_finalized_alive [OF I i(1,3)])
  have leaf: "inv h'" if el: "elsewhere i e h h'"
    and calls: "calls h' e = calls h e @ [(now_pid h, ?call, a)]"
    and l: "ls_view_pin (leases h' i) = ls_view_pin (leases h i)" "\<not> ls_acquiring (leases h' i)"
    and p: "lf_ptr (lives h' e) = lf_ptr (lives h e)" "lf_pin (lives h' e) = Some i"
    and out: "(\<exists>r x. a = Returned r x \<and> ls_lease (leases h' i) = o_lease x \<and> ls_active (leases h' i) = owns_token (o_lease x)
          \<and> \<not> ls_uncertain (leases h' i) \<and> \<not> lf_poisoned (lives h' e))
      \<or> (\<exists>y x. a = Interrupted y x \<and> lf_poisoned (lives h' e) \<and> noted h' i)" for h' a
  proof (rule inv_change [OF I el])
    have g: "n_lives h' = n_lives h" "dead h' = dead h" "finalized h' = finalized h" "n_leases h' = n_leases h" "ls_endpoint (leases h' i) = e"
      using el ie by (auto simp: elsewhere_def)
    show "lease_core h' i" unfolding lease_core_def g(5)
      using e idle(3) l i(4) p out dead by (auto simp: g)
    show "kept h' i" using l(1) i by (simp add: kept_def g)
    have hold: "holder h' e = (if ls_active (leases h' i) then Some i else None)" by (simp add: holder_def p)
    have "displays h' e (on_acquire a c)"
      by (rule displaysI [OF c(3) p(1)]) (use out st vw l i(4) in \<open>auto simp: hold split: if_splits\<close>)
    then show "life_ok h' e"
      by (rule life_after_call [OF c(1) step calls _ inv_life [OF I e]]) (use p i g el pid in \<open>auto simp: elsewhere_def\<close>)
  qed (use ie others l in auto)
  show ?thesis
    unfolding acquire_def wp_simps
    by (cases "fst (L ?call (world h))")
      (auto simp: wp_simps adopt_def Let_def i(2,5) idle(2) intro!: leaf [where a = "fst (L ?call (world h))"] elsewhereI)
qed

lemma endpoint_checked:
  assumes "\<And>u. ep_pid (endpoints h p) = now_pid h \<Longrightarrow> lf_ptr (lives h (ep_life (endpoints h p))) \<noteq> 0 \<Longrightarrow> Q u h" "\<And>x. E x h"
  shows "wp (endpoint_check p) Q E h"
  using assms by (simp add: endpoint_check_def wp_simps)

lemma obtain_lease_inv:
  assumes I: "inv h" and L: "empty_handed L" and e: "ep_life (endpoints h p) < n_lives h"
    and pid: "lf_pid (lives h (ep_life (endpoints h p))) = ep_pid (endpoints h p)"
  shows "wp (obtain_lease L p writing) (\<lambda>_ h'. inv h') (\<lambda>_ h'. inv h') h"
  unfolding obtain_lease_def wp_andthen
proof (rule endpoint_checked)
  let ?e = "ep_life (endpoints h p)" and ?i = "n_leases h"
  let ?h = "with_lease ?e writing h"
  assume own: "ep_pid (endpoints h p) = now_pid h" and ptr: "lf_ptr (lives h ?e) \<noteq> 0"
  let ?rest = "\<lambda>i r. bind (the_lease i) (\<lambda>s.
        if status r = 1 \<or> status r = 2 then andthen (unpin ?e) (ret None)
        else if status r \<noteq> 0 \<and> \<not> owns_token (ls_lease s)
        then andthen (unpin ?e)
          (andthen (check r (if writing then ''reserve'' else ''borrow'') (TheEndpoint p)) (ret None))
        else if status r \<noteq> 0
        then throw (Native EliteError r ''lease acquisition retained ownership'' (TheWrapper i))
        else ret (Some i))"
  have "wp (bind (acquire L ?e ?i writing) (?rest ?i)) (\<lambda>_ h'. inv h') (\<lambda>_ h'. inv h') ?h" if nb: "\<not> life_busy h ?e"
  proof -
    have pd: "lf_pid (lives h ?e) = now_pid h" using pid own by simp
    note idle = idle_endpoint [OF I e pd nb]
    have poi: "\<not> lf_poisoned (lives h ?e)" using nb by (simp add: life_busy_def)
    have h1: "inv ?h" "holder ?h ?e = None" using inv_with_lease [OF I e idle] by blast+
    have fresh: "?i \<notin> finalized h" using inv_scope(2) [OF I, of ?i] by blast
    show ?thesis unfolding wp_bind
      by (rule wp_mono [OF acquire_inv [OF h1(1) _ h1(2)]])
       (use e poi ptr fresh L pd in \<open>auto simp: wp_simps holder_def empty_handed_def intro!: inv_unpin split: if_splits\<close>)
  qed
  then show "wp (bind (gets (\<lambda>h. ep_life (endpoints h p))) (\<lambda>e. bind (gets (\<lambda>h. life_busy h e)) (\<lambda>busy.
      if busy then throw (Native BusyError busy_result ''one outstanding token per endpoint'' (TheEndpoint p))
      else bind (new_lease e writing) (\<lambda>i. bind (acquire L e i writing) (\<lambda>r. bind (the_lease i) (\<lambda>s.
        if status r = 1 \<or> status r = 2 then andthen (unpin e) (ret None)
        else if status r \<noteq> 0 \<and> \<not> owns_token (ls_lease s)
        then andthen (unpin e)
          (andthen (check r (if writing then ''reserve'' else ''borrow'') (TheEndpoint p)) (ret None))
        else if status r \<noteq> 0
        then throw (Native EliteError r ''lease acquisition retained ownership'' (TheWrapper i))
        else ret (Some i))))))) (\<lambda>_ h'. inv h') (\<lambda>_ h'. inv h') h"
    unfolding wp_bind wp_gets wp_if wp_new_lease wp_throw using I by presburger
qed (rule I)

end
