(* ===== verification/Pyvals.thy ===== *)
theory Pyvals
  imports Complex_Main Prelude "HOL-Library.AList"
begin

text \<open>
  The dynamically typed values the receipt verifiers of \<open>tools/\<close> read. A JSON document is parsed by
  the standard library's scanner into \<open>jtext\<close>, where an object is still its list of pairs; the
  \<open>object_pairs_hook\<close> and \<open>parse_constant\<close> callbacks of the tools turn it into a \<open>jvalue\<close> or
  raise. Dictionaries are association lists in insertion order, floats are exact rationals or an
  infinity (a JSON number may overflow to one), and every operation that may raise in Python returns
  a \<open>result\<close>. The collection \<open>accept\<close> unfolds the runs of a check that end without a raise.
\<close>

section \<open>Results\<close>

type_synonym 'a result = "exn + 'a"

definition ebind :: "'a result \<Rightarrow> ('a \<Rightarrow> 'b result) \<Rightarrow> 'b result" where
  "ebind m k = (case m of Inl e \<Rightarrow> Inl e | Inr a \<Rightarrow> k a)"

text \<open>\<open>need(condition, text)\<close> with the statements that follow it.\<close>

definition need :: "bool \<Rightarrow> string \<Rightarrow> 'a result \<Rightarrow> 'a result" where
  "need c msg k = (if c then k else Inl (ValueError msg))"

text \<open>A \<open>for\<close> loop over a list: with loop state, without, and as a comprehension.\<close>

fun efold :: "('s \<Rightarrow> 'a \<Rightarrow> 's result) \<Rightarrow> 's \<Rightarrow> 'a list \<Rightarrow> 's result" where
  "efold f s [] = Inr s"
| "efold f s (x # xs) = ebind (f s x) (\<lambda>t. efold f t xs)"

fun eall :: "('a \<Rightarrow> 'b result) \<Rightarrow> 'a list \<Rightarrow> unit result" where
  "eall f [] = Inr ()"
| "eall f (x # xs) = ebind (f x) (\<lambda>_. eall f xs)"

fun emap :: "('a \<Rightarrow> 'b result) \<Rightarrow> 'a list \<Rightarrow> 'b list result" where
  "emap f [] = Inr []"
| "emap f (x # xs) = ebind (f x) (\<lambda>y. ebind (emap f xs) (\<lambda>ys. Inr (y # ys)))"

text \<open>\<open>all(...)\<close> and \<open>any(...)\<close> over a generator: the first decisive element ends the evaluation.\<close>

fun every :: "('a \<Rightarrow> bool result) \<Rightarrow> 'a list \<Rightarrow> bool result" where
  "every f [] = Inr True"
| "every f (x # xs) = ebind (f x) (\<lambda>b. if b then every f xs else Inr False)"

fun some :: "('a \<Rightarrow> bool result) \<Rightarrow> 'a list \<Rightarrow> bool result" where
  "some f [] = Inr False"
| "some f (x # xs) = ebind (f x) (\<lambda>b. if b then Inr True else some f xs)"

text \<open>\<open>a and b\<close>, \<open>a or b\<close>: the right operand is evaluated only when it decides.\<close>

definition eand :: "bool result \<Rightarrow> bool result \<Rightarrow> bool result" where
  "eand a b = ebind a (\<lambda>x. if x then b else Inr False)"

definition eor :: "bool result \<Rightarrow> bool result \<Rightarrow> bool result" where
  "eor a b = ebind a (\<lambda>x. if x then Inr True else b)"

named_theorems accept \<open>what a check that did not raise has established\<close>

lemma ebind_simps [simp]: "ebind (Inl e) k = Inl e" "ebind (Inr a) k = k a"
  by (simp_all add: ebind_def)

lemma need_simps [simp]: "need True msg k = k" "need False msg k = Inl (ValueError msg)"
  by (simp_all add: need_def)

text \<open>Evaluation is by value: the continuation is simplified once its argument is known.\<close>

lemma ebind_cong [cong]: "m = m' \<Longrightarrow> ebind m k = ebind m' k"
  by simp

lemma need_cong [cong]: "c = c' \<Longrightarrow> need c msg k = need c' msg k"
  by simp

named_theorems evals \<open>definitions to unfold when a model is evaluated on a concrete input\<close>

lemmas by_value = let_weak_cong if_weak_cong sum.case_cong_weak option.case_cong_weak

lemma need_ok [accept]: "need c msg k = Inr r \<longleftrightarrow> c \<and> k = Inr r"
  by (simp add: need_def)

lemma ebind_ok [accept]: "ebind m k = Inr r \<longleftrightarrow> (\<exists>a. m = Inr a \<and> k a = Inr r)"
  by (cases m) simp_all

lemma eall_ok [accept]: "eall f xs = Inr u \<longleftrightarrow> (\<forall>x\<in>set xs. \<exists>y. f x = Inr y)"
  by (induction xs) (auto simp: accept)

lemma emap_ok: "emap f xs = Inr ys \<longleftrightarrow> list_all2 (\<lambda>x y. f x = Inr y) xs ys"
  by (induction xs arbitrary: ys) (auto simp: accept list_all2_Cons1)

lemma emap_cong [fundef_cong]: "xs = ys \<Longrightarrow> (\<And>x. x \<in> set ys \<Longrightarrow> f x = g x) \<Longrightarrow> emap f xs = emap g ys"
proof (induction ys arbitrary: xs)
  case (Cons y ys)
  have t: "emap f ys = emap g ys" using Cons.prems(2) by (intro Cons.IH) auto
  have h: "f y = g y" using Cons.prems(2) by simp
  show ?case unfolding Cons.prems(1) emap.simps t h ..
qed simp

lemma emap_length: "emap f xs = Inr ys \<Longrightarrow> length ys = length xs"
  by (auto simp: emap_ok dest: list_all2_lengthD)

lemma every_ok [accept]: "every f xs = Inr True \<longleftrightarrow> (\<forall>x\<in>set xs. f x = Inr True)"
  by (induction xs) (auto simp: accept split: if_splits)

lemma eand_ok [accept]: "eand a b = Inr True \<longleftrightarrow> a = Inr True \<and> b = Inr True"
  by (cases a) (auto simp: eand_def)

lemma eor_ok [accept]: "eor a b = Inr True \<longleftrightarrow> a = Inr True \<or> a = Inr False \<and> b = Inr True"
  by (cases a) (auto simp: eor_def)

lemma efold_append: "efold f s (xs @ ys) = ebind (efold f s xs) (\<lambda>t. efold f t ys)"
  by (induction xs arbitrary: s) (auto simp: ebind_def split: sum.splits)

lemma efold_invariant:
  assumes "efold f s xs = Inr t" "I s"
    "\<And>a x b. x \<in> set xs \<Longrightarrow> I a \<Longrightarrow> f a x = Inr b \<Longrightarrow> I b"
  shows "I t"
  using assms by (induction xs arbitrary: s) (auto simp: accept)

section \<open>Values\<close>

datatype jfloat = Fin rat | PosInf | NegInf

datatype jvalue =
    VNone
  | VBool bool
  | VInt int
  | VFloat jfloat
  | VStr string
  | VList "jvalue list"
  | VDict "(string \<times> jvalue) list"

type_synonym jdict = "(string \<times> jvalue) list"

text \<open>Python's \<open>==\<close>: booleans, integers and floats compare by their value; dictionaries by their
  entries, in any order.\<close>

fun num_of :: "jvalue \<Rightarrow> jfloat option" where
  "num_of (VBool b) = Some (Fin (of_bool b))"
| "num_of (VInt i) = Some (Fin (of_int i))"
| "num_of (VFloat x) = Some x"
| "num_of _ = None"

fun py_eq :: "jvalue \<Rightarrow> jvalue \<Rightarrow> bool"
  and list_eq :: "jvalue list \<Rightarrow> jvalue list \<Rightarrow> bool"
  and dict_in :: "jdict \<Rightarrow> jdict \<Rightarrow> bool" where
  "py_eq VNone w = (w = VNone)"
| "py_eq (VStr s) w = (w = VStr s)"
| "py_eq (VInt i) w = (case w of VInt j \<Rightarrow> i = j | _ \<Rightarrow> num_of w = Some (Fin (of_int i)))"
| "py_eq (VBool b) w = (num_of w = Some (Fin (of_bool b)))"
| "py_eq (VFloat x) w = (num_of w = Some x)"
| "py_eq (VList xs) w = (case w of VList ys \<Rightarrow> list_eq xs ys | _ \<Rightarrow> False)"
| "py_eq (VDict d) w = (case w of VDict d' \<Rightarrow> length d = length d' \<and> dict_in d d' | _ \<Rightarrow> False)"
| "list_eq [] ys = (ys = [])"
| "list_eq (x # xs) ys = (case ys of [] \<Rightarrow> False | y # ys' \<Rightarrow> py_eq x y \<and> list_eq xs ys')"
| "dict_in [] d' = True"
| "dict_in ((k, v) # d) d' = (case map_of d' k of None \<Rightarrow> False | Some w \<Rightarrow> py_eq v w \<and> dict_in d d')"

fun truthy :: "jvalue \<Rightarrow> bool" where
  "truthy VNone = False"
| "truthy (VBool b) = b"
| "truthy (VInt i) = (i \<noteq> 0)"
| "truthy (VFloat x) = (x \<noteq> Fin 0)"
| "truthy (VStr s) = (s \<noteq> [])"
| "truthy (VList xs) = (xs \<noteq> [])"
| "truthy (VDict d) = (d \<noteq> [])"

text \<open>Subscripts \<open>v['k']\<close> and \<open>v[i]\<close>, \<open>v.get('k', default)\<close>, \<open>len(v)\<close> and iteration.\<close>

fun item :: "jvalue \<Rightarrow> string \<Rightarrow> jvalue result" where
  "item (VDict d) k = (case map_of d k of None \<Rightarrow> Inl (KeyError k) | Some v \<Rightarrow> Inr v)"
| "item _ k = Inl (TypeError k)"

fun elem :: "jvalue \<Rightarrow> int \<Rightarrow> jvalue result" where
  "elem (VList xs) i = sub (Inl IndexError) xs i Inr"
| "elem (VStr s) i = sub (Inl IndexError) s i (\<lambda>c. Inr (VStr [c]))"
| "elem (VDict d) i = Inl (KeyError [])"
| "elem _ i = Inl (TypeError ''not subscriptable'')"

fun dget :: "jvalue \<Rightarrow> string \<Rightarrow> jvalue \<Rightarrow> jvalue result" where
  "dget (VDict d) k x = Inr (case map_of d k of None \<Rightarrow> x | Some v \<Rightarrow> v)"
| "dget _ k x = Inl AttributeError"

fun size_of :: "jvalue \<Rightarrow> int result" where
  "size_of (VList xs) = Inr (int (length xs))"
| "size_of (VStr s) = Inr (int (length s))"
| "size_of (VDict d) = Inr (int (length d))"
| "size_of _ = Inl (TypeError ''object has no len()'')"

fun iter :: "jvalue \<Rightarrow> jvalue list result" where
  "iter (VList xs) = Inr xs"
| "iter (VStr s) = Inr (map (\<lambda>c. VStr [c]) s)"
| "iter (VDict d) = Inr (map (\<lambda>e. VStr (fst e)) d)"
| "iter _ = Inl (TypeError ''object is not iterable'')"

text \<open>A value used as a number against numbers, as a dictionary, and tested by \<open>type(x) is ...\<close>.\<close>

fun number :: "jvalue \<Rightarrow> jfloat result" where
  "number v = (case num_of v of None \<Rightarrow> Inl (TypeError ''unsupported operand'') | Some x \<Rightarrow> Inr x)"

fun dict_items :: "jvalue \<Rightarrow> jdict result" where
  "dict_items (VDict d) = Inr d"
| "dict_items _ = Inl AttributeError"

fun is_int :: "jvalue \<Rightarrow> bool" where "is_int (VInt i) = True" | "is_int _ = False"
fun is_str :: "jvalue \<Rightarrow> bool" where "is_str (VStr s) = True" | "is_str _ = False"
fun is_list :: "jvalue \<Rightarrow> bool" where "is_list (VList xs) = True" | "is_list _ = False"
fun is_dict :: "jvalue \<Rightarrow> bool" where "is_dict (VDict d) = True" | "is_dict _ = False"
fun is_bool :: "jvalue \<Rightarrow> bool" where "is_bool (VBool b) = True" | "is_bool _ = False"

text \<open>\<open>type(v) is type(w) and v == w\<close> for a scalar \<open>w\<close>, and \<open>v is True\<close>, \<open>v is None\<close>, which are
  constructor equalities.\<close>

abbreviation U64 :: int where "U64 \<equiv> 2 ^ 64 - 1"

text \<open>\<open>need(type(x) is int and lo <= x <= hi)\<close>, returning the integer.\<close>

fun integer :: "jvalue \<Rightarrow> int \<Rightarrow> int \<Rightarrow> int result" where
  "integer (VInt i) lo hi = need (lo \<le> i \<and> i \<le> hi) ''invalid integer'' (Inr i)"
| "integer _ lo hi = Inl (ValueError ''invalid integer'')"

lemma integer_ok [accept]: "integer v lo hi = Inr i \<longleftrightarrow> v = VInt i \<and> lo \<le> i \<and> i \<le> hi"
  by (cases v) (auto simp: accept)

text \<open>A field read as a checked integer.\<close>

abbreviation uint_field :: "jvalue \<Rightarrow> string \<Rightarrow> int \<Rightarrow> int \<Rightarrow> int result" where
  "uint_field e k lo hi \<equiv> ebind (item e k) (\<lambda>v. integer v lo hi)"

text \<open>A value used where an index or an integer operand is needed.\<close>

fun index :: "jvalue \<Rightarrow> int result" where
  "index (VInt i) = Inr i"
| "index (VBool b) = Inr (of_bool b)"
| "index _ = Inl (TypeError ''object cannot be interpreted as an integer'')"

text \<open>The elements of a value of the given length; a value without a length or elements raises.\<close>

definition elements :: "jvalue \<Rightarrow> jvalue list result" where
  "elements v = ebind (size_of v) (\<lambda>n. iter v)"

lemma py_eq_int [simp]: "py_eq (VInt i) (VInt j) \<longleftrightarrow> i = j"
  by simp

lemma item_ok [accept]: "item v k = Inr w \<longleftrightarrow> (\<exists>d. v = VDict d \<and> map_of d k = Some w)"
  by (cases v) (auto split: option.splits)

lemma iter_PList [accept]: "iter (VList xs) = Inr ys \<longleftrightarrow> ys = xs"
  by auto

lemma case_str_ok [accept]: "(case v of VStr s \<Rightarrow> Inr s | _ \<Rightarrow> Inl e) = Inr x \<longleftrightarrow> v = VStr x"
  by (cases v) auto

lemma case_list_ok [accept]: "(case v of VList xs \<Rightarrow> Inr xs | _ \<Rightarrow> Inl e) = Inr x \<longleftrightarrow> v = VList x"
  by (cases v) auto

text \<open>\<open>json.loads\<close> with the callbacks of the tools: an object whose pairs repeat a key and the
  constants \<open>NaN\<close>, \<open>Infinity\<close>, \<open>-Infinity\<close> are refused.\<close>

datatype jtext =
    JNull
  | JBool bool
  | JInt int
  | JFloat jfloat
  | JConstant string
  | JStr string
  | JArray "jtext list"
  | JObject "(string \<times> jtext) list"

fun object_pairs :: "jdict \<Rightarrow> jdict \<Rightarrow> jdict result" where
  "object_pairs [] out = Inr out"
| "object_pairs ((k, v) # ps) out =
     need (k \<notin> fst ` set out) ''duplicate JSON key'' (object_pairs ps (out @ [(k, v)]))"

fun loads :: "jtext \<Rightarrow> jvalue result"
  and loads_list :: "jtext list \<Rightarrow> jvalue list result"
  and loads_pairs :: "(string \<times> jtext) list \<Rightarrow> jdict result" where
  "loads JNull = Inr VNone"
| "loads (JBool b) = Inr (VBool b)"
| "loads (JInt i) = Inr (VInt i)"
| "loads (JFloat x) = Inr (VFloat x)"
| "loads (JConstant s) = Inl (ValueError (''nonfinite: '' @ s))"
| "loads (JStr s) = Inr (VStr s)"
| "loads (JArray xs) = ebind (loads_list xs) (\<lambda>vs. Inr (VList vs))"
| "loads (JObject ps) = ebind (loads_pairs ps) (\<lambda>kvs. ebind (object_pairs kvs []) (\<lambda>d. Inr (VDict d)))"
| "loads_list [] = Inr []"
| "loads_list (x # xs) = ebind (loads x) (\<lambda>v. ebind (loads_list xs) (\<lambda>vs. Inr (v # vs)))"
| "loads_pairs [] = Inr []"
| "loads_pairs ((k, x) # ps) = ebind (loads x) (\<lambda>v. ebind (loads_pairs ps) (\<lambda>kvs. Inr ((k, v) # kvs)))"

text \<open>\<open>v in {'a', 'b'}\<close> hashes \<open>v\<close>, which raises for a list or a dictionary; \<open>v in ('a', 'b')\<close> does
  not.\<close>

fun in_set_of :: "jvalue \<Rightarrow> string list \<Rightarrow> bool result" where
  "in_set_of (VStr s) ss = Inr (s \<in> set ss)"
| "in_set_of (VList xs) ss = Inl (TypeError ''unhashable type'')"
| "in_set_of (VDict d) ss = Inl (TypeError ''unhashable type'')"
| "in_set_of v ss = Inr False"

definition in_tuple :: "jvalue \<Rightarrow> string list \<Rightarrow> bool" where
  "in_tuple v ss = list_ex (\<lambda>s. v = VStr s) ss"

text \<open>\<open>'k' in d\<close> for a dictionary.\<close>

definition has_key :: "string \<Rightarrow> jdict \<Rightarrow> bool" where
  "has_key k d = (map_of d k \<noteq> None)"

text \<open>The documents the hooks accept: no repeated key and no constant at any depth.\<close>

fun well_formed :: "jtext \<Rightarrow> bool" where
  "well_formed (JConstant s) = False"
| "well_formed (JArray xs) = (\<forall>x\<in>set xs. well_formed x)"
| "well_formed (JObject ps) = (distinct (map fst ps) \<and> (\<forall>p\<in>set ps. well_formed (snd p)))"
| "well_formed _ = True"

lemma object_pairs_ok:
  "object_pairs ps out = Inr d \<longleftrightarrow>
     d = out @ ps \<and> distinct (map fst ps) \<and> fst ` set ps \<inter> fst ` set out = {}"
proof (induction ps arbitrary: out d)
  case (Cons p ps)
  obtain k v where [simp]: "p = (k, v)" by (cases p)
  show ?case using Cons.IH [of "out @ [(k, v)]" d] by (simp add: need_ok) blast
qed auto

lemma loads_keys: "loads_pairs ps = Inr kvs \<Longrightarrow> map fst kvs = map fst ps"
  by (induction ps arbitrary: kvs) (auto simp: accept)

lemma loads_total:
  "(\<exists>v. loads j = Inr v) \<longleftrightarrow> well_formed j"
  "(\<exists>vs. loads_list js = Inr vs) \<longleftrightarrow> (\<forall>x\<in>set js. well_formed x)"
  "(\<exists>kvs. loads_pairs ps = Inr kvs) \<longleftrightarrow> (\<forall>p\<in>set ps. well_formed (snd p))"
proof (induction j and js and ps rule: loads_loads_list_loads_pairs.induct)
  case (8 ps)
  have "distinct (map fst kvs) \<longleftrightarrow> distinct (map fst ps)" if "loads_pairs ps = Inr kvs" for kvs
    by (simp add: loads_keys [OF that])
  with 8 show ?case by (auto simp: ebind_ok object_pairs_ok)
qed (auto simp: ebind_ok)

text \<open>The lookup \<open>d[k]\<close> of a dictionary kept as an association list, and a value used as a key where
  the keys are integers: an unhashable value raises, a number equal to an integer is that key.\<close>

definition at_key :: "('k \<times> 'v) list \<Rightarrow> 'k \<Rightarrow> 'v result" where
  "at_key d k = (case map_of d k of None \<Rightarrow> Inl (KeyError []) | Some v \<Rightarrow> Inr v)"

fun hashable :: "jvalue \<Rightarrow> unit result" where
  "hashable (VList xs) = Inl (TypeError ''unhashable type'')"
| "hashable (VDict d) = Inl (TypeError ''unhashable type'')"
| "hashable v = Inr ()"

definition int_key :: "jvalue \<Rightarrow> int option result" where
  "int_key v = ebind (hashable v) (\<lambda>_. Inr (case num_of v of
     Some (Fin q) \<Rightarrow> if of_int \<lfloor>q\<rfloor> = q then Some \<lfloor>q\<rfloor> else None | _ \<Rightarrow> None))"

definition keys :: "('k \<times> 'v) list \<Rightarrow> 'k list" where
  "keys d = map fst d"

lemma at_key_ok [accept]: "at_key d k = Inr v \<longleftrightarrow> map_of d k = Some v"
  by (auto simp: at_key_def split: option.splits)

section \<open>Bytes\<close>

fun hexdigit :: "char \<Rightarrow> int option" where
  "hexdigit c = map_of (zip ''0123456789abcdef'' (map int [0..<16])) c"

definition all_hex :: "string \<Rightarrow> bool" where
  "all_hex s = list_all (\<lambda>c. hexdigit c \<noteq> None) s"

text \<open>\<open>bytes.fromhex\<close> on lower-case digits without blanks, \<open>int.from_bytes(b, 'little')\<close> and a slice.\<close>

fun hex_bytes :: "string \<Rightarrow> int list result" where
  "hex_bytes [] = Inr []"
| "hex_bytes [c] = Inl (ValueError ''non-hexadecimal number found'')"
| "hex_bytes (c # d # s) =
     (case (hexdigit c, hexdigit d) of
        (Some x, Some y) \<Rightarrow> ebind (hex_bytes s) (\<lambda>bs. Inr ((16 * x + y) # bs))
      | _ \<Rightarrow> Inl (ValueError ''non-hexadecimal number found''))"

fun le_int :: "int list \<Rightarrow> int" where
  "le_int [] = 0"
| "le_int (b # bs) = b + 256 * le_int bs"

definition slice :: "'a list \<Rightarrow> nat \<Rightarrow> nat \<Rightarrow> 'a list" where
  "slice xs i j = take (j - i) (drop i xs)"

fun chunked :: "nat \<Rightarrow> 'a list \<Rightarrow> 'a list list" where
  "chunked n xs = (if xs = [] \<or> n = 0 then [] else take n xs # chunked n (drop n xs))"

declare chunked.simps [simp del]

text \<open>\<open>int.bit_count\<close>.\<close>

fun bit_count :: "nat \<Rightarrow> nat" where
  "bit_count n = (if n = 0 then 0 else n mod 2 + bit_count (n div 2))"

declare bit_count.simps [simp del]

end
