(* ===== verification/Floats.thy ===== *)
theory Floats
  imports Pyvals
begin

text \<open>
  Python floats as the verifiers use them: IEEE-754 binary64 values are exact rationals, \<open>float(q)\<close>
  rounds a fraction to the nearest one with ties to even and raises when it is too large, and
  \<open>math.ulp(x)\<close> is the spacing at \<open>x\<close>.
\<close>

definition pow2 :: "int \<Rightarrow> rat" where
  "pow2 k = (if 0 \<le> k then 2 ^ nat k else 1 / 2 ^ nat (- k))"

fun bit_length :: "nat \<Rightarrow> nat" where
  "bit_length n = (if n = 0 then 0 else Suc (bit_length (n div 2)))"

declare bit_length.simps [simp del]

text \<open>The exponent \<open>e\<close> with \<open>2^e \<le> q < 2^(e+1)\<close> of a positive fraction.\<close>

definition ilog2 :: "rat \<Rightarrow> int" where
  "ilog2 q = (case quotient_of q of (a, b) \<Rightarrow>
     let k = int (bit_length (nat a)) - int (bit_length (nat b)) in if pow2 k \<le> q then k else k - 1)"

text \<open>The exponent of the last of the 53 bits of a value, limited by the subnormal range.\<close>

definition unit_exp :: "rat \<Rightarrow> int" where
  "unit_exp q = max (ilog2 \<bar>q\<bar> - 52) (-1074)"

definition round_even :: "rat \<Rightarrow> int" where
  "round_even x = (let f = \<lfloor>x\<rfloor>; d = x - of_int f
     in if d < 1 / 2 then f else if 1 / 2 < d then f + 1 else if even f then f else f + 1)"

definition float_limit :: rat where "float_limit = pow2 1024"

definition to_float :: "rat \<Rightarrow> rat result" where
  "to_float q =
     (if q = 0 then Inr 0
      else let u = pow2 (unit_exp q); r = of_int (round_even (q / u)) * u
           in if float_limit \<le> \<bar>r\<bar> then Inl OverflowError else Inr r)"

definition ulp :: "rat \<Rightarrow> rat" where
  "ulp x = (if x = 0 then pow2 (-1074) else pow2 (unit_exp x))"

text \<open>\<open>type(v) in (int, float)\<close>, \<open>math.isfinite(v)\<close> (which converts an integer to a float) and the
  exact value \<open>Fraction(v)\<close> of a finite number.\<close>

fun is_numeric :: "jvalue \<Rightarrow> bool" where
  "is_numeric (VInt i) = True"
| "is_numeric (VFloat x) = True"
| "is_numeric _ = False"

fun is_finite :: "jvalue \<Rightarrow> bool result" where
  "is_finite (VInt i) = ebind (to_float (of_int i)) (\<lambda>_. Inr True)"
| "is_finite (VBool b) = Inr True"
| "is_finite (VFloat (Fin x)) = Inr True"
| "is_finite (VFloat _) = Inr False"
| "is_finite _ = Inl (TypeError ''must be real number'')"

fun exact :: "jvalue \<Rightarrow> rat result" where
  "exact (VInt i) = Inr (of_int i)"
| "exact (VBool b) = Inr (of_bool b)"
| "exact (VFloat (Fin x)) = Inr x"
| "exact (VFloat _) = Inl OverflowError"
| "exact _ = Inl (TypeError ''argument should be a string or a Rational instance'')"

section \<open>Rounding is to the nearest value\<close>

lemma pow2_pos [simp]: "0 < pow2 k"
  by (simp add: pow2_def)

lemma pow2_nonzero [simp]: "pow2 k \<noteq> 0"
  by (simp add: pow2_def)

lemma pow2_Suc: "pow2 (k + 1) = 2 * pow2 k"
proof (cases "0 \<le> k")
  case False
  then have "nat (- k) = Suc (nat (- (k + 1)))" by linarith
  then have "(2::rat) ^ nat (- k) = 2 * 2 ^ nat (- (k + 1))" by simp
  with False show ?thesis by (cases "k = -1") (auto simp: pow2_def field_simps)
qed (simp add: pow2_def nat_add_distrib)

lemma round_even_near: "\<bar>of_int (round_even x) - x\<bar> \<le> 1 / 2"
  using floor_correct [of x] by (auto simp: round_even_def Let_def abs_le_iff)

lemma to_float_near:
  assumes "to_float q = Inr r"
  shows "\<bar>r - q\<bar> \<le> pow2 (unit_exp q) / 2"
proof (cases "q = 0")
  case False
  let ?u = "pow2 (unit_exp q)"
  have r: "r = of_int (round_even (q / ?u)) * ?u"
    using assms False by (auto simp: to_float_def Let_def split: if_splits)
  have "r - q = (of_int (round_even (q / ?u)) - q / ?u) * ?u"
    by (simp add: r left_diff_distrib)
  then have "\<bar>r - q\<bar> = \<bar>of_int (round_even (q / ?u)) - q / ?u\<bar> * ?u" by (simp add: abs_mult abs_of_pos)
  then show ?thesis using mult_right_mono [OF round_even_near [of "q / ?u"], of ?u] less_imp_le [OF pow2_pos, of "unit_exp q"] by simp
qed (use assms less_imp_le [OF pow2_pos] in \<open>simp add: to_float_def\<close>)

lemma bit_length_bounds: "0 < n \<Longrightarrow> 2 ^ (bit_length n - 1) \<le> n \<and> n < 2 ^ bit_length n \<and> 0 < bit_length n"
proof (induction n rule: bit_length.induct)
  case (1 n)
  show ?case
  proof (cases "n = 1")
    case False
    with 1 have IH: "2 ^ (bit_length (n div 2) - 1) \<le> n div 2" "n div 2 < 2 ^ bit_length (n div 2)"
      "0 < bit_length (n div 2)" by auto
    then obtain m where "bit_length (n div 2) = Suc m" by (cases "bit_length (n div 2)") auto
    with IH 1(2) show ?thesis by (subst (1 2 3) bit_length.simps) auto
  qed (simp add: bit_length.simps)
qed

lemma pow2_diff: "pow2 (int m - int n) = 2 ^ m / 2 ^ n"
  by (cases "n \<le> m") (auto simp: pow2_def power_diff field_simps simp flip: of_nat_diff power_add)

lemma ilog2_bounds:
  assumes "0 < q"
  shows "pow2 (ilog2 q) \<le> q \<and> q < pow2 (ilog2 q + 1)"
proof -
  obtain a b where ab: "quotient_of q = (a, b)" by (cases "quotient_of q")
  have q: "q = of_int a / of_int b" and b: "0 < b" using quotient_of_div [OF ab] quotient_of_denom_pos [OF ab] by auto
  have a: "0 < a" using assms b by (simp add: q zero_less_divide_iff)
  define m where "m = bit_length (nat a)" define n where "n = bit_length (nat b)"
  have "2 ^ (m - 1) \<le> nat a" "nat a < 2 ^ m" "0 < m" "2 ^ (n - 1) \<le> nat b" "nat b < 2 ^ n" "0 < n"
    using bit_length_bounds [of "nat a"] bit_length_bounds [of "nat b"] a b by (auto simp: m_def n_def)
  then obtain m' n' where mn: "m = Suc m'" "n = Suc n'" "2 ^ m' \<le> nat a" "nat a < 2 ^ m" "2 ^ n' \<le> nat b" "nat b < 2 ^ n"
    by (cases m; cases n) auto
  have A: "(2::rat) ^ m' \<le> of_int a" "of_int a < (2::rat) ^ m" "(2::rat) ^ n' \<le> of_int b" "of_int b < (2::rat) ^ n"
    using mn(3-6) a b by (metis of_int_of_nat_eq of_nat_le_iff of_nat_less_iff of_nat_numeral of_nat_power int_nat_eq order_less_imp_le)+
  have "q < 2 ^ m / 2 ^ n'" unfolding q using A a b by (intro frac_less) auto
  moreover have "2 ^ m' / 2 ^ n < q" unfolding q using A a b by (intro frac_less2) auto
  ultimately have "q < pow2 (int m - int n + 1)" "pow2 (int m - int n - 1) < q"
    using pow2_diff [of m n'] pow2_diff [of m' n] mn(1,2) by (simp_all add: algebra_simps)
  then show ?thesis by (auto simp: ilog2_def ab Let_def m_def n_def)
qed

lemma pow2_mono: "j \<le> k \<Longrightarrow> pow2 j \<le> pow2 k"
proof (induction k rule: int_ge_induct)
  case (step k)
  then show ?case using less_imp_le [OF pow2_pos, of k] by (simp add: pow2_Suc)
qed simp

lemma round_even_int [simp]: "round_even (of_int i) = i"
  by (simp add: round_even_def)

text \<open>Integers below \<open>2^53\<close> are floats.\<close>

lemma to_float_of_int:
  assumes "\<bar>i\<bar> < 2 ^ 53"
  shows "to_float (of_int i) = Inr (of_int i)"
proof (cases "i = 0")
  case False
  let ?q = "of_int i :: rat"
  have small: "\<not> pow2 53 \<le> \<bar>?q\<bar>"
  proof -
    have "pow2 53 = of_int (2 ^ 53)" by (simp add: pow2_def)
    then show ?thesis using assms by (simp only: of_int_abs [symmetric] of_int_le_iff not_le)
  qed
  have "\<not> 53 \<le> ilog2 \<bar>?q\<bar>"
    using small pow2_mono [of 53 "ilog2 \<bar>?q\<bar>"] ilog2_bounds [of "\<bar>?q\<bar>"] False by force
  then have "unit_exp ?q \<le> 0" by (simp add: unit_exp_def)
  then have u: "?q / pow2 (unit_exp ?q) = of_int (i * 2 ^ nat (- unit_exp ?q))"
    by (cases "unit_exp ?q = 0") (auto simp: pow2_def)
  have "of_int (round_even (?q / pow2 (unit_exp ?q))) * pow2 (unit_exp ?q) = ?q"
    unfolding u round_even_int unfolding u [symmetric] by simp
  moreover have "\<not> float_limit \<le> \<bar>?q\<bar>"
    using small pow2_mono [of 53 1024] by (simp add: float_limit_def)
  ultimately show ?thesis using False by (simp add: to_float_def Let_def)
qed (simp add: to_float_def)

lemma ulp_pos [simp]: "0 < ulp x"
  by (simp add: ulp_def)

end
