(* ===== verification/Binding_Managers.thy ===== *)
theory Binding_Managers
  imports Complex_Main Floats Binding_Leases
begin

text \<open>
  Managers and endpoints of the binding: \<open>_Authority\<close>, \<open>EliteShm\<close>, the constructor of \<open>_Endpoint\<close>,
  \<open>_wait_obtain\<close> and the callback at exit. The random identities and the clocks are arguments. A loop
  over a clock takes the list of its readings; its value is \<open>None\<close> when it is still polling after the
  last one.
\<close>

section \<open>Allocation\<close>

definition new_authority :: "'w native \<Rightarrow> 8 word list \<Rightarrow> 8 word list \<Rightarrow> nat \<Rightarrow> ('w, nat) py" where
  "new_authority L host authority max_backing_bytes =
     bind (gets n_authorities) (\<lambda>u.
     andthen (modify (\<lambda>h. h\<lparr>n_authorities := u + 1, authorities := (authorities h)(u :=
        \<lparr>au_pid = now_pid h, au_ptr = 0, au_objects = [], au_max = max_backing_bytes\<rparr>)\<rparr>))
     (bind (ffi L (AuthorityCreate host authority max_backing_bytes)) (\<lambda>ans.
      andthen (modify (\<lambda>h. h\<lparr>authorities := (authorities h)(u := (authorities h u)\<lparr>au_ptr := o_ptr (out_of ans)\<rparr>)\<rparr>))
      (bind (result_of ans) (\<lambda>r. andthen (check r ''authority_create'' NoResource) (ret u))))))"

definition new_object_life :: "nat \<Rightarrow> ('w, nat) py" where
  "new_object_life u = (\<lambda>h. let x = n_objects h in
     (Inr x, h\<lparr>n_objects := x + 1, objects := (objects h)(x :=
        \<lparr>ol_ptr = 0, ol_authority = u, ol_pid = now_pid h, ol_connections = [], ol_close_requested = False\<rparr>)\<rparr>))"

definition new_life :: "nat option \<Rightarrow> ('w, nat) py" where
  "new_life owner = (\<lambda>h. let e = n_lives h in
     (Inr e, h\<lparr>n_lives := e + 1, calls := (calls h)(e := []),
        lives := (lives h)(e := \<lparr>lf_ptr = 0, lf_pid = now_pid h, lf_owner = owner, lf_pin = None, lf_receipt = None,
          lf_close_requested = False, lf_poisoned = False\<rparr>),
        objects := (case owner of None \<Rightarrow> objects h
          | Some x \<Rightarrow> (objects h)(x := (objects h x)\<lparr>ol_connections := ol_connections (objects h x) @ [e]\<rparr>))\<rparr>))"

definition set_shm :: "nat \<Rightarrow> (shm \<Rightarrow> shm) \<Rightarrow> ('w, unit) py" where
  "set_shm s f = modify (\<lambda>h. h\<lparr>shms := (shms h)(s := f (shms h s))\<rparr>)"

definition set_endpoint :: "nat \<Rightarrow> (endpoint \<Rightarrow> endpoint) \<Rightarrow> ('w, unit) py" where
  "set_endpoint p f = modify (\<lambda>h. h\<lparr>endpoints := (endpoints h)(p := f (endpoints h p))\<rparr>)"

section \<open>The constructor of a manager\<close>

record shm_config =
  cf_spsc :: bool
  cf_capacity :: nat
  cf_max_payload :: nat
  cf_producers :: nat
  cf_consumers :: nat
  cf_checksum :: bool
  cf_parkable :: bool
  cf_max_backing :: nat

text \<open>The validation of the arguments, in its order.\<close>

definition shm_args :: "string \<Rightarrow> pyval \<Rightarrow> pyval \<Rightarrow> pyval \<Rightarrow> pyval \<Rightarrow> bool \<Rightarrow> bool \<Rightarrow> pyval \<Rightarrow> exn + shm_config" where
  "shm_args mode capacity max_payload producers consumers checksum parkable max_backing_bytes =
     (if mode \<notin> {''spsc'', ''ncq''} then Inl (ValueError ''mode must be spsc or ncq'')
      else case py_uint capacity 64 ''capacity'' of Inl e \<Rightarrow> Inl e | Inr cap \<Rightarrow>
      (case py_uint max_payload 32 ''max_payload'' of Inl e \<Rightarrow> Inl e | Inr pay \<Rightarrow>
      (case py_uint producers 32 ''producers'' of Inl e \<Rightarrow> Inl e | Inr np \<Rightarrow>
      (case py_uint consumers 32 ''consumers'' of Inl e \<Rightarrow> Inl e | Inr nc \<Rightarrow>
      (case py_uint max_backing_bytes 64 ''max_backing_bytes'' of Inl e \<Rightarrow> Inl e | Inr backing \<Rightarrow>
        if \<not> (1 \<le> np \<and> np \<le> cap) \<or> \<not> (1 \<le> nc \<and> nc \<le> cap) \<or> np + nc > cap
        then Inl (ValueError ''positive endpoint counts must sum to at most capacity'')
        else if mode = ''spsc'' \<and> (np \<noteq> 1 \<or> nc \<noteq> 1) then Inl (ValueError ''SPSC requires 1P/1C'')
        else if parkable \<and> mode \<noteq> ''spsc'' then Inl (ValueError ''MPMC parking is not an admitted protocol'')
        else Inr \<lparr>cf_spsc = (mode = ''spsc''), cf_capacity = cap, cf_max_payload = pay, cf_producers = np,
          cf_consumers = nc, cf_checksum = checksum, cf_parkable = parkable, cf_max_backing = backing\<rparr>)))))"

definition native_config :: "shm_config \<Rightarrow> nat \<Rightarrow> cval list" where
  "native_config cf time_ns =
     [CInt (if cf_spsc cf then 1 else 2), CInt (if cf_parkable cf then 1 else 0), CInt (if cf_checksum cf then 1 else 0),
      CInt (cf_max_payload cf), CInt (cf_capacity cf), CInt (cf_producers cf), CInt (cf_consumers cf),
      CInt (time_ns mod 2 ^ 64)]"

text \<open>\<open>uuid k\<close> is the \<open>k\<close>-th random identity drawn.\<close>

definition native_definitions :: "shm_config \<Rightarrow> (nat \<Rightarrow> 8 word list) \<Rightarrow> cval list list" where
  "native_definitions cf uuid = map (\<lambda>i.
     [CBytes (uuid (2 * i)), CBytes (uuid (2 * i + 1)), CInt (if i < cf_producers cf then 1 else 2)])
     [0..<cf_producers cf + cf_consumers cf]"

definition new_shm :: "nat \<Rightarrow> nat \<Rightarrow> shm_config \<Rightarrow> ('w, nat) py" where
  "new_shm u x cf = (\<lambda>h. let s = n_shms h in
     (Inr s, h\<lparr>n_shms := s + 1, shms := (shms h)(s :=
        \<lparr>sh_pid = now_pid h, sh_authority = u, sh_life = x, sh_local = [], sh_issued = [], sh_spsc = cf_spsc cf,
         sh_capacity = cf_capacity cf, sh_max_payload = cf_max_payload cf, sh_producers = cf_producers cf,
         sh_consumers = cf_consumers cf, sh_checksum = cf_checksum cf, sh_parkable = cf_parkable cf, sh_session = []\<rparr>)\<rparr>))"

definition create_shm :: "'w native \<Rightarrow> shm_config \<Rightarrow> nat \<Rightarrow> (nat \<Rightarrow> 8 word list) \<Rightarrow> nat \<Rightarrow> ('w, nat) py" where
  "create_shm L cf time_ns uuid u =
     bind (new_object_life u) (\<lambda>x. bind (new_shm u x cf) (\<lambda>s.
     andthen (authority_check u)
     (bind (gets (\<lambda>h. au_ptr (authorities h u))) (\<lambda>ap.
      bind (ffi L (Create ap (native_config cf time_ns) (native_definitions cf uuid))) (\<lambda>ans.
      andthen (set_object x (\<lambda>o1. o1\<lparr>ol_ptr := o_ptr (out_of ans)\<rparr>))
      (bind (result_of ans) (\<lambda>r. andthen (check r ''create'' (TheShm s))
      (bind (ffi L (Activate (o_ptr (out_of ans)))) (\<lambda>ans2. bind (result_of ans2) (\<lambda>r2.
       andthen (check r2 ''activate'' (TheShm s))
      (bind (ffi L (BindingInfo 0 (o_ptr (out_of ans)))) (\<lambda>ans3. bind (result_of ans3) (\<lambda>r3.
       andthen (check r3 ''object_info'' (TheShm s))
      (andthen (set_shm s (\<lambda>m. m\<lparr>sh_session := snd (snd (o_info (out_of ans3)))\<rparr>))
      (andthen (modify (\<lambda>h. h\<lparr>authorities := (authorities h)(u := (authorities h u)\<lparr>au_objects := au_objects (authorities h u) @ [s]\<rparr>),
          live_shms := live_shms h @ [s]\<rparr>))
      (ret s))))))))))))))))"

text \<open>\<open>EliteShm(...)\<close>; a successor passes its authority.\<close>

definition EliteShm :: "'w native \<Rightarrow> string \<Rightarrow> pyval \<Rightarrow> pyval \<Rightarrow> pyval \<Rightarrow> pyval \<Rightarrow> bool \<Rightarrow> bool \<Rightarrow> pyval \<Rightarrow>
    nat option \<Rightarrow> nat \<Rightarrow> (nat \<Rightarrow> 8 word list) \<Rightarrow> ('w, nat) py" where
  "EliteShm L mode capacity max_payload producers consumers checksum parkable max_backing_bytes authority time_ns uuid =
     bind (lift_sum Python (shm_args mode capacity max_payload producers consumers checksum parkable max_backing_bytes)) (\<lambda>cf.
     bind (case authority of Some u \<Rightarrow> ret u | None \<Rightarrow> new_authority L (uuid 0) (uuid 1) (cf_max_backing cf)) (\<lambda>u.
     create_shm L cf time_ns (\<lambda>k. uuid (k + 2)) u))"

section \<open>Operations of a manager\<close>

definition shm_ptr :: "'w heap \<Rightarrow> nat \<Rightarrow> nat" where
  "shm_ptr h s = ol_ptr (objects h (sh_life (shms h s)))"

definition shm_check :: "nat \<Rightarrow> ('w, unit) py" where
  "shm_check s = bind getpid (\<lambda>pid. bind (gets (\<lambda>h. shms h s)) (\<lambda>m. bind (gets (\<lambda>h. shm_ptr h s)) (\<lambda>ptr.
     andthen (guard (sh_pid m = pid) (Python (RuntimeError ''inherited mapping authority: spawn/exec required'')))
     (andthen (authority_check (sh_authority m))
     (guard (ptr \<noteq> 0) (Python (RuntimeError ''shared-memory generation is closed'')))))))"

definition valid_pid :: "pyval \<Rightarrow> int option" where
  "valid_pid v = (case v of PInt i \<Rightarrow> if 0 < i \<and> i < 2 ^ 31 then Some i else None | _ \<Rightarrow> None)"

definition shm_grant :: "'w native \<Rightarrow> nat \<Rightarrow> pyval \<Rightarrow> pyval \<Rightarrow> ('w, (string \<times> pyval) list) py" where
  "shm_grant L s endpoint_index pid =
     bind (lift_sum Python (py_uint endpoint_index 32 ''endpoint_index'')) (\<lambda>i.
     bind (gets (\<lambda>h. shms h s)) (\<lambda>m. bind getpid (\<lambda>own.
     andthen (guard (i < sh_producers m + sh_consumers m) (Python (ValueError ''invalid endpoint index'')))
     (case valid_pid (if pid = PNone then PInt own else pid) of
        None \<Rightarrow> throw (Python (ValueError ''invalid pid''))
      | Some k \<Rightarrow>
          andthen (shm_check s)
          (andthen (guard (i \<notin> fst ` set (sh_issued m)) (Python (ValueError ''endpoint grant is one-shot'')))
          (bind (gets (\<lambda>h. shm_ptr h s)) (\<lambda>ptr.
           bind (ffi L (RegisterProcess ptr i k)) (\<lambda>ans. bind (result_of ans) (\<lambda>r.
           andthen (check r ''register_process'' (TheShm s))
           (bind (ffi L (ObjectGrant ptr i)) (\<lambda>ans2. bind (result_of ans2) (\<lambda>r2.
            andthen (check r2 ''grant'' (TheShm s))
            (andthen (set_shm s (\<lambda>m2. m2\<lparr>sh_issued := sh_issued m2 @ [(i, k)]\<rparr>))
            (lift_sum Python (encode Grant_fields (o_struct (out_of ans2)))))))))))))))))"

text \<open>\<open>getattr(native, name)\<close> of an integer field.\<close>

definition int_field :: "cfields \<Rightarrow> cval list \<Rightarrow> string \<Rightarrow> nat" where
  "int_field fs vs name = (case map_of (zip (map fst fs) vs) name of Some (CInt i) \<Rightarrow> i | _ \<Rightarrow> 0)"

text \<open>\<open>_Endpoint(grant, _owner=owner)\<close> of the class with the given role and profile.\<close>

definition new_endpoint :: "'w native \<Rightarrow> nat \<Rightarrow> nat \<Rightarrow> pyval \<Rightarrow> nat option \<Rightarrow> ('w, nat) py" where
  "new_endpoint L role profile grant owner =
     bind (gets (\<lambda>h. map_option (\<lambda>s. sh_life (shms h s)) owner)) (\<lambda>x.
     bind (new_life x) (\<lambda>e. bind (gets n_endpoints) (\<lambda>p.
     andthen (modify (\<lambda>h. h\<lparr>n_endpoints := p + 1, endpoints := (endpoints h)(p :=
        \<lparr>ep_pid = now_pid h, ep_life = e, ep_owner = owner, ep_receipt = None, ep_capacity = 0, ep_max_payload = 0,
         ep_session = []\<rparr>)\<rparr>))
     (bind (lift_sum Python (decode Grant_fields grant)) (\<lambda>native.
      andthen (guard (int_field Grant_fields native ''role'' = role \<and> int_field Grant_fields native ''layout_profile'' = profile)
        (Python (ValueError ''grant role/profile mismatch'')))
      (bind (ffi_on L e (Attach native)) (\<lambda>ans.
       andthen (set_life e (\<lambda>l. l\<lparr>lf_ptr := o_ptr (out_of ans)\<rparr>))
       (bind (result_of ans) (\<lambda>r.
        andthen (guard (status r = 0) (Native EliteError r ''attach'' (TheEndpoint p)))
        (bind (ffi_on L e (BindingInfo (o_ptr (out_of ans)) 0)) (\<lambda>ans2. bind (result_of ans2) (\<lambda>r2.
         andthen (check r2 ''get_info'' (TheEndpoint p))
         (andthen (set_endpoint p (\<lambda>q. q\<lparr>ep_capacity := fst (o_info (out_of ans2)),
            ep_max_payload := fst (snd (o_info (out_of ans2))), ep_session := snd (snd (o_info (out_of ans2)))\<rparr>))
         (ret p)))))))))))))) "

definition shm_endpoint :: "'w native \<Rightarrow> nat \<Rightarrow> nat \<Rightarrow> nat \<Rightarrow> ('w, nat) py" where
  "shm_endpoint L s role slot_index = bind (gets (\<lambda>h. shms h s)) (\<lambda>m.
     bind (shm_grant L s (PInt (int slot_index)) PNone) (\<lambda>g.
     bind (new_endpoint L role (if sh_spsc m then 1 else 2) (PMap g) (Some s)) (\<lambda>p.
     andthen (set_shm s (\<lambda>m2. m2\<lparr>sh_local := sh_local m2 @ [p]\<rparr>)) (ret p))))"

definition shm_producer :: "'w native \<Rightarrow> nat \<Rightarrow> int \<Rightarrow> ('w, nat) py" where
  "shm_producer L s slot_index = bind (gets (\<lambda>h. shms h s)) (\<lambda>m.
     if \<not> (0 \<le> slot_index \<and> slot_index < int (sh_producers m)) then throw (Python (ValueError ''invalid producer index''))
     else shm_endpoint L s 1 (nat slot_index))"

definition shm_consumer :: "'w native \<Rightarrow> nat \<Rightarrow> int \<Rightarrow> ('w, nat) py" where
  "shm_consumer L s slot_index = bind (gets (\<lambda>h. shms h s)) (\<lambda>m.
     if \<not> (0 \<le> slot_index \<and> slot_index < int (sh_consumers m)) then throw (Python (ValueError ''invalid consumer index''))
     else shm_endpoint L s 2 (sh_producers m + nat slot_index))"

definition shm_ack_cleanup :: "'w native \<Rightarrow> nat \<Rightarrow> pyval \<Rightarrow> ('w, unit) py" where
  "shm_ack_cleanup L s receipt = bind (lift_sum Python (decode Receipt_fields receipt)) (\<lambda>native.
     andthen (shm_check s) (bind (gets (\<lambda>h. shm_ptr h s)) (\<lambda>ptr.
     bind (ffi L (AckCleanup ptr native)) (\<lambda>ans. bind (result_of ans) (\<lambda>r.
     andthen (check r ''ack_cleanup'' (TheShm s)) (ret ()))))))"

text \<open>
  \<open>time.monotonic() + timeout\<close>, the sum of two floats, rounded to binary64; \<open>None\<close> is the infinity of a
  sum that is too large.
\<close>

definition deadline_at :: "rat \<Rightarrow> rat \<Rightarrow> rat option" where
  "deadline_at start t = (case to_float (start + t) of Inl e \<Rightarrow> None | Inr d \<Rightarrow> Some d)"

definition reached :: "rat option \<Rightarrow> rat \<Rightarrow> bool" where
  "reached deadline t \<longleftrightarrow> (case deadline of None \<Rightarrow> False | Some d \<Rightarrow> d \<le> t)"

text \<open>A loop over the monotonic clock: poll, give up at the deadline, poll again.\<close>

fun poll :: "('w, 'a option) py \<Rightarrow> ('w, 'a) py \<Rightarrow> rat option \<Rightarrow> rat list \<Rightarrow> ('w, 'a option) py" where
  "poll attempt_once late deadline [] = ret None"
| "poll attempt_once late deadline (t # ts) = bind attempt_once (\<lambda>x. case x of
     Some a \<Rightarrow> ret (Some a)
   | None \<Rightarrow> if reached deadline t then bind late (\<lambda>a. ret (Some a)) else poll attempt_once late deadline ts)"

text \<open>A timeout that is no number, or not a number, is \<open>None\<close>.\<close>

definition valid_timeout :: "rat option \<Rightarrow> exn + rat" where
  "valid_timeout timeout = (case timeout of
     None \<Rightarrow> Inl (ValueError ''timeout must be finite and in [0,86400]'')
   | Some t \<Rightarrow> if 0 \<le> t \<and> t \<le> 86400 then Inr t else Inl (ValueError ''timeout must be finite and in [0,86400]''))"

definition reap_once :: "'w native \<Rightarrow> nat \<Rightarrow> int \<Rightarrow> ('w, int option option) py" where
  "reap_once L s child_pid = andthen (shm_check s) (bind (gets (\<lambda>h. au_ptr (authorities h (sh_authority (shms h s))))) (\<lambda>ap.
     bind (ffi L (ReapChild ap child_pid)) (\<lambda>ans. bind (result_of ans) (\<lambda>r.
     if status r = 0 then ret (Some (Some (o_wait (out_of ans))))
     else if status r \<noteq> 8 then andthen (check r ''reap_child'' (TheShm s)) (ret None)
     else ret None))))"

text \<open>\<open>reap\<close>: the readings are that at the start, then one in every round.\<close>

definition shm_reap :: "'w native \<Rightarrow> nat \<Rightarrow> int \<Rightarrow> rat option \<Rightarrow> rat \<Rightarrow> rat list \<Rightarrow> ('w, int option option) py" where
  "shm_reap L s child_pid timeout start readings =
     bind (lift_sum Python (valid_timeout timeout)) (\<lambda>t. bind (gets (\<lambda>h. shms h s)) (\<lambda>m.
     andthen (guard (child_pid \<in> snd ` set (sh_issued m) \<and> child_pid \<noteq> sh_pid m)
       (Python (ValueError ''not a registered owned child'')))
     (poll (reap_once L s child_pid) (ret None) (deadline_at start t) readings)))"

definition shm_retire :: "'w native \<Rightarrow> nat \<Rightarrow> pyval \<Rightarrow> ('w, unit) py" where
  "shm_retire L s reason = andthen (shm_check s) (bind (gets (\<lambda>h. shm_ptr h s)) (\<lambda>ptr.
     bind (lift_sum Python (py_uint reason 64 ''reason'')) (\<lambda>n.
     bind (ffi L (ObjectRetire ptr n)) (\<lambda>ans. bind (result_of ans) (\<lambda>r.
     andthen (check r ''retire'' (TheShm s)) (ret ()))))))"

definition shm_successor :: "'w native \<Rightarrow> nat \<Rightarrow> nat \<Rightarrow> (nat \<Rightarrow> 8 word list) \<Rightarrow> ('w, nat) py" where
  "shm_successor L s time_ns uuid = andthen (shm_check s) (andthen (shm_retire L s (PInt 3))
     (bind (gets (\<lambda>h. shm_ptr h s)) (\<lambda>ptr. bind (ffi L (Quarantine ptr)) (\<lambda>ans. bind (result_of ans) (\<lambda>r.
     andthen (check r ''quarantine'' (TheShm s))
     (bind (gets (\<lambda>h. shms h s)) (\<lambda>m. bind (gets (\<lambda>h. au_max (authorities h (sh_authority m)))) (\<lambda>backing.
      EliteShm L (if sh_spsc m then ''spsc'' else ''ncq'') (PInt (int (sh_capacity m))) (PInt (int (sh_max_payload m)))
        (PInt (int (sh_producers m))) (PInt (int (sh_consumers m))) (sh_checksum m) (sh_parkable m) (PInt (int backing))
        (Some (sh_authority m)) time_ns uuid))))))))"

definition shm_close :: "'w native \<Rightarrow> nat \<Rightarrow> ('w, unit) py" where
  "shm_close L s = bind (gets (\<lambda>h. shm_ptr h s)) (\<lambda>ptr. bind (gets (\<lambda>h. sh_local (shms h s))) (\<lambda>locals.
     if ptr = 0 then ret ()
     else andthen (shm_check s)
       (andthen (for_each (\<lambda>p. bind (gets (\<lambda>h. endpoint_busy h p)) (\<lambda>busy.
          if busy then throw (Native BusyError busy_result ''shm.close: outstanding lease/view'' (TheEndpoint p)) else ret ())) locals)
       (andthen (for_each (\<lambda>p. andthen (endpoint_close L p) (ret ())) locals)
       (andthen (shm_check s)
       (bind (gets (\<lambda>h. shms h s)) (\<lambda>m.
        andthen (object_close L (sh_life m))
        (modify (\<lambda>h. h\<lparr>authorities := (authorities h)(sh_authority m := (authorities h (sh_authority m))
           \<lparr>au_objects := filter (\<lambda>k. k \<noteq> s) (au_objects (authorities h (sh_authority m)))\<rparr>)\<rparr>)))))))))"

definition wait_obtain :: "'w native \<Rightarrow> nat \<Rightarrow> bool \<Rightarrow> rat option \<Rightarrow> rat \<Rightarrow> rat list \<Rightarrow> ('w, nat option) py" where
  "wait_obtain L p writing timeout start readings =
     bind (lift_sum Python (valid_timeout timeout)) (\<lambda>t.
     poll (obtain_lease L p writing)
       (throw (Native WouldBlock \<lparr>status = (if writing then 2 else 1), outcome = 0, os_error = 0\<rparr> ''availability timeout'' NoResource))
       (deadline_at start t) readings)"

section \<open>Collected wrappers and the exit of the interpreter\<close>

text \<open>The finalizers of a public endpoint and of a manager; the weak sets forget them.\<close>

definition endpoint_collected :: "'w native \<Rightarrow> nat \<Rightarrow> ('w, unit) py" where
  "endpoint_collected L p = bind (gets (\<lambda>h. endpoints h p)) (\<lambda>q.
     andthen (case ep_owner q of None \<Rightarrow> ret ()
       | Some s \<Rightarrow> set_shm s (\<lambda>m. m\<lparr>sh_local := filter (\<lambda>k. k \<noteq> p) (sh_local m)\<rparr>))
     (life_request_close L (ep_life q)))"

definition shm_collected :: "'w native \<Rightarrow> nat \<Rightarrow> ('w, unit) py" where
  "shm_collected L s = bind (gets (\<lambda>h. shms h s)) (\<lambda>m.
     andthen (modify (\<lambda>h. h\<lparr>live_shms := filter (\<lambda>k. k \<noteq> s) (live_shms h)\<rparr>))
     (object_request_close L (sh_life m)))"

definition normal_exit_cleanup :: "'w native \<Rightarrow> ('w, unit) py" where
  "normal_exit_cleanup L = bind (gets live_shms) (\<lambda>live. for_each (\<lambda>s.
     bind getpid (\<lambda>pid. bind (gets (\<lambda>h. shms h s)) (\<lambda>m. bind (gets (\<lambda>h. shm_ptr h s)) (\<lambda>ptr.
     if sh_pid m = pid \<and> ptr \<noteq> 0 then attempt (shm_close L s) (retain_failure (TheShm s)) else ret ())))) live)"

end
