(* ===== verification/Binding_Scope.thy ===== *)
theory Binding_Scope
  imports Binding_Obtaining Binding_Managers
begin

text \<open>
  What the operations on leases and endpoints leave alone: a locale of the properties every primitive
  write keeps, under which every operation keeps them, by rules that follow the structure of its
  definition; and its first instance, the references between the objects: an endpoint's lifetime exists
  and belongs to the endpoint's process, and a manager's endpoints exist.
\<close>

named_theorems keeping \<open>steps that keep the references of the objects in scope\<close>

lemma keeps_gets_if: "keeps I (gets f)" "keeps I (lift_sum g r)" "keeps I (guard b e)" "keeps I (ret a)" "keeps I (throw e)"
  by simp_all

lemmas keeps_flow [keeping] = keeps_gets_if keeps_bind keeps_andthen keeps_attempt keeps_for_each keeps_if

lemma keeps_option [keeping]:
  "keeps I m \<Longrightarrow> (\<And>a. keeps I (k a)) \<Longrightarrow> keeps I (case x of None \<Rightarrow> m | Some a \<Rightarrow> k a)"
  by (cases x) simp_all

lemma keeps_let [keeping]: "(\<And>x. keeps I (m x)) \<Longrightarrow> keeps I (let x = v in m x)"
  by simp

lemma keeps_result_of [keeping]: "keeps I (result_of a)" "keeps I (check r op res)"
  by (cases a) (simp_all add: check_def)

lemma keeps_reads [keeping]: "keeps I (the_lease i)" "keeps I (the_life e)" "keeps I (the_exporter b)" "keeps I (the_object x)"
  "keeps I getpid"
  by (simp_all add: the_lease_def the_life_def the_exporter_def the_object_def getpid_def)

lemma keeps_modify: "(\<And>h. I h \<Longrightarrow> I (f h)) \<Longrightarrow> keeps I (modify f)"
  by (simp add: keeps_wp wp_modify)

lemma wp_module_create:
  "wp (module_create oom address len readonly i) Q E h \<longleftrightarrow> (case address of
     None \<Rightarrow> E (Python (TypeError ''an integer is required'')) h
   | Some a \<Rightarrow> if a = 0 then E (Python (ValueError ''NULL native payload'')) h
       else if oom then E (Python MemoryError) h
       else Q (n_exporters h) (h\<lparr>n_exporters := n_exporters h + 1,
         exporters := (exporters h)(n_exporters h := \<lparr>x_owner = Some i, x_cleanup = Some i, x_address = Some a,
           x_length = len, x_exports = 0, x_pid = now_pid h, x_readonly = readonly, x_closed = False,
           x_closing = False, x_close_requested = False\<rparr>)\<rparr>))"
  by (auto simp: module_create_def wp_def throw_def split: option.split)

section \<open>Properties that leases and endpoints leave alone\<close>

text \<open>A property that the writes of the native and lease operations keep, and one that every write of a
  lease, exporter or endpoint operation keeps.\<close>

locale outsider =
  fixes I :: "'w heap \<Rightarrow> bool"
  assumes writes [keeping]:
    "keeps I (set_lease i f)" "keeps I (set_object x q)" "keeps I (retain_failure r y)" "keeps I (ffi L call)"
    "keeps I (ffi_on L e call)"
    "keeps I (set_life e (\<lambda>l. l\<lparr>lf_ptr := a\<rparr>))" "keeps I (set_life e (\<lambda>l. l\<lparr>lf_pin := p\<rparr>))"
    "keeps I (set_life e (\<lambda>l. l\<lparr>lf_poisoned := True\<rparr>))" "keeps I (set_life e (\<lambda>l. l\<lparr>lf_receipt := k\<rparr>))"
    "keeps I (set_life e (\<lambda>l. l\<lparr>lf_close_requested := True\<rparr>))"
    "keeps I (modify (\<lambda>h. h\<lparr>authorities := z h\<rparr>) :: ('w, unit) py)"
begin

lemma keeps_objects [keeping]:
  "keeps I (authority_check u)" "keeps I (authority_del L u)" "keeps I (object_ack L x receipt)"
  "keeps I (object_close L x)"
proof -
  show a: "keeps I (authority_check u)" for u
    unfolding authority_check_def by (intro keeping)
  show "keeps I (authority_del L u)"
    unfolding authority_del_def by (intro keeping)
  show "keeps I (object_ack L x receipt)"
    unfolding object_ack_def by (intro keeping a)
  show "keeps I (object_close L x)"
    unfolding object_close_def by (intro keeping a)
qed

lemma keeps_object_close [keeping]: "keeps I (object_try_close L x)" "keeps I (object_request_close L x)"
  unfolding object_request_close_def object_try_close_def by (intro keeping)+

lemma keeps_lives [keeping]:
  "keeps I (life_check e)" "keeps I (notify_owner L owner receipt)"
  unfolding life_check_def notify_owner_def by (intro keeping)+

lemma keeps_life_close [keeping]:
  "keeps I (life_close L e)" 
  unfolding life_close_def by (intro keeping)+

lemma keeps_life_try_close [keeping]:
  "keeps I (life_try_close L e)" "keeps I (life_request_close L e)"
  unfolding life_request_close_def life_try_close_def by (intro keeping)+

lemma keeps_pins [keeping]: "keeps I (assert_live i)" "keeps I (poison i x)"
  unfolding assert_live_def poison_def by (intro keeping)+

lemma keeps_finish [keeping]: "keeps I (retain_view_pin L i)" "keeps I (finish L i a)"
  unfolding retain_view_pin_def finish_def by (intro keeping)+

lemma keeps_cleanup [keeping]: "keeps I (cleanup L i)"
  unfolding cleanup_def by (intro keeping)+

lemma keeps_drop [keeping]: "keeps I (drop_view_pin L i)" "keeps I (request_cleanup L i)"
  unfolding drop_view_pin_def request_cleanup_def by (intro keeping)+

end

locale bystander = outsider I for I :: "'w heap \<Rightarrow> bool" +
  assumes more_writes [keeping]:
    "keeps I (set_exporter b g)" "keeps I (set_wrapper i c)" "keeps I (unpin e)" "keeps I (new_lease e w)"
    "keeps I (module_create oom address len ro i)"
    "keeps I (modify (\<lambda>h. h\<lparr>endpoints := (endpoints h)(n := (endpoints h n)\<lparr>ep_receipt := v\<rparr>)\<rparr>) :: ('w, unit) py)"
    "keeps I (modify (\<lambda>h. h\<lparr>finalized := u h\<rparr>) :: ('w, unit) py)" "keeps I (collect_lease m)"
begin

lemma keeps_close_buffer [keeping]: "keeps I (same_process x)" "keeps I (close_buffer L b)"
  "keeps I (cleanup_unraisable b)"
  unfolding same_process_def close_buffer_def cleanup_unraisable_def exporter_cleanup_failed_def by (intro keeping)+

lemma keeps_buffers [keeping]: "keeps I (deferred_close L b)" "keeps I (buffer_release L b)"
  "keeps I (rollback_export L b)" "keeps I (buffer_finalize L b)" "keeps I (buffer_clear b)"
  unfolding deferred_close_def buffer_release_def rollback_export_def buffer_finalize_def buffer_clear_def by (intro keeping)+

lemma keeps_buffer [keeping]: "keeps I (buffer_get L b wr)" "keeps I (buffer_dealloc L b)"
  unfolding buffer_get_def buffer_dealloc_def by (intro keeping)+

lemma keeps_transfer [keeping]: "keeps I (end_exports L i)" "keeps I (transfer L i a)"
  "keeps I (lease_buffer L oom i)"
  unfolding end_exports_def transfer_def lease_buffer_def by (intro keeping)+

lemma keeps_leases [keeping]: "keeps I (lease_commit L i len kind mid)" "keeps I (lease_abort L i)"
  "keeps I (lease_release L i)" "keeps I (lease_abandon L i)" "keeps I (lease_exit L i)"
  "keeps I (lease_copy L oom i)"
  unfolding lease_commit_def lease_abort_def lease_release_def lease_abandon_def lease_exit_def lease_copy_def by (intro keeping)+

lemma keeps_obtain [keeping]: "keeps I (endpoint_check p)" "keeps I (acquire L e i w)"
  "keeps I (obtain_lease L p w)" "keeps I (enable_drain L p)"
  unfolding endpoint_check_def acquire_def obtain_lease_def enable_drain_def by (intro keeping)+

lemma keeps_endpoint_close [keeping]: "keeps I (endpoint_close L p)"
  unfolding endpoint_close_def
  by (intro keeping)

lemma keeps_collector [keeping]: "keeps I (pin_finalized L i)"
  unfolding pin_finalized_def
  by (intro keeping)+

end

section \<open>The references of endpoints and managers\<close>

definition scoped :: "nat \<Rightarrow> 'w heap \<Rightarrow> bool" where
  "scoped k h \<longleftrightarrow> k \<le> n_endpoints h
     \<and> (\<forall>p < n_endpoints h. ep_life (endpoints h p) < n_lives h
          \<and> lf_pid (lives h (ep_life (endpoints h p))) = ep_pid (endpoints h p))
     \<and> (\<forall>s. set (sh_local (shms h s)) \<subseteq> {..<n_endpoints h})"

text \<open>Steps that change no endpoint, no list of a manager and no process of a lifetime.\<close>

lemma scoped_same:
  assumes "scoped k h" "n_endpoints h' = n_endpoints h" "endpoints h' = endpoints h" "n_lives h' = n_lives h"
    "shms h' = shms h" "\<And>e. lf_pid (lives h' e) = lf_pid (lives h e)"
  shows "scoped k h'"
  using assms unfolding scoped_def by simp

lemma scoped_writes:
  "keeps (scoped k) (set_lease i f)" "keeps (scoped k) (set_exporter b g)" "keeps (scoped k) (set_object x q)"
  "keeps (scoped k) (retain_failure r y)" "keeps (scoped k) (set_wrapper i c)" "keeps (scoped k) (ffi L call)"
  "keeps (scoped k) (ffi_on L e call)" "keeps (scoped k) (unpin e)" "keeps (scoped k) (new_lease e w)"
  "keeps (scoped k) (module_create oom address len ro i)"
  by (auto simp: keeps_wp wp_simps set_wrapper_def upd_lease_def upd_life_def upd_exporter_def
      note_failure_def called_def with_lease_def wp_module_create elim!: scoped_same split: option.splits)

lemma scoped_set_life: "(\<And>l. lf_pid (f l) = lf_pid l) \<Longrightarrow> keeps (scoped k) (set_life e f)"
  by (auto simp: keeps_wp wp_simps upd_life_def elim!: scoped_same)

lemma scoped_lives:
  "keeps (scoped k) (set_life e (\<lambda>l. l\<lparr>lf_ptr := a\<rparr>))" "keeps (scoped k) (set_life e (\<lambda>l. l\<lparr>lf_pin := p\<rparr>))"
  "keeps (scoped k) (set_life e (\<lambda>l. l\<lparr>lf_poisoned := b\<rparr>))" "keeps (scoped k) (set_life e (\<lambda>l. l\<lparr>lf_receipt := r\<rparr>))"
  "keeps (scoped k) (set_life e (\<lambda>l. l\<lparr>lf_close_requested := c\<rparr>))"
  by (rule scoped_set_life; simp)+

interpretation scope: bystander "scoped k" for k
proof (unfold_locales)
qed (rule scoped_writes scoped_lives; fail | (rule keeps_modify, auto simp: scoped_def; fail) | auto simp: collect_lease_def scoped_def intro!: keeps_modify)+

end
