(* ===== verification/Binding_Upkeep.thy ===== *)
theory Binding_Upkeep
  imports Binding_Scope
begin

text \<open>
  The operations of managers and authorities change no lease, endpoint lifetime or exporter, and keep the
  references in scope.
\<close>

section \<open>Steps on the manager's side\<close>

lemma keeps_same:
  assumes "\<And>h. wp m (\<lambda>_ h'. core_same h h') (\<lambda>_ h'. core_same h h') h"
  shows "keeps inv m"
  by (rule keepsI, rule wp_mono [OF assms]) (auto intro: inv_core_same)

lemma core_same_fields [simp]:
  "core_same h (h\<lparr>shms := f\<rparr>)" "core_same h (h\<lparr>endpoints := g\<rparr>)" "core_same h (h\<lparr>authorities := a\<rparr>)"
  "core_same h (h\<lparr>n_shms := s, shms := f\<rparr>)" "core_same h (h\<lparr>n_objects := x, objects := q\<rparr>)"
  "core_same h (h\<lparr>n_authorities := u, authorities := a\<rparr>)" "core_same h (h\<lparr>n_endpoints := p, endpoints := g\<rparr>)"
  "core_same h (h\<lparr>live_shms := l\<rparr>)" "core_same h (h\<lparr>authorities := a, live_shms := l\<rparr>)"
  by (simp_all add: core_same_def noted_def)

named_theorems inert \<open>steps that change no lease, lifetime or exporter\<close>

lemma inert_steps [inert]:
  "keeps inv (set_shm s f)" "keeps inv (set_endpoint p g)" "keeps inv (set_object x q)" "keeps inv (ffi L call)"
  "keeps inv (new_object_life u)" "keeps inv (new_shm v y cf)"
  by (rule keeps_same, simp add: set_shm_def set_endpoint_def set_object_def wp_simps wp_modify new_object_life_def new_shm_def Let_def,
      (simp add: wp_def)?)+

lemma inert_note [inert]: "(\<And>j. r \<noteq> TheLease j) \<Longrightarrow> keeps inv (retain_failure r x)"
  by (rule keeps_same) (simp add: wp_simps)

lemma inert_objects [inert]: "keeps inv (authority_check u)" "keeps inv (object_close L x)"
  by (rule keeps_same, rule wp_mono [OF authority_check_same], simp, simp)
     (rule keeps_same, rule object_close_same)

lemma inert_object_close [inert]: "keeps inv (object_try_close L x)" "keeps inv (object_request_close L x)"
  unfolding object_request_close_def object_try_close_def
  by (intro keeping inert keeps_reads; simp)+

lemma inert_authority [inert]: "keeps inv (authority_del L u)" "keeps inv (new_authority L host authority backing)"
  unfolding authority_del_def new_authority_def
  by (intro keeping inert keeps_modify; (erule inv_core_same [rotated])?; simp)+

lemma inert_shm_check [inert]: "keeps inv (shm_check s)"
  unfolding shm_check_def by (intro keeping inert)

lemma inert_create [inert]: "keeps inv (create_shm L cf time_ns uuid u)"
  unfolding create_shm_def
  by (intro keeping inert keeps_modify; (erule inv_core_same [rotated])?; simp)

lemma inert_manager [inert]:
  "keeps inv (EliteShm L mode capacity payload producers consumers ck park backing authority time_ns uuid)"
  "keeps inv (shm_grant L s i pid)" "keeps inv (shm_ack_cleanup L s receipt)" "keeps inv (shm_retire L s reason)"
  "keeps inv (reap_once L s child)"
  unfolding EliteShm_def shm_grant_def shm_ack_cleanup_def shm_retire_def reap_once_def
  by (intro keeping inert)+

lemma inert_successor [inert]: "keeps inv (shm_successor L s time_ns uuid)"
  unfolding shm_successor_def by (intro keeping inert)

lemma keeps_poll [keeping]: "keeps I m \<Longrightarrow> keeps I late \<Longrightarrow> keeps I (poll m late deadline ts)"
  by (induction ts) (auto intro!: keeping split: option.split)

lemma inert_reap [inert]: "keeps inv (shm_reap L s child timeout start readings)"
  unfolding shm_reap_def by (intro keeping inert)

section \<open>Properties that managers leave alone\<close>

text \<open>The configurations \<open>shm_args\<close> admits.\<close>

definition admitted :: "shm_config \<Rightarrow> bool" where
  "admitted cf \<longleftrightarrow> 1 \<le> cf_producers cf \<and> 1 \<le> cf_consumers cf \<and> cf_producers cf + cf_consumers cf \<le> cf_capacity cf
     \<and> cf_capacity cf < 2 ^ 64 \<and> cf_max_payload cf < 2 ^ 32 \<and> cf_producers cf < 2 ^ 32 \<and> cf_consumers cf < 2 ^ 32
     \<and> (cf_spsc cf \<longrightarrow> cf_producers cf = 1 \<and> cf_consumers cf = 1) \<and> (cf_parkable cf \<longrightarrow> cf_spsc cf)"

lemma py_uint_bound: "py_uint v n name = Inr k \<Longrightarrow> k < 2 ^ n"
  by (cases v) (auto split: if_splits simp: nat_less_iff)

lemma shm_args_admitted:
  "shm_args mode capacity payload producers consumers ck park backing = Inr cf \<Longrightarrow> admitted cf"
  unfolding shm_args_def admitted_def
  by (auto split: if_splits sum.splits dest: py_uint_bound)

lemma keeps_lift_bind: "(\<And>a. r = Inr a \<Longrightarrow> keeps I (k a)) \<Longrightarrow> keeps I (bind (lift_sum g r) k)"
  by (cases r) (auto simp: keeps_wp wp_bind wp_ret wp_throw)

locale custodian = bystander I for I :: "'w heap \<Rightarrow> bool" +
  assumes shm_writes [keeping]:
    "keeps I (set_shm s (\<lambda>m. m\<lparr>sh_session := b\<rparr>))" "keeps I (set_shm s (\<lambda>m. m\<lparr>sh_issued := sh_issued m @ [x]\<rparr>))"
    "keeps I (set_shm s (\<lambda>m. m\<lparr>sh_local := filter q (sh_local m)\<rparr>))" "keeps I (new_object_life u)"
    "keeps I (set_endpoint p (\<lambda>q. q\<lparr>ep_capacity := n, ep_max_payload := k, ep_session := b\<rparr>))"
    "keeps I (modify (\<lambda>h. h\<lparr>n_authorities := c, authorities := z h\<rparr>) :: ('w, unit) py)"
    "keeps I (modify (\<lambda>h. h\<lparr>live_shms := l h\<rparr>) :: ('w, unit) py)"
    "keeps I (modify (\<lambda>h. h\<lparr>authorities := z h, live_shms := l h\<rparr>) :: ('w, unit) py)"
    and new_shm: "admitted cf \<Longrightarrow> keeps I (new_shm u y cf)"
begin

lemma keeps_new_authority [keeping]:
  "keeps I (shm_check s)" "keeps I (new_authority L host authority backing)"
  unfolding shm_check_def new_authority_def by (intro keeping)+

lemma keeps_create_shm: "admitted cf \<Longrightarrow> keeps I (create_shm L cf time_ns uuid u)"
  unfolding create_shm_def by (intro keeping new_shm)

lemma keeps_EliteShm [keeping]:
  "keeps I (EliteShm L mode capacity payload producers consumers ck park backing authority time_ns uuid)"
  unfolding EliteShm_def by (intro keeps_lift_bind keeping keeps_create_shm, drule shm_args_admitted)

lemma keeps_manager [keeping]:
  "keeps I (shm_grant L s i pid)" "keeps I (shm_ack_cleanup L s receipt)" "keeps I (shm_retire L s reason)"
  "keeps I (reap_once L s child)" "keeps I (wait_obtain L p w timeout start readings)" "keeps I (shm_close L s)"
  unfolding shm_grant_def shm_ack_cleanup_def shm_retire_def reap_once_def wait_obtain_def shm_close_def
  by (intro keeping)+

lemma keeps_managers [keeping]:
  "keeps I (shm_reap L s child timeout start readings)" "keeps I (shm_successor L s time_ns uuid)"
  "keeps I (endpoint_collected L p)" "keeps I (normal_exit_cleanup L)" "keeps I (shm_collected L s)"
  unfolding shm_reap_def shm_successor_def endpoint_collected_def normal_exit_cleanup_def shm_collected_def
  by (intro keeping)+

end

interpretation scope: custodian "scoped k" for k
  by unfold_locales
    (auto simp: keeps_def set_shm_def set_endpoint_def modify_def new_object_life_def new_shm_def Let_def scoped_def split: if_splits
      dest: subsetD)

text \<open>Properties that a new endpoint leaves alone too.\<close>

locale onlooker = custodian I for I :: "'w heap \<Rightarrow> bool" +
  assumes allocations [keeping]: "keeps I (new_life y)"
    "keeps I (modify (\<lambda>h. h\<lparr>n_endpoints := n, endpoints := t h\<rparr>) :: ('w, unit) py)"
    "keeps I (set_shm s (\<lambda>m. m\<lparr>sh_local := sh_local m @ [p]\<rparr>))"
begin

lemma keeps_endpoints [keeping]:
  "keeps I (new_endpoint L role profile grant owner)" "keeps I (shm_endpoint L s role slot_index)"
  "keeps I (shm_producer L s i)" "keeps I (shm_consumer L s i)"
  unfolding new_endpoint_def shm_endpoint_def shm_producer_def shm_consumer_def
  by (intro keeping)+

end

end
