(* ===== verification/Binding_Attaching.thy ===== *)
theory Binding_Attaching
  imports Binding_Upkeep
begin

text \<open>
  A new endpoint keeps the invariant: its lifetime is fresh, and the attachment is the first call made on it.
\<close>

section \<open>New endpoints\<close>

definition with_life :: "nat option \<Rightarrow> 'w heap \<Rightarrow> 'w heap" where
  "with_life owner h = snd (new_life owner h)"

lemma wp_new_life [wp_simps]: "wp (new_life owner) Q E h \<longleftrightarrow> Q (n_lives h) (with_life owner h)"
  by (simp add: new_life_def with_life_def wp_def Let_def)

lemma with_life_simps [simp]:
  "leases (with_life x h) = leases h" "n_leases (with_life x h) = n_leases h" "exporters (with_life x h) = exporters h"
  "n_exporters (with_life x h) = n_exporters h" "wrapper_exporter (with_life x h) = wrapper_exporter h"
  "warn_error (with_life x h) = warn_error h" "finalized (with_life x h) = finalized h" "dead (with_life x h) = dead h" "now_pid (with_life x h) = now_pid h"
  "n_lives (with_life x h) = n_lives h + 1" "failed (with_life x h) = failed h" "n_endpoints (with_life x h) = n_endpoints h"
  "endpoints (with_life x h) = endpoints h" "shms (with_life x h) = shms h" "noted (with_life x h) j = noted h j"
  "exported (with_life x h) j = exported h j" "calls (with_life x h) = (calls h)(n_lives h := [])"
  "lives (with_life x h) = (lives h)(n_lives h := \<lparr>lf_ptr = 0, lf_pid = now_pid h, lf_owner = x, lf_pin = None,
     lf_receipt = None, lf_close_requested = False, lf_poisoned = False\<rparr>)"
  by (simp_all add: with_life_def new_life_def noted_def exported_def Let_def)

lemma inv_with_life:
  assumes I: "inv h"
  shows "inv (with_life x h)"
proof -
  let ?h = "with_life x h"
  have old: "lives ?h e = lives h e \<and> calls ?h e = calls h e" if "e < n_lives h" for e using that by simp
  have at: "lives ?h (ls_endpoint (leases h j)) = life_of h j" "ls_endpoint (leases h j) < n_lives h" if "j < n_leases h" for j
    using lease_coreD(1) [OF inv_lease [OF I that]] old by auto
  have "lease_core ?h j" if "j < n_leases h" for j
    using inv_lease [OF I that] at [OF that] unfolding lease_core_def rooted_iff by simp
  moreover have "kept ?h j" if "j < n_leases h" for j
    using inv_kept [OF I that] at [OF that] unfolding kept_def by simp
  moreover have "exporter_core ?h b \<and> settled ?h b" if b: "b < n_exporters h" for b
  proof -
    have xc: "exporter_core h b" and st: "settled h b" using inv_exporter [OF I b] by simp_all
    note x = exporter_coreD [OF xc]
    have "exporter_core ?h b"
    proof (cases "x_closed (exporters h b)")
      case True
      then show ?thesis using xc by (simp add: exporter_core_def Let_def)
    next
      case False
      from x(4) [OF False] obtain i where i: "i < n_leases h" "x_owner (exporters h b) = Some i" "x_cleanup (exporters h b) = Some i"
        "ls_view_pin (leases h i)" "wrapper_exporter h i = Some b" "x_pid (exporters h b) = lf_pid (life_of h i)" by blast
      show ?thesis unfolding exporter_core_def Let_def using i x(1) False at(1) [OF i(1)] by (auto simp del: with_life_simps(17)) 
    qed
    moreover have "settled ?h b" using st by (simp add: settled_def)
    ultimately show ?thesis ..
  qed
  moreover have "life_ok ?h e" if "e < n_lives h + 1" for e
  proof (cases "e = n_lives h")
    case True
    have "displays ?h e conn_start" using True by (auto simp: displays_def conn_start_def holder_def)
    then show ?thesis using True by (simp add: life_ok_def)
  next
    case False
    with that have e: "e < n_lives h" by simp
    show ?thesis using inv_life [OF I e] life_ok_cong [of ?h h e] old [OF e] by simp
  qed
  ultimately show ?thesis using I unfolding inv_but_def by simp
qed

text \<open>The attachment: the first call of a fresh connection.\<close>

lemma attach_leaf:
  assumes I: "inv h" and e: "e < n_lives h" and fresh: "calls h e = []" "lf_pin (lives h e) = None"
    and pid: "lf_pid (lives h e) = now_pid h"
  shows "inv (upd_life e (\<lambda>l. l\<lparr>lf_ptr := o_ptr (out_of (fst (L (Attach g) (world h))))\<rparr>) (called L e (Attach g) h))"
    (is "inv ?h")
proof (rule inv_change [OF I, where i = "n_leases h" and e = e])
  let ?a = "fst (L (Attach g) (world h))"
  show "elsewhere (n_leases h) e h ?h" by (rule elsewhereI) simp_all
  show "\<not> ls_active (leases h j)" if "j < n_leases h" "j \<noteq> n_leases h" "ls_endpoint (leases h j) = e" for j
    using active_facts(2) [OF I that(1)] fresh(2) that(3) by auto
  have c: "replay conn_start (map snd (calls h e)) = Some conn_start" by (simp add: fresh)
  have st: "conn_step conn_start (Attach g, ?a) = Some (on_handle ?a conn_start)" by (simp add: conn_start_def)
  have d: "displays ?h e (on_handle ?a conn_start)"
    by (auto simp: displays_def on_handle_def conn_start_def holder_def fresh)
  show "life_ok ?h e" by (rule life_after_call [OF c st _ d]) (simp_all add: fresh pid inv_life [OF I e])
qed simp_all

lemma new_endpoint_inv:
  fixes h :: "'w heap"
  assumes I: "inv h" and S: "scoped k h" and L: "attaches L"
  shows "wp (new_endpoint L role profile grant owner)
    (\<lambda>p h'. inv h' \<and> scoped k h' \<and> p < n_endpoints h') (\<lambda>_ h'. inv h' \<and> scoped k h') h"
proof -
  let ?x = "map_option (\<lambda>s. sh_life (shms h s)) owner" and ?e = "n_lives h" and ?p = "n_endpoints h"
  define h1 where "h1 = (with_life ?x h)\<lparr>n_endpoints := ?p + 1, endpoints := (endpoints h)(?p :=
        \<lparr>ep_pid = now_pid h, ep_life = ?e, ep_owner = owner, ep_receipt = None, ep_capacity = 0, ep_max_payload = 0,
         ep_session = []\<rparr>)\<rparr>"
  have core: "core_same (with_life ?x h) h1" by (simp add: h1_def)
  have I1: "inv h1" by (rule inv_core_same [OF core inv_with_life [OF I]])
  have S1: "scoped (Suc ?p) h1" unfolding scoped_def
  proof (intro conjI allI)
    fix s
    have "set (sh_local (shms h s)) \<subseteq> {..<?p}" using S by (simp add: scoped_def)
    then have "set (sh_local (shms h s)) \<subseteq> {..<?p + 1}" by auto
    then show "set (sh_local (shms h1 s)) \<subseteq> {..<n_endpoints h1}" by (simp add: h1_def)
  qed (use S in \<open>auto simp: scoped_def h1_def less_Suc_eq\<close>)
  have k: "k \<le> Suc ?p" using S by (simp add: scoped_def)
  have weaken: "scoped k t \<and> ?p < n_endpoints t" if "scoped (Suc ?p) t" for t using that k by (auto simp: scoped_def)
  have e1: "?e < n_lives h1" "calls h1 ?e = []" "lf_pin (lives h1 ?e) = None" "lf_pid (lives h1 ?e) = now_pid h1" by (simp_all add: h1_def)
  have rest: "wp (bind (ffi_on L ?e (BindingInfo ptr 0)) (\<lambda>ans2. bind (result_of ans2) (\<lambda>r2.
         andthen (check r2 ''get_info'' (TheEndpoint ?p))
         (andthen (set_endpoint ?p (\<lambda>q. q\<lparr>ep_capacity := fst (o_info (out_of ans2)),
            ep_max_payload := fst (snd (o_info (out_of ans2))), ep_session := snd (snd (o_info (out_of ans2)))\<rparr>))
         (ret ?p))))) (\<lambda>p h'. inv h' \<and> scoped k h' \<and> p < n_endpoints h') (\<lambda>_ h'. inv h' \<and> scoped k h') t"
    if t: "inv t" "scoped (Suc ?p) t" "?e < n_lives t" "lf_ptr (lives t ?e) = ptr" "ptr \<noteq> 0"
      "lf_pid (lives t ?e) = now_pid t" for t ptr
  proof -
    let ?t = "called L ?e (BindingInfo ptr 0) t"
    have "inv ?t" by (rule open_leaf [OF t(1,3)]) (use t(4,5,6) in simp_all)
    moreover have "scoped (Suc ?p) ?t" using t(2) by (auto elim!: scoped_same simp: called_def)
    moreover have "inv (?t\<lparr>endpoints := f\<rparr>)" for f by (rule inv_core_same [OF _ \<open>inv ?t\<close>]) simp
    moreover have "scoped (Suc ?p) (?t\<lparr>endpoints := (endpoints ?t)(?p := (endpoints ?t ?p)\<lparr>ep_capacity := a, ep_max_payload := b, ep_session := c\<rparr>)\<rparr>)" for a b c
      using \<open>scoped (Suc ?p) ?t\<close> by (auto simp: scoped_def)
    ultimately show ?thesis
      by (auto simp: wp_simps set_endpoint_def wp_modify dest!: weaken split: answer.split)
  qed
  have body: "wp (bind (ffi_on L ?e (Attach native)) (\<lambda>ans.
       andthen (set_life ?e (\<lambda>l. l\<lparr>lf_ptr := o_ptr (out_of ans)\<rparr>))
       (bind (result_of ans) (\<lambda>r.
        andthen (guard (status r = 0) (Native EliteError r ''attach'' (TheEndpoint ?p)))
        (bind (ffi_on L ?e (BindingInfo (o_ptr (out_of ans)) 0)) (\<lambda>ans2. bind (result_of ans2) (\<lambda>r2.
         andthen (check r2 ''get_info'' (TheEndpoint ?p))
         (andthen (set_endpoint ?p (\<lambda>q. q\<lparr>ep_capacity := fst (o_info (out_of ans2)),
            ep_max_payload := fst (snd (o_info (out_of ans2))), ep_session := snd (snd (o_info (out_of ans2)))\<rparr>))
         (ret ?p))))))))) (\<lambda>p h'. inv h' \<and> scoped k h' \<and> p < n_endpoints h') (\<lambda>_ h'. inv h' \<and> scoped k h') h1" for native
  proof -
    let ?a = "fst (L (Attach native) (world h1))"
    let ?t = "upd_life ?e (\<lambda>l. l\<lparr>lf_ptr := o_ptr (out_of ?a)\<rparr>) (called L ?e (Attach native) h1)"
    have It: "inv ?t" by (rule attach_leaf [OF I1 e1])
    have St: "scoped (Suc ?p) ?t" by (rule scoped_same [OF S1]) (simp_all add: upd_life_def called_def)
    have nz: "?a = Returned r y \<Longrightarrow> status r = 0 \<Longrightarrow> o_ptr y \<noteq> 0" for r y using L unfolding attaches_def by blast
    show ?thesis
    proof (cases ?a)
      case (Interrupted y z)
      then show ?thesis using It weaken [OF St] by (simp add: wp_bind wp_ffi_on wp_andthen wp_steps wp_throw)
    next
      case (Returned r y)
      have t: "?e < n_lives ?t" "lf_ptr (lives ?t ?e) = o_ptr y" "lf_pid (lives ?t ?e) = now_pid ?t" using e1 Returned by simp_all
      show ?thesis
        apply (subst wp_bind, subst wp_ffi_on, subst wp_andthen, subst wp_steps(2), subst wp_bind, subst wp_result_of)
        apply (subst (2) Returned, subst wp_andthen, subst wp_guard)
        using It weaken [OF St] rest [OF It St t(1,2) _ t(3)] nz [OF Returned] by (simp add: Returned)
    qed
  qed
  have dec: "wp (lift_sum Python x) Q E h1 \<longleftrightarrow> (case x of Inl e \<Rightarrow> E (Python e) h1 | Inr a \<Rightarrow> Q a h1)"
    for x :: "exn + cval list" and Q E by (rule wp_lift_sum)
  have fin: "inv h1 \<and> scoped k h1" using I1 weaken [OF S1] by blast
  have step: "wp (andthen (modify (\<lambda>h. h\<lparr>n_endpoints := ?p + 1, endpoints := (endpoints h)(?p :=
        \<lparr>ep_pid = now_pid h, ep_life = ?e, ep_owner = owner, ep_receipt = None, ep_capacity = 0, ep_max_payload = 0,
         ep_session = []\<rparr>)\<rparr>)) m) Q E (with_life ?x h) = wp m Q E h1" for m :: "('w, nat) py" and Q E
    by (simp add: wp_andthen wp_modify h1_def)
  show ?thesis
    unfolding new_endpoint_def wp_bind wp_gets wp_new_life with_life_simps
    unfolding step
    unfolding wp_bind dec
    by (cases "decode Grant_fields grant") (use fin body in \<open>auto simp: wp_andthen wp_guard\<close>)
qed

end
