(* ===== verification/Binding_Sound.thy ===== *)
theory Binding_Sound
  imports Binding_Attaching
begin

text \<open>
  Sound heaps: the invariant and the references in scope together, kept by the operations that need both.
\<close>

section \<open>Sound heaps\<close>

definition okay :: "nat \<Rightarrow> 'w heap \<Rightarrow> bool" where
  "okay k h \<longleftrightarrow> inv h \<and> scoped k h"

lemma okayI: "inv h \<Longrightarrow> scoped k h \<Longrightarrow> okay k h"
  by (simp add: okay_def)

lemma keeps_okay: "keeps inv m \<Longrightarrow> keeps (scoped k) m \<Longrightarrow> keeps (okay k) m"
  by (simp add: keeps_def okay_def)

text \<open>An operation whose invariant holds from where it starts.\<close>

lemma okay_from:
  assumes "okay k h" "inv h \<Longrightarrow> wp m (\<lambda>_ t. inv t) (\<lambda>_ t. inv t) h" "keeps (scoped k) m"
  shows "wp m (\<lambda>_ t. okay k t) (\<lambda>_ t. okay k t) h"
proof -
  have "wp m (\<lambda>_ t. inv t) (\<lambda>_ t. inv t) h" "wp m (\<lambda>_ t. scoped k t) (\<lambda>_ t. scoped k t) h"
    using assms wp_keeps by (auto simp: okay_def)
  from wp_conj [OF this] show ?thesis by (simp add: okay_def)
qed

lemma wp_weaken_post: "wp m (\<lambda>_ t. P t) (\<lambda>_ t. False) h \<Longrightarrow> wp m (\<lambda>_ t. P t) (\<lambda>_ t. P t) h"
  by (erule wp_mono) auto

lemma okay_endpoint: "okay k h \<Longrightarrow> p < k \<Longrightarrow> ep_life (endpoints h p) < n_lives h
    \<and> lf_pid (lives h (ep_life (endpoints h p))) = ep_pid (endpoints h p)"
  by (simp add: okay_def scoped_def)

lemma endpoint_close_okay [keeping]:
  fixes L :: "'w native"
  assumes "p < k"
  shows "keeps (okay k) (endpoint_close L p)"
proof (rule keepsI)
  fix h :: "'w heap" assume h: "okay k h"
  have "wp (endpoint_close L p) (\<lambda>_ t. inv t) (\<lambda>_ t. inv t) h" if I: "inv h"
    unfolding endpoint_close_def wp_bind wp_gets
    by (rule wp_mono [OF life_close_inv [OF I]])
      (use okay_endpoint [OF h assms] in \<open>auto simp: wp_andthen wp_modify wp_ret intro: inv_core_same [rotated]\<close>)
  then show "wp (endpoint_close L p) (\<lambda>_ t. okay k t) (\<lambda>_ t. okay k t) h"
    by (rule okay_from [OF h _ scope.keeps_endpoint_close])
qed

lemma obtain_lease_okay [keeping]:
  assumes "p < k" "empty_handed L"
  shows "keeps (okay k) (obtain_lease L p w)"
  by (rule keepsI, rule okay_from, assumption) (use okay_endpoint assms in \<open>auto intro!: obtain_lease_inv keeping\<close>)

lemma wait_obtain_okay [keeping]:
  assumes "p < k" "empty_handed L"
  shows "keeps (okay k) (wait_obtain L p w timeout start readings)"
  unfolding wait_obtain_def by (intro keeping assms)

lemma enable_drain_okay [keeping]:
  fixes L :: "'w native"
  assumes "p < k"
  shows "keeps (okay k) (enable_drain L p)"
proof (rule keepsI)
  fix h :: "'w heap" assume h: "okay k h"
  have "wp (enable_drain L p) (\<lambda>_ t. inv t) (\<lambda>_ t. inv t) h" if I: "inv h"
    unfolding enable_drain_def wp_andthen
  proof (rule endpoint_checked)
    let ?e = "ep_life (endpoints h p)"
    assume "lf_ptr (lives h ?e) \<noteq> 0" "ep_pid (endpoints h p) = now_pid h"
    then have "inv (called L ?e (EnableDrain (lf_ptr (lives h ?e))) h)"
      using okay_endpoint [OF h assms] by (intro open_leaf [OF I]) auto
    then show "wp (bind (gets (\<lambda>h. ep_life (endpoints h p))) (\<lambda>e. bind (the_life e) (\<lambda>l.
      bind (ffi_on L e (EnableDrain (lf_ptr l))) (\<lambda>ans. bind (result_of ans) (\<lambda>r.
      andthen (check r ''enable_drain'' (TheEndpoint p)) (ret ())))))) (\<lambda>_ t. inv t) (\<lambda>_ t. inv t) h"
      by (simp add: wp_simps split: answer.split)
  qed (rule I)
  then show "wp (enable_drain L p) (\<lambda>_ t. okay k t) (\<lambda>_ t. okay k t) h"
    by (rule okay_from [OF h _ scope.keeps_obtain(4)])
qed

lemma life_request_close_okay:
  assumes "okay k h" "e < n_lives h"
  shows "wp (life_request_close L e) (\<lambda>_ t. okay k t) (\<lambda>_ t. okay k t) h"
  by (rule okay_from [OF assms(1)]) (use assms(2) in \<open>auto intro!: wp_weaken_post life_request_close_inv keeping\<close>)

lemma endpoint_collected_okay:
  assumes h: "okay k h" and p: "p < n_endpoints h"
  shows "wp (endpoint_collected L p) (\<lambda>_ t. okay k t) (\<lambda>_ t. okay k t) h"
proof -
  have o: "ep_life (endpoints h p) < n_lives h" using h p by (simp add: okay_def scoped_def)
  have step: "okay k (h\<lparr>shms := (shms h)(s := (shms h s)\<lparr>sh_local := filter q (sh_local (shms h s))\<rparr>)\<rparr>)" for s q
    using keepsD [OF scope.shm_writes(3)] keepsD [OF inert_steps(1)] h
    by (auto simp: okay_def set_shm_def modify_def scoped_def intro: inv_core_same [rotated])
  show ?thesis
    unfolding endpoint_collected_def wp_bind wp_gets wp_andthen
    by (cases "ep_owner (endpoints h p)")
      (use h o step in \<open>auto simp: wp_ret set_shm_def wp_modify intro!: life_request_close_okay\<close>)
qed

section \<open>Managers and their endpoints\<close>

lemma scoped_weaken: "scoped n h \<Longrightarrow> k \<le> n \<Longrightarrow> scoped k h"
  by (simp add: scoped_def)

lemma okay_all: "okay k h \<Longrightarrow> okay (n_endpoints h) h \<and> k \<le> n_endpoints h"
  by (simp add: okay_def scoped_def)

lemma okay_weaken: "okay n h \<Longrightarrow> k \<le> n \<Longrightarrow> okay k h"
  by (simp add: okay_def scoped_def)

lemma shm_close_okay [keeping]:
  fixes L :: "'w native"
  shows "keeps (okay k) (shm_close L s)"
proof (rule keepsI)
  fix h :: "'w heap" assume h: "okay k h"
  let ?n = "n_endpoints h" and ?locals = "sh_local (shms h s)"
  have loc: "p \<in> set ?locals \<Longrightarrow> p < ?n" for p using h by (auto simp: okay_def scoped_def)
  have n: "okay ?n h" "k \<le> ?n" using okay_all [OF h] by auto
  have inv_rest: "keeps (okay ?n) (authority_check u)" "keeps (okay ?n) (shm_check s)" "keeps (okay ?n) (object_close L x)" for u x
    by (intro keeps_okay keeping inert)+
  have mod: "keeps (okay ?n) (modify (\<lambda>h. h\<lparr>authorities := f h\<rparr>))" for f
    by (rule keeps_okay; rule keeps_modify) (auto intro: inv_core_same [rotated] elim!: scoped_same)
  have "keeps (okay ?n) (if ptr = 0 then ret ()
     else andthen (shm_check s)
       (andthen (for_each (\<lambda>p. bind (gets (\<lambda>h. endpoint_busy h p)) (\<lambda>busy.
          if busy then throw (Native BusyError busy_result ''shm.close: outstanding lease/view'' (TheEndpoint p)) else ret ())) ?locals)
       (andthen (for_each (\<lambda>p. andthen (endpoint_close L p) (ret ())) ?locals)
       (andthen (shm_check s)
       (bind (gets (\<lambda>h. shms h s)) (\<lambda>m.
        andthen (object_close L (sh_life m))
        (modify (\<lambda>h. h\<lparr>authorities := (authorities h)(sh_authority m := (authorities h (sh_authority m))
           \<lparr>au_objects := filter (\<lambda>k. k \<noteq> s) (au_objects (authorities h (sh_authority m)))\<rparr>)\<rparr>)))))))) " for ptr
    by (intro keeping inv_rest mod loc)
  then have "wp (shm_close L s) (\<lambda>_ t. okay ?n t) (\<lambda>_ t. okay ?n t) h"
    unfolding shm_close_def wp_bind wp_gets by (rule wp_keeps) (rule n(1))
  then show "wp (shm_close L s) (\<lambda>_ t. okay k t) (\<lambda>_ t. okay k t) h"
    by (rule wp_mono) (use n(2) okay_weaken in blast)+
qed

lemma okay_note: "(\<And>j. r \<noteq> TheLease j) \<Longrightarrow> keeps (okay k) (retain_failure r x)"
  by (intro keeps_okay keeping inert)

lemma normal_exit_okay [keeping]: "keeps (okay k) (normal_exit_cleanup L)"
  unfolding normal_exit_cleanup_def by (intro keeping okay_note) simp_all

lemma shm_endpoint_okay:
  fixes L :: "'w native"
  assumes L: "attaches L"
  shows "keeps (okay k) (shm_endpoint L s role slot_index)"
proof (rule keepsI)
  fix h :: "'w heap" assume h: "okay k h"
  have g: "keeps (okay k) (shm_grant L s (PInt (int slot_index)) PNone)" by (intro keeps_okay keeping inert)
  have e: "wp (bind (new_endpoint L role profile (PMap m) (Some s)) (\<lambda>p.
     andthen (set_shm s (\<lambda>m2. m2\<lparr>sh_local := sh_local m2 @ [p]\<rparr>)) (ret p))) (\<lambda>_ t. okay k t) (\<lambda>_ t. okay k t) t"
    if "okay k t" for t profile m
    unfolding wp_bind
  proof (rule wp_mono [OF new_endpoint_inv [OF _ _ L]])
    show "inv t" "scoped k t" using that by (simp_all add: okay_def)
    fix p u assume u: "inv u \<and> scoped k u \<and> p < n_endpoints u"
    have "inv (u\<lparr>shms := f\<rparr>)" for f using u by (auto intro: inv_core_same [rotated])
    moreover have "scoped k (u\<lparr>shms := (shms u)(s := (shms u s)\<lparr>sh_local := sh_local (shms u s) @ [p]\<rparr>)\<rparr>)"
      using u by (simp add: scoped_def)
    ultimately show "wp (andthen (set_shm s (\<lambda>m2. m2\<lparr>sh_local := sh_local m2 @ [p]\<rparr>)) (ret p)) (\<lambda>_ t. okay k t) (\<lambda>_ t. okay k t) u"
      by (simp add: wp_andthen wp_ret set_shm_def wp_modify okay_def)
  qed (simp add: okay_def)
  show "wp (shm_endpoint L s role slot_index) (\<lambda>_ t. okay k t) (\<lambda>_ t. okay k t) h"
    unfolding shm_endpoint_def
    apply (subst wp_bind, subst wp_gets, subst wp_bind)
    by (rule wp_mono [OF wp_keeps [OF g h]]) (use e in simp_all)
qed

lemma endpoints_okay [keeping]:
  assumes "attaches L"
  shows "keeps (okay k) (shm_producer L s i)" "keeps (okay k) (shm_consumer L s i)"
    "keeps (okay k) (new_endpoint L role profile grant owner)"
proof -
  show "keeps (okay k) (shm_producer L s i)" "keeps (okay k) (shm_consumer L s i)"
    unfolding shm_producer_def shm_consumer_def by (intro keeping shm_endpoint_okay assms)+
  show "keeps (okay k) (new_endpoint L role profile grant owner)"
    by (rule keepsI, rule wp_mono [OF new_endpoint_inv [OF _ _ assms]]) (auto simp: okay_def)
qed

lemma shm_collected_okay [keeping]: "keeps (okay k) (shm_collected L s)"
proof (rule keeps_okay [OF _ scope.keeps_managers(5)])
  show "keeps inv (shm_collected L s)"
    unfolding shm_collected_def
    by (intro keeping inert keeps_modify; (erule inv_core_same [rotated])?; simp)
qed

end
