(* ===== verification/Binding_Runs.thy ===== *)
theory Binding_Runs
  imports Binding_Sound
begin

text \<open>
  Runs of the binding: events of an application, the collector and the operating system in any order,
  each kept sound.
\<close>

section \<open>Events\<close>

text \<open>
  What an application, the collector and the operating system may do. A clock reading, a random identity
  and the failure of an allocation are part of the event.
\<close>

datatype event =
    MakeShm string pyval pyval pyval pyval bool bool pyval nat "nat \<Rightarrow> 8 word list"
  | Grant nat pyval pyval
  | Producer nat int
  | Consumer nat int
  | AckReceipt nat pyval
  | Reap nat int "rat option" rat "rat list"
  | RetireShm nat pyval
  | Successor nat nat "nat \<Rightarrow> 8 word list"
  | CloseShm nat
  | Connect bool nat pyval
  | Obtain nat bool
  | WaitObtain nat bool "rat option" rat "rat list"
  | Drain nat
  | CloseEndpoint nat
  | TakeBuffer nat bool
  | CommitLease nat pyval pyval pyval
  | AbortLease nat
  | ReleaseLease nat
  | AbandonLease nat
  | ExitLease nat
  | CopyLease nat bool
  | GetBuffer nat bool
  | ReleaseBuffer nat
  | FinalizeBuffer nat
  | ClearBuffer nat
  | DeallocBuffer nat
  | FinalizePin nat
  | CollectLease nat
  | CollectEndpoint nat
  | CollectShm nat
  | CollectAuthority nat
  | Exit
  | Fork int

text \<open>The object an event names exists; the wrapper of a lease is alive as long as its pin is. The
  collector clears a finalized exporter only, and a process identifier is not reused by a fork.\<close>

definition holds_lease :: "'w heap \<Rightarrow> nat \<Rightarrow> bool" where
  "holds_lease h i \<longleftrightarrow> i < n_leases h \<and> i \<notin> finalized h"

fun enabled :: "'w heap \<Rightarrow> event \<Rightarrow> bool" where
  "enabled h (Grant s i pid) = (s < n_shms h)"
| "enabled h (Producer s i) = (s < n_shms h)"
| "enabled h (Consumer s i) = (s < n_shms h)"
| "enabled h (AckReceipt s r) = (s < n_shms h)"
| "enabled h (Reap s c t b ts) = (s < n_shms h)"
| "enabled h (RetireShm s r) = (s < n_shms h)"
| "enabled h (Successor s t u) = (s < n_shms h)"
| "enabled h (CloseShm s) = (s < n_shms h)"
| "enabled h (Obtain p w) = (p < n_endpoints h)"
| "enabled h (WaitObtain p w t b ts) = (p < n_endpoints h)"
| "enabled h (Drain p) = (p < n_endpoints h)"
| "enabled h (CloseEndpoint p) = (p < n_endpoints h)"
| "enabled h (TakeBuffer i oom) = holds_lease h i"
| "enabled h (CommitLease i n k m) = holds_lease h i"
| "enabled h (AbortLease i) = holds_lease h i"
| "enabled h (ReleaseLease i) = holds_lease h i"
| "enabled h (AbandonLease i) = holds_lease h i"
| "enabled h (ExitLease i) = holds_lease h i"
| "enabled h (CopyLease i oom) = holds_lease h i"
| "enabled h (GetBuffer b w) = (b < n_exporters h)"
| "enabled h (ReleaseBuffer b) = (b < n_exporters h \<and> x_exports (exporters h b) > 0)"
| "enabled h (FinalizeBuffer b) = (b < n_exporters h)"
| "enabled h (ClearBuffer b) = (b < n_exporters h \<and> x_close_requested (exporters h b))"
| "enabled h (DeallocBuffer b) = (b < n_exporters h \<and> x_exports (exporters h b) = 0)"
| "enabled h (FinalizePin i) = (i < n_leases h)"
| "enabled h (CollectEndpoint p) = (p < n_endpoints h)"
| "enabled h (CollectShm s) = (s < n_shms h)"
| "enabled h (CollectAuthority u) = (u < n_authorities h)"
| "enabled h (Fork pid) = ((\<forall>e < n_lives h. lf_pid (lives h e) \<noteq> pid) \<and> (\<forall>b < n_exporters h. x_pid (exporters h b) \<noteq> pid)
     \<and> (\<forall>s < n_shms h. sh_pid (shms h s) \<noteq> pid) \<and> (\<forall>u < n_authorities h. au_pid (authorities h u) \<noteq> pid)
     \<and> (\<forall>x < n_objects h. ol_pid (objects h x) \<noteq> pid))"
| "enabled h v = True"

definition ignore :: "('w, 'a) py \<Rightarrow> ('w, unit) py" where
  "ignore m = andthen m (ret ())"

fun perform :: "'w native \<Rightarrow> event \<Rightarrow> ('w, unit) py" where
  "perform L (MakeShm mode cap pay np nc ck park backing t u) = ignore (EliteShm L mode cap pay np nc ck park backing None t u)"
| "perform L (Grant s i pid) = ignore (shm_grant L s i pid)"
| "perform L (Producer s i) = ignore (shm_producer L s i)"
| "perform L (Consumer s i) = ignore (shm_consumer L s i)"
| "perform L (AckReceipt s r) = shm_ack_cleanup L s r"
| "perform L (Reap s c t b ts) = ignore (shm_reap L s c t b ts)"
| "perform L (RetireShm s r) = shm_retire L s r"
| "perform L (Successor s t u) = ignore (shm_successor L s t u)"
| "perform L (CloseShm s) = shm_close L s"
| "perform L (Connect spsc role g) = ignore (new_endpoint L role (if spsc then 1 else 2) g None)"
| "perform L (Obtain p w) = ignore (obtain_lease L p w)"
| "perform L (WaitObtain p w t b ts) = ignore (wait_obtain L p w t b ts)"
| "perform L (Drain p) = enable_drain L p"
| "perform L (CloseEndpoint p) = ignore (endpoint_close L p)"
| "perform L (TakeBuffer i oom) = ignore (lease_buffer L oom i)"
| "perform L (CommitLease i n k m) = lease_commit L i n k m"
| "perform L (AbortLease i) = lease_abort L i"
| "perform L (ReleaseLease i) = lease_release L i"
| "perform L (AbandonLease i) = lease_abandon L i"
| "perform L (ExitLease i) = lease_exit L i"
| "perform L (CopyLease i oom) = lease_copy L oom i"
| "perform L (GetBuffer b w) = buffer_get L b w"
| "perform L (ReleaseBuffer b) = buffer_release L b"
| "perform L (FinalizeBuffer b) = buffer_finalize L b"
| "perform L (ClearBuffer b) = buffer_clear b"
| "perform L (DeallocBuffer b) = buffer_dealloc L b"
| "perform L (FinalizePin i) = pin_finalized L i"
| "perform L (CollectLease i) = collect_lease i"
| "perform L (CollectEndpoint p) = endpoint_collected L p"
| "perform L (CollectShm s) = shm_collected L s"
| "perform L (CollectAuthority u) = authority_del L u"
| "perform L Exit = normal_exit_cleanup L"
| "perform L (Fork pid) = modify (\<lambda>h. h\<lparr>now_pid := pid\<rparr>)"

text \<open>
  The heap of a fresh interpreter, whose warning filter does not turn a \<open>ResourceWarning\<close> into an error
  (no event changes the filter); an exception of one event does not end the run.
\<close>

definition fresh_heap :: "int \<Rightarrow> 'w \<Rightarrow> 'w heap" where
  "fresh_heap pid w = \<lparr>now_pid = pid, world = w, lives = \<lambda>_. undefined, n_lives = 0, leases = \<lambda>_. undefined,
     wrapper_exporter = \<lambda>_. None, n_leases = 0, exporters = \<lambda>_. undefined, n_exporters = 0, objects = \<lambda>_. undefined,
     n_objects = 0, authorities = \<lambda>_. undefined, n_authorities = 0,
     shms = \<lambda>_. \<lparr>sh_pid = 0, sh_authority = 0, sh_life = 0, sh_local = [], sh_issued = [], sh_spsc = False, sh_capacity = 0,
       sh_max_payload = 0, sh_producers = 0, sh_consumers = 0, sh_checksum = False, sh_parkable = False, sh_session = []\<rparr>,
     n_shms = 0, endpoints = \<lambda>_. undefined, n_endpoints = 0, live_shms = [], failed = [], warn_error = False, calls = \<lambda>_. [],
     finalized = {}, dead = {}\<rparr>"

definition happen :: "'w native \<Rightarrow> 'w heap \<Rightarrow> event \<Rightarrow> 'w heap" where
  "happen L h v = (if enabled h v then snd (perform L v h) else h)"

definition after_events :: "'w native \<Rightarrow> 'w heap \<Rightarrow> event list \<Rightarrow> 'w heap" where
  "after_events L = foldl (happen L)"

lemma after_events_simps [simp]: "after_events L h [] = h" "after_events L h (v # vs) = after_events L (happen L h v) vs" "after_events L h (vs @ [v]) = happen L (after_events L h vs) v"
  by (simp_all add: after_events_def)

lemma after_events_induct [consumes 1, case_names step]:
  assumes "I h" "\<And>h v. I h \<Longrightarrow> enabled h v \<Longrightarrow> I (snd (perform L v h))"
  shows "I (after_events L h vs)"
  using assms(1) by (induction vs arbitrary: h) (simp_all add: happen_def assms(2))

section \<open>Every event keeps the heap sound\<close>

lemma keeps_ignore [keeping]: "keeps I m \<Longrightarrow> keeps I (ignore m)"
  unfolding ignore_def by (intro keeping)

lemma okay_result: "wp m (\<lambda>_ t. I t) (\<lambda>_ t. I t) h \<Longrightarrow> I (snd (m h))"
  by (simp add: wp_same)

lemma wp_ignore: "wp m (\<lambda>_ t. I t) (\<lambda>_ t. I t) h \<Longrightarrow> wp (ignore m) (\<lambda>_ t. I t) (\<lambda>_ t. I t) h"
  unfolding ignore_def wp_andthen by (erule wp_mono) (simp_all add: wp_ret)

lemma wp_drop: "wp m (\<lambda>a t. I t \<and> P a t) (\<lambda>a t. I t \<and> R a t) h \<Longrightarrow> wp m (\<lambda>_ t. I t) (\<lambda>_ t. I t) h"
  by (erule wp_mono) auto

lemma wp_silent: "wp m (\<lambda>a t. I t \<and> P a t) (\<lambda>_ _. False) h \<Longrightarrow> wp m (\<lambda>_ t. I t) (\<lambda>_ t. I t) h"
  by (erule wp_mono) auto

lemma transfer_okay:
  assumes "inv h" "holds_lease h i" "ok_transfers L"
  shows "wp (transfer L i a) (\<lambda>_ t. inv t) (\<lambda>_ t. inv t) h"
  using assms not_finalized_alive [of "{}" "{}" h i]
  by (intro wp_mono [OF transfer_inv]) (auto simp: holds_lease_def)

lemma lease_ops_inv:
  assumes I: "inv h" and i: "holds_lease h i" and L: "ok_transfers L"
  shows "wp (lease_commit L i n k m) (\<lambda>_ t. inv t) (\<lambda>_ t. inv t) h" "wp (lease_abort L i) (\<lambda>_ t. inv t) (\<lambda>_ t. inv t) h"
    "wp (lease_release L i) (\<lambda>_ t. inv t) (\<lambda>_ t. inv t) h" "wp (lease_abandon L i) (\<lambda>_ t. inv t) (\<lambda>_ t. inv t) h"
    "wp (lease_exit L i) (\<lambda>_ t. inv t) (\<lambda>_ t. inv t) h"
proof -
  note T = transfer_okay [OF I i L]
  show c: "wp (lease_abort L i) (\<lambda>_ t. inv t) (\<lambda>_ t. inv t) h" "wp (lease_release L i) (\<lambda>_ t. inv t) (\<lambda>_ t. inv t) h"
    "wp (lease_abandon L i) (\<lambda>_ t. inv t) (\<lambda>_ t. inv t) h"
    by (simp_all add: lease_abort_def lease_release_def lease_abandon_def T)
  show "wp (lease_commit L i n k m) (\<lambda>_ t. inv t) (\<lambda>_ t. inv t) h"
    by (auto simp: lease_commit_def wp_bind wp_lift_sum wp_reads wp_throw T I split: sum.splits)
  show "wp (lease_exit L i) (\<lambda>_ t. inv t) (\<lambda>_ t. inv t) h"
    by (simp add: lease_exit_def wp_bind wp_reads wp_ret c I)
qed

lemma lease_copy_inv:
  fixes h :: "'w heap"
  assumes I: "inv h" and i: "holds_lease h i" and L: "ok_transfers L"
  shows "wp (lease_copy L oom i) (\<lambda>_ t. inv t) (\<lambda>_ t. inv t) h"
  unfolding lease_copy_def wp_bind
proof (rule wp_mono [OF lease_buffer_inv [OF I _ _ L]])
  show "i < n_leases h" "i \<notin> finalized h" using i by (simp_all add: holds_lease_def)
  fix b and t :: "'w heap" assume "inv t \<and> b < n_exporters t"
  then show "wp (buffer_release L b) (\<lambda>_ t. inv t) (\<lambda>_ t. inv t) t"
    by (intro wp_silent [OF buffer_release_inv [OF _ _ L]]) auto
qed

text \<open>The close request of an exporter stays.\<close>

interpretation requested: outsider "\<lambda>h. x_close_requested (exporters h b)" for b
  by unfold_locales
    (auto simp: keeps_wp wp_simps wp_modify upd_lease_def upd_life_def note_failure_def called_def)

lemma keeps_requested [keeping]:
  "keeps (\<lambda>h. x_close_requested (exporters h b)) (set_exporter c (\<lambda>y. y\<lparr>x_closing := True, x_closed := True\<rparr>))"
  "keeps (\<lambda>h. x_close_requested (exporters h b)) (set_exporter c (\<lambda>y. y\<lparr>x_closed := False, x_closing := False\<rparr>))"
  "keeps (\<lambda>h. x_close_requested (exporters h b))
     (set_exporter c (\<lambda>y. y\<lparr>x_address := None, x_closing := False, x_owner := None, x_cleanup := None\<rparr>))"
  by (auto simp: keeps_wp wp_simps)

lemma close_buffer_requested: "keeps (\<lambda>h. x_close_requested (exporters h b)) (attempt (close_buffer L c) (\<lambda>e. cleanup_unraisable c))"
  unfolding close_buffer_def same_process_def cleanup_unraisable_def exporter_cleanup_failed_def by (intro keeping)

lemma buffer_finalize_requested: "wp (buffer_finalize L b) (\<lambda>_ t. x_close_requested (exporters t b)) (\<lambda>_ t. x_close_requested (exporters t b)) h"
proof -
  have "keeps (\<lambda>h. x_close_requested (exporters h b)) (bind getpid (\<lambda>pid. bind (the_exporter b) (\<lambda>x.
       if x_exports x = 0 \<and> \<not> x_closed x \<and> pid = x_pid x \<and> x_cleanup x \<noteq> None
       then attempt (close_buffer L b) (\<lambda>e. cleanup_unraisable b) else ret ())))"
    by (intro keeping close_buffer_requested)
  then show ?thesis unfolding buffer_finalize_def wp_andthen wp_steps by (rule wp_keeps) simp
qed

lemma buffer_dealloc_inv:
  assumes I: "inv h" and b: "b < n_exporters h" and L: "ok_transfers L"
  shows "wp (buffer_dealloc L b) (\<lambda>_ t. inv t) (\<lambda>_ t. False) h"
  unfolding buffer_dealloc_def wp_andthen
  by (rule wp_mono [OF wp_conj [OF buffer_finalize_inv [OF I b L] buffer_finalize_requested]])
    (use b in \<open>auto simp: steady_def intro!: wp_mono [OF buffer_clear_inv]\<close>)

lemma fork_inv:
  assumes I: "inv h" and pid: "enabled h (Fork pid)"
  shows "inv (h\<lparr>now_pid := pid\<rparr>)"
proof -
  let ?h = "h\<lparr>now_pid := pid\<rparr>"
  have ex: "exported ?h j = exported h j" "noted ?h j = noted h j" "rooted ?h j = rooted h j" for j
    by (simp_all add: exported_def noted_def rooted_def)
  have "lease_core ?h j" if "j < n_leases h" for j
    using inv_lease [OF I that] unfolding lease_core_def ex by simp
  moreover have "kept ?h j" if "j < n_leases h" for j
    using pid lease_coreD(1) [OF inv_lease [OF I that]] by (auto simp: kept_def)
  moreover have "exporter_core ?h b \<and> settled ?h b" if "b < n_exporters h" for b
    using inv_exporter(1) [OF I that] pid that unfolding exporter_core_def settled_def Let_def by auto
  moreover have "life_ok ?h e" if "e < n_lives h" for e
    using inv_life [OF I that] life_ok_cong [of ?h h e] by simp
  ultimately show ?thesis using I unfolding inv_but_def by simp
qed

lemma exporter_ops_inv:
  assumes I: "inv h" and L: "ok_transfers L" and b: "b < n_exporters h"
  shows "wp (buffer_get L b w) (\<lambda>_ t. inv t) (\<lambda>_ t. inv t) h" "wp (buffer_release L b) (\<lambda>_ t. inv t) (\<lambda>_ t. inv t) h"
    "wp (buffer_finalize L b) (\<lambda>_ t. inv t) (\<lambda>_ t. inv t) h" "wp (buffer_dealloc L b) (\<lambda>_ t. inv t) (\<lambda>_ t. inv t) h"
    "x_close_requested (exporters h b) \<Longrightarrow> wp (buffer_clear b) (\<lambda>_ t. inv t) (\<lambda>_ t. inv t) h"
  by (rule wp_drop [OF buffer_get_inv [OF I b L]], rule wp_silent [OF buffer_release_inv [OF I b L]],
      rule wp_silent [OF buffer_finalize_inv [OF I b L]], rule wp_weaken_post [OF buffer_dealloc_inv [OF I b L]],
      rule wp_silent [OF buffer_clear_inv [OF I b]])

lemma collector_inv:
  assumes I: "inv h"
  shows "i < n_leases h \<Longrightarrow> ok_transfers L \<Longrightarrow> wp (pin_finalized L i) (\<lambda>_ t. inv t) (\<lambda>_ t. inv t) h"
    "wp (collect_lease i) (\<lambda>_ t. inv t) (\<lambda>_ t. inv t) h"
    "ok_transfers L \<Longrightarrow> holds_lease h i \<Longrightarrow> wp (lease_buffer L oom i) (\<lambda>_ t. inv t) (\<lambda>_ t. inv t) h"
  by (rule wp_weaken_post [OF pin_finalized_inv [OF I]], assumption+, rule wp_weaken_post [OF collect_lease_inv [OF I]],
      rule wp_mono [OF lease_buffer_inv [OF I]]) (auto simp: holds_lease_def)

definition local_event :: "event \<Rightarrow> bool" where
  "local_event v \<longleftrightarrow> (case v of TakeBuffer i oom \<Rightarrow> True | CommitLease i n k m \<Rightarrow> True | AbortLease i \<Rightarrow> True
     | ReleaseLease i \<Rightarrow> True | AbandonLease i \<Rightarrow> True | ExitLease i \<Rightarrow> True | CopyLease i oom \<Rightarrow> True
     | GetBuffer b w \<Rightarrow> True | ReleaseBuffer b \<Rightarrow> True | FinalizeBuffer b \<Rightarrow> True | ClearBuffer b \<Rightarrow> True
     | DeallocBuffer b \<Rightarrow> True | FinalizePin i \<Rightarrow> True | CollectLease i \<Rightarrow> True | _ \<Rightarrow> False)"

lemma event_inv:
  assumes I: "inv h" and v: "enabled h v" and L: "ok_transfers L" and v': "local_event v"
  shows "wp (perform L v) (\<lambda>_ t. inv t) (\<lambda>_ t. inv t) h"
  using v v'
  by (cases v)
    (simp_all add: local_event_def lease_ops_inv [OF I _ L] lease_copy_inv [OF I _ L] exporter_ops_inv [OF I L]
      collector_inv [OF I] wp_ignore L)

lemma local_scoped: "local_event v \<Longrightarrow> keeps (scoped k) (perform L v)"
  by (cases v) (auto simp: local_event_def intro!: keeping)

text \<open>The events of managers.\<close>

lemma manager_okay [keeping]:
  "keeps (okay k) (EliteShm L mode capacity payload producers consumers ck park backing authority time_ns uuid)"
  "keeps (okay k) (shm_grant L s i pid)" "keeps (okay k) (shm_ack_cleanup L s receipt)" "keeps (okay k) (shm_retire L s reason)"
  "keeps (okay k) (shm_reap L s child timeout start readings)" "keeps (okay k) (shm_successor L s time_ns uuid)"
  "keeps (okay k) (authority_del L u)"
  by (intro keeps_okay inert keeping)+

lemma event_okay:
  fixes h :: "'w heap"
  assumes h: "okay k h" and v: "enabled h v" and L: "documented L"
  shows "okay k (snd (perform L v h))"
proof -
  have L': "empty_handed L" "ok_transfers L" "attaches L" using L by (simp_all add: documented_def)
  note n = okay_all [OF h]
  have all: "wp m (\<lambda>_ t. okay k t) (\<lambda>_ t. okay k t) h" if "keeps (okay (n_endpoints h)) m" for m :: "('w, 'b) py"
    by (rule wp_mono [OF wp_keeps [OF that]]) (use n okay_weaken in blast)+
  have "wp (perform L v) (\<lambda>_ t. okay k t) (\<lambda>_ t. okay k t) h"
  proof (cases "local_event v")
    case True
    then show ?thesis using event_inv [OF _ v L'(2)] local_scoped by (intro okay_from [OF h])
  next
    case local: False
    show ?thesis
    proof (cases v)
      case (Fork pid)
      have "scoped k (h\<lparr>now_pid := pid\<rparr>)" using h by (simp add: okay_def scoped_def)
      then show ?thesis using fork_inv [of h pid] h v Fork by (simp add: okay_def wp_modify)
    next
      case (CollectEndpoint p)
      then show ?thesis using v endpoint_collected_okay [OF h] by simp
    qed (use v local in \<open>simp_all add: local_event_def wp_ignore all keeping endpoints_okay [OF L'(3)] obtain_lease_okay [OF _ L'(1)]
        wait_obtain_okay [OF _ L'(1)]\<close>)
  qed
  then show ?thesis by (rule okay_result)
qed

lemma fresh_okay: "okay 0 (fresh_heap pid w)"
  by (simp add: okay_def scoped_def inv_but_def fresh_heap_def)

theorem after_events_okay:
  assumes "documented L"
  shows "okay 0 (after_events L (fresh_heap pid w) vs)"
  by (rule after_events_induct [where I = "okay 0", OF fresh_okay]) (rule event_okay [OF _ _ assms])

end
