(* ===== verification/Binding_Safety.thy ===== *)
theory Binding_Safety
  imports Binding_Runs
begin

text \<open>
  What background events may raise, and consequences of the invariant: a lease with live views is not
  transferred, an endpoint with a token is not detached, the deferred detachment happens, poison and the
  admitted configurations stay, and polling returns.
\<close>

section \<open>Steps that raise nothing but the warning\<close>

text \<open>
  A program is quiet when all it can raise is the warning of a retained failure, after the failure has
  been recorded and only when the filter turns the warning into an error.
\<close>

definition warned :: "pyexn \<Rightarrow> 'w heap \<Rightarrow> bool" where
  "warned e h \<longleftrightarrow> warn_error h \<and> (\<exists>r x. e = Warned x \<and> (r, x) \<in> set (failed h))"

definition quiet :: "('w, 'a) py \<Rightarrow> bool" where
  "quiet m \<longleftrightarrow> (\<forall>h. wp m (\<lambda>_ _. True) warned h)"

lemma quietI: "(\<And>h. wp m (\<lambda>_ _. True) warned h) \<Longrightarrow> quiet m"
  by (simp add: quiet_def)

lemma quietD: "quiet m \<Longrightarrow> wp m (\<lambda>_ _. True) warned h"
  by (simp add: quiet_def)

lemma quiet_reads [intro!]: "quiet (ret x)" "quiet (gets f)" "quiet (modify g)"
  by (simp_all add: quiet_def wp_simps)

lemma quiet_note [intro!]: "quiet (retain_failure r x)"
  by (auto simp: quiet_def wp_steps warned_def)

lemma quiet_attempt [intro!]: "(\<And>e. quiet (k e)) \<Longrightarrow> quiet (attempt m k)"
  unfolding quiet_def wp_attempt
  by (intro allI, rule wp_mono [where Q = "\<lambda>_ _. True" and E = "\<lambda>_ _. True"]) (simp_all add: wp_same)

lemma quiet_bind [intro!]: "quiet m \<Longrightarrow> (\<And>a. quiet (k a)) \<Longrightarrow> quiet (bind m k)"
  unfolding quiet_def wp_bind by (blast intro: wp_mono)

lemma quiet_andthen [intro!]: "quiet m \<Longrightarrow> quiet n \<Longrightarrow> quiet (andthen m n)"
  by (simp add: andthen_def quiet_bind)

lemma quiet_branches [intro!]:
  "quiet m \<Longrightarrow> quiet n \<Longrightarrow> quiet (if b then m else n)"
  "quiet n \<Longrightarrow> (\<And>a. quiet (k a)) \<Longrightarrow> quiet (case x of None \<Rightarrow> n | Some a \<Rightarrow> k a)"
  by (auto split: option.split)

lemma quiet_for_each [intro!]: "(\<And>x. quiet (f x)) \<Longrightarrow> quiet (for_each f xs)"
  by (induction xs) auto

lemma quiet_steps [intro!]:
  "quiet (set_lease i f)" "quiet (set_exporter b g)" "quiet (set_object x q)" "quiet (set_life e l)" "quiet (set_shm s m)"
  "quiet getpid" "quiet (the_lease i)" "quiet (the_exporter b)" "quiet (the_object x)" "quiet (the_life e)" "quiet (collect_lease i)"
  by (simp_all add: quiet_def wp_simps set_shm_def collect_lease_def)

lemma quiet_endpoint [intro!]: "quiet (cleanup L i)" "quiet (life_request_close L e)" "quiet (object_request_close L x)"
  unfolding cleanup_def life_request_close_def life_try_close_def object_request_close_def object_try_close_def
  by (intro quiet_attempt quiet_note quiet_bind quiet_andthen quiet_steps quiet_reads quiet_branches)+

lemma quiet_exporter [intro!]: "quiet (deferred_close L b)" "quiet (buffer_finalize L b)" "quiet (buffer_clear b)"
  unfolding deferred_close_def buffer_finalize_def buffer_clear_def cleanup_unraisable_def
  by (intro quiet_attempt quiet_note quiet_bind quiet_andthen quiet_steps quiet_reads quiet_branches)+

text \<open>The events of the collector and the exit of the interpreter.\<close>

definition background :: "event \<Rightarrow> bool" where
  "background v \<longleftrightarrow> (case v of ReleaseBuffer b \<Rightarrow> True | FinalizeBuffer b \<Rightarrow> True | ClearBuffer b \<Rightarrow> True
     | DeallocBuffer b \<Rightarrow> True | FinalizePin i \<Rightarrow> True | CollectLease i \<Rightarrow> True | CollectEndpoint p \<Rightarrow> True
     | CollectShm s \<Rightarrow> True | CollectAuthority u \<Rightarrow> True | Exit \<Rightarrow> True | _ \<Rightarrow> False)"

lemma background_quiet: "background v \<Longrightarrow> quiet (perform L v)"
  unfolding background_def
  by (cases v)
    (auto simp: buffer_release_def buffer_dealloc_def pin_finalized_def request_cleanup_def endpoint_collected_def
      shm_collected_def authority_del_def normal_exit_cleanup_def)

text \<open>No step changes the filter.\<close>

lemma wp_fun: "wp (\<lambda>h. (Inr (f h), g h)) Q E s \<longleftrightarrow> Q (f s) (g s)"
  by (simp add: wp_def)

interpretation filter_kept: onlooker "\<lambda>h. warn_error h = b" for b
  by unfold_locales
    (auto simp: keeps_wp wp_simps wp_modify upd_lease_def upd_life_def upd_exporter_def note_failure_def called_def
      set_wrapper_def wp_module_create with_lease_def wp_fun new_life_def new_object_life_def new_shm_def
      set_shm_def set_endpoint_def collect_lease_def Let_def split: option.splits)

lemma filter_event: "keeps (\<lambda>h. warn_error h = b) (perform L v)"
  by (cases v) (auto intro!: keeping keeps_modify)

text \<open>What the exporter's own events raise goes to the interpreter's hook.\<close>

definition exporter_event :: "event \<Rightarrow> bool" where
  "exporter_event v \<longleftrightarrow> (case v of ReleaseBuffer b \<Rightarrow> True | FinalizeBuffer b \<Rightarrow> True | ClearBuffer b \<Rightarrow> True
     | DeallocBuffer b \<Rightarrow> True | _ \<Rightarrow> False)"

lemma wp_deferred: "wp (attempt (close_buffer L b) (\<lambda>e. cleanup_unraisable b)) (\<lambda>_ _. True) (\<lambda>_ _. False) h"
  unfolding wp_attempt
  by (rule wp_mono [where Q = "\<lambda>_ _. True" and E = "\<lambda>_ _. True"])
    (auto simp: wp_same cleanup_unraisable_def exporter_cleanup_failed_def wp_simps split: option.split)

lemma exporter_silent:
  assumes "exporter_event v"
  shows "wp (perform L v) (\<lambda>_ _. True) (\<lambda>_ _. False) h"
  using assms unfolding exporter_event_def
  by (cases v)
    (simp_all add: buffer_release_def deferred_close_def buffer_dealloc_def buffer_finalize_def buffer_clear_def wp_bind
      wp_andthen wp_reads wp_steps wp_if wp_ret wp_mono [OF wp_deferred])

section \<open>Held tokens\<close>

lemma view_blocks_transfer:
  assumes "wrapper_exporter h i = Some b" "x_exports (exporters h b) > 0" "\<not> x_closed (exporters h b)"
  shows "\<exists>x. transfer L i a h = (Inl x, h)"
  using assms
  by (auto simp: transfer_def end_exports_def close_buffer_def same_process_def andthen_def bind_def gets_def the_exporter_def
      getpid_def guard_def throw_def ret_def)

lemma viewed_lease:
  assumes I: "inv h" and b: "b < n_exporters h" "x_exports (exporters h b) > 0"
  obtains i where "i < n_leases h" "x_owner (exporters h b) = Some i" "ls_active (leases h i)" "ls_view_pin (leases h i)"
    "lf_ptr (life_of h i) \<noteq> 0" "wrapper_exporter h i = Some b" "\<not> x_closed (exporters h b)"
proof -
  have xc: "exporter_core h b" by (rule inv_exporter(1) [OF I b(1)]) simp
  note x = exporter_coreD [OF xc]
  from x(4) [OF x(2) [OF b(2)]] obtain i where i: "i < n_leases h" "x_owner (exporters h b) = Some i" "ls_view_pin (leases h i)"
    "wrapper_exporter h i = Some b" by blast
  note l = lease_coreD [OF inv_lease [OF I i(1)]]
  show thesis using that [OF i(1,2) l(5) [OF i(3)] i(3) l(4) [OF l(5) [OF i(3)]] i(4) x(2) [OF b(2)]] .
qed

lemma busy_while_held:
  assumes I: "inv h" and j: "j < n_leases h" "ls_active (leases h j)" and pid: "lf_pid (life_of h j) = now_pid h"
  shows "life_busy h (ls_endpoint (leases h j))" "j \<notin> dead h"
proof -
  note core = lease_coreD [OF inv_lease [OF I j(1)]]
  show nd: "j \<notin> dead h"
  proof
    assume "j \<in> dead h"
    from core(9) [OF this] inv_kept [OF I j(1)] pid j(2) show False by (auto simp: rooted_iff kept_def)
  qed
  show "life_busy h (ls_endpoint (leases h j))"
    using core(3) [OF j(2)] nd j(2) by (simp add: life_busy_def pinned_def)
qed

lemma held_not_detached:
  assumes I: "inv h" and j: "j < n_leases h" "ls_active (leases h j)"
  shows "\<exists>x. life_close L (ls_endpoint (leases h j)) h = (Inl x, h)"
proof -
  have p: "lf_ptr (life_of h j) \<noteq> 0" using lease_coreD(4) [OF inv_lease [OF I j(1)] j(2)] .
  show ?thesis
  proof (cases "lf_pid (life_of h j) = now_pid h")
    case True
    from busy_while_held(1) [OF I j True] p show ?thesis
      by (auto simp: life_close_def life_check_def the_life_def getpid_def gets_def bind_def andthen_def guard_def throw_def ret_def)
  qed (use p in \<open>auto simp: life_close_def life_check_def the_life_def getpid_def gets_def bind_def andthen_def guard_def throw_def ret_def\<close>)
qed

section \<open>The deferred detachment\<close>

lemma finish_then_detach:
  assumes lv: "live_lease h i" and v: "\<not> ls_view_pin (leases h i)" and e: "e = ls_endpoint (leases h i)"
    and req: "lf_close_requested (lives h e)"
    and ans: "fst (L (action_call a (lf_ptr (lives h e)) (ls_lease (leases h i))) (world h)) = Returned r x" "transferred a r"
  shows "\<exists>d rest. calls (snd (finish L i a h)) e = calls h e
     @ [(now_pid h, action_call a (lf_ptr (lives h e)) (ls_lease (leases h i)), Returned r x),
        (now_pid h, Detach (lf_ptr (lives h e)), d)]"
proof -
  let ?c = "action_call a (lf_ptr (lives h e)) (ls_lease (leases h i))"
  let ?h1 = "upd_life e (\<lambda>l. l\<lparr>lf_pin := None\<rparr>) (upd_lease i (\<lambda>s. s\<lparr>ls_active := False, ls_address := None\<rparr>) (called L e ?c h))"
  let ?d = "fst (L (Detach (lf_ptr (lives h e))) (world ?h1))"
  define log where "log = calls h e @ [(now_pid h, ?c, Returned r x), (now_pid h, Detach (lf_ptr (lives h e)), ?d)]"
  have lv': "lf_pid (lives h e) = now_pid h" "lf_ptr (lives h e) \<noteq> 0" "\<not> lf_poisoned (lives h e)" using lv e by (simp_all add: live_lease_def)
  have note_: "wp (notify_owner L owner rc) (\<lambda>_ t. calls t e = log) (\<lambda>_ t. calls t e = log) t" if "calls t e = log" for owner rc t
    by (rule wp_mono [OF notify_owner_same]) (use that in \<open>auto simp: core_same_def\<close>)
  have close: "wp (life_close L e) (\<lambda>_ t. calls t e = log) (\<lambda>_ t. calls t e = log) ?h1"
    using lv' ans(1)
    by (cases ?d) (simp_all add: life_close_def life_check_def life_busy_def pinned_def wp_simps wp_mono [OF note_] log_def)
  have try_: "wp (life_try_close L e) (\<lambda>_ t. calls t e = log) (\<lambda>_ t. calls t e = log) ?h1"
  proof -
    have "wp (attempt (andthen (life_close L e) (ret ())) (retain_failure (TheLife e))) (\<lambda>_ t. calls t e = log) (\<lambda>_ t. calls t e = log) ?h1"
      unfolding wp_attempt wp_andthen by (rule wp_mono [OF close]) (simp_all add: wp_simps)
    then show ?thesis using lv' req by (simp add: life_try_close_def wp_bind wp_reads wp_gets life_busy_def pinned_def)
  qed
  have "wp (finish L i a) (\<lambda>_ t. calls t e = log) (\<lambda>_ t. calls t e = log) h"
    unfolding finish_def wp_bind wp_reads
    unfolding wp_andthen
    by (rule wp_assert_live) (use lv v ans in \<open>auto simp: e [symmetric] wp_simps intro!: wp_mono [OF try_]\<close>)
  then show ?thesis unfolding wp_same log_def by blast
qed

section \<open>Poison\<close>

interpretation poison: onlooker "\<lambda>h. e < n_lives h \<and> lf_poisoned (lives h e)" for e
  by unfold_locales
    (auto simp: keeps_wp wp_simps wp_modify upd_lease_def upd_life_def upd_exporter_def note_failure_def called_def
      set_wrapper_def wp_module_create with_lease_def wp_fun new_life_def new_object_life_def new_shm_def
      set_shm_def set_endpoint_def collect_lease_def Let_def split: option.splits)

lemma poison_event: "keeps (\<lambda>h. e < n_lives h \<and> lf_poisoned (lives h e)) (perform L v)"
  by (cases v) (auto intro!: keeping keeps_modify)

section \<open>Admitted managers\<close>

definition shm_admitted :: "shm \<Rightarrow> bool" where
  "shm_admitted m \<longleftrightarrow> 1 \<le> sh_producers m \<and> 1 \<le> sh_consumers m \<and> sh_producers m + sh_consumers m \<le> sh_capacity m
     \<and> (sh_spsc m \<longrightarrow> sh_producers m = 1 \<and> sh_consumers m = 1) \<and> (sh_parkable m \<longrightarrow> sh_spsc m)"

interpretation managers: onlooker "\<lambda>h. \<forall>s < n_shms h. shm_admitted (shms h s)"
  by unfold_locales
    (auto simp: keeps_wp wp_simps wp_modify upd_lease_def upd_life_def upd_exporter_def note_failure_def called_def
      set_wrapper_def wp_module_create with_lease_def wp_fun new_life_def new_object_life_def new_shm_def
      set_shm_def set_endpoint_def collect_lease_def Let_def shm_admitted_def admitted_def less_Suc_eq split: option.splits)

lemma managers_event: "keeps (\<lambda>h. \<forall>s < n_shms h. shm_admitted (shms h s)) (perform L v)"
  by (cases v) (auto intro!: keeping keeps_modify)

section \<open>Polling\<close>

lemma poll_returns:
  assumes "\<exists>t \<in> set ts. reached deadline t"
  shows "fst (poll m late deadline ts h) \<noteq> Inr None"
  using assms
proof (induction ts arbitrary: h)
  case (Cons t ts)
  then show ?case
    by (auto simp: bind_def ret_def throw_def split: prod.splits sum.splits option.splits)
qed simp

end
