(* ===== verification/Wire_Facts.thy ===== *)
theory Wire_Facts
  imports Wire
begin

text \<open>
  Facts on the control encoding: hexadecimal and ASCII round trips, the values a decoder returns,
  and the layout check.
\<close>

section \<open>Hexadecimal\<close>

lemma below_sixteen: "d < 16 \<Longrightarrow> d \<in> {0, 1, 2, 3, 4, 5, 6, 7, 8, 9, 10, 11, 12, 13, 14, 15::nat}"
  unfolding insert_iff empty_iff by presburger

lemma hex_value_char: "d < 16 \<Longrightarrow> hex_value (hex_char d) = Some d"
  by (drule below_sixteen) (elim insertE emptyE; simp add: hex_value_def hex_char_def Let_def)

lemma hex_char_no_space: "d < 16 \<Longrightarrow> \<not> is_space (hex_char d)"
  by (drule below_sixteen) (elim insertE emptyE; simp add: is_space_def hex_char_def Let_def)

lemma unat_byte: "unat (b :: 8 word) < 256"
  by (rule unsigned_less [where 'b = 8, simplified])

lemma of_nat_unat_id: "of_nat (unat b) = (b :: 8 word)"
  by simp

lemma nibbles: "unat (b :: 8 word) div 16 < 16" "unat b mod 16 < 16"
  using unat_byte [of b] by (simp_all add: less_mult_imp_div_less)

lemma nibbles_back: "of_nat (16 * (unat b div 16) + unat b mod 16) = (b :: 8 word)"
  by (simp only: mult_div_mod_eq of_nat_unat_id)

lemma length_tohex [simp]: "length (tohex bs) = 2 * length bs"
  by (induction bs) simp_all

lemma fromhex_tohex [simp]: "fromhex (tohex bs) = Some bs"
proof (induction bs)
  case (Cons b bs)
  then show ?case
    using hex_value_char [OF nibbles(1) [of b]] hex_value_char [OF nibbles(2) [of b]]
      hex_char_no_space [OF nibbles(1) [of b]] nibbles_back [of b] by simp
qed simp

section \<open>ASCII names\<close>

definition name_bytes :: "8 word list \<Rightarrow> bool" where
  "name_bytes raw \<longleftrightarrow> length raw = 30 \<and> 0 \<notin> set raw \<and> (\<forall>b \<in> set raw. unat b < 128)"

lemma c_string_padded: "0 \<notin> set raw \<Longrightarrow> c_string (raw @ replicate k 0) = raw"
  by (induction raw) (auto simp: c_string_def takeWhile_replicate)

lemma of_char_of_byte: "of_char (char_of (unat b)) = (b :: 8 word)"
proof -
  have "(of_char (char_of (unat b) :: char) :: nat) = unat b" using unat_byte [of b] by (simp add: of_char_of)
  then show ?thesis by (metis of_nat_of_char of_nat_unat_id)
qed

lemma of_char_of_small: "n < 256 \<Longrightarrow> of_char (char_of n :: char) = (n :: nat)"
  by (simp add: of_char_of)

lemma ascii_roundtrip:
  assumes "\<forall>b \<in> set bs. unat b < 128"
  shows "ascii_decode bs = Inr (map (\<lambda>b. char_of (unat b)) bs)"
    and "ascii_encode (map (\<lambda>b. char_of (unat b)) bs) = Inr bs"
proof -
  show "ascii_decode bs = Inr (map (\<lambda>b. char_of (unat b)) bs)" using assms by (simp add: ascii_decode_def)
  have "\<forall>c \<in> set (map (\<lambda>b. char_of (unat b)) bs). (of_char c :: nat) < 128"
    using assms by (auto simp: of_char_of_small)
  moreover have "map of_char (map (\<lambda>b. char_of (unat b) :: char) bs) = bs"
    by (induction bs) (simp_all add: of_char_of_byte)
  ultimately show "ascii_encode (map (\<lambda>b. char_of (unat b)) bs) = Inr bs"
    by (simp add: ascii_encode_def)
qed

lemma ascii_encode_bounds:
  assumes "ascii_encode s = Inr raw" "b \<in> set raw"
  shows "unat b < 128"
proof -
  obtain c where c: "b = of_char c" "(of_char c :: nat) < 128"
    using assms by (auto simp: ascii_encode_def split: if_splits)
  have "unat (of_nat (of_char c :: nat) :: 8 word) = of_char c"
    using c(2) by (simp add: unat_of_nat)
  with c show ?thesis by (metis of_nat_of_char)
qed

section \<open>Values and structures\<close>

fun wf_value :: "ctype \<Rightarrow> cval \<Rightarrow> bool" where
  "wf_value (C_CHAR n) (CBytes bs) \<longleftrightarrow> n = 31 \<and> (\<exists>raw. name_bytes raw \<and> bs = raw @ [0])"
| "wf_value (C_UINT8 n) (CBytes bs) \<longleftrightarrow> n = 16 \<and> length bs = 16"
| "wf_value C_UINT32 (CInt i) \<longleftrightarrow> i < 2 ^ 32"
| "wf_value C_UINT64 (CInt i) \<longleftrightarrow> i < 2 ^ 64"
| "wf_value t v \<longleftrightarrow> False"

definition wf_struct :: "cfields \<Rightarrow> cval list \<Rightarrow> bool" where
  "wf_struct fs vs \<longleftrightarrow> list_all2 (\<lambda>(n, t) v. wf_value t v) fs vs"

lemma value_roundtrip:
  assumes "wf_value t v"
  shows "\<exists>p. encode_value t v = Inr p \<and> decode_value name t p = Inr v"
  using assms
proof (induction t v rule: wf_value.induct)
  case (1 n bs)
  then obtain raw where n: "n = 31" and raw: "name_bytes raw" "bs = raw @ [0]" by auto
  note asc = ascii_roundtrip [of raw]
  have "c_string bs = raw" using c_string_padded [of raw 1] raw by (simp add: name_bytes_def)
  then show ?case using n raw asc by (simp add: decode_chars_def name_bytes_def)
next
  case (2 n bs)
  then show ?case by (simp add: decode_identity_def)
qed simp_all

lemma decode_value_wf:
  assumes "decode_value name t p = Inr v" "t \<in> {C_CHAR 31, C_UINT8 16, C_UINT32, C_UINT64}"
  shows "wf_value t v"
proof -
  have small: "py_uint p bits name = Inr i \<Longrightarrow> i < 2 ^ bits" for bits i
    by (cases p) (auto simp: nat_less_iff split: if_splits)
  note small32 = small [of 32, simplified] and small64 = small [of 64, simplified]
  have "decode_chars 31 p = Inr v \<Longrightarrow> wf_value (C_CHAR 31) v"
  proof -
    assume d: "decode_chars 31 p = Inr v"
    then obtain s raw where s: "ascii_encode s = Inr raw" "length raw = 30" "0 \<notin> set raw" "v = CBytes (raw @ [0])"
      by (cases p) (auto simp: decode_chars_def split: sum.splits if_splits)
    have "name_bytes raw" using s ascii_encode_bounds by (auto simp: name_bytes_def)
    with s show ?thesis by auto
  qed
  moreover have "decode_identity 16 p = Inr v \<Longrightarrow> wf_value (C_UINT8 16) v"
    by (cases p) (auto simp: decode_identity_def split: option.splits if_splits)
  ultimately show ?thesis
    using assms small32 small64 by (auto split: sum.splits)
qed

lemma struct_roundtrip:
  assumes "list_all2 (\<lambda>(n, t) v. wf_value t v) fs vs" "distinct (map fst fs)"
  shows "\<exists>out. encode fs vs = Inr out \<and> map fst out = map fst fs
    \<and> (\<forall>extra. fst ` set extra \<inter> fst ` set fs = {} \<longrightarrow> decode_fields fs (extra @ out) = Inr vs)"
  using assms
proof (induction rule: list_all2_induct)
  case (Cons f fs v vs)
  obtain n t where f: "f = (n, t)" by (cases f)
  with Cons.hyps(1) have "wf_value t v" by simp
  from value_roundtrip [OF this] obtain p where p: "encode_value t v = Inr p" "decode_value n t p = Inr v"
    by blast
  from Cons f obtain out where out: "encode fs vs = Inr out" "map fst out = map fst fs"
    "\<forall>extra. fst ` set extra \<inter> fst ` set fs = {} \<longrightarrow> decode_fields fs (extra @ out) = Inr vs" by auto
  have n: "n \<notin> fst ` set fs" using Cons.prems f by simp
  have "decode_fields ((n, t) # fs) (extra @ (n, p) # out) = Inr (v # vs)"
    if e: "fst ` set extra \<inter> fst ` set ((n, t) # fs) = {}" for extra
  proof -
    have "map_of (extra @ (n, p) # out) n = Some p"
      using e by (auto simp: map_add_def map_of_eq_None_iff [THEN iffD2] split: option.splits)
    moreover have "decode_fields fs ((extra @ [(n, p)]) @ out) = Inr vs"
      by (rule out(3) [rule_format]) (use e n in auto)
    ultimately show ?thesis using p by simp
  qed
  then show ?case using p out f by simp
qed simp

lemma decode_encode:
  assumes "wf_struct fs vs" "distinct (map fst fs)"
  shows "\<exists>out. encode fs vs = Inr out \<and> decode fs (PMap out) = Inr vs"
proof -
  from struct_roundtrip assms obtain out where out: "encode fs vs = Inr out" "map fst out = map fst fs"
    and d: "\<forall>extra. fst ` set extra \<inter> fst ` set fs = {} \<longrightarrow> decode_fields fs (extra @ out) = Inr vs"
    unfolding wf_struct_def by blast
  have "decode_fields fs out = Inr vs" using d [rule_format, of "[]"] by simp
  moreover have "set (map fst out) = set (map fst fs)" using out(2) by (rule arg_cong)
  ultimately have "decode fs (PMap out) = Inr vs" unfolding decode.simps by metis
  with out(1) show ?thesis by blast
qed

lemma decode_fields_wf:
  assumes "decode_fields fs data = Inr vs"
    "\<forall>t \<in> snd ` set fs. t \<in> {C_CHAR 31, C_UINT8 16, C_UINT32, C_UINT64}"
  shows "wf_struct fs vs"
  using assms
proof (induction fs data arbitrary: vs rule: decode_fields.induct)
  case (2 name t fs data)
  then obtain x v ws where "map_of data name = Some x" "decode_value name t x = Inr v"
    "decode_fields fs data = Inr ws" "vs = v # ws" by (auto split: option.splits sum.splits)
  with 2 decode_value_wf [of name t x v] show ?case by (simp add: wf_struct_def)
qed (simp add: wf_struct_def)

lemma decode_wf:
  assumes "decode fs d = Inr vs" "\<forall>t \<in> snd ` set fs. t \<in> {C_CHAR 31, C_UINT8 16, C_UINT32, C_UINT64}"
  shows "wf_struct fs vs"
  using assms decode_fields_wf by (cases d) (auto split: if_splits)

lemma control_fields:
  assumes "fs = Grant_fields \<or> fs = Receipt_fields"
  shows "distinct (map fst fs)" "\<forall>t \<in> snd ` set fs. t \<in> {C_CHAR 31, C_UINT8 16, C_UINT32, C_UINT64}"
  using assms by (auto simp: Grant_fields_def Receipt_fields_def)

section \<open>The layout check\<close>

lemma check_members_ok:
  "check_members layout i j ms = Inr u \<longleftrightarrow> (\<forall>k < length ms. layout i (j + k) = snd (ms ! k))"
proof (induction layout i j ms rule: check_members.induct)
  case (2 layout i j member off ms)
  have "(\<forall>k < Suc (length ms). layout i (j + k) = snd (((member, off) # ms) ! k))
     \<longleftrightarrow> layout i j = off \<and> (\<forall>k < length ms. layout i (j + 1 + k) = snd (ms ! k))"
    by (auto simp: less_Suc_eq_0_disj)
  with 2 show ?case by (simp split: if_splits)
qed simp

lemma length_offsets [simp]: "length (offsets p ts) = length ts"
  by (induction p ts rule: offsets.induct) simp_all

text \<open>The library agrees with a declared structure on its size and on every offset.\<close>

definition layout_agrees :: "(nat \<Rightarrow> nat \<Rightarrow> nat) \<Rightarrow> nat \<Rightarrow> cfields \<Rightarrow> bool" where
  "layout_agrees layout i fs \<longleftrightarrow> layout i 0xffffffff = struct_size fs
     \<and> (\<forall>j < length fs. layout i j = offsets 0 (map snd fs) ! j)"

lemma check_types_Cons:
  "check_types layout i (fs # ts) = Inr u \<longleftrightarrow> layout_agrees layout i fs \<and> check_types layout (i + 1) ts = Inr u"
proof -
  have "check_members layout i 0 (zip (map fst fs) (offsets 0 (map snd fs))) = Inr v
     \<longleftrightarrow> (\<forall>j < length fs. layout i j = offsets 0 (map snd fs) ! j)" for v
    by (simp add: check_members_ok)
  from this [of "()"] show ?thesis by (auto simp: layout_agrees_def split: sum.splits)
qed

lemma check_types_ok:
  "check_types layout i ts = Inr u \<longleftrightarrow> (\<forall>k < length ts. layout_agrees layout (i + k) (ts ! k))"
proof (induction ts arbitrary: i)
  case (Cons fs ts)
  have "(\<forall>k < length (fs # ts). layout_agrees layout (i + k) ((fs # ts) ! k))
     \<longleftrightarrow> layout_agrees layout i fs \<and> (\<forall>k < length ts. layout_agrees layout (i + 1 + k) (ts ! k))"
    by (auto simp: less_Suc_eq_0_disj)
  then show ?case by (simp only: check_types_Cons Cons.IH)
qed simp

end
