(* ===== verification/Binding_Claims.thy ===== *)
theory Binding_Claims
  imports Binding_Safety Wire_Facts
begin

text \<open>
  The properties of the binding, over every run of events from a fresh interpreter, and the example run
  the witnesses use.
\<close>

section \<open>A small example\<close>

definition good :: native_result where "good = \<lparr>status = 0, outcome = 0, os_error = 0\<rparr>"

definition sent_result :: native_result where "sent_result = \<lparr>status = 0, outcome = 2, os_error = 0\<rparr>"

definition bare :: outs where
  "bare = \<lparr>o_ptr = 0, o_lease = replicate 10 0, o_span = null_span, o_struct = [], o_info = (0, 0, []), o_wait = 0\<rparr>"

text \<open>A library that always succeeds; its world counts the calls.\<close>

fun demo_lib :: "nat native" where
  "demo_lib (Attach g) n = (Returned good (bare\<lparr>o_ptr := 7\<rparr>), n + 1)"
| "demo_lib (WriteReserve p) n = (Returned good (bare\<lparr>o_lease := 9 # replicate 9 0,
     o_span := \<lparr>sp_data = Some 4096, sp_size = 64, sp_type = 0, sp_id = 0\<rparr>\<rparr>), n + 1)"
| "demo_lib (WriteCommit p l a b c) n = (Returned sent_result bare, n + 1)"
| "demo_lib (WriteAbort p l) n = (Returned sent_result bare, n + 1)"
| "demo_lib (ReadRelease p l) n = (Returned sent_result bare, n + 1)"
| "demo_lib (AuthorityCreate a b c) n = (Returned good (bare\<lparr>o_ptr := 5\<rparr>), n + 1)"
| "demo_lib (Create p cf ds) n = (Returned good (bare\<lparr>o_ptr := 6\<rparr>), n + 1)"
| "demo_lib c n = (Returned good bare, n + 1)"

lemma demo_documented: "documented demo_lib"
proof -
  have "\<not> owns_token (replicate 10 0)" by (simp add: owns_token_def)
  then have "empty_handed demo_lib" by (auto simp: empty_handed_def good_def bare_def)
  moreover have "transferred a r" if "fst (demo_lib (action_call a p l) w) = Returned r x" "status r = 0" for a p l w r x
    using that by (cases a) (auto simp: transferred_def sent_result_def)
  then have "ok_transfers demo_lib" by (auto simp: ok_transfers_def)
  moreover have "attaches demo_lib" by (simp add: attaches_def)
  ultimately show ?thesis by (simp add: documented_def)
qed

definition demo_native :: "cval list" where
  "demo_native = [CBytes (replicate 30 97 @ [0]), CInt 1, CInt 4096, CInt 5, CInt 1, CInt 1, CInt 0, CInt 1, CInt 1, CInt 1,
     CBytes (replicate 16 0), CBytes (replicate 16 0), CBytes (replicate 16 0), CBytes (replicate 16 0), CBytes (replicate 16 0)]"

definition demo_grant :: pyval where
  "demo_grant = PMap [(''name'', PStr (replicate 30 CHR ''a'')), (''constructed'', PInt 1), (''segment_bytes'', PInt 4096),
     (''header_crc32'', PInt 5), (''layout_profile'', PInt 1), (''atomic_abi_id'', PInt 1), (''endpoint_index'', PInt 0),
     (''role'', PInt 1), (''authority_epoch'', PInt 1), (''grant_epoch'', PInt 1), (''session_id'', PStr (replicate 32 CHR ''0'')),
     (''host_instance_id'', PStr (replicate 32 CHR ''0'')), (''authority_instance_id'', PStr (replicate 32 CHR ''0'')),
     (''endpoint_id'', PStr (replicate 32 CHR ''0'')), (''process_incarnation_id'', PStr (replicate 32 CHR ''0''))]"

lemma demo_decodes: "decode Grant_fields demo_grant = Inr demo_native"
  by code_simp

lemma demo_role: "int_field Grant_fields demo_native ''role'' = 1" "int_field Grant_fields demo_native ''layout_profile'' = 1"
  by (simp_all add: int_field_def Grant_fields_def demo_native_def)

definition connected :: "nat heap \<Rightarrow> bool" where
  "connected h \<longleftrightarrow> n_endpoints h = 1 \<and> n_lives h = 1 \<and> ep_life (endpoints h 0) = 0 \<and> ep_pid (endpoints h 0) = 1 \<and> ep_owner (endpoints h 0) = None \<and> now_pid h = 1
     \<and> lives h 0 = \<lparr>lf_ptr = 7, lf_pid = 1, lf_owner = None, lf_pin = None, lf_receipt = None, lf_close_requested = False,
         lf_poisoned = False\<rparr>
     \<and> n_leases h = 0 \<and> n_exporters h = 0 \<and> dead h = {} \<and> finalized h = {} \<and> failed h = []
     \<and> calls h 0 = [(1, Attach demo_native, Returned good (bare\<lparr>o_ptr := 7\<rparr>)), (1, BindingInfo 7 0, Returned good bare)]"

lemma demo_connect: "connected (after_events demo_lib (fresh_heap 1 0) [Connect True 1 demo_grant])"
proof -
  have "wp (perform demo_lib (Connect True 1 demo_grant)) (\<lambda>_ h. connected h) (\<lambda>_ h. connected h) (fresh_heap 1 0)"
    by (simp add: ignore_def new_endpoint_def wp_simps demo_decodes demo_role set_endpoint_def good_def bare_def)
      (simp add: connected_def fresh_heap_def with_life_def new_life_def called_def upd_life_def good_def bare_def)
  then show ?thesis by (simp add: happen_def wp_same)
qed

text \<open>With a token, and with a view on it.\<close>

definition holding :: "nat heap \<Rightarrow> bool" where
  "holding h \<longleftrightarrow> n_endpoints h = 1 \<and> n_lives h = 1 \<and> ep_life (endpoints h 0) = 0 \<and> ep_pid (endpoints h 0) = 1 \<and> ep_owner (endpoints h 0) = None \<and> now_pid h = 1
     \<and> lives h 0 = \<lparr>lf_ptr = 7, lf_pid = 1, lf_owner = None, lf_pin = Some 0, lf_receipt = None, lf_close_requested = False,
         lf_poisoned = False\<rparr>
     \<and> n_leases h = 1 \<and> n_exporters h = 0 \<and> dead h = {} \<and> finalized h = {} \<and> failed h = [] \<and> wrapper_exporter h 0 = None
     \<and> leases h 0 = \<lparr>ls_endpoint = 0, ls_lease = 9 # replicate 9 0, ls_writing = True, ls_address = Some 4096, ls_length = 64,
         ls_type = 0, ls_id = 0, ls_epoch = 0, ls_active = True, ls_view_pin = False, ls_uncertain = False, ls_acquiring = False,
         ls_cleanup_requested = False\<rparr>"

lemma demo_obtain:
  assumes "connected h"
  shows "holding (happen demo_lib h (Obtain 0 True))"
proof -
  have "wp (perform demo_lib (Obtain 0 True)) (\<lambda>_ h. holding h) (\<lambda>_ h. holding h) h"
    using assms
    by (simp add: connected_def ignore_def obtain_lease_def endpoint_check_def acquire_def life_busy_def pinned_def adopt_def
        LeaseState_def null_span_def owns_token_def holding_def wp_simps good_def bare_def Let_def)
      (simp add: upd_lease_def called_def with_lease_def adopt_def owns_token_def)
  then show ?thesis using assms by (simp add: happen_def wp_same connected_def)
qed

definition viewing :: "nat heap \<Rightarrow> bool" where
  "viewing h \<longleftrightarrow> n_exporters h = 1 \<and> n_leases h = 1 \<and> n_lives h = 1 \<and> now_pid h = 1 \<and> n_endpoints h = 1 \<and> finalized h = {}
     \<and> x_exports (exporters h 0) = 1 \<and> ls_active (leases h 0) \<and> ls_endpoint (leases h 0) = 0 \<and> ep_life (endpoints h 0) = 0
     \<and> ls_view_pin (leases h 0) \<and> lf_pid (lives h 0) = 1 \<and> dead h = {}"

lemma demo_view:
  assumes "holding h"
  shows "viewing (happen demo_lib h (TakeBuffer 0 False))"
proof -
  have "wp (perform demo_lib (TakeBuffer 0 False)) (\<lambda>_ h. viewing h) (\<lambda>_ h. viewing h) h"
    using assms
    by (simp add: holding_def ignore_def lease_buffer_def retain_view_pin_def assert_live_def life_check_def set_wrapper_def
        buffer_get_def same_process_def wp_module_create viewing_def wp_simps good_def bare_def Let_def)
      (simp add: upd_exporter_def called_def upd_lease_def)
  then show ?thesis using assms by (simp add: happen_def wp_same holding_def holds_lease_def)
qed

lemma demo_holding: "holding (after_events demo_lib (fresh_heap 1 0) [Connect True 1 demo_grant, Obtain 0 True])"
  using demo_obtain [OF demo_connect] by (simp add: after_events_def)

lemma demo_viewing: "viewing (after_events demo_lib (fresh_heap 1 0) [Connect True 1 demo_grant, Obtain 0 True, TakeBuffer 0 False])"
  using demo_view [OF demo_holding] by (simp add: after_events_def)

text \<open>With the pin of the viewed lease collected, and with the close requested while the token is held.\<close>

definition abandoned :: "nat heap \<Rightarrow> bool" where
  "abandoned h \<longleftrightarrow> n_leases h = 1 \<and> finalized h = {0} \<and> ls_active (leases h 0) \<and> ls_endpoint (leases h 0) = 0
     \<and> lf_pid (lives h 0) = 1 \<and> now_pid h = 1"

lemma demo_abandon:
  assumes "viewing h" "ls_view_pin (leases h 0)" "lf_pid (lives h 0) = 1"
  shows "abandoned (happen demo_lib h (FinalizePin 0))"
proof -
  have "wp (perform demo_lib (FinalizePin 0)) (\<lambda>_ h. abandoned h) (\<lambda>_ h. abandoned h) h"
    using assms by (simp add: viewing_def pin_finalized_def request_cleanup_def cleanup_def abandoned_def wp_simps)
  then show ?thesis using assms(1) by (simp add: happen_def wp_same viewing_def)
qed

lemma demo_finalized:
  "abandoned (after_events demo_lib (fresh_heap 1 0) [Connect True 1 demo_grant, Obtain 0 True, TakeBuffer 0 False, FinalizePin 0])"
  using demo_abandon [OF demo_viewing] demo_viewing by (simp add: after_events_def viewing_def)

definition closing_requested :: "nat heap \<Rightarrow> bool" where
  "closing_requested h \<longleftrightarrow> now_pid h = 1 \<and> leases h 0 = \<lparr>ls_endpoint = 0, ls_lease = 9 # replicate 9 0, ls_writing = True, ls_address = Some 4096,
     ls_length = 64, ls_type = 0, ls_id = 0, ls_epoch = 0, ls_active = True, ls_view_pin = False, ls_uncertain = False, ls_acquiring = False,
         ls_cleanup_requested = False\<rparr>
     \<and> lives h 0 = \<lparr>lf_ptr = 7, lf_pid = 1, lf_owner = None, lf_pin = Some 0, lf_receipt = None, lf_close_requested = True,
         lf_poisoned = False\<rparr>"

lemma demo_request:
  assumes "holding h" "ep_owner (endpoints h 0) = None"
  shows "closing_requested (happen demo_lib h (CollectEndpoint 0))"
proof -
  have "wp (perform demo_lib (CollectEndpoint 0)) (\<lambda>_ h. closing_requested h) (\<lambda>_ h. closing_requested h) h"
    using assms by (simp add: holding_def endpoint_collected_def life_request_close_def life_try_close_def life_busy_def pinned_def
        closing_requested_def wp_simps)
  then show ?thesis using assms(1) by (simp add: happen_def wp_same holding_def)
qed

lemma demo_closing: "closing_requested (after_events demo_lib (fresh_heap 1 0) [Connect True 1 demo_grant, Obtain 0 True, CollectEndpoint 0])"
  using demo_request [OF demo_holding] demo_holding by (simp add: after_events_def holding_def)

section \<open>The properties\<close>

lemma reached_inv: "documented L \<Longrightarrow> inv (after_events L (fresh_heap pid w) vs)"
  using after_events_okay [of L pid w vs] by (simp add: okay_def)

text \<open>C16: On every native connection the binding follows the documented protocol, whatever the
  application, the collector and the operating system do and however the library answers: the calls
  made are accepted by the protocol automaton (attach once, one token at a time, the token's own calls
  only while it is held and under its view state, detach only when idle, nothing on a token after an
  interrupted call), and all of them are made by the process that created the endpoint.\<close>

theorem connection_protocol:
  assumes "documented L" "e < n_lives (after_events L (fresh_heap pid w) vs)"
  shows "replay conn_start (map snd (calls (after_events L (fresh_heap pid w) vs) e)) \<noteq> None
    \<and> fst ` set (calls (after_events L (fresh_heap pid w) vs) e) \<subseteq> {lf_pid (lives (after_events L (fresh_heap pid w) vs) e)}"
  using life_okD(2,3) [OF inv_life [OF reached_inv [OF assms(1)] assms(2)]] by auto

theorem connection_protocol_witness:
  "replay conn_start (map snd (calls (after_events demo_lib (fresh_heap 1 0) [Connect True 1 demo_grant, Obtain 0 True, TakeBuffer 0 False]) 0)) \<noteq> None"
  using connection_protocol [OF demo_documented, of 0 1 0 "[Connect True 1 demo_grant, Obtain 0 True, TakeBuffer 0 False]"]
    demo_viewing by (simp add: viewing_def)

text \<open>C17: An endpoint has at most one outstanding token: two leases of one endpoint that both own a
  token are the same lease, and it is the one the endpoint pins.\<close>

theorem single_token:
  assumes "documented L" "h = after_events L (fresh_heap pid w) vs" "i < n_leases h" "j < n_leases h"
    and "ls_active (leases h i)" "ls_active (leases h j)" "ls_endpoint (leases h i) = ls_endpoint (leases h j)"
  shows "i = j \<and> lf_pin (lives h (ls_endpoint (leases h i))) = Some i \<and> lf_ptr (lives h (ls_endpoint (leases h i))) \<noteq> 0"
proof -
  have I: "inv h" unfolding assms(2) by (rule reached_inv [OF assms(1)])
  note p = active_facts(2,4) [OF I assms(3,5)] and q = active_facts(2) [OF I assms(4,6)]
  have "Some i = Some j" by (rule trans [OF p(1) [symmetric, unfolded assms(7)] q])
  with p show ?thesis by blast
qed

theorem single_token_witness:
  "lf_pin (lives (after_events demo_lib (fresh_heap 1 0) [Connect True 1 demo_grant, Obtain 0 True]) 0) = Some 0"
  using single_token [OF demo_documented refl, of 0 1 0 "[Connect True 1 demo_grant, Obtain 0 True]" 0] demo_holding
  by (simp add: holding_def)

text \<open>C18: A slot is never transferred under a live view: while an exporter has exports, its lease owns
  the token and the native view pin, and every transfer of that lease raises and leaves everything as
  it was.\<close>

theorem views_hold_slot:
  assumes "documented L" "h = after_events L (fresh_heap pid w) vs" "b < n_exporters h" "x_exports (exporters h b) > 0"
  shows "\<exists>i < n_leases h. x_owner (exporters h b) = Some i \<and> ls_active (leases h i) \<and> ls_view_pin (leases h i)
    \<and> lf_ptr (lives h (ls_endpoint (leases h i))) \<noteq> 0 \<and> (\<forall>a. \<exists>x. transfer L i a h = (Inl x, h))"
proof -
  have I: "inv h" unfolding assms(2) by (rule reached_inv [OF assms(1)])
  obtain i where "i < n_leases h" "x_owner (exporters h b) = Some i" "ls_active (leases h i)" "ls_view_pin (leases h i)"
    "lf_ptr (life_of h i) \<noteq> 0" "wrapper_exporter h i = Some b" "\<not> x_closed (exporters h b)"
    by (rule viewed_lease [OF I assms(3,4)])
  with view_blocks_transfer [of h i b L] assms(4) show ?thesis by blast
qed

theorem views_hold_slot_witness:
  "\<exists>i < n_leases (after_events demo_lib (fresh_heap 1 0) [Connect True 1 demo_grant, Obtain 0 True, TakeBuffer 0 False]).
    ls_view_pin (leases (after_events demo_lib (fresh_heap 1 0) [Connect True 1 demo_grant, Obtain 0 True, TakeBuffer 0 False]) i)"
  using views_hold_slot [OF demo_documented refl, of 0 1 0 "[Connect True 1 demo_grant, Obtain 0 True, TakeBuffer 0 False]"]
    demo_viewing by (auto simp: viewing_def)

text \<open>C19: No token is lost to the collector: in the process of its endpoint, a lease whose pin has been
  finalized and that still owns its token is on record as a cleanup failure, or its exporter still has
  the close to make; and a collected lease state owns nothing.\<close>

theorem no_token_lost:
  assumes "documented L" "h = after_events L (fresh_heap pid w) vs" "i < n_leases h" "i \<in> finalized h" "ls_active (leases h i)"
    and "lf_pid (lives h (ls_endpoint (leases h i))) = now_pid h"
  shows "i \<notin> dead h \<and> (TheLease i \<in> fst ` set (failed h)
    \<or> ls_view_pin (leases h i) \<and> ls_cleanup_requested (leases h i) \<and> (\<exists>b < n_exporters h. x_cleanup (exporters h b) = Some i))"
proof -
  have I: "inv h" unfolding assms(2) by (rule reached_inv [OF assms(1)])
  show ?thesis using inv_kept [OF I assms(3)] busy_while_held(2) [OF I assms(3,5,6)] assms(4-6)
    unfolding kept_def noted_def exported_def by blast
qed

theorem no_token_lost_witness:
  "0 \<notin> dead (after_events demo_lib (fresh_heap 1 0) [Connect True 1 demo_grant, Obtain 0 True, TakeBuffer 0 False, FinalizePin 0])"
  using no_token_lost [OF demo_documented refl, of 0 1 0 "[Connect True 1 demo_grant, Obtain 0 True, TakeBuffer 0 False, FinalizePin 0]"]
    demo_finalized by (simp add: abandoned_def)

text \<open>C20: An endpoint that holds a token is not detached: closing it raises and changes nothing.\<close>

theorem held_endpoint_stays:
  assumes "documented L" "h = after_events L (fresh_heap pid w) vs" "i < n_leases h" "ls_active (leases h i)"
    and "ep_life (endpoints h p) = ls_endpoint (leases h i)"
  shows "\<exists>x. endpoint_close L p h = (Inl x, h)"
proof -
  have I: "inv h" unfolding assms(2) by (rule reached_inv [OF assms(1)])
  obtain x where "life_close L (ls_endpoint (leases h i)) h = (Inl x, h)"
    using held_not_detached [OF I assms(3,4)] by blast
  then show ?thesis by (simp add: endpoint_close_def bind_def gets_def assms(5))
qed

theorem held_endpoint_stays_witness:
  "\<exists>x. endpoint_close demo_lib 0 (after_events demo_lib (fresh_heap 1 0) [Connect True 1 demo_grant, Obtain 0 True])
    = (Inl x, after_events demo_lib (fresh_heap 1 0) [Connect True 1 demo_grant, Obtain 0 True])"
  using held_endpoint_stays [OF demo_documented refl, of 0 1 0 "[Connect True 1 demo_grant, Obtain 0 True]" 0] demo_holding
  by (simp add: holding_def)

text \<open>C21: The deferred close happens: once the endpoint's close has been requested, the transfer of its
  token is followed at once by its detachment, with no call in between.\<close>

theorem deferred_detachment:
  assumes "live_lease h i" "\<not> ls_view_pin (leases h i)" "lf_close_requested (lives h (ls_endpoint (leases h i)))"
    and "fst (L (action_call a (lf_ptr (lives h (ls_endpoint (leases h i)))) (ls_lease (leases h i))) (world h)) = Returned r x"
    and "transferred a r"
  shows "\<exists>d. calls (snd (finish L i a h)) (ls_endpoint (leases h i)) = calls h (ls_endpoint (leases h i))
     @ [(now_pid h, action_call a (lf_ptr (lives h (ls_endpoint (leases h i)))) (ls_lease (leases h i)), Returned r x),
        (now_pid h, Detach (lf_ptr (lives h (ls_endpoint (leases h i)))), d)]"
  using finish_then_detach [of h i "ls_endpoint (leases h i)" L a r x] assms by simp

theorem deferred_detachment_witness:
  "\<exists>d. calls (snd (finish demo_lib 0 (Commit 5 1 2) (after_events demo_lib (fresh_heap 1 0) [Connect True 1 demo_grant, Obtain 0 True, CollectEndpoint 0]))) 0
    = calls (after_events demo_lib (fresh_heap 1 0) [Connect True 1 demo_grant, Obtain 0 True, CollectEndpoint 0]) 0
     @ [(1, WriteCommit 7 (9 # replicate 9 0) 5 1 2, Returned sent_result bare), (1, Detach 7, d)]"
  using deferred_detachment [of "after_events demo_lib (fresh_heap 1 0) [Connect True 1 demo_grant, Obtain 0 True, CollectEndpoint 0]" 0 demo_lib
      "Commit 5 1 2" sent_result bare] demo_closing
  by (simp add: closing_requested_def live_lease_def transferred_def sent_result_def)

text \<open>C22: Finalizers, the exit callback and the exporter's own events raise at most the warning of a
  cleanup failure, from any heap and whatever the library answers: the event returns, or the filter
  turns \<open>ResourceWarning\<close> into an error and the event raises that warning after the failure it reports
  has been recorded. Events of the exporter always return; under any other filter all of them do.\<close>

theorem background_raises_warnings_only:
  assumes "background v"
  shows "fst (perform L v h) = Inr ()
    \<or> \<not> exporter_event v \<and> warn_error h
      \<and> (\<exists>r x. fst (perform L v h) = Inl (Warned x) \<and> (r, x) \<in> set (failed (snd (perform L v h))))"
proof (cases "fst (perform L v h)")
  case (Inl e)
  then have "warned e (snd (perform L v h))"
    using quietD [OF background_quiet [OF assms], of L h] by (simp add: wp_def split: prod.splits)
  moreover have "warn_error (snd (perform L v h)) = warn_error h"
    using keepsD [OF filter_event, of h "warn_error h" L v] by simp
  moreover have "\<not> exporter_event v"
    using Inl exporter_silent [of v L h] by (auto simp: wp_def split: prod.splits)
  ultimately show ?thesis using Inl by (auto simp: warned_def)
qed simp

definition refusing :: "nat native" where
  "refusing c n = (Returned busy_result bare, n + 1)"

theorem background_raises_warnings_only_witness:
  "fst (perform refusing (CollectAuthority 0) ((fresh_heap 1 0)\<lparr>authorities := \<lambda>_. \<lparr>au_pid = 1, au_ptr = 5,
      au_objects = [], au_max = 0\<rparr>\<rparr>)) = Inr ()
    \<and> (\<exists>x. fst (perform refusing (CollectAuthority 0) ((fresh_heap 1 0)\<lparr>authorities := \<lambda>_. \<lparr>au_pid = 1, au_ptr = 5,
      au_objects = [], au_max = 0\<rparr>, warn_error := True\<rparr>)) = Inl (Warned x))"
proof -
  have v: "background (CollectAuthority 0)" by (simp add: background_def)
  have "fst (perform refusing (CollectAuthority 0) ((fresh_heap 1 0)\<lparr>authorities := \<lambda>_. \<lparr>au_pid = 1, au_ptr = 5,
      au_objects = [], au_max = 0\<rparr>, warn_error := True\<rparr>)) \<noteq> Inr ()"
    by (simp add: authority_del_def attempt_def bind_def gets_def getpid_def fresh_heap_def ffi_def refusing_def modify_def
        andthen_def ret_def check_def throw_def busy_result_def retain_failure_def warn_def)
  with background_raises_warnings_only [OF v] show ?thesis by (fastforce simp: fresh_heap_def)
qed

text \<open>C23: An uncertain outcome is final: a poisoned endpoint stays poisoned and busy through every later
  event, so no further token is obtained on it and it is never detached.\<close>

theorem poison_is_final:
  assumes "e < n_lives h" "lf_poisoned (lives h e)"
  shows "lf_poisoned (lives (after_events L h vs) e) \<and> life_busy (after_events L h vs) e"
proof -
  have "e < n_lives (after_events L h vs) \<and> lf_poisoned (lives (after_events L h vs) e)"
    by (rule after_events_induct [where I = "\<lambda>h. e < n_lives h \<and> lf_poisoned (lives h e)"]) (use assms keepsD [OF poison_event] in blast)+
  then show ?thesis by (simp add: life_busy_def)
qed

text \<open>A library that is interrupted while it reserves: the endpoint is poisoned.\<close>

fun interrupted_lib :: "nat native" where
  "interrupted_lib (WriteReserve p) n = (Interrupted (Signal ''KeyboardInterrupt'') bare, n + 1)"
| "interrupted_lib c n = demo_lib c n"

lemma demo_poison:
  assumes "connected h" "\<not> warn_error h"
  shows "n_lives (happen interrupted_lib h (Obtain 0 True)) = 1
    \<and> lf_poisoned (lives (happen interrupted_lib h (Obtain 0 True)) 0)"
proof -
  have "wp (perform interrupted_lib (Obtain 0 True)) (\<lambda>_ h. n_lives h = 1 \<and> lf_poisoned (lives h 0))
      (\<lambda>_ h. n_lives h = 1 \<and> lf_poisoned (lives h 0)) h"
    using assms
    by (simp add: connected_def ignore_def obtain_lease_def endpoint_check_def acquire_def life_busy_def pinned_def wp_simps)
  then show ?thesis using assms by (simp add: happen_def wp_same connected_def)
qed

theorem poison_is_final_witness:
  "life_busy (after_events demo_lib (happen interrupted_lib
      (after_events demo_lib (fresh_heap 1 0) [Connect True 1 demo_grant]) (Obtain 0 True))
    [Obtain 0 True, CollectEndpoint 0, CloseEndpoint 0, Exit]) 0"
proof -
  have "\<not> warn_error (after_events demo_lib (fresh_heap 1 0) [Connect True 1 demo_grant])"
    using inv_warn [OF reached_inv [OF demo_documented]] .
  from demo_poison [OF demo_connect this] show ?thesis
    using poison_is_final [of 0 "happen interrupted_lib (after_events demo_lib (fresh_heap 1 0) [Connect True 1 demo_grant]) (Obtain 0 True)"
      demo_lib "[Obtain 0 True, CollectEndpoint 0, CloseEndpoint 0, Exit]"] by (simp del: after_events_simps)
qed

text \<open>C24: Every manager ever made has an admitted configuration: positive endpoint counts that sum to at
  most the capacity, one producer and one consumer for SPSC, and parking for SPSC only.\<close>

theorem managers_admitted:
  "\<forall>s < n_shms (after_events L (fresh_heap pid w) vs). shm_admitted (shms (after_events L (fresh_heap pid w) vs) s)"
  by (rule after_events_induct [where I = "\<lambda>h. \<forall>s < n_shms h. shm_admitted (shms h s)"])
    (simp add: fresh_heap_def, rule keepsD [OF managers_event])

lemma demo_manager:
  "n_shms (after_events demo_lib (fresh_heap 1 0) [MakeShm ''spsc'' (PInt 4) (PInt 8) (PInt 1) (PInt 1) False False (PInt 4096) 0 (\<lambda>_. [])]) = 1"
proof -
  have "wp (perform demo_lib (MakeShm ''spsc'' (PInt 4) (PInt 8) (PInt 1) (PInt 1) False False (PInt 4096) 0 (\<lambda>_. [])))
    (\<lambda>_ h. n_shms h = 1) (\<lambda>_ h. n_shms h = 1) (fresh_heap 1 0)"
    by (simp add: ignore_def EliteShm_def shm_args_def new_authority_def create_shm_def new_object_life_def new_shm_def authority_check_def
        set_shm_def wp_simps wp_fun good_def bare_def Let_def fresh_heap_def)
  then show ?thesis by (simp add: happen_def wp_same)
qed

theorem managers_admitted_witness:
  "shm_admitted (shms (after_events demo_lib (fresh_heap 1 0)
     [MakeShm ''spsc'' (PInt 4) (PInt 8) (PInt 1) (PInt 1) False False (PInt 4096) 0 (\<lambda>_. [])]) 0)"
  by (rule managers_admitted [rule_format]) (simp only: demo_manager)

text \<open>C25: Waiting for a lease ends: once a clock reading reaches the deadline (the float sum of the
  first reading and the timeout), \<open>_wait_obtain\<close> has returned a lease or raised, whatever the library
  answers.\<close>

theorem wait_obtain_returns:
  assumes "valid_timeout timeout = Inr t" "deadline_at start t = Some d" "\<exists>r \<in> set readings. d \<le> r"
  shows "fst (wait_obtain L p writing timeout start readings h) \<noteq> Inr None"
  using assms(2,3) by (simp add: wait_obtain_def assms(1) bind_def ret_def poll_returns reached_def)

theorem wait_obtain_returns_witness:
  "fst (wait_obtain demo_lib 0 True (Some 1) 0 [0, 2] (fresh_heap 1 0)) \<noteq> Inr None"
proof -
  have "deadline_at 0 1 = Some 1" by code_simp
  then show ?thesis using wait_obtain_returns [of "Some 1" 1 0 1 "[0, 2]"] by (simp add: valid_timeout_def)
qed

text \<open>C26: A control message survives its transport: what \<open>_decode\<close> accepts as a grant or a receipt is
  encoded by \<open>_encode\<close> to a message that decodes to the same fields.\<close>

theorem control_roundtrip:
  assumes "decode fs d = Inr vs" "fs = Grant_fields \<or> fs = Receipt_fields"
  shows "\<exists>out. encode fs vs = Inr out \<and> decode fs (PMap out) = Inr vs"
  using decode_encode [OF decode_wf [OF assms(1) control_fields(2) [OF assms(2)]] control_fields(1) [OF assms(2)]] .

theorem control_roundtrip_witness:
  "\<exists>out. encode Grant_fields demo_native = Inr out \<and> decode Grant_fields (PMap out) = Inr demo_native"
  using control_roundtrip [OF demo_decodes] by simp

lemma length_LOCAL_TYPES: "length LOCAL_TYPES = 8"
  by (simp add: LOCAL_TYPES_def)

text \<open>The module imports exactly when the library reports the binding's version and its layout of all
  eight structures, sizes and member offsets, is the layout ctypes computes.\<close>

theorem import_checks_layout:
  "import_native version layout = Inr () \<longleftrightarrow> version = 0x00010100
     \<and> (\<forall>k < 8. layout_agrees layout (k + 1) (LOCAL_TYPES ! k))"
  by (simp add: import_native_def check_types_ok length_LOCAL_TYPES)

theorem import_checks_layout_witness:
  "import_native 0x00010100 (\<lambda>i j. if j = 0xffffffff then struct_size (LOCAL_TYPES ! (i - 1))
     else offsets 0 (map snd (LOCAL_TYPES ! (i - 1))) ! j) = Inr ()"
proof -
  have "length (LOCAL_TYPES ! k) < 0xffffffff" if "k < 8" for k
  proof -
    have "list_all (\<lambda>fs. length fs < 0xffffffff) LOCAL_TYPES"
      by (simp add: LOCAL_TYPES_def Result_fields_def Lease_fields_def WriteSpan_fields_def ReadSpan_fields_def
          Definition_fields_def Config_fields_def Grant_fields_def Receipt_fields_def)
    then show ?thesis using that by (simp add: list_all_length length_LOCAL_TYPES)
  qed
  then show ?thesis unfolding import_checks_layout layout_agrees_def by fastforce
qed

text \<open>A commit with an argument that is no unsigned integer of its width, or with a length above the
  lease's capacity, raises \<open>ValueError\<close> before any effect: no call is made and nothing changes.\<close>

theorem commit_validates:
  assumes "\<not> (\<exists>n k m. py_uint len 32 ''length'' = Inr n \<and> py_uint kind 32 ''message_type'' = Inr k
    \<and> py_uint mid 64 ''message_id'' = Inr m \<and> n \<le> unat (ls_length (leases h i)))"
  shows "\<exists>e. lease_commit L i len kind mid h = (Inl (Python (ValueError e)), h)"
proof -
  have err: "\<exists>e. py_uint v b name = Inl (ValueError e)" if "\<nexists>n. py_uint v b name = Inr n" for v b name
    using that by (cases v) (auto simp: uint_error_def split: if_splits)
  show ?thesis
  proof (cases "(\<exists>n. py_uint len 32 ''length'' = Inr n) \<and> (\<exists>k. py_uint kind 32 ''message_type'' = Inr k)
      \<and> (\<exists>m. py_uint mid 64 ''message_id'' = Inr m)")
    case True
    with assms show ?thesis
      by (auto simp: lease_commit_def bind_def ret_def the_lease_def gets_def throw_def not_le)
  next
    case False
    then consider "\<nexists>n. py_uint len 32 ''length'' = Inr n"
      | n where "py_uint len 32 ''length'' = Inr n" "\<nexists>k. py_uint kind 32 ''message_type'' = Inr k"
      | n k where "py_uint len 32 ''length'' = Inr n" "py_uint kind 32 ''message_type'' = Inr k"
          "\<nexists>m. py_uint mid 64 ''message_id'' = Inr m" by blast
    then show ?thesis
      by cases (use err in \<open>fastforce simp: lease_commit_def bind_def ret_def throw_def\<close>)+
  qed
qed

theorem commit_validates_witness:
  "\<exists>e. lease_commit demo_lib 0 (PInt 5) (PInt 1) (PInt 2) (fresh_heap 1 0\<lparr>leases := \<lambda>_. LeaseState 0 (replicate 10 0) null_span True\<rparr>)
    = (Inl (Python (ValueError e)), (fresh_heap 1 0\<lparr>leases := \<lambda>_. LeaseState 0 (replicate 10 0) null_span True\<rparr>))"
  by (rule commit_validates) (simp add: LeaseState_def null_span_def)

text \<open>A grant is one-shot: after a grant of an endpoint index, every further grant of that index by
  the same manager raises and makes no native call.\<close>

theorem grant_once:
  assumes "shm_grant L s (PInt i) k h = (Inr g, h')"
  shows "\<exists>x. shm_grant L s (PInt i) k' h' = (Inl x, h')"
proof -
  have "wp (shm_grant L s (PInt i) k) (\<lambda>_ t. nat i \<in> fst ` set (sh_issued (shms t s))) (\<lambda>_ _. True) h"
    by (cases "py_uint (PInt i) 32 ''endpoint_index''")
      (auto simp: shm_grant_def shm_check_def authority_check_def wp_simps set_shm_def wp_modify split: option.split answer.split sum.split if_splits)
  with assms have old: "nat i \<in> fst ` set (sh_issued (shms h' s))" by (simp add: wp_def)
  show ?thesis
  proof (cases "py_uint (PInt i) 32 ''endpoint_index''")
    case (Inl e)
    then show ?thesis by (simp add: shm_grant_def bind_def throw_def)
  next
    case (Inr n)
    then have n: "n = nat i" by (simp split: if_splits)
    have c: "\<exists>x. shm_check s h' = (Inl x, h') \<or> shm_check s h' = (Inr (), h')"
      by (auto simp: shm_check_def authority_check_def bind_def gets_def getpid_def andthen_def guard_def ret_def throw_def)
    show ?thesis using Inr old n c
      by (auto simp: shm_grant_def bind_def gets_def getpid_def andthen_def guard_def ret_def throw_def split: option.split)
  qed
qed

definition granting :: "nat heap" where
  "granting = (fresh_heap 1 0)\<lparr>authorities := \<lambda>_. \<lparr>au_pid = 1, au_ptr = 5, au_objects = [], au_max = 4096\<rparr>,
     objects := \<lambda>_. \<lparr>ol_ptr = 6, ol_authority = 0, ol_pid = 1, ol_connections = [], ol_close_requested = False\<rparr>,
     shms := \<lambda>_. \<lparr>sh_pid = 1, sh_authority = 0, sh_life = 0, sh_local = [], sh_issued = [], sh_spsc = True, sh_capacity = 4,
       sh_max_payload = 8, sh_producers = 1, sh_consumers = 1, sh_checksum = False, sh_parkable = False, sh_session = []\<rparr>\<rparr>"

lemma granting_grants: "fst (shm_grant demo_lib 0 (PInt 0) PNone granting) = Inr []"
  by (simp add: shm_grant_def shm_check_def authority_check_def shm_ptr_def bind_def gets_def getpid_def andthen_def guard_def ret_def
      valid_pid_def granting_def fresh_heap_def ffi_def check_def good_def bare_def set_shm_def modify_def Grant_fields_def)

theorem grant_once_witness:
  "\<exists>x. shm_grant demo_lib 0 (PInt 0) (PInt 9) (snd (shm_grant demo_lib 0 (PInt 0) PNone granting))
    = (Inl x, snd (shm_grant demo_lib 0 (PInt 0) PNone granting))"
  by (rule grant_once [of demo_lib 0 0 PNone granting "[]"]) (simp add: prod_eq_iff granting_grants)

end
