(* ===== verification/Handoff.thy ===== *)
theory Handoff
  imports Pyvals
begin

text \<open>
  The release/acquire handoff checker of \<open>formal/handoff.py\<close>: memory events, the transitive closure
  over bit rows, the consistency and race analysis of one reads-from assignment, the two queue
  skeletons and the compare-and-swap histories. Events are numbered by their position; a bit row is
  a Python integer, here an \<open>int\<close>.
\<close>

unbundle bit_operations_syntax

section \<open>Events\<close>

record hevent =
  ev_name :: string
  thread :: int
  loc :: string
  kind :: string
  mem_order :: string
  ev_value :: int
  message :: int

definition RELEASE :: "string list" where "RELEASE = [''release'', ''acq_rel'', ''seq_cst'']"
definition ACQUIRE :: "string list" where "ACQUIRE = [''acquire'', ''acq_rel'', ''seq_cst'']"

section \<open>Transitive closure\<close>

definition set_edge :: "nat \<times> nat \<Rightarrow> int list \<Rightarrow> int list" where
  "set_edge e reach = (case e of (a, b) \<Rightarrow> reach[a := reach ! a OR push_bit b 1])"

definition absorb :: "nat \<Rightarrow> int \<Rightarrow> nat \<Rightarrow> int list \<Rightarrow> int list" where
  "absorb k row i reach = (if bit (reach ! i) k then reach[i := reach ! i OR row] else reach)"

definition pass_over :: "nat \<Rightarrow> nat \<Rightarrow> int list \<Rightarrow> int list" where
  "pass_over count k reach = (let row = reach ! k in fold (absorb k row) [0..<count] reach)"

definition closure :: "nat \<Rightarrow> (nat \<times> nat) list \<Rightarrow> int list" where
  "closure count edges = fold (pass_over count) [0..<count] (fold set_edge edges (replicate count 0))"

section \<open>The analysis of one assignment\<close>

type_synonym assignment = "(nat \<times> nat) list"

text \<open>\<open>events[i]\<close>.\<close>

definition event_at :: "hevent list \<Rightarrow> nat \<Rightarrow> hevent result" where
  "event_at events i = (if i < length events then Inr (events ! i) else Inl IndexError)"

definition enumerated :: "'a list \<Rightarrow> (nat \<times> 'a) list" where
  "enumerated xs = zip [0..<length xs] xs"

definition sb_edges :: "hevent list \<Rightarrow> (nat \<times> nat) list" where
  "sb_edges events =
     (let threads = remdups (sort [thread e. e \<leftarrow> events, 0 \<le> thread e]);
          seq = (\<lambda>t. [i. (i, e) \<leftarrow> enumerated events, thread e = t]);
          init = [i. (i, e) \<leftarrow> enumerated events, thread e = -1]
      in concat [zip (seq t) (tl (seq t)). t \<leftarrow> threads]
         @ [(i, j). i \<leftarrow> init, (j, e) \<leftarrow> enumerated events, 0 \<le> thread e])"

definition sw_edges :: "hevent list \<Rightarrow> assignment \<Rightarrow> (nat \<times> nat) list result" where
  "sw_edges events rf = (
    ebind (emap (\<lambda>(r, w). (
       ebind (event_at events w) (\<lambda>ew.
       if mem_order ew \<in> set RELEASE
       then ebind (event_at events r) (\<lambda>er. Inr (if mem_order er \<in> set ACQUIRE then [(w, r)] else []))
       else Inr []))) rf) (\<lambda>ss.
    Inr (concat ss)))"

definition modifications :: "hevent list \<Rightarrow> (string \<times> nat list) list" where
  "modifications events =
     fold (\<lambda>(i, e) mods.
       if mem_order e \<noteq> ''plain'' \<and> (kind e = ''W'' \<or> kind e = ''M'')
       then AList.update (loc e) ((case map_of mods (loc e) of None \<Rightarrow> [] | Some s \<Rightarrow> s) @ [i]) mods
       else mods) (enumerated events) []"

definition ranks :: "(string \<times> nat list) list \<Rightarrow> (nat \<times> nat) list" where
  "ranks mods = concat [[(i, k). (k, i) \<leftarrow> enumerated seq]. (l, seq) \<leftarrow> mods]"

text \<open>The coherence loop: \<open>Inr False\<close> is its \<open>return None\<close>.\<close>

definition coherent_write ::
    "int list \<Rightarrow> (nat \<times> nat) list \<Rightarrow> nat \<Rightarrow> nat \<Rightarrow> nat \<Rightarrow> bool result" where
  "coherent_write hb rank r w v = (
    ebind (eand (Inr (bit (hb ! v) r))
       (ebind (at_key rank v) (\<lambda>a. ebind (at_key rank w) (\<lambda>b. Inr (b < a))))) (\<lambda>later.
    if later then Inr False
     else (
       ebind (eand (Inr (bit (hb ! r) v))
         (ebind (at_key rank v) (\<lambda>a. ebind (at_key rank w) (\<lambda>b. Inr (a \<le> b))))) (\<lambda>early.
       Inr (\<not> early)))))"

definition coherent_read ::
    "hevent list \<Rightarrow> int list \<Rightarrow> (nat \<times> nat) list \<Rightarrow> nat \<Rightarrow> nat \<Rightarrow> nat \<times> nat \<Rightarrow> bool result" where
  "coherent_read events hb rank r w p = (case p of (r2, w2) \<Rightarrow> (
    ebind (event_at events r) (\<lambda>e.
    ebind (event_at events r2) (\<lambda>e2.
    ebind (eand (Inr (loc e = loc e2 \<and> bit (hb ! r) r2))
       (ebind (at_key rank w) (\<lambda>a. ebind (at_key rank w2) (\<lambda>b. Inr (b < a))))) (\<lambda>bad.
    Inr (\<not> bad))))))"

definition coherence ::
    "hevent list \<Rightarrow> (string \<times> nat list) list \<Rightarrow> int list \<Rightarrow> assignment \<Rightarrow> bool result" where
  "coherence events mods hb rf = (let rank = ranks mods in
     every (\<lambda>(r, w). (
       ebind (event_at events r) (\<lambda>er.
       ebind (event_at events w) (\<lambda>ew.
       need (loc er = loc ew) ''wrong reads-from location'' (
       ebind (at_key mods (loc er)) (\<lambda>seq.
       ebind (every (coherent_write hb rank r w) seq) (\<lambda>a.
       if a then every (coherent_read events hb rank r w) rf else Inr False))))))) rf)"

definition conflicting :: "hevent \<Rightarrow> hevent \<Rightarrow> bool" where
  "conflicting a b \<longleftrightarrow> \<not> (loc a \<noteq> loc b \<or> thread a = thread b \<or> (kind a = ''R'' \<and> kind b = ''R''))"

definition plain_events :: "hevent list \<Rightarrow> nat list" where
  "plain_events events = [i. (i, e) \<leftarrow> enumerated events, mem_order e = ''plain'']"

definition race_pairs :: "hevent list \<Rightarrow> int list \<Rightarrow> (nat \<times> nat) list" where
  "race_pairs events hb =
     (let plain = plain_events events
      in [(i, j). (ii, i) \<leftarrow> enumerated plain, j \<leftarrow> drop (Suc ii) plain,
          conflicting (events ! i) (events ! j), \<not> (bit (hb ! i) j \<or> bit (hb ! j) i)])"

definition visible_writes :: "hevent list \<Rightarrow> int list \<Rightarrow> nat \<Rightarrow> nat list" where
  "visible_writes events hb r =
     [w. w \<leftarrow> plain_events events, kind (events ! w) = ''W'', loc (events ! w) = loc (events ! r),
         bit (hb ! w) r]"

definition latest_writes :: "hevent list \<Rightarrow> int list \<Rightarrow> nat \<Rightarrow> nat list" where
  "latest_writes events hb r =
     (let ws = visible_writes events hb r
      in [w. w \<leftarrow> ws, \<not> list_ex (\<lambda>v. v \<noteq> w \<and> bit (hb ! w) v) ws])"

definition wrong_reads :: "hevent list \<Rightarrow> int list \<Rightarrow> nat list" where
  "wrong_reads events hb =
     [r. r \<leftarrow> plain_events events, kind (events ! r) = ''R'',
         (let latest = latest_writes events hb r
          in length latest \<noteq> 1 \<or> ev_value (events ! hd latest) \<noteq> ev_value (events ! r))]"

record handoff_report =
  races :: "(string \<times> string) list"
  wrong_values :: "string list"
  reads_from :: "(string \<times> string) list"
  synchronizes_with :: "(string \<times> string) list"

definition names :: "hevent list \<Rightarrow> nat \<times> nat \<Rightarrow> string \<times> string" where
  "names events p = (case p of (a, b) \<Rightarrow> (ev_name (events ! a), ev_name (events ! b)))"

definition analyze :: "hevent list \<Rightarrow> assignment \<Rightarrow> handoff_report option result" where
  "analyze events rf = (let count = length events; sb = sb_edges events in (
    ebind (sw_edges events rf) (\<lambda>sw.
    let causal = closure count (sb @ [(w, r). (r, w) \<leftarrow> rf]) in
    if list_ex (\<lambda>i. bit (causal ! i) i) [0..<count] then Inr None
     else (
       let hb = closure count (sb @ sw) in
       ebind (coherence events (modifications events) hb rf) (\<lambda>ok.
       if \<not> ok then Inr None
       else (
         let raced = race_pairs events hb in
         let wrong = (if raced = [] then wrong_reads events hb else []) in
         Inr (Some \<lparr>races = map (names events) raced,
           wrong_values = map (\<lambda>r. ev_name (events ! r)) wrong,
           reads_from = map (names events) rf, synchronizes_with = map (names events) sw\<rparr>)))))))"

section \<open>The skeletons\<close>

definition Event :: "string \<Rightarrow> int \<Rightarrow> string \<Rightarrow> string \<Rightarrow> string \<Rightarrow> int \<Rightarrow> int \<Rightarrow> hevent" where
  "Event n t l k ord v msg = \<lparr>ev_name = n, thread = t, loc = l, kind = k, mem_order = ord,
     ev_value = v, message = msg\<rparr>"

definition WORDS :: "string list" where "WORDS = [''epoch'', ''x'', ''y'']"

definition tagged :: "string \<Rightarrow> nat \<Rightarrow> string" where
  "tagged s k = s @ show_nat k"

text \<open>One iteration of the producer's loop and of the consumer's loop; \<open>add\<close> appends and yields the
  position of the new event.\<close>

definition producer_round ::
    "nat \<Rightarrow> string \<Rightarrow> nat \<Rightarrow> hevent list \<times> (nat \<times> nat) list \<times> (nat \<times> nat) list
     \<Rightarrow> hevent list \<times> (nat \<times> nat) list \<times> (nat \<times> nat) list" where
  "producer_round n publication k s = (case s of (ev, pubs, retreads) \<Rightarrow>
     let retreads' = (if n \<le> k then retreads @ [(k, length ev)] else retreads);
         ev1 = (if n \<le> k then ev @ [Event (tagged ''P_acquire_C_for_'' k) 0 ''C'' ''R'' ''acquire'' 0 (-1)]
                else ev);
         ev2 = ev1 @ map (\<lambda>word. Event (tagged (''P_'' @ word @ ''_'') k) 0 (tagged word (k mod n)) ''W''
                 ''plain'' (int k + 1) (int k)) WORDS
     in (ev2 @ [Event (tagged ''P_publish_'' k) 0 ''P'' ''W'' publication (int k + 1) (int k)],
         pubs @ [(k, length ev2)], retreads'))"

definition consumer_round ::
    "nat \<Rightarrow> string \<Rightarrow> nat \<Rightarrow> hevent list \<times> (nat \<times> nat) list \<times> (nat \<times> nat) list
     \<Rightarrow> hevent list \<times> (nat \<times> nat) list \<times> (nat \<times> nat) list" where
  "consumer_round n reclamation k s = (case s of (ev, pubreads, rels) \<Rightarrow>
     let ev1 = ev @ [Event (tagged ''C_acquire_P_for_'' k) 1 ''P'' ''R'' ''acquire'' 0 (-1)];
         ev2 = ev1 @ map (\<lambda>word. Event (tagged (''C_'' @ word @ ''_'') k) 1 (tagged word (k mod n)) ''R''
                 ''plain'' (int k + 1) (int k)) WORDS
     in (ev2 @ [Event (tagged ''C_reclaim_'' k) 1 ''C'' ''W'' reclamation (int k + 1) (int k)],
         pubreads @ [(k, length ev)], rels @ [(k, length ev2)]))"

definition spsc_inits :: "nat \<Rightarrow> hevent list" where
  "spsc_inits n =
     [Event ''init_P'' (-1) ''P'' ''W'' ''relaxed'' 0 (-1), Event ''init_C'' (-1) ''C'' ''W'' ''relaxed'' 0 (-1)]
     @ concat (map (\<lambda>b. map (\<lambda>word. Event (tagged (''init_'' @ word @ ''_'') b) (-1) (tagged word b) ''W''
         ''plain'' 0 (-1)) WORDS) [0..<n])"

text \<open>The events and, for every atomic read in the order of the dictionary, the writes it may read.\<close>

definition spsc_skeleton ::
    "nat \<Rightarrow> nat \<Rightarrow> string \<Rightarrow> string \<Rightarrow> hevent list \<times> (nat \<times> nat list) list" where
  "spsc_skeleton n m publication reclamation =
     (let (ev, pubs, retreads) = fold (producer_round n publication) [0..<m] (spsc_inits n, [], []);
          (ev', pubreads, rels) = fold (consumer_round n reclamation) [0..<m] (ev, [], [])
      in (ev', [(r, [the (map_of pubs j). j \<leftarrow> [k..<m]]). (k, r) \<leftarrow> pubreads]
               @ [(r, [the (map_of rels j). j \<leftarrow> [k - n..<m]]). (k, r) \<leftarrow> retreads]))"

record fragment =
  candidates :: nat
  consistent :: nat
  violating :: nat
  witness :: "handoff_report option"

definition try_choice ::
    "hevent list \<Rightarrow> nat list \<Rightarrow> fragment \<Rightarrow> nat list \<Rightarrow> fragment result" where
  "try_choice ev rs f choice = (
    let f = f\<lparr>candidates := Suc (candidates f)\<rparr> in
    ebind (analyze ev (zip rs choice)) (\<lambda>result.
    case result of
       None \<Rightarrow> Inr f
     | Some rep \<Rightarrow>
         (let f = f\<lparr>consistent := Suc (consistent f)\<rparr>
          in if races rep \<noteq> [] \<or> wrong_values rep \<noteq> []
             then Inr (f\<lparr>violating := Suc (violating f),
                         witness := (case witness f of None \<Rightarrow> Some rep | Some x \<Rightarrow> Some x)\<rparr>)
             else Inr f)))"

definition handoff_status :: "fragment \<Rightarrow> string" where
  "handoff_status f = (if violating f \<noteq> 0 then ''FAIL_WITNESS'' else ''PASS_WITHIN_SCOPE'')"

definition handoff_spsc :: "nat \<Rightarrow> nat \<Rightarrow> string \<Rightarrow> string \<Rightarrow> fragment result" where
  "handoff_spsc n m publication reclamation =
     (let (ev, domains) = spsc_skeleton n m publication reclamation
      in efold (try_choice ev (map fst domains)) \<lparr>candidates = 0, consistent = 0, violating = 0, witness = None\<rparr>
           (product_lists (map snd domains)))"

definition ncq_events :: "string \<Rightarrow> string \<Rightarrow> hevent list" where
  "ncq_events entry_store entry_load =
    [Event ''init_entry'' (-1) ''entry'' ''W'' ''relaxed'' 0 (-1),
     Event ''init_status'' (-1) ''status'' ''W'' ''relaxed'' 0 (-1),
     Event ''init_epoch'' (-1) ''epoch'' ''W'' ''plain'' 0 (-1),
     Event ''init_payload'' (-1) ''payload'' ''W'' ''plain'' 0 (-1),
     Event ''P_epoch'' 0 ''epoch'' ''W'' ''plain'' 1 (-1),
     Event ''P_payload'' 0 ''payload'' ''W'' ''plain'' 7 (-1),
     Event ''P_COMMITTED'' 0 ''status'' ''W'' ''release'' 6 (-1),
     Event ''P_entry_install'' 0 ''entry'' ''W'' entry_store 2 (-1),
     Event ''C_entry_observe'' 1 ''entry'' ''R'' entry_load 0 (-1),
     Event ''C_epoch_BEFORE_status'' 1 ''epoch'' ''R'' ''plain'' 1 (-1),
     Event ''C_status_validate'' 1 ''status'' ''R'' ''acquire'' 0 (-1),
     Event ''C_payload'' 1 ''payload'' ''R'' ''plain'' 7 (-1)]"

definition handoff_ncq :: "string \<Rightarrow> string \<Rightarrow> (string \<times> handoff_report option) result" where
  "handoff_ncq entry_store entry_load = (
    ebind (analyze (ncq_events entry_store entry_load) [(8, 7), (10, 6)]) (\<lambda>result.
    case result of
       None \<Rightarrow> Inl (RuntimeError ''constructed handoff unexpectedly inconsistent'')
     | Some rep \<Rightarrow>
         Inr (if races rep \<noteq> [] then (''FAIL_WITNESS'', Some rep) else (''PASS_WITHIN_SCOPE'', None))))"

section \<open>Compare-and-swap histories\<close>

record cas_step =
  actor_id :: nat
  observed :: int
  success :: bool

definition cas_history :: "nat \<Rightarrow> (cas_step list \<times> int) result" where
  "cas_history first =
     (let (results, head) = fold (\<lambda>who (rs, head).
            let ok = (head = 0)
            in (rs @ [\<lparr>actor_id = who, observed = head, success = ok\<rparr>], if ok then 1 else head))
          [first, 1 - first] ([], 0)
      in if length (filter success results) \<noteq> 1 then Inl (RuntimeError ''atomicity checker defect'')
         else Inr (results, head))"

definition ticket_atomicity :: "(string \<times> cas_step list \<times> int) list result" where
  "ticket_atomicity =
     emap (\<lambda>(ord, first). ebind (cas_history first) (\<lambda>h. Inr (ord, h)))
       [(''seq_cst'', 0), (''seq_cst'', 1), (''relaxed'', 0), (''relaxed'', 1)]"

text \<open>The fixed campaign of \<open>main\<close>: its statuses and whether they are the expected ones.\<close>

definition handoff_campaign :: "string list result" where
  "handoff_campaign = (
    ebind (emap (\<lambda>(m, p, r). ebind (handoff_spsc 2 m p r) (\<lambda>f. Inr (handoff_status f)))
       [(4, ''release'', ''release''), (4, ''relaxed'', ''release''), (4, ''release'', ''relaxed''),
        (5, ''release'', ''release'')]) (\<lambda>a.
    ebind (emap (\<lambda>(s, l). ebind (handoff_ncq s l) (\<lambda>r. Inr (fst r)))
       [(''seq_cst'', ''seq_cst''), (''relaxed'', ''seq_cst''), (''seq_cst'', ''relaxed'')]) (\<lambda>b.
    ebind ticket_atomicity (\<lambda>h.
    Inr (a @ b @ [''PASS_WITHIN_SCOPE''])))))"

definition handoff_expected :: "string list" where
  "handoff_expected = [''PASS_WITHIN_SCOPE'', ''FAIL_WITNESS'', ''FAIL_WITNESS'', ''PASS_WITHIN_SCOPE'',
     ''PASS_WITHIN_SCOPE'', ''FAIL_WITNESS'', ''FAIL_WITNESS'', ''PASS_WITHIN_SCOPE'']"

definition handoff_main :: "int result" where
  "handoff_main = ebind handoff_campaign (\<lambda>statuses. Inr (if statuses = handoff_expected then 0 else 1))"

end
