(* ===== verification/Handoff_Claims.thy ===== *)
theory Handoff_Claims
  imports Handoff
begin

text \<open>
  The closure of the handoff checker is reachability, by the bounded-path argument of Warshall's
  algorithm, and a clean analysis means what it says in terms of that happens-before relation.
\<close>

section \<open>Bounded paths\<close>

fun via :: "(nat \<times> nat) set \<Rightarrow> nat \<Rightarrow> (nat \<times> nat) set" where
  "via E 0 = E"
| "via E (Suc n) = via E n \<union> {(x, y). (x, n) \<in> via E n \<and> (n, y) \<in> via E n}"

lemma via_sound: "p \<in> via E n \<Longrightarrow> p \<in> E\<^sup>+"
  by (induction n arbitrary: p) (auto intro: trancl_trans)

lemma via_joins: "(x, z) \<in> via E n \<Longrightarrow> (z, y) \<in> via E n \<Longrightarrow> z < n \<Longrightarrow> (x, y) \<in> via E n"
proof (induction n arbitrary: x y z)
  case (Suc n)
  then show ?case by (cases "z = n") (auto dest: Suc.IH simp: less_Suc_eq)
qed simp

lemma via_edge: "p \<in> E \<Longrightarrow> p \<in> via E n"
  by (induction n) auto

lemma via_trancl: "(\<And>a b. (a, b) \<in> E \<Longrightarrow> b < n) \<Longrightarrow> via E n = E\<^sup>+"
proof (intro equalityI subrelI)
  fix x y assume fld: "\<And>a b. (a, b) \<in> E \<Longrightarrow> b < n" and "(x, y) \<in> E\<^sup>+"
  from this(2) show "(x, y) \<in> via E n"
  proof (induction rule: trancl_induct)
    case (step y z)
    then have "y < n" "(y, z) \<in> via E n" by (blast dest: tranclD2 fld, simp add: via_edge)
    with step.IH show ?case by (blast intro: via_joins)
  qed (simp add: via_edge)
qed (auto dest: via_sound)

section \<open>Bit rows\<close>

lemma length_closure_steps [simp]:
  "length (set_edge e reach) = length reach" "length (absorb k row i reach) = length reach"
  by (auto simp: set_edge_def absorb_def split: prod.splits)

lemma length_fold_edges [simp]: "length (fold set_edge es reach) = length reach"
  by (induction es arbitrary: reach) auto

lemma length_fold_absorb [simp]: "length (fold (absorb k row) is reach) = length reach"
  by (induction "is" arbitrary: reach) auto

lemma length_passes [simp]: "length (fold (pass_over c) ks reach) = length reach"
  by (induction ks arbitrary: reach) (auto simp: pass_over_def Let_def)

lemma length_closure [simp]: "length (closure c es) = c"
  by (simp add: closure_def)

lemma bit_edges:
  assumes "a < length reach"
  shows "bit (fold set_edge es reach ! a) b \<longleftrightarrow> (a, b) \<in> set es \<or> bit (reach ! a) b"
  using assms
proof (induction es arbitrary: reach)
  case (Cons e es)
  obtain x y where [simp]: "e = (x, y)" by (cases e)
  have "bit (set_edge e reach ! a) b \<longleftrightarrow> (a, b) = e \<or> bit (reach ! a) b"
    using Cons.prems by (cases "a = x") (auto simp: set_edge_def bit_or_iff bit_exp_iff possible_bit_def)
  then show ?case using Cons.IH [of "set_edge e reach"] Cons.prems by auto
qed simp

lemma nth_absorb:
  assumes "n \<le> length reach" "i < length reach"
  shows "fold (absorb k row) [0..<n] reach ! i =
    (if i < n \<and> bit (reach ! i) k then reach ! i OR row else reach ! i)"
  using assms by (induction n) (auto simp: absorb_def less_Suc_eq nth_list_update)

lemma bit_pass:
  assumes "length reach = c" "i < c" "k < c"
  shows "bit (pass_over c k reach ! i) b \<longleftrightarrow>
    bit (reach ! i) b \<or> bit (reach ! i) k \<and> bit (reach ! k) b"
  using assms nth_absorb [of c reach i k "reach ! k"] by (auto simp: pass_over_def Let_def bit_or_iff)

lemma bit_passes:
  assumes "length reach = c" "n \<le> c" "i < c"
  shows "bit (fold (pass_over c) [0..<n] reach ! i) b \<longleftrightarrow> (i, b) \<in> via {(a, b). a < c \<and> bit (reach ! a) b} n"
  using assms by (induction n arbitrary: i b) (simp_all add: bit_pass)

lemma bit_closure:
  assumes "a < c" "\<And>x y. (x, y) \<in> set es \<Longrightarrow> x < c \<and> y < c"
  shows "bit (closure c es ! a) b \<longleftrightarrow> (a, b) \<in> (set es)\<^sup>+"
proof -
  have "{(a, b). a < c \<and> bit (fold set_edge es (replicate c 0) ! a) b} = set es"
    using assms(2) by (auto simp: bit_edges)
  moreover have "via (set es) c = (set es)\<^sup>+" using assms(2) by (intro via_trancl) blast
  ultimately show ?thesis using assms(1) by (simp add: closure_def bit_passes)
qed

text \<open>C27: The bit rows that the handoff checker computes are the transitive closure of the edges: for
  edges between the first \<open>count\<close> positions, bit \<open>b\<close> of row \<open>a\<close> is set exactly when a nonempty path leads
  from \<open>a\<close> to \<open>b\<close>.\<close>

theorem closure_is_reachability:
  assumes "a < count" "\<forall>(x, y)\<in>set edges. x < count \<and> y < count"
  shows "bit (closure count edges ! a) b \<longleftrightarrow> (a, b) \<in> (set edges)\<^sup>+"
  using assms by (intro bit_closure) auto

theorem closure_is_reachability_witness:
  "(0, 3) \<in> (set [(0::nat, 1::nat), (2, 3), (1, 2)])\<^sup>+ \<and> (2, 0) \<notin> (set [(0::nat, 1::nat), (2, 3), (1, 2)])\<^sup>+"
proof -
  have "closure 4 [(0, 1), (2, 3), (1, 2)] = [14, 12, 8, 0]" by code_simp
  then show ?thesis
    using closure_is_reachability [of 0 4 "[(0, 1), (2, 3), (1, 2)]" 3]
      closure_is_reachability [of 2 4 "[(0, 1), (2, 3), (1, 2)]" 0] by (simp add: bit_iff_odd)
qed

section \<open>What a clean analysis establishes\<close>

definition synchronizes :: "hevent list \<Rightarrow> assignment \<Rightarrow> (nat \<times> nat) set" where
  "synchronizes ev rf = {(w, r). (r, w) \<in> set rf \<and> mem_order (ev ! w) \<in> set RELEASE
     \<and> mem_order (ev ! r) \<in> set ACQUIRE}"

definition happens_before :: "hevent list \<Rightarrow> assignment \<Rightarrow> (nat \<times> nat) set" where
  "happens_before ev rf = (set (sb_edges ev) \<union> synchronizes ev rf)\<^sup>+"

lemma set_enumerated [simp]: "(i, e) \<in> set (enumerated xs) \<longleftrightarrow> i < length xs \<and> e = xs ! i"
  by (auto simp: enumerated_def in_set_zip intro!: exI [of _ i])

lemma set_plain: "i \<in> set (plain_events ev) \<longleftrightarrow> i < length ev \<and> mem_order (ev ! i) = ''plain''"
  by (auto simp: plain_events_def)

lemma zip_tl_in: "(x, y) \<in> set (zip s (tl s)) \<Longrightarrow> x \<in> set s \<and> y \<in> set s"
  by (cases s) (auto dest: set_zip_leftD set_zip_rightD)

lemma sb_in_range: "(x, y) \<in> set (sb_edges ev) \<Longrightarrow> x < length ev \<and> y < length ev"
  by (auto simp: sb_edges_def Let_def dest!: zip_tl_in split: if_splits)

lemma event_at_ok [accept]: "event_at ev i = Inr e \<longleftrightarrow> i < length ev \<and> e = ev ! i"
  by (auto simp: event_at_def)

text \<open>The plain writes a plain read can see, by the relation instead of the bit rows.\<close>

definition visible :: "hevent list \<Rightarrow> assignment \<Rightarrow> nat \<Rightarrow> nat set" where
  "visible ev rf r = {w. w < length ev \<and> mem_order (ev ! w) = ''plain'' \<and> kind (ev ! w) = ''W''
     \<and> loc (ev ! w) = loc (ev ! r) \<and> (w, r) \<in> happens_before ev rf}"

lemma sw_edges_set: "sw_edges ev rf = Inr sw \<Longrightarrow> set sw = synchronizes ev rf"
proof (induction rf arbitrary: sw)
  case (Cons p rf)
  obtain r w where [simp]: "p = (r, w)" by (cases p)
  let ?one = "ebind (event_at ev w) (\<lambda>ew. if mem_order ew \<in> set RELEASE
      then ebind (event_at ev r) (\<lambda>er. Inr (if mem_order er \<in> set ACQUIRE then [(w, r)] else []))
      else Inr [])"
  from Cons.prems obtain y ss where s: "?one = Inr y" "sw_edges ev rf = Inr (concat ss)" "sw = y @ concat ss"
    by (auto simp: sw_edges_def ebind_ok)
  have "set y = synchronizes ev [p]" using s(1) by (auto simp: synchronizes_def accept split: if_splits)
  with Cons.IH [OF s(2)] s(3) show ?case by (auto simp: synchronizes_def)
qed (simp add: sw_edges_def synchronizes_def)

lemma coherence_range:
  assumes "coherence ev mods hb rf = Inr True" "(r, w) \<in> set rf"
  shows "r < length ev \<and> w < length ev \<and> loc (ev ! r) = loc (ev ! w)"
proof -
  from assms have "ebind (event_at ev r) (\<lambda>er. ebind (event_at ev w) (\<lambda>ew.
      need (loc er = loc ew) ''wrong reads-from location'' (ebind (at_key mods (loc er)) (\<lambda>seq.
        ebind (every (coherent_write hb (ranks mods) r w) seq) (\<lambda>a.
          if a then every (coherent_read ev hb (ranks mods) r w) rf else Inr False))))) = Inr True"
    by (auto simp: coherence_def Let_def every_ok)
  then show ?thesis by (auto simp: ebind_ok need_ok event_at_ok)
qed

lemma analyze_inversion:
  assumes "analyze ev rf = Inr (Some rep)"
  obtains sw hb where "sw_edges ev rf = Inr sw" "hb = closure (length ev) (sb_edges ev @ sw)"
    "\<forall>i<length ev. \<not> bit (closure (length ev) (sb_edges ev @ [(w, r). (r, w) \<leftarrow> rf]) ! i) i"
    "coherence ev (modifications ev) hb rf = Inr True"
    "races rep = map (names ev) (race_pairs ev hb)"
    "wrong_values rep = map (\<lambda>r. ev_name (ev ! r)) (if race_pairs ev hb = [] then wrong_reads ev hb else [])"
  using assms by (fastforce simp: analyze_def Let_def ebind_ok list_ex_iff split: if_splits)

lemma ordered_in_list:
  assumes "i \<in> set xs" "j \<in> set xs" "i \<noteq> j"
  obtains k where "k < length xs" "xs ! k = i" "j \<in> set (drop (Suc k) xs)"
  | k where "k < length xs" "xs ! k = j" "i \<in> set (drop (Suc k) xs)"
proof -
  obtain a b where ab: "a < length xs" "xs ! a = i" "b < length xs" "xs ! b = j"
    using assms by (metis in_set_conv_nth)
  have later: "xs ! n \<in> set (drop (Suc m) xs)" if "m < n" "n < length xs" for m n
    using that by (auto simp: in_set_conv_nth intro!: exI [of _ "n - Suc m"])
  show ?thesis using ab that(1) [of a] that(2) [of b] later [of a b] later [of b a] assms(3)
    by (cases a b rule: linorder_cases) auto
qed

lemma conflicting_sym: "conflicting a b \<longleftrightarrow> conflicting b a"
  by (auto simp: conflicting_def)

lemma set_race_pairs: "(i, j) \<in> set (race_pairs ev hb) \<longleftrightarrow>
    (\<exists>k<length (plain_events ev). i = plain_events ev ! k \<and> j \<in> set (drop (Suc k) (plain_events ev))
      \<and> conflicting (ev ! i) (ev ! j) \<and> \<not> (bit (hb ! i) j \<or> bit (hb ! j) i))"
  by (auto simp: race_pairs_def Let_def)

lemma no_race_pairs:
  assumes "race_pairs ev hb = []" "i \<in> set (plain_events ev)" "j \<in> set (plain_events ev)"
    "i \<noteq> j" "conflicting (ev ! i) (ev ! j)"
  shows "bit (hb ! i) j \<or> bit (hb ! j) i"
proof -
  let ?P = "plain_events ev"
  have pair: "bit (hb ! (?P ! k)) y \<or> bit (hb ! y) (?P ! k)"
    if "k < length ?P" "y \<in> set (drop (Suc k) ?P)" "conflicting (ev ! (?P ! k)) (ev ! y)" for k y
    using assms(1) that set_race_pairs [of "?P ! k" y ev hb] by auto
  from assms(2,3,4) show ?thesis
    by (cases rule: ordered_in_list) (use pair assms(5) conflicting_sym in blast)+
qed

lemma handoff_analysis:
  assumes "analyze ev rf = Inr (Some rep)" "races rep = []" "wrong_values rep = []"
  obtains hb where "\<And>i j. i < length ev \<Longrightarrow> bit (hb ! i) j \<longleftrightarrow> (i, j) \<in> happens_before ev rf"
    "\<And>i. (i, i) \<notin> happens_before ev rf" "race_pairs ev hb = []" "wrong_reads ev hb = []"
proof -
  from assms(1) obtain sw hb where a: "sw_edges ev rf = Inr sw"
    "hb = closure (length ev) (sb_edges ev @ sw)"
    "\<forall>i<length ev. \<not> bit (closure (length ev) (sb_edges ev @ [(w, r). (r, w) \<leftarrow> rf]) ! i) i"
    "coherence ev (modifications ev) hb rf = Inr True"
    "races rep = map (names ev) (race_pairs ev hb)"
    "wrong_values rep = map (\<lambda>r. ev_name (ev ! r)) (if race_pairs ev hb = [] then wrong_reads ev hb else [])"
    by (rule analyze_inversion)
  have sw: "set sw = synchronizes ev rf" by (rule sw_edges_set [OF a(1)])
  have sub: "synchronizes ev rf \<subseteq> set [(w, r). (r, w) \<leftarrow> rf]" by (auto simp: synchronizes_def)
  have range: "x < length ev \<and> y < length ev" if "(x, y) \<in> set (sb_edges ev @ [(w, r). (r, w) \<leftarrow> rf])" for x y
    using that coherence_range [OF a(4)] by (auto dest: sb_in_range)
  have hb: "bit (hb ! i) j \<longleftrightarrow> (i, j) \<in> happens_before ev rf" if "i < length ev" for i j
  proof -
    have "x < length ev \<and> y < length ev" if "(x, y) \<in> set (sb_edges ev @ sw)" for x y
      using that range [of x y] sub unfolding set_append sw by blast
    with that show ?thesis unfolding a(2) happens_before_def by (subst bit_closure) (simp_all add: sw)
  qed
  have "(i, i) \<notin> happens_before ev rf" for i
  proof
    assume h: "(i, i) \<in> happens_before ev rf"
    have "happens_before ev rf \<subseteq> (set (sb_edges ev @ [(w, r). (r, w) \<leftarrow> rf]))\<^sup>+"
      unfolding happens_before_def using sub by (auto elim!: trancl_mono)
    with h have t: "(i, i) \<in> (set (sb_edges ev @ [(w, r). (r, w) \<leftarrow> rf]))\<^sup>+" by blast
    moreover have i: "i < length ev" using tranclD [OF t] range by blast
    ultimately show False using a(3) bit_closure [OF i range] by blast
  qed
  moreover have "race_pairs ev hb = []" "wrong_reads ev hb = []" using a(5,6) assms(2,3) by auto
  ultimately show ?thesis using that hb by blast
qed

lemma length_one_iff: "length xs = 1 \<Longrightarrow> set xs = {hd xs}"
  by (cases xs) auto

text \<open>C28: An analysis that reports neither a race nor a wrong value is right about the execution it
  was given: happens-before (program order and release/acquire synchronisation) has no cycle, any two
  plain accesses of different threads to one location, one of them a write, are ordered by it, and
  every plain read returns the value of the one visible write that no other visible write follows.\<close>

theorem handoff_clean_sound:
  assumes "analyze ev rf = Inr (Some rep)" "races rep = []" "wrong_values rep = []"
  shows "(\<forall>i. (i, i) \<notin> happens_before ev rf)
    \<and> (\<forall>i j. i < length ev \<and> j < length ev \<and> mem_order (ev ! i) = ''plain'' \<and> mem_order (ev ! j) = ''plain''
         \<and> conflicting (ev ! i) (ev ! j) \<longrightarrow> (i, j) \<in> happens_before ev rf \<or> (j, i) \<in> happens_before ev rf)
    \<and> (\<forall>r. r < length ev \<and> mem_order (ev ! r) = ''plain'' \<and> kind (ev ! r) = ''R'' \<longrightarrow>
         (\<exists>w. {w \<in> visible ev rf r. \<forall>v\<in>visible ev rf r. (w, v) \<notin> happens_before ev rf} = {w}
            \<and> ev_value (ev ! w) = ev_value (ev ! r)))"
proof -
  obtain hb where hb: "\<And>i j. i < length ev \<Longrightarrow> bit (hb ! i) j \<longleftrightarrow> (i, j) \<in> happens_before ev rf"
    and irr: "\<And>i. (i, i) \<notin> happens_before ev rf" and clean: "race_pairs ev hb = []" "wrong_reads ev hb = []"
    by (rule handoff_analysis [OF assms]) blast
  have vis: "set (visible_writes ev hb r) = visible ev rf r" for r
    by (auto simp: visible_writes_def visible_def set_plain hb)
  have lat: "set (latest_writes ev hb r) =
      {w \<in> visible ev rf r. \<forall>v\<in>visible ev rf r. (w, v) \<notin> happens_before ev rf}" for r
    using irr by (auto simp: latest_writes_def Let_def list_ex_iff vis) (auto simp: visible_def hb)
  have "\<exists>w. set (latest_writes ev hb r) = {w} \<and> ev_value (ev ! w) = ev_value (ev ! r)"
    if "r < length ev" "mem_order (ev ! r) = ''plain''" "kind (ev ! r) = ''R''" for r
  proof -
    have "r \<in> set (plain_events ev)" using that by (simp add: set_plain)
    with clean(2) that(3) have "length (latest_writes ev hb r) = 1"
      "ev_value (ev ! hd (latest_writes ev hb r)) = ev_value (ev ! r)"
      by (auto simp: wrong_reads_def Let_def split: if_splits)
    then show ?thesis using length_one_iff by blast
  qed
  moreover have "(i, j) \<in> happens_before ev rf \<or> (j, i) \<in> happens_before ev rf"
    if "i < length ev" "j < length ev" "mem_order (ev ! i) = ''plain''" "mem_order (ev ! j) = ''plain''"
      "conflicting (ev ! i) (ev ! j)" for i j
    using that no_race_pairs [OF clean(1), of i j] hb by (auto simp: set_plain conflicting_def)
  ultimately show ?thesis using irr lat by auto
qed

section \<open>The queue fragment\<close>

text \<open>The analysis of the first ready publication, evaluated part by part.\<close>

definition ncq_rf :: assignment where "ncq_rf = [(8, 7), (10, 6)]"

definition strong_rows :: "int list" where
  "strong_rows = [4080, 4080, 4080, 4080, 4064, 4032, 3968, 3840, 3584, 3072, 2048, 0]"

definition weak_rows :: "int list" where
  "weak_rows = [4080, 4080, 4080, 4080, 3296, 3264, 3200, 0, 3584, 3072, 2048, 0]"

lemma sb_ncq: "sb_edges (ncq_events s l) = sb_edges (ncq_events [] [])"
  by (simp add: sb_edges_def ncq_events_def Event_def enumerated_def)

lemma ncq_rows:
  "closure 12 (sb_edges (ncq_events [] []) @ [(7, 8), (6, 10)]) = strong_rows"
  "closure 12 (sb_edges (ncq_events [] []) @ [(6, 10)]) = weak_rows"
  by code_simp+

lemma ncq_acyclic: "list_ex (\<lambda>i. bit (strong_rows ! i) i) [0..<12] \<longleftrightarrow> False"
  by code_simp

text \<open>The two memory orders decide only which synchronizes-with edges there are.\<close>

lemma ncq_modifications:
  "s \<noteq> ''plain'' \<Longrightarrow> modifications (ncq_events s l) = [(''entry'', [0, 7]), (''status'', [1, 6])]"
  by (simp add: modifications_def enumerated_def ncq_events_def Event_def)

lemma ncq_plain:
  "s \<noteq> ''plain'' \<Longrightarrow> l \<noteq> ''plain'' \<Longrightarrow> plain_events (ncq_events s l) = [2, 3, 4, 5, 9, 11]"
  by (simp add: plain_events_def enumerated_def ncq_events_def Event_def)

lemma ncq_sw:
  "sw_edges (ncq_events s l) ncq_rf
    = Inr ((if s \<in> set RELEASE \<and> l \<in> set ACQUIRE then [(7, 8)] else []) @ [(6, 10)])"
  by (simp add: sw_edges_def event_at_def ncq_events_def Event_def ncq_rf_def RELEASE_def ACQUIRE_def)

lemma ncq_coherence:
  "coherence (ncq_events s l) [(''entry'', [0, 7]), (''status'', [1, 6])] strong_rows ncq_rf = Inr True"
  "coherence (ncq_events s l) [(''entry'', [0, 7]), (''status'', [1, 6])] weak_rows ncq_rf = Inr True"
  by code_simp+

lemma ncq_races:
  assumes "s \<noteq> ''plain''" "l \<noteq> ''plain''"
  shows "race_pairs (ncq_events s l) strong_rows = []" "wrong_reads (ncq_events s l) strong_rows = []"
    "race_pairs (ncq_events s l) weak_rows = [(4, 9)]"
  unfolding race_pairs_def wrong_reads_def latest_writes_def visible_writes_def Let_def ncq_plain [OF assms]
  by code_simp+

lemma ncq_analysis:
  assumes "sw_edges (ncq_events s l) ncq_rf = Inr sw" "closure 12 (sb_edges (ncq_events [] []) @ sw) = hb"
    "coherence (ncq_events s l) (modifications (ncq_events s l)) hb ncq_rf = Inr True"
  shows "\<exists>rep. analyze (ncq_events s l) ncq_rf = Inr (Some rep)
    \<and> races rep = map (names (ncq_events s l)) (race_pairs (ncq_events s l) hb)
    \<and> (race_pairs (ncq_events s l) hb = [] \<longrightarrow> wrong_values rep =
         map (\<lambda>r. ev_name (ncq_events s l ! r)) (wrong_reads (ncq_events s l) hb))"
proof -
  have len: "length (ncq_events s l) = 12" by (simp add: ncq_events_def)
  have rf: "[(w, r). (r, w) \<leftarrow> ncq_rf] = [(7, 8), (6, 10)]" by (simp add: ncq_rf_def)
  show ?thesis
    using assms unfolding analyze_def len Let_def sb_ncq [of s l] rf ncq_rows ncq_acyclic by simp
qed

lemma ncq_race_names: "names (ncq_events s l) (4, 9) = (''P_epoch'', ''C_epoch_BEFORE_status'')"
  by (simp add: names_def ncq_events_def Event_def)

lemma ncq_outcome:
  assumes "s \<noteq> ''plain''" "l \<noteq> ''plain''"
  shows "\<exists>rep. analyze (ncq_events s l) ncq_rf = Inr (Some rep)
    \<and> (if s \<in> set RELEASE \<and> l \<in> set ACQUIRE then races rep = [] \<and> wrong_values rep = []
       else races rep = [(''P_epoch'', ''C_epoch_BEFORE_status'')])"
proof (cases "s \<in> set RELEASE \<and> l \<in> set ACQUIRE")
  case True
  then have "sw_edges (ncq_events s l) ncq_rf = Inr [(7, 8), (6, 10)]" by (simp add: ncq_sw)
  from ncq_analysis [OF this ncq_rows(1), unfolded ncq_modifications [OF assms(1)], OF ncq_coherence(1)] True
  show ?thesis by (simp add: ncq_races [OF assms])
next
  case False
  then have "sw_edges (ncq_events s l) ncq_rf = Inr [(6, 10)]" by (auto simp: ncq_sw)
  from ncq_analysis [OF this ncq_rows(2), unfolded ncq_modifications [OF assms(1)], OF ncq_coherence(2)] False
  show ?thesis by (auto simp: ncq_races [OF assms] ncq_race_names)
qed

lemma strong_orders: "''seq_cst'' \<in> set RELEASE" "''seq_cst'' \<in> set ACQUIRE"
  by (simp_all add: RELEASE_def ACQUIRE_def)

theorem handoff_clean_sound_witness:
  "(\<forall>i. (i, i) \<notin> happens_before (ncq_events ''seq_cst'' ''seq_cst'') ncq_rf)
    \<and> ((4, 9) \<in> happens_before (ncq_events ''seq_cst'' ''seq_cst'') ncq_rf
       \<or> (9, 4) \<in> happens_before (ncq_events ''seq_cst'' ''seq_cst'') ncq_rf)"
proof -
  obtain rep where rep: "analyze (ncq_events ''seq_cst'' ''seq_cst'') ncq_rf = Inr (Some rep)"
    "races rep = []" "wrong_values rep = []" using ncq_outcome [of "''seq_cst''" "''seq_cst''"] strong_orders by auto
  have "conflicting (ncq_events ''seq_cst'' ''seq_cst'' ! 4) (ncq_events ''seq_cst'' ''seq_cst'' ! 9)"
    "mem_order (ncq_events ''seq_cst'' ''seq_cst'' ! 4) = ''plain''"
    "mem_order (ncq_events ''seq_cst'' ''seq_cst'' ! 9) = ''plain''"
    "length (ncq_events ''seq_cst'' ''seq_cst'') = 12"
    by (simp_all add: ncq_events_def Event_def conflicting_def)
  with handoff_clean_sound [OF rep] show ?thesis by auto
qed

text \<open>C29: The queue fragment is decided by its two memory orders, whatever atomic orders they are: it
  passes when the entry store releases and the entry load acquires, and otherwise the checker exhibits
  the race between the producer's write and the consumer's read of the descriptor epoch. In every
  compare-and-swap history of two claims exactly one claim succeeds, the first, and the head moves to 1.\<close>

theorem queue_fragment_decided:
  assumes "entry_store \<noteq> ''plain''" "entry_load \<noteq> ''plain''"
  shows "(if entry_store \<in> set RELEASE \<and> entry_load \<in> set ACQUIRE
      then handoff_ncq entry_store entry_load = Inr (''PASS_WITHIN_SCOPE'', None)
      else \<exists>rep. handoff_ncq entry_store entry_load = Inr (''FAIL_WITNESS'', Some rep)
        \<and> races rep = [(''P_epoch'', ''C_epoch_BEFORE_status'')])
    \<and> (\<exists>rs. cas_history first = Inr (rs, 1) \<and> map actor_id rs = [first, 1 - first]
        \<and> map success rs = [True, False])"
proof -
  obtain rep where rep: "analyze (ncq_events entry_store entry_load) [(8, 7), (10, 6)] = Inr (Some rep)"
    and r: "if entry_store \<in> set RELEASE \<and> entry_load \<in> set ACQUIRE then races rep = [] \<and> wrong_values rep = []
      else races rep = [(''P_epoch'', ''C_epoch_BEFORE_status'')]"
    using ncq_outcome [OF assms] unfolding ncq_rf_def by blast
  have "\<exists>rs. cas_history first = Inr (rs, 1) \<and> map actor_id rs = [first, 1 - first] \<and> map success rs = [True, False]"
    by (simp add: cas_history_def Let_def)
  then show ?thesis using r by (auto simp: handoff_ncq_def rep split: if_splits)
qed

theorem queue_fragment_decided_witness:
  "handoff_ncq ''release'' ''acquire'' = Inr (''PASS_WITHIN_SCOPE'', None)
    \<and> (\<exists>rep. handoff_ncq ''release'' ''relaxed'' = Inr (''FAIL_WITNESS'', Some rep))
    \<and> (\<exists>rs. cas_history 1 = Inr (rs, 1) \<and> map success rs = [True, False])"
  using queue_fragment_decided [of "''release''" "''acquire''" 1] queue_fragment_decided [of "''release''" "''relaxed''" 1]
  by (auto simp: RELEASE_def ACQUIRE_def)

end
