(* ===== verification/Boundaries.thy ===== *)
theory Boundaries
  imports Pyvals
begin

text \<open>
  The finite arithmetic of \<open>formal/boundaries.py\<close>: the ticket and epoch ceilings, the wrap-around
  witness, and the interleavings of one enrolment with one retirement on the admission gate.
\<close>

unbundle bit_operations_syntax

section \<open>Ceilings\<close>

definition block_check :: "int \<Rightarrow> int \<Rightarrow> int \<Rightarrow> int \<Rightarrow> int \<Rightarrow> int result" where
  "block_check n j t checks b =
     (let entry = (t AND NOT (n - 1)) OR b
      in if \<not> (t < t + 1 \<and> t + 1 \<le> j \<and> entry \<le> j) then Inl (RuntimeError ''bad ceiling'')
         else Inr (checks + 1))"

definition ticket_check :: "int \<Rightarrow> int \<Rightarrow> int \<Rightarrow> int \<Rightarrow> int result" where
  "ticket_check n j checks t = (if t < j then efold (block_check n j t) checks [0..n - 1] else Inr checks)"

definition width_check :: "int \<Rightarrow> nat \<times> nat \<Rightarrow> int result" where
  "width_check checks p = (case p of (w, logn) \<Rightarrow>
     let n = push_bit logn 1; j = push_bit w 1 - n - 1 in efold (ticket_check n j) checks [0..j])"

definition native_check :: "int \<Rightarrow> int \<Rightarrow> int result" where
  "native_check checks n =
     (let j = push_bit 64 1 - n - 1
      in efold (\<lambda>checks t. if t < j \<and> \<not> (0 < t + 1 \<and> t + 1 \<le> j) then Inl (RuntimeError ''U64 bound'')
                          else Inr (checks + 1)) checks [j - 1, j, j + 1])"

definition epoch_check :: "int \<Rightarrow> int \<Rightarrow> int result" where
  "epoch_check checks g =
     (if g < 14 \<and> (push_bit 2 (g + 1) OR 3) > 63 then Inl (RuntimeError ''epoch overflow'')
      else Inr (checks + 1))"

definition bounds :: "int result" where
  "bounds = (
    ebind (efold width_check 0 [(w, logn). w \<leftarrow> [3..<11], logn \<leftarrow> [1..<w - 1]]) (\<lambda>c.
    ebind (efold native_check c [2, 4, 8, 1024, push_bit 31 1]) (\<lambda>c.
    efold epoch_check c [0..15])))"

section \<open>The wrap-around witness\<close>

record wrap_step =
  logical_claim :: int
  expected_head :: int
  desired_head :: int

fun wrap_steps :: "nat \<Rightarrow> int \<Rightarrow> int \<Rightarrow> wrap_step list" where
  "wrap_steps 0 k head = []"
| "wrap_steps (Suc m) k head =
     (let head' = (head + 1) AND 255
      in \<lparr>logical_claim = 4 + k, expected_head = head, desired_head = head'\<rparr> # wrap_steps m (k + 1) head')"

definition wrapping :: "int \<times> wrap_step list" where
  "wrapping = (251 - 4, wrap_steps 260 0 4)"

section \<open>The admission gate\<close>

datatype gate_action = A_read | A_CAS | R_read | R_CAS

record gate_event =
  gate_action :: gate_action
  gate_success :: "bool option"
  gate_state :: "string \<times> int"

text \<open>\<open>itertools.permutations\<close> of distinct elements.\<close>

fun permutations :: "nat \<Rightarrow> 'a list \<Rightarrow> 'a list list" where
  "permutations 0 xs = [[]]"
| "permutations (Suc n) xs = concat (map (\<lambda>x. map ((#) x) (permutations n (remove1 x xs))) xs)"

fun position :: "'a \<Rightarrow> 'a list \<Rightarrow> nat" where
  "position x [] = 0"
| "position x (y # ys) = (if x = y then 0 else Suc (position x ys))"

fun who :: "gate_action \<Rightarrow> string" where
  "who A_read = ''A''" | "who A_CAS = ''A''" | "who R_read = ''R''" | "who R_CAS = ''R''"

definition gate_step ::
    "(string \<times> int) \<times> (string \<times> string \<times> int) list \<times> gate_event list \<Rightarrow> gate_action
     \<Rightarrow> ((string \<times> int) \<times> (string \<times> string \<times> int) list \<times> gate_event list) result" where
  "gate_step s action = (case s of (state, saved, events) \<Rightarrow>
     if action = A_read \<or> action = R_read
     then Inr (state, AList.update (who action) state saved,
               events @ [\<lparr>gate_action = action, gate_success = None, gate_state = state\<rparr>])
     else (case map_of saved (who action) of
         None \<Rightarrow> Inl (KeyError (who action))
       | Some old \<Rightarrow>
           (let won = (state = old \<and> \<not> (action = A_CAS \<and> fst old \<noteq> ''READY''));
                state' = (if \<not> won then state
                          else if action = A_CAS then (''READY'', snd state + 1)
                          else (''RETIRE'', snd state))
            in Inr (state', saved,
                    events @ [\<lparr>gate_action = action, gate_success = Some won, gate_state = state'\<rparr>]))))"

text \<open>An enrolment that succeeds after a retirement that succeeded.\<close>

definition late_enrollment :: "gate_event list \<Rightarrow> bool" where
  "late_enrollment events =
     list_ex (\<lambda>k. gate_action (events ! k) = A_CAS \<and> gate_success (events ! k) = Some True
        \<and> list_ex (\<lambda>p. gate_action p = R_CAS \<and> gate_success p = Some True) (take k events))
       [0..<length events]"

definition gate_history :: "gate_action list \<Rightarrow> gate_event list result" where
  "gate_history ord = (
    ebind (efold gate_step ((''READY'', 0), [], []) ord) (\<lambda>(state, saved, events).
    if 1 < snd state then Inl (RuntimeError ''gate corruption'')
     else if late_enrollment events then Inl (RuntimeError ''late enrollment'')
     else Inr events))"

definition gate_orders :: "gate_action list list" where
  "gate_orders =
     filter (\<lambda>ord. \<not> (position A_read ord > position A_CAS ord \<or> position R_read ord > position R_CAS ord))
       (permutations 4 [A_read, A_CAS, R_read, R_CAS])"

definition gate :: "gate_event list list result" where
  "gate = emap gate_history gate_orders"

section \<open>The ceilings hold\<close>

lemma efold_counts:
  assumes "\<And>c x. x \<in> set xs \<Longrightarrow> \<exists>c'. f c x = Inr c'"
  shows "\<exists>c'. efold f c xs = Inr c'"
  using assms
proof (induction xs arbitrary: c)
  case (Cons x xs)
  obtain c' where "f c x = Inr c'" using Cons.prems [of x c] by auto
  then show ?case using Cons.IH [of c'] Cons.prems by auto
qed simp

text \<open>The block entry of a ticket: the cycle bits of the ticket and the block number below them.\<close>

lemma entry_value:
  fixes t b :: int
  assumes "0 \<le> b" "b < 2 ^ k"
  shows "(t AND NOT (2 ^ k - 1)) OR b = t div 2 ^ k * 2 ^ k + b"
proof -
  have m: "2 ^ k - 1 = (mask k :: int)" by (simp add: mask_eq_exp_minus_1)
  have "take_bit k b = b" using assms by (simp add: take_bit_int_eq_self)
  then have "(t AND NOT (mask k)) AND b = 0"
    by (metis and.assoc and.commute and_zero_eq bit.conj_cancel_right take_bit_eq_mask)
  then have "(t AND NOT (mask k)) OR b = (t AND NOT (mask k)) + b"
    by (simp add: disjunctive_add_eq_or)
  moreover have "t AND NOT (mask k) = t div 2 ^ k * 2 ^ k"
  proof -
    have "t AND NOT (mask k) = push_bit k (drop_bit k t)"
      by (rule bit_eqI) (auto simp: bit_and_iff bit_not_iff bit_mask_iff bit_push_bit_iff bit_drop_bit_eq)
    then show ?thesis by (simp add: drop_bit_eq_div push_bit_eq_mult)
  qed
  ultimately show ?thesis by (simp add: m)
qed

lemma entry_below_ceiling:
  fixes t b :: int
  assumes "1 \<le> k" "k < w" "0 \<le> t" "t < 2 ^ w - 2 ^ k - 1" "0 \<le> b" "b < 2 ^ k"
  shows "(t AND NOT (2 ^ k - 1)) OR b \<le> 2 ^ w - 2 ^ k - 1"
proof -
  define n :: int where "n = 2 ^ k"
  have n: "0 < n" "2 \<le> n" using assms(1) power_increasing [of 1 k "2::int"] by (auto simp: n_def)
  obtain m where m: "(2::int) ^ w = m * n"
    using assms(2) by (metis le_imp_power_dvd dvdE less_imp_le mult.commute n_def)
  have "t < (m - 1) * n - 1" using assms(4) m by (simp add: n_def algebra_simps)
  moreover have "(m - 1) * n \<le> t div n * n" if "m - 1 \<le> t div n" using that n by (intro mult_right_mono) auto
  moreover have "t div n * n \<le> t" using n by (simp add: minus_mod_eq_div_mult [symmetric])
  ultimately have "t div n \<le> m - 2" by linarith
  then have "t div n * n \<le> (m - 2) * n" using n by (intro mult_right_mono) auto
  with assms(5,6) entry_value [of b k t] m show ?thesis by (simp add: n_def algebra_simps)
qed

lemma block_check_returns:
  assumes "1 \<le> k" "k < w" "0 \<le> t" "t < 2 ^ w - 2 ^ k - 1" "0 \<le> b" "b < 2 ^ k"
  shows "\<exists>c'. block_check (2 ^ k) (2 ^ w - 2 ^ k - 1) t c b = Inr c'"
  using assms entry_below_ceiling [of k w t b] by (auto simp: block_check_def Let_def)

lemma width_check_returns:
  assumes "1 \<le> k" "k < w"
  shows "\<exists>c'. width_check c (w, k) = Inr c'"
  unfolding width_check_def Let_def prod.case push_bit_of_1
  by (intro efold_counts) (auto simp: ticket_check_def intro!: efold_counts block_check_returns assms)

lemma bounds_returns: "\<exists>c. bounds = Inr c"
proof -
  obtain c1 where 1: "efold width_check 0 [(w, logn). w \<leftarrow> [3..<11], logn \<leftarrow> [1..<w - 1]] = Inr c1"
    using efold_counts [of "[(w, logn). w \<leftarrow> [3..<11], logn \<leftarrow> [1..<w - 1]]" width_check 0]
    by (fastforce intro: width_check_returns)
  obtain c2 where 2: "efold native_check c1 [2, 4, 8, 1024, push_bit 31 1] = Inr c2"
    using efold_counts [of "[2, 4, 8, 1024, push_bit 31 1]" native_check c1]
    by (auto simp: native_check_def Let_def)
  have "\<exists>c3. efold epoch_check c2 [0..15] = Inr c3"
    by (simp add: epoch_check_def upto.simps)
  then show ?thesis using 1 2 by (simp add: bounds_def)
qed

text \<open>The represented head is the claim number modulo 256, so the value saved at the start is back
  after exactly 256 claims.\<close>

lemma wrap_steps_nth:
  "i < m \<Longrightarrow> head = (4 + k) mod 256 \<Longrightarrow>
   wrap_steps m k head ! i = \<lparr>logical_claim = 4 + k + int i, expected_head = (4 + k + int i) mod 256,
     desired_head = (5 + k + int i) mod 256\<rparr>"
proof (induction m k head arbitrary: i rule: wrap_steps.induct)
  case (2 m k head)
  have "(head + 1) AND 255 = (4 + (k + 1)) mod 256"
    using "2.prems"(2) take_bit_eq_mask [of 8 "head + 1"]
    by (simp add: take_bit_eq_mod mask_eq_exp_minus_1 mod_simps add.commute add.left_commute)
  with 2 show ?case by (cases i) (simp_all add: Let_def algebra_simps)
qed simp

lemma wrapping_heads: "map expected_head (snd wrapping) = map (\<lambda>i. (4 + int i) mod 256) [0..<260]"
proof (rule nth_equalityI)
  have len: "length (wrap_steps m k h) = m" for m k h
    by (induction m k h rule: wrap_steps.induct) (simp_all add: Let_def)
  then show "length (map expected_head (snd wrapping)) = length (map (\<lambda>i. (4 + int i) mod 256) [0..<260])"
    by (simp add: wrapping_def)
  fix i assume "i < length (map expected_head (snd wrapping))"
  then show "map expected_head (snd wrapping) ! i = map (\<lambda>i. (4 + int i) mod 256) [0..<260] ! i"
    using wrap_steps_nth [of i 260 4 0] by (simp add: wrapping_def len)
qed

lemma gate_outcome:
  "case gate of Inl e \<Rightarrow> False
   | Inr hs \<Rightarrow> length hs = 6 \<and> \<not> list_ex late_enrollment hs \<and> list_all (\<lambda>h. length h = 4) hs"
  by code_simp

text \<open>The boundary arithmetic raises nowhere: for every ticket width, capacity, ticket below the
  ceiling and block the successor ticket and the block entry stay at or below the ceiling. The
  represented head of the wrapping mutant is the claim number modulo 256. The six interleavings of an
  enrolment with a retirement all complete, and in none does an enrolment succeed after the retirement.\<close>

theorem boundaries_pass:
  "(\<exists>checks. bounds = Inr checks)
    \<and> map expected_head (snd wrapping) = map (\<lambda>i. (4 + int i) mod 256) [0..<260]
    \<and> (\<exists>hs. gate = Inr hs \<and> length hs = 6 \<and> \<not> list_ex late_enrollment hs)"
  using bounds_returns wrapping_heads gate_outcome by (auto split: sum.splits)

end
