(* ===== verification/Targeted.thy ===== *)
theory Targeted
  imports Ncq Pyvals
begin

text \<open>
  The deterministic schedules of \<open>formal/targeted.py\<close> over the queue model of \<open>Ncq\<close>: a publisher
  stopped inside its private write, one stopped after its publication, and a consumer whose head
  observation goes stale across physical laps. A schedule is run on a pair of the model state and the
  trace; the nested functions \<open>step\<close> and \<open>until\<close> of the source are \<open>sched_step\<close> and \<open>sched_until\<close>.
\<close>

type_synonym schedule = "ncq_state \<times> (string \<times> ncq_state) list"

fun yields :: "ncq_event list \<Rightarrow> (string \<times> ncq_state \<times> violation option) list result" where
  "yields [] = Inr []"
| "yields (Raise e # es) = Inl e"
| "yields (Yield l t p v # es) = ebind (yields es) (\<lambda>ys. Inr ((l, t, v) # ys))"

definition starts_with :: "string \<Rightarrow> string \<Rightarrow> bool" where
  "starts_with p s \<longleftrightarrow> take (length p) s = p"

definition sched_step :: "ncq_model \<Rightarrow> int \<Rightarrow> schedule \<Rightarrow> schedule result" where
  "sched_step m i st = (case st of (s, trace) \<Rightarrow> (
    ebind (yields (ncq_successors m s)) (\<lambda>ys.
    (case filter (\<lambda>x. starts_with (show_int i @ '':'') (fst x)) ys of
        [(label, t, error)] \<Rightarrow> (
          ebind ((case error of Some v \<Rightarrow> Inr (Some v) | None \<Rightarrow> ncq_invariant m t)) (\<lambda>error.
          (case error of
             Some v \<Rightarrow> Inl (RuntimeError ''violation'')
           | None \<Rightarrow> Inr (t, trace @ [(label, t)]))))
      | _ \<Rightarrow> Inl (RuntimeError ''targeted schedule ambiguous or stuck'')))))"

text \<open>\<open>s.actors[i].pc\<close>, and the loop of at most \<open>k\<close> steps until actor \<open>i\<close> is at \<open>goal\<close>.\<close>

definition actor_pc :: "ncq_state \<Rightarrow> int \<Rightarrow> int result" where
  "actor_pc s i = sub (Inl IndexError) (actors s) i (\<lambda>a. Inr (pc a))"

fun sched_loop :: "nat \<Rightarrow> ncq_model \<Rightarrow> int \<Rightarrow> int \<Rightarrow> schedule \<Rightarrow> schedule result" where
  "sched_loop 0 m i goal st = Inl (RuntimeError ''targeted step bound'')"
| "sched_loop (Suc k) m i goal st =
     ebind (actor_pc (fst st) i) (\<lambda>p.
       if p = goal then Inr st else ebind (sched_step m i st) (sched_loop k m i goal))"

definition sched_until :: "ncq_model \<Rightarrow> int \<Rightarrow> int \<Rightarrow> schedule \<Rightarrow> schedule result" where
  "sched_until m i goal st = sched_loop 300 m i goal st"

text \<open>\<open>until(2,13);until(2,24);step(2)\<close>: actor \<open>i\<close> consumes one message; and a publication by actor 1
  followed by it.\<close>

definition consume_one :: "ncq_model \<Rightarrow> int \<Rightarrow> schedule \<Rightarrow> schedule result" where
  "consume_one m i st = (
    ebind (sched_until m i 13 st) (\<lambda>st.
    ebind (sched_until m i 24 st) (\<lambda>st.
    sched_step m i st)))"

definition healthy_round :: "ncq_model \<Rightarrow> int \<Rightarrow> schedule \<Rightarrow> nat \<Rightarrow> schedule result" where
  "healthy_round m i st k = (
    ebind (sched_until m 1 23 st) (\<lambda>st.
    ebind (sched_until m 1 0 st) (\<lambda>st.
    consume_one m i st)))"

text \<open>A round of the loop of \<open>scenario\<close>, with its counter \<open>delivered\<close>.\<close>

definition counted_round :: "ncq_model \<Rightarrow> schedule \<times> nat \<Rightarrow> nat \<Rightarrow> (schedule \<times> nat) result" where
  "counted_round m p k = ebind (healthy_round m 2 (fst p) k) (\<lambda>st. Inr (st, snd p + 1))"

definition moved_bytes :: "ncq_state \<Rightarrow> int list \<times> int list \<times> int list \<times> int list" where
  "moved_bytes s = (epochs s, phases s, word0 s, word1 s)"

record scenario_report =
  pause_step :: nat
  healthy_end_step :: nat
  healthy_messages :: nat
  stopped_state :: ncq_state
  sched_trace :: "(string \<times> ncq_state) list"

definition scenario :: "bool \<Rightarrow> scenario_report result" where
  "scenario after_publication = (
    ebind (ncq_model_init 4 2 1 8 ''none'' False) (\<lambda>m.
    ebind (sched_until m 0 (if after_publication then 23 else 7) (ncq_initial m, [])) (\<lambda>stopped.
    ebind (if after_publication then ebind (consume_one m 2 stopped) (\<lambda>st. Inr (st, 0 + 1))
           else Inr (stopped, 0)) (\<lambda>p.
    ebind (efold (counted_round m) p [0..<8]) (\<lambda>q.
    let prior = moved_bytes (fst (fst q)) in
    ebind ((if after_publication then (
       ebind (sched_until m 0 0 (fst q)) (\<lambda>st'.
       if moved_bytes (fst st') \<noteq> prior
         then Inl (RuntimeError ''late publisher touched transferred bytes'') else Inr st'))
       else Inr (fst q))) (\<lambda>last.
    Inr \<lparr>pause_step = length (snd stopped), healthy_end_step = length (snd (fst q)),
          healthy_messages = snd q, stopped_state = fst stopped,
          sched_trace = snd last\<rparr>))))))"

record stale_report =
  saved_ticket :: int
  successful_peer_removals :: int
  final_head :: int
  stale_trace :: "(string \<times> ncq_state) list"

text \<open>The shared state compared around the stale step: every field but the actors.\<close>

definition shared_part :: "ncq_state \<Rightarrow> ncq_state" where
  "shared_part s = s\<lparr>actors := []\<rparr>"

definition stale_consumer :: "stale_report result" where
  "stale_consumer = (
    ebind (ncq_model_init 4 2 2 8 ''none'' False) (\<lambda>m.
    ebind (sched_until m 0 23 (ncq_initial m, [])) (\<lambda>st.
    ebind (sched_until m 0 0 st) (\<lambda>st.
    ebind (sched_until m 2 4 st) (\<lambda>st.
    ebind (sub (Inl IndexError) (actors (fst st)) 2 (\<lambda>a. Inr (ticket a))) (\<lambda>saved.
    ebind (consume_one m 3 st) (\<lambda>st.
    ebind (efold (healthy_round m 3) st [0..<8]) (\<lambda>st.
    ebind (sub (Inl IndexError) (heads (fst st)) 1 Inr) (\<lambda>h.
    let prior = shared_part (fst st) in
    ebind (sched_step m 2 st) (\<lambda>st.
    ebind (sub (Inl IndexError) (actors (fst st)) 2 Inr) (\<lambda>a.
    if prior \<noteq> shared_part (fst st) \<or> pc a \<noteq> 1 \<or> owns a \<or> h - saved \<le> 2 * m_n m
     then Inl (RuntimeError ''stale head observation was not discarded'')
     else (
       ebind (sub (Inl IndexError) (heads (fst st)) 1 Inr) (\<lambda>h'.
       Inr \<lparr>saved_ticket = saved, successful_peer_removals = h - saved, final_head = h',
            stale_trace = snd st\<rparr>)))))))))))))"

text \<open>The record of \<open>main\<close>.\<close>

definition targeted_main :: "(scenario_report list \<times> stale_report) result" where
  "targeted_main = (
    ebind (scenario False) (\<lambda>a.
    ebind (scenario True) (\<lambda>b.
    ebind stale_consumer (\<lambda>c.
    Inr ([a, b], c)))))"

end
