(* ===== verification/Targeted_Claims.thy ===== *)
theory Targeted_Claims
  imports Targeted
begin

text \<open>
  The targeted schedules complete, and their traces are runs of the queue model. A schedule is shadowed
  by a function of the model state alone, which is evaluated; the trace is followed by an invariant.
\<close>

section \<open>Traces are runs\<close>

fun run_of :: "ncq_model \<Rightarrow> ncq_state \<Rightarrow> (string \<times> ncq_state) list \<Rightarrow> bool" where
  "run_of m s [] = True"
| "run_of m s ((l, t) # tr) \<longleftrightarrow> (\<exists>p. Yield l t p None \<in> set (ncq_successors m s)) \<and> ncq_invariant m t = Inr None \<and> run_of m t tr"

definition final_state :: "ncq_model \<Rightarrow> (string \<times> ncq_state) list \<Rightarrow> ncq_state" where
  "final_state m tr = last (ncq_initial m # map snd tr)"

definition genuine :: "ncq_model \<Rightarrow> schedule \<Rightarrow> bool" where
  "genuine m st \<longleftrightarrow> run_of m (ncq_initial m) (snd st) \<and> fst st = final_state m (snd st)"

lemma run_of_snoc:
  "run_of m s (tr @ [(l, t)]) \<longleftrightarrow> run_of m s tr \<and> run_of m (last (s # map snd tr)) [(l, t)]"
  by (induction m s tr rule: run_of.induct) auto

lemma genuine_start: "genuine m (ncq_initial m, [])"
  by (simp add: genuine_def final_state_def)

lemma yields_mem: "yields es = Inr ys \<Longrightarrow> (l, t, v) \<in> set ys \<Longrightarrow> \<exists>p. Yield l t p v \<in> set es"
proof (induction es arbitrary: ys rule: yields.induct)
  case (3 l' t' p v' es)
  then obtain zs where zs: "yields es = Inr zs" "ys = (l', t', v') # zs" by (auto simp: ebind_ok)
  then consider "(l, t, v) = (l', t', v')" | "(l, t, v) \<in> set zs" using "3.prems"(2) by auto
  then show ?case
  proof cases
    case 1
    then show ?thesis by (intro exI [of _ p]) simp
  next
    case 2
    from "3.IH" [OF zs(1) 2] obtain q where "Yield l t q v \<in> set es" ..
    then show ?thesis by (intro exI [of _ q]) simp
  qed
qed simp_all

text \<open>The next state a scheduled actor reaches, without the trace.\<close>

definition sched_next :: "ncq_model \<Rightarrow> int \<Rightarrow> ncq_state \<Rightarrow> (string \<times> ncq_state) result" where
  "sched_next m i s = ebind (yields (ncq_successors m s)) (\<lambda>ys.
     case filter (\<lambda>x. starts_with (show_int i @ '':'') (fst x)) ys of
       [(label, t, error)] \<Rightarrow> ebind (case error of Some v \<Rightarrow> Inr (Some v) | None \<Rightarrow> ncq_invariant m t)
         (\<lambda>error. case error of Some v \<Rightarrow> Inl (RuntimeError ''violation'') | None \<Rightarrow> Inr (label, t))
     | _ \<Rightarrow> Inl (RuntimeError ''targeted schedule ambiguous or stuck''))"

lemma sched_step_next:
  "sched_step m i (s, tr) = ebind (sched_next m i s) (\<lambda>(l, t). Inr (t, tr @ [(l, t)]))"
  by (auto simp: sched_step_def sched_next_def ebind_def split: sum.splits list.splits option.splits)

lemma sched_next_run:
  assumes "sched_next m i s = Inr (l, t)"
  shows "run_of m s [(l, t)]"
proof -
  from assms obtain ys where ys: "yields (ncq_successors m s) = Inr ys"
    and *: "(case filter (\<lambda>x. starts_with (show_int i @ '':'') (fst x)) ys of
       [(label, t, error)] \<Rightarrow> ebind (case error of Some v \<Rightarrow> Inr (Some v) | None \<Rightarrow> ncq_invariant m t)
         (\<lambda>error. case error of Some v \<Rightarrow> Inl (RuntimeError ''violation'') | None \<Rightarrow> Inr (label, t))
     | _ \<Rightarrow> Inl (RuntimeError ''targeted schedule ambiguous or stuck'')) = Inr (l, t)"
    unfolding sched_next_def ebind_ok by blast
  define found where "found = filter (\<lambda>x. starts_with (show_int i @ '':'') (fst x)) ys"
  have "found = [(l, t, None)]" "ncq_invariant m t = Inr None"
    using * unfolding found_def [symmetric] by (auto simp: ebind_ok split: list.splits option.splits)
  moreover from this(1) have "(l, t, None) \<in> set ys"
    unfolding found_def by (metis filter_is_subset list.set_intros(1) subsetD)
  ultimately show ?thesis using ys by (auto dest: yields_mem)
qed

definition keeps_run :: "ncq_model \<Rightarrow> (schedule \<Rightarrow> schedule result) \<Rightarrow> bool" where
  "keeps_run m f \<longleftrightarrow> (\<forall>st st'. genuine m st \<longrightarrow> f st = Inr st' \<longrightarrow> genuine m st')"

lemma keeps_runD: "keeps_run m f \<Longrightarrow> f st = Inr st' \<Longrightarrow> genuine m st \<Longrightarrow> genuine m st'"
  unfolding keeps_run_def by blast

lemma keeps_run_bind: "keeps_run m f \<Longrightarrow> keeps_run m g \<Longrightarrow> keeps_run m (\<lambda>st. ebind (f st) g)"
  unfolding keeps_run_def ebind_ok by blast

lemma keeps_step: "keeps_run m (sched_step m i)"
proof -
  have "genuine m (t, tr @ [(l, t)])" if "genuine m (s, tr)" "sched_next m i s = Inr (l, t)" for s tr l t
    using that(1) sched_next_run [OF that(2)] by (simp add: genuine_def run_of_snoc final_state_def)
  then have "sched_step m i (s, tr) = Inr st' \<Longrightarrow> genuine m (s, tr) \<Longrightarrow> genuine m st'" for s tr st'
    unfolding sched_step_next ebind_ok by auto
  then show ?thesis unfolding keeps_run_def by (metis surj_pair)
qed

lemma keeps_until: "keeps_run m (sched_until m i goal)"
proof -
  have "keeps_run m (sched_loop k m i goal)" for k
  proof (induction k)
    case (Suc k)
    have "genuine m st'" if g: "genuine m st" and r: "sched_loop (Suc k) m i goal st = Inr st'" for st st'
    proof -
      from r obtain p where "(if p = goal then Inr st else ebind (sched_step m i st) (sched_loop k m i goal)) = Inr st'"
        unfolding sched_loop.simps ebind_ok by blast
      then show ?thesis using g keeps_runD [OF keeps_run_bind [OF keeps_step Suc] _ g] by (auto split: if_splits)
    qed
    then show ?case unfolding keeps_run_def by blast
  qed (simp add: keeps_run_def)
  then show ?thesis by (simp add: sched_until_def [abs_def])
qed

lemma keeps_round: "keeps_run m (consume_one m i)" "keeps_run m (\<lambda>st. healthy_round m i st k)"
  unfolding consume_one_def [abs_def] healthy_round_def [abs_def]
  by (intro keeps_run_bind keeps_until keeps_step)+

lemma keeps_rounds: "keeps_run m (\<lambda>st. efold (healthy_round m i) st ks)"
proof (induction ks)
  case (Cons k ks)
  show ?case using keeps_run_bind [OF keeps_round(2) Cons] by simp
qed (simp add: keeps_run_def)

lemmas keeps = keeps_step keeps_until keeps_round keeps_rounds

section \<open>The state of a schedule\<close>

fun quick :: "nat \<Rightarrow> ncq_model \<Rightarrow> int \<Rightarrow> int \<Rightarrow> ncq_state \<Rightarrow> ncq_state result" where
  "quick 0 m i goal s = Inl (RuntimeError ''targeted step bound'')"
| "quick (Suc k) m i goal s = ebind (actor_pc s i) (\<lambda>p. if p = goal then Inr s
     else ebind (sched_next m i s) (\<lambda>(l, t). quick k m i goal t))"

definition quick_step :: "ncq_model \<Rightarrow> int \<Rightarrow> ncq_state \<Rightarrow> ncq_state result" where
  "quick_step m i s = ebind (sched_next m i s) (\<lambda>(l, t). Inr t)"

definition quick_consume :: "ncq_model \<Rightarrow> int \<Rightarrow> ncq_state \<Rightarrow> ncq_state result" where
  "quick_consume m i s = ebind (quick 30 m i 13 s) (\<lambda>s. ebind (quick 30 m i 24 s) (quick_step m i))"

definition quick_round :: "ncq_model \<Rightarrow> int \<Rightarrow> ncq_state \<Rightarrow> nat \<Rightarrow> ncq_state result" where
  "quick_round m i s k = ebind (quick 30 m 1 23 s) (\<lambda>s. ebind (quick 30 m 1 0 s) (quick_consume m i))"

definition shadows :: "(schedule \<Rightarrow> schedule result) \<Rightarrow> (ncq_state \<Rightarrow> ncq_state result) \<Rightarrow> bool" where
  "shadows f q \<longleftrightarrow> (\<forall>s tr s'. q s = Inr s' \<longrightarrow> (\<exists>tr'. f (s, tr) = Inr (s', tr')))"

lemma shadowsD: "shadows f q \<Longrightarrow> q (fst st) = Inr s' \<Longrightarrow> \<exists>tr'. f st = Inr (s', tr')"
  by (cases st) (simp add: shadows_def)

lemma shadows_bind: "shadows f q \<Longrightarrow> shadows g r \<Longrightarrow> shadows (\<lambda>st. ebind (f st) g) (\<lambda>s. ebind (q s) r)"
  unfolding shadows_def ebind_ok by blast

lemma shadows_step: "shadows (sched_step m i) (quick_step m i)"
  by (auto simp: shadows_def sched_step_next quick_step_def ebind_ok)

lemma shadows_until:
  assumes "k \<le> 300"
  shows "shadows (sched_until m i goal) (quick k m i goal)"
proof -
  have "quick k m i goal s = Inr s' \<Longrightarrow> k \<le> n \<Longrightarrow> \<exists>tr'. sched_loop n m i goal (s, tr) = Inr (s', tr')" for n s tr s'
  proof (induction k m i goal s arbitrary: n tr rule: quick.induct)
    case (2 k m i goal s)
    from "2.prems"(2) obtain n' where n: "n = Suc n'" "k \<le> n'" by (cases n) auto
    from "2.prems"(1) obtain p where p: "actor_pc s i = Inr p" by (auto simp: ebind_ok)
    show ?case
    proof (cases "p = goal")
      case False
      then obtain l t where t: "sched_next m i s = Inr (l, t)" "quick k m i goal t = Inr s'"
        using "2.prems"(1) p by (auto simp: ebind_ok)
      from "2.IH" [OF False t(2) n(2)] show ?thesis using p t(1) False by (simp add: n(1) sched_step_next)
    qed (use "2.prems"(1) p in \<open>simp add: n(1)\<close>)
  qed simp
  then show ?thesis using assms by (simp add: shadows_def sched_until_def)
qed

lemma shadows_round: "shadows (consume_one m i) (quick_consume m i)" "shadows (\<lambda>st. healthy_round m i st k) (\<lambda>s. quick_round m i s k)"
  unfolding consume_one_def [abs_def] quick_consume_def [abs_def] healthy_round_def [abs_def] quick_round_def [abs_def]
  by (intro shadows_bind shadows_until shadows_step; simp)+

lemma shadows_rounds: "shadows (\<lambda>st. efold (healthy_round m i) st ks) (\<lambda>s. efold (quick_round m i) s ks)"
proof (induction ks)
  case (Cons k ks)
  show ?case using shadows_bind [OF shadows_round(2) Cons] by simp
qed (simp add: shadows_def)

section \<open>The schedules complete\<close>

text \<open>\<open>Model(4,2,c,8,allow_abort=False)\<close>.\<close>

definition targeted_model :: "int \<Rightarrow> ncq_model" where
  "targeted_model c = \<lparr>m_n = 4, m_p = 2, m_c = c, m_m = 8, m_mutation = ''none'', m_abort = False, m_limit = 2 ^ 64 - 4 - 1\<rparr>"

lemma targeted_models:
  "ncq_model_init 4 2 1 8 ''none'' False = Inr (targeted_model 1)"
  "ncq_model_init 4 2 2 8 ''none'' False = Inr (targeted_model 2)"
  by code_simp+

lemma private_pause:
  "case quick 30 (targeted_model 1) 0 7 (ncq_initial (targeted_model 1)) of Inl e \<Rightarrow> False | Inr p \<Rightarrow>
     (case efold (quick_round (targeted_model 1) 2) p [0..<8] of Inl e \<Rightarrow> False | Inr s \<Rightarrow>
        pc (actors p ! 0) = 7 \<and> actors s ! 0 = actors p ! 0 \<and> heads s ! 1 = heads p ! 1 + 8)"
  by code_simp

lemma published_pause:
  "case quick 30 (targeted_model 1) 0 23 (ncq_initial (targeted_model 1)) of Inl e \<Rightarrow> False | Inr p \<Rightarrow>
     (case quick_consume (targeted_model 1) 2 p of Inl e \<Rightarrow> False | Inr d \<Rightarrow>
     (case efold (quick_round (targeted_model 1) 2) d [0..<8] of Inl e \<Rightarrow> False | Inr s \<Rightarrow>
     (case quick 30 (targeted_model 1) 0 0 s of Inl e \<Rightarrow> False | Inr t \<Rightarrow>
        pc (actors p ! 0) = 23 \<and> moved_bytes t = moved_bytes s \<and> pc (actors t ! 0) = 0 \<and> heads t ! 1 = heads p ! 1 + 9)))"
  by code_simp

lemma stale_observation:
  "case quick 30 (targeted_model 2) 0 23 (ncq_initial (targeted_model 2)) of Inl e \<Rightarrow> False | Inr p \<Rightarrow>
     (case quick 30 (targeted_model 2) 0 0 p of Inl e \<Rightarrow> False | Inr q \<Rightarrow>
     (case quick 30 (targeted_model 2) 2 4 q of Inl e \<Rightarrow> False | Inr v \<Rightarrow>
     (case quick_consume (targeted_model 2) 3 v of Inl e \<Rightarrow> False | Inr d \<Rightarrow>
     (case efold (quick_round (targeted_model 2) 3) d [0..<8] of Inl e \<Rightarrow> False | Inr s \<Rightarrow>
     (case quick_step (targeted_model 2) 2 s of Inl e \<Rightarrow> False | Inr t \<Rightarrow>
        length (actors v) = 4 \<and> length (actors t) = 4 \<and> length (heads s) = 2 \<and> length (heads t) = 2
        \<and> ticket (actors v ! 2) = 4 \<and> heads s ! 1 = 13 \<and> heads t ! 1 = 13
        \<and> shared_part s = shared_part t \<and> pc (actors t ! 2) = 1 \<and> \<not> owns (actors t ! 2))))))"
  by code_simp

lemma returnsD: "(case x of Inl e \<Rightarrow> False | Inr p \<Rightarrow> P p) \<Longrightarrow> \<exists>p. x = Inr p \<and> P p"
  by (cases x) simp_all

lemma genuineD: "genuine m (s, tr) \<Longrightarrow> run_of m (ncq_initial m) tr \<and> final_state m tr = s"
  by (simp add: genuine_def)

lemma schedule_returns:
  "quick 30 m i g s = Inr s' \<Longrightarrow> \<exists>tr'. sched_until m i g (s, tr) = Inr (s', tr')"
  "quick_consume m i s = Inr s' \<Longrightarrow> \<exists>tr'. consume_one m i (s, tr) = Inr (s', tr')"
  "efold (quick_round m i) s ks = Inr s' \<Longrightarrow> \<exists>tr'. efold (healthy_round m i) (s, tr) ks = Inr (s', tr')"
  "quick_step m i s = Inr s' \<Longrightarrow> \<exists>tr'. sched_step m i (s, tr) = Inr (s', tr')"
  using shadows_until [of 30 m i g] shadows_round(1) [of m i] shadows_rounds [of m i ks] shadows_step [of m i]
  unfolding shadows_def by simp_all

lemma counted_rounds:
  "efold (healthy_round m 2) st ks = Inr st' \<Longrightarrow> efold (counted_round m) (st, n) ks = Inr (st', n + length ks)"
  by (induction ks arbitrary: st n) (auto simp: counted_round_def ebind_ok)

lemmas run_keptD = keeps [THEN keeps_runD]

lemma private_scenario:
  "\<exists>r. scenario False = Inr r \<and> run_of (targeted_model 1) (ncq_initial (targeted_model 1)) (sched_trace r)
    \<and> pc (actors (stopped_state r) ! 0) = 7
    \<and> actors (final_state (targeted_model 1) (sched_trace r)) ! 0 = actors (stopped_state r) ! 0
    \<and> heads (final_state (targeted_model 1) (sched_trace r)) ! 1 = heads (stopped_state r) ! 1 + int (healthy_messages r)"
proof -
  obtain p s where p: "quick 30 (targeted_model 1) 0 7 (ncq_initial (targeted_model 1)) = Inr p"
    and s: "efold (quick_round (targeted_model 1) 2) p [0..<8] = Inr s"
    and facts: "pc (actors p ! 0) = 7" "actors s ! 0 = actors p ! 0" "heads s ! 1 = heads p ! 1 + 8"
    using returnsD [OF private_pause] by (blast dest: returnsD)
  obtain tp where tp: "sched_until (targeted_model 1) 0 7 (ncq_initial (targeted_model 1), []) = Inr (p, tp)"
    using schedule_returns(1) [OF p] by blast
  obtain ts where ts: "efold (healthy_round (targeted_model 1) 2) (p, tp) [0..<8] = Inr (s, ts)"
    using schedule_returns(3) [OF s] by blast
  have "genuine (targeted_model 1) (s, ts)"
    by (rule run_keptD(5) [OF ts run_keptD(2) [OF tp genuine_start]])
  note g = genuineD [OF this]
  show ?thesis
    unfolding scenario_def targeted_models ebind_simps if_False tp Let_def counted_rounds [OF ts] fst_conv snd_conv
    using g facts by simp
qed

lemma published_scenario:
  "\<exists>r. scenario True = Inr r \<and> run_of (targeted_model 1) (ncq_initial (targeted_model 1)) (sched_trace r)
    \<and> pc (actors (stopped_state r) ! 0) = 23
    \<and> pc (actors (final_state (targeted_model 1) (sched_trace r)) ! 0) = 0
    \<and> heads (final_state (targeted_model 1) (sched_trace r)) ! 1 = heads (stopped_state r) ! 1 + int (healthy_messages r)"
proof -
  obtain p d s t where p: "quick 30 (targeted_model 1) 0 23 (ncq_initial (targeted_model 1)) = Inr p"
    and d: "quick_consume (targeted_model 1) 2 p = Inr d"
    and s: "efold (quick_round (targeted_model 1) 2) d [0..<8] = Inr s"
    and t: "quick 30 (targeted_model 1) 0 0 s = Inr t"
    and facts: "pc (actors p ! 0) = 23" "moved_bytes t = moved_bytes s" "pc (actors t ! 0) = 0" "heads t ! 1 = heads p ! 1 + 9"
    using returnsD [OF published_pause] by (blast dest: returnsD)
  obtain tp where tp: "sched_until (targeted_model 1) 0 23 (ncq_initial (targeted_model 1), []) = Inr (p, tp)"
    using schedule_returns(1) [OF p] by blast
  obtain td where td: "consume_one (targeted_model 1) 2 (p, tp) = Inr (d, td)"
    using schedule_returns(2) [OF d] by blast
  obtain ts where ts: "efold (healthy_round (targeted_model 1) 2) (d, td) [0..<8] = Inr (s, ts)"
    using schedule_returns(3) [OF s] by blast
  obtain tt where tt: "sched_until (targeted_model 1) 0 0 (s, ts) = Inr (t, tt)"
    using schedule_returns(1) [OF t] by blast
  have "genuine (targeted_model 1) (t, tt)"
    by (rule run_keptD(2) [OF tt run_keptD(5) [OF ts run_keptD(3) [OF td run_keptD(2) [OF tp genuine_start]]]])
  note g = genuineD [OF this]
  show ?thesis
    unfolding scenario_def targeted_models ebind_simps if_True tp Let_def td counted_rounds [OF ts] fst_conv snd_conv tt
    using g facts by simp
qed

lemma stale_scenario:
  "\<exists>r. stale_consumer = Inr r \<and> run_of (targeted_model 2) (ncq_initial (targeted_model 2)) (stale_trace r)
    \<and> final_head r = saved_ticket r + successful_peer_removals r \<and> 2 * 4 < successful_peer_removals r
    \<and> \<not> owns (actors (final_state (targeted_model 2) (stale_trace r)) ! 2)"
proof -
  obtain p q v d s t where p: "quick 30 (targeted_model 2) 0 23 (ncq_initial (targeted_model 2)) = Inr p"
    and q: "quick 30 (targeted_model 2) 0 0 p = Inr q" and v: "quick 30 (targeted_model 2) 2 4 q = Inr v"
    and d: "quick_consume (targeted_model 2) 3 v = Inr d"
    and s: "efold (quick_round (targeted_model 2) 3) d [0..<8] = Inr s"
    and t: "quick_step (targeted_model 2) 2 s = Inr t"
    and facts: "length (actors v) = 4" "length (actors t) = 4" "length (heads s) = 2" "length (heads t) = 2"
      "ticket (actors v ! 2) = 4" "heads s ! 1 = 13" "heads t ! 1 = 13"
      "shared_part s = shared_part t" "pc (actors t ! 2) = 1" "\<not> owns (actors t ! 2)"
    using returnsD [OF stale_observation] by (blast dest: returnsD)
  obtain tp where tp: "sched_until (targeted_model 2) 0 23 (ncq_initial (targeted_model 2), []) = Inr (p, tp)"
    using schedule_returns(1) [OF p] by blast
  obtain tq where tq: "sched_until (targeted_model 2) 0 0 (p, tp) = Inr (q, tq)"
    using schedule_returns(1) [OF q] by blast
  obtain tv where tv: "sched_until (targeted_model 2) 2 4 (q, tq) = Inr (v, tv)"
    using schedule_returns(1) [OF v] by blast
  obtain td where td: "consume_one (targeted_model 2) 3 (v, tv) = Inr (d, td)"
    using schedule_returns(2) [OF d] by blast
  obtain ts where ts: "efold (healthy_round (targeted_model 2) 3) (d, td) [0..<8] = Inr (s, ts)"
    using schedule_returns(3) [OF s] by blast
  obtain tt where tt: "sched_step (targeted_model 2) 2 (s, ts) = Inr (t, tt)"
    using schedule_returns(4) [OF t] by blast
  have "genuine (targeted_model 2) (t, tt)"
    by (rule run_keptD(1) [OF tt run_keptD(5) [OF ts run_keptD(3) [OF td run_keptD(2) [OF tv run_keptD(2) [OF tq
        run_keptD(2) [OF tp genuine_start]]]]]])
  note g = genuineD [OF this]
  have n: "m_n (targeted_model 2) = 4" by (simp add: targeted_model_def)
  show ?thesis
    unfolding stale_consumer_def targeted_models ebind_simps tp tq tv td ts fst_conv Let_def tt
    using g facts n by (simp add: sub_def)
qed

text \<open>The targeted schedules complete, and each recorded trace is a run of the queue model in which
  every state satisfies the checked invariant. With a publisher stopped inside its private write the
  other actors still deliver all eight messages and the stopped actor is untouched; stopped after its
  publication, nine messages are delivered and the late publisher returns without changing the payload
  bytes; a consumer whose observation is more than two laps old gains no ownership.\<close>

theorem targeted_schedules_hold:
  "\<exists>a b c. scenario False = Inr a \<and> scenario True = Inr b \<and> stale_consumer = Inr c
    \<and> run_of (targeted_model 1) (ncq_initial (targeted_model 1)) (sched_trace a)
    \<and> run_of (targeted_model 1) (ncq_initial (targeted_model 1)) (sched_trace b)
    \<and> run_of (targeted_model 2) (ncq_initial (targeted_model 2)) (stale_trace c)
    \<and> pc (actors (stopped_state a) ! 0) = 7
    \<and> actors (final_state (targeted_model 1) (sched_trace a)) ! 0 = actors (stopped_state a) ! 0
    \<and> heads (final_state (targeted_model 1) (sched_trace a)) ! 1 = heads (stopped_state a) ! 1 + int (healthy_messages a)
    \<and> pc (actors (stopped_state b) ! 0) = 23
    \<and> pc (actors (final_state (targeted_model 1) (sched_trace b)) ! 0) = 0
    \<and> heads (final_state (targeted_model 1) (sched_trace b)) ! 1 = heads (stopped_state b) ! 1 + int (healthy_messages b)
    \<and> final_head c = saved_ticket c + successful_peer_removals c \<and> 2 * 4 < successful_peer_removals c
    \<and> \<not> owns (actors (final_state (targeted_model 2) (stale_trace c)) ! 2)"
  using private_scenario published_scenario stale_scenario by blast

end
