(* ===== verification/Live_Demo.thy ===== *)
theory Live_Demo
  imports Floats
begin

text \<open>
  \<open>tools/verify_live_demo.py\<close>: the replay of a round-trip receipt. The file is its size and the lines
  as the JSON scanner reads them; the scanner may raise on a line, and an exhausted iterator raises
  \<open>StopIteration\<close>. One definition per part of \<open>verify\<close>: the header, a sample, a window, the final
  receipt.
\<close>

type_synonym scanned = "jtext result"

definition live_record :: "scanned \<Rightarrow> jdict result" where
  "live_record line = (
    ebind line (\<lambda>j.
    ebind (loads j) (\<lambda>x.
    need (is_dict x) ''JSON object required'' (
    dict_items x))))"

definition get_int :: "jdict \<Rightarrow> string \<Rightarrow> int \<Rightarrow> int \<Rightarrow> int result" where
  "get_int d k lo hi = ebind (dget (VDict d) k VNone) (\<lambda>v. integer v lo hi)"

record live_plan =
  lp_numer :: int
  lp_denom :: int
  lp_windows :: int
  lp_batch :: int

definition live_head :: "jdict \<Rightarrow> live_plan result" where
  "live_head head = (
    ebind (dget (VDict head) ''schema'' VNone) (\<lambda>schema.
    need (py_eq schema (VStr ''elite-live-demo-v1'')) ''wrong schema'' (
    ebind (dget (VDict head) ''version'' VNone) (\<lambda>version.
    ebind (dget (VDict head) ''metric'' VNone) (\<lambda>metric.
    need (py_eq version (VStr ''1.1.0'') \<and> py_eq metric (VStr ''RTT'')) ''wrong version/metric'' (
    ebind (dget (VDict head) ''mode'' VNone) (\<lambda>mode.
    ebind (in_set_of mode [''SPSC'', ''NCQ-SC64'']) (\<lambda>known.
    need known ''wrong mode'' (
    ebind (get_int head ''bytes_per_direction'' 0 U64) (\<lambda>bytes.
    need (bytes = 64) ''wrong payload size'' (
    ebind (get_int head ''origin_pid'' 1 U64) (\<lambda>p.
    ebind (get_int head ''responder_pid'' 1 U64) (\<lambda>q.
    need (p \<noteq> q) ''not distinct processes'' (
    ebind (get_int head ''timebase_numer'' 1 (2 ^ 32 - 1)) (\<lambda>numer.
    ebind (get_int head ''timebase_denom'' 1 (2 ^ 32 - 1)) (\<lambda>denom.
    ebind (get_int head ''planned_windows'' 1 10000) (\<lambda>windows.
    ebind (get_int head ''messages_per_window'' 1 1000000) (\<lambda>batch.
    Inr \<lparr>lp_numer = numer, lp_denom = denom, lp_windows = windows, lp_batch = batch\<rparr>))))))))))))))))))"

text \<open>One sample: the cursor moves from the start of the sample to its end, the delta is collected.\<close>

definition live_sample :: "int \<Rightarrow> int \<times> int list \<Rightarrow> jvalue \<Rightarrow> (int \<times> int list) result" where
  "live_sample limit acc sample = (case acc of (cursor, deltas) \<Rightarrow> (
    ebind ((case sample of VList [a, b] \<Rightarrow> Inr (a, b) | _ \<Rightarrow> Inl (ValueError ''sample shape''))) (\<lambda>xs.
    ebind (integer (fst xs) cursor limit) (\<lambda>start.
    ebind (integer (snd xs) 0 (limit - start)) (\<lambda>dt.
    Inr (start + dt, deltas @ [dt]))))))"

text \<open>The nearest-rank percentile of the sorted deltas in nanoseconds, rounded up.\<close>

definition live_percentile :: "live_plan \<Rightarrow> int list \<Rightarrow> int \<Rightarrow> int" where
  "live_percentile h deltas percent =
     (let n = int (length deltas); rank = (percent * n + 99) div 100 - 1
      in (sort deltas ! nat rank * lp_numer h + lp_denom h - 1) div lp_denom h)"

definition live_rate :: "live_plan \<Rightarrow> jdict \<Rightarrow> int \<Rightarrow> int \<Rightarrow> unit result" where
  "live_rate h x n ticks = (
    let expected = of_int (2 * n * 10 ^ 9 * lp_denom h) / of_int (ticks * lp_numer h) in
    ebind (dget (VDict x) ''directional_mps'' VNone) (\<lambda>rate.
    need (is_numeric rate) ''invalid rate'' (
    ebind (is_finite rate) (\<lambda>fin.
    need fin ''invalid rate'' (
    ebind (exact rate) (\<lambda>r.
    need (0 < r) ''invalid rate'' (
    ebind (to_float expected) (\<lambda>target.
    need (\<bar>r - expected\<bar> \<le> 4 * ulp target) ''rate mismatch'' (Inr ())))))))))"

record live_state =
  lv_total :: int
  lv_completed :: int
  lv_end :: int
  lv_partial :: bool
  lv_final :: "jdict option"

definition live_window :: "live_plan \<Rightarrow> live_state \<Rightarrow> jdict \<Rightarrow> live_state result" where
  "live_window h s x = (
    need (\<not> lv_partial s \<and> lv_completed s < lp_windows h) ''extra window after partial/planned end'' (
    ebind (get_int x ''window'' 0 U64) (\<lambda>ident.
    need (ident = lv_completed s) ''window identity'' (
    ebind (get_int x ''roundtrips'' 1 (lp_batch h)) (\<lambda>n.
    ebind (get_int x ''start_tick'' 0 U64) (\<lambda>begin_tick.
    ebind (get_int x ''end_tick'' (begin_tick + 1) U64) (\<lambda>end_tick.
    need (lv_end s \<le> begin_tick) ''window time decreases'' (
    ebind (dget (VDict x) ''samples'' VNone) (\<lambda>data.
    ebind ((case data of VList xs \<Rightarrow> Inr xs | _ \<Rightarrow> Inl (ValueError ''sample population''))) (\<lambda>xs.
    need (int (length xs) = n) ''sample population'' (
    ebind (efold (live_sample end_tick) (begin_tick, []) xs) (\<lambda>(cursor, deltas).
    need (cursor = end_tick) ''window ends after last completed RTT'' (
    ebind (get_int x ''p50_rtt_ns'' 0 U64) (\<lambda>p50.
    need (p50 = live_percentile h deltas 50) ''p50_rtt_ns mismatch'' (
    ebind (get_int x ''p99_rtt_ns'' 0 U64) (\<lambda>p99.
    need (p99 = live_percentile h deltas 99) ''p99_rtt_ns mismatch'' (
    ebind (live_rate h x n (end_tick - begin_tick)) (\<lambda>_.
    Inr (s\<lparr>lv_completed := lv_completed s + 1, lv_total := lv_total s + n, lv_end := end_tick,
            lv_partial := (n \<noteq> lp_batch h)\<rparr>)))))))))))))))))))"

definition live_line :: "live_plan \<Rightarrow> live_state \<Rightarrow> scanned \<Rightarrow> live_state result" where
  "live_line h s line = (
    need (lv_final s = None) ''data after final receipt'' (
    ebind (live_record line) (\<lambda>x.
    if has_key ''status'' x then Inr (s\<lparr>lv_final := Some x\<rparr>) else live_window h s x)))"

record live_report =
  lr_status :: string
  lr_windows :: int
  lr_roundtrips :: int
  lr_directional :: int

definition live_final :: "live_plan \<Rightarrow> bool \<Rightarrow> live_state \<Rightarrow> live_report result" where
  "live_final h allow_cancelled s = (
    ebind ((case lv_final s of None \<Rightarrow> Inl (ValueError ''missing final receipt'') | Some x \<Rightarrow> Inr x)) (\<lambda>x.
    ebind (dget (VDict x) ''status'' VNone) (\<lambda>v.
    ebind (in_set_of v [''COMPLETE'', ''CANCELLED_CLEAN'']) (\<lambda>known.
    need known ''invalid final status'' (
    let complete = py_eq v (VStr ''COMPLETE'') in
    need (complete \<longrightarrow> lv_completed s = lp_windows h \<and> lv_total s = lp_windows h * lp_batch h)
       ''incomplete planned count'' (
    need (complete \<or> allow_cancelled) ''cancelled run is not complete'' (
    ebind (get_int x ''windows'' 0 U64) (\<lambda>windows.
    need (windows = lv_completed s) ''window total'' (
    ebind (get_int x ''roundtrips'' 0 U64) (\<lambda>roundtrips.
    need (roundtrips = lv_total s) ''final quota mismatch'' (
    ebind (get_int x ''child_checked'' 0 U64) (\<lambda>checked.
    need (checked = lv_total s) ''final quota mismatch'' (
    ebind (get_int x ''directional_records'' 0 U64) (\<lambda>directional.
    need (directional = 2 * lv_total s) ''direction total'' (
    ebind (dget (VDict x) ''leases_ended'' VNone) (\<lambda>ended.
    ebind (dget (VDict x) ''objects_destroyed'' VNone) (\<lambda>destroyed.
    need (ended = VBool True \<and> destroyed = VBool True) ''missing cleanup'' (
    Inr \<lparr>lr_status = (if complete then ''COMPLETE'' else ''CANCELLED_CLEAN''), lr_windows = lv_completed s,
          lr_roundtrips = lv_total s, lr_directional = 2 * lv_total s\<rparr>))))))))))))))))))"

definition live_verify :: "int \<Rightarrow> scanned list \<Rightarrow> bool \<Rightarrow> live_report result" where
  "live_verify file_bytes lines allow_cancelled = (
    need (file_bytes \<le> 512 * 1024 * 1024) ''receipt exceeds 512 MiB replay budget'' (
    ebind ((case lines of [] \<Rightarrow> Inl StopIteration | l # ls \<Rightarrow> Inr l)) (\<lambda>first.
    ebind (live_record first) (\<lambda>head.
    ebind (live_head head) (\<lambda>h.
    ebind (efold (live_line h)
       \<lparr>lv_total = 0, lv_completed = 0, lv_end = 0, lv_partial = False, lv_final = None\<rparr> (tl lines)) (\<lambda>s.
    live_final h allow_cancelled s))))))"

end
