(* ===== verification/Order_Statistics.thy ===== *)
theory Order_Statistics
  imports Main "HOL-Library.Multiset"
begin

text \<open>
  Nearest-rank order statistics, shared by the receipt verifiers that replay percentiles: position
  \<open>r\<close> of a sorted list has at least \<open>r + 1\<close> entries of the list at or below it and at most \<open>r\<close> below it.
\<close>

lemma filter_length_mono: "(\<And>x. P x \<Longrightarrow> Q x) \<Longrightarrow> length (filter P xs) \<le> length (filter Q xs)"
  by (induction xs) auto

lemma filter_length_sort: "length (filter P (sort xs)) = length (filter P xs)"
  by (metis mset_filter mset_sort size_mset)

lemma rank_covers:
  fixes xs :: "'a :: linorder list"
  assumes "r < length xs"
  shows "Suc r \<le> length (filter (\<lambda>x. x \<le> sort xs ! r) xs)"
proof -
  let ?s = "sort xs"
  have "x \<le> ?s ! r" if "x \<in> set (take (Suc r) ?s)" for x
    using that assms by (auto simp: in_set_conv_nth less_Suc_eq_le intro!: sorted_nth_mono)
  then have "filter (\<lambda>x. x \<le> ?s ! r) (take (Suc r) ?s) = take (Suc r) ?s" by (simp add: filter_id_conv)
  then have "Suc r = length (filter (\<lambda>x. x \<le> ?s ! r) (take (Suc r) ?s))" using assms by simp
  also have "\<dots> \<le> length (filter (\<lambda>x. x \<le> ?s ! r) (take (Suc r) ?s @ drop (Suc r) ?s))"
    unfolding filter_append by simp
  finally show ?thesis by (simp add: filter_length_sort)
qed

lemma rank_below:
  fixes xs :: "'a :: linorder list"
  assumes "r < length xs"
  shows "length (filter (\<lambda>x. x < sort xs ! r) xs) \<le> r"
proof -
  let ?s = "sort xs"
  have "?s ! r \<le> x" if "x \<in> set (drop r ?s)" for x
    using that assms by (auto simp: in_set_conv_nth intro!: sorted_nth_mono)
  then have none: "filter (\<lambda>x. x < ?s ! r) (drop r ?s) = []" by (auto simp: filter_empty_conv not_less)
  have "length (filter (\<lambda>x. x < ?s ! r) xs) = length (filter (\<lambda>x. x < ?s ! r) (take r ?s @ drop r ?s))"
    by (simp only: append_take_drop_id filter_length_sort)
  also have "\<dots> = length (filter (\<lambda>x. x < ?s ! r) (take r ?s))" unfolding filter_append none by simp
  also have "\<dots> \<le> length (take r ?s)" by (rule length_filter_le)
  finally show ?thesis using assms by simp
qed

end
