(* ===== verification/Live_Claims.thy ===== *)
theory Live_Claims
  imports Live_Demo Order_Statistics
begin

text \<open>
  What an accepted window of the live demo receipt establishes: its samples are disjoint intervals
  inside the window, in time order, and its percentiles are the nearest-rank order statistics of them.
\<close>

lemma live_sample_ok:
  "live_sample limit (cursor, deltas) v = Inr acc \<longleftrightarrow>
     (\<exists>start dt. v = VList [VInt start, VInt dt] \<and> cursor \<le> start \<and> start \<le> limit \<and> 0 \<le> dt
        \<and> dt \<le> limit - start \<and> acc = (start + dt, deltas @ [dt]))"
  by (auto simp: live_sample_def ebind_ok integer_ok split: jvalue.splits list.splits)

text \<open>
  The samples of a record are pairs of a start tick and a duration. \<open>consecutive b samples e\<close>: each sample
  starts at or after the end of the one before it (the first at or after \<open>b\<close>), so they are disjoint and in
  time order, and the last one ends at \<open>e\<close>.
\<close>

definition sample_value :: "int \<times> int \<Rightarrow> jvalue" where
  "sample_value p = VList [VInt (fst p), VInt (snd p)]"

fun consecutive :: "int \<Rightarrow> (int \<times> int) list \<Rightarrow> int \<Rightarrow> bool" where
  "consecutive b [] e \<longleftrightarrow> b = e"
| "consecutive b ((start, dt) # samples) e \<longleftrightarrow> b \<le> start \<and> 0 \<le> dt \<and> consecutive (start + dt) samples e"

lemma live_samples_ok:
  assumes "efold (live_sample limit) (c, ds) xs = Inr (c', ds')"
  shows "\<exists>samples. xs = map sample_value samples \<and> ds' = ds @ map snd samples \<and> consecutive c samples c'"
  using assms
proof (induction xs arbitrary: c ds)
  case (Cons x xs)
  then obtain start dt where s: "x = sample_value (start, dt)" "c \<le> start" "0 \<le> dt"
      "efold (live_sample limit) (start + dt, ds @ [dt]) xs = Inr (c', ds')"
    by (auto simp: ebind_ok live_sample_ok sample_value_def)
  obtain samples where "xs = map sample_value samples" "ds' = (ds @ [dt]) @ map snd samples"
      "consecutive (start + dt) samples c'" using Cons.IH [OF s(4)] by blast
  then show ?case using s(1-3) by (intro exI [of _ "(start, dt) # samples"]) auto
qed auto

text \<open>
  \<open>p\<close> nanoseconds is the rounded-up latency of the nearest-rank percentile of the samples: at least
  \<open>percent\<close> per cent of them are not above it, and fewer than \<open>percent\<close> per cent are below it.
\<close>

definition nearest_rank :: "live_plan \<Rightarrow> int list \<Rightarrow> int \<Rightarrow> int \<Rightarrow> bool" where
  "nearest_rank h deltas percent p \<longleftrightarrow>
     (\<exists>d\<in>set deltas. p = (d * lp_numer h + lp_denom h - 1) div lp_denom h
       \<and> percent * int (length deltas) \<le> 100 * int (length (filter (\<lambda>x. x \<le> d) deltas))
       \<and> 100 * int (length (filter (\<lambda>x. x < d) deltas)) < percent * int (length deltas))"

lemma percentile_rank:
  assumes "deltas \<noteq> []" "1 \<le> percent" "percent \<le> 100"
  shows "nearest_rank h deltas percent (live_percentile h deltas percent)"
proof -
  let ?n = "int (length deltas)"
  let ?r = "nat ((percent * ?n + 99) div 100 - 1)"
  have n: "1 \<le> ?n" using assms(1) by (cases deltas) auto
  have "percent * ?n \<le> 100 * ?n" using assms(3) n by (intro mult_right_mono) auto
  moreover have "1 * 1 \<le> percent * ?n" using assms(2) n by (intro mult_mono) auto
  ultimately have b: "percent * ?n \<le> 100 * ?n" "1 \<le> percent * ?n" by simp_all
  define k where "k = (percent * ?n + 99) div 100"
  have "100 * k \<le> percent * ?n + 99" using mult_div_mod_eq [of 100 "percent * ?n + 99"] pos_mod_sign [of 100 "percent * ?n + 99"]
    unfolding k_def by linarith
  moreover have "percent * ?n \<le> 100 * k" "1 \<le> k" "k \<le> ?n" using b unfolding k_def by linarith+
  ultimately have r: "?r < length deltas" "percent * ?n \<le> 100 * (int ?r + 1)" "100 * int ?r < percent * ?n"
    unfolding k_def [symmetric] by auto
  note c = rank_covers [OF r(1)] rank_below [OF r(1)]
  have "percent * ?n \<le> 100 * int (length (filter (\<lambda>x. x \<le> sort deltas ! ?r) deltas))"
    "100 * int (length (filter (\<lambda>x. x < sort deltas ! ?r) deltas)) < percent * ?n"
    using c r(2,3) by linarith+
  moreover have "sort deltas ! ?r \<in> set deltas" using r(1) by (metis length_sort nth_mem set_sort)
  ultimately show ?thesis by (auto simp: nearest_rank_def live_percentile_def Let_def)
qed

lemma live_window_inversion:
  assumes "live_window h s x = Inr t"
  obtains b e n xs deltas where "lv_end s \<le> b" "b + 1 \<le> e" "1 \<le> n" "int (length xs) = n"
    "map_of x ''start_tick'' = Some (VInt b)" "map_of x ''end_tick'' = Some (VInt e)"
    "map_of x ''samples'' = Some (VList xs)" "map_of x ''roundtrips'' = Some (VInt n)"
    "efold (live_sample e) (b, []) xs = Inr (e, deltas)"
    "map_of x ''p50_rtt_ns'' = Some (VInt (live_percentile h deltas 50))"
    "map_of x ''p99_rtt_ns'' = Some (VInt (live_percentile h deltas 99))"
    "t = s\<lparr>lv_completed := lv_completed s + 1, lv_total := lv_total s + n, lv_end := e, lv_partial := (n \<noteq> lp_batch h)\<rparr>"
  using assms by (auto simp: live_window_def get_int_def ebind_ok need_ok integer_ok split: jvalue.splits option.splits)

text \<open>C31: Every window the live-demo verifier accepts starts at or after the end of the previous one; the
  samples of its record, as many as the round trips it counts, are disjoint intervals in time order
  inside the window, the last one ending at its end; and the reported 50th and 99th percentiles are the
  nearest-rank order statistics of the recorded durations, bounded from both sides.\<close>

theorem live_window_sound:
  assumes "live_window h s x = Inr t"
  shows "\<exists>b samples p50 p99. map_of x ''start_tick'' = Some (VInt b) \<and> map_of x ''end_tick'' = Some (VInt (lv_end t))
    \<and> map_of x ''samples'' = Some (VList (map sample_value samples))
    \<and> map_of x ''roundtrips'' = Some (VInt (int (length samples)))
    \<and> lv_end s \<le> b \<and> b < lv_end t \<and> lv_total t = lv_total s + int (length samples)
    \<and> consecutive b samples (lv_end t)
    \<and> map_of x ''p50_rtt_ns'' = Some (VInt p50) \<and> nearest_rank h (map snd samples) 50 p50
    \<and> map_of x ''p99_rtt_ns'' = Some (VInt p99) \<and> nearest_rank h (map snd samples) 99 p99"
proof -
  from assms obtain b e n xs deltas where w: "lv_end s \<le> b" "b + 1 \<le> e" "1 \<le> n" "int (length xs) = n"
    "map_of x ''start_tick'' = Some (VInt b)" "map_of x ''end_tick'' = Some (VInt e)"
    "map_of x ''samples'' = Some (VList xs)" "map_of x ''roundtrips'' = Some (VInt n)"
    "efold (live_sample e) (b, []) xs = Inr (e, deltas)"
    "map_of x ''p50_rtt_ns'' = Some (VInt (live_percentile h deltas 50))"
    "map_of x ''p99_rtt_ns'' = Some (VInt (live_percentile h deltas 99))"
    "t = s\<lparr>lv_completed := lv_completed s + 1, lv_total := lv_total s + n, lv_end := e, lv_partial := (n \<noteq> lp_batch h)\<rparr>"
    by (rule live_window_inversion) blast
  obtain samples where d: "xs = map sample_value samples" "deltas = map snd samples" "consecutive b samples e"
    using live_samples_ok [OF w(9)] by auto
  then have "map snd samples \<noteq> []" using w(3,4) by auto
  from percentile_rank [OF this] show ?thesis using w d
    by (intro exI [of _ b] exI [of _ samples] exI conjI) auto
qed

definition demo_plan :: live_plan where
  "demo_plan = \<lparr>lp_numer = 1, lp_denom = 1, lp_windows = 1, lp_batch = 2\<rparr>"

definition demo_window :: jdict where
  "demo_window = [(''window'', VInt 0), (''roundtrips'', VInt 2), (''start_tick'', VInt 5), (''end_tick'', VInt 9),
     (''samples'', VList [VList [VInt 5, VInt 1], VList [VInt 7, VInt 2]]), (''p50_rtt_ns'', VInt 1),
     (''p99_rtt_ns'', VInt 2), (''directional_mps'', VInt 1000000000)]"

lemma demo_rate: "live_rate demo_plan demo_window 2 4 = Inr ()"
  using to_float_of_int [of 1000000000] less_imp_le [OF ulp_pos, of 1000000000]
  by (simp add: live_rate_def demo_plan_def demo_window_def)

theorem live_window_sound_witness:
  "\<exists>samples. map sample_value samples = [VList [VInt 5, VInt 1], VList [VInt 7, VInt 2]]
    \<and> consecutive 5 samples 9 \<and> nearest_rank demo_plan (map snd samples) 50 1
    \<and> nearest_rank demo_plan (map snd samples) 99 2"
proof -
  let ?s = "\<lparr>lv_total = 0, lv_completed = 0, lv_end = 5, lv_partial = False, lv_final = None\<rparr>"
  have "live_window demo_plan ?s demo_window = Inr (?s\<lparr>lv_completed := 1, lv_total := 2, lv_end := 9\<rparr>)"
    using demo_rate unfolding live_window_def
    by (simp add: demo_window_def demo_plan_def get_int_def live_sample_def live_percentile_def need_def Let_def)
  from live_window_sound [OF this] obtain samples where
    "VList (map sample_value samples) = VList [VList [VInt 5, VInt 1], VList [VInt 7, VInt 2]]"
    "consecutive 5 samples 9" "nearest_rank demo_plan (map snd samples) 50 1" "nearest_rank demo_plan (map snd samples) 99 2"
    by (fastforce simp: demo_window_def)
  then show ?thesis by (intro exI [of _ samples]) simp
qed

end
