(* ===== verification/Paths.thy ===== *)
theory Paths
  imports Pyvals
begin

text \<open>
  Text and path operations of Python's standard library as the release tools use them:
  \<open>str.splitlines\<close>, splitting at a character, joining, substring search, and the lexical part of
  \<open>PurePosixPath\<close>. Characters have code points below 256.
\<close>

definition LF :: char where "LF = CHR 0x0A"
definition CR :: char where "CR = CHR 0x0D"

definition line_break :: "char \<Rightarrow> bool" where
  "line_break c \<longleftrightarrow> of_char c \<in> {10, 11, 12, 13, 28, 29, 30, 133 :: int}"

fun lines_from :: "string \<Rightarrow> string \<Rightarrow> string list" where
  "lines_from cur [] = (if cur = [] then [] else [cur])"
| "lines_from cur [c] = (if line_break c then [cur] else [cur @ [c]])"
| "lines_from cur (c # d # cs) =
     (if c = CR \<and> d = LF then cur # lines_from [] cs
      else if line_break c then cur # lines_from [] (d # cs)
      else lines_from (cur @ [c]) (d # cs))"

definition splitlines :: "string \<Rightarrow> string list" where
  "splitlines s = lines_from [] s"

fun split_on :: "char \<Rightarrow> string \<Rightarrow> string list" where
  "split_on c [] = [[]]"
| "split_on c (x # xs) =
     (if x = c then [] # split_on c xs
      else (case split_on c xs of [] \<Rightarrow> [[x]] | y # ys \<Rightarrow> (x # y) # ys))"

fun join_with :: "string \<Rightarrow> string list \<Rightarrow> string" where
  "join_with sep [] = []"
| "join_with sep [x] = x"
| "join_with sep (x # y # ys) = x @ sep @ join_with sep (y # ys)"

definition prefix_of :: "string \<Rightarrow> string \<Rightarrow> bool" where
  "prefix_of p s \<longleftrightarrow> take (length p) s = p"

definition suffix_of :: "string \<Rightarrow> string \<Rightarrow> bool" where
  "suffix_of p s \<longleftrightarrow> length p \<le> length s \<and> drop (length s - length p) s = p"

fun occurs_in :: "string \<Rightarrow> string \<Rightarrow> bool" where
  "occurs_in p [] = (p = [])"
| "occurs_in p (c # cs) = (prefix_of p (c # cs) \<or> occurs_in p cs)"

text \<open>\<open>PurePosixPath(name)\<close>: its components, whether it is absolute, its normal form, the last
  component and the suffix of that.\<close>

definition path_parts :: "string \<Rightarrow> string list" where
  "path_parts name = filter (\<lambda>p. p \<noteq> [] \<and> p \<noteq> ''.'') (split_on (CHR ''/'') name)"

definition is_absolute :: "string \<Rightarrow> bool" where
  "is_absolute name = prefix_of ''/'' name"

definition as_posix :: "string \<Rightarrow> string" where
  "as_posix name =
     (if is_absolute name
      then (if prefix_of ''//'' name \<and> \<not> prefix_of ''///'' name then ''//'' else ''/'')
           @ join_with ''/'' (path_parts name)
      else if path_parts name = [] then ''.'' else join_with ''/'' (path_parts name))"

definition path_name :: "string \<Rightarrow> string" where
  "path_name name = (if path_parts name = [] then [] else last (path_parts name))"

definition rfind_dot :: "string \<Rightarrow> int" where
  "rfind_dot s = (let is = filter (\<lambda>i. s ! i = CHR ''.'') [0..<length s] in if is = [] then -1 else int (last is))"

definition path_suffix :: "string \<Rightarrow> string" where
  "path_suffix name =
     (let s = path_name name; i = rfind_dot s
      in if 0 < i \<and> i < int (length s) - 1 then drop (nat i) s else [])"

text \<open>\<open>s.split(sep, 1)\<close> of a text that holds the (non-empty) separator.\<close>

fun split_once :: "string \<Rightarrow> string \<Rightarrow> (string \<times> string) option" where
  "split_once sep [] = None"
| "split_once sep (c # cs) =
     (if prefix_of sep (c # cs) then Some ([], drop (length sep) (c # cs))
      else (case split_once sep cs of None \<Rightarrow> None | Some (a, b) \<Rightarrow> Some (c # a, b)))"

text \<open>\<open>f'{x:03d}'\<close> of a non-negative integer.\<close>

definition pad3 :: "nat \<Rightarrow> string" where
  "pad3 k = (let s = show_nat k in replicate (3 - length s) (CHR ''0'') @ s)"

text \<open>\<open>int(text)\<close> of decimal digits; signs, blanks and underscores do not occur.\<close>

fun digits_value :: "string \<Rightarrow> int \<Rightarrow> int option" where
  "digits_value [] acc = Some acc"
| "digits_value (c # cs) acc =
     (case map_of (zip ''0123456789'' (map int [0..<10])) c of None \<Rightarrow> None | Some d \<Rightarrow> digits_value cs (10 * acc + d))"

definition parse_int :: "string \<Rightarrow> int result" where
  "parse_int s = (case digits_value s 0 of Some i \<Rightarrow> if s = [] then Inl (ValueError ''invalid literal'') else Inr i
     | None \<Rightarrow> Inl (ValueError ''invalid literal''))"

section \<open>Lines\<close>

lemma lines_from_plain:
  "\<forall>c\<in>set s. \<not> line_break c \<Longrightarrow> lines_from cur (s @ LF # t) = (cur @ s) # lines_from [] t"
proof (induction s arbitrary: cur)
  case Nil
  have "line_break LF" "LF \<noteq> CR" by (simp_all add: line_break_def LF_def CR_def)
  then show ?case by (cases t) auto
next
  case (Cons c s)
  then have c: "\<not> line_break c" "c \<noteq> CR" by (auto simp: line_break_def CR_def)
  have "lines_from cur (c # s @ LF # t) = lines_from (cur @ [c]) (s @ LF # t)"
    using c by (cases "s @ LF # t") auto
  with Cons show ?case by simp
qed

lemma splitlines_line:
  "\<forall>c\<in>set s. \<not> line_break c \<Longrightarrow> splitlines (s @ LF # t) = s # splitlines t"
  using lines_from_plain [of s "[]" t] by (simp add: splitlines_def)

end
