(* ===== verification/Trust_Capsule.thy ===== *)
theory Trust_Capsule
  imports Paths
begin

text \<open>
  \<open>tools/verify_trust_capsule.py\<close>: member names, manifests, the inspection of a release archive and
  the comparison with the capsule. The archive is what \<open>zipfile\<close> lists, with the expanded bytes of
  every member; SHA-256 (\<open>sha\<close>), UTF-8 decoding (\<open>decode\<close>) and the JSON scanner (\<open>scan\<close>) are
  parameters. Bytes are characters.
\<close>

definition VERSION :: string where "VERSION = ''1.1.0''"
definition ROOT_NAME :: string where "ROOT_NAME = ''elite-ringbuffer-'' @ VERSION"
definition REPORT :: string where "REPORT = ''15_Turn_15_Definitive_Release_Candidate_Report.md''"

definition CORE_REQUIRED :: "string list" where
  "CORE_REQUIRED = [''LICENSE'', ''.gitignore'', ''NOTICE.md'', ''README.md'', ''CHANGELOG.md'',
     ''Makefile'', ''release/RELEASE.json'', ''include/elite_version.h'',
     ''include/elite_ringbuffer.h'', ''src/elite_spsc.c'',
     ''src/elite_mpmc_ncq.c'', ''bindings/python/elite_buffer.c'',
     ''docs/ADVERSARIAL_AUDIT.md'', ''SOURCE_MANIFEST.sha256'', REPORT]"

definition MAX_FILE_BYTES :: int where "MAX_FILE_BYTES = 2 ^ 30"
definition MAX_TOTAL_BYTES :: int where "MAX_TOTAL_BYTES = 4 * 2 ^ 30"
definition MAX_MEMBERS :: int where "MAX_MEMBERS = 100000"

definition safe_name :: "string \<Rightarrow> string result" where
  "safe_name name = (
    need (0 < length name \<and> length name < 1024) ''invalid member name'' (
    need (\<not> is_absolute name \<and> as_posix name = name \<and> ''..'' \<notin> set (path_parts name)
       \<and> CHR 0x5C \<notin> set name \<and> CHR '':'' \<notin> set name
       \<and> list_all (\<lambda>c. 32 \<le> (of_char c :: int) \<and> (of_char c :: int) \<noteq> 127) name \<and> name \<noteq> ''.'')
       ''unsafe/noncanonical member name'' (
    Inr name)))"

text \<open>One manifest line: 64 lower-case hexadecimal digits, two blanks, a name.\<close>

definition manifest_line :: "string \<Rightarrow> (string \<times> string) option" where
  "manifest_line line =
     (let sha = take 64 line; name = drop 66 line
      in if length sha = 64 \<and> all_hex sha \<and> take 2 (drop 64 line) = ''  '' \<and> name \<noteq> [] \<and> LF \<notin> set name
         then Some (sha, name) else None)"

definition manifest_step :: "(string \<times> string) list \<Rightarrow> string \<Rightarrow> (string \<times> string) list result" where
  "manifest_step out line = (
    ebind ((case manifest_line line of None \<Rightarrow> Inl (ValueError ''invalid manifest line'') | Some p \<Rightarrow> Inr p)) (\<lambda>(sha, name).
    ebind (safe_name name) (\<lambda>_.
    need (name \<notin> fst ` set out) ''duplicate manifest member'' (
    Inr (out @ [(name, sha)])))))"

definition parse_manifest :: "string \<Rightarrow> (string \<times> string) list result" where
  "parse_manifest text = (
    ebind (efold manifest_step [] (splitlines text)) (\<lambda>out.
    need (out \<noteq> []) ''empty manifest'' (
    Inr out)))"

definition source_member :: "string \<Rightarrow> bool" where
  "source_member name \<longleftrightarrow>
     path_suffix name \<in> set [''.c'', ''.h'', ''.cpp'', ''.hpp'', ''.py'', ''.sh'', ''.pml'', ''.rb'', ''.cmake'',
        ''.yml'', ''.yaml'', ''.3'', ''.7'']
     \<or> path_name name \<in> set [''CMakeLists.txt'', ''vcpkg.json'']
     \<or> suffix_of ''.cmake.in'' name \<or> suffix_of ''.pc.in'' name \<or> suffix_of ''.rb.in'' name
     \<or> name \<in> set [''formal/SOURCE_BINDING.json'', ''Makefile'', ''LICENSE'', ''.gitignore'',
        ''NOTICE.md'', ''docs/ADVERSARIAL_AUDIT.md'', ''release/RELEASE.json'']"

section \<open>The archive\<close>

record zip_info =
  zi_filename :: string
  zi_is_dir :: bool
  zi_flag_bits :: int
  zi_file_size :: int
  zi_external_attr :: int
  zi_content :: string

record archive_file =
  ar_is_file :: bool
  ar_size :: int
  ar_name :: string
  ar_bytes :: string
  ar_infos :: "zip_info list"

unbundle bit_operations_syntax

definition admit_member :: "(string \<times> zip_info) list \<Rightarrow> zip_info \<Rightarrow> (string \<times> zip_info) list result" where
  "admit_member names info = (
    ebind (safe_name (zi_filename info)) (\<lambda>_.
    need (\<not> zi_is_dir info \<and> zi_flag_bits info AND 1 = 0) ''directory/encrypted entry is not admitted'' (
    need (zi_file_size info \<le> MAX_FILE_BYTES) ''member size limit'' (
    let mode = drop_bit 16 (zi_external_attr info) AND 0xF000 in
    need (mode = 0 \<or> mode = 0x8000) ''nonregular archive member'' (
    let pre = takeWhile (\<lambda>c. c \<noteq> CHR ''/'') (zi_filename info) in
    let rel = drop (length pre + 1) (zi_filename info) in
    need (CHR ''/'' \<in> set (zi_filename info) \<and> pre = ROOT_NAME \<and> rel \<noteq> []) ''wrong archive root'' (
    ebind (safe_name rel) (\<lambda>_.
    need (rel \<notin> fst ` set names) ''duplicate archive member'' (
    need (\<not> list_ex (\<lambda>p. p \<in> set [''build'', ''dist'', ''.git'', ''__pycache__'', ''.pytest_cache'']) (path_parts rel))
       ''generated member'' (
    Inr (names @ [(rel, info)]))))))))))"

definition chunk_read :: "int \<Rightarrow> int \<times> string \<Rightarrow> string \<Rightarrow> (int \<times> string) result" where
  "chunk_read file_size acc chunk = (case acc of (n, content) \<Rightarrow> (
    let m = n + int (length chunk) in
    need (m \<le> file_size) ''expanded member overflow'' (Inr (m, content @ chunk))))"

definition measure_member ::
    "(string \<Rightarrow> string) \<Rightarrow> (string \<times> string) list \<Rightarrow> (string \<times> string) list
     \<Rightarrow> (string \<times> string) list \<Rightarrow> string \<times> zip_info \<Rightarrow> (string \<times> string) list result" where
  "measure_member sha full sources measured entry = (case entry of (name, info) \<Rightarrow> (
    ebind (efold (chunk_read (zi_file_size info)) (0, []) (chunked (1024 * 1024) (zi_content info))) (\<lambda>(n, content).
    need (n = zi_file_size info) ''truncated member'' (
    let h = sha content in
    need (case_option True (\<lambda>d. d = h) (map_of full name)) ''file digest mismatch'' (
    need (case_option True (\<lambda>d. d = h) (map_of sources name)) ''source digest mismatch'' (
    Inr (measured @ [(name, h)])))))))"

definition read_small :: "(string \<times> zip_info) list \<Rightarrow> string \<Rightarrow> string result" where
  "read_small names name =
     (case map_of names name of None \<Rightarrow> Inl (KeyError name)
      | Some info \<Rightarrow> need (zi_file_size info \<le> 16 * 1024 * 1024) ''metadata too large'' (Inr (zi_content info)))"

text \<open>The canonical-digest lines of the report: the offset of the digest in the text and the digest.\<close>

definition CANONICAL :: string where "CANONICAL = ''**Canonical-SHA256:** `''"

fun canonical_fields :: "nat \<Rightarrow> string list \<Rightarrow> (nat \<times> string) list" where
  "canonical_fields pos [] = []"
| "canonical_fields pos (l # ls) =
     (let h = take 64 (drop (length CANONICAL) l); more = canonical_fields (pos + length l + 1) ls
      in if l = CANONICAL @ h @ ''`'' \<and> length h = 64 \<and> all_hex h then (pos + length CANONICAL, h) # more else more)"

definition check_report :: "(string \<Rightarrow> string) \<Rightarrow> string \<Rightarrow> string result" where
  "check_report sha report =
     (case canonical_fields 0 (split_on LF report) of
        [(a, h)] \<Rightarrow> need (sha (take a report @ replicate 64 (CHR ''0'') @ drop (a + 64) report) = h)
                     ''canonical report mismatch'' (Inr h)
      | _ \<Rightarrow> Inl (ValueError ''missing/duplicate report canonical field''))"

definition check_release :: "jvalue \<Rightarrow> unit result" where
  "check_release meta = (
    ebind (item meta ''version'') (\<lambda>version.
    need (py_eq version (VStr VERSION)) ''release identity mismatch'' (
    ebind (item meta ''tag_name'') (\<lambda>tag.
    need (py_eq tag (VStr ''v1.1.0'')) ''release identity mismatch'' (
    ebind (item meta ''wire_abi'') (\<lambda>abi.
    need (py_eq abi (VStr ''0x00010000'')) ''release identity mismatch'' (
    ebind (item meta ''stage'') (\<lambda>stage.
    need (py_eq stage (VStr ''release_candidate'')) ''release identity mismatch'' (Inr ())))))))))"

definition check_header :: "string \<Rightarrow> unit result" where
  "check_header header = (
    ebind (eall (\<lambda>(field, value). need (''#define ELITE_VERSION_'' @ field @ '' '' @ value \<in> set (split_on LF header))
         ''header version mismatch'' (Inr ()))
       [(''MAJOR'', ''1''), (''MINOR'', ''1''), (''PATCH'', ''0'')]) (\<lambda>_.
    need (occurs_in (''#define ELITE_VERSION_STRING \"1.1.0\"'') header) ''header version string mismatch'' (Inr ())))"

definition inspect_archive ::
    "(string \<Rightarrow> string) \<Rightarrow> (string \<Rightarrow> string result) \<Rightarrow> (string \<Rightarrow> jtext result) \<Rightarrow> archive_file \<Rightarrow> jvalue result" where
  "inspect_archive sha decode scan a = (
    need (ar_is_file a \<and> ar_size a \<le> MAX_TOTAL_BYTES) ''invalid archive size'' (
    let infos = ar_infos a in
    need (0 < length infos \<and> int (length infos) \<le> MAX_MEMBERS) ''invalid member count'' (
    need (sum_list (map zi_file_size infos) \<le> MAX_TOTAL_BYTES) ''inflated-size limit'' (
    ebind (efold admit_member [] infos) (\<lambda>names.
    need (set (''MANIFEST.sha256'' # CORE_REQUIRED) \<subseteq> fst ` set names) ''required archive members missing'' (
    ebind (read_small names ''MANIFEST.sha256'') (\<lambda>full_bytes.
    ebind (read_small names ''SOURCE_MANIFEST.sha256'') (\<lambda>src_bytes.
    ebind (decode full_bytes) (\<lambda>full_text.
    ebind (parse_manifest full_text) (\<lambda>full.
    ebind (decode src_bytes) (\<lambda>src_text.
    ebind (parse_manifest src_text) (\<lambda>sources.
    need (fst ` set full = fst ` set names - {''MANIFEST.sha256''}) ''complete manifest inventory mismatch'' (
    need (fst ` set sources = set (filter source_member (map fst full))) ''source coverage mismatch'' (
    ebind (efold (measure_member sha full sources) [] names) (\<lambda>measured.
    ebind (read_small names REPORT) (\<lambda>report.
    ebind (check_report sha report) (\<lambda>canonical.
    ebind (read_small names ''release/RELEASE.json'') (\<lambda>meta_bytes.
    ebind (scan meta_bytes) (\<lambda>meta_text.
    ebind (loads meta_text) (\<lambda>meta.
    ebind (check_release meta) (\<lambda>_.
    ebind (read_small names ''include/elite_version.h'') (\<lambda>header_bytes.
    ebind (decode header_bytes) (\<lambda>header.
    ebind (check_header header) (\<lambda>_.
    let digest = (\<lambda>n. VStr (the (map_of measured n))) in
    Inr (VDict [(''schema'', VStr ''elite-release-trust-v1''), (''release_version'', VStr VERSION),
       (''release_stage'', VStr ''release_candidate''), (''wire_abi'', VStr ''0x00010000''),
       (''signature_status'', VStr ''UNSIGNED_SHA256_RECEIPT''), (''signatures'', VList []),
       (''remote_git_tag_created'', VBool False),
       (''archive'', VDict [(''name'', VStr (ar_name a)), (''bytes'', VInt (ar_size a)),
          (''sha256'', VStr (sha (ar_bytes a))), (''root'', VStr ROOT_NAME), (''files'', VInt (int (length names)))]),
       (''bound_members'', VDict
         [(''MANIFEST.sha256'', VDict [(''sha256'', digest ''MANIFEST.sha256''), (''entries'', VInt (int (length full)))]),
          (''SOURCE_MANIFEST.sha256'', VDict [(''sha256'', digest ''SOURCE_MANIFEST.sha256''),
             (''entries'', VInt (int (length sources)))]),
          (REPORT, VDict [(''sha256'', digest REPORT), (''bytes'', VInt (int (length report))),
             (''canonical_sha256'', VStr canonical)]),
          (''release/RELEASE.json'', VDict [(''sha256'', digest ''release/RELEASE.json'')])])])))))))))))))))))))))))))"

text \<open>\<open>json.dumps(.., sort_keys=True)\<close> of two documents without floats is the same text exactly when they
  agree up to the order of keys, types included.\<close>

fun same_dump :: "jvalue \<Rightarrow> jvalue \<Rightarrow> bool"
  and same_dumps :: "jvalue list \<Rightarrow> jvalue list \<Rightarrow> bool"
  and dump_in :: "jdict \<Rightarrow> jdict \<Rightarrow> bool" where
  "same_dump (VList xs) w = (case w of VList ys \<Rightarrow> same_dumps xs ys | _ \<Rightarrow> False)"
| "same_dump (VDict d) w = (case w of VDict d' \<Rightarrow> length d = length d' \<and> dump_in d d' | _ \<Rightarrow> False)"
| "same_dump v w = (v = w)"
| "same_dumps [] ys = (ys = [])"
| "same_dumps (x # xs) ys = (case ys of [] \<Rightarrow> False | y # ys' \<Rightarrow> same_dump x y \<and> same_dumps xs ys')"
| "dump_in [] d' = True"
| "dump_in ((k, v) # d) d' = (case map_of d' k of None \<Rightarrow> False | Some w \<Rightarrow> same_dump v w \<and> dump_in d d')"

definition verify_capsule ::
    "(string \<Rightarrow> string) \<Rightarrow> (string \<Rightarrow> string result) \<Rightarrow> (string \<Rightarrow> jtext result) \<Rightarrow> archive_file \<Rightarrow> string
     \<Rightarrow> string option \<Rightarrow> jvalue result" where
  "verify_capsule sha decode scan a capsule anchor = (
    need (int (length capsule) \<le> 65536) ''capsule too large'' (
    need (case_option True (\<lambda>x. length x = 64 \<and> all_hex x) anchor) ''invalid expected capsule digest'' (
    need (case_option True (\<lambda>x. sha capsule = x) anchor) ''capsule trust-anchor mismatch'' (
    ebind (scan capsule) (\<lambda>j.
    ebind (loads j) (\<lambda>supplied.
    ebind (inspect_archive sha decode scan a) (\<lambda>wanted.
    need (is_dict supplied \<and> same_dump supplied wanted) ''capsule/archive mismatch or unsupported claim'' (Inr supplied))))))))"

end
