(* ===== verification/Capsule_Claims.thy ===== *)
theory Capsule_Claims
  imports Trust_Capsule
begin

text \<open>
  Manifests survive printing and parsing: the text of a manifest determines it.
\<close>

definition render_line :: "string \<times> string \<Rightarrow> string" where
  "render_line p = snd p @ ''  '' @ fst p"

definition render_manifest :: "(string \<times> string) list \<Rightarrow> string" where
  "render_manifest m = concat (map (\<lambda>p. render_line p @ [LF]) m)"

text \<open>An entry a manifest can hold: an admitted name without the NEL character (the only line break of
  \<open>splitlines\<close> that \<open>safe_name\<close> admits below code point 256) and a SHA-256 digest.\<close>

definition storable :: "string \<times> string \<Rightarrow> bool" where
  "storable p \<longleftrightarrow> safe_name (fst p) = Inr (fst p) \<and> CHR 0x85 \<notin> set (fst p) \<and> length (snd p) = 64 \<and> all_hex (snd p)"

lemma hex_no_break:
  assumes "all_hex h" "c \<in> set h"
  shows "\<not> line_break c"
proof -
  have "hexdigit c \<noteq> None" using assms by (auto simp: all_hex_def list_all_iff)
  then have "c \<in> set ''0123456789abcdef''"
    by (auto simp: map_of_eq_None_iff zip_map2 simp del: zip_Cons_Cons dest: set_zip_leftD)
  then show ?thesis by (auto simp: line_break_def)
qed

lemma safe_no_break:
  assumes "safe_name n = Inr r" "CHR 0x85 \<notin> set n" "c \<in> set n"
  shows "\<not> line_break c"
proof -
  have "32 \<le> (of_char c :: int)" using assms(1,3) by (auto simp: safe_name_def need_ok list_all_iff)
  moreover have "of_char c \<noteq> (133 :: int)"
  proof
    assume "of_char c = (133 :: int)"
    then have "of_char c = (of_char (CHR 0x85) :: int)" by simp
    then have "c = CHR 0x85" by (simp only: of_char_eq_iff)
    with assms(2,3) show False by simp
  qed
  ultimately show ?thesis by (auto simp: line_break_def)
qed

lemma line_no_break: "storable p \<Longrightarrow> c \<in> set (render_line p) \<Longrightarrow> \<not> line_break c"
  by (auto simp: storable_def render_line_def line_break_def dest: hex_no_break safe_no_break)

lemma LF_is_break: "line_break LF"
  by (simp add: line_break_def LF_def)

lemma parse_line:
  assumes "storable p"
  shows "manifest_line (render_line p) = Some (snd p, fst p)"
proof -
  have "fst p \<noteq> []" using assms by (auto simp: storable_def safe_name_def need_ok)
  moreover have "LF \<notin> set (fst p)"
    using line_no_break [OF assms, of LF] LF_is_break by (auto simp: render_line_def)
  ultimately show ?thesis using assms by (simp add: storable_def render_line_def manifest_line_def Let_def)
qed

lemma parse_lines:
  assumes "\<forall>p\<in>set m. storable p" "distinct (map fst m)" "fst ` set m \<inter> fst ` set out = {}"
  shows "efold manifest_step out (splitlines (render_manifest m)) = Inr (out @ m)"
  using assms
proof (induction m arbitrary: out)
  case (Cons p m)
  have "splitlines (render_manifest (p # m)) = render_line p # splitlines (render_manifest m)"
    using splitlines_line [of "render_line p" "render_manifest m"] line_no_break [of p] Cons.prems(1)
    by (simp add: render_manifest_def)
  moreover have "manifest_step out (render_line p) = Inr (out @ [p])"
    using Cons.prems by (auto simp: manifest_step_def parse_line storable_def)
  moreover have "fst ` set m \<inter> fst ` set (out @ [p]) = {}" using Cons.prems(2,3) by auto
  ultimately show ?case using Cons.IH [of "out @ [p]"] Cons.prems by simp
qed (simp add: render_manifest_def splitlines_def)

text \<open>C32: Writing a manifest and parsing it gives it back: for every nonempty list of distinct admitted
  names with their digests, the text with one line \<open>digest, two blanks, name\<close> per member parses to
  exactly that list.\<close>

theorem manifest_roundtrip:
  assumes "m \<noteq> []" "\<forall>p\<in>set m. storable p" "distinct (map fst m)"
  shows "parse_manifest (render_manifest m) = Inr m"
  using parse_lines [of m "[]"] assms by (simp add: parse_manifest_def)

definition demo_manifest :: "(string \<times> string) list" where
  "demo_manifest = [(''src/a.c'', replicate 64 (CHR ''0'')), (''LICENSE'', replicate 64 (CHR ''f''))]"

theorem manifest_roundtrip_witness:
  "parse_manifest (render_manifest demo_manifest) = Inr demo_manifest"
proof (rule manifest_roundtrip)
  show "\<forall>p\<in>set demo_manifest. storable p"
    by (simp add: demo_manifest_def storable_def safe_name_def need_def is_absolute_def prefix_of_def as_posix_def
      path_parts_def all_hex_def list_all_iff)
qed (simp_all add: demo_manifest_def)

end
