(* ===== verification/Cache_Counters.thy ===== *)
theory Cache_Counters
  imports Floats
begin

text \<open>
  The counter receipts of \<open>tools/verify_cache_provenance.py\<close>: typed comparisons, metrics replayed
  within one unit in the last place, CPU snapshots, raw counter frames, one hardware counter group and
  the three groups of a worker. Names in messages are left out of the messages.
\<close>

definition MEASURED :: "string list" where "MEASURED = [''OK'', ''MULTIPLEXED'']"

definition UNAVAILABLE :: "string list" where
  "UNAVAILABLE = [''NOT_REQUESTED'', ''RESTRICTED_PARANOID'', ''RESTRICTED_ACCESS'',
     ''UNSUPPORTED_EVENT'', ''UNSUPPORTED_PLATFORM'', ''OPEN_ERROR'',
     ''START_ERROR'', ''STOP_ERROR'', ''READ_ERROR'', ''NEVER_SCHEDULED'', ''INVALID_READING'']"

definition EVENTS :: "string list" where
  "EVENTS = [''cpu_cycles'', ''instructions'', ''l1d_read_access'', ''l1d_read_miss'',
     ''llc_read_access'', ''llc_read_miss'']"

definition CONFIGS :: "int list" where "CONFIGS = [0, 1, 0, 65536, 2, 65538]"

text \<open>\<open>type(v) is type(expected)\<close>.\<close>

fun type_name :: "jvalue \<Rightarrow> string" where
  "type_name VNone = ''NoneType''"
| "type_name (VBool b) = ''bool''"
| "type_name (VInt i) = ''int''"
| "type_name (VFloat x) = ''float''"
| "type_name (VStr s) = ''str''"
| "type_name (VList xs) = ''list''"
| "type_name (VDict d) = ''dict''"

definition eq_typed :: "jvalue \<Rightarrow> jvalue \<Rightarrow> string \<Rightarrow> unit result" where
  "eq_typed v w msg = need (type_name v = type_name w \<and> py_eq v w) msg (Inr ())"

definition eq_item :: "jvalue \<Rightarrow> string \<Rightarrow> jvalue \<Rightarrow> unit result" where
  "eq_item d k w = ebind (item d k) (\<lambda>v. eq_typed v w (k @ '': unexpected''))"

definition int_item :: "jvalue \<Rightarrow> string \<Rightarrow> int \<Rightarrow> int \<Rightarrow> int result" where
  "int_item d k lo hi = ebind (item d k) (\<lambda>v. integer v lo hi)"

fun digest :: "jvalue \<Rightarrow> string result" where
  "digest (VStr s) = need (length s = 64 \<and> all_hex s) ''not SHA-256'' (Inr s)"
| "digest _ = Inl (ValueError ''not SHA-256'')"

text \<open>\<open>floating(v, exact)\<close>: a number whose float is within one unit in the last place of the exact
  fraction; conversions that overflow are \<open>ValueError\<close> here.\<close>

definition representable :: "rat \<Rightarrow> rat result" where
  "representable q = (case to_float q of Inl e \<Rightarrow> Inl (ValueError ''nonrepresentable'') | Inr r \<Rightarrow> Inr r)"

definition floating :: "jvalue \<Rightarrow> rat \<Rightarrow> unit result" where
  "floating v q = (
    need (is_numeric v) ''not finite numeric'' (
    ebind ((case v of VInt i \<Rightarrow> ebind (representable (of_int i)) (\<lambda>r. Inr (Fin r)) | VFloat x \<Rightarrow> Inr x
       | _ \<Rightarrow> Inl (TypeError ''float''))) (\<lambda>actual.
    ebind (representable q) (\<lambda>target.
    (case actual of
        Fin a \<Rightarrow> need (\<bar>a - q\<bar> \<le> ulp target) ''differs by more than one binary64 ULP'' (Inr ())
      | _ \<Rightarrow> Inl (ValueError ''nonfinite''))))))"

definition optional_metric :: "jvalue \<Rightarrow> rat option \<Rightarrow> unit result" where
  "optional_metric v q =
     (case q of None \<Rightarrow> need (v = VNone) ''must be null when not measurable'' (Inr ()) | Some x \<Rightarrow> floating v x)"

definition cpu_snapshot :: "jvalue \<Rightarrow> unit result" where
  "cpu_snapshot x = (
    need (is_dict x) ''not an object'' (
    ebind (int_item x ''error'' 0 (2 ^ 31 - 1)) (\<lambda>_.
    ebind (eall (\<lambda>k. int_item x k 0 U64) [''user_us'', ''system_us'']) (\<lambda>_.
    ebind (eall (\<lambda>k. int_item x k (-1) (2 ^ 63 - 1))
       [''minor_faults'', ''major_faults'', ''voluntary_switches'', ''involuntary_switches'']) (\<lambda>_.
    ebind (int_item x ''instant_usage'' 0 (2 ^ 31 - 1)) (\<lambda>_.
    ebind (int_item x ''instant_usage_scale'' 0 (2 ^ 31 - 1)) (\<lambda>_.
    Inr ())))))))"

text \<open>A raw group read \<open>[nr, enabled, running, value, id, value, id]\<close>.\<close>

record frame =
  fr_enabled :: int
  fr_running :: int
  fr_counts :: "(int \<times> int) list"

definition counter_frame :: "jvalue \<Rightarrow> int list \<Rightarrow> frame result" where
  "counter_frame v ids = (
    need (is_list v) ''bad group read size'' (
    ebind (iter v) (\<lambda>xs.
    need (length xs = 7) ''bad group read size'' (
    ebind (emap (\<lambda>x. integer x 0 U64) xs) (\<lambda>is.
    need (is ! 0 = 2) ''nr'' (
    need (is ! 2 \<le> is ! 1) ''running > enabled'' (
    need (is ! 4 \<noteq> is ! 6 \<and> {is ! 4, is ! 6} = set ids) ''bad IDs'' (
    Inr \<lparr>fr_enabled = is ! 1, fr_running = is ! 2, fr_counts = [(is ! 4, is ! 3), (is ! 6, is ! 5)]\<rparr>))))))))"

section \<open>Counter groups\<close>

definition pmc_failure_evidence :: "jvalue \<Rightarrow> string \<Rightarrow> int \<Rightarrow> unit result" where
  "pmc_failure_evidence paranoid s err =
     (if s = ''RESTRICTED_PARANOID''
      then need ((case paranoid of VInt p \<Rightarrow> 2 < p | _ \<Rightarrow> False) \<and> (err = 1 \<or> err = 13))
             ''no evidence for restrictive-paranoid classification'' (Inr ())
      else if s = ''RESTRICTED_ACCESS'' then need (err = 1 \<or> err = 13) ''no access-denial errno'' (Inr ())
      else if s \<in> set [''OPEN_ERROR'', ''START_ERROR'', ''STOP_ERROR'', ''READ_ERROR'', ''UNSUPPORTED_EVENT'']
      then need (0 < err) ''omitted failure errno'' (Inr ())
      else Inr ())"

definition pmc_event :: "string \<Rightarrow> nat \<Rightarrow> nat \<times> jvalue \<Rightarrow> int result" where
  "pmc_event platform i je = (case je of (j, e) \<Rightarrow> (
    ebind (eq_item e ''name'' (VStr (EVENTS ! (2 * i + j)))) (\<lambda>_.
    ebind (int_item e ''type'' 0 (2 ^ 32 - 1)) (\<lambda>_.
    ebind (int_item e ''config'' 0 U64) (\<lambda>_.
    ebind (int_item e ''id'' 0 U64) (\<lambda>ident.
    ebind ((if platform = ''Linux''
      then ebind (eq_item e ''type'' (VInt (if i = 0 then 0 else 3))) (\<lambda>_. eq_item e ''config'' (VInt (CONFIGS ! (2 * i + j))))
      else Inr ())) (\<lambda>_.
    Inr ident)))))))"

definition scheduling_status :: "int \<Rightarrow> int \<Rightarrow> string" where
  "scheduling_status te tr = (if tr = 0 then ''NEVER_SCHEDULED'' else if tr < te then ''MULTIPLEXED'' else ''OK'')"

text \<open>The count of one event over the interval, scaled by enabled/running time when it ran.\<close>

definition pmc_count :: "frame \<Rightarrow> frame \<Rightarrow> int \<Rightarrow> int \<Rightarrow> jvalue \<times> int \<Rightarrow> rat option result" where
  "pmc_count prior later te tr ei = (case ei of (e, ident) \<Rightarrow> (
    ebind ((case map_of (fr_counts later) ident of None \<Rightarrow> Inl (KeyError []) | Some a \<Rightarrow> Inr a)) (\<lambda>a.
    ebind ((case map_of (fr_counts prior) ident of None \<Rightarrow> Inl (KeyError []) | Some b \<Rightarrow> Inr b)) (\<lambda>b.
    let raw = a - b in
    need (0 \<le> raw) ''counter decreased'' (
    if tr \<noteq> 0 then (
       ebind (int_item e ''raw_delta'' 0 U64) (\<lambda>delta.
       need (delta = raw) ''raw_delta'' (
       ebind (item e ''scaled_estimate'') (\<lambda>estimate.
       let q = of_int (raw * te) / of_int tr in
       ebind (floating estimate q) (\<lambda>_.
       Inr (Some q)))))) else (
       need (raw = 0) ''nonzero count with no scheduled interval'' (
       ebind (item e ''raw_delta'') (\<lambda>delta.
       need (delta = VNone) ''unscheduled event is not zero evidence'' (
       ebind (item e ''scaled_estimate'') (\<lambda>estimate.
       need (estimate = VNone) ''unscheduled event is not zero evidence'' (Inr None)))))))))))"

definition pmc_measured ::
    "string \<Rightarrow> string \<Rightarrow> int \<Rightarrow> jvalue \<Rightarrow> (jvalue \<times> int) list \<Rightarrow> int \<Rightarrow> int \<Rightarrow> rat list option result" where
  "pmc_measured platform s err g events te tr = (
    need (platform = ''Linux'') ''unsupported native event backend'' (
    need (err = 0) ''measured errno'' (
    let ids = map snd events in
    need (distinct ids \<and> list_all (\<lambda>x. 0 < x) ids) ''bad measured IDs'' (
    ebind (item g ''before'') (\<lambda>b.
    ebind (counter_frame b ids) (\<lambda>prior.
    ebind (item g ''after'') (\<lambda>a.
    ebind (counter_frame a ids) (\<lambda>later.
    need (fr_enabled prior \<le> fr_enabled later \<and> fr_running prior \<le> fr_running later) ''cumulative times decreased'' (
    need (te = fr_enabled later - fr_enabled prior) ''enabled delta'' (
    need (tr = fr_running later - fr_running prior) ''running delta'' (
    need (tr \<le> te) ''running delta > enabled delta'' (
    need (s = scheduling_status te tr) ''scheduling status'' (
    ebind (emap (pmc_count prior later te tr) events) (\<lambda>counts.
    Inr (if tr = 0 then None else Some (map the counts))))))))))))))))"

definition pmc_unmeasured :: "string \<Rightarrow> jvalue \<Rightarrow> jvalue list \<Rightarrow> int \<Rightarrow> int \<Rightarrow> rat list option result" where
  "pmc_unmeasured s g events te tr = (
    ebind (eall (\<lambda>e. ebind (item e ''raw_delta'') (\<lambda>v. need (v = VNone) ''unavailable count must be null''
         (ebind (item e ''scaled_estimate'') (\<lambda>w. need (w = VNone) ''unavailable count must be null'' (Inr ())))))
       events) (\<lambda>_.
    need (te = 0 \<and> tr = 0 \<or> s = ''INVALID_READING'') ''unavailable time claim'' (
    ebind (eall (\<lambda>k. ebind (item g k) (\<lambda>v. need (case v of VNone \<Rightarrow> True | VList xs \<Rightarrow> length xs = 7 | _ \<Rightarrow> False)
         ''malformed diagnostic frame'' (Inr ()))) [''before'', ''after'']) (\<lambda>_.
    Inr None))))"

definition pmc_group ::
    "string \<Rightarrow> string \<Rightarrow> jvalue \<Rightarrow> nat \<times> jvalue \<Rightarrow> (rat list option \<times> string) result" where
  "pmc_group platform mode paranoid ig = (case ig of (i, g) \<Rightarrow> (
    ebind (eq_item g ''group_id'' (VInt (int i))) (\<lambda>_.
    ebind (item g ''status'') (\<lambda>st.
    ebind (in_set_of st (MEASURED @ UNAVAILABLE)) (\<lambda>known.
    need known ''unfinished or unknown status'' (
    ebind ((case st of VStr s \<Rightarrow> Inr s | _ \<Rightarrow> Inl (ValueError ''unfinished or unknown status''))) (\<lambda>s.
    need (s \<noteq> ''INVALID_READING'') ''malformed native counter evidence'' (
    ebind (int_item g ''os_error'' 0 (2 ^ 31 - 1)) (\<lambda>err.
    need (if mode = ''off'' then s = ''NOT_REQUESTED'' else s \<noteq> ''NOT_REQUESTED'') ''silently omitted requested group'' (
    ebind (pmc_failure_evidence paranoid s err) (\<lambda>_.
    ebind (item g ''events'') (\<lambda>evs.
    ebind ((case evs of VList xs \<Rightarrow> Inr xs | _ \<Rightarrow> Inl (ValueError ''need 2 events''))) (\<lambda>events.
    need (length events = 2) ''need 2 events'' (
    ebind (emap (pmc_event platform i) (zip [0..<2] events)) (\<lambda>ids.
    ebind (int_item g ''time_enabled_ns'' 0 U64) (\<lambda>te.
    ebind (int_item g ''time_running_ns'' 0 U64) (\<lambda>tr.
    ebind ((if s \<in> set (MEASURED @ [''NEVER_SCHEDULED''])
             then pmc_measured platform s err g (zip events ids) te tr
             else pmc_unmeasured s g events te tr)) (\<lambda>out.
    Inr (out, s)))))))))))))))))))"

definition verify_pmc :: "jvalue \<Rightarrow> string \<Rightarrow> string \<Rightarrow> (rat list option list \<times> string list) result" where
  "verify_pmc x platform mode = (
    ebind (eq_item x ''requested'' (VBool (mode = ''count''))) (\<lambda>_.
    ebind (eq_item x ''sampling'' (VBool False)) (\<lambda>_.
    ebind (eq_item x ''scope'' (VStr ''calling_thread_user_only_no_inherit'')) (\<lambda>_.
    ebind (int_item x ''owner_thread_id'' 1 U64) (\<lambda>_.
    ebind (item x ''paranoid'') (\<lambda>paranoid.
    ebind ((if paranoid = VNone then Inr 0 else integer paranoid (- (2 ^ 31)) (2 ^ 31 - 1))) (\<lambda>_.
    ebind (item x ''groups'') (\<lambda>gs.
    ebind ((case gs of VList xs \<Rightarrow> Inr xs | _ \<Rightarrow> Inl (ValueError ''need 3 groups''))) (\<lambda>groups.
    need (length groups = 3) ''need 3 groups'' (
    ebind (emap (pmc_group platform mode paranoid) (zip [0..<3] groups)) (\<lambda>rs.
    Inr (map fst rs, map snd rs))))))))))))"

section \<open>Timers\<close>

definition timer_sample :: "jvalue \<Rightarrow> (int \<times> int \<times> int) result" where
  "timer_sample s = (
    need (is_dict s) ''missing timer sample'' (
    ebind (int_item s ''mach_before'' 0 U64) (\<lambda>a.
    ebind (int_item s ''mach_after'' 0 U64) (\<lambda>b.
    ebind (int_item s ''count'' 0 U64) (\<lambda>v.
    need (a \<le> b) ''backwards bracket'' (Inr (a, v, b)))))))"

definition timer_pair :: "jvalue \<Rightarrow> jvalue \<Rightarrow> int \<Rightarrow> rat \<Rightarrow> bool result" where
  "timer_pair first last_sample hz scale = (
    ebind (timer_sample first) (\<lambda>(a0, v0, b0).
    ebind (timer_sample last_sample) (\<lambda>(a1, v1, b1).
    need (v0 \<le> v1 \<and> b0 \<le> a1) ''decreasing counter or overlapping pairs'' (
    let measured = of_int ((v1 - v0) * 10 ^ 9) / of_int hz in
    let tolerance = of_int (2 * 10 ^ 9) / of_int hz + 2 * scale in
    Inr (of_int (a1 - b0) * scale - tolerance \<le> measured \<and> measured \<le> of_int (b1 - a0) * scale + tolerance)))))"

end
