(* ===== verification/Cache_Record.thy ===== *)
theory Cache_Record
  imports Cache_Counters Paths "HOL-Library.List_Lexorder" "HOL-Library.Char_ord"
begin

text \<open>
  A cache-control record and a campaign of them, \<open>verify_record\<close> and \<open>verify_path\<close> of
  \<open>tools/verify_cache_provenance.py\<close>, one definition per group of statements. SHA-256 (\<open>sha\<close>, on
  text), the executable given with \<open>--binary\<close> (its size and bytes) and the directory given with
  \<open>--source-root\<close> (for a name, whether its resolution stays inside and the bytes found there, or the
  error) are parameters.
\<close>

type_synonym sha256 = "string \<Rightarrow> string"
type_synonym source_tree = "string \<Rightarrow> (bool \<times> string) result"

record interval =
  iv_workers :: int
  iv_iterations :: int
  iv_stride :: int
  iv_trial :: int
  iv_t0 :: int
  iv_end :: int
  iv_numer :: int
  iv_denom :: int

definition iv_scale :: "interval \<Rightarrow> rat" where
  "iv_scale v = of_int (iv_numer v) / of_int (iv_denom v)"

definition iv_elapsed :: "interval \<Rightarrow> rat" where
  "iv_elapsed v = of_int (iv_end v - iv_t0 v) * iv_scale v"

definition iv_operations :: "interval \<Rightarrow> int" where
  "iv_operations v = iv_workers v * iv_iterations v"

definition cache_interval :: "jvalue \<Rightarrow> interval result" where
  "cache_interval d = (
    ebind (eq_item d ''schema'' (VStr ''elite-cache-control-v2'')) (\<lambda>_.
    ebind (eq_item d ''status'' (VStr ''PASS_COUNTER_RECONCILIATION_ONLY'')) (\<lambda>_.
    ebind (eq_item d ''ipc_measurement'' (VBool False)) (\<lambda>_.
    ebind (eq_item d ''sampling_interrupts_enabled'' (VBool False)) (\<lambda>_.
    ebind (eq_item d ''interval'' (VStr ''scheduled_t0_to_latest_worker_rmw_end'')) (\<lambda>_.
    ebind (eq_item d ''warmup_iterations'' (VInt 0)) (\<lambda>_.
    ebind (eq_item d ''timestamp_ordering'' (VStr ''inherited_ordered_clock_boundaries'')) (\<lambda>_.
    ebind (int_item d ''workers'' 1 16) (\<lambda>n.
    ebind (int_item d ''iterations_per_worker'' 1 100000000) (\<lambda>iterations.
    ebind (int_item d ''total_operations'' 0 U64) (\<lambda>total.
    need (total = n * iterations) ''total_operations'' (
    ebind (int_item d ''counter_stride'' 0 U64) (\<lambda>stride.
    need (stride = 8 \<or> stride = 128) ''unrecognized stride'' (
    ebind (eq_item d ''allocation_alignment'' (VInt 128)) (\<lambda>_.
    ebind (int_item d ''trial'' 0 99) (\<lambda>trial.
    ebind (eq_item d ''layout_order'' (VInt (if (trial mod 2 = 0) = (stride = 8) then 0 else 1))) (\<lambda>_.
    ebind (int_item d ''t0'' 0 U64) (\<lambda>t0.
    ebind (int_item d ''end'' 0 U64) (\<lambda>end_tick.
    need (t0 < end_tick) ''nonpositive or wrapped interval'' (
    ebind (int_item d ''delta_ticks'' 1 U64) (\<lambda>delta.
    need (delta = end_tick - t0) ''delta_ticks'' (
    ebind (int_item d ''timebase_numer'' 1 (2 ^ 32 - 1)) (\<lambda>numer.
    ebind (int_item d ''timebase_denom'' 1 (2 ^ 32 - 1)) (\<lambda>denom.
    let v = \<lparr>iv_workers = n, iv_iterations = iterations, iv_stride = stride, iv_trial = trial, iv_t0 = t0,
              iv_end = end_tick, iv_numer = numer, iv_denom = denom\<rparr> in
    ebind (item d ''nominal_tick_ns'') (\<lambda>tick.
    ebind (floating tick (iv_scale v)) (\<lambda>_.
    ebind (item d ''elapsed_ns'') (\<lambda>elapsed.
    ebind (floating elapsed (iv_elapsed v)) (\<lambda>_.
    ebind (item d ''operations_per_second'') (\<lambda>rate.
    ebind (floating rate (of_int (iv_operations v * 10 ^ 9) / iv_elapsed v)) (\<lambda>_.
    Inr v))))))))))))))))))))))))))))))"

definition cache_clock :: "jvalue \<Rightarrow> interval \<Rightarrow> string result" where
  "cache_clock d v = (
    ebind (item d ''platform'') (\<lambda>p.
    need (in_tuple p [''Linux'', ''Darwin'']) ''unsupported platform label'' (
    if p = VStr ''Linux'' then (
       ebind (eq_item d ''clock'' (VStr ''CLOCK_MONOTONIC_RAW'')) (\<lambda>_.
       ebind (eq_item d ''timebase_source'' (VStr ''nanosecond_OS_clock'')) (\<lambda>_.
       ebind (eq_item d ''resolution_status'' (VStr ''clock_getres_NOT_effective_resolution'')) (\<lambda>_.
       need (iv_numer v = 1 \<and> iv_denom v = 1) ''Linux RAW nanoseconds require 1:1'' (
       ebind (int_item d ''reported_resolution_ns'' 1 U64) (\<lambda>_.
       Inr ''Linux'')))))) else (
       ebind (eq_item d ''clock'' (VStr ''mach_absolute_time'')) (\<lambda>_.
       ebind (eq_item d ''timebase_source'' (VStr ''mach_timebase_info'')) (\<lambda>_.
       ebind (eq_item d ''resolution_status'' (VStr ''NOT_REPORTED_FOR_THIS_CLOCK'')) (\<lambda>_.
       ebind (item d ''reported_resolution_ns'') (\<lambda>r.
       need (r = VNone) ''no fabricated Mach resolution'' (Inr ''Darwin'')))))))))"

definition pmc_mode :: "jvalue \<Rightarrow> string result" where
  "pmc_mode d = (
    ebind (item d ''pmc_mode'') (\<lambda>m.
    need (in_tuple m [''off'', ''count'']) ''unknown PMC mode'' (Inr (if m = VStr ''off'' then ''off'' else ''count''))))"

definition nonempty_str :: "jvalue \<Rightarrow> bool" where
  "nonempty_str v \<longleftrightarrow> is_str v \<and> truthy v"

definition cache_binary :: "sha256 \<Rightarrow> (int \<times> string) option \<Rightarrow> jvalue \<Rightarrow> unit result" where
  "cache_binary sha binary d = (
    ebind (item d ''binary'') (\<lambda>b.
    ebind (item b ''sha256'') (\<lambda>h.
    ebind (digest h) (\<lambda>bh.
    ebind (int_item b ''bytes'' 1 U64) (\<lambda>bytes.
    ebind (eq_item b ''rehash_after_run'' (VBool True)) (\<lambda>_.
    ebind (item b ''path'') (\<lambda>path.
    need (nonempty_str path) ''missing binary path'' (
    (case binary of None \<Rightarrow> Inr () | Some (n, content) \<Rightarrow>
        need (n = bytes \<and> sha content = bh) ''external executable differs'' (Inr ()))))))))))"

definition cache_source ::
    "sha256 \<Rightarrow> source_tree option \<Rightarrow> string \<Rightarrow> string \<times> jvalue \<Rightarrow> string result" where
  "cache_source sha tree material entry = (case entry of (name, value) \<Rightarrow> (
    need (\<not> is_absolute name \<and> ''..'' \<notin> set (path_parts name) \<and> CHR 0x5C \<notin> set name \<and> LF \<notin> set name)
       ''unsafe source path'' (
    ebind (digest value) (\<lambda>h.
    ebind ((case tree of None \<Rightarrow> Inr () | Some resolve \<Rightarrow> ebind (resolve name) (\<lambda>(inside, content).
        need inside ''source symlink escape'' (need (sha content = h) ''external source differs'' (Inr ()))))) (\<lambda>_.
    Inr (material @ h @ ''  '' @ name @ [LF]))))))"

definition cache_build :: "sha256 \<Rightarrow> source_tree option \<Rightarrow> jvalue \<Rightarrow> unit result" where
  "cache_build sha tree d = (
    ebind (item d ''build'') (\<lambda>build.
    ebind (eall (\<lambda>k. ebind (item build k) (\<lambda>v. need (nonempty_str v) ''missing'' (Inr ())))
       [''compiler_path'', ''compiler_version'', ''cflags'', ''cppflags'']) (\<lambda>_.
    ebind (eall (\<lambda>k. ebind (item build k) (\<lambda>v. need (is_str v) ''missing'' (Inr ()))) [''ldflags'', ''ldlibs'']) (\<lambda>_.
    ebind (item build ''compiler_sha256'') (\<lambda>c.
    ebind (digest c) (\<lambda>_.
    ebind (item build ''source_sha256'') (\<lambda>s.
    ebind (digest s) (\<lambda>_.
    ebind (item build ''git_commit'') (\<lambda>g.
    need (case g of VNone \<Rightarrow> True | VStr x \<Rightarrow> 40 \<le> length x \<and> length x \<le> 64 \<and> all_hex x | _ \<Rightarrow> False)
       ''bad git identity'' (
    ebind (item build ''source_files'') (\<lambda>sf.
    ebind ((case sf of VDict x \<Rightarrow> Inr x | _ \<Rightarrow> Inl (ValueError ''missing source identities''))) (\<lambda>sources.
    need (1 \<le> length sources \<and> length sources \<le> 1000) ''missing source identities'' (
    ebind (efold (cache_source sha tree) [] (sort_key fst sources)) (\<lambda>material.
    eq_typed (VStr (sha material)) s ''source snapshot digest''))))))))))))))"

record probe =
  pr_virtual :: bool
  pr_hz :: int
  pr_correlation :: "bool option"
  pr_sysctl_hz :: int
  pr_sysctl_error :: int

definition cache_probe :: "jvalue \<Rightarrow> string \<Rightarrow> rat \<Rightarrow> probe result" where
  "cache_probe d platform scale = (
    ebind (item d ''virtual_timer_probe'') (\<lambda>p.
    ebind (eq_item p ''kind'' (VStr ''SYSTEM_TIMER_NOT_CPU_CYCLES'')) (\<lambda>_.
    ebind (item p ''status'') (\<lambda>st.
    need (in_tuple st [''NOT_REQUESTED'', ''UNSUPPORTED_TARGET'', ''PROBE_FAILED'', ''PROBE_INVALID'',
       ''PROBE_SUCCEEDED_TIMER_ONLY'']) ''bad timer probe status'' (
    ebind (int_item p ''error'' 0 (2 ^ 31 - 1)) (\<lambda>_.
    ebind (int_item p ''signal'' 0 255) (\<lambda>_.
    ebind (int_item p ''cntfrq_hz'' 0 U64) (\<lambda>hz.
    ebind (int_item p ''sysctl_tbfrequency_hz'' 0 U64) (\<lambda>sysctl_hz.
    ebind (int_item p ''sysctl_error'' 0 (2 ^ 31 - 1)) (\<lambda>sysctl_error.
    let virtual = (st = VStr ''PROBE_SUCCEEDED_TIMER_ONLY'') in
    ebind ((if virtual then (
       need (platform = ''Darwin'' \<and> 0 < hz) ''virtual timer not admitted'' (
       ebind (item p ''first'') (\<lambda>a.
       ebind (item p ''last'') (\<lambda>b.
       ebind (timer_pair a b hz scale) (\<lambda>ok.
       Inr (Some ok)))))) else Inr None)) (\<lambda>correlation.
    Inr \<lparr>pr_virtual = virtual, pr_hz = hz, pr_correlation = correlation, pr_sysctl_hz = sysctl_hz,
          pr_sysctl_error = sysctl_error\<rparr>)))))))))))"

section \<open>Workers\<close>

record tally =
  ta_sums :: "(rat \<times> rat) list"
  ta_valid :: "bool list"
  ta_statuses :: "string list"
  ta_ends :: "int list"
  ta_windows :: "int list"
  ta_threads :: "int list"
  ta_correlation :: "bool option"

definition worker_times :: "interval \<Rightarrow> nat \<Rightarrow> jvalue \<Rightarrow> (int \<times> int \<times> int) result" where
  "worker_times v i w = (
    ebind (eq_item w ''worker_id'' (VInt (int i))) (\<lambda>_.
    ebind (eq_item w ''counter_offset'' (VInt (int i * iv_stride v))) (\<lambda>_.
    ebind (int_item w ''final_counter_value'' 0 U64) (\<lambda>counter.
    need (counter = iv_iterations v) ''counter'' (
    ebind (int_item w ''start_tick'' 0 U64) (\<lambda>start.
    ebind (int_item w ''end_tick'' 0 U64) (\<lambda>finish.
    ebind (int_item w ''window_start_tick'' 0 U64) (\<lambda>window0.
    ebind (int_item w ''window_end_tick'' 0 U64) (\<lambda>window1.
    need (iv_t0 v \<le> window0 \<and> window0 \<le> start \<and> start \<le> finish \<and> finish \<le> window1) ''invalid time order'' (
    ebind (int_item w ''worker_delta_ticks'' 0 U64) (\<lambda>delta.
    need (delta = finish - start) ''delta'' (Inr (finish, window0, window1)))))))))))))"

definition worker_placement :: "string \<Rightarrow> jvalue \<Rightarrow> unit result" where
  "worker_placement platform w = (
    ebind (item w ''placement'') (\<lambda>place.
    ebind (int_item w ''requested_cpu'' (-1) 1023) (\<lambda>cpu.
    ebind (int_item w ''verified_cpu'' (-1) 1023) (\<lambda>verified.
    ebind (eq_item place ''requested_cpu'' (VInt cpu)) (\<lambda>_.
    ebind (eq_item place ''verified_cpu_before'' (VInt verified)) (\<lambda>_.
    ebind (item place ''darwin_affinity_tag'') (\<lambda>affinity.
    ebind (eq_item w ''affinity_tag'' affinity) (\<lambda>_.
    ebind (item place ''qos_request'') (\<lambda>qos.
    ebind (eq_item w ''qos'' qos) (\<lambda>_.
    ebind (eq_item place ''p_core_pinning'' (VStr ''NOT_ESTABLISHED'')) (\<lambda>_.
    if platform = ''Linux'' \<and> 0 \<le> cpu then (
       ebind (eq_item place ''affinity_enforced'' (VBool True)) (\<lambda>_.
       ebind (eq_item place ''affinity_error'' (VInt 0)) (\<lambda>_.
       need (verified = cpu) ''verified CPU'' (
       eq_item place ''verified_cpu_after'' (VInt cpu))))) else (
       ebind (eq_item place ''affinity_enforced'' (VBool False)) (\<lambda>_.
       need (verified = -1) ''unknown CPU'' (Inr ()))))))))))))))"

definition add_group :: "rat list option \<Rightarrow> (rat \<times> rat) \<times> bool \<Rightarrow> (rat \<times> rat) \<times> bool" where
  "add_group values s = (case (values, s) of
     (Some [a, b], ((x, y), ok)) \<Rightarrow> ((x + a, y + b), ok) | (_, (p, ok)) \<Rightarrow> (p, False))"

definition cpu_usage :: "interval \<Rightarrow> int \<Rightarrow> int \<Rightarrow> jvalue \<Rightarrow> unit result" where
  "cpu_usage v window0 window1 w = (
    ebind (item w ''cpu_before'') (\<lambda>x.
    ebind (cpu_snapshot x) (\<lambda>_.
    ebind (item w ''cpu_after'') (\<lambda>y.
    ebind (cpu_snapshot y) (\<lambda>_.
    ebind (int_item x ''error'' 0 U64) (\<lambda>ex.
    ebind (int_item y ''error'' 0 U64) (\<lambda>ey.
    ebind (int_item x ''user_us'' 0 U64) (\<lambda>ux.
    ebind (int_item y ''user_us'' 0 U64) (\<lambda>uy.
    ebind (int_item x ''system_us'' 0 U64) (\<lambda>sx.
    ebind (int_item y ''system_us'' 0 U64) (\<lambda>sy.
    need (ex = 0 \<and> ey = 0 \<longrightarrow> ux \<le> uy \<and> sx \<le> sy) ''thread CPU accounting decreased'' (
    ebind (item w ''cpu_utilization_percent'') (\<lambda>usage.
    optional_metric usage
       (if ex = 0 \<and> ey = 0 \<and> window0 < window1
        then Some (of_int ((uy - ux + sy - sx) * 100000) / (of_int (window1 - window0) * iv_scale v)) else None))))))))))))))"

definition worker_timer :: "interval \<Rightarrow> probe \<Rightarrow> jvalue \<Rightarrow> bool option \<Rightarrow> bool option result" where
  "worker_timer v p w correlation = (
    ebind (item w ''virtual_before'') (\<lambda>a.
    if pr_virtual p then (
       ebind (item w ''virtual_after'') (\<lambda>b.
       ebind (timer_pair a b (pr_hz p) (iv_scale v)) (\<lambda>ok.
       Inr (if ok then correlation else Some False)))) else (
       need (a = VNone) ''unadmitted timer'' (
       ebind (item w ''virtual_after'') (\<lambda>b.
       need (b = VNone) ''unadmitted timer'' (Inr correlation))))))"

definition cache_worker ::
    "interval \<Rightarrow> string \<Rightarrow> string \<Rightarrow> probe \<Rightarrow> tally \<Rightarrow> nat \<times> jvalue \<Rightarrow> tally result" where
  "cache_worker v platform mode p s iw = (case iw of (i, w) \<Rightarrow> (
    ebind (worker_times v i w) (\<lambda>(finish, window0, window1).
    ebind (worker_placement platform w) (\<lambda>_.
    ebind (item w ''pmc'') (\<lambda>pmc.
    ebind (verify_pmc pmc platform mode) (\<lambda>(counts, states).
    ebind (int_item pmc ''owner_thread_id'' 1 U64) (\<lambda>tid.
    need (tid \<notin> set (ta_threads s)) ''duplicate worker thread identity'' (
    let groups = map2 add_group counts (zip (ta_sums s) (ta_valid s)) in
    ebind (cpu_usage v window0 window1 w) (\<lambda>_.
    ebind (worker_timer v p w (ta_correlation s)) (\<lambda>correlation.
    Inr \<lparr>ta_sums = map fst groups, ta_valid = map snd groups, ta_statuses = ta_statuses s @ states,
          ta_ends = ta_ends s @ [finish], ta_windows = ta_windows s @ [window1],
          ta_threads = ta_threads s @ [tid], ta_correlation = correlation\<rparr>))))))))))"

definition cache_workers :: "jvalue \<Rightarrow> interval \<Rightarrow> string \<Rightarrow> string \<Rightarrow> probe \<Rightarrow> tally result" where
  "cache_workers d v platform mode p = (
    ebind (item d ''per_worker'') (\<lambda>ws.
    ebind ((case ws of VList xs \<Rightarrow> Inr xs | _ \<Rightarrow> Inl (ValueError ''missing/extra workers''))) (\<lambda>workers.
    need (int (length workers) = iv_workers v) ''missing/extra workers'' (
    ebind (efold (cache_worker v platform mode p)
       \<lparr>ta_sums = replicate 3 (0, 0), ta_valid = replicate 3 True, ta_statuses = [], ta_ends = [], ta_windows = [],
        ta_threads = [], ta_correlation = pr_correlation p\<rparr> (zip [0..<length workers] workers)) (\<lambda>s.
    need (iv_end v = Max (set (ta_ends s))) ''end != maximum worker completion'' (Inr s))))))"

section \<open>Metrics and the whole record\<close>

definition overall_pmc :: "string \<Rightarrow> string list \<Rightarrow> string" where
  "overall_pmc mode statuses =
     (let measured = length (filter (\<lambda>s. s \<in> set MEASURED) statuses)
      in if mode = ''off'' then ''NOT_REQUESTED''
         else if measured = length statuses then ''COLLECTED''
         else if measured \<noteq> 0 then ''PARTIAL''
         else if length (remdups statuses) = 1 then statuses ! 0 else ''UNAVAILABLE_MIXED'')"

definition ratio :: "bool \<Rightarrow> rat \<times> rat \<Rightarrow> rat option" where
  "ratio ok s = (if ok \<and> fst s \<noteq> 0 then Some (snd s / fst s) else None)"

definition cache_metrics :: "jvalue \<Rightarrow> interval \<Rightarrow> string \<Rightarrow> tally \<Rightarrow> string result" where
  "cache_metrics d v mode s = (
    let wanted = overall_pmc mode (ta_statuses s) in
    ebind (eq_item d ''pmc_status'' (VStr wanted)) (\<lambda>_.
    ebind (item d ''metrics'') (\<lambda>m.
    ebind (item m ''instructions_per_cycle'') (\<lambda>ipc.
    ebind (optional_metric ipc (ratio (ta_valid s ! 0) (ta_sums s ! 0))) (\<lambda>_.
    ebind (eall (\<lambda>(g, label).
         ebind (item m (label @ ''_read_misses_per_million_rmw'')) (\<lambda>x.
         ebind (optional_metric x (if ta_valid s ! g
             then Some (snd (ta_sums s ! g) * 1000000 / of_int (iv_operations v)) else None)) (\<lambda>_.
         ebind (item m (label @ ''_read_miss_fraction'')) (\<lambda>y.
         optional_metric y (ratio (ta_valid s ! g) (ta_sums s ! g))))))
       [(1, ''l1d''), (2, ''llc'')]) (\<lambda>_.
    ebind (item m ''coherence_invalidations'') (\<lambda>c.
    need (c = VNone) ''generic LLC miss count is not invalidation traffic'' (
    ebind (eq_item m ''coherence_status'' (VStr ''UNSUPPORTED_GENERIC_EVENT'')) (\<lambda>_.
    ebind (eq_item m ''causal_attribution'' (VStr ''NOT_ESTABLISHED'')) (\<lambda>_.
    Inr wanted))))))))))"

definition cache_envelope :: "jvalue \<Rightarrow> interval \<Rightarrow> string \<Rightarrow> tally \<Rightarrow> rat option result" where
  "cache_envelope d v platform s = (
    ebind (item d ''process_envelope'') (\<lambda>en.
    ebind (int_item en ''start_tick'' 0 U64) (\<lambda>start.
    need (start \<le> iv_t0 v) ''bad process envelope'' (
    ebind (int_item en ''end_tick'' 0 U64) (\<lambda>finish.
    need (Max (set (ta_windows s)) \<le> finish) ''bad process envelope'' (
    ebind (item en ''cpu_before'') (\<lambda>cpu0.
    ebind (cpu_snapshot cpu0) (\<lambda>_.
    ebind (item en ''cpu_after'') (\<lambda>cpu1.
    ebind (cpu_snapshot cpu1) (\<lambda>_.
    ebind (emap (\<lambda>k. ebind (item en k) (\<lambda>x. emap (\<lambda>f. int_item x f 0 U64) [''error'', ''cycles'', ''instructions'']))
       [''os_accounted_before'', ''os_accounted_after'']) (\<lambda>counts.
    let prior = counts ! 0 in
    let later = counts ! 1 in
    ebind ((if prior ! 0 = 0 \<and> later ! 0 = 0 then (
       need (platform = ''Darwin'') ''unimplemented process-PMC backend claimed available'' (
       need (prior ! 1 \<le> later ! 1 \<and> prior ! 2 \<le> later ! 2) ''OS-accounted process counts decreased'' (
       if later ! 1 - prior ! 1 \<noteq> 0
         then ebind (to_float (of_int (later ! 2 - prior ! 2) / of_int (later ! 1 - prior ! 1))) (\<lambda>r. Inr (Some r))
         else Inr None))) else Inr None)) (\<lambda>ipc.
    ebind (int_item cpu0 ''error'' 0 U64) (\<lambda>e0.
    ebind (int_item cpu1 ''error'' 0 U64) (\<lambda>e1.
    ebind (int_item cpu0 ''user_us'' 0 U64) (\<lambda>u0.
    ebind (int_item cpu1 ''user_us'' 0 U64) (\<lambda>u1.
    ebind (int_item cpu0 ''system_us'' 0 U64) (\<lambda>s0.
    ebind (int_item cpu1 ''system_us'' 0 U64) (\<lambda>s1.
    need (e0 = 0 \<and> e1 = 0 \<longrightarrow> u0 \<le> u1 \<and> s0 \<le> s1) ''process CPU accounting decreased'' (Inr ipc)))))))))))))))))))"

record cache_report =
  cr_trial :: int
  cr_stride :: int
  cr_workers :: int
  cr_operations :: int
  cr_elapsed_ns :: rat
  cr_rate :: rat
  cr_pmc_status :: string
  cr_correlation :: "bool option"
  cr_process_ipc :: "rat option"
  cr_sysctl_matches :: "bool option"
  cr_binary_checked :: bool
  cr_source_checked :: bool

definition cache_record ::
    "sha256 \<Rightarrow> (int \<times> string) option \<Rightarrow> source_tree option \<Rightarrow> jvalue \<Rightarrow> cache_report result" where
  "cache_record sha binary tree d = (
    ebind (cache_interval d) (\<lambda>v.
    ebind (cache_clock d v) (\<lambda>platform.
    ebind (pmc_mode d) (\<lambda>mode.
    ebind (cache_binary sha binary d) (\<lambda>_.
    ebind (cache_build sha tree d) (\<lambda>_.
    ebind (cache_probe d platform (iv_scale v)) (\<lambda>p.
    ebind (cache_workers d v platform mode p) (\<lambda>s.
    ebind (cache_metrics d v mode s) (\<lambda>status.
    ebind (cache_envelope d v platform s) (\<lambda>ipc.
    ebind (to_float (iv_elapsed v)) (\<lambda>elapsed.
    ebind (to_float (of_int (iv_operations v * 10 ^ 9) / iv_elapsed v)) (\<lambda>rate.
    Inr \<lparr>cr_trial = iv_trial v, cr_stride = iv_stride v, cr_workers = iv_workers v,
          cr_operations = iv_operations v, cr_elapsed_ns = elapsed, cr_rate = rate, cr_pmc_status = status,
          cr_correlation = ta_correlation s, cr_process_ipc = ipc,
          cr_sysctl_matches = (if pr_virtual p \<and> pr_sysctl_error p = 0 then Some (pr_sysctl_hz p = pr_hz p) else None),
          cr_binary_checked = (binary \<noteq> None), cr_source_checked = (tree \<noteq> None)\<rparr>))))))))))))"

section \<open>Receipts on disk\<close>

text \<open>A receipt file: whether it is a regular file, its size and what the JSON scanner makes of it. A path
  is one receipt, or a directory with its campaign document and its record files in the order of their
  names.\<close>

record receipt_file =
  rf_is_file :: bool
  rf_size :: int
  rf_scanned :: "jtext result"

datatype cache_target = Receipt receipt_file | Campaign receipt_file "receipt_file list"

definition cache_load :: "receipt_file \<Rightarrow> jvalue result" where
  "cache_load f = (
    need (rf_is_file f \<and> rf_size f \<le> 8 * 1024 * 1024) ''missing or oversized receipt'' (
    ebind (rf_scanned f) (\<lambda>j.
    loads j)))"

definition below :: "jvalue \<Rightarrow> int \<Rightarrow> bool result" where
  "below v n = ebind (number v) (\<lambda>x. Inr (case x of Fin q \<Rightarrow> q < of_int n | NegInf \<Rightarrow> True | PosInf \<Rightarrow> False))"

definition campaign_record ::
    "sha256 \<Rightarrow> (int \<times> string) option \<Rightarrow> source_tree option \<Rightarrow> jvalue \<Rightarrow> int
     \<Rightarrow> (int \<times> int) list \<times> cache_report list \<Rightarrow> receipt_file \<Rightarrow> ((int \<times> int) list \<times> cache_report list) result" where
  "campaign_record sha binary tree campaign trials acc f = (case acc of (seen, summaries) \<Rightarrow> (
    ebind (cache_load f) (\<lambda>d.
    ebind (eall (\<lambda>k. ebind (item campaign k) (\<lambda>w. eq_item d k w)) [''workers'', ''iterations_per_worker'', ''pmc_mode'']) (\<lambda>_.
    ebind (item d ''binary'') (\<lambda>b.
    ebind (item campaign ''binary_sha256'') (\<lambda>h.
    ebind (eq_item b ''sha256'' h) (\<lambda>_.
    ebind (item d ''trial'') (\<lambda>trial.
    ebind (item d ''counter_stride'') (\<lambda>stride.
    ebind (hashable trial) (\<lambda>_.
    ebind (hashable stride) (\<lambda>_.
    need (\<not> list_ex (\<lambda>(i, j). py_eq trial (VInt i) \<and> py_eq stride (VInt j)) seen) ''duplicate or unexpected trial'' (
    ebind (below trial trials) (\<lambda>low.
    need low ''duplicate or unexpected trial'' (
    ebind (cache_record sha binary tree d) (\<lambda>r.
    Inr (seen @ [(cr_trial r, cr_stride r)], summaries @ [r]))))))))))))))))"

definition cache_path ::
    "sha256 \<Rightarrow> (int \<times> string) option \<Rightarrow> source_tree option \<Rightarrow> cache_target \<Rightarrow> cache_report list result" where
  "cache_path sha binary tree target = (case target of
     Receipt f \<Rightarrow> ebind (cache_load f) (\<lambda>d. ebind (cache_record sha binary tree d) (\<lambda>r. Inr [r]))
   | Campaign c records \<Rightarrow> (
     ebind (cache_load c) (\<lambda>campaign.
     ebind (eq_item campaign ''schema'' (VStr ''elite-cache-campaign-v2'')) (\<lambda>_.
     ebind (eq_item campaign ''status'' (VStr ''COMPLETE'')) (\<lambda>_.
     ebind (int_item campaign ''trials'' 1 100) (\<lambda>trials.
     ebind (eq_item campaign ''expected_records'' (VInt (2 * trials))) (\<lambda>_.
     need (int (length records) = 2 * trials) ''missing/extra cache records'' (
     ebind (efold (campaign_record sha binary tree campaign trials) ([], []) records) (\<lambda>(seen, summaries).
     need (set seen = set [(i, s). i \<leftarrow> [0..trials - 1], s \<leftarrow> [8, 128]]) ''incomplete paired population''
         (Inr summaries))))))))))"

end
