(* ===== verification/Cache_Claims.thy ===== *)
theory Cache_Claims
  imports Cache_Record
begin

text \<open>
  What an accepted hardware counter group establishes: an estimate is published only for a group that
  ran, it is the difference of its counter between the two raw reads, scaled by enabled over running time,
  and the status says how it ran.
\<close>

text \<open>The value a raw group read \<open>[nr, enabled, running, value, id, value, id]\<close> has for a counter.\<close>

definition reading :: "int list \<Rightarrow> int \<Rightarrow> int option" where
  "reading xs ident = map_of [(xs ! 4, xs ! 3), (xs ! 6, xs ! 5)] ident"

text \<open>
  What is published for event \<open>e\<close> of a group with the raw reads \<open>xs\<close> before and \<open>ys\<close> after: the recorded
  raw delta is the value its counter has after, minus the value it has before, and \<open>q\<close> is that delta
  scaled by enabled over running time; the recorded estimate is a number within one ulp of \<open>q\<close>.
\<close>

definition published_count :: "int list \<Rightarrow> int list \<Rightarrow> jvalue \<Rightarrow> rat \<Rightarrow> bool" where
  "published_count xs ys e q \<longleftrightarrow> (\<exists>ident a b est. item e ''id'' = Inr (VInt ident) \<and> reading ys ident = Some a
     \<and> reading xs ident = Some b \<and> b \<le> a \<and> item e ''raw_delta'' = Inr (VInt (a - b))
     \<and> q = of_int (a - b) * of_int (ys ! 1 - xs ! 1) / of_int (ys ! 2 - xs ! 2)
     \<and> item e ''scaled_estimate'' = Inr est \<and> floating est q = Inr ())"

lemma int_item_ok: "int_item d k lo hi = Inr i \<longleftrightarrow> item d k = Inr (VInt i) \<and> lo \<le> i \<and> i \<le> hi"
  by (auto simp: int_item_def ebind_ok integer_ok)

lemma counter_frame_ok:
  assumes "counter_frame v ids = Inr f"
  shows "\<exists>xs. v = VList (map VInt xs) \<and> length xs = 7 \<and> 0 \<le> xs ! 2 \<and> fr_enabled f = xs ! 1 \<and> fr_running f = xs ! 2
    \<and> map_of (fr_counts f) = reading xs"
proof -
  from assms obtain vs xs where v: "is_list v" "iter v = Inr vs" "length vs = 7" "emap (\<lambda>x. integer x 0 U64) vs = Inr xs"
    "f = \<lparr>fr_enabled = xs ! 1, fr_running = xs ! 2, fr_counts = [(xs ! 4, xs ! 3), (xs ! 6, xs ! 5)]\<rparr>"
    by (auto simp: counter_frame_def ebind_ok need_ok)
  have n: "length vs = length xs" "\<forall>i<length xs. vs ! i = VInt (xs ! i) \<and> 0 \<le> xs ! i"
    using v(4) by (auto simp: emap_ok list_all2_conv_all_nth integer_ok)
  then have "vs = map VInt xs" by (simp add: list_eq_iff_nth_eq)
  moreover have "v = VList vs" using v(1,2) by (cases v) auto
  ultimately show ?thesis using v(3,5) n by (intro exI [of _ xs]) (auto simp: reading_def fun_eq_iff)
qed

lemma pmc_count_ok:
  assumes "pmc_count prior later te tr (e, ident) = Inr q" "tr \<noteq> 0"
  shows "\<exists>a b est. map_of (fr_counts later) ident = Some a \<and> map_of (fr_counts prior) ident = Some b \<and> b \<le> a
    \<and> item e ''raw_delta'' = Inr (VInt (a - b)) \<and> q = Some (of_int (a - b) * of_int te / of_int tr)
    \<and> item e ''scaled_estimate'' = Inr est \<and> floating est (the q) = Inr ()"
  using assms by (auto simp: pmc_count_def Let_def need_ok ebind_ok int_item_ok split: option.splits)

lemma pmc_measured_inversion:
  assumes "pmc_measured platform s err g events te tr = Inr out"
  obtains b a prior later counts where "platform = ''Linux''" "err = 0" "tr \<le> te" "s = scheduling_status te tr"
    "item g ''before'' = Inr b" "counter_frame b (map snd events) = Inr prior"
    "item g ''after'' = Inr a" "counter_frame a (map snd events) = Inr later"
    "fr_running prior \<le> fr_running later" "te = fr_enabled later - fr_enabled prior" "tr = fr_running later - fr_running prior"
    "emap (pmc_count prior later te tr) events = Inr counts" "out = (if tr = 0 then None else Some (map the counts))"
  using assms by (auto simp: pmc_measured_def Let_def ebind_ok need_ok)

lemma pmc_measured_sound:
  assumes "pmc_measured platform s err g events te tr = Inr out" "list_all (\<lambda>(e, k). item e ''id'' = Inr (VInt k)) events"
  shows "platform = ''Linux'' \<and> tr \<le> te \<and> s = scheduling_status te tr \<and> (out = None \<longleftrightarrow> tr = 0)
    \<and> (\<exists>xs ys. item g ''before'' = Inr (VList (map VInt xs)) \<and> length xs = 7
         \<and> item g ''after'' = Inr (VList (map VInt ys)) \<and> length ys = 7
         \<and> te = ys ! 1 - xs ! 1 \<and> tr = ys ! 2 - xs ! 2 \<and> 0 \<le> tr
         \<and> (\<forall>qs. out = Some qs \<longrightarrow> list_all2 (published_count xs ys) (map fst events) qs))"
proof -
  from assms(1) obtain b a prior later counts where m: "platform = ''Linux''" "err = 0" "tr \<le> te" "s = scheduling_status te tr"
    "item g ''before'' = Inr b" "counter_frame b (map snd events) = Inr prior"
    "item g ''after'' = Inr a" "counter_frame a (map snd events) = Inr later"
    "fr_running prior \<le> fr_running later" "te = fr_enabled later - fr_enabled prior" "tr = fr_running later - fr_running prior"
    "emap (pmc_count prior later te tr) events = Inr counts" "out = (if tr = 0 then None else Some (map the counts))"
    by (rule pmc_measured_inversion)
  obtain xs where x: "b = VList (map VInt xs)" "length xs = 7" "fr_enabled prior = xs ! 1" "fr_running prior = xs ! 2"
    "map_of (fr_counts prior) = reading xs" using counter_frame_ok [OF m(6)] by blast
  obtain ys where y: "a = VList (map VInt ys)" "length ys = 7" "fr_enabled later = ys ! 1" "fr_running later = ys ! 2"
    "map_of (fr_counts later) = reading ys" using counter_frame_ok [OF m(8)] by blast
  have "list_all2 (published_count xs ys) (map fst events) (map the counts)" if "tr \<noteq> 0"
  proof -
    have n: "length events = length counts"
      "\<forall>i<length counts. pmc_count prior later te tr (events ! i) = Inr (counts ! i)"
      using m(12) unfolding emap_ok list_all2_conv_all_nth by auto
    have "published_count xs ys (fst (events ! i)) (the (counts ! i))" if i: "i < length counts" for i
    proof -
      obtain e k where e: "events ! i = (e, k)" by (cases "events ! i")
      have "item e ''id'' = Inr (VInt k)" using assms(2) i n(1) e by (auto simp: list_all_length)
      moreover note pmc_count_ok [OF n(2) [rule_format, OF i, unfolded e] \<open>tr \<noteq> 0\<close>, unfolded x(5) y(5)]
      ultimately show ?thesis using m(10,11) x(3,4) y(3,4) unfolding published_count_def e fst_conv by fastforce
    qed
    with n(1) show ?thesis by (simp add: list_all2_conv_all_nth)
  qed
  then show ?thesis using m(1,3-5,7,9-11,13) x y by (intro conjI exI [of _ xs] exI [of _ ys]) auto
qed

lemma pmc_group_inversion:
  assumes "pmc_group platform mode paranoid (i, g) = Inr (out, s)"
  obtains err events ids te tr where "s \<in> set (MEASURED @ UNAVAILABLE)" "mode = ''off'' \<longrightarrow> s = ''NOT_REQUESTED''"
    "mode \<noteq> ''off'' \<longrightarrow> s \<noteq> ''NOT_REQUESTED''" "item g ''events'' = Inr (VList events)" "length events = 2" "length ids = 2"
    "list_all (\<lambda>(e, k). item e ''id'' = Inr (VInt k)) (zip events ids)"
    "item g ''time_enabled_ns'' = Inr (VInt te)" "item g ''time_running_ns'' = Inr (VInt tr)"
    "if s \<in> set (MEASURED @ [''NEVER_SCHEDULED'']) then pmc_measured platform s err g (zip events ids) te tr = Inr out
     else out = None"
proof -
  from assms obtain st err evs events ids te tr where g: "item g ''status'' = Inr st"
    "in_set_of st (MEASURED @ UNAVAILABLE) = Inr True" "st = VStr s"
    "if mode = ''off'' then s = ''NOT_REQUESTED'' else s \<noteq> ''NOT_REQUESTED''" "length events = 2"
    "emap (pmc_event platform i) (zip [0..<2] events) = Inr ids" "item g ''events'' = Inr (VList events)"
    "item g ''time_enabled_ns'' = Inr (VInt te)" "item g ''time_running_ns'' = Inr (VInt tr)"
    "(if s \<in> set (MEASURED @ [''NEVER_SCHEDULED'']) then pmc_measured platform s err g (zip events ids) te tr
      else pmc_unmeasured s g events te tr) = Inr out"
    by (auto simp: pmc_group_def ebind_ok need_ok case_str_ok case_list_ok int_item_ok)
  have n: "length ids = 2" using emap_length [OF g(6)] g(5) by simp
  have "item (events ! j) ''id'' = Inr (VInt (ids ! j))" if "j < 2" for j
    using g(6) that n g(5) by (auto simp: emap_ok list_all2_conv_all_nth pmc_event_def ebind_ok int_item_ok)
  then have "list_all (\<lambda>(e, k). item e ''id'' = Inr (VInt k)) (zip events ids)" using n g(5) by (simp add: list_all_length)
  moreover have "s \<in> set (MEASURED @ UNAVAILABLE)" using g(2,3) by simp
  moreover have "if s \<in> set (MEASURED @ [''NEVER_SCHEDULED'']) then pmc_measured platform s err g (zip events ids) te tr = Inr out
     else out = None"
    using g(10) by (auto simp: pmc_unmeasured_def ebind_ok need_ok split: if_splits)
  ultimately show ?thesis using that g(4,5,7-9) n by (auto split: if_splits)
qed

text \<open>C33: An accepted counter group publishes estimates exactly when its status says it was measured. Then
  it was read on Linux; the recorded enabled and running times are the differences of the two raw reads
  of the group, it ran for a positive part of the enabled time and is \<open>OK\<close> exactly when it ran all the
  time; and for each of the two events the raw delta is the difference of its counter between the two
  reads, the published count is that delta scaled by enabled over running time, and the recorded
  estimate is within one ulp of it. With counting off the group is \<open>NOT_REQUESTED\<close>, and only then.\<close>

theorem pmc_group_sound:
  assumes "pmc_group platform mode paranoid (i, g) = Inr (out, s)"
  shows "(mode = ''off'') = (s = ''NOT_REQUESTED'')
    \<and> (out \<noteq> None) = (s \<in> set MEASURED)
    \<and> (\<forall>qs. out = Some qs \<longrightarrow> platform = ''Linux'' \<and> length qs = 2
         \<and> (\<exists>xs ys events te tr. item g ''before'' = Inr (VList (map VInt xs)) \<and> length xs = 7
              \<and> item g ''after'' = Inr (VList (map VInt ys)) \<and> length ys = 7
              \<and> item g ''time_enabled_ns'' = Inr (VInt te) \<and> item g ''time_running_ns'' = Inr (VInt tr)
              \<and> te = ys ! 1 - xs ! 1 \<and> tr = ys ! 2 - xs ! 2 \<and> 0 < tr \<and> tr \<le> te \<and> (s = ''OK'') = (tr = te)
              \<and> item g ''events'' = Inr (VList events) \<and> list_all2 (published_count xs ys) events qs))"
proof -
  from assms obtain err events ids te tr where g: "s \<in> set (MEASURED @ UNAVAILABLE)" "mode = ''off'' \<longrightarrow> s = ''NOT_REQUESTED''"
    "mode \<noteq> ''off'' \<longrightarrow> s \<noteq> ''NOT_REQUESTED''" "item g ''events'' = Inr (VList events)" "length events = 2" "length ids = 2"
    "list_all (\<lambda>(e, k). item e ''id'' = Inr (VInt k)) (zip events ids)"
    "item g ''time_enabled_ns'' = Inr (VInt te)" "item g ''time_running_ns'' = Inr (VInt tr)"
    "if s \<in> set (MEASURED @ [''NEVER_SCHEDULED'']) then pmc_measured platform s err g (zip events ids) te tr = Inr out
     else out = None"
    by (rule pmc_group_inversion)
  show ?thesis
  proof (cases "s \<in> set (MEASURED @ [''NEVER_SCHEDULED''])")
    case True
    with g(10) have "pmc_measured platform s err g (zip events ids) te tr = Inr out" by simp
    from pmc_measured_sound [OF this g(7)] obtain xs ys where m: "platform = ''Linux''" "tr \<le> te" "s = scheduling_status te tr"
      "out = None \<longleftrightarrow> tr = 0" "item g ''before'' = Inr (VList (map VInt xs))" "length xs = 7"
      "item g ''after'' = Inr (VList (map VInt ys))" "length ys = 7" "te = ys ! 1 - xs ! 1" "tr = ys ! 2 - xs ! 2" "0 \<le> tr"
      "\<forall>qs. out = Some qs \<longrightarrow> list_all2 (published_count xs ys) (map fst (zip events ids)) qs" by blast
    have ev: "map fst (zip events ids) = events" using g(5,6) by simp
    have "(mode = ''off'') = (s = ''NOT_REQUESTED'')" "(out \<noteq> None) = (s \<in> set MEASURED)" "tr \<noteq> 0 \<Longrightarrow> (s = ''OK'') = (tr = te)"
      using g(2,3) m(2-4) by (auto simp: scheduling_status_def MEASURED_def)
    moreover have "length qs = 2 \<and> 0 < tr \<and> list_all2 (published_count xs ys) events qs" if "out = Some qs" for qs
      using m(4,11,12) that g(5) unfolding ev by (auto dest: list_all2_lengthD)
    ultimately show ?thesis using m g(4,8,9) by blast
  next
    case False
    with g show ?thesis by (auto simp: MEASURED_def)
  qed
qed

definition demo_group :: jvalue where
  "demo_group = VDict [(''group_id'', VInt 0), (''status'', VStr ''MULTIPLEXED''), (''os_error'', VInt 0),
     (''events'', VList [
        VDict [(''name'', VStr ''cpu_cycles''), (''type'', VInt 0), (''config'', VInt 0), (''id'', VInt 7),
               (''raw_delta'', VInt 10), (''scaled_estimate'', VInt 20)],
        VDict [(''name'', VStr ''instructions''), (''type'', VInt 0), (''config'', VInt 1), (''id'', VInt 8),
               (''raw_delta'', VInt 30), (''scaled_estimate'', VInt 60)]]),
     (''time_enabled_ns'', VInt 100), (''time_running_ns'', VInt 50),
     (''before'', VList [VInt 2, VInt 0, VInt 0, VInt 5, VInt 7, VInt 5, VInt 8]),
     (''after'', VList [VInt 2, VInt 100, VInt 50, VInt 15, VInt 7, VInt 35, VInt 8])]"

lemma floating_exact:
  assumes "\<bar>i\<bar> < 2 ^ 53"
  shows "floating (VInt i) (of_int i) = Inr ()"
  using less_imp_le [OF ulp_pos, of "of_int i"] by (simp add: floating_def representable_def to_float_of_int [OF assms])

theorem pmc_group_sound_witness:
  "\<exists>s. pmc_group ''Linux'' ''count'' VNone (0, demo_group) = Inr (Some [20, 60], s) \<and> s \<in> set MEASURED
    \<and> (\<exists>xs ys events. item demo_group ''before'' = Inr (VList (map VInt xs)) \<and> item demo_group ''after'' = Inr (VList (map VInt ys))
      \<and> item demo_group ''events'' = Inr (VList events) \<and> list_all2 (published_count xs ys) events [20, 60])"
proof -
  have f: "floating (VInt 20) 20 = Inr ()" "floating (VInt 60) 60 = Inr ()"
    using floating_exact [of 20] floating_exact [of 60] by simp_all
  have r: "pmc_group ''Linux'' ''count'' VNone (0, demo_group) = Inr (Some [20, 60], ''MULTIPLEXED'')"
    by (simp add: pmc_group_def demo_group_def eq_item_def eq_typed_def int_item_def MEASURED_def UNAVAILABLE_def
      pmc_failure_evidence_def pmc_event_def EVENTS_def CONFIGS_def upt_rec pmc_measured_def counter_frame_def
      scheduling_status_def pmc_count_def need_def f insert_commute)
  with pmc_group_sound [OF r] show ?thesis by blast
qed

end
