(* ===== verification/Chaos.thy ===== *)
theory Chaos
  imports Paths "HOL-Library.Product_Lexorder"
begin

text \<open>
  The primitives of \<open>tools/verify_chaos_results.py\<close>: scenarios, wait statuses of the two platforms,
  the immutable header prefix, the membership of a queue in a snapshot, and the resource receipt.
  CRC-32 is a parameter. Messages with an interpolated value leave the value out.
\<close>

unbundle bit_operations_syntax

definition HOOKS :: "(string \<times> int) list" where
  "HOOKS = [(''write_claim'', 1), (''write_reserved'', 2), (''write_committed'', 3),
     (''write_published'', 5), (''read_claim'', 6), (''read_returning'', 7),
     (''read_returned'', 8), (''late_publication'', 4)]"

definition CALLER :: "(string \<times> int) list" where
  "CALLER = [(''write_partial'', 100), (''read_held'', 101), (''resume_write'', 100), (''resume_read'', 101),
     (''async_resume_write'', 100)]"

definition SCENARIOS :: "string list" where
  "SCENARIOS = keys HOOKS @ keys CALLER @ [''storm'', ''storm_restart'', ''random_abort_kill'']"

definition wait_abi :: "jvalue \<Rightarrow> string result" where
  "wait_abi plan = (
    ebind (dget plan ''wait_status_abi'' (VStr ''legacy-linux-v1'')) (\<lambda>abi.
    need (in_tuple abi [''linux'', ''darwin'', ''legacy-linux-v1'']) ''unknown wait-status ABI'' (
    Inr (if abi = VStr ''darwin'' then ''darwin'' else ''linux''))))"

definition wait_status :: "jvalue \<Rightarrow> string \<Rightarrow> (string \<times> int option) result" where
  "wait_status status abi = (
    ebind (integer status 0 65535) (\<lambda>st.
    need (abi = ''linux'' \<or> abi = ''darwin'') ''unknown wait-status ABI'' (
    let low = st AND 0x7F in
    let high = drop_bit 8 st in
    if abi = ''linux'' \<and> st = 0xFFFF \<or> abi = ''darwin'' \<and> low = 0x7F \<and> high = 0x13
     then Inr (''continued'', None)
     else if low = 0 then Inr (''exited'', Some high)
     else if low = 0x7F
     then need (0 < high \<and> high < 128) ''invalid stop signal'' (Inr (''stopped'', Some high))
     else Inr (''signaled'', Some low))))"

text \<open>The header prefix of a generation or snapshot: its 512 bytes and the stored checksum.\<close>

definition prefix_bytes :: "jvalue \<Rightarrow> int list result" where
  "prefix_bytes record = (
    ebind (item record ''immutable_prefix_hex'') (\<lambda>v.
    ebind ((case v of VStr s \<Rightarrow> Inr s | _ \<Rightarrow> Inl (ValueError ''bad header evidence''))) (\<lambda>s.
    need (length s = 1024 \<and> all_hex s) ''bad header evidence'' (
    hex_bytes s))))"

definition header_prefix :: "(int list \<Rightarrow> int) \<Rightarrow> jvalue \<Rightarrow> (int list \<times> int) result" where
  "header_prefix crc32 record = (
    ebind (prefix_bytes record) (\<lambda>b.
    need (take 8 b = map of_char ''ELITEIPC'') ''bad magic'' (
    need (le_int (slice b 8 12) = 0x10000) ''wrong wire ABI'' (
    let crc = le_int (slice b 52 56) in
    need (crc32 (take 52 b @ replicate 4 0 @ drop 56 b) = crc) ''immutable header CRC'' (
    need (le_int (slice b 64 72) = 64) ''capacity/header mismatch'' (
    need (le_int (slice b 32 36) = 128) ''isolation/header mismatch'' (Inr (b, crc))))))))"

text \<open>The live tokens of a queue: one per ticket from \<open>head\<close> to the publication frontier.\<close>

definition queue_token :: "int list \<Rightarrow> int \<Rightarrow> int \<Rightarrow> int result" where
  "queue_token entries n ticket =
     (let entry = entries ! nat (ticket mod n)
      in need (entry div n = ticket div n) ''wrong live cycle'' (Inr (entry mod n)))"

definition queue_members :: "jvalue \<Rightarrow> jvalue \<Rightarrow> jvalue \<Rightarrow> int \<Rightarrow> (int list \<times> int) result" where
  "queue_members hd_v tl_v ent_v n = (
    ebind (integer hd_v 0 (U64 - n - 1)) (\<lambda>head.
    ebind (integer tl_v 0 (U64 - n - 1)) (\<lambda>tail.
    ebind ((case ent_v of VList xs \<Rightarrow> Inr xs | _ \<Rightarrow> Inl (ValueError ''entry count''))) (\<lambda>xs.
    need (int (length xs) = n) ''entry count'' (
    ebind (emap (\<lambda>x. integer x 0 U64) xs) (\<lambda>entries.
    let frontier = tail + of_bool (entries ! nat (tail mod n) div n = tail div n) in
    need (head \<le> frontier \<and> frontier - head \<le> n \<and> frontier - 1 \<le> tail \<and> tail \<le> frontier)
       ''NCQ publication frontier'' (
    ebind (emap (queue_token entries n) [head..frontier - 1]) (\<lambda>members.
    need (distinct members) ''duplicate queue token'' (Inr (members, frontier))))))))))"

definition resource_contract :: jdict where
  "resource_contract = [(''schema'', VStr ''elite-chaos-resource-v1''),
     (''scope'', VStr ''single_process_authority_and_live_lease_negative''), (''objects'', VInt 4),
     (''quarantines'', VInt 2), (''third_quarantine_status'', VInt 4), (''fifth_create_status'', VInt 4),
     (''premature_authority_destroy_status'', VInt 4), (''retained_bytes_unchanged'', VBool True),
     (''cleanup_complete'', VBool True)]"

definition verify_resource :: "jvalue \<Rightarrow> jvalue result" where
  "verify_resource record = (
    need (py_eq record (VDict resource_contract)) ''resource negative contract'' (
    ebind (item record ''retained_bytes_unchanged'') (\<lambda>unchanged.
    need (unchanged = VBool True) ''resource boolean fields'' (
    ebind (item record ''cleanup_complete'') (\<lambda>complete.
    need (complete = VBool True) ''resource boolean fields'' (
    ebind (eall (\<lambda>k. ebind (item record k) (\<lambda>v. integer v 0 U64))
       [''objects'', ''quarantines'', ''third_quarantine_status'', ''fifth_create_status'',
        ''premature_authority_destroy_status'']) (\<lambda>_.
    ebind (item record ''scope'') (\<lambda>scope.
    Inr (VDict [(''resource_negative'', VStr ''PASS_WITHIN_SCOPE''), (''scope'', scope)])))))))))"

section \<open>Campaigns\<close>

record chaos_case =
  case_id :: string
  case_kind :: string
  case_binary :: string
  case_args :: "string list"

definition base_configs :: "int \<Rightarrow> int \<Rightarrow> (string \<times> string \<times> int \<times> int \<times> string \<times> int) list" where
  "base_configs messages storm_messages =
     [(s, ''ncq'', 1, 1, ''chaos_multiprocess_hooks'', messages). s \<leftarrow> keys HOOKS]
     @ concat [(if s = ''async_resume_write''
                then (if m = ''ncq'' then [(s, m, 1, 1, ''chaos_multiprocess'', 1000000)] else [])
                else [(s, m, 1, 1, ''chaos_multiprocess'', messages)]).
          m \<leftarrow> [''ncq'', ''spsc''], s \<leftarrow> keys CALLER]
     @ [(''random_abort_kill'', ''ncq'', 1, 1, ''chaos_multiprocess'', messages)]
     @ [(s, m, p, c, ''chaos_multiprocess'', storm_messages). s \<leftarrow> [''storm'', ''storm_restart''],
          (m, p, c) \<leftarrow> [(''spsc'', 1, 1), (''ncq'', 1, 1), (''ncq'', 4, 4), (''ncq'', 16, 1), (''ncq'', 1, 16),
                     (''ncq'', 16, 16)]]"

definition smoke_config :: "string \<times> string \<times> int \<times> int \<times> string \<times> int \<Rightarrow> bool" where
  "smoke_config cfg = (case cfg of (s, m, p, c, _) \<Rightarrow>
     s \<in> set [''write_claim'', ''read_claim'', ''resume_write'', ''resume_read'', ''late_publication'', ''random_abort_kill'']
     \<or> (s, m, p, c) = (''storm'', ''ncq'', 4, 4))"

definition data_case :: "nat \<Rightarrow> string \<times> string \<times> int \<times> int \<times> string \<times> int \<Rightarrow> chaos_case" where
  "data_case trial cfg = (case cfg of (s, m, p, c, binary, count) \<Rightarrow>
     \<lparr>case_id = s @ ''_'' @ m @ ''_'' @ show_int p @ ''p'' @ show_int c @ ''c_t'' @ pad3 trial, case_kind = ''data'',
      case_binary = binary,
      case_args = [s, m, show_int count, show_int ([1, 10, 100] ! (trial mod 3)), show_int p, show_int c]\<rparr>)"

definition campaign_matrix :: "jvalue \<Rightarrow> jvalue \<Rightarrow> jvalue \<Rightarrow> jvalue \<Rightarrow> chaos_case list result" where
  "campaign_matrix profile trials_v messages_v storm_v = (
    need (in_tuple profile [''smoke'', ''standard'']) ''unknown campaign profile'' (
    ebind (integer trials_v 1 1000) (\<lambda>trials.
    ebind (integer messages_v 2 4000000) (\<lambda>messages.
    ebind (integer storm_v 16 4000000) (\<lambda>storm_messages.
    need (messages mod 2 = 0 \<and> storm_messages mod 16 = 0) ''quota divisibility'' (
    let configs = (if profile = VStr ''smoke'' then filter smoke_config (base_configs messages storm_messages)
                    else base_configs messages storm_messages) in
    Inr (concat (map (\<lambda>trial. map (data_case trial) configs
       @ [\<lparr>case_id = ''resources_t'' @ pad3 trial, case_kind = ''resource'', case_binary = ''chaos_resources'',
           case_args = []\<rparr>]) [0..<nat trials]))))))))"

end
