(* ===== verification/Chaos_Trace.thy ===== *)
theory Chaos_Trace
  imports Chaos
begin

text \<open>
  The replay of a chaos trace, \<open>verify_events\<close> of \<open>tools/verify_chaos_results.py\<close>: the plan, the state
  the loop keeps (dictionaries in insertion order, optional witnesses), one definition per kind of
  event, and the obligations after the last event. Fields the code stores and reads again are kept
  as the values they were checked to be; the population of a generation is read as integers, because
  the code uses it in \<open>range\<close>.
\<close>

unbundle bit_operations_syntax

record chaos_plan =
  cp_scenario :: string
  cp_abi :: string
  cp_mode :: int
  cp_count :: int
  cp_hold :: int
  cp_p :: int
  cp_c :: int

definition is_storm :: "chaos_plan \<Rightarrow> bool" where
  "is_storm h \<longleftrightarrow> cp_scenario h \<in> set [''storm'', ''storm_restart'']"

definition is_async :: "chaos_plan \<Rightarrow> bool" where
  "is_async h \<longleftrightarrow> cp_scenario h = ''async_resume_write''"

definition is_resume :: "chaos_plan \<Rightarrow> bool" where
  "is_resume h \<longleftrightarrow>
     cp_scenario h \<in> set [''resume_write'', ''resume_read'', ''late_publication'', ''async_resume_write'']"

definition is_random :: "chaos_plan \<Rightarrow> bool" where
  "is_random h \<longleftrightarrow> cp_scenario h = ''random_abort_kill''"

definition read_victim :: "chaos_plan \<Rightarrow> bool" where
  "read_victim h \<longleftrightarrow> take 5 (cp_scenario h) = ''read_'' \<or> cp_scenario h = ''resume_read''"

definition victim :: "chaos_plan \<Rightarrow> int" where
  "victim h = (if read_victim h then cp_p h else 0)"

definition chaos_roles :: "chaos_plan \<Rightarrow> bool" where
  "chaos_roles h \<longleftrightarrow>
     (if cp_mode h = 1
      then cp_p h = 1 \<and> cp_c h = 1 \<and> (cp_scenario h \<in> set (keys CALLER) \<and> \<not> is_async h \<or> is_storm h)
      else is_storm h \<or> (cp_p h, cp_c h) = (if read_victim h then (2, 3) else (3, 2)))"

definition chaos_header :: "jvalue \<Rightarrow> chaos_plan result" where
  "chaos_header plan = (
    ebind (dget plan ''event'' VNone) (\<lambda>ev.
    ebind (dget plan ''schema'' VNone) (\<lambda>schema.
    need (py_eq ev (VStr ''plan'') \<and> py_eq schema (VStr ''elite-chaos-v1'')) ''bad plan'' (
    ebind (item plan ''scenario'') (\<lambda>sc.
    ebind (in_set_of sc SCENARIOS) (\<lambda>known.
    need known ''unknown scenario'' (
    ebind ((case sc of VStr s \<Rightarrow> Inr s | _ \<Rightarrow> Inl (ValueError ''unknown scenario''))) (\<lambda>scenario.
    ebind (wait_abi plan) (\<lambda>abi.
    ebind (ebind (item plan ''mode'') (\<lambda>v. integer v 1 2)) (\<lambda>mode.
    ebind (ebind (item plan ''messages'') (\<lambda>v. integer v 1 4000000)) (\<lambda>count.
    ebind (ebind (item plan ''hold_ms'') (\<lambda>v. integer v 1 1000)) (\<lambda>hold.
    ebind (ebind (item plan ''producers'') (\<lambda>v. integer v 1 16)) (\<lambda>p.
    ebind (ebind (item plan ''consumers'') (\<lambda>v. integer v 1 16)) (\<lambda>c.
    ebind (item plan ''clock'') (\<lambda>clock.
    need (py_eq clock (VStr ''CLOCK_MONOTONIC'')) ''timebase'' (
    ebind (item plan ''timebase_numer'') (\<lambda>numer.
    need (py_eq numer (VInt 1)) ''timebase'' (
    ebind (item plan ''timebase_denom'') (\<lambda>denom.
    need (py_eq denom (VInt 1)) ''timebase'' (
    ebind (ebind (item plan ''reported_resolution_ns'') (\<lambda>v. integer v 1 U64)) (\<lambda>_.
    ebind (item plan ''hooks'') (\<lambda>hooks.
    need (is_bool hooks) ''hook tag'' (
    need (if scenario \<in> set (keys HOOKS) then hooks = VBool True \<and> mode = 2 else hooks = VBool False)
       ''hook lane mislabeled'' (
    let h = \<lparr>cp_scenario = scenario, cp_abi = abi, cp_mode = mode, cp_count = count, cp_hold = hold, cp_p = p, cp_c = c\<rparr> in
    need (chaos_roles h) ''role contract'' (Inr h)))))))))))))))))))))))))"

section \<open>The state of the replay\<close>

record generation =
  ge_event :: jvalue
  ge_producers :: int
  ge_consumers :: int
  ge_bytes :: int
  ge_prefix :: "int list"

record receipt =
  rc_sequence :: int
  rc_tick :: int
  rc_received :: int
  rc_kind :: int
  rc_pid :: jvalue
  rc_values :: "int list"

record order_sent =
  or_command :: int
  or_first :: int
  or_quota :: int

record replay_state =
  rp_gs :: "(int \<times> generation) list"
  rp_ws :: "(int \<times> receipt) list"
  rp_commands :: "(int \<times> order_sent) list"
  rp_done :: "(int \<times> receipt) list"
  rp_bitmaps :: "(int \<times> int list) list"
  rp_cohorts :: "int list"
  rp_exits :: "int list"
  rp_snaps :: "(int \<times> jvalue) list"
  rp_destroyed :: "int list"
  rp_signals :: "(int \<times> string \<times> int) list"
  rp_stops :: nat
  rp_suspicion :: "int option"
  rp_cut :: "receipt option"
  rp_quarantine :: bool
  rp_held :: "int option"
  rp_released :: bool
  rp_blocked :: bool
  rp_victim_done :: bool
  rp_terminal :: "int option"
  rp_previous :: int
  rp_last :: "(int \<times> receipt) list"
  rp_messages :: int
  rp_pending :: "(int \<times> int) list"

definition replay_start :: replay_state where
  "replay_start = \<lparr>rp_gs = [], rp_ws = [], rp_commands = [], rp_done = [], rp_bitmaps = [], rp_cohorts = [],
     rp_exits = [], rp_snaps = [], rp_destroyed = [], rp_signals = [], rp_stops = 0, rp_suspicion = None,
     rp_cut = None, rp_quarantine = False, rp_held = None, rp_released = False, rp_blocked = False,
     rp_victim_done = False, rp_terminal = None, rp_previous = 0, rp_last = [], rp_messages = 0, rp_pending = []\<rparr>"

definition population :: "generation \<Rightarrow> int" where
  "population g = ge_producers g + ge_consumers g"

definition is_producer :: "generation \<Rightarrow> int \<Rightarrow> bool" where
  "is_producer g wid \<longleftrightarrow> wid mod 32 < ge_producers g"

section \<open>Generations\<close>

definition shm_name :: "jvalue \<Rightarrow> bool" where
  "shm_name v = (case v of VStr s \<Rightarrow> length s = 30 \<and> take 4 s = ''/el-''
     \<and> list_all (\<lambda>c. c \<in> set ''abcdefghijklmnopqrstuvwxyz234567'') (drop 4 s) | _ \<Rightarrow> False)"

definition on_generation ::
    "(int list \<Rightarrow> int) \<Rightarrow> chaos_plan \<Rightarrow> replay_state \<Rightarrow> jvalue \<Rightarrow> replay_state result" where
  "on_generation crc32 h s e = (
    ebind (uint_field e ''generation_id'' 0 1) (\<lambda>gi.
    need (gi \<notin> set (keys (rp_gs s))) ''duplicate generation'' (
    need (gi = int (length (rp_gs s))) ''generation sequence'' (
    ebind (item e ''mode'') (\<lambda>mode.
    ebind (item e ''capacity'') (\<lambda>capacity.
    need (py_eq mode (VInt (cp_mode h)) \<and> py_eq capacity (VInt 64)) ''generation shape'' (
    ebind (item e ''producers'') (\<lambda>pv.
    ebind (item e ''consumers'') (\<lambda>cv.
    need (py_eq pv (VInt (if gi = 0 then cp_p h else 1)) \<and> py_eq cv (VInt (if gi = 0 then cp_c h else 1)))
       ''generation population'' (
    ebind (index pv) (\<lambda>p.
    ebind (index cv) (\<lambda>c.
    ebind (header_prefix crc32 e) (\<lambda>(b, crc).
    need (le_int (slice b 24 28) = cp_mode h) ''header profile'' (
    need (le_int (slice b 256 260) = p \<and> le_int (slice b 260 264) = c) ''header roles'' (
    ebind (uint_field e ''bytes'' 16384 U64) (\<lambda>bytes.
    need (le_int (slice b 56 64) = bytes) ''backing length'' (
    ebind (item e ''name'') (\<lambda>name.
    need (shm_name name) ''shm name'' (
    ebind (uint_field e ''observer_address'' 1 U64) (\<lambda>address.
    need (address mod 128 = 0) ''mapping alignment'' (
    ebind ((if gi \<noteq> 0 then (
       need (rp_quarantine s) ''successor before quarantine'' (
       ebind (at_key (rp_gs s) 0) (\<lambda>g0.
       ebind (item (ge_event g0) ''name'') (\<lambda>name0.
       ebind (item (ge_event g0) ''observer_address'') (\<lambda>address0.
       need (\<not> py_eq name0 name \<and> \<not> py_eq address0 (VInt address)) ''old capability redirection'' (
       need (slice (ge_prefix g0) 160 176 \<noteq> slice b 160 176) ''reused session identity'' (
       need (slice b 216 232 = slice (ge_prefix g0) 160 176) ''predecessor identity'' (Inr ())))))))) else Inr ())) (\<lambda>_.
    Inr (s\<lparr>rp_gs := AList.update gi \<lparr>ge_event = e, ge_producers = p, ge_consumers = c, ge_bytes = bytes,
            ge_prefix = b\<rparr> (rp_gs s)\<rparr>)))))))))))))))))))))))"

section \<open>Worker events\<close>

definition command_of :: "replay_state \<Rightarrow> int \<Rightarrow> int option" where
  "command_of s wid = map_option or_command (map_of (rp_commands s) wid)"

definition worker_done :: "chaos_plan \<Rightarrow> replay_state \<Rightarrow> int \<Rightarrow> generation \<Rightarrow> receipt \<Rightarrow> replay_state result" where
  "worker_done h s wid g r = (let v = rc_values r; loose = is_async h \<and> wid div 32 = 0 in (
    need (wid \<notin> set (keys (rp_done s)) \<and> command_of s wid = Some 1) ''unexpected DONE'' (
    ebind (at_key (rp_commands s) wid) (\<lambda>order.
    need (v ! 3 \<le> rc_tick r) ''work-start after completion'' (
    need (if is_producer g wid
           then (if loose then v ! 0 \<le> or_quota order else v ! 0 = or_quota order) \<and> v ! 1 = 0 \<and> v ! 2 = 0
           else v ! 2 = (cp_count h + 7) div 8 \<and> v ! 0 \<le> cp_count h \<and> v ! 1 \<le> 1) ''producer quota/consumer completion'' (
    ebind (integer (VInt (v ! 7)) 0 64) (\<lambda>_.
    need (\<not> loose \<longrightarrow> v ! 7 = 0) ''unexpected retained token'' (
    Inr (s\<lparr>rp_done := AList.update wid r (rp_done s)\<rparr>)))))))))"

definition worker_cut :: "chaos_plan \<Rightarrow> replay_state \<Rightarrow> int \<Rightarrow> receipt \<Rightarrow> replay_state result" where
  "worker_cut h s wid r = (let v = rc_values r in (
    need (wid = victim h \<and> rp_cut s = None \<and> \<not> is_random h) ''invalid cut witness'' (
    ebind ((case map_of HOOKS (cp_scenario h) of Some k \<Rightarrow> Inr k | None \<Rightarrow> at_key CALLER (cp_scenario h))) (\<lambda>point.
    need (v ! 0 = point \<and> v ! 2 < 64) ''wrong cut point'' (Inr (s\<lparr>rp_cut := Some r\<rparr>))))))"

definition worker_resumed :: "chaos_plan \<Rightarrow> replay_state \<Rightarrow> int \<Rightarrow> receipt \<Rightarrow> replay_state result" where
  "worker_resumed h s wid r = (
    need (is_resume h \<and> wid = victim h \<and> rp_held s \<noteq> None) ''invalid resumed transfer'' (
    need (take 2 (rc_values r) =
        (if cp_scenario h \<in> set [''resume_write'', ''resume_read'', ''async_resume_write''] then [3, 5] else [0, 2]))
       ''resumed transfer status/outcome'' (Inr (s\<lparr>rp_victim_done := True\<rparr>))))"

definition worker_receipt :: "replay_state \<Rightarrow> jvalue \<Rightarrow> int \<Rightarrow> int \<Rightarrow> receipt result" where
  "worker_receipt s e t wid = (
    ebind (item e ''values'') (\<lambda>vs.
    ebind ((case vs of VList xs \<Rightarrow> Inr xs | _ \<Rightarrow> Inl (ValueError ''worker event frame''))) (\<lambda>xs.
    need (length xs = 8) ''worker event frame'' (
    ebind (emap (\<lambda>x. integer x 0 U64) xs) (\<lambda>v.
    ebind (uint_field e ''tick'' 0 U64) (\<lambda>tick.
    ebind (uint_field e ''received_tick'' 0 U64) (\<lambda>rx.
    need (tick \<le> rx \<and> rx \<le> t) ''worker clock order'' (
    ebind (uint_field e ''sequence'' 1 U64) (\<lambda>sequence.
    let old = map_of (rp_last s) wid in
    need (sequence = (case old of Some o' \<Rightarrow> rc_sequence o' + 1 | None \<Rightarrow> 1)) ''worker sequence'' (
    need (case old of Some o' \<Rightarrow> rc_tick o' \<le> tick | None \<Rightarrow> True) ''worker time reverse'' (
    ebind (uint_field e ''kind'' 1 10) (\<lambda>kind.
    ebind (item e ''pid'') (\<lambda>pid.
    Inr \<lparr>rc_sequence = sequence, rc_tick = tick, rc_received = rx, rc_kind = kind, rc_pid = pid, rc_values = v\<rparr>)))))))))))))"

definition worker_lifetime :: "replay_state \<Rightarrow> int \<Rightarrow> generation \<Rightarrow> receipt \<Rightarrow> replay_state result" where
  "worker_lifetime s wid g r = (let v = rc_values r in
     if rc_kind r = 1 then (
       need (wid \<notin> set (keys (rp_ws s)) \<and> rc_sequence r = 1) ''duplicate/missing READY'' (
       need (0 < v ! 0 \<and> v ! 0 mod 128 = 0 \<and> v ! 1 = ge_bytes g) ''worker independent mapping'' (
       ebind (integer (rc_pid r) 1 U64) (\<lambda>pid.
       need (v ! 2 = pid) ''child PID identity'' (Inr (s\<lparr>rp_ws := AList.update wid r (rp_ws s)\<rparr>)))))) else (
       need (wid \<in> set (keys (rp_ws s))) ''invalid worker lifetime'' (
       ebind (at_key (rp_ws s) wid) (\<lambda>ready.
       need (py_eq (rc_pid r) (rc_pid ready) \<and> wid \<notin> set (rp_exits s)) ''invalid worker lifetime'' (Inr s)))))"

definition on_worker :: "chaos_plan \<Rightarrow> replay_state \<Rightarrow> jvalue \<Rightarrow> int \<Rightarrow> replay_state result" where
  "on_worker h s e t = (
    ebind (uint_field e ''worker_id'' 0 63) (\<lambda>wid.
    let gi = wid div 32 in
    need (gi \<in> set (keys (rp_gs s))) ''worker without generation'' (
    ebind (at_key (rp_gs s) gi) (\<lambda>g.
    need (wid mod 32 < population g) ''worker range'' (
    ebind (worker_receipt s e t wid) (\<lambda>r.
    let s = s\<lparr>rp_last := AList.update wid r (rp_last s)\<rparr> in
    ebind (worker_lifetime s wid g r) (\<lambda>s.
    (if rc_kind r = 3 then worker_done h s wid g r
      else if rc_kind r = 4 then worker_cut h s wid r
      else if rc_kind r = 5 then worker_resumed h s wid r
      else if rc_kind r = 7 then need (command_of s wid = Some 4) ''detach not requested'' (Inr s)
      else if rc_kind r = 8
      then need (gi = 1 \<and> command_of s wid = Some 6) ''unexpected successor hold'' (Inr (s\<lparr>rp_held := Some (rc_received r)\<rparr>))
      else if rc_kind r = 9
      then need (gi = 1 \<and> rp_held s \<noteq> None \<and> (is_resume h \<longrightarrow> rp_victim_done s)) ''premature successor recheck''
             (Inr (s\<lparr>rp_released := True\<rparr>))
      else if rc_kind r = 10 then need (command_of s wid = Some 1) ''unrequested workload start'' (Inr s)
      else Inr s))))))))"

section \<open>Commands, bitmaps and signals\<close>

definition on_command :: "chaos_plan \<Rightarrow> replay_state \<Rightarrow> jvalue \<Rightarrow> replay_state result" where
  "on_command h s e = (
    ebind (uint_field e ''worker_id'' 0 63) (\<lambda>wid.
    need (wid \<in> set (keys (rp_ws s)) \<and> wid \<notin> set (rp_exits s)) ''command to unknown/dead child'' (
    ebind (uint_field e ''command'' 1 8) (\<lambda>command.
    ebind (uint_field e ''first'' 0 U64) (\<lambda>first.
    ebind (uint_field e ''quota'' 0 U64) (\<lambda>quota.
    ebind (uint_field e ''total'' 0 U64) (\<lambda>total.
    let order = \<lparr>or_command = command, or_first = first, or_quota = quota\<rparr> in
    if command = 1 then (
       need (total = cp_count h \<and> wid \<notin> set (keys (rp_done s))) ''work size/repeated workload'' (
       ebind (item e ''allow_retirement'') (\<lambda>retire.
       need (retire = VBool (is_async h \<and> wid div 32 = 0)) ''retirement mode mismatch''
         (Inr (s\<lparr>rp_commands := AList.update wid order (rp_commands s)\<rparr>))))) else if command = 5 then (
       ebind (at_key (rp_gs s) (wid div 32)) (\<lambda>g.
       need (\<not> is_producer g wid) ''drain to producer'' (
       let prods = [x. (x, o') \<leftarrow> rp_commands s, x div 32 = wid div 32, is_producer g x, or_command o' = 1] in
       need (prods \<noteq> [] \<and> set prods \<subseteq> set (keys (rp_done s))) ''drain before producer completion'' (Inr s)))) else Inr (s\<lparr>rp_commands := AList.update wid order (rp_commands s)\<rparr>))))))))"

definition on_membership :: "replay_state \<Rightarrow> jvalue \<Rightarrow> replay_state result" where
  "on_membership s e = (
    ebind (uint_field e ''worker_id'' 0 U64) (\<lambda>wid.
    need (wid \<in> set (keys (rp_done s)) \<and> wid \<notin> set (keys (rp_bitmaps s))) ''unexpected bitmap'' (
    ebind (item e ''hex'') (\<lambda>v.
    ebind ((case v of VStr x \<Rightarrow> Inr x | _ \<Rightarrow> Inl (ValueError ''bitmap encoding''))) (\<lambda>hex.
    need (all_hex hex) ''bitmap encoding'' (
    ebind (hex_bytes hex) (\<lambda>raw.
    ebind (at_key (rp_done s) wid) (\<lambda>r.
    need (int (length raw) = rc_values r ! 2) ''bitmap length'' (
    need (raw \<noteq> [] \<longrightarrow> int (bit_count (nat (le_int raw))) = rc_values r ! 0) ''bitmap population''
       (Inr (s\<lparr>rp_bitmaps := AList.update wid raw (rp_bitmaps s)\<rparr>)))))))))))"

definition signal_numbers :: "string \<Rightarrow> (string \<times> int) list" where
  "signal_numbers abi =
     (if abi = ''darwin''
      then [(''SIGKILL'', 9), (''SIGSTOP'', 17), (''SIGCONT'', 19), (''SIGUSR1'', 30), (''SIGALRM'', 14)]
      else [(''SIGKILL'', 9), (''SIGSTOP'', 19), (''SIGCONT'', 18), (''SIGUSR1'', 10), (''SIGALRM'', 14)])"

definition on_signal :: "chaos_plan \<Rightarrow> replay_state \<Rightarrow> jvalue \<Rightarrow> replay_state result" where
  "on_signal h s e = (
    ebind (uint_field e ''worker_id'' 0 U64) (\<lambda>wid.
    need (wid \<in> set (keys (rp_ws s)) \<and> wid \<notin> set (rp_exits s)) ''signal to unowned/terminal PID'' (
    ebind (item e ''signal'') (\<lambda>v.
    ebind (in_set_of v (keys (signal_numbers (cp_abi h)))) (\<lambda>known.
    need known ''unknown signal'' (
    ebind ((case v of VStr x \<Rightarrow> Inr x | _ \<Rightarrow> Inl (ValueError ''unknown signal''))) (\<lambda>name.
    ebind (uint_field e ''signal_number'' 1 127) (\<lambda>number.
    ebind (at_key (signal_numbers (cp_abi h)) name) (\<lambda>wanted.
    need (number = wanted) ''signal number/ABI mismatch'' (Inr (s\<lparr>rp_signals := rp_signals s @ [(wid, name, number)]\<rparr>)))))))))))"

definition was_sent :: "replay_state \<Rightarrow> int \<Rightarrow> string \<Rightarrow> bool" where
  "was_sent s wid name = list_ex (\<lambda>(w, n, k). w = wid \<and> n = name) (rp_signals s)"

definition on_stopped :: "chaos_plan \<Rightarrow> replay_state \<Rightarrow> jvalue \<Rightarrow> replay_state result" where
  "on_stopped h s e = (
    ebind (uint_field e ''worker_id'' 0 U64) (\<lambda>wid.
    need (wid \<in> set (keys (rp_ws s)) \<and> wid \<notin> set (rp_exits s)) ''stop lifetime'' (
    ebind (item e ''wait_status'') (\<lambda>w.
    ebind (wait_status w (cp_abi h)) (\<lambda>st.
    need (st = (''stopped'', Some (if cp_abi h = ''darwin'' then 17 else 19))) ''not SIGSTOP wait status'' (
    need (rp_cut s \<noteq> None \<and> wid = victim h \<or> was_sent s wid ''SIGSTOP'') ''unrequested stop'' (Inr s)))))))"

definition on_stop_not_death :: "replay_state \<Rightarrow> jvalue \<Rightarrow> replay_state result" where
  "on_stop_not_death s e = (
    ebind (item e ''status'') (\<lambda>st.
    need (py_eq st (VInt 8)) ''stop treated as death'' (
    ebind (item e ''worker_id'') (\<lambda>w.
    ebind (int_key w) (\<lambda>key.
    need (case key of Some wid \<Rightarrow> wid \<in> set (keys (rp_ws s)) | None \<Rightarrow> False) ''stop treated as death''
       (Inr (s\<lparr>rp_stops := Suc (rp_stops s)\<rparr>)))))))"

section \<open>Suspicion, death, quarantine\<close>

definition on_overdue :: "chaos_plan \<Rightarrow> replay_state \<Rightarrow> jvalue \<Rightarrow> int \<Rightarrow> replay_state result" where
  "on_overdue h s e t = (
    need (\<not> is_storm h \<and> rp_suspicion s = None) ''wrong overdue owner'' (
    ebind (item e ''worker_id'') (\<lambda>w.
    need (py_eq w (VInt (victim h))) ''wrong overdue owner'' (
    ebind (at_key (rp_last s) (victim h)) (\<lambda>le.
    ebind (item e ''last_sequence'') (\<lambda>ls.
    need (py_eq ls (VInt (rc_sequence le))) ''heartbeat custody'' (
    ebind (item e ''last_received_tick'') (\<lambda>lr.
    need (py_eq lr (VInt (rc_received le))) ''heartbeat custody'' (
    ebind (item e ''deadline_tick'') (\<lambda>dl.
    need (py_eq dl (VInt (rc_received le + cp_hold h * 1000000)) \<and> rc_received le + cp_hold h * 1000000 \<le> t)
       ''premature timeout'' (
    ebind (item e ''death_inferred'') (\<lambda>death.
    need (death = VBool False) ''timeout theft'' (
    ebind (item e ''slot_reclaimed'') (\<lambda>slot.
    need (slot = VBool False) ''timeout theft'' (Inr (s\<lparr>rp_suspicion := Some t\<rparr>))))))))))))))))"

definition on_terminal :: "chaos_plan \<Rightarrow> replay_state \<Rightarrow> jvalue \<Rightarrow> int \<Rightarrow> replay_state result" where
  "on_terminal h s e t = (
    ebind (item e ''worker_id'') (\<lambda>w.
    need (py_eq w (VInt (victim h)) \<and> \<not> is_resume h \<and> victim h \<notin> set (rp_exits s)) ''unexpected terminal victim'' (
    need (was_sent s (victim h) ''SIGKILL'') ''no kill receipt'' (
    ebind (item e ''status'') (\<lambda>st.
    need (py_eq st (VInt 0)) ''bad terminal evidence'' (
    ebind (item e ''signal'') (\<lambda>sg.
    need (py_eq sg (VStr ''SIGKILL'')) ''bad terminal evidence'' (
    ebind (item e ''wait_status'') (\<lambda>ws.
    ebind (wait_status ws (cp_abi h)) (\<lambda>outcome.
    need (fst outcome = ''signaled'') ''bad terminal evidence'' (
    ebind ((case filter (\<lambda>(w, n, k). n = ''SIGKILL'') (rp_signals s) of [] \<Rightarrow> Inl StopIteration | (w, n, k) # r \<Rightarrow> Inr k)) (\<lambda>number.
    need (snd outcome = Some number) ''terminal signal mismatch'' (
    let s = s\<lparr>rp_exits := rp_exits s @ [victim h], rp_terminal := Some t\<rparr> in
    need (cp_mode h = 2 \<longrightarrow> 0 \<in> set (rp_cohorts s)) ''failure notification before required peer-progress witness'' (Inr s))))))))))))))"

definition on_clean_exit :: "replay_state \<Rightarrow> jvalue \<Rightarrow> replay_state result" where
  "on_clean_exit s e = (
    ebind (item e ''worker_id'') (\<lambda>w.
    ebind (int_key w) (\<lambda>key.
    ebind ((case key of Some wid \<Rightarrow> Inr wid | None \<Rightarrow> Inl (KeyError []))) (\<lambda>wid.
    need (wid \<notin> set (rp_exits s)) ''no detached receipt'' (
    ebind (at_key (rp_last s) wid) (\<lambda>r.
    need (rc_kind r = 7) ''no detached receipt'' (
    ebind (item e ''wait_status'') (\<lambda>st.
    need (py_eq st (VInt 0)) ''nonzero exit'' (Inr (s\<lparr>rp_exits := rp_exits s @ [wid]\<rparr>))))))))))"

definition on_quarantined :: "chaos_plan \<Rightarrow> replay_state \<Rightarrow> jvalue \<Rightarrow> replay_state result" where
  "on_quarantined h s e = (
    need (\<not> is_storm h) ''quarantine sequence'' (
    ebind (item e ''generation_id'') (\<lambda>g.
    need (py_eq g (VInt 0) \<and> \<not> rp_quarantine s) ''quarantine sequence'' (
    ebind (item e ''tokens_retained_by_generation'') (\<lambda>n.
    need (py_eq n (VInt 64) \<and> rp_suspicion s \<noteq> None) ''lost quarantine capacity'' (
    need (\<not> is_resume h \<longrightarrow> rp_terminal s \<noteq> None) ''kill quarantine before terminal notification''
       (Inr (s\<lparr>rp_quarantine := True\<rparr>))))))))"

definition on_blocked :: "chaos_plan \<Rightarrow> replay_state \<Rightarrow> jvalue \<Rightarrow> replay_state result" where
  "on_blocked h s e = (
    need (is_resume h) ''unsafe early destroy'' (
    ebind (item e ''status'') (\<lambda>st.
    need (py_eq st (VInt 4) \<and> rp_held s = None) ''unsafe early destroy'' (Inr (s\<lparr>rp_blocked := True\<rparr>)))))"

definition generation_key :: "replay_state \<Rightarrow> jvalue \<Rightarrow> string \<Rightarrow> int result" where
  "generation_key s e msg = (
    ebind (item e ''generation_id'') (\<lambda>v.
    ebind (int_key v) (\<lambda>key.
    (case key of Some gi \<Rightarrow> need (gi \<in> set (keys (rp_gs s))) msg (Inr gi) | None \<Rightarrow> Inl (ValueError msg)))))"

section \<open>Reconciliation of a cohort\<close>

record ledger =
  lg_union :: int
  lg_sent :: int
  lg_received :: int
  lg_special :: int
  lg_starts :: "(int \<times> int) list"
  lg_published :: int

definition cohort_member :: "replay_state \<Rightarrow> generation \<Rightarrow> ledger \<Rightarrow> int \<Rightarrow> ledger result" where
  "cohort_member s g l wid = (
    ebind (at_key (rp_done s) wid) (\<lambda>r.
    let v = rc_values r in
    if is_producer g wid then (
       ebind (at_key (rp_commands s) wid) (\<lambda>order.
       Inr (l\<lparr>lg_sent := lg_sent l + v ! 0, lg_starts := lg_starts l @ [(or_first order, or_quota order)],
              lg_published := lg_published l OR push_bit (nat (or_first order)) (push_bit (nat (v ! 0)) 1 - 1)\<rparr>))) else (
       ebind (at_key (rp_bitmaps s) wid) (\<lambda>raw.
       let b = le_int raw in
       need (lg_union l AND b = 0) ''cross-consumer duplicate''
         (Inr (l\<lparr>lg_union := lg_union l OR b, lg_received := lg_received l + v ! 0, lg_special := lg_special l + v ! 1\<rparr>))))))"

definition cohort_ranges :: "int \<Rightarrow> (int \<times> int) list \<Rightarrow> unit result" where
  "cohort_ranges count starts = (
    ebind (efold (\<lambda>pos (first, quota). need (first = pos) ''producer identity range gap'' (Inr (pos + quota))) 0 (sort starts)) (\<lambda>pos.
    need (pos = count) ''assigned offer quota'' (Inr ())))"

definition storm_applied :: "replay_state \<Rightarrow> int list \<Rightarrow> jvalue \<Rightarrow> unit result" where
  "storm_applied s members e = (
    ebind (item e ''storm_rounds'') (\<lambda>rounds.
    ebind (number rounds) (\<lambda>x.
    need ((case x of Fin q \<Rightarrow> 0 < q | PosInf \<Rightarrow> True | NegInf \<Rightarrow> False) \<and> 0 < rp_stops s) ''storm was not applied'' (
    need (list_all (\<lambda>name. list_ex (\<lambda>(w, n, k). n = name) (rp_signals s)) [''SIGUSR1'', ''SIGALRM'', ''SIGSTOP'', ''SIGCONT''])
       ''missing signal class'' (
    ebind (emap (at_key (rp_done s)) members) (\<lambda>rs.
    need (list_ex (\<lambda>r. rc_values r ! 4 \<noteq> 0) rs \<and> list_ex (\<lambda>r. rc_values r ! 5 \<noteq> 0) rs) ''nonfatal signals never observed'' (Inr ())))))))"

definition cohort_members :: "replay_state \<Rightarrow> int \<Rightarrow> int list" where
  "cohort_members s gi = [wid. (wid, r) \<leftarrow> rp_done s, wid div 32 = gi]"

definition expected_members :: "chaos_plan \<Rightarrow> int \<Rightarrow> generation \<Rightarrow> int list result" where
  "expected_members h gi g =
     (let ids = map (\<lambda>i. 32 * gi + i) [0..population g - 1]
      in if gi = 0 \<and> \<not> is_storm h
         then (if victim h \<in> set ids then Inr (removeAll (victim h) ids) else Inl (KeyError [])) else Inr ids)"

definition cohort_ledger :: "chaos_plan \<Rightarrow> replay_state \<Rightarrow> int \<Rightarrow> generation \<Rightarrow> ledger result" where
  "cohort_ledger h s gi g = (
    let members = cohort_members s gi in
    ebind (expected_members h gi g) (\<lambda>wanted.
    need (set members = set wanted \<and> set wanted \<subseteq> set (keys (rp_bitmaps s))) ''missing completed endpoint'' (
    ebind (efold (cohort_member s g)
       \<lparr>lg_union = 0, lg_sent = 0, lg_received = 0, lg_special = 0, lg_starts = [], lg_published = 0\<rparr> members) (\<lambda>l.
    ebind (cohort_ranges (cp_count h) (lg_starts l)) (\<lambda>_.
    Inr l)))))"

definition on_cohort :: "chaos_plan \<Rightarrow> replay_state \<Rightarrow> jvalue \<Rightarrow> replay_state result" where
  "on_cohort h s e = (
    ebind (generation_key s e ''duplicate cohort'') (\<lambda>gi.
    need (gi \<notin> set (rp_cohorts s)) ''duplicate cohort'' (
    ebind (at_key (rp_gs s) gi) (\<lambda>g.
    ebind (cohort_ledger h s gi g) (\<lambda>l.
    let loose = is_async h \<and> gi = 0 in
    ebind (item e ''retired_during_work'') (\<lambda>retired.
    need (retired = VBool loose) ''false async mode'' (
    need (if loose
           then rp_quarantine s \<and> lg_received l \<le> lg_sent l \<and> lg_sent l \<le> cp_count h \<and> lg_union l AND NOT (lg_published l) = 0
           else lg_sent l = lg_received l \<and> lg_received l = cp_count h \<and> lg_union l = push_bit (nat (cp_count h)) 1 - 1)
       ''async delivery not committed / message set mismatch'' (
    ebind (item e ''sent'') (\<lambda>sent.
    ebind (item e ''received'') (\<lambda>received.
    ebind (item e ''sentinel_received'') (\<lambda>special.
    need (py_eq sent (VInt (lg_sent l)) \<and> py_eq received (VInt (lg_received l)) \<and> py_eq special (VInt (lg_special l)))
       ''cohort scalar mismatch'' (
    need (lg_special l = (if gi = 0 \<and> cp_scenario h = ''write_published'' then 1 else 0))
       ''unexpected/uncommitted sentinel delivery'' (
    ebind ((if is_storm h then storm_applied s (cohort_members s gi) e else Inr ())) (\<lambda>_.
    Inr (s\<lparr>rp_cohorts := rp_cohorts s @ [gi], rp_messages := rp_messages s + lg_received l,
            rp_pending := (if loose then AList.update gi (lg_published l XOR lg_union l) (rp_pending s) else rp_pending s)\<rparr>)))))))))))))))"

end
