(* ===== verification/Chaos_Verify.thy ===== *)
theory Chaos_Verify
  imports Chaos_Trace Paths
begin

text \<open>
  Snapshots, the dispatch over the events of a trace, the obligations after the last event, and the
  verification of a trace file and of a campaign directory (\<open>verify_events\<close>, \<open>verify_file\<close> and
  \<open>verify_campaign\<close> of \<open>tools/verify_chaos_results.py\<close>). Files, CRC-32 and SHA-256 are parameters.
\<close>

unbundle bit_operations_syntax

section \<open>Snapshots\<close>

definition cut_block :: "replay_state \<Rightarrow> int result" where
  "cut_block s = (case rp_cut s of None \<Rightarrow> Inl (TypeError ''not subscriptable'') | Some r \<Rightarrow> Inr (rc_values r ! 2))"

text \<open>The tokens the terminated workers of generation 0 report as retained.\<close>

definition retained :: "replay_state \<Rightarrow> (int \<times> int) list" where
  "retained s = [(wid, rc_values r ! 7 - 1). (wid, r) \<leftarrow> rp_done s, wid div 32 = 0, rc_values r ! 7 \<noteq> 0]"

record inventory =
  in_free :: "int list"
  in_ready :: "int list"
  in_missing :: "int list"
  in_status :: "int list"
  in_epochs :: "int list"
  in_ids :: "int list"

definition phase_ok :: "inventory \<Rightarrow> int \<Rightarrow> int \<Rightarrow> bool" where
  "phase_ok v phase block \<longleftrightarrow> in_status v ! nat block AND 3 = phase
     \<and> drop_bit 2 (in_status v ! nat block) = in_epochs v ! nat block"

definition missing_population :: "chaos_plan \<Rightarrow> replay_state \<Rightarrow> int \<Rightarrow> inventory \<Rightarrow> unit result" where
  "missing_population h s gi v = (let missing = in_missing v in
     if gi = 0 \<and> is_async h then (
       let losses = map snd (retained s) in
       need (distinct losses) ''duplicate retained ownership'' (
       ebind (cut_block s) (\<lambda>cut.
       need (cut \<notin> set losses) ''duplicate retained ownership'' (
       need (set missing = set losses \<union> {cut}) ''unaccounted async token'' (Inr ()))))) else if gi = 0 \<and> is_random h
     then need (length missing \<le> 1) ''random loss exceeds one outstanding token'' (Inr ())
     else need (length missing = (if gi \<noteq> 0 \<or> is_storm h
            \<or> cp_scenario h \<in> set [''write_published'', ''read_returned'', ''late_publication''] then 0 else 1))
          ''unexpected orphan count'' (Inr ()))"

definition ORPHAN_PHASE :: "(string \<times> int) list" where
  "ORPHAN_PHASE = [(''write_claim'', 0), (''write_reserved'', 1), (''write_committed'', 2),
     (''write_partial'', 1), (''resume_write'', 1), (''async_resume_write'', 1),
     (''read_claim'', 2), (''read_held'', 3), (''resume_read'', 3), (''read_returning'', 0)]"

definition orphan_identity :: "chaos_plan \<Rightarrow> replay_state \<Rightarrow> int \<Rightarrow> inventory \<Rightarrow> unit result" where
  "orphan_identity h s gi v = (case rp_cut s of None \<Rightarrow> Inr ()
   | Some wit \<Rightarrow> (let block = rc_values wit ! 2 in (
     need (in_missing v \<noteq> [] \<and> \<not> is_async h \<longrightarrow> set (in_missing v) = {block}) ''unaccounted orphan identity'' (
     if gi = 0 \<and> in_missing v \<noteq> [] then (
         ebind (at_key ORPHAN_PHASE (cp_scenario h)) (\<lambda>phase.
         let epoch = (if cp_scenario h = ''write_claim'' then 0 else 1) in
         need (in_status v ! nat block = (push_bit 2 epoch OR phase) \<and> in_epochs v ! nat block = epoch)
           ''orphan phase/epoch changed'' (Inr ()))) else Inr ()))))"

definition special_phases :: "chaos_plan \<Rightarrow> replay_state \<Rightarrow> int \<Rightarrow> inventory \<Rightarrow> unit result" where
  "special_phases h s gi v = (
    need (gi = 0 \<and> is_async h \<longrightarrow>
         list_all (\<lambda>(wid, block). phase_ok v (if wid mod 32 < cp_p h then 1 else 3) block) (retained s))
       ''cooperative retained phase'' (
    need (gi = 0 \<and> is_random h \<longrightarrow>
         list_all (\<lambda>block. (let st = in_status v ! nat block; ep = in_epochs v ! nat block
            in st AND 3 \<in> {0, 1} \<and> drop_bit 2 st \<le> 2 ^ 62 - 2 \<and> ep - drop_bit 2 st \<in> {0, 1})) (in_missing v))
       ''random aborted transfer state'' (Inr ())))"

definition pending_publications :: "chaos_plan \<Rightarrow> replay_state \<Rightarrow> int \<Rightarrow> inventory \<Rightarrow> unit result" where
  "pending_publications h s gi v =
     (if gi = 0 \<and> is_async h then (
       let qids = map (\<lambda>b. in_ids v ! nat b) (in_ready v) in
       need (distinct qids \<and> list_all (\<lambda>x. x < cp_count h) qids) ''duplicate/invalid pending ID'' (
       need (map_of (rp_pending s) gi = Some (sum_list (map (\<lambda>x. push_bit (nat x) 1) qids)))
          ''unaccounted committed message'' (Inr ()))) else (
        need (length (in_ready v) = (if gi = 0 \<and> cp_scenario h = ''late_publication'' then 1 else 0))
          ''unexpected old publication membership'' (
        (case rp_cut s of None \<Rightarrow> Inr ()
         | Some wit \<Rightarrow> need (in_ready v \<noteq> [] \<longrightarrow> set (in_ready v) = {rc_values wit ! 2}) ''late LP wrong token'' (Inr ())))))"

definition ints :: "int list \<Rightarrow> jvalue" where
  "ints xs = VList (map VInt (sort xs))"

definition ncq_snapshot ::
    "chaos_plan \<Rightarrow> replay_state \<Rightarrow> int \<Rightarrow> jvalue \<Rightarrow> int list \<Rightarrow> int list \<Rightarrow> int list \<Rightarrow> jvalue result" where
  "ncq_snapshot h s gi e sts eps ids = (
    ebind (item e ''cursors'') (\<lambda>cv.
    ebind (elements cv) (\<lambda>cs.
    need (length cs = 4) ''NCQ cursor width'' (
    ebind (item e ''qf_entries'') (\<lambda>qf.
    ebind (queue_members (cs ! 0) (cs ! 1) qf 64) (\<lambda>(f, uf).
    ebind (item e ''qr_entries'') (\<lambda>qr.
    ebind (queue_members (cs ! 2) (cs ! 3) qr 64) (\<lambda>(q, ur).
    need (set f \<inter> set q = {}) ''free/ready double allocation'' (
    let v = \<lparr>in_free = f, in_ready = q, in_missing = filter (\<lambda>b. b \<notin> set f \<and> b \<notin> set q) [0..63],
              in_status = sts, in_epochs = eps, in_ids = ids\<rparr> in
    need (list_all (phase_ok v 0) f) ''free phase/epoch'' (
    need (list_all (phase_ok v 2) q) ''ready phase/epoch'' (
    ebind (missing_population h s gi v) (\<lambda>_.
    ebind (orphan_identity h s gi v) (\<lambda>_.
    ebind (special_phases h s gi v) (\<lambda>_.
    ebind (pending_publications h s gi v) (\<lambda>_.
    Inr (VDict [(''free'', ints f), (''ready'', ints q), (''unavailable_orphan'', ints (in_missing v)),
       (''qf_frontier'', VInt uf), (''qr_frontier'', VInt ur)]))))))))))))))))"

definition spsc_snapshot :: "chaos_plan \<Rightarrow> int \<Rightarrow> jvalue \<Rightarrow> int list \<Rightarrow> jvalue result" where
  "spsc_snapshot h gi e sts = (
    ebind (item e ''cursors'') (\<lambda>cv.
    ebind (elements cv) (\<lambda>cs.
    need (length cs = 2 \<and> list_all (\<lambda>x. x = 0) sts) ''SPSC dormant status'' (
    ebind (integer (cs ! 0) 0 U64) (\<lambda>pub.
    ebind (integer (cs ! 1) 0 U64) (\<lambda>taken.
    need (0 \<le> pub - taken \<and> pub - taken \<le> 64) ''SPSC capacity'' (
    need ((pub, taken) = (if is_storm h then (cp_count h, cp_count h)
        else if gi \<noteq> 0 then (cp_count h + 1, cp_count h + 1)
        else if read_victim h then (1, 0) else (0, 0))) ''SPSC published/reclaimed outcome'' (
    Inr (VDict [(''spsc_cursors'', cv)])))))))))"

definition on_snapshot ::
    "(int list \<Rightarrow> int) \<Rightarrow> chaos_plan \<Rightarrow> replay_state \<Rightarrow> jvalue \<Rightarrow> replay_state result" where
  "on_snapshot crc32 h s e = (
    ebind (generation_key s e ''snapshot identity'') (\<lambda>gi.
    need (gi \<notin> set (keys (rp_snaps s))) ''snapshot identity'' (
    ebind (at_key (rp_gs s) gi) (\<lambda>g.
    need (list_all (\<lambda>i. 32 * gi + i \<in> set (rp_exits s)) [0..population g - 1]) ''snapshot before quiescence/fencing'' (
    ebind (item e ''scope'') (\<lambda>scope.
    ebind (item e ''capacity'') (\<lambda>capacity.
    need (py_eq scope (VStr ''ALL_WORKERS_TERMINAL'') \<and> py_eq capacity (VInt 64)) ''snapshot authority'' (
    ebind (header_prefix crc32 e) (\<lambda>(b, crc).
    ebind (item e ''header_crc32'') (\<lambda>hc.
    need (b = ge_prefix g \<and> py_eq hc (VInt crc)) ''header corruption'' (
    ebind (uint_field e ''admission'' 0 U64) (\<lambda>gate.
    need (gate AND 0xFFFFFF00 = 0 \<and> drop_bit 32 gate \<le> population g) ''bad admission count/bits'' (
    let failed = (gi = 0 \<and> \<not> is_storm h) in
    need (gate AND 255 = (if failed then 4 else 1)) ''wrong lifecycle state'' (
    ebind (uint_field e ''failure'' 0 6) (\<lambda>failure.
    need (failure = (if failed \<and> \<not> is_resume h then 3 else 0)) ''unexpected failure word'' (
    ebind (item e ''status_words'') (\<lambda>sv.
    ebind (item e ''epochs'') (\<lambda>ev.
    ebind (elements sv) (\<lambda>ss.
    ebind (elements ev) (\<lambda>es.
    need (length ss = 64 \<and> length es = 64) ''descriptor count'' (
    ebind (emap (\<lambda>(x, y). ebind (integer x 0 U64) (\<lambda>a. ebind (integer y 0 (2 ^ 62 - 2)) (\<lambda>b. Inr (a, b)))) (zip ss es)) (\<lambda>pairs.
    ebind (item e ''message_ids'') (\<lambda>iv.
    ebind (elements iv) (\<lambda>is.
    need (length is = 64) ''descriptor identity count'' (
    ebind (emap (\<lambda>x. integer x 0 U64) is) (\<lambda>ids.
    ebind ((if cp_mode h = 2 then ncq_snapshot h s gi e (map fst pairs) (map snd pairs) ids
              else spsc_snapshot h gi e (map fst pairs))) (\<lambda>snap.
    Inr (s\<lparr>rp_snaps := AList.update gi snap (rp_snaps s)\<rparr>))))))))))))))))))))))))))))"

section \<open>The whole trace\<close>

definition on_destroyed :: "replay_state \<Rightarrow> jvalue \<Rightarrow> replay_state result" where
  "on_destroyed s e = (
    ebind (item e ''generation_id'') (\<lambda>v.
    ebind (int_key v) (\<lambda>key.
    ebind ((case key of Some gi \<Rightarrow> need (gi \<in> set (keys (rp_snaps s))) ''unsafe/double destroy'' (Inr gi)
            | None \<Rightarrow> Inl (ValueError ''unsafe/double destroy''))) (\<lambda>gi.
    ebind (item e ''name_absent'') (\<lambda>absent.
    need (absent = VBool True \<and> gi \<notin> set (rp_destroyed s)) ''unsafe/double destroy''
       (Inr (s\<lparr>rp_destroyed := rp_destroyed s @ [gi]\<rparr>)))))))"

definition on_complete :: "nat \<Rightarrow> nat \<Rightarrow> replay_state \<Rightarrow> jvalue \<Rightarrow> replay_state result" where
  "on_complete count seq s e = (
    need (seq = count) ''invalid completion'' (
    ebind (item e ''status'') (\<lambda>st.
    need (py_eq st (VStr ''PASS_WITHIN_SCOPE'')) ''invalid completion'' (
    ebind (item e ''all_children_reaped'') (\<lambda>reaped.
    need (reaped = VBool True) ''invalid completion'' (
    ebind (item e ''all_owned_names_absent'') (\<lambda>absent.
    need (absent = VBool True) ''invalid completion'' (Inr s))))))))"

definition dispatch ::
    "(int list \<Rightarrow> int) \<Rightarrow> chaos_plan \<Rightarrow> nat \<Rightarrow> nat \<Rightarrow> replay_state \<Rightarrow> jvalue \<Rightarrow> int \<Rightarrow> string \<Rightarrow> replay_state result" where
  "dispatch crc32 h count seq s e t kind =
     (if kind = ''plan'' then need (seq = 1) ''repeated plan'' (Inr s)
      else if kind = ''generation'' then on_generation crc32 h s e
      else if kind = ''worker_event'' then on_worker h s e t
      else if kind = ''command'' then on_command h s e
      else if kind = ''membership'' then on_membership s e
      else if kind = ''signal_sent'' then on_signal h s e
      else if kind = ''stopped_observed'' then on_stopped h s e
      else if kind = ''stop_not_death'' then on_stop_not_death s e
      else if kind = ''heartbeat_overdue'' then on_overdue h s e t
      else if kind = ''terminal_observed'' then on_terminal h s e t
      else if kind = ''clean_exit'' then on_clean_exit s e
      else if kind = ''quarantined'' then on_quarantined h s e
      else if kind = ''unfenced_destroy_blocked'' then on_blocked h s e
      else if kind = ''cohort_reconciled'' then on_cohort h s e
      else if kind = ''snapshot'' then on_snapshot crc32 h s e
      else if kind = ''destroyed'' then on_destroyed s e
      else if kind = ''random_cut_interval_unknown'' then need (is_random h) ''false random cut'' (Inr s)
      else if kind = ''spsc_old_service_unavailable_no_role_replacement''
      then need (cp_mode h = 1 \<and> \<not> is_storm h) ''false SPSC service'' (Inr s)
      else if kind = ''successor_holds_validated_sentinel'' then need (rp_held s \<noteq> None) ''missing native hold'' (Inr s)
      else if kind = ''successor_sentinel_unchanged'' then need (rp_released s) ''missing native recheck'' (Inr s)
      else if kind = ''complete'' then on_complete count seq s e
      else Inl (ValueError ''unknown event''))"

definition on_event ::
    "(int list \<Rightarrow> int) \<Rightarrow> chaos_plan \<Rightarrow> nat \<Rightarrow> replay_state \<Rightarrow> nat \<times> jvalue \<Rightarrow> replay_state result" where
  "on_event crc32 h count s ie = (case ie of (seq, e) \<Rightarrow> (
    need (is_dict e) ''record not object'' (
    ebind (uint_field e ''log_sequence'' 1 U64) (\<lambda>n.
    need (n = int seq) ''observer sequence gap'' (
    ebind (uint_field e ''observer_tick'' 0 U64) (\<lambda>t.
    need (rp_previous s \<le> t) ''observer time reversed'' (
    ebind (item e ''event'') (\<lambda>kind.
    (case kind of VStr k \<Rightarrow> dispatch crc32 h count seq (s\<lparr>rp_previous := t\<rparr>) e t k
      | _ \<Rightarrow> Inl (ValueError ''unknown event''))))))))))"

definition obligations :: "chaos_plan \<Rightarrow> replay_state \<Rightarrow> unit result" where
  "obligations h s = (let storm = is_storm h in (
    need (length (rp_gs s) = (if storm then 1 else 2) \<and> set (keys (rp_snaps s)) = set (keys (rp_gs s))
       \<and> set (keys (rp_gs s)) = set (rp_destroyed s)) ''incomplete generations'' (
    need (set (rp_exits s) = set (keys (rp_ws s))
       \<and> int (length (rp_ws s)) = cp_p h + cp_c h + (if storm then 0 else 2)) ''holder accounting'' (
    need (set (rp_cohorts s) = (if storm then {0} else if cp_mode h = 1 then {1} else {0, 1})) ''missing workload generation'' (
    if storm then Inr ()
     else (
       need (rp_suspicion s \<noteq> None \<and> rp_quarantine s \<and> rp_released s) ''recovery obligations absent'' (
       need (if is_resume h then rp_blocked s \<and> rp_victim_done s \<and> rp_terminal s = None else rp_terminal s \<noteq> None)
         ''false-suspicion witness absent / unconfirmed death'' (
       need (\<not> is_random h \<longrightarrow> rp_cut s \<noteq> None \<and> 0 < rp_stops s) ''controlled cut not confirmed'' (Inr ())))))))))"

definition recovery :: "chaos_plan \<Rightarrow> replay_state \<Rightarrow> jvalue result" where
  "recovery h s =
     (if is_storm h then Inr VNone
      else (
        ebind ((case rp_terminal s of Some t \<Rightarrow> Inr t
          | None \<Rightarrow> (case rp_suspicion s of Some t \<Rightarrow> Inr t | None \<Rightarrow> Inl (TypeError ''not subscriptable'')))) (\<lambda>start.
        let ready = [rc_received r. (x, r) \<leftarrow> rp_ws s, x div 32 = 1] in
        ebind ((if ready = [] then Inl (ValueError ''max() arg is an empty sequence'') else Inr (Max (set ready)))) (\<lambda>attach.
        ebind ((case rp_held s of Some t \<Rightarrow> Inr t | None \<Rightarrow> Inl (TypeError ''not subscriptable''))) (\<lambda>held.
        Inr (VDict [(''basis'', VStr (if rp_terminal s \<noteq> None then ''terminal_notification'' else ''false_suspicion'')),
          (''successor_all_attached_ns'', VInt (attach - start)),
          (''successor_first_validated_read_ns'', VInt (held - start))]))))))"

definition replay_trace :: "(int list \<Rightarrow> int) \<Rightarrow> jvalue list \<Rightarrow> (chaos_plan \<times> replay_state) result" where
  "replay_trace crc32 events = (
    need (3 \<le> length events) ''missing trace'' (
    ebind (chaos_header (hd events)) (\<lambda>h.
    ebind (efold (on_event crc32 h (length events)) replay_start (zip [1..<Suc (length events)] events)) (\<lambda>s.
    ebind (item (last events) ''event'') (\<lambda>kind.
    need (py_eq kind (VStr ''complete'')) ''missing completion'' (
    ebind (obligations h s) (\<lambda>_.
    Inr (h, s))))))))"

definition verify_events :: "(int list \<Rightarrow> int) \<Rightarrow> jvalue list \<Rightarrow> jvalue result" where
  "verify_events crc32 events = (
    ebind (replay_trace crc32 events) (\<lambda>(h, s).
    ebind (recovery h s) (\<lambda>r.
    Inr (VDict [(''status'', VStr ''PASS_WITHIN_SCOPE''), (''scenario'', VStr (cp_scenario h)),
       (''mode'', VInt (cp_mode h)), (''messages'', VInt (rp_messages s)),
       (''generations'', VInt (int (length (rp_gs s)))), (''worker_processes'', VInt (int (length (rp_ws s)))),
       (''signals_sent'', VInt (int (length (rp_signals s)))), (''recovery'', r),
       (''inventories'', VDict (map (\<lambda>(k, v). (show_int k, v)) (rp_snaps s)))]))))"

section \<open>Files and campaigns\<close>

text \<open>A trace file: its size, its nonblank lines as scanned, the size and digests the campaign compares.\<close>

record trace_file =
  tf_size :: int
  tf_lines :: "jtext result list"
  tf_sha :: string

definition verify_file :: "(int list \<Rightarrow> int) \<Rightarrow> trace_file \<Rightarrow> jvalue result" where
  "verify_file crc32 f = (
    need (tf_size f \<le> 128 * 1024 * 1024) ''oversized trace'' (
    ebind (emap (\<lambda>l. ebind l loads) (tf_lines f)) (\<lambda>records.
    ebind ((case records of [r] \<Rightarrow> ebind (dget r ''schema'' VNone) (\<lambda>v. Inr (py_eq v (VStr ''elite-chaos-resource-v1'')))
                  | _ \<Rightarrow> Inr False)) (\<lambda>resource.
    if resource then verify_resource (hd records) else verify_events crc32 records))))"

definition SOURCE_INPUTS :: "string list" where
  "SOURCE_INPUTS = [
     ''tests/test_chaos_multiprocess.c'', ''tests/chaos_protocol.h'',
     ''tests/test_chaos_resources.c'', ''tests/test_support.h'',
     ''tools/run_chaos.py'', ''tools/verify_chaos_results.py'',
     ''src/elite_spsc.c'', ''src/elite_mpmc_ncq.c'', ''src/elite_core.c'',
     ''src/elite_shm.c'', ''src/elite_format.c'', ''src/elite_wait.c'',
     ''src/elite_version.c'', ''src/elite_internal.h'',
     ''include/elite_ringbuffer.h'', ''include/elite_api.h'', ''include/elite_version.h'',
     ''Makefile'']"

text \<open>The files of a case: its run document, its trace and its diagnostics (size and digest).\<close>

record case_files =
  cf_run :: "jtext result"
  cf_trace :: trace_file
  cf_err_size :: int
  cf_err_sha :: string

definition frozen_case :: "chaos_case \<times> jvalue \<Rightarrow> unit result" where
  "frozen_case wa = (case wa of (wanted, actual) \<Rightarrow> (
    ebind (item actual ''id'') (\<lambda>i.
    need (py_eq i (VStr (case_id wanted))) ''changed predeclared case'' (
    ebind (item actual ''kind'') (\<lambda>k.
    need (py_eq k (VStr (case_kind wanted))) ''changed predeclared case'' (
    ebind (item actual ''binary'') (\<lambda>b.
    need (py_eq b (VStr (case_binary wanted))) ''changed predeclared case'' (
    ebind (item actual ''args'') (\<lambda>a.
    need (py_eq a (VList (map VStr (case_args wanted)))) ''changed predeclared case'' (
    ebind (item actual ''command'') (\<lambda>cv.
    ebind (elem cv 0) (\<lambda>program.
    ebind ((case program of VStr x \<Rightarrow> Inr x | _ \<Rightarrow> Inl (TypeError ''path''))) (\<lambda>p.
    need (path_name p = case_binary wanted) ''command workload substitution'' (
    ebind (iter cv) (\<lambda>args.
    need (is_list cv \<and> list_eq (tl args) (map VStr (case_args wanted))) ''command workload substitution'' (Inr ()))))))))))))))))"

definition trace_workload :: "trace_file \<Rightarrow> jvalue \<Rightarrow> unit result" where
  "trace_workload f command = (
    ebind ((case tf_lines f of [] \<Rightarrow> Inl IndexError | l # ls \<Rightarrow> ebind l loads)) (\<lambda>first.
    ebind (emap (\<lambda>i. ebind (elem command i) (\<lambda>v. case v of VStr x \<Rightarrow> Inr x | _ \<Rightarrow> Inl (TypeError ''str''))) [1, 2, 3, 4]) (\<lambda>cmd.
    ebind (item first ''scenario'') (\<lambda>scenario.
    need (py_eq scenario (VStr (cmd ! 0))) ''trace disagrees with frozen workload'' (
    ebind (item first ''mode'') (\<lambda>mode.
    ebind (at_key [(''spsc'', 1), (''ncq'', 2)] (cmd ! 1)) (\<lambda>m.
    need (py_eq mode (VInt m)) ''trace disagrees with frozen workload'' (
    ebind (item first ''messages'') (\<lambda>messages.
    ebind (parse_int (cmd ! 2)) (\<lambda>n.
    need (py_eq messages (VInt n)) ''trace disagrees with frozen workload'' (
    ebind (item first ''hold_ms'') (\<lambda>hold.
    ebind (parse_int (cmd ! 3)) (\<lambda>ms.
    need (py_eq hold (VInt ms)) ''trace disagrees with frozen workload'' (Inr ()))))))))))))))"

definition campaign_case ::
    "(int list \<Rightarrow> int) \<Rightarrow> (string \<Rightarrow> case_files result) \<Rightarrow> jvalue \<Rightarrow> jvalue result" where
  "campaign_case crc32 files c = (
    ebind (item c ''id'') (\<lambda>i.
    ebind ((case i of VStr x \<Rightarrow> Inr x | _ \<Rightarrow> Inl (TypeError ''expected string''))) (\<lambda>identity.
    need (identity \<noteq> [] \<and> list_all (\<lambda>x. x \<in> set ''abcdefghijklmnopqrstuvwxyz0123456789_-'') identity) ''unsafe case path'' (
    ebind (files identity) (\<lambda>cf.
    ebind (cf_run cf) (\<lambda>j.
    ebind (loads j) (\<lambda>run.
    ebind (item run ''returncode'') (\<lambda>rc.
    need (py_eq rc (VInt 0)) ''case did not complete'' (
    ebind (item run ''timed_out'') (\<lambda>late.
    need (late = VBool False) ''case did not complete'' (
    ebind (item run ''command'') (\<lambda>rcmd.
    ebind (item c ''command'') (\<lambda>cmd.
    need (py_eq rcmd cmd) ''changed command'' (
    ebind (item run ''trace_sha256'') (\<lambda>th.
    need (py_eq (VStr (tf_sha (cf_trace cf))) th) ''trace hash'' (
    ebind (item run ''stderr_sha256'') (\<lambda>eh.
    need (py_eq (VStr (cf_err_sha cf)) eh) ''trace hash'' (
    need (cf_err_size cf = 0) ''unexpected native diagnostics'' (
    ebind (verify_file crc32 (cf_trace cf)) (\<lambda>proof.
    ebind (item c ''kind'') (\<lambda>kind.
    ebind ((if py_eq kind (VStr ''data'') then trace_workload (cf_trace cf) cmd else Inr ())) (\<lambda>_.
    Inr proof))))))))))))))))))))))"

definition verify_campaign ::
    "(int list \<Rightarrow> int) \<Rightarrow> jtext result \<Rightarrow> string \<Rightarrow> jtext result \<Rightarrow> (string \<Rightarrow> case_files result)
     \<Rightarrow> (string \<Rightarrow> string result) option \<Rightarrow> (string \<Rightarrow> string result) option \<Rightarrow> jvalue list result" where
  "verify_campaign crc32 plan_text plan_sha result_text files source_root build = (
    ebind plan_text (\<lambda>pj.
    ebind (loads pj) (\<lambda>plan.
    ebind result_text (\<lambda>rj.
    ebind (loads rj) (\<lambda>res.
    ebind (item plan ''schema'') (\<lambda>schema.
    need (py_eq schema (VStr ''elite-chaos-campaign-v1'')) ''incomplete campaign'' (
    ebind (item res ''status'') (\<lambda>st.
    need (py_eq st (VStr ''COMPLETE'')) ''incomplete campaign'' (
    ebind (item res ''plan_sha256'') (\<lambda>ph.
    need (py_eq ph (VStr plan_sha)) ''changed plan'' (
    ebind (item plan ''profile'') (\<lambda>pv.
    ebind (item plan ''trials'') (\<lambda>tv.
    ebind (item plan ''messages'') (\<lambda>mv.
    ebind (item plan ''storm_messages'') (\<lambda>sv.
    ebind (campaign_matrix pv tv mv sv) (\<lambda>canonical.
    ebind (item plan ''cases'') (\<lambda>cv.
    ebind (elements cv) (\<lambda>cases.
    need (length canonical = length cases) ''changed campaign population'' (
    ebind (eall frozen_case (zip canonical cases)) (\<lambda>_.
    ebind (item plan ''source_hashes'') (\<lambda>hv.
    ebind (dict_items hv) (\<lambda>hashes.
    need (set (keys hashes) = set SOURCE_INPUTS) ''missing source identity'' (
    ebind (item plan ''binaries'') (\<lambda>bv.
    ebind (dict_items bv) (\<lambda>binaries.
    need (set (keys binaries) = {''chaos_multiprocess'', ''chaos_multiprocess_hooks'', ''chaos_resources''})
       ''missing binary identity'' (
    let wanted = map (\<lambda>c. VStr (case_id c)) canonical in
    need (distinct (map case_id canonical)) ''duplicate case identity'' (
    ebind (item res ''cases'') (\<lambda>rcases.
    need (py_eq rcases (VList wanted)) ''missing/extra complete case'' (
    ebind (emap (campaign_case crc32 files) cases) (\<lambda>reports.
    ebind ((case source_root of None \<Rightarrow> Inr () | Some sha_of \<Rightarrow>
        eall (\<lambda>(name, v). need (\<not> is_absolute name \<and> ''..'' \<notin> set (path_parts name)) ''unsafe source path''
          (ebind (sha_of name) (\<lambda>x. need (py_eq (VStr x) v) ''source drift'' (Inr ())))) hashes)) (\<lambda>_.
    ebind ((case build of None \<Rightarrow> Inr () | Some sha_of \<Rightarrow>
        eall (\<lambda>(name, v). ebind (sha_of name) (\<lambda>x. need (py_eq (VStr x) v) ''binary drift'' (Inr ()))) binaries)) (\<lambda>_.
    Inr reports))))))))))))))))))))))))))))))))"

end
