(* ===== verification/Chaos_Claims.thy ===== *)
theory Chaos_Claims
  imports Chaos_Verify
begin

unbundle bit_operations_syntax

text \<open>
  What the chaos verifier's acceptance means for the messages and for the tokens of a queue: a
  reconciled cohort delivered every message to exactly one consumer, and a snapshot accounts for
  every token exactly once.
\<close>

section \<open>Messages\<close>

text \<open>Consumer \<open>wid\<close> reports message \<open>m\<close> in its bitmap.\<close>

definition reports :: "replay_state \<Rightarrow> generation \<Rightarrow> int \<Rightarrow> nat \<Rightarrow> bool" where
  "reports s g wid m \<longleftrightarrow> \<not> is_producer g wid
     \<and> (case map_of (rp_bitmaps s) wid of None \<Rightarrow> False | Some raw \<Rightarrow> bit (le_int raw) m)"

lemma cohort_member_ok:
  assumes "cohort_member s g l wid = Inr l'"
  shows "bit (lg_union l') m \<longleftrightarrow> bit (lg_union l) m \<or> reports s g wid m"
    and "\<not> (bit (lg_union l) m \<and> reports s g wid m)"
proof -
  have "bit (lg_union l') m = (bit (lg_union l) m \<or> reports s g wid m) \<and> \<not> (bit (lg_union l) m \<and> reports s g wid m)"
  proof (cases "is_producer g wid")
    case True
    with assms show ?thesis by (auto simp: cohort_member_def ebind_ok reports_def Let_def)
  next
    case False
    with assms obtain raw where raw: "map_of (rp_bitmaps s) wid = Some raw" "lg_union l AND le_int raw = 0"
      "lg_union l' = lg_union l OR le_int raw"
      by (auto simp: cohort_member_def ebind_ok need_ok at_key_ok Let_def)
    have "\<not> (bit (lg_union l) m \<and> bit (le_int raw) m)"
      using arg_cong [OF raw(2), of "\<lambda>x. bit x m"] by (simp add: bit_and_iff)
    with raw(1,3) False show ?thesis by (simp add: reports_def bit_or_iff)
  qed
  then show "bit (lg_union l') m \<longleftrightarrow> bit (lg_union l) m \<or> reports s g wid m"
    and "\<not> (bit (lg_union l) m \<and> reports s g wid m)" by auto
qed

lemma cohort_union:
  assumes "efold (cohort_member s g) l xs = Inr l'"
  shows "bit (lg_union l') m \<longleftrightarrow> bit (lg_union l) m \<or> (\<exists>wid\<in>set xs. reports s g wid m)"
    and "bit (lg_union l) m \<Longrightarrow> wid \<in> set xs \<Longrightarrow> \<not> reports s g wid m"
    and "wid \<in> set xs \<Longrightarrow> wid' \<in> set xs \<Longrightarrow> reports s g wid m \<Longrightarrow> reports s g wid' m \<Longrightarrow> wid = wid'"
proof -
  have "(bit (lg_union l') m \<longleftrightarrow> bit (lg_union l) m \<or> (\<exists>wid\<in>set xs. reports s g wid m))
    \<and> (bit (lg_union l) m \<longrightarrow> (\<forall>wid\<in>set xs. \<not> reports s g wid m))
    \<and> (\<forall>wid\<in>set xs. \<forall>wid'\<in>set xs. reports s g wid m \<longrightarrow> reports s g wid' m \<longrightarrow> wid = wid')"
    using assms
  proof (induction xs arbitrary: l)
    case (Cons x xs)
    then obtain k where k: "cohort_member s g l x = Inr k" "efold (cohort_member s g) k xs = Inr l'"
      by (auto simp: ebind_ok)
    show ?case using Cons.IH [OF k(2)] cohort_member_ok [OF k(1), of m] by auto
  qed auto
  then show "bit (lg_union l') m \<longleftrightarrow> bit (lg_union l) m \<or> (\<exists>wid\<in>set xs. reports s g wid m)"
    and "bit (lg_union l) m \<Longrightarrow> wid \<in> set xs \<Longrightarrow> \<not> reports s g wid m"
    and "wid \<in> set xs \<Longrightarrow> wid' \<in> set xs \<Longrightarrow> reports s g wid m \<Longrightarrow> reports s g wid' m \<Longrightarrow> wid = wid'" by auto
qed

text \<open>Producer \<open>wid\<close> sent message \<open>m\<close>: it lies in the part of the assigned range that the producer
  reports as sent.\<close>

definition sent_by :: "replay_state \<Rightarrow> generation \<Rightarrow> int \<Rightarrow> nat \<Rightarrow> bool" where
  "sent_by s g wid m \<longleftrightarrow> is_producer g wid
     \<and> (case (map_of (rp_done s) wid, map_of (rp_commands s) wid) of
          (Some r, Some order) \<Rightarrow> nat (or_first order) \<le> m \<and> m < nat (or_first order) + nat (rc_values r ! 0)
        | _ \<Rightarrow> False)"

lemma bit_range: "bit (push_bit a (2 ^ b - 1) :: int) m \<longleftrightarrow> a \<le> m \<and> m < a + b"
  by (auto simp: bit_push_bit_iff_int bit_mask_iff simp flip: mask_eq_exp_minus_1)

lemma cohort_member_sent:
  assumes "cohort_member s g l wid = Inr l'"
  shows "bit (lg_published l') m \<longleftrightarrow> bit (lg_published l) m \<or> sent_by s g wid m"
proof (cases "is_producer g wid")
  case True
  with assms obtain r order where "map_of (rp_done s) wid = Some r" "map_of (rp_commands s) wid = Some order"
    "lg_published l' = lg_published l
       OR push_bit (nat (or_first order)) (push_bit (nat (rc_values r ! 0)) 1 - 1)"
    by (auto simp: cohort_member_def ebind_ok at_key_ok Let_def)
  with True show ?thesis by (simp add: sent_by_def bit_or_iff bit_range)
next
  case False
  with assms show ?thesis by (auto simp: cohort_member_def ebind_ok need_ok sent_by_def Let_def)
qed

lemma cohort_published:
  assumes "efold (cohort_member s g) l xs = Inr l'"
  shows "bit (lg_published l') m \<longleftrightarrow> bit (lg_published l) m \<or> (\<exists>wid\<in>set xs. sent_by s g wid m)"
  using assms
proof (induction xs arbitrary: l)
  case (Cons x xs)
  then obtain k where k: "cohort_member s g l x = Inr k" "efold (cohort_member s g) k xs = Inr l'"
    by (auto simp: ebind_ok)
  show ?case using Cons.IH [OF k(2)] cohort_member_sent [OF k(1), of m] by auto
qed auto

lemma on_cohort_inversion:
  assumes "on_cohort h s e = Inr t"
  obtains gi g l where "generation_key s e ''duplicate cohort'' = Inr gi" "map_of (rp_gs s) gi = Some g"
    "cohort_ledger h s gi g = Inr l"
    "if is_async h \<and> gi = 0
     then rp_quarantine s \<and> lg_received l \<le> lg_sent l \<and> lg_sent l \<le> cp_count h \<and> lg_union l AND NOT (lg_published l) = 0
     else lg_sent l = lg_received l \<and> lg_received l = cp_count h \<and> lg_union l = push_bit (nat (cp_count h)) 1 - 1"
    "t = s\<lparr>rp_cohorts := rp_cohorts s @ [gi], rp_messages := rp_messages s + lg_received l,
       rp_pending := (if is_async h \<and> gi = 0 then AList.update gi (lg_published l XOR lg_union l) (rp_pending s) else rp_pending s)\<rparr>"
  using assms unfolding on_cohort_def Let_def ebind_ok need_ok at_key_ok sum.inject by blast

lemma cohort_ledger_folds:
  assumes "cohort_ledger h s gi g = Inr l"
  shows "efold (cohort_member s g) \<lparr>lg_union = 0, lg_sent = 0, lg_received = 0, lg_special = 0, lg_starts = [], lg_published = 0\<rparr>
      (cohort_members s gi) = Inr l"
  using assms by (auto simp: cohort_ledger_def ebind_ok need_ok Let_def)

text \<open>C34: No two consumers of a cohort that the chaos verifier reconciles report the same message. Outside
  generation 0 of an asynchronous scenario the cohort delivered exactly the planned messages: the number
  \<open>m\<close> is below the planned count exactly when one and only one consumer reports it, and that count
  is added to the measured messages. The cohort of generation 0 of an asynchronous scenario is cut on
  purpose and need not be complete: there a reported message was sent by a producer, at most the planned
  count is added, and the messages sent but not reported are recorded as pending, exactly those.\<close>

theorem cohort_exactly_once:
  assumes "on_cohort h s e = Inr t" "generation_key s e ''duplicate cohort'' = Inr gi" "map_of (rp_gs s) gi = Some g"
  shows "(\<forall>wid\<in>set (cohort_members s gi). \<forall>wid'\<in>set (cohort_members s gi).
        reports s g wid m \<and> reports s g wid' m \<longrightarrow> wid = wid')
    \<and> (if is_async h \<and> gi = 0
       then rp_quarantine s
         \<and> ((\<exists>wid\<in>set (cohort_members s gi). reports s g wid m) \<longrightarrow> (\<exists>wid\<in>set (cohort_members s gi). sent_by s g wid m))
         \<and> rp_messages t \<le> rp_messages s + cp_count h
         \<and> (\<exists>pending. map_of (rp_pending t) gi = Some pending
             \<and> bit pending m = ((\<exists>wid\<in>set (cohort_members s gi). sent_by s g wid m)
                 \<and> \<not> (\<exists>wid\<in>set (cohort_members s gi). reports s g wid m)))
       else (m < nat (cp_count h)) = (\<exists>!wid. wid \<in> set (cohort_members s gi) \<and> reports s g wid m)
         \<and> rp_messages t = rp_messages s + cp_count h)"
proof -
  from assms(1) obtain gi' g' l where i: "generation_key s e ''duplicate cohort'' = Inr gi'" "map_of (rp_gs s) gi' = Some g'"
    "cohort_ledger h s gi' g' = Inr l"
    "if is_async h \<and> gi' = 0
     then rp_quarantine s \<and> lg_received l \<le> lg_sent l \<and> lg_sent l \<le> cp_count h \<and> lg_union l AND NOT (lg_published l) = 0
     else lg_sent l = lg_received l \<and> lg_received l = cp_count h \<and> lg_union l = push_bit (nat (cp_count h)) 1 - 1"
    "t = s\<lparr>rp_cohorts := rp_cohorts s @ [gi'], rp_messages := rp_messages s + lg_received l,
       rp_pending := (if is_async h \<and> gi' = 0 then AList.update gi' (lg_published l XOR lg_union l) (rp_pending s) else rp_pending s)\<rparr>"
    by (rule on_cohort_inversion)
  have same: "gi' = gi" "g' = g" using i(1,2) assms(2,3) by auto
  note f = cohort_ledger_folds [OF i(3) [unfolded same]]
  have union: "bit (lg_union l) m \<longleftrightarrow> (\<exists>wid\<in>set (cohort_members s gi). reports s g wid m)" for m
    using cohort_union(1) [OF f, of m] by simp
  have published: "bit (lg_published l) m \<longleftrightarrow> (\<exists>wid\<in>set (cohort_members s gi). sent_by s g wid m)"
    using cohort_published [OF f, of m] by simp
  have once: "wid = wid'" if "wid \<in> set (cohort_members s gi)" "wid' \<in> set (cohort_members s gi)"
      "reports s g wid m" "reports s g wid' m" for wid wid'
    using cohort_union(3) [OF f that] .
  show ?thesis
  proof (cases "is_async h \<and> gi = 0")
    case True
    have "lg_union l AND NOT (lg_published l) = 0" using i(4) True same by simp
    from arg_cong [OF this, of "\<lambda>x. bit x m"]
    have sub: "bit (lg_union l) m \<longrightarrow> bit (lg_published l) m" by (simp add: bit_and_iff bit_not_iff)
    show ?thesis using True i(4,5) sub once
      by (auto simp: same union published bit_xor_iff update_conv)
  next
    case False
    have "(m < nat (cp_count h)) = (\<exists>wid\<in>set (cohort_members s gi). reports s g wid m)"
      using i(4) False union [of m] by (auto simp: same bit_mask_iff simp flip: mask_eq_exp_minus_1)
    also have "\<dots> = (\<exists>!wid. wid \<in> set (cohort_members s gi) \<and> reports s g wid m)" using once by blast
    finally show ?thesis using False i(4,5) once by (auto simp: same)
  qed
qed

definition demo_chaos :: chaos_plan where
  "demo_chaos = \<lparr>cp_scenario = ''read_held'', cp_abi = ''linux'', cp_mode = 1, cp_count = 4, cp_hold = 1, cp_p = 1, cp_c = 1\<rparr>"

definition demo_generation :: generation where
  "demo_generation = \<lparr>ge_event = VNone, ge_producers = 1, ge_consumers = 1, ge_bytes = 16384, ge_prefix = []\<rparr>"

definition demo_receipt :: "int list \<Rightarrow> receipt" where
  "demo_receipt v = \<lparr>rc_sequence = 2, rc_tick = 5, rc_received = 6, rc_kind = 3, rc_pid = VInt 9, rc_values = v\<rparr>"

definition demo_replay :: replay_state where
  "demo_replay = replay_start\<lparr>rp_gs := [(0, demo_generation), (1, demo_generation)],
     rp_commands := [(32, \<lparr>or_command = 1, or_first = 0, or_quota = 4\<rparr>)],
     rp_done := [(32, demo_receipt [4, 0, 0, 0, 0, 0, 0, 0]), (33, demo_receipt [4, 0, 1, 0, 0, 0, 0, 0])],
     rp_bitmaps := [(32, []), (33, [15])]\<rparr>"

definition demo_cohort :: jvalue where
  "demo_cohort = VDict [(''generation_id'', VInt 1), (''retired_during_work'', VBool False), (''sent'', VInt 4),
     (''received'', VInt 4), (''sentinel_received'', VInt 0)]"

lemma demo_key: "generation_key demo_replay demo_cohort ''duplicate cohort'' = Inr 1"
  by (simp add: generation_key_def demo_replay_def demo_cohort_def int_key_def keys_def)

lemma demo_ledger: "cohort_ledger demo_chaos demo_replay 1 demo_generation =
    Inr \<lparr>lg_union = 15, lg_sent = 4, lg_received = 4, lg_special = 0, lg_starts = [(0, 4)], lg_published = 15\<rparr>"
  by code_simp

lemma demo_accepted: "\<exists>t. on_cohort demo_chaos demo_replay demo_cohort = Inr t"
proof -
  have "map_of (rp_gs demo_replay) 1 = Some demo_generation" "rp_cohorts demo_replay = []"
    by (simp_all add: demo_replay_def replay_start_def)
  then show ?thesis unfolding on_cohort_def
    by (simp add: demo_key demo_ledger at_key_def is_async_def is_storm_def)
      (simp add: demo_chaos_def demo_cohort_def need_def)
qed

theorem cohort_exactly_once_witness:
  "(\<exists>!wid. wid \<in> set (cohort_members demo_replay 1) \<and> reports demo_replay demo_generation wid 2)
    \<and> \<not> (\<exists>!wid. wid \<in> set (cohort_members demo_replay 1) \<and> reports demo_replay demo_generation wid 4)"
proof -
  obtain t where t: "on_cohort demo_chaos demo_replay demo_cohort = Inr t" using demo_accepted by blast
  have g: "map_of (rp_gs demo_replay) 1 = Some demo_generation" by (simp add: demo_replay_def replay_start_def)
  have c: "cp_count demo_chaos = 4" "(is_async demo_chaos \<and> (1::int) = 0) = False" by (simp_all add: demo_chaos_def)
  show ?thesis
    using cohort_exactly_once [OF t demo_key g, of 2] cohort_exactly_once [OF t demo_key g, of 4]
    unfolding c if_False by (simp del: not_ex)
qed

section \<open>Tokens\<close>

lemma queue_token_ok:
  "queue_token entries n ticket = Inr b \<longleftrightarrow>
     entries ! nat (ticket mod n) div n = ticket div n \<and> b = entries ! nat (ticket mod n) mod n"
  by (auto simp: queue_token_def Let_def need_ok)

lemma queue_members_ok:
  assumes "queue_members hv tv ev n = Inr (members, frontier)" "0 < n"
  shows "distinct members \<and> set members \<subseteq> {0..<n} \<and> int (length members) \<le> n
    \<and> (\<exists>head. hv = VInt head \<and> head \<le> frontier \<and> int (length members) = frontier - head)"
proof -
  from assms(1) obtain head entries where q: "hv = VInt head" "head \<le> frontier" "frontier - head \<le> n"
    "emap (queue_token entries n) [head..frontier - 1] = Inr members" "distinct members"
    by (auto simp: queue_members_def Let_def ebind_ok need_ok integer_ok case_list_ok)
  have l: "length members = length [head..frontier - 1]" using emap_length [OF q(4)] .
  have "b \<in> {0..<n}" if b: "b \<in> set members" for b
  proof -
    from b obtain i where i: "i < length members" "b = members ! i" by (metis in_set_conv_nth)
    have "queue_token entries n ([head..frontier - 1] ! i) = Inr b"
      using q(4) i l unfolding emap_ok list_all2_conv_all_nth by simp
    then show ?thesis using assms(2) by (auto simp: queue_token_ok)
  qed
  then show ?thesis using q l by auto
qed

lemma ncq_snapshot_inversion:
  assumes "ncq_snapshot h s gi e sts eps ids = Inr snap"
  obtains cs qf qr f uf q ur where "queue_members (cs ! 0) (cs ! 1) qf 64 = Inr (f, uf)"
    "queue_members (cs ! 2) (cs ! 3) qr 64 = Inr (q, ur)" "set f \<inter> set q = {}"
    "missing_population h s gi \<lparr>in_free = f, in_ready = q, in_missing = filter (\<lambda>b. b \<notin> set f \<and> b \<notin> set q) [0..63],
       in_status = sts, in_epochs = eps, in_ids = ids\<rparr> = Inr ()"
    "snap = VDict [(''free'', ints f), (''ready'', ints q),
       (''unavailable_orphan'', ints (filter (\<lambda>b. b \<notin> set f \<and> b \<notin> set q) [0..63])),
       (''qf_frontier'', VInt uf), (''qr_frontier'', VInt ur)]"
proof -
  from assms obtain cs qf qr a b where "queue_members (cs ! 0) (cs ! 1) qf 64 = Inr a"
    "queue_members (cs ! 2) (cs ! 3) qr 64 = Inr b" "set (fst a) \<inter> set (fst b) = {}"
    "missing_population h s gi \<lparr>in_free = fst a, in_ready = fst b,
       in_missing = filter (\<lambda>x. x \<notin> set (fst a) \<and> x \<notin> set (fst b)) [0..63],
       in_status = sts, in_epochs = eps, in_ids = ids\<rparr> = Inr ()"
    "snap = VDict [(''free'', ints (fst a)), (''ready'', ints (fst b)),
       (''unavailable_orphan'', ints (filter (\<lambda>x. x \<notin> set (fst a) \<and> x \<notin> set (fst b)) [0..63])),
       (''qf_frontier'', VInt (snd a)), (''qr_frontier'', VInt (snd b))]"
    unfolding ncq_snapshot_def Let_def ebind_ok need_ok case_prod_unfold inventory.simps sum.inject by auto
  then show ?thesis using that [of cs qf "fst a" "snd a" qr "fst b" "snd b"] by simp
qed

lemma missing_populationD:
  assumes "missing_population h s gi v = Inr ()"
  shows "if gi = 0 \<and> is_async h
     then \<exists>r. rp_cut s = Some r \<and> distinct (rc_values r ! 2 # map snd (retained s))
       \<and> set (in_missing v) = set (rc_values r ! 2 # map snd (retained s))
     else if gi = 0 \<and> is_random h then length (in_missing v) \<le> 1
     else length (in_missing v) = (if gi \<noteq> 0 \<or> is_storm h
          \<or> cp_scenario h \<in> set [''write_published'', ''read_returned'', ''late_publication''] then 0 else 1)"
  using assms by (auto simp: missing_population_def cut_block_def Let_def need_ok ebind_ok
    split: if_split_asm option.split_asm)

text \<open>C35: An NCQ snapshot that the chaos verifier accepts accounts for every token: the reported free, ready
  and orphaned tokens are duplicate-free, pairwise disjoint and together exactly the 64 blocks. The
  orphans are the ones the scenario allows: in generation 0 of an asynchronous scenario they are the token of
  the native cut and the tokens that terminated workers report as retained, all different; in generation 0
  of a random scenario there is at most one; everywhere else there is none or one, as the scenario's cut says.\<close>

theorem snapshot_accounts_tokens:
  assumes "ncq_snapshot h s gi e sts eps ids = Inr snap"
  shows "\<exists>f q missing uf ur. snap = VDict [(''free'', ints f), (''ready'', ints q), (''unavailable_orphan'', ints missing),
       (''qf_frontier'', VInt uf), (''qr_frontier'', VInt ur)]
    \<and> distinct (f @ q @ missing) \<and> set (f @ q @ missing) = {0..<64}
    \<and> (if gi = 0 \<and> is_async h
       then \<exists>r. rp_cut s = Some r \<and> distinct (rc_values r ! 2 # map snd (retained s))
         \<and> set missing = set (rc_values r ! 2 # map snd (retained s))
       else if gi = 0 \<and> is_random h then length missing \<le> 1
       else length missing = (if gi \<noteq> 0 \<or> is_storm h
            \<or> cp_scenario h \<in> set [''write_published'', ''read_returned'', ''late_publication''] then 0 else 1))"
proof -
  define missing where "missing f q = filter (\<lambda>b. b \<notin> set f \<and> b \<notin> set q) [0..63]" for f q :: "int list"
  from assms obtain cs qf qr f uf q ur where i: "queue_members (cs ! 0) (cs ! 1) qf 64 = Inr (f, uf)"
    "queue_members (cs ! 2) (cs ! 3) qr 64 = Inr (q, ur)" "set f \<inter> set q = {}"
    "missing_population h s gi \<lparr>in_free = f, in_ready = q, in_missing = missing f q,
       in_status = sts, in_epochs = eps, in_ids = ids\<rparr> = Inr ()"
    "snap = VDict [(''free'', ints f), (''ready'', ints q), (''unavailable_orphan'', ints (missing f q)),
       (''qf_frontier'', VInt uf), (''qr_frontier'', VInt ur)]"
    unfolding missing_def by (rule ncq_snapshot_inversion)
  have f: "distinct f" "set f \<subseteq> {0..<64}" and q: "distinct q" "set q \<subseteq> {0..<64}"
    using queue_members_ok [OF i(1)] queue_members_ok [OF i(2)] by auto
  have "distinct (f @ q @ missing f q)" using f(1) q(1) i(3) by (auto simp: missing_def)
  moreover have "set (f @ q @ missing f q) = {0..<64}" using f(2) q(2) by (auto simp: missing_def)
  moreover have "if gi = 0 \<and> is_async h
       then \<exists>r. rp_cut s = Some r \<and> distinct (rc_values r ! 2 # map snd (retained s))
         \<and> set (missing f q) = set (rc_values r ! 2 # map snd (retained s))
       else if gi = 0 \<and> is_random h then length (missing f q) \<le> 1
       else length (missing f q) = (if gi \<noteq> 0 \<or> is_storm h
            \<or> cp_scenario h \<in> set [''write_published'', ''read_returned'', ''late_publication''] then 0 else 1)"
    using missing_populationD [OF i(4)] unfolding inventory.simps .
  ultimately show ?thesis using i(5) by blast
qed

text \<open>An asynchronous cut at block 0 while a terminated producer retains block 1; the other blocks are free.\<close>

definition demo_async :: chaos_plan where
  "demo_async = \<lparr>cp_scenario = ''async_resume_write'', cp_abi = ''linux'', cp_mode = 2, cp_count = 16, cp_hold = 1,
     cp_p = 1, cp_c = 1\<rparr>"

definition demo_cut :: replay_state where
  "demo_cut = replay_start\<lparr>rp_done := [(0, demo_receipt [4, 0, 0, 0, 0, 0, 0, 2])],
     rp_cut := Some (demo_receipt [0, 0, 0, 0, 0, 0, 0, 0]), rp_pending := [(0, 0)]\<rparr>"

definition demo_snapshot :: jvalue where
  "demo_snapshot = VDict [(''cursors'', VList [VInt 2, VInt 64, VInt 64, VInt 64]),
     (''qf_entries'', VList (map VInt [0..63])), (''qr_entries'', VList (replicate 64 (VInt 0)))]"

lemma demo_snapshot_accepted:
  "case ncq_snapshot demo_async demo_cut 0 demo_snapshot (5 # 1 # replicate 62 0) (1 # replicate 63 0) (replicate 64 0) of
     Inl e \<Rightarrow> False | Inr v \<Rightarrow> True"
  by code_simp

theorem snapshot_accounts_tokens_witness:
  "\<exists>f q missing uf ur. ncq_snapshot demo_async demo_cut 0 demo_snapshot
         (5 # 1 # replicate 62 0) (1 # replicate 63 0) (replicate 64 0)
       = Inr (VDict [(''free'', ints f), (''ready'', ints q), (''unavailable_orphan'', ints missing),
           (''qf_frontier'', VInt uf), (''qr_frontier'', VInt ur)])
     \<and> set (f @ q @ missing) = {0..<64} \<and> set missing = {0, 1}"
proof -
  obtain snap where s: "ncq_snapshot demo_async demo_cut 0 demo_snapshot
      (5 # 1 # replicate 62 0) (1 # replicate 63 0) (replicate 64 0) = Inr snap"
    using demo_snapshot_accepted by (auto split: sum.splits)
  have a: "is_async demo_async" by code_simp
  have c: "rp_cut demo_cut = Some (demo_receipt [0, 0, 0, 0, 0, 0, 0, 0])" by (simp add: demo_cut_def)
  have k: "set (rc_values (demo_receipt [0, 0, 0, 0, 0, 0, 0, 0]) ! 2 # map snd (retained demo_cut)) = {0, 1}" by code_simp
  from snapshot_accounts_tokens [OF s] obtain f q missing uf ur where
    "snap = VDict [(''free'', ints f), (''ready'', ints q), (''unavailable_orphan'', ints missing),
       (''qf_frontier'', VInt uf), (''qr_frontier'', VInt ur)]"
    and t: "set (f @ q @ missing) = {0..<64}"
    and "\<exists>r. rp_cut demo_cut = Some r \<and> set missing = set (rc_values r ! 2 # map snd (retained demo_cut))"
    using a by auto
  then have "set missing = {0, 1}" using c k by auto
  with s t \<open>snap = _\<close> show ?thesis by blast
qed

end
