(* ===== verification/Matrix_Topology.thy ===== *)
theory Matrix_Topology
  imports Floats
begin

text \<open>
  Placement and geometry checks of \<open>tools/verify_matrix_results.py\<close>: observations that may be
  unavailable, CPU sets, the topology snapshot, the locality a run may claim, the size of the backing
  segment and the cache bounds that are reported. A Python set of integers is a duplicate-free list;
  names interpolated in messages are left out.
\<close>

unbundle bit_operations_syntax

text \<open>\<open>load(path)\<close> of a document: its size and what the JSON scanner makes of it.\<close>

type_synonym document = "int \<times> jtext result"

definition load_document :: "document \<Rightarrow> jvalue result" where
  "load_document f = (
    need (fst f \<le> 64 * 1024 * 1024) ''JSON exceeds limit'' (
    ebind (snd f) (\<lambda>j.
    loads j)))"

definition near :: "jvalue \<Rightarrow> rat \<Rightarrow> unit result" where
  "near value expected = (
    need (is_numeric value) ''nonfinite/non-numeric'' (
    ebind (is_finite value) (\<lambda>fin.
    need fin ''nonfinite/non-numeric'' (
    ebind (to_float expected) (\<lambda>target.
    ebind (exact value) (\<lambda>x.
    need (\<bar>x - expected\<bar> \<le> ulp target) ''>1 ULP error'' (Inr ())))))))"

section \<open>Observations\<close>

definition val :: "jvalue \<Rightarrow> int option result" where
  "val obs = (
    need (is_dict obs) ''invalid scalar observation'' (
    ebind (dget obs ''status'' VNone) (\<lambda>st.
    need (in_tuple st [''OBSERVED'', ''UNAVAILABLE'']) ''invalid scalar observation'' (
    ebind (uint_field obs ''error'' 0 (2 ^ 31 - 1)) (\<lambda>err.
    if st = VStr ''UNAVAILABLE'' then (
       ebind (item obs ''value'') (\<lambda>v.
       need (v = VNone) ''unavailable value invented'' (Inr None))) else (
       need (err = 0) ''observed value with error'' (
       ebind (uint_field obs ''value'' 0 U64) (\<lambda>i.
       Inr (Some i)))))))))"

definition cpuset :: "jvalue \<Rightarrow> int list result" where
  "cpuset obs = (
    ebind (item obs ''status'') (\<lambda>st.
    need (in_tuple st [''OBSERVED'', ''UNAVAILABLE'']) ''invalid set status'' (
    ebind (item obs ''cpus'') (\<lambda>v.
    ebind ((case v of VList xs \<Rightarrow> Inr xs | _ \<Rightarrow> Inl (ValueError ''cpuset array missing''))) (\<lambda>xs.
    ebind (emap (\<lambda>x. integer x 0 1023) xs) (\<lambda>ids.
    need (ids = sort (remdups ids)) ''unsorted or duplicate CPU list'' (
    ebind (uint_field obs ''error'' 0 (2 ^ 31 - 1)) (\<lambda>err.
    need ((err = 0) = (st = VStr ''OBSERVED'')) ''set status mismatch'' (
    need (st = VStr ''OBSERVED'' \<or> ids = []) ''failed cpuset has guessed IDs'' (
    Inr ids))))))))))"

text \<open>\<open>need(condition)\<close> after \<open>if not o['error']\<close>.\<close>

definition when_observed :: "jvalue \<Rightarrow> bool \<Rightarrow> string \<Rightarrow> unit result" where
  "when_observed obs c msg = (
    ebind (item obs ''error'') (\<lambda>err.
    need (\<not> truthy err \<longrightarrow> c) msg (Inr ())))"

section \<open>The topology snapshot\<close>

definition cache_entry :: "int \<Rightarrow> int list \<Rightarrow> jvalue \<Rightarrow> int list result" where
  "cache_entry ident indices cache = (
    ebind (uint_field cache ''index'' 0 (2 ^ 32 - 1)) (\<lambda>ix.
    need (ix \<notin> set indices) ''duplicate cache index'' (
    ebind (ebind (item cache ''level'') val) (\<lambda>level.
    ebind (ebind (item cache ''bytes'') val) (\<lambda>bytes.
    ebind (ebind (item cache ''line_bytes'') val) (\<lambda>line.
    ebind (ebind (item cache ''id'') val) (\<lambda>_.
    ebind (item cache ''shared_cpus'') (\<lambda>sc.
    ebind (cpuset sc) (\<lambda>shared.
    ebind (when_observed sc (ident \<in> set shared) ''cache excludes reporting CPU'') (\<lambda>_.
    need (case_option True (\<lambda>l. 1 \<le> l \<and> l \<le> 32) level) ''bad cache level'' (
    need (case_option True (\<lambda>b. 0 < b) bytes) ''zero cache size'' (
    need (case_option True (\<lambda>l. 0 < l \<and> l AND (l - 1) = 0) line) ''invalid line size'' (
    Inr (indices @ [ix]))))))))))))))"

definition cpu_entry :: "int list \<Rightarrow> (int \<times> jvalue) list \<Rightarrow> jvalue \<Rightarrow> (int \<times> jvalue) list result" where
  "cpu_entry allowed cpus c = (
    ebind (uint_field c ''cpu_id'' 0 1023) (\<lambda>ident.
    need (ident \<in> set allowed \<and> ident \<notin> set (keys cpus)) ''CPU scope/uniqueness mismatch'' (
    ebind (eall (\<lambda>k. ebind (item c k) val) [''package_id'', ''die_id'', ''core_id'', ''cluster_id'']) (\<lambda>_.
    ebind (item c ''smt_siblings'') (\<lambda>sv.
    ebind (cpuset sv) (\<lambda>siblings.
    ebind (when_observed sv (ident \<in> set siblings) ''CPU missing itself from sibling list'') (\<lambda>_.
    ebind (item c ''caches'') (\<lambda>cv.
    ebind (iter cv) (\<lambda>caches.
    ebind (efold (cache_entry ident) [] caches) (\<lambda>_.
    Inr (cpus @ [(ident, c)])))))))))))"

definition node_entry :: "(int \<times> int list) list \<Rightarrow> jvalue \<Rightarrow> (int \<times> int list) list result" where
  "node_entry nodes nd = (
    ebind (uint_field nd ''node_id'' 0 (2 ^ 31 - 1)) (\<lambda>ident.
    need (ident \<notin> set (keys nodes)) ''duplicate NUMA node'' (
    ebind (ebind (item nd ''cpus'') cpuset) (\<lambda>ids.
    Inr (nodes @ [(ident, ids)])))))"

definition cpu_node :: "(int \<times> int list) list \<Rightarrow> int \<times> jvalue \<Rightarrow> unit result" where
  "cpu_node nodes ic = (case ic of (i, c) \<Rightarrow> (
    ebind (uint_field c ''numa_node'' (-2) (2 ^ 31 - 1)) (\<lambda>node.
    need (0 \<le> node \<longrightarrow> set (keys (filter (\<lambda>(k, ids). i \<in> set ids) nodes)) = {node}) ''NUMA map mismatch or ambiguity''
       (Inr ()))))"

definition cgroup_entry :: "jvalue \<Rightarrow> unit result" where
  "cgroup_entry g = (
    ebind (ebind (item g ''quota_us'') val) (\<lambda>q.
    ebind (ebind (item g ''period_us'') val) (\<lambda>p.
    ebind (ebind (item g ''memory_max'') val) (\<lambda>_.
    ebind (ebind (item g ''memory_current'') val) (\<lambda>_.
    ebind (ebind (item g ''cpus_effective'') cpuset) (\<lambda>_.
    ebind (ebind (item g ''mems_effective'') cpuset) (\<lambda>_.
    (case q of None \<Rightarrow> Inr () | Some quota \<Rightarrow> (
       need (0 < quota \<and> case_option False (\<lambda>period. 0 < period) p) ''bad quota'' (
       ebind (item g ''quota_unlimited'') (\<lambda>unlimited.
       need (\<not> truthy unlimited) ''bad quota'' (Inr ()))))))))))))"

definition PERF_CLASS :: "(string \<times> string) list" where
  "PERF_CLASS = [(''Performance'', ''TOPOLOGY_CLUSTER_PERF''), (''Efficiency'', ''TOPOLOGY_CLUSTER_EFFICIENCY'')]"

definition perflevel_entry :: "jvalue \<Rightarrow> unit result" where
  "perflevel_entry level = (
    ebind (eall (\<lambda>k. ebind (item level k) val)
       [''physical'', ''logical'', ''l1d_bytes'', ''l2_bytes'', ''l3_bytes'', ''cpus_per_l2'']) (\<lambda>_.
    ebind (item level ''name'') (\<lambda>nm.
    ebind (hashable nm) (\<lambda>_.
    let expected = (case nm of VStr s \<Rightarrow> (case map_of PERF_CLASS s of None \<Rightarrow> ''TOPOLOGY_CLUSTER_UNKNOWN'' | Some e \<Rightarrow> e)
                     | _ \<Rightarrow> ''TOPOLOGY_CLUSTER_UNKNOWN'') in
    ebind (item level ''cluster_class'') (\<lambda>cl.
    need (cl = VStr expected) ''invented perflevel classification'' (Inr ()))))))"

definition topology :: "bool \<Rightarrow> jvalue \<Rightarrow> (int \<times> jvalue) list result" where
  "topology synthetic t = (
    ebind (item t ''schema'') (\<lambda>schema.
    need (schema = VStr ''elite-hardware-topology-v1'') ''wrong topology schema'' (
    ebind (item t ''source_kind'') (\<lambda>kind.
    need (kind = VStr (if synthetic then ''SYNTHETIC_FIXTURE'' else ''LIVE_OS_VISIBLE'')) ''synthetic/live topology mix'' (
    ebind (ebind (item t ''allowed_cpus'') cpuset) (\<lambda>allowed.
    ebind (item t ''online_cpus'') (\<lambda>ov.
    ebind (cpuset ov) (\<lambda>online.
    ebind (when_observed ov (set allowed \<subseteq> set online) ''allowed CPU not online in snapshot'') (\<lambda>_.
    ebind (eall (\<lambda>k. ebind (item t k) val)
       [''page_bytes'', ''physical_memory_bytes'', ''physical_cpus'', ''logical_cpus'',
        ''memory_frequency_hz'', ''memory_channels'', ''system_l3_bytes'', ''cache_line_bytes'']) (\<lambda>_.
    ebind (ebind (item t ''cpus'') iter) (\<lambda>cs.
    ebind (efold (cpu_entry allowed) [] cs) (\<lambda>cpus.
    ebind (item t ''platform'') (\<lambda>platform.
    ebind ((if platform = VStr ''Linux'' then (
       ebind (item t ''partial'') (\<lambda>partial.
       need (\<not> truthy partial \<longrightarrow> set (keys cpus) = set allowed) ''eligible topology records missing'' (Inr ()))) else Inr ())) (\<lambda>_.
    ebind (ebind (item t ''nodes'') iter) (\<lambda>ns.
    ebind (efold node_entry [] ns) (\<lambda>nodes.
    ebind (eall (cpu_node nodes) cpus) (\<lambda>_.
    ebind (ebind (item t ''cgroups'') iter) (\<lambda>gs.
    ebind (eall cgroup_entry gs) (\<lambda>_.
    ebind (ebind (item t ''perflevels'') iter) (\<lambda>ls.
    ebind (eall perflevel_entry ls) (\<lambda>_.
    Inr cpus)))))))))))))))))))))"

section \<open>Locality\<close>

definition darwin_worker :: "jvalue \<Rightarrow> unit result" where
  "darwin_worker w = (
    ebind (item w ''placement'') (\<lambda>p.
    ebind (item p ''affinity_enforced'') (\<lambda>enforced.
    need (\<not> truthy enforced) ''Darwin CPU pin invented'' (
    ebind (item p ''verified_cpu_before'') (\<lambda>b.
    need (py_eq b (VInt (-1))) ''Darwin CPU pin invented'' (
    ebind (item p ''verified_cpu_after'') (\<lambda>a.
    need (py_eq a (VInt (-1))) ''Darwin CPU pin invented'' (Inr ()))))))))"

definition pinned_worker :: "(int \<times> jvalue) list \<Rightarrow> int list \<Rightarrow> jvalue \<Rightarrow> int list result" where
  "pinned_worker cpus ids w = (
    ebind (item w ''placement'') (\<lambda>p.
    ebind (uint_field p ''requested_cpu'' (-1) 1023) (\<lambda>requested.
    ebind (item p ''affinity_enforced'') (\<lambda>enforced.
    if requested = -1 then need (\<not> truthy enforced) ''unrequested affinity claim'' (Inr ids)
     else (
       need (enforced = VBool True) ''affinity not enforced'' (
       ebind (item p ''affinity_error'') (\<lambda>err.
       need (py_eq err (VInt 0)) ''affinity not enforced'' (
       ebind (item p ''verified_cpu_before'') (\<lambda>b.
       need (py_eq b (VInt requested)) ''mask readback mismatch'' (
       ebind (item p ''verified_cpu_after'') (\<lambda>a.
       need (py_eq a (VInt requested)) ''mask readback mismatch'' (
       need (requested \<in> set (keys cpus)) ''CPU absent from topology'' (
       Inr (ids @ [requested]))))))))))))))"

definition data_cache :: "jvalue \<Rightarrow> bool result" where
  "data_cache cache = ebind (item cache ''type'') (\<lambda>v. Inr (in_tuple v [''Data'', ''Unified'']))"

definition shared_l2 :: "int list \<Rightarrow> jvalue \<Rightarrow> bool result" where
  "shared_l2 members cache =
     eand (data_cache cache)
       (eand (ebind (item cache ''level'') (\<lambda>v. ebind (val v) (\<lambda>l. Inr (l = Some 2))))
         (ebind (item cache ''shared_cpus'') (\<lambda>v. ebind (cpuset v) (\<lambda>ids. Inr (set members \<subseteq> set ids)))))"

definition numa_nodes :: "(int \<times> jvalue) list \<Rightarrow> int list \<Rightarrow> jvalue list result" where
  "numa_nodes cpus ids = ebind (emap (\<lambda>i. ebind (at_key cpus i) (\<lambda>c. item c ''numa_node'')) ids) (\<lambda>ns. Inr (remdups ns))"

definition locality :: "jvalue \<Rightarrow> jvalue list \<Rightarrow> jvalue \<Rightarrow> string result" where
  "locality t workers request = (
    ebind (topology False t) (\<lambda>cpus.
    ebind (item t ''platform'') (\<lambda>platform.
    if platform = VStr ''Darwin'' then (
       ebind (eall darwin_worker workers) (\<lambda>_.
       need (in_tuple request [''unconstrained'', ''unknown'']) ''P/E placement not supplied by aggregate sysctls'' (
       Inr ''UNKNOWN_DARWIN_SCHEDULER_PLACEMENT''))) else (
       ebind (efold (pinned_worker cpus) [] workers) (\<lambda>ids.
       need (in_tuple request [''unconstrained'', ''unknown'', ''same_l2'', ''cross_numa'', ''same_numa''])
         ''unknown locality request'' (
       if in_tuple request [''unconstrained'', ''unknown''] then Inr ''UNQUALIFIED_LOCALITY''
       else (
         need (length ids = length workers) ''claimed locality has unpinned worker'' (
         if request = VStr ''same_l2'' then (
           ebind (eall (\<lambda>i. (
             ebind (at_key cpus i) (\<lambda>c.
             ebind (ebind (item c ''caches'') iter) (\<lambda>caches.
             ebind (some (shared_l2 ids) caches) (\<lambda>ok.
             need ok ''not shared data/unified L2'' (Inr ())))))) (remdups ids)) (\<lambda>_.
           Inr ''ENFORCED_CPU_MASKS_REPORTED_SHARED_L2'')) else (
           ebind (numa_nodes cpus ids) (\<lambda>nodes.
           need (VInt (-1) \<notin> set nodes \<and> VInt (-2) \<notin> set nodes) ''unknown NUMA membership'' (
           if request = VStr ''same_numa''
           then need (length nodes = 1) ''multiple NUMA nodes'' (Inr ''ENFORCED_CPU_MASKS_REPORTED_SAME_NUMA'')
           else need (1 < length nodes) ''cross-NUMA lacks two nodes'' (Inr ''ENFORCED_CPU_MASKS_REPORTED_CROSS_NUMA_CPU_ONLY''))))))))))))"

section \<open>Backing geometry and cache bounds\<close>

definition round_up :: "int \<Rightarrow> int" where
  "round_up x = ((x + 16383) div 16384) * 16384"

definition geometry :: "string \<Rightarrow> int \<Rightarrow> int \<Rightarrow> int \<Rightarrow> int" where
  "geometry mode n payload k =
     (let hdr = round_up (16384 + 256 * k);
          rings = (if mode = ''ncq'' then round_up (round_up (hdr + 128 * n) + 128 * n) else hdr)
      in round_up (round_up (rings + 128 * n) + n * ((payload + 127) div 128) * 128))"

text \<open>The data and unified caches of a CPU with an observed level and a non-zero observed size.\<close>

definition data_level :: "(jvalue \<times> int \<times> int) list \<Rightarrow> jvalue \<Rightarrow> (jvalue \<times> int \<times> int) list result" where
  "data_level acc x = (
    ebind (data_cache x) (\<lambda>ok.
    if ok then (
       ebind (ebind (item x ''level'') val) (\<lambda>level.
       (case level of None \<Rightarrow> Inr acc | Some l \<Rightarrow> (
         ebind (ebind (item x ''bytes'') val) (\<lambda>bytes.
         Inr (case bytes of None \<Rightarrow> acc | Some b \<Rightarrow> if b = 0 then acc else acc @ [(x, l, b)])))))) else Inr acc))"

type_synonym domains = "((int \<times> int list \<times> int option) \<times> int) list"

definition domain_entry :: "int \<Rightarrow> domains \<Rightarrow> jvalue \<times> int \<times> int \<Rightarrow> domains result" where
  "domain_entry lvl ds x = (case x of (c, l, b) \<Rightarrow>
     if l \<noteq> lvl then Inr ds
     else (
       ebind (ebind (item c ''shared_cpus'') cpuset) (\<lambda>shared.
       ebind (ebind (item c ''id'') val) (\<lambda>ident.
       let key = (lvl, shared, ident) in
       need (case_option True (\<lambda>b'. b' = b) (map_of ds key)) ''inconsistent shared-cache capacity'' (
       Inr (AList.update key b ds))))))"

definition selected_cpu :: "int list \<times> domains \<times> bool \<Rightarrow> jvalue \<Rightarrow> (int list \<times> domains \<times> bool) result" where
  "selected_cpu acc c = (case acc of (l2, ds, whole) \<Rightarrow> (
    ebind (ebind (item c ''caches'') iter) (\<lambda>caches.
    ebind (efold data_level [] caches) (\<lambda>levels.
    let l2 = l2 @ [b. (x, l, b) \<leftarrow> levels, l = 2] in
    if levels = [] then Inr (l2, ds, False)
     else (
       ebind (efold (domain_entry (Max (set (map (\<lambda>(x, l, b). l) levels)))) ds levels) (\<lambda>ds.
       Inr (l2, ds, whole)))))))"

definition placed_cpus :: "jvalue list \<Rightarrow> jvalue list result" where
  "placed_cpus workers =
     ebind (emap (\<lambda>w. ebind (item w ''placement'') (\<lambda>p. ebind (item p ''verified_cpu_before'')
         (\<lambda>v. ebind (hashable v) (\<lambda>_. Inr v)))) workers)
       (\<lambda>ids. Inr (filter (\<lambda>v. \<not> py_eq v (VInt (-1))) ids))"

definition perf_l2 :: "int list \<Rightarrow> jvalue \<Rightarrow> int list result" where
  "perf_l2 acc x = (
    ebind (ebind (item x ''l2_bytes'') val) (\<lambda>b.
    Inr (case b of None \<Rightarrow> acc | Some i \<Rightarrow> if i = 0 then acc else acc @ [i])))"

definition cache_bounds :: "jvalue \<Rightarrow> jvalue list \<Rightarrow> int \<Rightarrow> jvalue \<Rightarrow> jvalue result" where
  "cache_bounds t workers pool segment = (
    ebind (placed_cpus workers) (\<lambda>ids.
    ebind (ebind (item t ''cpus'') iter) (\<lambda>cs.
    ebind (emap (\<lambda>c. if ids = [] then Inr [c]
       else ebind (item c ''cpu_id'') (\<lambda>v. Inr (if list_ex (\<lambda>i. py_eq i v) ids then [c] else []))) cs) (\<lambda>picked.
    let selected = concat picked in
    ebind ((if selected = [] then Inr False else ebind (item t ''partial'') (\<lambda>v. Inr (\<not> truthy v)))) (\<lambda>whole.
    ebind (efold selected_cpu ([], [], whole) selected) (\<lambda>(l2, ds, whole).
    ebind (item t ''platform'') (\<lambda>platform.
    let darwin = (platform = VStr ''Darwin'') in
    ebind ((if darwin then ebind (ebind (item t ''perflevels'') iter) (efold perf_l2 []) else Inr l2)) (\<lambda>l2.
    let llc = sum_list (map snd ds) in
    let known = (whole \<and> \<not> darwin) in
    Inr (VDict [(''payload_pool_bytes'', VInt pool), (''segment_bytes'', segment),
       (''min_observed_l2_bytes'', if l2 = [] then VNone else VInt (Min (set l2))),
       (''reported_selected_llc_sum_bytes'', if known then VInt llc else VNone),
       (''pool_capacity_below_all_reported_l2'', VBool (l2 \<noteq> [] \<and> pool \<le> Min (set l2))),
       (''pool_capacity_above_reported_llc_sum'', VBool (known \<and> llc < pool)),
       (''cache_residency'', VStr ''NOT_ESTABLISHED''), (''dram_saturation'', VStr ''NOT_ESTABLISHED'')])))))))))"

end
