(* ===== verification/Matrix_Record.thy ===== *)
theory Matrix_Record
  imports Matrix_Topology Paths "HOL-Library.List_Lexorder" "HOL-Library.Char_ord"
begin

text \<open>
  One record of \<open>tools/verify_matrix_results.py\<close> (\<open>verify_record\<close>): the workload, the workers, the
  evidence predicates and identities, the traces of producers and consumers with the membership
  bitmaps, the latency summaries and the reconciliation of the queue. Files, SHA-256 and the JSON
  scanner are parameters; \<open>producer i\<close> stands for \<open>producer-<i>.trace\<close> and likewise for consumers.
\<close>

unbundle bit_operations_syntax

section \<open>Latency summaries and trace files\<close>

definition RANKS :: "(string \<times> int) list" where
  "RANKS = [(''p50'', 50000), (''p90'', 90000), (''p99'', 99000), (''p99_9'', 99900), (''p99_99'', 99990), (''max'', 100000)]"

definition rank_value :: "int list \<Rightarrow> int \<Rightarrow> int" where
  "rank_value s num = s ! nat ((int (length s) * num + 99999) div 100000 - 1)"

definition quantiles :: "int list \<Rightarrow> rat \<Rightarrow> jvalue result" where
  "quantiles values scale = (
    need (values \<noteq> []) ''empty latency population'' (
    let s = sort values in
    let q = map (\<lambda>(k, num). (k, rank_value s num)) RANKS in
    Inr (VDict [(''samples'', VInt (int (length s))), (''zeros'', VInt (int (length (filter (\<lambda>x. x = 0) s)))),
       (''minimum_nonzero_ticks'', VInt (case filter (\<lambda>x. x \<noteq> 0) s of [] \<Rightarrow> 0 | x # xs \<Rightarrow> x)),
       (''raw_tick_quantiles'', VDict (map (\<lambda>(k, v). (k, VInt v)) q)),
       (''nanoseconds_ceiling'', VDict (map (\<lambda>(k, v). (k, VInt \<lceil>of_int v * scale\<rceil>)) q))])))"

record trace_bytes =
  tb_regular :: bool
  tb_bytes :: "int list"

definition triple_of :: "int list \<Rightarrow> int \<times> int \<times> int" where
  "triple_of b = (le_int (slice b 0 8), le_int (slice b 8 16), le_int (slice b 16 24))"

text \<open>The generator reads chunks of 4096 triples; the file does not change while it is read.\<close>

definition triples :: "trace_bytes \<Rightarrow> int \<Rightarrow> (int \<times> int \<times> int) list result" where
  "triples f count = (
    need (tb_regular f) ''trace unavailable/symlink'' (
    need (int (length (tb_bytes f)) = count * 24) ''trace size mismatch'' (
    Inr (concat (map (\<lambda>c. map triple_of (chunked 24 c)) (chunked (24 * 4096) (tb_bytes f)))))))"

section \<open>Reconciliation of the queue\<close>

text \<open>A number where a float is refused: the code compares a float entry and then masks it, which raises.\<close>

definition free_entry :: "int \<Rightarrow> int list \<Rightarrow> int \<times> jvalue \<Rightarrow> int list result" where
  "free_entry n seen te = (case te of (ticket, e) \<Rightarrow> (
    ebind (item e ''ticket'') (\<lambda>tv.
    need (py_eq tv (VInt ticket)) ''free entry cycle mismatch'' (
    ebind (ebind (item e ''entry'') index) (\<lambda>entry.
    need (entry div n = ticket div n) ''free entry cycle mismatch'' (
    let idx = entry AND (n - 1) in
    ebind (item e ''block'') (\<lambda>block.
    need (py_eq block (VInt idx) \<and> idx \<notin> set seen) ''duplicate free token'' (
    ebind (ebind (item e ''status_word'') index) (\<lambda>w.
    need (w AND 3 = 0) ''retained/nonempty descriptor'' (
    ebind (item e ''epoch'') (\<lambda>ep.
    need (py_eq ep (VInt (drop_bit 2 w))) ''retained/nonempty descriptor'' (
    Inr (seen @ [idx])))))))))))))"

definition chain_eq :: "jvalue \<Rightarrow> string \<Rightarrow> string \<Rightarrow> int \<Rightarrow> string \<Rightarrow> unit result" where
  "chain_eq x a b i msg = (
    ebind (item x a) (\<lambda>u.
    ebind (item x b) (\<lambda>v.
    need (py_eq u v \<and> py_eq v (VInt i)) msg (Inr ()))))"

definition equals :: "jvalue \<Rightarrow> string \<Rightarrow> int \<Rightarrow> string \<Rightarrow> unit result" where
  "equals x k i msg = ebind (item x k) (\<lambda>v. need (py_eq v (VInt i)) msg (Inr ()))"

definition reconcile :: "document \<Rightarrow> string \<Rightarrow> int \<Rightarrow> int \<Rightarrow> int \<Rightarrow> unit result" where
  "reconcile f mode n sent segment = (
    ebind (load_document f) (\<lambda>x.
    ebind (item x ''status'') (\<lambda>st.
    need (py_eq st (VStr ''PASS_WITHIN_SCOPE'')) ''reconciliation failed'' (
    ebind (item x ''all_tokens_returned'') (\<lambda>all_back.
    need (all_back = VBool True) ''reconciliation failed'' (
    ebind (equals x ''publications'' sent ''reconcile identity'') (\<lambda>_.
    ebind (equals x ''segment_bytes'' segment ''reconcile identity'') (\<lambda>_.
    ebind (equals x ''capacity'' n ''reconcile identity'') (\<lambda>_.
    if mode = ''spsc'' then chain_eq x ''published'' ''reclaimed'' sent ''SPSC residual tokens''
     else (
       ebind (equals x ''qf_head'' sent ''NCQ cursors do not reconcile'') (\<lambda>_.
       ebind (equals x ''qf_tail'' (sent + n) ''NCQ cursors do not reconcile'') (\<lambda>_.
       ebind (chain_eq x ''qr_head'' ''qr_tail'' (sent + n) ''NCQ cursors do not reconcile'') (\<lambda>_.
       ebind (item x ''free_entries'') (\<lambda>ev.
       ebind (elements ev) (\<lambda>es.
       need (int (length es) = n) ''missing tokens'' (
       ebind (efold (free_entry n) [] (zip [sent..sent + n - 1] es)) (\<lambda>seen.
       need (set seen = set [0..n - 1]) ''incomplete token set'' (Inr ()))))))))))))))))))"

section \<open>The workload and its workers\<close>

record workload =
  wl_n :: int
  wl_p :: int
  wl_c :: int
  wl_capacity :: int
  wl_payload :: int
  wl_mode :: string
  wl_warmup :: int
  wl_arrival :: int
  wl_runtime :: string
  wl_burst :: int
  wl_period :: int
  wl_hold :: int
  wl_hold_every :: int
  wl_t0 :: int
  wl_end :: int
  wl_num :: int
  wl_den :: int
  wl_segment :: int

definition wl_scale :: "workload \<Rightarrow> rat" where
  "wl_scale h = of_int (wl_num h) / of_int (wl_den h)"

definition wl_quota :: "workload \<Rightarrow> int" where
  "wl_quota h = wl_n h div wl_p h"

fun one_of :: "jvalue \<Rightarrow> string list \<Rightarrow> string \<Rightarrow> string result" where
  "one_of (VStr s) ss msg = need (s \<in> set ss) msg (Inr s)"
| "one_of _ ss msg = Inl (ValueError msg)"

definition read_workload :: "jvalue \<Rightarrow> workload result" where
  "read_workload x = (
    ebind (item x ''schema'') (\<lambda>schema.
    need (py_eq schema (VStr ''elite-matrix-v1'')) ''not a completed matrix record'' (
    ebind (item x ''status'') (\<lambda>st.
    need (py_eq st (VStr ''PASS_WITHIN_SCOPE'')) ''not a completed matrix record'' (
    ebind (uint_field x ''messages'' 1 1000000) (\<lambda>n.
    ebind (uint_field x ''producers'' 1 16) (\<lambda>p.
    ebind (uint_field x ''consumers'' 1 16) (\<lambda>c.
    ebind (uint_field x ''capacity'' 2 65536) (\<lambda>capacity.
    ebind (uint_field x ''payload_bytes'' 8 67108864) (\<lambda>payload.
    need (capacity AND (capacity - 1) = 0 \<and> p + c \<le> min capacity 32 \<and> n mod p = 0 \<and> payload mod 8 = 0)
       ''invalid workload geometry'' (
    ebind (ebind (item x ''mode'') (\<lambda>v. one_of v [''spsc'', ''ncq''] ''invalid queue mode'')) (\<lambda>mode.
    need (mode = ''spsc'' \<longrightarrow> p = 1 \<and> c = 1) ''invalid queue mode'' (
    ebind (uint_field x ''warmup_messages'' 0 1000000) (\<lambda>warmup.
    need (warmup mod p = 0) ''warmup quotas'' (
    ebind (uint_field x ''checksum'' 0 1) (\<lambda>_.
    ebind (uint_field x ''arrival'' 0 3) (\<lambda>arrival.
    ebind (uint_field x ''os_yield'' 0 1) (\<lambda>_.
    ebind (ebind (item x ''runtime'')
       (\<lambda>v. one_of v [''native_c'', ''python_helper'', ''python_bytecode'', ''python_gc''] ''unknown runtime'')) (\<lambda>runtime.
    ebind (uint_field x ''burst'' 1 1024) (\<lambda>burst.
    ebind (uint_field x ''period_ns'' 1 1000000000) (\<lambda>period.
    ebind (uint_field x ''hold_ns'' 0 1000000000) (\<lambda>hold.
    ebind (uint_field x ''hold_every'' 1 100000000) (\<lambda>hold_every.
    ebind (uint_field x ''t0'' 0 U64) (\<lambda>t0.
    ebind (uint_field x ''end'' (t0 + 1) U64) (\<lambda>end_tick.
    ebind (equals x ''delta_ticks'' (end_tick - t0) ''duration mismatch'') (\<lambda>_.
    ebind (uint_field x ''timebase_numer'' 1 (2 ^ 32 - 1)) (\<lambda>num.
    ebind (uint_field x ''timebase_denom'' 1 (2 ^ 32 - 1)) (\<lambda>den.
    let h = \<lparr>wl_n = n, wl_p = p, wl_c = c, wl_capacity = capacity, wl_payload = payload, wl_mode = mode,
       wl_warmup = warmup, wl_arrival = arrival, wl_runtime = runtime, wl_burst = burst, wl_period = period,
       wl_hold = hold, wl_hold_every = hold_every, wl_t0 = t0, wl_end = end_tick, wl_num = num, wl_den = den,
       wl_segment = geometry mode capacity payload (p + c)\<rparr> in
    ebind (ebind (item x ''elapsed_ns'') (\<lambda>v. near v (of_int (end_tick - t0) * wl_scale h))) (\<lambda>_.
    ebind (ebind (item x ''messages_per_second'') (\<lambda>v. near v (of_int (n * 10 ^ 9) / of_int (end_tick - t0) / wl_scale h))) (\<lambda>_.
    ebind (ebind (item x ''delivered_GB_per_second'') (\<lambda>v. near v (of_int (n * payload) / of_int (end_tick - t0) / wl_scale h))) (\<lambda>_.
    ebind (equals x ''segment_bytes'' (wl_segment h) ''backing geometry mismatch'') (\<lambda>_.
    Inr h))))))))))))))))))))))))))))))))"

record worker_info =
  wi_count :: int
  wi_end :: int

definition worker_entry :: "workload \<Rightarrow> int \<times> jvalue \<Rightarrow> worker_info result" where
  "worker_entry h iw = (case iw of (i, w) \<Rightarrow> (
    ebind (equals w ''index'' i ''worker identity order'') (\<lambda>_.
    ebind (uint_field w ''count'' 0 (wl_n h)) (\<lambda>count.
    ebind (uint_field w ''start_tick'' (wl_t0 h) (wl_end h)) (\<lambda>start.
    ebind (uint_field w ''end_tick'' start (wl_end h)) (\<lambda>fin.
    need (i < wl_p h \<longrightarrow> count = wl_quota h) ''producer quota mismatch''
       (Inr \<lparr>wi_count = count, wi_end = fin\<rparr>)))))))"

definition producers_of :: "workload \<Rightarrow> 'a list \<Rightarrow> 'a list" where
  "producers_of h ws = take (nat (wl_p h)) ws"

definition consumers_of :: "workload \<Rightarrow> 'a list \<Rightarrow> 'a list" where
  "consumers_of h ws = drop (nat (wl_p h)) ws"

definition read_workers :: "workload \<Rightarrow> jvalue \<Rightarrow> (jvalue list \<times> worker_info list) result" where
  "read_workers h x = (
    ebind (item x ''workers_info'') (\<lambda>v.
    ebind (elements v) (\<lambda>ws.
    need (int (length ws) = wl_p h + wl_c h) ''worker population mismatch'' (
    ebind (emap (worker_entry h) (zip [0..int (length ws) - 1] ws)) (\<lambda>infos.
    let cs = consumers_of h infos in
    need (sum_list (map wi_count cs) = wl_n h \<and> Max (set (map wi_end cs)) = wl_end h) ''drain/count mismatch''
       (Inr (ws, infos)))))))"

section \<open>Locality, evidence predicates, identities\<close>

definition role_nodes :: "(int \<times> jvalue) list \<Rightarrow> jvalue list \<Rightarrow> jvalue list result" where
  "role_nodes topo ws =
     emap (\<lambda>w. (
       ebind (item w ''placement'') (\<lambda>p.
       ebind (ebind (item p ''verified_cpu_before'') int_key) (\<lambda>key.
       ebind ((case key of Some i \<Rightarrow> at_key topo i | None \<Rightarrow> Inl (KeyError []))) (\<lambda>c.
       item c ''numa_node''))))) ws"

definition record_locality :: "workload \<Rightarrow> jvalue \<Rightarrow> jvalue list \<Rightarrow> string result" where
  "record_locality h x ws = (
    ebind (item x ''hardware_topology'') (\<lambda>t.
    ebind (item x ''locality_request'') (\<lambda>request.
    ebind (locality t ws request) (\<lambda>kind.
    ebind (item x ''hardware_topology_after'') (\<lambda>after.
    ebind (locality after ws request) (\<lambda>kind_after.
    need (kind_after = kind) ''topology changed locality'' (
    ebind ((if request = VStr ''cross_numa'' then (
       ebind (ebind (item t ''cpus'') iter) (\<lambda>cs.
       ebind (efold (\<lambda>d v. ebind (uint_field v ''cpu_id'' 0 1023) (\<lambda>i. Inr (AList.update i v d))) [] cs) (\<lambda>topo.
       ebind (role_nodes topo (producers_of h ws)) (\<lambda>pn.
       ebind (role_nodes topo (consumers_of h ws)) (\<lambda>cn.
       need (set pn \<inter> set cn = {}) ''cross-NUMA roles overlap'' (Inr ())))))) else Inr ())) (\<lambda>_.
    Inr kind))))))))"

definition is_hash :: "jvalue \<Rightarrow> bool" where
  "is_hash v = (case v of VStr s \<Rightarrow> length s = 64 \<and> all_hex s | _ \<Rightarrow> False)"

definition record_evidence :: "jvalue \<Rightarrow> unit result" where
  "record_evidence x = (
    ebind (item x ''physical_cache_residency'') (\<lambda>residency.
    need (residency = VStr ''NOT_ESTABLISHED'') ''unqualified residency/clock certificate'' (
    ebind (item x ''absolute_clock_uncertainty'') (\<lambda>clock.
    need (clock = VStr ''NOT_QUALIFIED'') ''unqualified residency/clock certificate'' (
    ebind (eall (\<lambda>k. ebind (item x k) (\<lambda>v. need (v = VBool True) ''required evidence predicates'' (Inr ())))
       [''exact_membership'', ''all_tokens_returned'', ''no_payload_in_control_channel'', ''warmup_same_generation'']) (\<lambda>_.
    ebind (item x ''trace_format'') (\<lambda>fmt.
    need (fmt = VStr ''little-endian-u64-triples'') ''unsupported trace format'' (
    ebind (item x ''binary_sha256'') (\<lambda>b.
    need (is_hash b) ''bad binary hash'' (Inr ()))))))))))"

text \<open>The external evidence: the executable (its size and digest) and the digests of a source tree.\<close>

record custody =
  cu_binary :: "(int \<times> string) option"
  cu_source :: "(string \<Rightarrow> string result) option"

definition binary_identity :: "custody \<Rightarrow> jvalue \<Rightarrow> unit result" where
  "binary_identity cu x = (case cu_binary cu of None \<Rightarrow> Inr ()
   | Some (bytes, sha) \<Rightarrow> (
     ebind (item x ''binary_sha256'') (\<lambda>b.
     need (b = VStr sha) ''external binary mismatch'' (
     equals x ''binary_bytes'' bytes ''external binary mismatch''))))"

definition runtime_identity :: "custody \<Rightarrow> jvalue \<Rightarrow> unit result" where
  "runtime_identity cu x = (
    ebind (item x ''runtime_identity'') (\<lambda>identity.
    ebind (eall (\<lambda>k. ebind (item identity k) (\<lambda>v. need (is_hash v) ''invalid runtime identity'' (Inr ())))
       [''exporter_sha256'', ''native_library_sha256'', ''bridge_sha256'', ''caller_source_sha256'']) (\<lambda>_.
    (case cu_source cu of None \<Rightarrow> Inr ()
      | Some sha_of \<Rightarrow> (
        ebind (sha_of ''bindings/python/matrix_worker.py'') (\<lambda>sha.
        ebind (item identity ''caller_source_sha256'') (\<lambda>caller.
        need (caller = VStr sha) ''Python caller changed'' (Inr ()))))))))"

definition source_line :: "string \<times> jvalue \<Rightarrow> string" where
  "source_line e = (case e of (name, v) \<Rightarrow> (case v of VStr sha \<Rightarrow> sha @ ''  '' @ name @ [CHR 0x0A] | _ \<Rightarrow> []))"

definition source_identity :: "(string \<Rightarrow> string) \<Rightarrow> custody \<Rightarrow> jvalue \<Rightarrow> unit result" where
  "source_identity sha cu x = (case cu_source cu of None \<Rightarrow> Inr ()
   | Some sha_of \<Rightarrow> (
     ebind (item x ''build_identity'') (\<lambda>build.
     ebind (ebind (item build ''source_files'') dict_items) (\<lambda>files.
     ebind (eall (\<lambda>(name, v). need (\<not> is_absolute name \<and> ''..'' \<notin> set (path_parts name)) ''unsafe source path''
         (ebind (sha_of name) (\<lambda>d. need (v = VStr d) ''source changed'' (Inr ())))) files) (\<lambda>_.
     ebind (item build ''source_sha256'') (\<lambda>material.
     need (material = VStr (sha (concat (map source_line (sort_key fst files))))) ''source snapshot mismatch'' (Inr ())))))))"

end
