(* ===== verification/Matrix_Traces.thy ===== *)
theory Matrix_Traces
  imports Matrix_Record
begin

text \<open>
  The raw evidence of a matrix record: the triples of every producer (identity, offer and entry tick),
  the triples and the membership bitmap of every consumer (identity, read and return tick), the union
  of the bitmaps and the closed arrival loop. Arrays of the code are lists indexed by the identity.
\<close>

unbundle bit_operations_syntax

record matrix_files =
  mf_doc :: document
  mf_producer :: "nat \<Rightarrow> trace_bytes"
  mf_consumer :: "nat \<Rightarrow> trace_bytes"
  mf_bitmap :: "nat \<Rightarrow> int list result"
  mf_union :: "int list result"
  mf_reconcile :: document

section \<open>Producers\<close>

record offers =
  of_previous :: int
  of_offer :: "int list"
  of_entry :: "int list"

text \<open>The offer tick that an open or bursty schedule fixes in advance.\<close>

definition scheduled :: "workload \<Rightarrow> int \<Rightarrow> int \<Rightarrow> int" where
  "scheduled h i j =
     (let batch = (j * wl_p h + i) div (if wl_arrival h = 3 then wl_burst h else 1)
      in wl_t0 h + \<lceil>of_int (batch * wl_period h * wl_den h) / (of_int (wl_num h) :: rat)\<rceil>)"

definition producer_triple ::
    "workload \<Rightarrow> int \<Rightarrow> int \<Rightarrow> offers \<Rightarrow> int \<times> int \<times> int \<times> int \<Rightarrow> offers result" where
  "producer_triple h i fin s jt = (case jt of (j, ident, a, b) \<Rightarrow> (
    need (ident = i * wl_quota h + j \<and> wl_t0 h \<le> a \<and> a \<le> b \<and> b \<le> fin \<and> of_previous s \<le> b) ''bad producer trace'' (
    need (2 \<le> wl_arrival h \<longrightarrow> a = scheduled h i j) ''schedule shifted after delay'' (
    Inr \<lparr>of_previous = b, of_offer = (of_offer s)[nat ident := a], of_entry = (of_entry s)[nat ident := b]\<rparr>))))"

definition producer_trace :: "workload \<Rightarrow> matrix_files \<Rightarrow> offers \<Rightarrow> int \<times> worker_info \<Rightarrow> offers result" where
  "producer_trace h f s iw = (case iw of (i, w) \<Rightarrow> (
    ebind (triples (mf_producer f (nat i)) (wl_quota h)) (\<lambda>ts.
    efold (producer_triple h i (wi_end w)) (s\<lparr>of_previous := 0\<rparr>) (zip [0..int (length ts) - 1] ts))))"

section \<open>Consumers\<close>

record receipts =
  re_union :: "int list"
  re_native :: "int list"
  re_service :: "int list"
  re_returned :: "int list"
  re_released :: "int list"

definition merge_bitmap :: "int list \<Rightarrow> int list \<Rightarrow> int list result" where
  "merge_bitmap us bm =
     emap (\<lambda>(u, v). need (u AND v = 0) ''duplicate consumer membership'' (Inr (u OR v))) (zip us bm)"

definition message_bit :: "int \<Rightarrow> int" where
  "message_bit ident = push_bit (nat (ident mod 8)) 1"

definition consumer_triple ::
    "workload \<Rightarrow> offers \<Rightarrow> int list \<Rightarrow> int \<Rightarrow> int list \<times> int \<times> receipts \<Rightarrow> int \<times> int \<times> int
     \<Rightarrow> (int list \<times> int \<times> receipts) result" where
  "consumer_triple h o' bm fin acc t = (case acc of (seen, prev, s) \<Rightarrow> case t of (ident, rd, ret) \<Rightarrow>
     (let k = nat ident; byte = nat (ident div 8); b = message_bit ident in (
       need (ident < wl_n h \<and> of_entry o' ! k \<le> rd \<and> rd \<le> ret \<and> ret \<le> fin \<and> prev \<le> rd) ''consumer timing mismatch'' (
       need (bm ! byte AND b \<noteq> 0 \<and> seen ! byte AND b = 0) ''trace membership duplicate'' (
       need (wl_hold h \<noteq> 0 \<and> ident mod wl_hold_every h = 0 \<longrightarrow> of_int (wl_hold h) \<le> of_int (ret - rd) * wl_scale h)
         ''retention omitted'' (
       Inr (seen[byte := seen ! byte OR b], ret,
         s\<lparr>re_native := (re_native s)[k := rd - of_entry o' ! k], re_service := (re_service s)[k := rd - of_offer o' ! k],
           re_returned := (re_returned s)[k := ret - of_entry o' ! k], re_released := (re_released s)[k := ret]\<rparr>)))))))"

definition bitmap_bytes :: "workload \<Rightarrow> int" where
  "bitmap_bytes h = (wl_n h + 7) div 8"

definition consumer_trace ::
    "workload \<Rightarrow> matrix_files \<Rightarrow> offers \<Rightarrow> receipts \<Rightarrow> int \<times> worker_info \<Rightarrow> receipts result" where
  "consumer_trace h f o' s iw = (case iw of (i, w) \<Rightarrow> (
    ebind (mf_bitmap f (nat i)) (\<lambda>bm.
    need (int (length bm) = bitmap_bytes h) ''bitmap size'' (
    need (int (sum_list (map (\<lambda>v. bit_count (nat v)) bm)) = wi_count w) ''bitmap population mismatch'' (
    ebind (merge_bitmap (re_union s) bm) (\<lambda>merged.
    ebind (triples (mf_consumer f (nat i)) (wi_count w)) (\<lambda>ts.
    ebind (efold (consumer_triple h o' bm (wi_end w))
       (replicate (nat (bitmap_bytes h)) 0, 0, s\<lparr>re_union := merged\<rparr>) ts) (\<lambda>(seen, prev, s').
    need (seen = bm) ''bitmap/trace difference'' (Inr s')))))))))"

definition full_bitmap :: "int \<Rightarrow> int list" where
  "full_bitmap n = replicate (nat (n div 8)) 255 @ (if n mod 8 \<noteq> 0 then [push_bit (nat (n mod 8)) 1 - 1] else [])"

definition closed_loop :: "workload \<Rightarrow> offers \<Rightarrow> receipts \<Rightarrow> unit result" where
  "closed_loop h o' s =
     eall (\<lambda>i. eall (\<lambda>j. let k = i * wl_quota h + j in
         need (re_released s ! nat (k - 1) \<le> of_offer o' ! nat k) ''closed loop did not await release'' (Inr ()))
       [1..wl_quota h - 1]) [0..wl_p h - 1]"

text \<open>All raw evidence of a record, from the workload and its workers.\<close>

definition record_traces :: "workload \<Rightarrow> worker_info list \<Rightarrow> matrix_files \<Rightarrow> (offers \<times> receipts) result" where
  "record_traces h infos f = (let zeros = replicate (nat (wl_n h)) 0 in (
    ebind (efold (producer_trace h f) \<lparr>of_previous = 0, of_offer = zeros, of_entry = zeros\<rparr>
       (zip [0..wl_p h - 1] (producers_of h infos))) (\<lambda>o'.
    ebind (efold (consumer_trace h f o')
       \<lparr>re_union = replicate (nat (bitmap_bytes h)) 0, re_native = zeros, re_service = zeros, re_returned = zeros,
         re_released = zeros\<rparr> (zip [0..wl_c h - 1] (consumers_of h infos))) (\<lambda>s.
    need (re_union s = full_bitmap (wl_n h)) ''missing data or padding bits'' (
    ebind (mf_union f) (\<lambda>saved.
    need (saved = full_bitmap (wl_n h)) ''missing data or padding bits'' (
    ebind ((if wl_arrival h = 0 then closed_loop h o' s else Inr ())) (\<lambda>_.
    Inr (o', s)))))))))"

section \<open>The record\<close>

definition latency_summary :: "workload \<Rightarrow> jvalue \<Rightarrow> string \<times> int list \<Rightarrow> unit result" where
  "latency_summary h x kv = (case kv of (k, values) \<Rightarrow> (
    ebind (item x k) (\<lambda>v.
    ebind (quantiles values (wl_scale h)) (\<lambda>q.
    need (py_eq v q) ''latency summary mismatch'' (Inr ())))))"

definition verify_record :: "(string \<Rightarrow> string) \<Rightarrow> custody \<Rightarrow> matrix_files \<Rightarrow> jvalue result" where
  "verify_record sha cu f = (
    ebind (load_document (mf_doc f)) (\<lambda>x.
    ebind (read_workload x) (\<lambda>h.
    ebind (read_workers h x) (\<lambda>(ws, infos).
    ebind (record_locality h x ws) (\<lambda>kind.
    ebind (record_evidence x) (\<lambda>_.
    ebind (binary_identity cu x) (\<lambda>_.
    ebind ((if wl_runtime h = ''native_c'' then source_identity sha cu x else runtime_identity cu x)) (\<lambda>_.
    ebind (record_traces h infos f) (\<lambda>(o', s).
    ebind (eall (latency_summary h x)
       [(''native_latency'', re_native s), (''offered_latency'', re_service s), (''returned_latency'', re_returned s)]) (\<lambda>_.
    ebind (reconcile (mf_reconcile f) (wl_mode h) (wl_capacity h) (wl_n h + wl_warmup h) (wl_segment h)) (\<lambda>_.
    ebind (item x ''hardware_topology'') (\<lambda>t.
    ebind (item x ''segment_bytes'') (\<lambda>segment.
    ebind (cache_bounds t ws (wl_capacity h * ((wl_payload h + 127) div 128) * 128) segment) (\<lambda>bounds.
    ebind (item x ''messages_per_second'') (\<lambda>rate.
    ebind (item x ''offered_latency'') (\<lambda>offered.
    ebind (item offered ''nanoseconds_ceiling'') (\<lambda>ceiling.
    ebind (item ceiling ''p99'') (\<lambda>p99.
    Inr (VDict [(''status'', VStr ''PASS_WITHIN_SCOPE''), (''messages'', VInt (wl_n h)),
       (''runtime'', VStr (wl_runtime h)), (''mode'', VStr (wl_mode h)), (''locality'', VStr kind),
       (''cache_bounds'', bounds), (''finite_run_token_accounting'', VStr ''COMPLETE''),
       (''universal_deadlock_freedom'', VStr ''NOT_PROVED''),
       (''one_way_metrology_qualification'', VStr ''NOT_QUALIFIED''), (''messages_per_second'', rate),
       (''p99_offered_ns'', p99)])))))))))))))))))))"

end
