(* ===== verification/Matrix_Verify.thy ===== *)
theory Matrix_Verify
  imports Matrix_Traces
begin

text \<open>
  A campaign directory of \<open>tools/verify_matrix_results.py\<close>: the manifest, the preregistered cells with
  their trials, and the completion marker (\<open>verify_manifest\<close> and \<open>verify\<close>). What the directory
  holds is a parameter: the manifest text and the files below the directory, the plan and completion
  documents, and the trials of every cell in the order of their paths.
\<close>

text \<open>\<open>target.is_file()\<close>, not a link, with its digest; and the names of all files below the root.\<close>

record file_tree =
  ft_manifest :: string
  ft_regular :: "string \<Rightarrow> string option"
  ft_files :: "string list"

definition MANIFEST_NAME :: string where "MANIFEST_NAME = ''MANIFEST.sha256''"

definition manifest_member :: "file_tree \<Rightarrow> string list \<Rightarrow> string \<Rightarrow> string list result" where
  "manifest_member t seen line = (
    ebind ((case split_once ''  '' line of None \<Rightarrow> Inl (ValueError ''invalid manifest line'') | Some p \<Rightarrow> Inr p)) (\<lambda>(h, name).
    need (\<not> is_absolute name \<and> ''..'' \<notin> set (path_parts name) \<and> name \<notin> set seen) ''unsafe manifest member'' (
    need (ft_regular t (as_posix name) = Some h) ''manifest mismatch'' (Inr (seen @ [name])))))"

definition verify_manifest :: "file_tree \<Rightarrow> unit result" where
  "verify_manifest t = (
    ebind (efold (manifest_member t) [] (splitlines (ft_manifest t))) (\<lambda>seen.
    need (set seen = set (filter (\<lambda>name. path_name name \<noteq> MANIFEST_NAME) (ft_files t))) ''manifest coverage mismatch''
       (Inr ())))"

record matrix_directory =
  md_manifest :: "file_tree option"
  md_plan :: document
  md_plan_sha :: string
  md_complete :: document
  md_trials :: "string \<Rightarrow> (string \<times> matrix_files) list"
  md_result_cells :: "string list"

datatype matrix_target = RecordFile matrix_files | CampaignDirectory matrix_directory

definition cell_ident :: "jvalue \<Rightarrow> string result" where
  "cell_ident cell = ebind (item cell ''id'')
     (\<lambda>v. case v of VStr s \<Rightarrow> Inr s | _ \<Rightarrow> Inl (TypeError ''cell id''))"

definition CELL_KEYS :: "string list" where
  "CELL_KEYS = [''mode'', ''producers'', ''consumers'', ''capacity'', ''payload_bytes'', ''arrival'', ''hold_ns'',
     ''hold_every'', ''period_ns'', ''burst'', ''checksum'', ''runtime'', ''os_yield'', ''locality_request'']"

definition same_field :: "jvalue \<Rightarrow> jvalue \<Rightarrow> string \<Rightarrow> string \<Rightarrow> unit result" where
  "same_field x cell msg k = (
    ebind (item x k) (\<lambda>a.
    ebind (item cell k) (\<lambda>b.
    need (py_eq a b) msg (Inr ()))))"

definition trial_report ::
    "(string \<Rightarrow> string) \<Rightarrow> custody \<Rightarrow> jvalue \<Rightarrow> string \<times> matrix_files \<Rightarrow> jvalue result" where
  "trial_report sha cu cell nf = (
    ebind (load_document (mf_doc (snd nf))) (\<lambda>x.
    ebind (eall (same_field x cell ''record does not match preregistered cell'') CELL_KEYS) (\<lambda>_.
    ebind (eall (same_field x cell ''count does not match plan'') [''messages'', ''warmup_messages'']) (\<lambda>_.
    ebind (item x ''runtime'') (\<lambda>runtime.
    verify_record sha (if runtime = VStr ''native_c'' then cu else cu\<lparr>cu_binary := None\<rparr>) (snd nf))))))"

definition matrix_cell ::
    "(string \<Rightarrow> string) \<Rightarrow> custody \<Rightarrow> matrix_directory \<Rightarrow> int \<Rightarrow> jvalue list \<times> string list \<Rightarrow> jvalue
     \<Rightarrow> (jvalue list \<times> string list) result" where
  "matrix_cell sha cu d trials acc cell = (case acc of (reports, skips) \<Rightarrow> (
    ebind (cell_ident cell) (\<lambda>ident.
    need (CHR ''/'' \<notin> set ident \<and> CHR 0x5C \<notin> set ident \<and> ident \<notin> set [''.'', ''..'']) ''unsafe cell path'' (
    ebind (item cell ''status'') (\<lambda>st.
    need (in_tuple st [''RUN'', ''SKIP_UNSUPPORTED'', ''SKIP_RESOURCE'']) ''unknown planned status'' (
    if st \<noteq> VStr ''RUN'' then (
       ebind (dget cell ''reason'' VNone) (\<lambda>reason.
       need (truthy reason) ''unsupported cell lacks reason'' (Inr (reports, skips @ [ident])))) else (
       let records = md_trials d ident in
       need (map fst records = map (\<lambda>i. ''trial-'' @ pad3 i) [0..<nat trials]) ''missing, duplicate, or renamed trial'' (
       ebind (emap (trial_report sha cu cell) records) (\<lambda>rs.
       Inr (reports @ rs, skips))))))))))"

definition run_cells :: "jvalue list \<Rightarrow> string list result" where
  "run_cells cells =
     ebind (emap (\<lambda>c. ebind (cell_ident c) (\<lambda>i. ebind (item c ''status'')
       (\<lambda>st. Inr (if st = VStr ''RUN'' then [i] else [])))) cells) (\<lambda>iss. Inr (concat iss))"

definition verify_matrix :: "(string \<Rightarrow> string) \<Rightarrow> custody \<Rightarrow> matrix_directory \<Rightarrow> jvalue result" where
  "verify_matrix sha cu d = (
    ebind ((case md_manifest d of None \<Rightarrow> Inr () | Some t \<Rightarrow> verify_manifest t)) (\<lambda>_.
    ebind (load_document (md_plan d)) (\<lambda>plan.
    ebind (load_document (md_complete d)) (\<lambda>complete.
    ebind (item plan ''schema'') (\<lambda>schema.
    need (schema = VStr ''elite-matrix-plan-v1'') ''wrong plan schema'' (
    ebind (uint_field plan ''trials'' 1 100) (\<lambda>trials.
    ebind (item complete ''plan_sha256'') (\<lambda>identity.
    need (identity = VStr (md_plan_sha d)) ''plan identity mismatch'' (
    ebind (ebind (item plan ''cells'') elements) (\<lambda>cells.
    ebind (emap cell_ident cells) (\<lambda>ids.
    need (distinct ids) ''duplicate plan cell'' (
    ebind (efold (matrix_cell sha cu d trials) ([], []) cells) (\<lambda>(reports, skips).
    ebind (equals complete ''completed_records'' (int (length reports)) ''completion marker mismatch'') (\<lambda>_.
    ebind (item complete ''skipped_cells'') (\<lambda>skipped.
    need (py_eq skipped (VList (map VStr skips))) ''completion marker mismatch'' (
    ebind (run_cells cells) (\<lambda>allowed.
    need (set (md_result_cells d) \<subseteq> set allowed) ''unplanned result'' (
    ebind (emap (\<lambda>r. ebind (item r ''messages'') index) reports) (\<lambda>counts.
    Inr (VDict [(''status'', VStr ''PASS_WITHIN_SCOPE''), (''records'', VInt (int (length reports))),
       (''messages'', VInt (sum_list counts)), (''skipped_cells'', VList (map VStr skips)), (''results'', VList reports)]))))))))))))))))))))"

definition verify_target :: "(string \<Rightarrow> string) \<Rightarrow> custody \<Rightarrow> matrix_target \<Rightarrow> jvalue result" where
  "verify_target sha cu t = (case t of RecordFile f \<Rightarrow> verify_record sha cu f | CampaignDirectory d \<Rightarrow> verify_matrix sha cu d)"

end
