(* ===== verification/Matrix_Claims.thy ===== *)
theory Matrix_Claims
  imports Matrix_Verify
begin

text \<open>
  What the raw evidence of an accepted matrix record establishes: every message is received exactly
  once, after it was offered, and the latency arrays hold the differences of its ticks.
\<close>

unbundle bit_operations_syntax

section \<open>Bitmaps as sets\<close>

definition members :: "int list \<Rightarrow> nat set" where
  "members bs = {k. k div 8 < length bs \<and> bit (bs ! (k div 8)) (k mod 8)}"

lemma members_replicate [simp]: "members (replicate m 0) = {}"
  by (auto simp: members_def)

lemma merge_bitmap_members:
  assumes "merge_bitmap us bm = Inr ts" "length us = length bm"
  shows "length ts = length us" "members ts = members us \<union> members bm" "members us \<inter> members bm = {}"
proof -
  from assms(1) have "list_all2 (\<lambda>(u, v) t. u AND v = 0 \<and> t = (u OR v)) (zip us bm) ts"
    unfolding merge_bitmap_def emap_ok by (rule list_all2_mono) (auto simp: need_ok)
  then have l: "length ts = length us" and t: "\<And>j. j < length us \<Longrightarrow> us ! j AND bm ! j = 0 \<and> ts ! j = (us ! j OR bm ! j)"
    using assms(2) by (auto simp: list_all2_conv_all_nth)
  show "length ts = length us" by (rule l)
  show "members ts = members us \<union> members bm"
    using t l assms(2) by (auto simp: members_def bit_or_iff)
  have "\<not> (bit (us ! j) k \<and> bit (bm ! j) k)" if "j < length us" for j k
    using t [OF that] bit_and_iff [of "us ! j" "bm ! j" k] by simp
  then show "members us \<inter> members bm = {}" by (auto simp: members_def)
qed

lemma bit_mask: "bit (2 ^ m - 1 :: int) k \<longleftrightarrow> k < m"
  by (simp add: bit_mask_iff flip: mask_eq_exp_minus_1)

lemma full_bitmap_members:
  assumes "0 \<le> n"
  shows "members (full_bitmap n) = {0..<nat n}"
proof -
  define q where "q = nat (n div 8)"
  define r where "r = nat (n mod 8)"
  have "int (nat n) = 8 * int q + int r" using assms by (simp add: q_def r_def pos_imp_zdiv_nonneg_iff)
  then have n: "nat n = 8 * q + r" "r < 8" unfolding r_def by linarith+
  have r: "n mod 8 \<noteq> 0 \<longleftrightarrow> 0 < r" using assms unfolding r_def by auto
  have b: "bit (255 :: int) k \<longleftrightarrow> k < 8" for k
    using bit_mask [of 8 k] by simp
  have fb: "full_bitmap n = replicate q 255 @ (if 0 < r then [2 ^ r - 1] else [])"
    using r by (simp add: full_bitmap_def q_def r_def)
  have "k \<in> members (full_bitmap n) \<longleftrightarrow> k < nat n" for k
  proof -
    have k: "k = 8 * (k div 8) + k mod 8" "k mod 8 < 8" by simp_all
    consider "k div 8 < q" | "k div 8 = q" | "q < k div 8" by linarith
    then show ?thesis
    proof cases
      case 1
      then have "k < nat n" using k n by linarith
      with 1 show ?thesis by (simp add: members_def fb nth_append b)
    next
      case 2
      then have "k < nat n \<longleftrightarrow> k mod 8 < r" using k n by linarith
      moreover have "k \<in> members (full_bitmap n) \<longleftrightarrow> 0 < r \<and> bit (2 ^ r - 1 :: int) (k mod 8)"
        using 2 unfolding members_def fb by (simp add: nth_append)
      ultimately show ?thesis by (simp only: bit_mask) linarith
    next
      case 3
      then have "\<not> k < nat n" using k n by linarith
      with 3 show ?thesis by (simp add: members_def fb)
    qed
  qed
  then show ?thesis by (simp add: set_eq_iff)
qed

lemma message_bit_iff:
  assumes "0 \<le> i"
  shows "x AND message_bit i \<noteq> 0 \<longleftrightarrow> bit x (nat i mod 8)"
proof -
  have m: "nat (i mod 8) = nat i mod 8" using assms by (simp add: nat_mod_distrib)
  have "x AND push_bit k 1 = (if bit x k then push_bit k 1 else 0)" for k
    by (rule bit_eqI) (auto simp: bit_simps)
  then show ?thesis by (simp add: message_bit_def m)
qed

lemma members_update:
  assumes "0 \<le> i" "nat (i div 8) < length bs"
  shows "members (bs[nat (i div 8) := bs ! nat (i div 8) OR message_bit i]) = insert (nat i) (members bs)"
proof -
  have d: "nat (i div 8) = nat i div 8" "nat (i mod 8) = nat i mod 8"
    using assms by (simp_all add: nat_div_distrib nat_mod_distrib)
  have "k div 8 = nat i div 8 \<Longrightarrow> k mod 8 = nat i mod 8 \<Longrightarrow> k = nat i" for k
    by (metis div_mult_mod_eq)
  then show ?thesis using assms(2) unfolding members_def message_bit_def d
    by (auto simp: nth_list_update bit_or_iff bit_exp_iff)
qed

lemma nat_range: "nat ` A = {0..<nat n} \<Longrightarrow> \<forall>i\<in>A. 0 \<le> i \<Longrightarrow> A = {0..<n}"
proof (intro set_eqI)
  fix i assume a: "nat ` A = {0..<nat n}" "\<forall>i\<in>A. 0 \<le> i"
  show "i \<in> A \<longleftrightarrow> i \<in> {0..<n}"
  proof
    assume "i \<in> A"
    then have "0 \<le> i" "nat i \<in> {0..<nat n}" using a by blast+
    then show "i \<in> {0..<n}" by simp
  next
    assume i: "i \<in> {0..<n}"
    then have "nat i \<in> nat ` A" using a(1) by simp
    then obtain j where "j \<in> A" "nat j = nat i" by auto
    then have "j = i" using a(2) i by (metis atLeastLessThan_iff int_nat_eq)
    then show "i \<in> A" using \<open>j \<in> A\<close> by simp
  qed
qed

section \<open>Producers\<close>

text \<open>Every message was offered within the run, before it entered the queue.\<close>

definition offered :: "workload \<Rightarrow> offers \<Rightarrow> bool" where
  "offered h o' \<longleftrightarrow> length (of_offer o') = nat (wl_n h) \<and> length (of_entry o') = nat (wl_n h)
     \<and> (\<forall>k<nat (wl_n h). of_offer o' ! k \<le> of_entry o' ! k)"

lemma producer_triple_offered:
  assumes "producer_triple h i fin s jt = Inr t" "offered h s"
  shows "offered h t"
proof -
  obtain j ident a b where jt: "jt = (j, ident, a, b)" by (cases jt) auto
  have t: "a \<le> b" "of_offer t = (of_offer s)[nat ident := a]" "of_entry t = (of_entry s)[nat ident := b]"
    using assms(1) by (auto simp: producer_triple_def jt need_ok)
  have "k = nat ident \<or> k \<noteq> nat ident" for k by simp
  then show ?thesis using assms(2) t unfolding offered_def by (metis length_list_update nth_list_update_eq nth_list_update_neq)
qed

lemma producer_trace_offered:
  assumes "producer_trace h f s iw = Inr t" "offered h s"
  shows "offered h t"
proof -
  obtain i w where iw: "iw = (i, w)" by (cases iw)
  obtain ts where "efold (producer_triple h i (wi_end w)) (s\<lparr>of_previous := 0\<rparr>) (zip [0..int (length ts) - 1] ts) = Inr t"
    using assms(1) by (auto simp: producer_trace_def iw ebind_ok)
  moreover have "offered h (s\<lparr>of_previous := 0\<rparr>)" using assms(2) by (simp add: offered_def)
  ultimately show ?thesis
    by (rule efold_invariant) (rule producer_triple_offered)
qed

section \<open>Consumers\<close>

text \<open>The latency arrays record a received message.\<close>

definition recorded :: "offers \<Rightarrow> receipts \<Rightarrow> int \<times> int \<times> int \<Rightarrow> bool" where
  "recorded o' s t = (case t of (ident, rd, ret) \<Rightarrow> (let k = nat ident in
     of_entry o' ! k \<le> rd \<and> rd \<le> ret \<and> re_native s ! k = rd - of_entry o' ! k \<and> re_service s ! k = rd - of_offer o' ! k
     \<and> re_returned s ! k = ret - of_entry o' ! k \<and> re_released s ! k = ret))"

definition slots :: "nat \<Rightarrow> receipts \<Rightarrow> bool" where
  "slots n s \<longleftrightarrow> length (re_native s) = n \<and> length (re_service s) = n \<and> length (re_returned s) = n \<and> length (re_released s) = n"

definition idents :: "(int \<times> int \<times> int) list \<Rightarrow> nat set" where
  "idents ts = nat ` fst ` set ts"

definition kept_slots :: "nat set \<Rightarrow> receipts \<Rightarrow> receipts \<Rightarrow> bool" where
  "kept_slots K s s' \<longleftrightarrow> (\<forall>k. k \<notin> K \<longrightarrow> re_native s' ! k = re_native s ! k \<and> re_service s' ! k = re_service s ! k
     \<and> re_returned s' ! k = re_returned s ! k \<and> re_released s' ! k = re_released s ! k)"

lemma kept_slots_trans: "kept_slots K s t \<Longrightarrow> kept_slots L t u \<Longrightarrow> kept_slots (K \<union> L) s u"
  by (simp add: kept_slots_def)

lemma kept_slots_recorded: "kept_slots K s s' \<Longrightarrow> nat (fst t) \<notin> K \<Longrightarrow> recorded o' s t \<Longrightarrow> recorded o' s' t"
  by (auto simp: kept_slots_def recorded_def Let_def split: prod.splits)

lemma consumer_triple_step:
  assumes "consumer_triple h o' bm fin (seen, prev, s) t = Inr (seen', prev', s')" "0 \<le> fst t"
    "int (length seen) = bitmap_bytes h" "int (length bm) = bitmap_bytes h" "slots (nat (wl_n h)) s"
  shows "nat (fst t) \<notin> members seen" "nat (fst t) \<in> members bm" "members seen' = insert (nat (fst t)) (members seen)"
    "length seen' = length seen" "re_union s' = re_union s" "slots (nat (wl_n h)) s'" "recorded o' s' t"
    "kept_slots {nat (fst t)} s s'"
proof -
  obtain ident rd ret where t: "t = (ident, rd, ret)" by (cases t) auto
  have c: "ident < wl_n h" "of_entry o' ! nat ident \<le> rd" "rd \<le> ret"
    "bm ! nat (ident div 8) AND message_bit ident \<noteq> 0" "seen ! nat (ident div 8) AND message_bit ident = 0"
    and s': "seen' = seen[nat (ident div 8) := seen ! nat (ident div 8) OR message_bit ident]"
    "s' = s\<lparr>re_native := (re_native s)[nat ident := rd - of_entry o' ! nat ident],
        re_service := (re_service s)[nat ident := rd - of_offer o' ! nat ident],
        re_returned := (re_returned s)[nat ident := ret - of_entry o' ! nat ident],
        re_released := (re_released s)[nat ident := ret]\<rparr>"
    using assms(1) unfolding consumer_triple_def t Let_def prod.case need_ok by auto
  have i: "0 \<le> ident" using assms(2) by (simp add: t)
  then have byte: "nat (ident div 8) < length seen" "nat (ident div 8) < length bm"
    using c(1) assms(3,4) by (auto simp: bitmap_bytes_def)
  have d: "nat (ident div 8) = nat ident div 8" using i by (simp add: nat_div_distrib)
  show "nat (fst t) \<notin> members seen" "nat (fst t) \<in> members bm"
    using c(4,5) message_bit_iff [OF i] byte by (auto simp: members_def t d)
  show "members seen' = insert (nat (fst t)) (members seen)"
    using members_update [OF i byte(1)] by (simp add: s' t)
  have "nat ident < nat (wl_n h)" using i c(1) by simp
  then show "length seen' = length seen" "re_union s' = re_union s" "slots (nat (wl_n h)) s'" "recorded o' s' t"
    "kept_slots {nat (fst t)} s s'"
    using c(2,3) assms(5) by (auto simp: s' t slots_def recorded_def kept_slots_def Let_def)
qed

lemma consumer_triples:
  assumes "efold (consumer_triple h o' bm fin) (seen, prev, s) ts = Inr (seen', prev', s')" "\<forall>t\<in>set ts. 0 \<le> fst t"
    "int (length seen) = bitmap_bytes h" "int (length bm) = bitmap_bytes h" "slots (nat (wl_n h)) s"
  shows "distinct (map fst ts) \<and> idents ts \<inter> members seen = {} \<and> members seen' = members seen \<union> idents ts
    \<and> idents ts \<subseteq> members bm \<and> re_union s' = re_union s \<and> slots (nat (wl_n h)) s' \<and> kept_slots (idents ts) s s'
    \<and> (\<forall>t\<in>set ts. recorded o' s' t)"
  using assms
proof (induction ts arbitrary: seen prev s)
  case Nil
  then show ?case by (simp add: idents_def kept_slots_def)
next
  case (Cons t ts)
  obtain seen1 prev1 s1 where one: "consumer_triple h o' bm fin (seen, prev, s) t = Inr (seen1, prev1, s1)"
    and more: "efold (consumer_triple h o' bm fin) (seen1, prev1, s1) ts = Inr (seen', prev', s')"
    using Cons.prems(1) by (auto simp: ebind_ok)
  have t0: "0 \<le> fst t" using Cons.prems(2) by simp
  note step = consumer_triple_step [OF one t0 Cons.prems(3-5)]
  have IH: "distinct (map fst ts)" "idents ts \<inter> members seen1 = {}" "members seen' = members seen1 \<union> idents ts"
    "idents ts \<subseteq> members bm" "re_union s' = re_union s1" "slots (nat (wl_n h)) s'" "kept_slots (idents ts) s1 s'"
    "\<forall>t\<in>set ts. recorded o' s' t"
    using Cons.IH [OF more _ _ Cons.prems(4) step(6)] Cons.prems(2,3) step(4) by auto
  have new: "nat (fst t) \<notin> idents ts" using IH(2) step(3) by auto
  have i: "idents (t # ts) = insert (nat (fst t)) (idents ts)" by (simp add: idents_def)
  have "recorded o' s' t" using kept_slots_recorded [OF IH(7) new step(7)] .
  moreover have "kept_slots (idents (t # ts)) s s'" using kept_slots_trans [OF step(8) IH(7)] by (simp add: i)
  moreover have "fst t \<notin> fst ` set ts" using new by (auto simp: idents_def)
  ultimately show ?case using IH step(1,2,3,5) i by auto
qed

text \<open>The files hold bytes, so identities are not negative.\<close>

definition bytes_ok :: "trace_bytes \<Rightarrow> bool" where
  "bytes_ok f \<longleftrightarrow> list_all (\<lambda>b. 0 \<le> b) (tb_bytes f)"

lemma le_int_nonneg: "list_all (\<lambda>b. 0 \<le> b) bs \<Longrightarrow> 0 \<le> le_int bs"
  by (induction bs) auto

lemma set_chunked: "c \<in> set (chunked m xs) \<Longrightarrow> set c \<subseteq> set xs"
proof (induction m xs rule: chunked.induct)
  case (1 n xs)
  then show ?case
    by (subst (asm) (2) chunked.simps) (auto split: if_splits dest: in_set_takeD in_set_dropD)
qed

lemma triples_nonneg:
  assumes "triples f count = Inr ts" "bytes_ok f"
  shows "\<forall>t\<in>set ts. 0 \<le> fst t"
proof
  fix t assume "t \<in> set ts"
  then obtain c b where cb: "c \<in> set (chunked (24 * 4096) (tb_bytes f))" "b \<in> set (chunked 24 c)" "t = triple_of b"
    using assms(1) by (auto simp: triples_def need_ok)
  have "set b \<subseteq> set (tb_bytes f)" using set_chunked [OF cb(1)] set_chunked [OF cb(2)] by blast
  then have "list_all (\<lambda>b. 0 \<le> b) (slice b 0 8)"
    using assms(2) by (auto simp: bytes_ok_def list_all_iff slice_def dest!: in_set_takeD)
  then show "0 \<le> fst t" by (simp add: cb(3) triple_of_def le_int_nonneg)
qed

lemma consumer_trace_step:
  assumes "consumer_trace h f o' s (i, w) = Inr s'" "bytes_ok (mf_consumer f (nat i))"
    "int (length (re_union s)) = bitmap_bytes h" "slots (nat (wl_n h)) s" "0 \<le> bitmap_bytes h"
  obtains ts where "triples (mf_consumer f (nat i)) (wi_count w) = Inr ts" "distinct (map fst ts)"
    "\<forall>t\<in>set ts. 0 \<le> fst t" "members (re_union s) \<inter> idents ts = {}"
    "members (re_union s') = members (re_union s) \<union> idents ts" "length (re_union s') = length (re_union s)"
    "slots (nat (wl_n h)) s'" "kept_slots (idents ts) s s'" "\<forall>t\<in>set ts. recorded o' s' t"
proof -
  obtain bm us ts seen prev where b: "int (length bm) = bitmap_bytes h" "merge_bitmap (re_union s) bm = Inr us"
    and ts: "triples (mf_consumer f (nat i)) (wi_count w) = Inr ts"
    and f: "efold (consumer_triple h o' bm (wi_end w)) (replicate (nat (bitmap_bytes h)) 0, 0, s\<lparr>re_union := us\<rparr>) ts
      = Inr (seen, prev, s')" "seen = bm"
    using assms(1) unfolding consumer_trace_def prod.case ebind_ok need_ok by (auto simp: need_ok)
  have l: "length (re_union s) = length bm" using assms(3) b(1) by simp
  note m = merge_bitmap_members [OF b(2) l]
  note nn = triples_nonneg [OF ts assms(2)]
  have sl: "slots (nat (wl_n h)) (s\<lparr>re_union := us\<rparr>)" using assms(4) by (simp add: slots_def)
  have r: "distinct (map fst ts)" "members seen = {} \<union> idents ts" "re_union s' = us"
    "slots (nat (wl_n h)) s'" "kept_slots (idents ts) (s\<lparr>re_union := us\<rparr>) s'" "\<forall>t\<in>set ts. recorded o' s' t"
    using consumer_triples [OF f(1) nn _ b(1) sl] assms(5) by auto
  show thesis
    by (rule that [OF ts r(1) nn]) (use m r f(2) in \<open>auto simp: kept_slots_def\<close>)
qed

text \<open>All consumers: their identities are disjoint and together the union of the bitmaps.\<close>

lemma consumer_traces:
  assumes "efold (consumer_trace h f o') s iws = Inr s'" "\<forall>iw\<in>set iws. bytes_ok (mf_consumer f (nat (fst iw)))"
    "int (length (re_union s)) = bitmap_bytes h" "slots (nat (wl_n h)) s" "0 \<le> bitmap_bytes h"
  shows "\<exists>tss. list_all2 (\<lambda>iw ts. triples (mf_consumer f (nat (fst iw))) (wi_count (snd iw)) = Inr ts) iws tss
    \<and> distinct (map fst (concat tss)) \<and> (\<forall>t\<in>set (concat tss). 0 \<le> fst t)
    \<and> members (re_union s) \<inter> idents (concat tss) = {} \<and> members (re_union s') = members (re_union s) \<union> idents (concat tss)
    \<and> kept_slots (idents (concat tss)) s s' \<and> (\<forall>t\<in>set (concat tss). recorded o' s' t)"
  using assms
proof (induction iws arbitrary: s)
  case Nil
  then show ?case by (simp add: idents_def kept_slots_def)
next
  case (Cons iw iws)
  obtain i w where iw: "iw = (i, w)" by (cases iw)
  obtain s1 where one: "consumer_trace h f o' s (i, w) = Inr s1" and more: "efold (consumer_trace h f o') s1 iws = Inr s'"
    using Cons.prems(1) by (auto simp: ebind_ok iw)
  have bt: "bytes_ok (mf_consumer f (nat i))" using Cons.prems(2) by (simp add: iw)
  obtain ts where a: "triples (mf_consumer f (nat i)) (wi_count w) = Inr ts" "distinct (map fst ts)"
    "\<forall>t\<in>set ts. 0 \<le> fst t" "members (re_union s) \<inter> idents ts = {}"
    "members (re_union s1) = members (re_union s) \<union> idents ts" "length (re_union s1) = length (re_union s)"
    "slots (nat (wl_n h)) s1" "kept_slots (idents ts) s s1" "\<forall>t\<in>set ts. recorded o' s1 t"
    by (rule consumer_trace_step [OF one bt Cons.prems(3-5)])
  obtain tss where b: "list_all2 (\<lambda>iw ts. triples (mf_consumer f (nat (fst iw))) (wi_count (snd iw)) = Inr ts) iws tss"
    "distinct (map fst (concat tss))" "\<forall>t\<in>set (concat tss). 0 \<le> fst t" "members (re_union s1) \<inter> idents (concat tss) = {}"
    "members (re_union s') = members (re_union s1) \<union> idents (concat tss)" "kept_slots (idents (concat tss)) s1 s'"
    "\<forall>t\<in>set (concat tss). recorded o' s' t"
    using Cons.IH [OF more] Cons.prems(2,3,5) a(6,7) by auto
  have i: "idents (concat (ts # tss)) = idents ts \<union> idents (concat tss)"
    unfolding concat.simps by (simp only: idents_def set_append image_Un)
  have dj: "idents ts \<inter> idents (concat tss) = {}" using a(5) b(4) by auto
  then have "fst ` set ts \<inter> fst ` set (concat tss) = {}" unfolding idents_def by blast
  then have d: "distinct (map fst (concat (ts # tss)))" using a(2) b(2) by auto
  have nn: "\<forall>t\<in>set (concat (ts # tss)). 0 \<le> fst t" using a(3) b(3) by auto
  have dj': "members (re_union s) \<inter> idents (concat (ts # tss)) = {}"
    "members (re_union s') = members (re_union s) \<union> idents (concat (ts # tss))"
    using a(4,5) b(4,5) unfolding i by auto
  have r: "\<forall>t\<in>set ts. recorded o' s' t"
  proof
    fix t assume t: "t \<in> set ts"
    then have "nat (fst t) \<notin> idents (concat tss)" using dj by (auto simp: idents_def)
    then show "recorded o' s' t" using kept_slots_recorded [OF b(6)] a(9) t by blast
  qed
  have "\<forall>t\<in>set (concat (ts # tss)). recorded o' s' t" using r b(7) by auto
  moreover have "kept_slots (idents (concat (ts # tss))) s s'" using kept_slots_trans [OF a(8) b(6)] by (simp only: i)
  moreover have "list_all2 (\<lambda>iw ts. triples (mf_consumer f (nat (fst iw))) (wi_count (snd iw)) = Inr ts) (iw # iws) (ts # tss)"
    using a(1) b(1) by (simp add: iw)
  ultimately show ?case using d nn dj' by blast
qed

text \<open>C36: When the raw evidence of a matrix record is accepted, every message was received exactly once over all
  consumers, in a valid order of ticks (offered, entered, read, returned), and the four latency arrays
  that the summaries are computed from hold exactly the differences of these ticks.\<close>

theorem matrix_exactly_once:
  assumes "record_traces h infos f = Inr (o', s)"
    and "int (length infos) = wl_p h + wl_c h" "0 \<le> wl_p h" "0 \<le> wl_c h" "0 \<le> wl_n h"
    and "\<forall>i<nat (wl_c h). bytes_ok (mf_consumer f i)"
  shows "\<exists>tss. length tss = nat (wl_c h)
    \<and> (\<forall>i<nat (wl_c h). triples (mf_consumer f i) (wi_count (infos ! (nat (wl_p h) + i))) = Inr (tss ! i))
    \<and> distinct (map fst (concat tss)) \<and> set (map fst (concat tss)) = {0..<wl_n h}
    \<and> (\<forall>t\<in>set (concat tss). of_offer o' ! nat (fst t) \<le> of_entry o' ! nat (fst t) \<and> recorded o' s t)"
proof -
  define zeros :: "int list" where "zeros = replicate (nat (wl_n h)) 0"
  define s0 where "s0 = \<lparr>re_union = replicate (nat (bitmap_bytes h)) 0, re_native = zeros, re_service = zeros,
    re_returned = zeros, re_released = zeros\<rparr>"
  define iws where "iws = zip [0..wl_c h - 1] (consumers_of h infos)"
  from assms(1) have o: "efold (producer_trace h f) \<lparr>of_previous = 0, of_offer = zeros, of_entry = zeros\<rparr>
      (zip [0..wl_p h - 1] (producers_of h infos)) = Inr o'"
    and c: "efold (consumer_trace h f o') s0 iws = Inr s" and u: "re_union s = full_bitmap (wl_n h)"
    unfolding record_traces_def Let_def ebind_ok need_ok zeros_def s0_def iws_def by auto
  have off: "offered h o'"
  proof (rule efold_invariant [OF o])
    show "offered h \<lparr>of_previous = 0, of_offer = zeros, of_entry = zeros\<rparr>" by (simp add: offered_def zeros_def)
  qed (rule producer_trace_offered)
  have len: "length (consumers_of h infos) = nat (wl_c h)"
    using assms(2-4) by (simp add: consumers_of_def)
  have nth: "iws ! i = (int i, infos ! (nat (wl_p h) + i))" if "i < nat (wl_c h)" for i
    using that assms(2-4) len by (simp add: iws_def consumers_of_def)
  have leni: "length iws = nat (wl_c h)" using len assms(4) by (simp add: iws_def)
  have "\<forall>iw\<in>set iws. bytes_ok (mf_consumer f (nat (fst iw)))"
    using assms(6) nth leni by (auto simp: in_set_conv_nth)
  moreover have "0 \<le> bitmap_bytes h" using assms(5) by (simp add: bitmap_bytes_def)
  moreover have "members (re_union s0) = {}" "int (length (re_union s0)) = bitmap_bytes h" "slots (nat (wl_n h)) s0"
    using \<open>0 \<le> bitmap_bytes h\<close> by (simp_all add: s0_def slots_def zeros_def)
  ultimately obtain tss where t: "list_all2 (\<lambda>iw ts. triples (mf_consumer f (nat (fst iw))) (wi_count (snd iw)) = Inr ts) iws tss"
    "distinct (map fst (concat tss))" "\<forall>t\<in>set (concat tss). 0 \<le> fst t"
    "members (re_union s) = idents (concat tss)" "\<forall>t\<in>set (concat tss). recorded o' s t"
    using consumer_traces [OF c] by auto
  have "nat ` fst ` set (concat tss) = {0..<nat (wl_n h)}"
    using t(4) full_bitmap_members [OF assms(5)] by (simp add: u idents_def)
  then have "fst ` set (concat tss) = {0..<wl_n h}"
    using t(3) by (intro nat_range) auto
  moreover have "of_offer o' ! nat (fst t) \<le> of_entry o' ! nat (fst t)" if "t \<in> set (concat tss)" for t
  proof -
    have "fst t \<in> {0..<wl_n h}" using that calculation by blast
    then show ?thesis using off by (simp add: offered_def)
  qed
  moreover have "length tss = nat (wl_c h)" using t(1) leni by (simp add: list_all2_lengthD [symmetric])
  moreover have "triples (mf_consumer f i) (wi_count (infos ! (nat (wl_p h) + i))) = Inr (tss ! i)" if "i < nat (wl_c h)" for i
    using t(1) nth [OF that] that leni by (auto simp: list_all2_conv_all_nth)
  ultimately show ?thesis using t(2,5) by (intro exI [of _ tss]) simp
qed

definition demo_workload :: workload where
  "demo_workload = \<lparr>wl_n = 2, wl_p = 1, wl_c = 2, wl_capacity = 4, wl_payload = 8, wl_mode = ''ncq'', wl_warmup = 0,
     wl_arrival = 0, wl_runtime = ''native_c'', wl_burst = 1, wl_period = 1, wl_hold = 0, wl_hold_every = 1,
     wl_t0 = 0, wl_end = 9, wl_num = 1, wl_den = 1, wl_segment = 0\<rparr>"

definition demo_workers :: "worker_info list" where
  "demo_workers = map (\<lambda>(c, e). \<lparr>wi_count = c, wi_end = e\<rparr>) [(2, 9), (1, 9), (1, 9)]"

definition demo_row :: "int list \<Rightarrow> int list" where
  "demo_row words = concat (map (\<lambda>w. w # replicate 7 0) words)"

definition demo_trace :: "int list list \<Rightarrow> trace_bytes" where
  "demo_trace rows = \<lparr>tb_regular = True, tb_bytes = concat (map demo_row rows)\<rparr>"

definition demo_files :: matrix_files where
  "demo_files = \<lparr>mf_doc = (0, Inr JNull), mf_producer = (\<lambda>i. demo_trace [[0, 1, 2], [1, 5, 6]]),
     mf_consumer = (\<lambda>i. if i = 0 then demo_trace [[1, 7, 8]] else demo_trace [[0, 3, 4]]),
     mf_bitmap = (\<lambda>i. Inr (if i = 0 then [2] else [1])), mf_union = Inr [3], mf_reconcile = (0, Inr JNull)\<rparr>"

lemma chunked_one: "xs \<noteq> [] \<Longrightarrow> length xs \<le> n \<Longrightarrow> chunked n xs = [xs]"
  by (cases n) (simp_all add: chunked.simps)

lemma chunked_blocks: "0 < n \<Longrightarrow> \<forall>b\<in>set bs. length b = n \<Longrightarrow> chunked n (concat bs) = bs"
  by (induction bs) (auto simp: chunked.simps)

lemma length_rows: "\<forall>w\<in>set ws. length (g w) = n \<Longrightarrow> length (concat (map g ws)) = n * length ws"
  by (induction ws) auto

lemma demo_triple: "triple_of (demo_row [a, b, c]) = (a, b, c)" "length (demo_row [a, b, c]) = 24"
  by (simp_all add: demo_row_def triple_of_def slice_def numeral_eq_Suc)

lemma demo_trace_triples:
  assumes "\<forall>w\<in>set ws. length w = 3" "ws \<noteq> []" "length ws \<le> 4096"
  shows "triples (demo_trace ws) (int (length ws)) = Inr (map (\<lambda>w. (w ! 0, w ! 1, w ! 2)) ws)"
proof -
  have r: "triple_of (demo_row w) = (w ! 0, w ! 1, w ! 2) \<and> length (demo_row w) = 24" if "w \<in> set ws" for w
  proof -
    have "length w = 3" using assms(1) that by blast
    then obtain a b c where "w = [a, b, c]" by (auto simp: numeral_eq_Suc length_Suc_conv)
    then show ?thesis using demo_triple [of a b c] by simp
  qed
  define bs where "bs = concat (map demo_row ws)"
  have l: "length bs = 24 * length ws" using r unfolding bs_def by (intro length_rows) auto
  then have "chunked (24 * 4096) bs = [bs]" using assms(2,3) by (intro chunked_one) auto
  moreover have "chunked 24 bs = map demo_row ws" unfolding bs_def using r by (intro chunked_blocks) auto
  ultimately show ?thesis using l r by (simp add: triples_def demo_trace_def bs_def [symmetric] need_ok)
qed

lemma demo_triples:
  "triples (demo_trace [[0, 1, 2], [1, 5, 6]]) 2 = Inr [(0, 1, 2), (1, 5, 6)]"
  "triples (demo_trace [[1, 7, 8]]) 1 = Inr [(1, 7, 8)]" "triples (demo_trace [[0, 3, 4]]) 1 = Inr [(0, 3, 4)]"
  using demo_trace_triples [of "[[0, 1, 2], [1, 5, 6]]"] demo_trace_triples [of "[[1, 7, 8]]"]
    demo_trace_triples [of "[[0, 3, 4]]"] by simp_all

lemma demo_fields [simp]:
  "wl_n demo_workload = 2" "wl_p demo_workload = 1" "wl_c demo_workload = 2" "wl_arrival demo_workload = 0"
  "wl_hold demo_workload = 0" "wl_t0 demo_workload = 0" "wl_quota demo_workload = 2" "bitmap_bytes demo_workload = 1"
  "producers_of demo_workload demo_workers = [\<lparr>wi_count = 2, wi_end = 9\<rparr>]"
  "consumers_of demo_workload demo_workers = [\<lparr>wi_count = 1, wi_end = 9\<rparr>, \<lparr>wi_count = 1, wi_end = 9\<rparr>]"
  by (simp_all add: demo_workload_def demo_workers_def producers_of_def consumers_of_def wl_quota_def bitmap_bytes_def)

lemma demo_upto: "[0..1] = [0, 1::int]" "[0..0] = [0::int]" "[1..1] = [1::int]"
  by (simp_all add: upto.simps)

definition demo_offers :: offers where
  "demo_offers = \<lparr>of_previous = 6, of_offer = [1, 5], of_entry = [2, 6]\<rparr>"

lemma demo_producer:
  "producer_trace demo_workload demo_files \<lparr>of_previous = 0, of_offer = [0, 0], of_entry = [0, 0]\<rparr>
     (0, \<lparr>wi_count = 2, wi_end = 9\<rparr>) = Inr demo_offers"
  by (simp add: producer_trace_def demo_files_def demo_triples producer_triple_def demo_upto demo_offers_def)

definition demo_receipts :: receipts where
  "demo_receipts = \<lparr>re_union = [3], re_native = [1, 1], re_service = [2, 2], re_returned = [2, 2], re_released = [4, 8]\<rparr>"

lemma demo_consumers:
  "efold (consumer_trace demo_workload demo_files demo_offers)
     \<lparr>re_union = [0], re_native = [0, 0], re_service = [0, 0], re_returned = [0, 0], re_released = [0, 0]\<rparr>
     [(0, \<lparr>wi_count = 1, wi_end = 9\<rparr>), (1, \<lparr>wi_count = 1, wi_end = 9\<rparr>)] = Inr demo_receipts"
  by (simp add: consumer_trace_def demo_files_def demo_triples consumer_triple_def demo_offers_def demo_receipts_def
    merge_bitmap_def message_bit_def bit_count.simps)

lemma demo_union: "full_bitmap 2 = [3]" "re_union demo_receipts = [3]" "mf_union demo_files = Inr [3]"
  by (simp_all add: full_bitmap_def demo_receipts_def demo_files_def)

lemma demo_closed: "closed_loop demo_workload demo_offers demo_receipts = Inr ()"
  by (simp add: closed_loop_def demo_upto demo_receipts_def demo_offers_def)

lemma demo_files_accepted: "record_traces demo_workload demo_workers demo_files = Inr (demo_offers, demo_receipts)"
  by (simp add: record_traces_def demo_upto demo_producer demo_consumers [simplified] numeral_eq_Suc
    demo_union [simplified numeral_eq_Suc] demo_closed)

theorem matrix_exactly_once_witness:
  "\<exists>tss. length tss = 2 \<and> triples (mf_consumer demo_files 0) 1 = Inr (tss ! 0)
     \<and> distinct (map fst (concat tss)) \<and> set (map fst (concat tss)) = {0..<2}"
proof -
  have "bytes_ok (mf_consumer demo_files i)" for i
    by (simp add: demo_files_def demo_trace_def demo_row_def bytes_ok_def numeral_eq_Suc)
  then obtain tss where t: "length tss = 2" "\<forall>i<2. triples (mf_consumer demo_files i) (wi_count (demo_workers ! (1 + i))) = Inr (tss ! i)"
    "distinct (map fst (concat tss))" "set (map fst (concat tss)) = {0..<2}"
    using matrix_exactly_once [OF demo_files_accepted] by (auto simp: demo_workload_def demo_workers_def)
  have "triples (mf_consumer demo_files 0) (wi_count (demo_workers ! (1 + 0))) = Inr (tss ! 0)"
    using t(2) by (rule allE [where x = 0]) simp
  with t show ?thesis by (intro exI [of _ tss]) (simp add: demo_workers_def)
qed

end
