(* ===== verification/Matrix_Plan.thy ===== *)
theory Matrix_Plan
  imports Matrix_Traces
begin

text \<open>
  The planner of \<open>tools/run_matrix.py\<close>: the memory budget of the machine and the predeclared cells of a
  campaign, with the cells that are skipped. A cell is a record; \<open>add_cell\<close> is the nested function
  \<open>add\<close>, whose keyword arguments are an update of the default cell. Then the arithmetic of
  \<open>bindings/python/matrix_worker.py\<close>: its latency summary, its ticks and the record \<open>run\<close> rebuilds from
  the traces; the processes, their messages and the native clock are left out.
\<close>

definition machine_budget :: "jvalue \<Rightarrow> int \<Rightarrow> int result" where
  "machine_budget t maximum = (
    ebind (ebind (item t ''physical_memory_bytes'') val) (\<lambda>mem.
    ebind (ebind (item t ''cgroups'') iter) (\<lambda>gs.
    ebind (emap (\<lambda>g. (
       ebind (ebind (item g ''memory_max'') val) (\<lambda>limit.
       ebind (ebind (item g ''memory_current'') val) (\<lambda>used.
       Inr (case limit of None \<Rightarrow> [] | Some l \<Rightarrow> [max 0 ((l - (case used of None \<Rightarrow> 0 | Some u \<Rightarrow> u)) div 2)]))))) gs) (\<lambda>limits.
    Inr (Min (set ([maximum] @ (case mem of None \<Rightarrow> [] | Some m \<Rightarrow> if m = 0 then [] else [m div 2]) @ concat limits)))))))"

section \<open>Cells\<close>

record plan_cell =
  ce_mode :: string
  ce_messages :: int
  ce_warmup :: int
  ce_producers :: int
  ce_consumers :: int
  ce_capacity :: int
  ce_payload :: int
  ce_checksum :: int
  ce_arrival :: int
  ce_burst :: int
  ce_period :: int
  ce_hold :: int
  ce_hold_every :: int
  ce_yield :: int
  ce_runtime :: string
  ce_locality :: string
  ce_cpus :: "int list"
  ce_qos :: int
  ce_id :: string
  ce_axis :: string
  ce_status :: string
  ce_reason :: "string option"
  ce_resource :: int

definition default_cell :: "int \<Rightarrow> int list \<Rightarrow> bool \<Rightarrow> plan_cell" where
  "default_cell count pool darwin =
     \<lparr>ce_mode = ''ncq'', ce_messages = count, ce_warmup = min 1024 count, ce_producers = 1, ce_consumers = 1,
      ce_capacity = 32, ce_payload = 64, ce_checksum = 0, ce_arrival = 1, ce_burst = 32, ce_period = 10000,
      ce_hold = 0, ce_hold_every = 16, ce_yield = 0, ce_runtime = ''native_c'', ce_locality = ''unconstrained'',
      ce_cpus = pool, ce_qos = (if darwin then 1 else 0), ce_id = [], ce_axis = [], ce_status = [],
      ce_reason = None, ce_resource = 0\<rparr>"

definition skip_cell :: "string \<Rightarrow> string \<Rightarrow> plan_cell \<Rightarrow> plan_cell" where
  "skip_cell st reason c = c\<lparr>ce_status := st, ce_reason := Some reason\<rparr>"

definition backing_bytes :: "plan_cell \<Rightarrow> int" where
  "backing_bytes c = geometry (ce_mode c) (ce_capacity c) (ce_payload c) (ce_producers c + ce_consumers c)"

definition evidence_bytes :: "plan_cell \<Rightarrow> int" where
  "evidence_bytes c = 24 * ce_messages c * (ce_consumers c + 1) + 80 * ce_messages c + 64 * 1024 * 1024"

text \<open>The steps of \<open>add\<close>: Python may be disabled, quotas are rounded, the resource estimate may exceed the budget.\<close>

definition python_allowed :: "bool \<Rightarrow> plan_cell \<Rightarrow> plan_cell" where
  "python_allowed python c =
     (if ce_runtime c \<noteq> ''native_c'' \<and> \<not> python
      then skip_cell ''SKIP_UNSUPPORTED'' ''Python explicitly disabled for this campaign'' c else c)"

definition rounded :: "plan_cell \<Rightarrow> plan_cell" where
  "rounded c = (let p = ce_producers c
     in c\<lparr>ce_messages := max p (ce_messages c div p * p), ce_warmup := ce_warmup c div p * p\<rparr>)"

definition budgeted :: "int \<Rightarrow> plan_cell \<Rightarrow> plan_cell" where
  "budgeted max_bytes c =
     (let backing = backing_bytes c; evidence = evidence_bytes c; c = c\<lparr>ce_resource := backing + evidence\<rparr>
      in if backing > max_bytes \<or> backing + evidence > max_bytes
         then skip_cell ''SKIP_RESOURCE'' ''Declared backing+trace+analysis budget exceeds live resource policy'' c else c)"

definition add_cell ::
    "plan_cell \<Rightarrow> int \<Rightarrow> bool \<Rightarrow> string \<Rightarrow> string \<Rightarrow> (plan_cell \<Rightarrow> plan_cell) \<Rightarrow> plan_cell" where
  "add_cell dflt max_bytes python ident axis changes =
     budgeted max_bytes (rounded (python_allowed python ((changes dflt)\<lparr>ce_id := ident, ce_axis := axis, ce_status := ''RUN''\<rparr>)))"

section \<open>The fixed part of the plan\<close>

type_synonym cell_spec = "string \<times> string \<times> (plan_cell \<Rightarrow> plan_cell)"

definition population_specs :: "cell_spec list" where
  "population_specs =
     map (\<lambda>(p, c). (''ncq-pop-'' @ show_int p @ ''-'' @ show_int c, ''population'', \<lambda>d. d\<lparr>ce_producers := p, ce_consumers := c\<rparr>))
       [(1, 1), (2, 2), (4, 4), (8, 8), (16, 1), (1, 16), (16, 16)]"

definition mode_specs :: "bool \<Rightarrow> string \<Rightarrow> cell_spec list" where
  "mode_specs small mode =
     [(mode @ ''-retained'', ''retention'', \<lambda>d. d\<lparr>ce_mode := mode, ce_messages := 1024, ce_warmup := 64,
         ce_capacity := 2, ce_hold := 100000, ce_hold_every := 1\<rparr>),
      (mode @ ''-crc64'', ''integrity'', \<lambda>d. d\<lparr>ce_mode := mode, ce_messages := 1024, ce_warmup := 64,
         ce_payload := 4096, ce_checksum := 1\<rparr>),
      (mode @ ''-helper-c-1m'', ''runtime'', \<lambda>d. d\<lparr>ce_mode := mode, ce_messages := 1024, ce_warmup := 16,
         ce_capacity := 8, ce_payload := 1048576\<rparr>),
      (mode @ ''-python-1m'', ''runtime'', \<lambda>d. d\<lparr>ce_mode := mode, ce_messages := 1024, ce_warmup := 16,
         ce_capacity := 8, ce_payload := 1048576, ce_runtime := ''python_helper''\<rparr>),
      (mode @ ''-python-bytecode'', ''runtime'', \<lambda>d. d\<lparr>ce_mode := mode, ce_messages := 512, ce_warmup := 32,
         ce_runtime := ''python_bytecode'', ce_arrival := 0\<rparr>),
      (mode @ ''-python-retained-gc'', ''runtime'', \<lambda>d. d\<lparr>ce_mode := mode, ce_messages := 256, ce_warmup := 32,
         ce_runtime := ''python_gc'', ce_hold := 100000, ce_hold_every := 4\<rparr>),
      (mode @ ''-llc-candidate'', ''pool_size'', \<lambda>d. d\<lparr>ce_mode := mode, ce_messages := (if small then 16 else 64),
         ce_warmup := 2, ce_capacity := 2, ce_payload := 67108864\<rparr>)]"

definition fixed_specs :: "bool \<Rightarrow> cell_spec list" where
  "fixed_specs small =
     [(''spsc-closed-small'', ''arrival'', \<lambda>d. d\<lparr>ce_mode := ''spsc'', ce_arrival := 0\<rparr>)] @ population_specs
     @ [(''ncq-closed-small'', ''arrival'', \<lambda>d. d\<lparr>ce_arrival := 0\<rparr>),
        (''spsc-saturation-small'', ''population'', \<lambda>d. d\<lparr>ce_mode := ''spsc''\<rparr>),
        (''ncq-fixed-rate'', ''arrival'', \<lambda>d. d\<lparr>ce_messages := 2048, ce_warmup := 64, ce_arrival := 2\<rparr>),
        (''ncq-bursts'', ''arrival'', \<lambda>d. d\<lparr>ce_messages := 2048, ce_warmup := 64, ce_arrival := 3, ce_period := 320000\<rparr>)]
     @ mode_specs small ''spsc'' @ mode_specs small ''ncq''
     @ [(''ncq-l2-candidate'', ''pool_size'', \<lambda>d. d\<lparr>ce_capacity := 1024, ce_payload := 4096, ce_messages := 4096, ce_warmup := 1024\<rparr>),
        (''ncq-yield-requests'', ''os_faults'', \<lambda>d. d\<lparr>ce_producers := 4, ce_consumers := 4, ce_messages := 4096, ce_yield := 1\<rparr>),
        (''python-asymmetric-1-16'', ''population'', \<lambda>d. d\<lparr>ce_runtime := ''python_helper'', ce_producers := 1,
           ce_consumers := 16, ce_messages := 512, ce_warmup := 32\<rparr>),
        (''python-asymmetric-16-1'', ''population'', \<lambda>d. d\<lparr>ce_runtime := ''python_helper'', ce_producers := 16,
           ce_consumers := 1, ce_messages := 512, ce_warmup := 32\<rparr>)]"

text \<open>Cells that are always skipped after they were added: identity, axis, reason.\<close>

definition unsupported_specs :: "(string \<times> string \<times> string) list" where
  "unsupported_specs =
     [(''all-tokens-retained'', ''retention'', ''A concurrent all-token lease fixture requires a separate barrier schedule; not fabricated from periodic retention''),
      (''host-memory-pressure'', ''os_faults'', ''System pressure is not injected into an unisolated host; quota and fault observations are retained''),
      (''owned-corruption'', ''integrity'', ''Run the existing test_adversarial integrity negative lane; no success-throughput result is manufactured'')]"

section \<open>The part that depends on the topology\<close>

definition quota_pool :: "jvalue \<Rightarrow> int list \<Rightarrow> int list result" where
  "quota_pool t allowed = (
    ebind (ebind (item t ''cgroups'') iter) (\<lambda>gs.
    ebind (emap (\<lambda>g. (
       ebind (ebind (item g ''quota_us'') val) (\<lambda>q.
       ebind (ebind (item g ''period_us'') val) (\<lambda>p.
       Inr (case (q, p) of (Some q, Some p) \<Rightarrow> if p = 0 then [] else [of_int q / (of_int p :: rat)] | _ \<Rightarrow> []))))) gs) (\<lambda>qs.
    let quota = concat qs in
    Inr (if quota = [] then allowed
          else take (nat (max 1 (min (int (length allowed)) \<lfloor>Min (set quota)\<rfloor>))) allowed))))"

text \<open>A CPU pair that both sides report to share a level-2 cache: the candidates of one CPU, and the first.\<close>

definition mutual_l2 :: "(int \<times> jvalue) list \<Rightarrow> int \<Rightarrow> int \<Rightarrow> bool result" where
  "mutual_l2 cpus i j = (
    ebind (at_key cpus j) (\<lambda>c.
    ebind (ebind (item c ''caches'') iter) (\<lambda>caches.
    some (\<lambda>cb. eand (ebind (ebind (item cb ''level'') val) (\<lambda>l. Inr (l = Some 2)))
       (ebind (ebind (item cb ''shared_cpus'') cpuset) (\<lambda>ids. Inr ({i, j} \<subseteq> set ids)))) caches)))"

definition pair_from_cache :: "(int \<times> jvalue) list \<Rightarrow> int list \<Rightarrow> int \<Rightarrow> jvalue \<Rightarrow> int list option result" where
  "pair_from_cache cpus allowed i ca = (
    ebind (eand (data_cache ca) (ebind (ebind (item ca ''level'') val) (\<lambda>l. Inr (l = Some 2)))) (\<lambda>ok.
    if \<not> ok then Inr None
     else (
       ebind (ebind (item ca ''shared_cpus'') cpuset) (\<lambda>shared.
       let grp = sort (filter (\<lambda>x. x \<in> set allowed) shared) in
       if length grp < 2 then Inr None
       else (
         let j = (if grp ! 0 = i then grp ! 1 else grp ! 0) in
         ebind (mutual_l2 cpus i j) (\<lambda>both.
         Inr (if both then Some [i, j] else None)))))))"

fun first_some :: "('a \<Rightarrow> 'b option result) \<Rightarrow> 'a list \<Rightarrow> 'b option result" where
  "first_some f [] = Inr None"
| "first_some f (x # xs) = ebind (f x) (\<lambda>r. case r of Some y \<Rightarrow> Inr (Some y) | None \<Rightarrow> first_some f xs)"

definition l2_pair :: "(int \<times> jvalue) list \<Rightarrow> int list \<Rightarrow> int list option result" where
  "l2_pair cpus allowed =
     first_some (\<lambda>i. ebind (at_key cpus i) (\<lambda>c. ebind (ebind (item c ''caches'') iter)
       (first_some (pair_from_cache cpus allowed i)))) allowed"

text \<open>The CPUs of every known node, in the order of the topology.\<close>

definition node_cpus :: "(int \<times> jvalue) list \<Rightarrow> (int \<times> int list) list result" where
  "node_cpus cpus = efold (\<lambda>d (i, v). (
    ebind (uint_field v ''numa_node'' (-2) (2 ^ 31 - 1)) (\<lambda>nd.
    Inr (if 0 \<le> nd then AList.update nd ((case map_of d nd of None \<Rightarrow> [] | Some is \<Rightarrow> is) @ [i]) d else d)))) [] cpus"

text \<open>The cells of the plan from the default cell, the shared-cache pair, the number of nodes and the first
  CPUs of the first two nodes.\<close>

definition topology_cells :: "(string \<Rightarrow> string \<Rightarrow> (plan_cell \<Rightarrow> plan_cell) \<Rightarrow> plan_cell) \<Rightarrow> int list option \<Rightarrow> nat \<Rightarrow> int list
     \<Rightarrow> plan_cell list" where
  "topology_cells add pair node_count firsts =
     (let same = add ''reported-same-l2'' ''locality'' (\<lambda>d. d\<lparr>ce_mode := ''spsc'', ce_arrival := 0,
            ce_locality := ''same_l2'', ce_cpus := (case pair of None \<Rightarrow> [] | Some ij \<Rightarrow> ij)\<rparr>);
          cross = add ''reported-cross-numa'' ''locality'' (\<lambda>d. d\<lparr>ce_mode := ''spsc'', ce_arrival := 0,
            ce_locality := ''cross_numa'', ce_cpus := firsts\<rparr>)
      in [if pair = None then skip_cell ''SKIP_UNSUPPORTED'' ''No mutually reported shared-L2 CPU pair with enforceable IDs'' same else same,
          if node_count < 2 then skip_cell ''SKIP_UNSUPPORTED'' ''Fewer than two NUMA nodes in eligible CPU mapping'' cross else cross]
        @ map (\<lambda>name. skip_cell ''SKIP_UNSUPPORTED'' ''Aggregate perflevel geometry does not expose an enforced per-worker P/E map''
            (add name ''locality'' (\<lambda>d. d\<lparr>ce_locality := name\<rparr>))) [''intra_perf'', ''perf_to_efficiency''])"

definition all_cells :: "(string \<Rightarrow> string \<Rightarrow> (plan_cell \<Rightarrow> plan_cell) \<Rightarrow> plan_cell) \<Rightarrow> bool \<Rightarrow> int list option \<Rightarrow> nat \<Rightarrow> int list
     \<Rightarrow> plan_cell list" where
  "all_cells add small pair node_count firsts =
     map (\<lambda>(ident, axis, changes). add ident axis changes) (fixed_specs small)
     @ topology_cells add pair node_count firsts
     @ map (\<lambda>(ident, axis, reason). skip_cell ''SKIP_UNSUPPORTED'' reason (add ident axis (\<lambda>d. d))) unsupported_specs"

definition plan_cells :: "jvalue \<Rightarrow> int \<Rightarrow> bool \<Rightarrow> int \<Rightarrow> bool \<Rightarrow> plan_cell list result" where
  "plan_cells t count small max_bytes python = (
    ebind (topology False t) (\<lambda>cpus.
    let allowed = sort (keys cpus) in
    ebind (item t ''platform'') (\<lambda>platform.
    ebind (quota_pool t allowed) (\<lambda>pool.
    ebind (l2_pair cpus allowed) (\<lambda>pair.
    ebind (node_cpus cpus) (\<lambda>nodes.
    let firsts = map (\<lambda>n. hd (the (map_of nodes n))) (take 2 (sort (keys nodes))) in
    Inr (all_cells (add_cell (default_cell count pool (platform = VStr ''Darwin'')) max_bytes python) small pair
       (length nodes) firsts)))))))"

section \<open>The latency summary of the worker\<close>

text \<open>\<open>quantiles\<close> of \<open>bindings/python/matrix_worker.py\<close>, deliberately written apart from the verifier's; the
  scale is the fraction with numerator \<open>a\<close> and denominator \<open>b\<close>.\<close>

definition WORKER_RANKS :: "(string \<times> int \<times> int) list" where
  "WORKER_RANKS = [(''p50'', 1, 2), (''p90'', 9, 10), (''p99'', 99, 100), (''p99_9'', 999, 1000), (''p99_99'', 9999, 10000), (''max'', 1, 1)]"

definition worker_quantiles :: "int list \<Rightarrow> int \<times> int \<Rightarrow> jvalue result" where
  "worker_quantiles values scale = (case scale of (a, b) \<Rightarrow>
     if values = [] then Inl IndexError
     else (let ordered = sort values; count = int (length ordered);
               ticks = map (\<lambda>(k, x, y). (k, ordered ! nat ((count * x + y - 1) div y - 1))) WORKER_RANKS;
               nonzero = filter (\<lambda>v. v \<noteq> 0) ordered
       in Inr (VDict [(''samples'', VInt count), (''zeros'', VInt (int (length (filter (\<lambda>v. v = 0) ordered)))),
         (''minimum_nonzero_ticks'', VInt (if nonzero = [] then 0 else Min (set nonzero))),
         (''raw_tick_quantiles'', VDict (map (\<lambda>(k, v). (k, VInt v)) ticks)),
         (''nanoseconds_ceiling'', VDict (map (\<lambda>(k, v). (k, VInt ((v * a + b - 1) div b))) ticks))])))"

section \<open>The ticks and the record of the worker\<close>

text \<open>\<open>start+off\<close> of message \<open>j\<close> of producer \<open>i\<close>, for the arrivals 2 and 3.\<close>

definition offer_tick :: "workload \<Rightarrow> int \<Rightarrow> int \<Rightarrow> int" where
  "offer_tick h i j =
     (let ord = j * wl_p h + i; batch = ord div (if wl_arrival h = 3 then wl_burst h else 1);
          off = (batch * wl_period h * wl_den h + wl_num h - 1) div wl_num h
      in wl_t0 h + off)"

definition hold_ticks :: "workload \<Rightarrow> int" where
  "hold_ticks h = (wl_hold h * wl_den h + wl_num h - 1) div wl_num h"

text \<open>What \<open>run\<close> rebuilds from the traces of its workers after they have ended.\<close>

record rebuilt =
  rb_combined :: "int list"
  rb_offer :: "int list"
  rb_entry :: "int list"
  rb_native :: "int list"
  rb_service :: "int list"
  rb_returned :: "int list"

definition rebuild_offer :: "workload \<Rightarrow> rebuilt \<Rightarrow> int \<times> int \<times> int \<Rightarrow> rebuilt result" where
  "rebuild_offer h r t = (case t of (ident, a, bb) \<Rightarrow>
     if wl_n h \<le> ident then Inl IndexError
     else Inr (r\<lparr>rb_offer := (rb_offer r)[nat ident := a], rb_entry := (rb_entry r)[nat ident := bb]\<rparr>))"

definition rebuild_producer :: "workload \<Rightarrow> matrix_files \<Rightarrow> rebuilt \<Rightarrow> int \<Rightarrow> rebuilt result" where
  "rebuild_producer h f r i = (
    ebind (triples (mf_producer f (nat i)) (wl_quota h)) (\<lambda>ts.
    efold (rebuild_offer h) r ts))"

text \<open>\<open>for j,v in enumerate(one):need(not v&combined[j],'duplicate');combined[j]|=v\<close>.\<close>

fun combine :: "int list \<Rightarrow> int list \<Rightarrow> int list result" where
  "combine us [] = Inr us"
| "combine [] (v # vs) = Inl IndexError"
| "combine (u # us) (v # vs) =
     need (v AND u = 0) ''duplicate'' (ebind (combine us vs) (\<lambda>rest. Inr ((u OR v) # rest)))"

definition rebuild_receipt :: "workload \<Rightarrow> rebuilt \<Rightarrow> int \<times> int \<times> int \<Rightarrow> rebuilt result" where
  "rebuild_receipt h r t = (case t of (ident, rd, ret) \<Rightarrow>
     if wl_n h \<le> ident then Inl IndexError
     else (let k = nat ident in Inr (r\<lparr>rb_native := (rb_native r)[k := rd - rb_entry r ! k],
       rb_service := (rb_service r)[k := rd - rb_offer r ! k], rb_returned := (rb_returned r)[k := ret - rb_entry r ! k]\<rparr>)))"

definition rebuild_consumer :: "workload \<Rightarrow> matrix_files \<Rightarrow> rebuilt \<Rightarrow> int \<times> worker_info \<Rightarrow> rebuilt result" where
  "rebuild_consumer h f r iw = (case iw of (i, w) \<Rightarrow> (
    ebind (mf_bitmap f (nat i)) (\<lambda>one.
    ebind (combine (rb_combined r) one) (\<lambda>merged.
    ebind (triples (mf_consumer f (nat i)) (wi_count w)) (\<lambda>ts.
    efold (rebuild_receipt h) (r\<lparr>rb_combined := merged\<rparr>) ts)))))"

definition rebuild :: "workload \<Rightarrow> worker_info list \<Rightarrow> matrix_files \<Rightarrow> rebuilt result" where
  "rebuild h infos f = (let zeros = replicate (nat (wl_n h)) 0 in (
    ebind (efold (rebuild_producer h f)
       \<lparr>rb_combined = replicate (nat ((wl_n h + 7) div 8)) 0, rb_offer = zeros, rb_entry = zeros, rb_native = zeros,
         rb_service = zeros, rb_returned = zeros\<rparr> [0..wl_p h - 1]) (\<lambda>r.
    efold (rebuild_consumer h f) r (zip [0..wl_c h - 1] (consumers_of h infos)))))"

text \<open>The three latency summaries of the result document. The scale is the fraction of the clock's
  numerator and denominator, which Python keeps in lowest terms.\<close>

definition worker_latencies :: "workload \<Rightarrow> worker_info list \<Rightarrow> matrix_files \<Rightarrow> jdict result" where
  "worker_latencies h infos f = (
    ebind (rebuild h infos f) (\<lambda>r.
    if wl_den h = 0 then Inl ZeroDivisionError else
    emap (\<lambda>(k, values). ebind (worker_quantiles values (quotient_of (wl_scale h))) (\<lambda>q. Inr (k, q)))
       [(''native_latency'', rb_native r), (''offered_latency'', rb_service r), (''returned_latency'', rb_returned r)]))"

end
