(* ===== verification/Plan_Claims.thy ===== *)
theory Plan_Claims
  imports Matrix_Plan
begin

text \<open>
  The planner and the worker of the matrix campaign against the verifier: every planned cell has the
  workload geometry the verifier requires, and the two independent latency summaries agree.
\<close>

unbundle bit_operations_syntax

section \<open>Planned cells\<close>

text \<open>The geometry checks of \<open>read_workload\<close>, on the fields of a cell.\<close>

definition template_ok :: "plan_cell \<Rightarrow> bool" where
  "template_ok c \<longleftrightarrow> 1 \<le> ce_messages c \<and> ce_messages c \<le> 1000000 \<and> 1 \<le> ce_producers c \<and> ce_producers c \<le> 16
     \<and> 1 \<le> ce_consumers c \<and> ce_consumers c \<le> 16 \<and> 2 \<le> ce_capacity c \<and> ce_capacity c \<le> 65536
     \<and> 8 \<le> ce_payload c \<and> ce_payload c \<le> 67108864 \<and> ce_capacity c AND (ce_capacity c - 1) = 0
     \<and> ce_producers c + ce_consumers c \<le> min (ce_capacity c) 32 \<and> ce_payload c mod 8 = 0
     \<and> ce_mode c \<in> {''spsc'', ''ncq''} \<and> (ce_mode c = ''spsc'' \<longrightarrow> ce_producers c = 1 \<and> ce_consumers c = 1)
     \<and> 0 \<le> ce_warmup c \<and> ce_warmup c \<le> 1000000"

definition cell_ok :: "int \<Rightarrow> plan_cell \<Rightarrow> bool" where
  "cell_ok max_bytes c \<longleftrightarrow> template_ok c \<and> ce_messages c mod ce_producers c = 0 \<and> ce_warmup c mod ce_producers c = 0
     \<and> ce_resource c = backing_bytes c + evidence_bytes c \<and> (ce_status c = ''RUN'' \<longrightarrow> ce_resource c \<le> max_bytes)"

lemma skip_cell_ok: "st \<noteq> ''RUN'' \<Longrightarrow> cell_ok mx c \<Longrightarrow> cell_ok mx (skip_cell st reason c)"
  by (simp add: cell_ok_def template_ok_def skip_cell_def backing_bytes_def evidence_bytes_def)

lemma quota_le: "1 \<le> (p :: int) \<Longrightarrow> n div p * p \<le> n"
  using minus_mod_eq_div_mult [of n p] pos_mod_sign [of p n] by linarith

lemma quota_round:
  assumes "1 \<le> (p :: int)" "1 \<le> n" "n \<le> mx" "p \<le> mx"
  shows "1 \<le> max p (n div p * p)" "max p (n div p * p) \<le> mx" "max p (n div p * p) mod p = 0"
proof -
  have "n div p * p \<le> n" by (rule quota_le) (use assms in simp)
  then show "max p (n div p * p) \<le> mx" "max p (n div p * p) mod p = 0"
    using assms by (auto simp: max_def)
  show "1 \<le> max p (n div p * p)" using assms(1) by (rule max.coboundedI1)
qed

lemma python_allowed_ok: "template_ok c \<Longrightarrow> template_ok (python_allowed python c)"
  by (simp add: python_allowed_def skip_cell_def template_ok_def)

lemma rounded_ok:
  assumes "template_ok c"
  shows "template_ok (rounded c)" "ce_messages (rounded c) mod ce_producers (rounded c) = 0"
    "ce_warmup (rounded c) mod ce_producers (rounded c) = 0"
proof -
  have p: "1 \<le> ce_producers c" "ce_producers c \<le> 1000000" "1 \<le> ce_messages c" "ce_messages c \<le> 1000000" "0 \<le> ce_warmup c"
    "ce_warmup c \<le> 1000000"
    using assms by (simp_all add: template_ok_def)
  have "0 \<le> ce_warmup c div ce_producers c * ce_producers c" "ce_warmup c div ce_producers c * ce_producers c \<le> 1000000"
    using p quota_le [OF p(1), of "ce_warmup c"] by (simp_all add: pos_imp_zdiv_nonneg_iff)
  note r = this quota_round [OF p(1,3,4,2)]
  show "template_ok (rounded c)" using assms r by (simp add: template_ok_def rounded_def Let_def)
  show "ce_messages (rounded c) mod ce_producers (rounded c) = 0" "ce_warmup (rounded c) mod ce_producers (rounded c) = 0"
    using r by (simp_all add: rounded_def Let_def)
qed

lemma budgeted_ok:
  assumes "template_ok c" "ce_messages c mod ce_producers c = 0" "ce_warmup c mod ce_producers c = 0"
  shows "cell_ok mx (budgeted mx c)"
proof -
  have e: "backing_bytes (c\<lparr>ce_resource := r\<rparr>) = backing_bytes c" "evidence_bytes (c\<lparr>ce_resource := r\<rparr>) = evidence_bytes c"
    "template_ok (c\<lparr>ce_resource := r\<rparr>)" for r
    using assms(1) by (simp_all add: backing_bytes_def evidence_bytes_def template_ok_def)
  have k: "backing_bytes (skip_cell st why c) = backing_bytes c" "evidence_bytes (skip_cell st why c) = evidence_bytes c"
    "template_ok (skip_cell st why c) = template_ok c" for st why c
    by (simp_all add: backing_bytes_def evidence_bytes_def skip_cell_def template_ok_def)
  show ?thesis
    using assms(2,3) unfolding budgeted_def Let_def by (auto simp: cell_ok_def e k) (simp_all add: skip_cell_def)
qed

lemma add_cell_ok: "template_ok (changes d) \<Longrightarrow> cell_ok mx (add_cell d mx python ident axis changes)"
  unfolding add_cell_def by (intro budgeted_ok rounded_ok python_allowed_ok) (simp_all add: template_ok_def)

text \<open>The fields of a default cell that the checks read.\<close>

definition default_fields :: "plan_cell \<Rightarrow> bool" where
  "default_fields d \<longleftrightarrow> 32 \<le> ce_messages d \<and> ce_messages d \<le> 1000000 \<and> ce_producers d = 1 \<and> ce_consumers d = 1
     \<and> ce_capacity d = 32 \<and> ce_payload d = 64 \<and> ce_mode d = ''ncq'' \<and> 0 \<le> ce_warmup d \<and> ce_warmup d \<le> 1000000"

lemma default_cell_fields:
  "32 \<le> count \<Longrightarrow> count \<le> 1000000 \<Longrightarrow> default_fields (default_cell count pool darwin)"
  by (simp add: default_cell_def default_fields_def)

definition spec_ok :: "plan_cell \<Rightarrow> cell_spec \<Rightarrow> bool" where
  "spec_ok d e \<longleftrightarrow> template_ok (snd (snd e) d)"

lemma specs_ok:
  assumes "default_fields d"
  shows "list_all (spec_ok d) population_specs" "list_all (spec_ok d) (mode_specs small ''spsc'')"
    "list_all (spec_ok d) (mode_specs small ''ncq'')" "list_all (spec_ok d) (fixed_specs small)"
proof -
  note d = assms [unfolded default_fields_def]
  show p: "list_all (spec_ok d) population_specs"
    using d by (simp add: population_specs_def spec_ok_def template_ok_def)
  show s: "list_all (spec_ok d) (mode_specs small ''spsc'')"
    using d by (simp add: mode_specs_def spec_ok_def template_ok_def)
  show n: "list_all (spec_ok d) (mode_specs small ''ncq'')"
    using d by (simp add: mode_specs_def spec_ok_def template_ok_def)
  show "list_all (spec_ok d) (fixed_specs small)"
    unfolding fixed_specs_def list_all_append using p s n d by (simp add: spec_ok_def template_ok_def)
qed

lemma default_template: "default_fields d \<Longrightarrow> template_ok d"
  by (simp add: default_fields_def template_ok_def)

lemma template_locality:
  "default_fields d \<Longrightarrow> template_ok (d\<lparr>ce_mode := ''spsc'', ce_arrival := 0, ce_locality := loc, ce_cpus := ids\<rparr>)"
  "default_fields d \<Longrightarrow> template_ok (d\<lparr>ce_locality := loc\<rparr>)"
  by (simp_all add: default_fields_def template_ok_def)

lemma ce_id_add: "ce_id (add_cell d mx python ident axis changes) = ident"
  by (simp add: add_cell_def budgeted_def rounded_def python_allowed_def skip_cell_def Let_def)

lemma ce_id_skip: "ce_id (skip_cell st reason c) = ce_id c"
  by (simp add: skip_cell_def)

definition fixed_names :: "string list" where
  "fixed_names = [''spsc-closed-small'', ''ncq-pop-1-1'', ''ncq-pop-2-2'', ''ncq-pop-4-4'', ''ncq-pop-8-8'', ''ncq-pop-16-1'',
     ''ncq-pop-1-16'', ''ncq-pop-16-16'', ''ncq-closed-small'', ''spsc-saturation-small'', ''ncq-fixed-rate'', ''ncq-bursts'']
   @ map (\<lambda>x. ''spsc'' @ x) [''-retained'', ''-crc64'', ''-helper-c-1m'', ''-python-1m'', ''-python-bytecode'', ''-python-retained-gc'', ''-llc-candidate'']
   @ map (\<lambda>x. ''ncq'' @ x) [''-retained'', ''-crc64'', ''-helper-c-1m'', ''-python-1m'', ''-python-bytecode'', ''-python-retained-gc'', ''-llc-candidate'']
   @ [''ncq-l2-candidate'', ''ncq-yield-requests'', ''python-asymmetric-1-16'', ''python-asymmetric-16-1'']"

lemma fixed_ids: "map fst (fixed_specs small) = fixed_names"
  by (simp add: fixed_specs_def fixed_names_def population_specs_def mode_specs_def show_int_def show_nat.simps digit_char_def)

definition other_names :: "string list" where
  "other_names = [''reported-same-l2'', ''reported-cross-numa'', ''intra_perf'', ''perf_to_efficiency'', ''all-tokens-retained'',
     ''host-memory-pressure'', ''owned-corruption'']"

lemma names_distinct: "distinct (fixed_names @ other_names)"
  by (simp add: fixed_names_def other_names_def)

lemma all_cells_ids:
  "distinct (map ce_id (all_cells (add_cell d mx python) small pair k firsts))"
proof -
  have "map ce_id (all_cells (add_cell d mx python) small pair k firsts) = map fst (fixed_specs small) @ other_names"
    by (simp add: all_cells_def topology_cells_def unsupported_specs_def other_names_def Let_def ce_id_add ce_id_skip case_prod_unfold comp_def)
  then show ?thesis using names_distinct by (simp add: fixed_ids)
qed

lemma all_cells_ok:
  assumes "default_fields d" "c \<in> set (all_cells (add_cell d mx python) small pair k firsts)"
  shows "cell_ok mx c"
proof -
  have f: "cell_ok mx (add_cell d mx python ident axis changes)" if "(ident, axis, changes) \<in> set (fixed_specs small)" for ident axis changes
    using specs_ok(4) [OF assms(1), of small] that by (auto simp: list_all_iff spec_ok_def intro!: add_cell_ok)
  have t: "cell_ok mx (add_cell d mx python ident axis (\<lambda>d. d\<lparr>ce_mode := ''spsc'', ce_arrival := 0, ce_locality := loc, ce_cpus := ids\<rparr>))"
    "cell_ok mx (add_cell d mx python ident axis (\<lambda>d. d\<lparr>ce_locality := loc\<rparr>))"
    "cell_ok mx (add_cell d mx python ident axis (\<lambda>d. d))" for ident axis loc ids
    by (intro add_cell_ok template_locality default_template assms(1))+
  have s: "''SKIP_UNSUPPORTED'' \<noteq> ''RUN''" by simp
  show ?thesis
    using assms(2) f t unfolding all_cells_def topology_cells_def Let_def
    by (auto simp: unsupported_specs_def intro!: skip_cell_ok [OF s])
qed

text \<open>C38: Whatever the machine, every cell the planner predeclares satisfies the workload geometry that the
  record verifier requires (ranges, power-of-two capacity, room for all roles, divisible quotas,
  single roles for SPSC), a cell to be run fits the resource budget, and no two cells share an
  identity.\<close>

theorem planned_cells_fit:
  assumes "plan_cells t count small max_bytes python = Inr cells" "32 \<le> count" "count \<le> 1000000"
  shows "distinct (map ce_id cells) \<and> (\<forall>c\<in>set cells. cell_ok max_bytes c)"
proof -
  from assms(1) obtain pool darwin pair k firsts where cells: "cells
    = all_cells (add_cell (default_cell count pool darwin) max_bytes python) small pair k firsts"
    unfolding plan_cells_def Let_def ebind_ok sum.inject by blast
  define d where "d = default_cell count pool darwin"
  have d: "default_fields d" using default_cell_fields [OF assms(2,3)] by (simp add: d_def)
  show ?thesis unfolding cells d_def [symmetric] using all_cells_ok [OF d] all_cells_ids by simp
qed

text \<open>A Linux machine with one CPU and no caches, nodes or control groups.\<close>

definition unavailable :: jvalue where
  "unavailable = VDict [(''status'', VStr ''UNAVAILABLE''), (''error'', VInt 0), (''value'', VNone)]"

definition one_cpu :: jvalue where
  "one_cpu = VDict [(''status'', VStr ''OBSERVED''), (''error'', VInt 0), (''cpus'', VList [VInt 0])]"

definition demo_cpu :: jvalue where
  "demo_cpu = VDict ([(''cpu_id'', VInt 0), (''smt_siblings'', one_cpu), (''caches'', VList []), (''numa_node'', VInt (-1))]
     @ map (\<lambda>k. (k, unavailable)) [''package_id'', ''die_id'', ''core_id'', ''cluster_id''])"

definition demo_topology :: jvalue where
  "demo_topology = VDict ([(''schema'', VStr ''elite-hardware-topology-v1''), (''source_kind'', VStr ''LIVE_OS_VISIBLE''),
     (''allowed_cpus'', one_cpu), (''online_cpus'', one_cpu)]
     @ map (\<lambda>k. (k, unavailable)) [''page_bytes'', ''physical_memory_bytes'', ''physical_cpus'', ''logical_cpus'',
         ''memory_frequency_hz'', ''memory_channels'', ''system_l3_bytes'', ''cache_line_bytes'']
     @ [(''cpus'', VList [demo_cpu]), (''platform'', VStr ''Linux''), (''partial'', VBool False), (''nodes'', VList []),
        (''cgroups'', VList []), (''perflevels'', VList [])])"

lemma demo_parts:
  "topology False demo_topology = Inr [(0, demo_cpu)]" "quota_pool demo_topology [0] = Inr [0]"
  "l2_pair [(0, demo_cpu)] [0] = Inr None" "node_cpus [(0, demo_cpu)] = Inr []" "item demo_topology ''platform'' = Inr (VStr ''Linux'')"
  by code_simp+

lemma demo_planned: "\<exists>cells. plan_cells demo_topology 100 True (2 ^ 29) True = Inr cells"
  by (simp add: plan_cells_def demo_parts keys_def)

theorem planned_cells_fit_witness:
  "\<exists>cells. plan_cells demo_topology 100 True (2 ^ 29) True = Inr cells \<and> distinct (map ce_id cells)"
proof -
  obtain cells where c: "plan_cells demo_topology 100 True (2 ^ 29) True = Inr cells" using demo_planned by blast
  show ?thesis using planned_cells_fit [OF c] c by simp
qed

section \<open>Latency summaries\<close>

lemma ceil_scaled:
  assumes "num = x * k" "y * k = 100000" "0 < (k :: int)" "0 < y"
  shows "(n * num + 99999) div 100000 = (n * x + y - 1) div y"
proof -
  have "n * num + 99999 = (n * x + y - 1) * k + (k - 1)"
    using assms(1,2) by (simp add: algebra_simps)
  moreover have "((n * x + y - 1) * k + (k - 1)) div k = n * x + y - 1" using assms(3) by simp
  ultimately have "(n * num + 99999) div k = n * x + y - 1" by (simp only:)
  moreover have "(n * num + 99999) div (k * y) = (n * num + 99999) div k div y"
    using assms(3,4) by (simp add: zdiv_zmult2_eq)
  ultimately show ?thesis using assms(2) by (simp add: mult.commute)
qed

lemma ranks_agree:
  "map (\<lambda>(k, num). (k, (n * num + 99999) div 100000)) RANKS = map (\<lambda>(k, x, y). (k, (n * x + y - 1) div y)) WORKER_RANKS"
proof -
  have r: "(n * 50000 + 99999) div 100000 = (n * 1 + 2 - 1) div 2" "(n * 90000 + 99999) div 100000 = (n * 9 + 10 - 1) div 10"
    "(n * 99000 + 99999) div 100000 = (n * 99 + 100 - 1) div 100" "(n * 99900 + 99999) div 100000 = (n * 999 + 1000 - 1) div 1000"
    "(n * 99990 + 99999) div 100000 = (n * 9999 + 10000 - 1) div 10000" "(n * 100000 + 99999) div 100000 = (n * 1 + 1 - 1) div 1"
    by (rule ceil_scaled [where k = 50000] ceil_scaled [where k = 10000] ceil_scaled [where k = 1000]
        ceil_scaled [where k = 100] ceil_scaled [where k = 10] ceil_scaled [where k = 100000]; simp)+
  show ?thesis unfolding RANKS_def WORKER_RANKS_def list.map prod.case r ..
qed

lemma neg_div:
  assumes "0 < (b :: int)"
  shows "- (- m div b) = (m + b - 1) div b"
proof -
  define q where "q = - m div b"
  define r where "r = - m mod b"
  have "- m = q * b + r" "0 \<le> r" "r < b" using assms by (simp_all add: q_def r_def)
  then have "m + b - 1 = (- q) * b + (b - 1 - r)" "0 \<le> b - 1 - r" "b - 1 - r < b" by auto
  then have "(m + b - 1) div b = - q" by (metis div_mult_self3 div_pos_pos_trivial add.commute add.right_neutral assms less_irrefl)
  then show ?thesis by (simp add: q_def)
qed

lemma ceiling_ratio:
  assumes "0 < (b :: int)"
  shows "\<lceil>of_int v * (of_int a / of_int b :: rat)\<rceil> = (v * a + b - 1) div b"
proof -
  have "\<lceil>of_int v * (of_int a / of_int b :: rat)\<rceil> = \<lceil>of_int (v * a) / (of_int b :: rat)\<rceil>" by simp
  also have "\<dots> = - (- (v * a) div b)" by (rule ceiling_divide_eq_div)
  also have "\<dots> = (v * a + b - 1) div b" using assms by (rule neg_div)
  finally show ?thesis .
qed

lemma first_nonzero:
  fixes s :: "int list"
  assumes "sorted s"
  shows "(case filter (\<lambda>x. x \<noteq> 0) s of [] \<Rightarrow> 0 | x # xs \<Rightarrow> x)
    = (if filter (\<lambda>v. v \<noteq> 0) s = [] then 0 else Min (set (filter (\<lambda>v. v \<noteq> 0) s)))"
proof (cases "filter (\<lambda>x. x \<noteq> 0) s")
  case (Cons x xs)
  have "sorted (x # xs)" using sorted_filter [of "\<lambda>x. x" s "\<lambda>x. x \<noteq> 0"] assms Cons by simp
  then have "Min (set (x # xs)) = x" by (intro Min_eqI) auto
  then show ?thesis by (simp add: Cons)
qed simp

text \<open>The latency summary that a Python worker publishes and the one that the verifier recomputes
  independently are the same document: same ranks, same nearest-rank ticks, same rounded-up
  nanoseconds, for any measured population and any positive time base.\<close>

theorem quantiles_agree:
  assumes "values \<noteq> []" "0 < b"
  shows "worker_quantiles values (a, b) = quantiles values (of_int a / of_int b)"
proof -
  define s where "s = sort values"
  define w where "w = map (\<lambda>(k, x, y). (k, s ! nat ((int (length s) * x + y - 1) div y - 1))) WORKER_RANKS"
  have "map (\<lambda>(k, num). (k, rank_value s num)) RANKS
    = map (\<lambda>(k, r). (k, s ! nat (r - 1))) (map (\<lambda>(k, num). (k, (int (length s) * num + 99999) div 100000)) RANKS)"
    by (simp add: rank_value_def case_prod_unfold)
  then have q: "map (\<lambda>(k, num). (k, rank_value s num)) RANKS = w"
    unfolding ranks_agree w_def by (simp add: case_prod_unfold)
  have c: "\<lceil>of_int v * (of_int a / of_int b :: rat)\<rceil> = (v * a + b - 1) div b" for v
    using assms(2) by (rule ceiling_ratio)
  have s: "sorted s" by (simp add: s_def)
  show ?thesis
    using assms(1) unfolding worker_quantiles_def quantiles_def Let_def prod.case s_def [symmetric] first_nonzero [OF s] q c w_def [symmetric]
    by simp
qed

theorem quantiles_agree_witness:
  "worker_quantiles [5, 0, 3] (125, 3) = quantiles [5, 0, 3] (of_int 125 / of_int 3)"
  by (rule quantiles_agree) simp_all

end
