(* ===== verification/Worker_Claims.thy ===== *)
theory Worker_Claims
  imports Matrix_Plan Matrix_Claims Plan_Claims
begin

text \<open>
  The worker of a matrix run against the verifier: scheduled offers and retentions satisfy the checks, and
  the record that is rebuilt from accepted traces holds the summaries the verifier recomputes.
\<close>

unbundle bit_operations_syntax

section \<open>Schedules\<close>

lemma ceiling_quotient: "0 < b \<Longrightarrow> \<lceil>of_int x / (of_int b :: rat)\<rceil> = (x + b - 1) div b"
  using ceiling_ratio [of b 1 x] by simp

lemma offer_tick_scheduled: "0 < wl_num h \<Longrightarrow> offer_tick h i j = scheduled h i j"
  by (simp only: offer_tick_def scheduled_def Let_def ceiling_quotient)

text \<open>A message retained for \<open>hold_ticks\<close> passes the retention check.\<close>

lemma hold_ticks_enough:
  assumes "0 < wl_num h" "0 < wl_den h" "hold_ticks h \<le> ret - rd"
  shows "of_int (wl_hold h) \<le> of_int (ret - rd) * wl_scale h"
proof -
  have "\<lceil>of_int (wl_hold h * wl_den h) / (of_int (wl_num h) :: rat)\<rceil> \<le> ret - rd"
    unfolding ceiling_quotient [OF assms(1)] using assms(3) by (simp add: hold_ticks_def)
  then have "of_int (wl_hold h * wl_den h) / (of_int (wl_num h) :: rat) \<le> of_int (ret - rd)"
    by (simp only: ceiling_le_iff)
  then show ?thesis using assms(1,2) by (simp add: wl_scale_def field_simps)
qed

section \<open>Traces\<close>

text \<open>Reading in blocks of \<open>m\<close> records gives the records of the whole file.\<close>

lemma chunked_take_drop: "0 < n \<Longrightarrow> chunked n (take (n * m) xs) @ chunked n (drop (n * m) xs) = chunked n xs"
proof (induction m arbitrary: xs)
  case (Suc m)
  show ?case
  proof (cases "xs = []")
    case False
    have "chunked n (take (n * Suc m) xs) = take n xs # chunked n (take (n * m) (drop n xs))"
      using False Suc.prems by (subst chunked.simps) (simp add: drop_take min_def)
    moreover have "chunked n xs = take n xs # chunked n (drop n xs)"
      using False Suc.prems by (subst chunked.simps) simp
    ultimately show ?thesis using Suc.IH [OF Suc.prems, of "drop n xs"] by (simp add: add.commute)
  qed (simp add: chunked.simps)
qed (simp add: chunked.simps)

lemma chunked_blockwise:
  assumes "0 < n" "0 < m"
  shows "concat (map (chunked n) (chunked (n * m) xs)) = chunked n xs"
proof (induction "length xs" arbitrary: xs rule: less_induct)
  case less
  show ?case
  proof (cases "xs = []")
    case False
    then have "concat (map (chunked n) (chunked (n * m) (drop (n * m) xs))) = chunked n (drop (n * m) xs)"
      using assms by (intro less) simp
    then show ?thesis using False assms chunked_take_drop [OF assms(1), of m xs]
      by (subst chunked.simps) simp
  qed (simp add: chunked.simps)
qed

lemma length_chunked: "0 < n \<Longrightarrow> length (chunked n xs) = (length xs + n - 1) div n"
proof (induction "length xs" arbitrary: xs rule: less_induct)
  case less
  show ?case
  proof (cases "xs = []")
    case False
    then have "length (chunked n xs) = Suc ((length (drop n xs) + n - 1) div n)"
      using less by (subst chunked.simps) simp
    also have "\<dots> = (length xs + n - 1) div n"
    proof (cases "n \<le> length xs")
      case True
      then have "length xs + n - 1 = (length (drop n xs) + n - 1) + n" using less.prems by simp
      then show ?thesis using less.prems by (simp only: div_add_self2)
    next
      case small: False
      moreover have "0 < length xs" using False by simp
      ultimately have "(length xs + n - 1) div n = 1" using less.prems
        by (intro div_nat_eqI) arith+
      then show ?thesis using small less.prems by simp
    qed
    finally show ?thesis .
  qed (simp add: chunked.simps less)
qed

lemma triples_length:
  assumes "triples f count = Inr ts"
  shows "int (length ts) = count"
proof -
  have n: "int (length (tb_bytes f)) = count * 24"
    and ts: "ts = concat (map (\<lambda>c. map triple_of (chunked 24 c)) (chunked (24 * 4096) (tb_bytes f)))"
    using assms unfolding triples_def need_ok by auto
  have "ts = map triple_of (concat (map (chunked 24) (chunked (24 * 4096) (tb_bytes f))))"
    unfolding ts map_concat by (simp add: comp_def)
  then have "length ts = length (chunked 24 (tb_bytes f))"
    by (subst (asm) chunked_blockwise) simp_all
  also have "\<dots> = (length (tb_bytes f) + 24 - 1) div 24" by (rule length_chunked) simp
  finally show ?thesis using n by linarith
qed

section \<open>The rebuilt record\<close>

text \<open>A loop that succeeds is followed by another one step by step.\<close>

lemma efold_follow:
  assumes "efold f s xs = Inr t" "R s a"
    "\<And>x s t a. x \<in> set xs \<Longrightarrow> f s x = Inr t \<Longrightarrow> R s a \<Longrightarrow> \<exists>b. g a (k x) = Inr b \<and> R t b"
  shows "\<exists>b. efold g a (map k xs) = Inr b \<and> R t b"
  using assms
proof (induction xs arbitrary: s a)
  case (Cons x xs)
  from Cons.prems(1) obtain s' where s': "f s x = Inr s'" "efold f s' xs = Inr t" by (auto simp: ebind_ok)
  obtain a' where a': "g a (k x) = Inr a'" "R s' a'" using Cons.prems(3) [OF _ s'(1) Cons.prems(2)] by auto
  have "\<exists>b. efold g a' (map k xs) = Inr b \<and> R t b"
    using Cons.prems(3) by (intro Cons.IH [OF s'(2) a'(2)]) simp
  then show ?case using a'(1) by simp
qed simp

lemma combine_ok: "merge_bitmap us vs = Inr ts \<Longrightarrow> length us = length vs \<Longrightarrow> combine us vs = Inr ts"
proof (induction us arbitrary: vs ts)
  case (Cons u us)
  then obtain v ws where "vs = v # ws" by (cases vs) auto
  then show ?case using Cons by (auto simp: merge_bitmap_def ebind_ok need_ok and.commute)
qed (simp add: merge_bitmap_def)

text \<open>The verifier's arrays of producers and consumers in the rebuilt record.\<close>

definition blank :: "workload \<Rightarrow> rebuilt \<Rightarrow> bool" where
  "blank h r \<longleftrightarrow> rb_combined r = replicate (nat (bitmap_bytes h)) 0 \<and> rb_native r = replicate (nat (wl_n h)) 0
     \<and> rb_service r = replicate (nat (wl_n h)) 0 \<and> rb_returned r = replicate (nat (wl_n h)) 0"

definition offered_as :: "offers \<Rightarrow> rebuilt \<Rightarrow> bool" where
  "offered_as o' r \<longleftrightarrow> rb_offer r = of_offer o' \<and> rb_entry r = of_entry o'"

definition received_as :: "workload \<Rightarrow> receipts \<Rightarrow> rebuilt \<Rightarrow> bool" where
  "received_as h s r \<longleftrightarrow> rb_combined r = re_union s \<and> int (length (re_union s)) = bitmap_bytes h
     \<and> rb_native r = re_native s \<and> rb_service r = re_service s \<and> rb_returned r = re_returned s
     \<and> length (re_native s) = nat (wl_n h) \<and> length (re_service s) = nat (wl_n h) \<and> length (re_returned s) = nat (wl_n h)"

lemma producer_follow:
  assumes "producer_trace h f s (i, w) = Inr t" "offered_as s r \<and> blank h r" "0 \<le> i" "i < wl_p h" "0 \<le> wl_quota h"
    "wl_p h * wl_quota h \<le> wl_n h"
  shows "\<exists>r'. rebuild_producer h f r i = Inr r' \<and> offered_as t r' \<and> blank h r'"
proof -
  obtain ts where ts: "triples (mf_producer f (nat i)) (wl_quota h) = Inr ts"
    and run: "efold (producer_triple h i (wi_end w)) (s\<lparr>of_previous := 0\<rparr>) (zip [0..int (length ts) - 1] ts) = Inr t"
    using assms(1) by (auto simp: producer_trace_def ebind_ok)
  have bound: "i * wl_quota h + j < wl_n h" if "j < wl_quota h" for j
  proof -
    have "(i + 1) * wl_quota h \<le> wl_p h * wl_quota h" using assms(4,5) by (intro mult_right_mono) auto
    with that assms(6) show ?thesis by (simp add: algebra_simps)
  qed
  have "\<exists>r'. efold (rebuild_offer h) r (map snd (zip [0..int (length ts) - 1] ts)) = Inr r' \<and> offered_as t r' \<and> blank h r'"
  proof (rule efold_follow [OF run, where R = "\<lambda>s r. offered_as s r \<and> blank h r"])
    show "offered_as (s\<lparr>of_previous := 0\<rparr>) r \<and> blank h r" using assms(2) by (simp add: offered_as_def)
    fix x s t r assume x: "x \<in> set (zip [0..int (length ts) - 1] ts)" "producer_triple h i (wi_end w) s x = Inr t"
      "offered_as s r \<and> blank h r"
    obtain j ident a b where j: "x = (j, ident, a, b)" by (cases x) auto
    have "j < wl_quota h" using x(1) triples_length [OF ts] by (auto simp: j dest: set_zip_leftD)
    from bound [OF this] show "\<exists>r'. rebuild_offer h r (snd x) = Inr r' \<and> offered_as t r' \<and> blank h r'"
      using x(2,3) by (auto simp: j producer_triple_def need_ok rebuild_offer_def offered_as_def blank_def)
  qed
  moreover have "map snd (zip [0..int (length ts) - 1] ts) = ts" by simp
  ultimately show ?thesis using ts by (simp add: rebuild_producer_def)
qed

lemma consumer_follow:
  assumes "consumer_trace h f o' s iw = Inr t" "offered_as o' r \<and> received_as h s r"
  shows "\<exists>r'. rebuild_consumer h f r iw = Inr r' \<and> offered_as o' r' \<and> received_as h t r'"
proof -
  obtain i w where iw: "iw = (i, w)" by (cases iw)
  obtain bm us ts seen prev where bm: "mf_bitmap f (nat i) = Inr bm" "int (length bm) = bitmap_bytes h"
    and us: "merge_bitmap (re_union s) bm = Inr us" and ts: "triples (mf_consumer f (nat i)) (wi_count w) = Inr ts"
    and run: "efold (consumer_triple h o' bm (wi_end w)) (replicate (nat (bitmap_bytes h)) 0, 0, s\<lparr>re_union := us\<rparr>) ts
      = Inr (seen, prev, t)"
    using assms(1) unfolding iw consumer_trace_def prod.case ebind_ok need_ok by (auto simp: need_ok)
  have l: "length (re_union s) = length bm" using assms(2) bm(2) by (simp add: received_as_def)
  have "\<exists>r'. efold (rebuild_receipt h) (r\<lparr>rb_combined := us\<rparr>) (map (\<lambda>x. x) ts) = Inr r'
      \<and> (case (seen, prev, t) of (seen, prev, t) \<Rightarrow> offered_as o' r' \<and> received_as h t r')"
  proof (rule efold_follow [OF run, where R = "\<lambda>a r. case a of (seen, prev, s) \<Rightarrow> offered_as o' r \<and> received_as h s r"])
    show "case (replicate (nat (bitmap_bytes h)) 0, 0, s\<lparr>re_union := us\<rparr>) of (seen, prev, s) \<Rightarrow>
        offered_as o' (r\<lparr>rb_combined := us\<rparr>) \<and> received_as h s (r\<lparr>rb_combined := us\<rparr>)"
      using assms(2) merge_bitmap_members(1) [OF us l] by (simp add: offered_as_def received_as_def)
  next
    fix x a b r assume x: "consumer_triple h o' bm (wi_end w) a x = Inr b"
      "case a of (seen, prev, s) \<Rightarrow> offered_as o' r \<and> received_as h s r"
    obtain seen prev s where a: "a = (seen, prev, s)" by (cases a)
    obtain ident rd ret where t: "x = (ident, rd, ret)" by (cases x)
    from x(1) have "ident < wl_n h" and "snd (snd b) = s\<lparr>re_native := (re_native s)[nat ident := rd - of_entry o' ! nat ident],
        re_service := (re_service s)[nat ident := rd - of_offer o' ! nat ident],
        re_returned := (re_returned s)[nat ident := ret - of_entry o' ! nat ident], re_released := (re_released s)[nat ident := ret]\<rparr>"
      unfolding a t consumer_triple_def prod.case Let_def need_ok by (elim conjE, simp only:, elim conjE, auto)
    then show "\<exists>r'. rebuild_receipt h r x = Inr r' \<and> (case b of (seen, prev, s) \<Rightarrow> offered_as o' r' \<and> received_as h s r')"
      using x(2) by (cases b) (simp add: a t rebuild_receipt_def Let_def offered_as_def received_as_def)
  qed
  moreover have "combine (rb_combined r) bm = Inr us"
    using assms(2) combine_ok [OF us l] by (simp add: received_as_def)
  ultimately show ?thesis using bm ts by (simp add: iw rebuild_consumer_def)
qed

text \<open>Accepted traces are rebuilt into the verifier's arrays.\<close>

lemma rebuild_follow:
  assumes "record_traces h infos f = Inr (o', s)" "int (length infos) = wl_p h + wl_c h" "1 \<le> wl_p h" "0 \<le> wl_c h" "0 \<le> wl_n h"
  shows "\<exists>r. rebuild h infos f = Inr r \<and> offered_as o' r \<and> received_as h s r"
proof -
  let ?zeros = "replicate (nat (wl_n h)) (0 :: int)"
  let ?ps = "zip [0..wl_p h - 1] (producers_of h infos)"
  let ?blank = "\<lparr>rb_combined = replicate (nat ((wl_n h + 7) div 8)) 0, rb_offer = ?zeros, rb_entry = ?zeros, rb_native = ?zeros,
         rb_service = ?zeros, rb_returned = ?zeros\<rparr>"
  let ?start = "\<lparr>re_union = replicate (nat (bitmap_bytes h)) 0, re_native = ?zeros, re_service = ?zeros, re_returned = ?zeros,
         re_released = ?zeros\<rparr>"
  obtain p: "efold (producer_trace h f) \<lparr>of_previous = 0, of_offer = ?zeros, of_entry = ?zeros\<rparr> ?ps = Inr o'"
    and c: "efold (consumer_trace h f o') ?start (zip [0..wl_c h - 1] (consumers_of h infos)) = Inr s"
    using assms(1) unfolding record_traces_def Let_def ebind_ok need_ok by (auto simp: ebind_ok need_ok)
  have q: "0 \<le> wl_quota h" "wl_p h * wl_quota h \<le> wl_n h"
    using assms(3,5) quota_le [OF assms(3), of "wl_n h"] by (simp_all add: wl_quota_def pos_imp_zdiv_nonneg_iff mult.commute)
  have "\<exists>r. efold (rebuild_producer h f) ?blank (map fst ?ps) = Inr r \<and> (offered_as o' r \<and> blank h r)"
  proof (rule efold_follow [OF p, where R = "\<lambda>s r. offered_as s r \<and> blank h r"])
    show "offered_as \<lparr>of_previous = 0, of_offer = ?zeros, of_entry = ?zeros\<rparr> ?blank \<and> blank h ?blank"
      by (simp add: offered_as_def blank_def bitmap_bytes_def)
    fix x s t r assume x: "x \<in> set ?ps" "producer_trace h f s x = Inr t" "offered_as s r \<and> blank h r"
    obtain i w where "x = (i, w)" by (cases x)
    with x q show "\<exists>r'. rebuild_producer h f r (fst x) = Inr r' \<and> offered_as t r' \<and> blank h r'"
      by (auto dest: set_zip_leftD intro!: producer_follow)
  qed
  moreover have "map fst ?ps = [0..wl_p h - 1]" using assms(2-4) by (simp add: producers_of_def map_fst_zip_take)
  ultimately obtain r where r: "efold (rebuild_producer h f) ?blank [0..wl_p h - 1] = Inr r" "offered_as o' r" "blank h r" by auto
  have "\<exists>r'. efold (rebuild_consumer h f) r (map (\<lambda>x. x) (zip [0..wl_c h - 1] (consumers_of h infos))) = Inr r'
      \<and> (offered_as o' r' \<and> received_as h s r')"
  proof (rule efold_follow [OF c, where R = "\<lambda>s r. offered_as o' r \<and> received_as h s r"])
    show "offered_as o' r \<and> received_as h ?start r"
      using r(2,3) assms(5) by (simp add: received_as_def blank_def bitmap_bytes_def)
  qed (rule consumer_follow)
  then show ?thesis using r(1) by (auto simp: rebuild_def Let_def)
qed

text \<open>C39: When the verifier accepts the traces of a matrix record, the worker that rebuilt its arrays from
  the same traces published exactly the three latency summaries the verifier recomputes (native, offered
  and returned latency): the same message populations, nearest ranks, ticks and rounded-up nanoseconds.\<close>

theorem worker_summaries_agree:
  assumes "record_traces h infos f = Inr (o', s)"
    and "int (length infos) = wl_p h + wl_c h" "1 \<le> wl_p h" "0 \<le> wl_c h" "1 \<le> wl_n h" "0 < wl_den h"
  shows "worker_latencies h infos f = emap (\<lambda>(k, values). ebind (quantiles values (wl_scale h)) (\<lambda>q. Inr (k, q)))
    [(''native_latency'', re_native s), (''offered_latency'', re_service s), (''returned_latency'', re_returned s)]"
proof -
  let ?populations = "[(''native_latency'', re_native s), (''offered_latency'', re_service s), (''returned_latency'', re_returned s)]"
  obtain r where r: "rebuild h infos f = Inr r" "received_as h s r"
    using rebuild_follow [OF assms(1-4)] assms(5) by auto
  have "worker_quantiles v (quotient_of (wl_scale h)) = quantiles v (wl_scale h)" if v: "length v = nat (wl_n h)" for v
  proof -
    obtain a b where q: "quotient_of (wl_scale h) = (a, b)" by (cases "quotient_of (wl_scale h)")
    have "wl_scale h = of_int a / of_int b" "0 < b"
      using quotient_of_div [OF q] quotient_of_denom_pos [OF q] by simp_all
    then show ?thesis using v assms(5) q by (auto intro!: quantiles_agree)
  qed
  then have "emap (\<lambda>(k, values). ebind (worker_quantiles values (quotient_of (wl_scale h))) (\<lambda>q. Inr (k, q))) ?populations
      = emap (\<lambda>(k, values). ebind (quantiles values (wl_scale h)) (\<lambda>q. Inr (k, q))) ?populations"
    using r(2) by (intro emap_cong) (auto simp: received_as_def)
  with r assms(6) show ?thesis by (simp add: worker_latencies_def received_as_def)
qed

text \<open>The example record of two messages: its summaries, with the time base 1.\<close>

theorem worker_summaries_agree_witness:
  "worker_latencies demo_workload demo_workers demo_files
    = emap (\<lambda>(k, values). ebind (quantiles values (wl_scale demo_workload)) (\<lambda>q. Inr (k, q)))
        [(''native_latency'', [1, 1]), (''offered_latency'', [2, 2]), (''returned_latency'', [2, 2])]"
  using worker_summaries_agree [OF demo_files_accepted]
  by (simp add: demo_receipts_def demo_workload_def demo_workers_def del: emap.simps)

end
