(* ===== verification/Aux_Records.thy ===== *)
theory Aux_Records
  imports Ncq Spsc Handoff Boundaries Targeted
begin

text \<open>
  The states of both transition models as JSON (\<open>normalize(dataclasses.asdict(s))\<close>) and the records that
  the auxiliary tools \<open>formal/handoff.py\<close>, \<open>formal/boundaries.py\<close> and \<open>formal/targeted.py\<close> write, built
  from the results of \<open>Handoff\<close>, \<open>Boundaries\<close> and \<open>Targeted\<close>. A tuple becomes a JSON list.
\<close>

section \<open>States\<close>

abbreviation int_list :: "int list \<Rightarrow> jvalue" where
  "int_list xs \<equiv> VList (map VInt xs)"

abbreviation str_list :: "string list \<Rightarrow> jvalue" where
  "str_list xs \<equiv> VList (map VStr xs)"

abbreviation nat_val :: "nat \<Rightarrow> jvalue" where
  "nat_val n \<equiv> VInt (int n)"

definition actor_json :: "actor \<Rightarrow> jvalue" where
  "actor_json a = VDict [(''pc'', VInt (pc a)), (''ticket'', VInt (ticket a)), (''entry'', VInt (entry a)),
     (''block'', VInt (block a)), (''epoch'', VInt (epoch a)), (''left'', VInt (actor.left a)), (''owns'', VBool (owns a)),
     (''queue'', VInt (queue a)), (''alias'', VBool (aliased a)), (''read'', VInt (actor.read a))]"

definition ncq_json :: "ncq_state \<Rightarrow> jvalue" where
  "ncq_json s = VDict [(''heads'', int_list (heads s)), (''tails'', int_list (tails s)),
     (''frontiers'', int_list (frontiers s)), (''entries'', int_list (entries s)),
     (''epochs'', int_list (ncq_state.epochs s)), (''phases'', int_list (phases s)),
     (''status_epochs'', int_list (status_epochs s)), (''word0'', int_list (ncq_state.word0 s)),
     (''word1'', int_list (ncq_state.word1 s)), (''owners'', int_list (ncq_state.owners s)),
     (''actors'', VList (map actor_json (actors s)))]"

definition spsc_json :: "spsc_state \<Rightarrow> jvalue" where
  "spsc_json s = VDict [(''published'', VInt (published s)), (''reclaimed'', VInt (reclaimed s)),
     (''producer_pc'', VInt (producer_pc s)), (''consumer_pc'', VInt (consumer_pc s)),
     (''cached_c'', VInt (cached_c s)), (''cached_p'', VInt (cached_p s)), (''left'', VInt (spsc_state.left s)),
     (''epochs'', int_list (spsc_state.epochs s)), (''word0'', int_list (spsc_state.word0 s)),
     (''word1'', int_list (spsc_state.word1 s)), (''committed'', int_list (committed s)),
     (''owners'', int_list (spsc_state.owners s)), (''read0'', VInt (read0 s)), (''producer_done'', VBool (producer_done s))]"

section \<open>Handoff records\<close>

definition event_json :: "hevent \<Rightarrow> jvalue" where
  "event_json e = VDict [(''name'', VStr (ev_name e)), (''thread'', VInt (thread e)), (''loc'', VStr (loc e)),
     (''kind'', VStr (kind e)), (''order'', VStr (mem_order e)), (''value'', VInt (ev_value e)),
     (''message'', VInt (message e))]"

definition analysis_json :: "handoff_report option \<Rightarrow> jvalue" where
  "analysis_json result = (case result of None \<Rightarrow> VNone | Some rep \<Rightarrow>
     VDict [(''races'', VList (map (\<lambda>(a, b). str_list [a, b]) (races rep))), (''wrong_values'', str_list (wrong_values rep)),
       (''reads_from'', VDict (fold (\<lambda>(r, w). AList.update r (VStr w)) (reads_from rep) [])),
       (''synchronizes_with'', VList (map (\<lambda>(a, b). str_list [a, b]) (synchronizes_with rep)))])"

definition spsc_record :: "nat \<times> nat \<times> string \<times> string \<Rightarrow> jvalue result" where
  "spsc_record p = (case p of (n, m, publication, reclamation) \<Rightarrow> (
    ebind (handoff_spsc n m publication reclamation) (\<lambda>f.
    Inr (VDict [(''name'', VStr ''spsc_ra_fragment''), (''capacity'', nat_val n), (''messages'', nat_val m),
       (''publication'', VStr publication), (''reclamation'', VStr reclamation),
       (''candidates'', nat_val (candidates f)), (''consistent'', nat_val (consistent f)),
       (''violating'', nat_val (violating f)), (''status'', VStr (handoff_status f)),
       (''events'', VList (map event_json (fst (spsc_skeleton n m publication reclamation)))),
       (''witness'', analysis_json (fragment.witness f))]))))"

definition ncq_record :: "string \<times> string \<Rightarrow> jvalue result" where
  "ncq_record p = (case p of (entry_store, entry_load) \<Rightarrow> (
    ebind (handoff_ncq entry_store entry_load) (\<lambda>(st, w).
    Inr (VDict [(''name'', VStr ''ncq_first_ready_handoff_fragment''), (''entry_store'', VStr entry_store),
       (''entry_load'', VStr entry_load), (''candidates'', VInt 1), (''consistent'', VInt 1), (''status'', VStr st),
       (''events'', VList (map event_json (ncq_events entry_store entry_load))), (''witness'', analysis_json w),
       (''conclusion'', VStr ''later status acquire cannot retroactively order the earlier ordinary epoch read'')]))))"

definition cas_json :: "cas_step \<Rightarrow> jvalue" where
  "cas_json r = VDict [(''actor'', nat_val (actor_id r)), (''expected'', VInt 0), (''observed'', VInt (observed r)),
     (''success'', VBool (success r))]"

definition ticket_record :: "jvalue result" where
  "ticket_record = (
    ebind ticket_atomicity (\<lambda>hs.
    Inr (VDict [(''name'', VStr ''strong_CAS_single_location_modification_order''), (''status'', VStr ''PASS_WITHIN_SCOPE''),
       (''orders'', str_list [''seq_cst'', ''relaxed'']),
       (''histories'', VList (map (\<lambda>(ord, rs, head). VDict [(''order'', VStr ord), (''history'', VList (map cas_json rs)),
          (''final_head'', VInt head)]) hs)),
       (''conclusion'', VStr ''relaxed CAS is still indivisible; two stale expected=0 claims cannot both succeed without wrap/reset'')])))"

definition handoff_record :: "jvalue result" where
  "handoff_record = (
    ebind (emap spsc_record [(2, 4, ''release'', ''release''), (2, 4, ''relaxed'', ''release''), (2, 4, ''release'', ''relaxed''),
       (2, 5, ''release'', ''release'')]) (\<lambda>a.
    ebind (emap ncq_record [(''seq_cst'', ''seq_cst''), (''relaxed'', ''seq_cst''), (''seq_cst'', ''relaxed'')]) (\<lambda>b.
    ebind ticket_record (\<lambda>t.
    Inr (VDict [(''schema'', VStr ''elite-handoff-fragment-v1''), (''status'', VStr ''PASS''),
       (''scope'', VStr ''finite handoff skeletons, not full ISO-C11/RC11 model checking''), (''results'', VList (a @ b @ [t]))])))))"

section \<open>Boundary records\<close>

definition bounds_record :: "jvalue result" where
  "bounds_record = (
    ebind bounds (\<lambda>checks.
    Inr (VDict [(''status'', VStr ''PASS_WITHIN_SCOPE''), (''scalar_checks'', VInt checks),
       (''domains'', VStr ''ticket widths 3..10; all admitted t and block encodings; native U64 boundary fixtures''),
       (''theorem'', VStr ''guard t < J implies t+1 <= J < 2**w; no repeated cursor value before retirement''),
       (''status_domain'', VStr ''6 total bits -> epoch ceiling 14; native epoch ceiling 2**62-2'')])))"

definition wrap_json :: "wrap_step \<Rightarrow> jvalue" where
  "wrap_json s = VDict [(''logical_claim'', VInt (logical_claim s)), (''expected'', VInt (expected_head s)),
     (''desired'', VInt (desired_head s))]"

definition wrapping_record :: jvalue where
  "wrapping_record = (case wrapping of (claims, steps) \<Rightarrow>
     VDict [(''status'', VStr ''FAIL_WITNESS''), (''mutation'', VStr ''allow represented head wrap; suppress session retirement''),
       (''abstraction'', VStr ''single head-CAS identity domain; not a full 260-lifecycle queue exploration''),
       (''width'', VInt 8), (''capacity'', VInt 4), (''ceiling'', VInt 251), (''saved_expected'', VInt 4),
       (''competing_advances'', VInt 260),
       (''at_256'', VDict [(''current_representation'', VInt 4), (''logical_ticket'', VInt (4 + 256)),
          (''stale_CAS_comparison_would_match'', VBool True)]),
       (''baseline'', VDict [(''status'', VStr ''RETIRE_BEFORE_REPEAT''), (''allowed_advances'', VInt claims), (''stops_at'', VInt 251)]),
       (''steps'', VList (map wrap_json steps))])"

definition starvation :: jvalue where
  "starvation = VDict [(''status'', VStr ''COUNTEREXAMPLE_TO_INDIVIDUAL_WAIT_FREEDOM''),
     (''model'', VStr ''unbounded-ticket symbolic schedule; finite-width production eventually retires''),
     (''loop'', VList (map (\<lambda>(a, what). VDict [(''actor'', VStr a), (''action'', VStr what)])
        [(''victim'', ''load fresh expected h''), (''peer'', ''claim h -> h+1; complete''),
         (''victim'', ''CAS(h,h+1) fails; discard old observations'')])),
     (''scheduler'', VStr ''both actors take infinitely many steps in symbolic model''),
     (''global_progress'', VBool True), (''individual_success'', VBool False),
     (''conclusion'', VStr ''no per-caller retry bound; finite generation ceiling is not a successful-return deadline'')]"

fun action_text :: "gate_action \<Rightarrow> string" where
  "action_text A_read = ''A_read''" | "action_text A_CAS = ''A_CAS''"
| "action_text R_read = ''R_read''" | "action_text R_CAS = ''R_CAS''"

definition gate_json :: "gate_event \<Rightarrow> jvalue" where
  "gate_json e = VDict [(''action'', VStr (action_text (gate_action e))),
     (''success'', case gate_success e of None \<Rightarrow> VNone | Some b \<Rightarrow> VBool b),
     (''gate'', VList [VStr (fst (gate_state e)), VInt (snd (gate_state e))])]"

definition gate_record :: "jvalue result" where
  "gate_record = (
    ebind gate (\<lambda>hs.
    Inr (VDict [(''status'', VStr ''PASS_WITHIN_SCOPE''), (''schedules'', nat_val (length hs)),
       (''traces'', VList (map (\<lambda>h. VList (map gate_json h)) hs)),
       (''scope'', VStr ''one enrollment CAS vs one retirement CAS, not the entire lifecycle authority'')])))"

definition boundaries_record :: "jvalue result" where
  "boundaries_record = (
    ebind bounds_record (\<lambda>b.
    ebind gate_record (\<lambda>g.
    Inr (VDict [(''schema'', VStr ''elite-formal-boundaries-v1''), (''bounds'', b), (''wrap_mutant'', wrapping_record),
       (''starvation'', starvation), (''admission_gate'', g)]))))"

section \<open>Schedule records\<close>

definition trace_json :: "(string \<times> ncq_state) list \<Rightarrow> jvalue" where
  "trace_json trace = VList (map (\<lambda>(label, s). VDict [(''event'', VStr label), (''state'', ncq_json s)]) trace)"

definition scenario_record :: "bool \<Rightarrow> jvalue result" where
  "scenario_record after_publication = (
    ebind (scenario after_publication) (\<lambda>r.
    Inr (VDict [(''status'', VStr ''PASS_WITHIN_SCOPE''),
       (''scenario'', VStr (if after_publication then ''post-publication pause'' else ''private-write pause'')),
       (''paused_actor'', VInt 0), (''pause_step'', nat_val (pause_step r)), (''healthy_end_step'', nat_val (healthy_end_step r)),
       (''healthy_messages'', nat_val (healthy_messages r)), (''stopped_state'', ncq_json (stopped_state r)),
       (''trace'', trace_json (sched_trace r)),
       (''scope'', VStr ''targeted schedule, not exhaustive exploration with an explicit death transition'')])))"

definition stale_record :: "jvalue result" where
  "stale_record = (
    ebind stale_consumer (\<lambda>r.
    Inr (VDict [(''status'', VStr ''PASS_WITHIN_SCOPE''), (''scenario'', VStr ''stale consumer across physical laps''),
       (''saved_ticket'', VInt (saved_ticket r)), (''successful_peer_removals'', VInt (successful_peer_removals r)),
       (''final_head'', VInt (final_head r)), (''stale_CAS_failed'', VBool True), (''ownership_unchanged'', VBool True),
       (''trace'', trace_json (stale_trace r)),
       (''scope'', VStr ''targeted schedule through actual finite transition model, no wrap'')])))"

definition targeted_record :: "jvalue result" where
  "targeted_record = (
    ebind (scenario_record False) (\<lambda>a.
    ebind (scenario_record True) (\<lambda>b.
    ebind stale_record (\<lambda>c.
    Inr (VDict [(''schema'', VStr ''elite-formal-targeted-v1''), (''results'', VList [a, b, c])])))))"

section \<open>The expected auxiliary record\<close>

definition expected_aux :: "string \<Rightarrow> jvalue result" where
  "expected_aux name =
     (if name = ''handoff'' then handoff_record
      else if name = ''boundaries'' then boundaries_record
      else if name = ''targeted'' then targeted_record
      else Inl (ValueError ''unknown auxiliary case''))"

end
