(* ===== verification/Formal_Results.thy ===== *)
theory Formal_Results
  imports Ncq_Safety Spsc Explore Paths Aux_Records
begin

text \<open>
  \<open>tools/verify_formal_results.py\<close> and the declared configurations of \<open>tools/run_formal.py\<close>: documents
  without overflowing numbers, the replay of a counterexample through the model that is named in a
  result, and the verification of a campaign directory, auxiliary records included. Files, digests,
  the clock and the digest of a state sequence are parameters; a count that is a float is refused.
\<close>

section \<open>Documents\<close>

fun all_finite :: "jvalue \<Rightarrow> bool" where
  "all_finite (VFloat x) = (case x of Fin q \<Rightarrow> True | _ \<Rightarrow> False)"
| "all_finite (VDict d) = (\<forall>e\<in>set d. all_finite (snd e))"
| "all_finite (VList xs) = (\<forall>x\<in>set xs. all_finite x)"
| "all_finite _ = True"

definition load_finite :: "jtext result \<Rightarrow> jvalue result" where
  "load_finite text = (
    ebind text (\<lambda>j.
    ebind (loads j) (\<lambda>v.
    need (all_finite v) ''nonfinite numeric overflow'' (Inr v))))"

section \<open>Models\<close>

datatype explored = NcqModel ncq_model | SpscModel spsc_model

definition model_name :: "explored \<Rightarrow> string" where
  "model_name m = (case m of NcqModel M \<Rightarrow> ''ncq-sc64'' | SpscModel M \<Rightarrow> ''spsc-control-ownership'')"

definition model_config :: "explored \<Rightarrow> jvalue" where
  "model_config m = (case m of
     NcqModel M \<Rightarrow> VDict [(''capacity'', VInt (m_n M)), (''producers'', VInt (m_p M)), (''consumers'', VInt (m_c M)),
       (''reservations_per_producer'', VInt (m_m M)), (''mutation'', VStr (m_mutation M)), (''allow_abort'', VBool (m_abort M)),
       (''atomic_model'', VStr ''SC''), (''initialization'', VStr ''QF full; QR empty; construction precedes exposure'')]
   | SpscModel M \<Rightarrow> VDict [(''capacity'', VInt (sm_n M)), (''reservations'', VInt (sm_m M)),
       (''mutation'', VStr (sm_mutation M)), (''allow_abort'', VBool (sm_abort M)),
       (''snapshots'', VStr ''every nondecreasing stale/current cursor within actual frontier''),
       (''memory_scope'', VStr ''control-state overapproximation, not a C11 weak-memory simulation'')])"

definition make_model :: "bool \<Rightarrow> int \<Rightarrow> int \<Rightarrow> int \<Rightarrow> int \<Rightarrow> string \<Rightarrow> bool \<Rightarrow> explored result" where
  "make_model single capacity producers consumers operations mutation allow_abort =
     (if single then ebind (spsc_model_init capacity producers consumers operations mutation allow_abort) (\<lambda>M. Inr (SpscModel M))
      else ebind (ncq_model_init capacity producers consumers operations mutation allow_abort) (\<lambda>M. Inr (NcqModel M)))"

fun mutation_text :: "jvalue \<Rightarrow> string result" where
  "mutation_text (VStr s) = Inr s"
| "mutation_text v = ebind (hashable v) (\<lambda>_. Inl (ValueError ''invalid mutation''))"

definition model_for :: "jvalue \<Rightarrow> explored result" where
  "model_for res = (
    ebind (item res ''config'') (\<lambda>c.
    ebind (item res ''model'') (\<lambda>nm.
    ebind ((case nm of VStr s \<Rightarrow> Inr s | _ \<Rightarrow> Inl AttributeError)) (\<lambda>name.
    ebind (ebind (item c ''capacity'') index) (\<lambda>capacity.
    ebind (ebind (dget c ''producers'' (VInt 1)) index) (\<lambda>producers.
    ebind (ebind (dget c ''consumers'' (VInt 1)) index) (\<lambda>consumers.
    ebind (dget c ''reservations_per_producer'' (VInt 1)) (\<lambda>per_producer.
    ebind (ebind (dget c ''reservations'' per_producer) index) (\<lambda>operations.
    ebind (ebind (item c ''mutation'') mutation_text) (\<lambda>mutation.
    ebind (item c ''allow_abort'') (\<lambda>allow_abort.
    make_model (prefix_of ''spsc'' name) capacity producers consumers operations mutation (truthy allow_abort))))))))))))"

section \<open>Replay of a counterexample\<close>

fun violation_name :: "violation \<Rightarrow> string" where
  "violation_name (QUEUE_FRONTIER_ORDER q h t u) = ''QUEUE_FRONTIER_ORDER''"
| "violation_name (PUBLICATION_HOLE q t e) = ''PUBLICATION_HOLE''"
| "violation_name (DUPLICATE_QUEUE_TOKEN q b) = ''DUPLICATE_QUEUE_TOKEN''"
| "violation_name (TOKEN_MEMBERSHIP q b w) = ''TOKEN_MEMBERSHIP''"
| "violation_name (QUEUED_PHASE q b) = ''QUEUED_PHASE''"
| "violation_name (UNFINISHED_PAYLOAD_PUBLISHED b) = ''UNFINISHED_PAYLOAD_PUBLISHED''"
| "violation_name TOKEN_IN_BOTH_QUEUES = ''TOKEN_IN_BOTH_QUEUES''"
| "violation_name (DOUBLE_ALLOCATION i b w) = ''DOUBLE_ALLOCATION''"
| "violation_name (RECLAIM_WITH_LIVE_ALIAS i b) = ''RECLAIM_WITH_LIVE_ALIAS''"
| "violation_name (TOKEN_CONSERVATION xs) = ''TOKEN_CONSERVATION''"
| "violation_name EPOCH_RANGE = ''EPOCH_RANGE''"
| "violation_name (INVALID_FREE_PHASE b) = ''INVALID_FREE_PHASE''"
| "violation_name (TORN_OR_UNCOMMITTED b) = ''TORN_OR_UNCOMMITTED''"
| "violation_name (TORN_PAYLOAD b) = ''TORN_PAYLOAD''"
| "violation_name INSTALL_WITHOUT_OWNERSHIP = ''INSTALL_WITHOUT_OWNERSHIP''"
| "violation_name (OUT_OF_ORDER_PUBLICATION t u) = ''OUT_OF_ORDER_PUBLICATION''"
| "violation_name (POST_LP_PAYLOAD_ACCESS b) = ''POST_LP_PAYLOAD_ACCESS''"
| "violation_name OWNER_MISMATCH = ''OWNER_MISMATCH''"
| "violation_name SPSC_CAPACITY = ''SPSC_CAPACITY''"
| "violation_name FUTURE_SNAPSHOT = ''FUTURE_SNAPSHOT''"
| "violation_name (SPSC_LIVE_TICKET_OWNERSHIP t) = ''SPSC_LIVE_TICKET_OWNERSHIP''"
| "violation_name (SPSC_TORN_OR_UNCOMMITTED t) = ''SPSC_TORN_OR_UNCOMMITTED''"
| "violation_name (OVERWRITE_LIVE_LEASE b) = ''OVERWRITE_LIVE_LEASE''"
| "violation_name (READ_UNCOMMITTED b) = ''READ_UNCOMMITTED''"

text \<open>The successors that agree with a step of the witness, in the order of the generator.\<close>

fun matching :: "('s \<Rightarrow> jvalue) \<Rightarrow> jvalue \<Rightarrow> ('s, violation) event list \<Rightarrow> ('s \<times> violation option) list result" where
  "matching json w [] = Inr []"
| "matching json w (Raise e # es) = Inl e"
| "matching json w (Yield l t p v # es) =
     ebind (item w ''event'') (\<lambda>ev.
     ebind (if py_eq (VStr l) ev then ebind (item w ''state'') (\<lambda>st. Inr (py_eq (json t) st)) else Inr False) (\<lambda>hit.
     ebind (matching json w es) (\<lambda>rest. Inr (if hit then (t, v) # rest else rest))))"

definition replay_step ::
    "('s, violation) checker \<Rightarrow> ('s \<Rightarrow> jvalue) \<Rightarrow> nat \<Rightarrow> 's \<times> violation option \<Rightarrow> nat \<times> jvalue
     \<Rightarrow> ('s \<times> violation option) result" where
  "replay_step C json count acc iw = (case acc of (s, found) \<Rightarrow> case iw of (i, w) \<Rightarrow> (
    ebind (matching json w (ck_successors C s)) (\<lambda>choices.
    (case choices of
        [(t, v)] \<Rightarrow> (
          ebind ((case v of Some x \<Rightarrow> Inr (Some x) | None \<Rightarrow> ck_invariant C t)) (\<lambda>err.
          (case err of
             None \<Rightarrow> Inr (t, found)
           | Some x \<Rightarrow> need (Suc i = count) ''execution continued past failure'' (Inr (t, Some x)))))
      | _ \<Rightarrow> Inl (ValueError ''witness is not a model transition'')))))"

definition replay_on :: "('s, violation) checker \<Rightarrow> ('s \<Rightarrow> jvalue) \<Rightarrow> jvalue \<Rightarrow> unit result" where
  "replay_on C json w = (
    ebind (item w ''initial'') (\<lambda>start.
    need (py_eq (json (ck_initial C)) start) ''wrong initial state'' (
    ebind (ebind (item w ''steps'') elements) (\<lambda>steps.
    ebind (efold (replay_step C json (length steps)) (ck_initial C, None) (zip [0..<length steps] steps)) (\<lambda>(s, found).
    ebind (item w ''property'') (\<lambda>claimed.
    need (py_eq (case found of None \<Rightarrow> VNone | Some v \<Rightarrow> VStr (violation_name v)) claimed) ''unconfirmed violation''
       (Inr ())))))))"

definition replay_witness :: "jvalue \<Rightarrow> unit result" where
  "replay_witness res = (
    ebind (model_for res) (\<lambda>m.
    ebind (item res ''witness'') (\<lambda>w.
    (case m of
        NcqModel M \<Rightarrow> replay_on (ncq_checker M) ncq_json w
      | SpscModel M \<Rightarrow> replay_on (spsc_checker M) spsc_json w))))"

section \<open>The declared campaign\<close>

definition BASELINES :: "(string \<times> string list) list" where
  "BASELINES = [
     (''spsc_n2_eight'', [''--model'', ''spsc'', ''--capacity'', ''2'', ''--producers'', ''1'', ''--consumers'', ''1'', ''--operations'', ''8'']),
     (''spsc_n4_six'', [''--model'', ''spsc'', ''--capacity'', ''4'', ''--producers'', ''1'', ''--consumers'', ''1'', ''--operations'', ''6'']),
     (''ncq_n2_eight'', [''--capacity'', ''2'', ''--producers'', ''1'', ''--consumers'', ''1'', ''--operations'', ''8'']),
     (''ncq_n4_2p2c'', [''--capacity'', ''4'', ''--producers'', ''2'', ''--consumers'', ''2'', ''--operations'', ''1'']),
     (''ncq_n4_2p1c'', [''--capacity'', ''4'', ''--producers'', ''2'', ''--consumers'', ''1'', ''--operations'', ''2'', ''--no-abort'']),
     (''ncq_n4_1p2c'', [''--capacity'', ''4'', ''--producers'', ''1'', ''--consumers'', ''2'', ''--operations'', ''4'']),
     (''ncq_n8_2p2c'', [''--capacity'', ''8'', ''--producers'', ''2'', ''--consumers'', ''2'', ''--operations'', ''1''])]"

definition MUTATIONS :: "string list" where
  "MUTATIONS = [''split_head'', ''stale_head_retry'', ''overwrite_current'', ''tail_before_entry'', ''post_lp_write'', ''early_return'']"

fun arg_after :: "string \<Rightarrow> string list \<Rightarrow> string option" where
  "arg_after flag (a # b # args) = (if a = flag then Some b else arg_after flag (b # args))"
| "arg_after flag _ = None"

definition arg_value :: "string list \<Rightarrow> string \<Rightarrow> int \<Rightarrow> int result" where
  "arg_value args flag fallback =
     (if flag \<in> set args then (case arg_after flag args of None \<Rightarrow> Inl IndexError | Some s \<Rightarrow> parse_int s) else Inr fallback)"

definition expected_model :: "string \<Rightarrow> explored option result" where
  "expected_model name =
     (case map_of BASELINES name of
        Some args \<Rightarrow> (
          ebind (arg_value args ''--capacity'' 4) (\<lambda>capacity.
          ebind (arg_value args ''--producers'' 2) (\<lambda>producers.
          ebind (arg_value args ''--consumers'' 2) (\<lambda>consumers.
          ebind (arg_value args ''--operations'' 1) (\<lambda>operations.
          ebind (make_model (''--model'' \<in> set args \<and> arg_after ''--model'' args = Some ''spsc'')
            capacity producers consumers operations ''none'' (''--no-abort'' \<notin> set args)) (\<lambda>m.
          Inr (Some m)))))))
      | None \<Rightarrow>
          ebind (if prefix_of ''mutant_'' name then ebind (make_model False 4 2 2 1 (drop 7 name) False) (\<lambda>m. Inr (Some m))
           else if name = ''spsc_publish_early'' then ebind (make_model True 2 1 1 1 ''publish_early'' True) (\<lambda>m. Inr (Some m))
           else if name = ''cutoff_control'' then ebind (make_model False 4 2 2 1 ''none'' True) (\<lambda>m. Inr (Some m))
           else if name = ''extended_n4_2p2c_eight'' then ebind (make_model False 4 2 2 8 ''none'' True) (\<lambda>m. Inr (Some m))
           else Inr None) Inr)"

section \<open>Replay of a baseline search\<close>

definition status_text :: "status \<Rightarrow> string" where
  "status_text st = (case st of PASS_WITHIN_SCOPE \<Rightarrow> ''PASS_WITHIN_SCOPE'' | INCOMPLETE \<Rightarrow> ''INCOMPLETE''
     | FAIL_WITNESS \<Rightarrow> ''FAIL_WITNESS'' | FAIL_DEADLOCK \<Rightarrow> ''FAIL_DEADLOCK'' | FAIL_PROGRESS_CYCLE \<Rightarrow> ''FAIL_PROGRESS_CYCLE'')"

definition no_progress_json :: "int option \<Rightarrow> jvalue" where
  "no_progress_json res = (case res of None \<Rightarrow> VNone | Some r \<Rightarrow>
     VDict [(''algorithm'', VStr ''exact topological elimination of nonprogress edges''),
       (''residue_states'', VInt r), (''cycle_exists'', VBool (r \<noteq> 0)),
       (''progress'', VStr ''queue LP or empty/operation response; not application throughput''),
       (''scheduler'', VStr ''active transition sequences only; no implicit stutter'')])"

text \<open>The fields of a new report that are compared with the stored one.\<close>

definition report_json :: "string \<Rightarrow> ('s, 'v) report \<Rightarrow> jdict" where
  "report_json sequence r = [(''status'', VStr (status_text (rp_status r))), (''states'', VInt (int (report.rp_states r))),
     (''transitions'', VInt (int (rp_transitions r))), (''terminals'', VInt (int (rp_terminals r))),
     (''state_sequence_sha256'', VStr sequence), (''no_progress_analysis'', no_progress_json (rp_residue r)),
     (''nonterminal_deadends'', VInt (int (rp_nonterminal_deadends r)))]"

definition explore_again :: "(explored \<Rightarrow> string) \<Rightarrow> (nat \<Rightarrow> bool) \<Rightarrow> explored \<Rightarrow> jdict result" where
  "explore_again sequence late m = (case m of
     NcqModel M \<Rightarrow> ebind (run (ncq_checker M) (\<lambda>s. list_ex (\<lambda>(h, t). t < h) (zip (heads s) (tails s))) 1200000 late)
       (\<lambda>r. Inr (report_json (sequence m) r))
   | SpscModel M \<Rightarrow> ebind (run (spsc_checker M) (\<lambda>s. False) 1200000 late) (\<lambda>r. Inr (report_json (sequence m) r)))"

section \<open>The campaign directory\<close>

record formal_tree =
  fo_sources :: "(string \<times> string) list"
  fo_within :: "string \<Rightarrow> bool"
  fo_sha :: "string \<Rightarrow> string result"

record formal_directory =
  fd_names :: "string list"
  fd_doc :: "string \<Rightarrow> jtext result"
  fd_sha :: "string \<Rightarrow> string result"

text \<open>What a replay of the baselines is given besides the directory: the digest of a state sequence and the
  clock of each search.\<close>

record formal_replay =
  ry_sequence :: "explored \<Rightarrow> string"
  ry_late :: "string \<Rightarrow> nat \<Rightarrow> bool"

definition get_is :: "jvalue \<Rightarrow> string \<Rightarrow> jvalue \<Rightarrow> string \<Rightarrow> unit result" where
  "get_is d k w msg = ebind (dget d k VNone) (\<lambda>v. need (v = w) msg (Inr ()))"

definition get_eq :: "jvalue \<Rightarrow> string \<Rightarrow> jvalue \<Rightarrow> string \<Rightarrow> unit result" where
  "get_eq d k w msg = ebind (dget d k VNone) (\<lambda>v. need (py_eq v w) msg (Inr ()))"

definition item_eq :: "jvalue \<Rightarrow> string \<Rightarrow> jvalue \<Rightarrow> string \<Rightarrow> unit result" where
  "item_eq d k w msg = ebind (item d k) (\<lambda>v. need (py_eq v w) msg (Inr ()))"

definition baselines_json :: jvalue where
  "baselines_json = VList (map (\<lambda>(name, args). VList [VStr name, VList (map VStr args)]) BASELINES)"

definition check_inventory :: "formal_directory \<Rightarrow> unit result" where
  "check_inventory d = (
    ebind (ebind (load_finite (fd_doc d ''manifest.json'')) dict_items) (\<lambda>manifest.
    need (set (fd_names d) - {''manifest.json''} = set (keys manifest)) ''campaign inventory mismatch'' (
    eall (\<lambda>(name, digest). need (path_name name = name) ''campaign hash mismatch''
       (ebind (fd_sha d name) (\<lambda>x. need (py_eq (VStr x) digest) ''campaign hash mismatch'' (Inr ())))) manifest)))"

definition check_declaration :: "formal_tree \<Rightarrow> jvalue \<Rightarrow> jvalue \<Rightarrow> unit result" where
  "check_declaration t plan summary = (
    ebind (get_eq plan ''schema'' (VStr ''elite-formal-plan-v1'') ''unknown schema'') (\<lambda>_.
    ebind (get_eq summary ''schema'' (VStr ''elite-formal-campaign-v1'') ''unknown schema'') (\<lambda>_.
    ebind (item_eq plan ''baseline'' baselines_json ''plan differs from declared source configuration'') (\<lambda>_.
    ebind (item_eq plan ''negative'' (VList (map VStr MUTATIONS)) ''plan differs from declared source configuration'') (\<lambda>_.
    ebind (get_eq plan ''source_sha256'' (VDict (map (\<lambda>(k, v). (k, VStr v)) (fo_sources t)))
       ''incomplete or changed source identity set'') (\<lambda>_.
    ebind (dget plan ''extended'' VNone) (\<lambda>ext.
    need (is_bool ext) ''altered declared campaign bounds'' (
    ebind (get_eq plan ''states_cap'' (VInt 1200000) ''altered declared campaign bounds'') (\<lambda>_.
    ebind (get_eq plan ''time_budget_per_exploration_seconds'' (VInt 120) ''altered declared campaign bounds'') (\<lambda>_.
    ebind (get_is summary ''source_unchanged'' (VBool True) ''unsupported qualification assertion'') (\<lambda>_.
    ebind (eall (\<lambda>k. get_is summary k (VBool False) ''unsupported qualification assertion'')
       [''external_spin_executed'', ''external_genmc_executed'', ''full_turn5_v1_qualification'']) (\<lambda>_.
    item_eq summary ''status'' (VStr ''PASS_WITHIN_DECLARED_SCOPE'') ''incomplete/failed campaign''))))))))))))"

definition expected_runs :: "jvalue \<Rightarrow> jvalue list result" where
  "expected_runs plan = (
    ebind (ebind (item plan ''baseline'') iter) (\<lambda>base.
    ebind (emap (\<lambda>x. elem x 0) base) (\<lambda>names.
    ebind (ebind (item plan ''negative'') iter) (\<lambda>negative.
    ebind (emap (\<lambda>x. case x of VStr s \<Rightarrow> Inr (VStr (''mutant_'' @ s)) | _ \<Rightarrow> Inl (TypeError ''str'')) negative) (\<lambda>mutants.
    ebind (item plan ''extended'') (\<lambda>ext.
    Inr (names @ mutants @ map VStr [''spsc_publish_early'', ''cutoff_control'', ''handoff'', ''boundaries'', ''targeted'']
       @ (if truthy ext then [VStr ''extended_n4_2p2c_eight''] else []))))))))"

definition check_population :: "formal_tree \<Rightarrow> jvalue \<Rightarrow> jvalue \<Rightarrow> jvalue list \<Rightarrow> unit result" where
  "check_population t plan summary runs = (
    ebind (expected_runs plan) (\<lambda>expected.
    ebind (emap (\<lambda>x. item x ''name'') runs) (\<lambda>names.
    need (list_eq names expected) ''missing or duplicate expected run'' (
    ebind (item_eq summary ''record_names'' (VList expected) ''missing or duplicate expected run'') (\<lambda>_.
    ebind (get_eq summary ''records'' (VInt (int (length expected))) ''population count mismatch'') (\<lambda>_.
    ebind (get_eq summary ''baseline_population'' (VInt (int (length BASELINES))) ''population count mismatch'') (\<lambda>_.
    ebind (get_eq summary ''negative_expectations'' (VInt (int (length MUTATIONS) + 2)) ''population count mismatch'') (\<lambda>_.
    ebind (ebind (item plan ''source_sha256'') dict_items) (\<lambda>hashes.
    eall (\<lambda>(name, digest). need (fo_within t name) ''source identity mismatch''
       (ebind (fo_sha t name) (\<lambda>x. need (py_eq (VStr x) digest) ''source identity mismatch'' (Inr ())))) hashes)))))))))"

definition wanted_exit :: "string \<Rightarrow> int" where
  "wanted_exit name = (if name = ''cutoff_control'' then 2
     else if prefix_of ''mutant_'' name \<or> name = ''spsc_publish_early'' then 1 else 0)"

definition wanted_status :: "string \<Rightarrow> string" where
  "wanted_status name = (if wanted_exit name = 2 then ''INCOMPLETE''
     else if wanted_exit name = 1 then ''FAIL_WITNESS'' else ''PASS_WITHIN_SCOPE'')"

definition check_result_fields :: "string \<Rightarrow> explored \<Rightarrow> jvalue \<Rightarrow> jvalue \<Rightarrow> unit result" where
  "check_result_fields name m ex r = (
    ebind (get_eq r ''schema'' (VStr ''elite-formal-explorer-v1'') ''result model/bounds mismatch'') (\<lambda>_.
    ebind (get_eq r ''model'' (VStr (model_name m)) ''result model/bounds mismatch'') (\<lambda>_.
    ebind (get_eq r ''config'' (model_config m) ''result model/bounds mismatch'') (\<lambda>_.
    ebind (get_eq r ''status'' (VStr (wanted_status name)) ''wrong expected disposition'') (\<lambda>_.
    ebind (get_eq ex ''expected_status'' (VStr (wanted_status name)) ''wrong expected disposition'') (\<lambda>_.
    ebind (eall (\<lambda>k. ebind (dget r k VNone) (\<lambda>v. need (case v of VInt i \<Rightarrow> 0 \<le> i | _ \<Rightarrow> False) ''invalid integer'' (Inr ())))
       [''states'', ''transitions'', ''terminals'', ''max_shortest_depth'', ''frontier_remaining'', ''nonterminal_deadends'']) (\<lambda>_.
    ebind (ebind (item r ''states'') index) (\<lambda>states.
    ebind (ebind (item r ''terminals'') index) (\<lambda>terminals.
    need (1 \<le> states \<and> terminals \<le> states) ''invalid state population'' (
    if wanted_exit name = 2 then (
       ebind (get_is r ''exhaustive'' (VBool False) ''cutoff control did not cut off'') (\<lambda>_.
       ebind (dget r ''cutoff'' VNone) (\<lambda>cutoff.
       need (cutoff \<noteq> VNone) ''cutoff control did not cut off'' (Inr ())))) else Inr ()))))))))))"

definition replay_baseline :: "formal_replay option \<Rightarrow> string \<Rightarrow> jvalue \<Rightarrow> nat result" where
  "replay_baseline again name r = (case again of None \<Rightarrow> Inr 0 | Some a \<Rightarrow> (
    ebind (model_for r) (\<lambda>m.
    ebind (explore_again (ry_sequence a) (ry_late a name) m) (\<lambda>new.
    ebind (eall (\<lambda>(k, v). item_eq r k v ''baseline replay disagreement'') new) (\<lambda>_.
    Inr 1)))))"

definition check_pass :: "jvalue \<Rightarrow> unit result" where
  "check_pass r = (
    ebind (item r ''exhaustive'') (\<lambda>ex.
    need (truthy ex) ''unexhausted result labeled pass'' (
    ebind (item r ''cutoff'') (\<lambda>cutoff.
    need (cutoff = VNone) ''unexhausted result labeled pass'' (
    ebind (item_eq r ''frontier_remaining'' (VInt 0) ''unexhausted result labeled pass'') (\<lambda>_.
    ebind (item_eq r ''nonterminal_deadends'' (VInt 0) ''unexhausted result labeled pass'') (\<lambda>_.
    ebind (ebind (item r ''no_progress_analysis'') (\<lambda>a. item a ''cycle_exists'')) (\<lambda>cycle.
    need (\<not> truthy cycle) ''unexhausted result labeled pass'' (Inr ())))))))))"

text \<open>One run: the numbers of replayed witnesses and of re-executed baselines it adds.\<close>

definition check_run ::
    "formal_directory \<Rightarrow> formal_replay option \<Rightarrow> jvalue \<Rightarrow> (nat \<times> nat) result" where
  "check_run d again ex = (
    ebind (item ex ''name'') (\<lambda>nm.
    ebind ((case nm of VStr s \<Rightarrow> Inr s | _ \<Rightarrow> Inl AttributeError)) (\<lambda>name.
    ebind (item_eq ex ''expected_exit'' (VInt (wanted_exit name)) ''tampered expected exit'') (\<lambda>_.
    ebind (item ex ''outer_timeout'') (\<lambda>late.
    need (\<not> truthy late) ''run outcome mismatch'' (
    ebind (item ex ''expectation_met'') (\<lambda>met.
    need (truthy met) ''run outcome mismatch'' (
    ebind (item ex ''expected_exit'') (\<lambda>ee.
    ebind (item_eq ex ''returncode'' ee ''run outcome mismatch'') (\<lambda>_.
    ebind (item_eq ex ''result_file'' (VStr (name @ ''.json'')) ''wrong result pathname'') (\<lambda>_.
    ebind (load_finite (fd_doc d (name @ ''.json''))) (\<lambda>r.
    ebind (expected_model name) (\<lambda>m.
    ebind ((case m of
        None \<Rightarrow> ebind (expected_aux name) (\<lambda>v. need (py_eq r v) ''auxiliary replay disagrees'' (Inr ()))
      | Some m \<Rightarrow> check_result_fields name m ex r)) (\<lambda>_.
    ebind (fd_sha d (name @ ''.json'')) (\<lambda>sha.
    ebind (item_eq ex ''result_sha256'' (VStr sha) ''result hash mismatch'') (\<lambda>_.
    ebind (item ex ''expected_status'') (\<lambda>es.
    ebind ((if es = VNone then Inr () else item_eq r ''status'' es ''unexpected checker disposition'')) (\<lambda>_.
    ebind (dget r ''schema'' VNone) (\<lambda>schema.
    if schema = VStr ''elite-formal-explorer-v1'' then (
       ebind (item r ''status'') (\<lambda>st.
       if st = VStr ''PASS_WITHIN_SCOPE'' then (
         ebind (check_pass r) (\<lambda>_.
         ebind (replay_baseline again name r) (\<lambda>b.
         Inr (0, b)))) else if st = VStr ''FAIL_WITNESS'' then ebind (replay_witness r) (\<lambda>_. Inr (1, 0))
       else Inr (0, 0))) else Inr (0, 0))))))))))))))))))))"

definition verify_formal ::
    "formal_tree \<Rightarrow> formal_directory \<Rightarrow> formal_replay option \<Rightarrow> (nat \<times> nat) result" where
  "verify_formal t d again = (
    ebind (check_inventory d) (\<lambda>_.
    ebind (load_finite (fd_doc d ''plan.json'')) (\<lambda>plan.
    ebind (load_finite (fd_doc d ''execution.json'')) (\<lambda>ev.
    ebind (load_finite (fd_doc d ''summary.json'')) (\<lambda>summary.
    ebind (check_declaration t plan summary) (\<lambda>_.
    ebind (iter ev) (\<lambda>runs.
    ebind (check_population t plan summary runs) (\<lambda>_.
    ebind (emap (check_run d again) runs) (\<lambda>counts.
    Inr (sum_list (map fst counts), sum_list (map snd counts)))))))))))"

end
