(* ===== verification/Formal_Claims.thy ===== *)
theory Formal_Claims
  imports Formal_Results Explore_Search
begin

text \<open>
  Replayed counterexamples are genuine: the model named by the result has a run with the recorded
  events and states that ends in the recorded violation.
\<close>

definition shown :: "('s \<Rightarrow> jvalue) \<Rightarrow> string \<times> 's \<Rightarrow> jvalue \<Rightarrow> bool" where
  "shown json lt w \<longleftrightarrow> item w ''event'' = Inr (VStr (fst lt))
     \<and> (\<exists>st. item w ''state'' = Inr st \<and> py_eq (json (snd lt)) st)"

lemma matching_shown:
  assumes "matching json w es = Inr choices" "(t, v) \<in> set choices"
  shows "\<exists>l p. Yield l t p v \<in> set es \<and> shown json (l, t) w"
  using assms
proof (induction json w es arbitrary: choices rule: matching.induct)
  case (3 json w l u p x es)
  from "3.prems"(1) obtain ev hit rest where e: "item w ''event'' = Inr ev"
    "(if py_eq (VStr l) ev then ebind (item w ''state'') (\<lambda>st. Inr (py_eq (json u) st)) else Inr False) = Inr hit"
    "matching json w es = Inr rest" "choices = (if hit then (u, x) # rest else rest)"
    by (auto simp: ebind_ok)
  show ?case
  proof (cases "(t, v) \<in> set rest")
    case True
    obtain l' p' where "Yield l' t p' v \<in> set es" "shown json (l', t) w" using "3.IH" True e(3) by blast
    then show ?thesis by auto
  next
    case False
    then have "hit" "t = u" "v = x" using "3.prems"(2) e(4) by (auto split: if_splits)
    moreover from this have "shown json (l, u) w"
      using e(1,2) by (auto simp: shown_def ebind_ok split: if_splits)
    ultimately show ?thesis by auto
  qed
qed auto

lemma replay_step_shown:
  assumes "replay_step C json n (s, found) (i, w) = Inr (t, found')"
  shows "\<exists>l p v. Yield l t p v \<in> set (ck_successors C s) \<and> shown json (l, t) w
    \<and> (found' = found \<or> (\<exists>x. found' = Some x \<and> violating C s l t x \<and> Suc i = n))"
proof -
  from assms obtain choices where m: "matching json w (ck_successors C s) = Inr choices"
    by (auto simp: replay_step_def ebind_ok)
  from assms m obtain u v where c: "choices = [(u, v)]"
    by (auto simp: replay_step_def split: list.splits)
  obtain l p where y: "Yield l u p v \<in> set (ck_successors C s)" "shown json (l, u) w"
    using matching_shown [OF m, of u v] c by auto
  define err where "err = (case v of Some x \<Rightarrow> Inr (Some x) | None \<Rightarrow> ck_invariant C u)"
  have r: "ebind err (\<lambda>err. case err of None \<Rightarrow> Inr (u, found)
      | Some x \<Rightarrow> need (Suc i = n) ''execution continued past failure'' (Inr (u, Some x))) = Inr (t, found')"
    using assms by (simp add: replay_step_def m c err_def)
  then obtain e where e: "err = Inr e" by (auto simp: ebind_ok)
  have v: "violating C s l u x" if "e = Some x" for x
    using e y that by (auto simp: violating_def err_def split: option.splits)
  show ?thesis
    using r y v by (cases e) (auto simp: e need_ok)
qed

text \<open>The last step of a run violates.\<close>

definition ends_in :: "('s, 'v) checker \<Rightarrow> 's \<Rightarrow> (string \<times> 's) list \<Rightarrow> 'v \<Rightarrow> bool" where
  "ends_in C s xs x \<longleftrightarrow> (\<exists>ys l u. xs = ys @ [(l, u)] \<and> violating C (end_of s ys) l u x)"

lemma ends_in_single: "violating C s l u x \<Longrightarrow> ends_in C s [(l, u)] x"
  by (auto simp: ends_in_def intro!: exI [of _ "[]"])

lemma ends_in_Cons:
  assumes "ends_in C u xs x"
  shows "ends_in C s ((l, u) # xs) x"
proof -
  from assms obtain ys l' u' where "xs = ys @ [(l', u')]" "violating C (end_of u ys) l' u' x"
    by (auto simp: ends_in_def)
  then have "(l, u) # xs = ((l, u) # ys) @ [(l', u')]" "violating C (end_of s ((l, u) # ys)) l' u' x" by simp_all
  then show ?thesis unfolding ends_in_def by blast
qed

lemma replay_steps_shown:
  assumes "efold (replay_step C json n) (s, None) (zip [k..<n] ws) = Inr (t, found)" "n = k + length ws"
  shows "\<exists>xs. chain C s xs \<and> list_all2 (shown json) xs ws
    \<and> (\<forall>x. found = Some x \<longrightarrow> ends_in C s xs x)"
  using assms
proof (induction ws arbitrary: s k)
  case Nil
  then show ?case by (auto intro: exI [of _ "[]"])
next
  case (Cons w ws)
  from Cons.prems(2) have k: "[k..<n] = k # [Suc k..<n]" by (simp add: upt_rec)
  from Cons.prems(1) obtain u mid where one: "replay_step C json n (s, None) (k, w) = Inr (u, mid)"
    and more: "efold (replay_step C json n) (u, mid) (zip [Suc k..<n] ws) = Inr (t, found)"
    by (auto simp: k ebind_ok)
  obtain l p v where y: "Yield l u p v \<in> set (ck_successors C s)" "shown json (l, u) w"
    and f: "mid = None \<or> (\<exists>x. mid = Some x \<and> violating C s l u x \<and> Suc k = n)"
    using replay_step_shown [OF one] by blast
  have st: "step C s l p u" using y(1) by (auto simp: step_iff)
  show ?case
  proof (cases mid)
    case None
    then obtain xs where "chain C u xs" "list_all2 (shown json) xs ws"
      "\<forall>x. found = Some x \<longrightarrow> ends_in C u xs x"
      using Cons.IH [of u "Suc k"] more Cons.prems(2) by auto
    then show ?thesis using st y(2) by (intro exI [of _ "(l, u) # xs"]) (auto intro: ends_in_Cons)
  next
    case (Some x)
    then have x: "violating C s l u x" "ws = []" using f Cons.prems(2) by auto
    then have "found = Some x" using more Some by simp
    then show ?thesis using st y(2) x by (intro exI [of _ "[(l, u)]"]) (auto intro: ends_in_single)
  qed
qed

definition confirmed :: "('s, violation) checker \<Rightarrow> ('s \<Rightarrow> jvalue) \<Rightarrow> jvalue \<Rightarrow> string \<Rightarrow> bool" where
  "confirmed C json w name \<longleftrightarrow> (\<exists>xs v ws. counterexample C xs v \<and> violation_name v = name
     \<and> ebind (item w ''steps'') elements = Inr ws \<and> list_all2 (shown json) xs ws)"

lemma replay_on_confirmed:
  assumes "replay_on C json w = Inr ()" "item w ''property'' = Inr (VStr name)"
  shows "confirmed C json w name"
proof -
  from assms obtain ws s found where ws: "ebind (item w ''steps'') elements = Inr ws"
    and f: "efold (replay_step C json (length ws)) (ck_initial C, None) (zip [0..<length ws] ws) = Inr (s, found)"
    and p: "py_eq (case found of None \<Rightarrow> VNone | Some v \<Rightarrow> VStr (violation_name v)) (VStr name)"
    unfolding replay_on_def ebind_ok need_ok case_prod_unfold by auto
  from p obtain v where v: "found = Some v" "violation_name v = name" by (cases found) auto
  obtain xs ys l u where x: "chain C (ck_initial C) xs" "list_all2 (shown json) xs ws" "xs = ys @ [(l, u)]"
    "violating C (end_of (ck_initial C) ys) l u v"
    using replay_steps_shown [OF f] v(1) by (auto simp: ends_in_def)
  then have "counterexample C xs v" by (auto simp: counterexample_def)
  then show ?thesis using v(2) ws x(2) unfolding confirmed_def by blast
qed

text \<open>C37: A counterexample that the campaign verifier replays is genuine: when its property is a text, the
  model built from the result's configuration has a run from its initial state with exactly the
  recorded events and states, whose last step violates that property.\<close>

theorem replay_witness_genuine:
  assumes "replay_witness res = Inr ()" "item res ''witness'' = Inr w" "item w ''property'' = Inr (VStr name)"
  shows "\<exists>m. model_for res = Inr m \<and> (case m of
    NcqModel M \<Rightarrow> confirmed (ncq_checker M) ncq_json w name
  | SpscModel M \<Rightarrow> confirmed (spsc_checker M) spsc_json w name)"
proof -
  from assms(1,2) obtain m where m: "model_for res = Inr m"
    "(case m of NcqModel M \<Rightarrow> replay_on (ncq_checker M) ncq_json w
        | SpscModel M \<Rightarrow> replay_on (spsc_checker M) spsc_json w) = Inr ()"
    unfolding replay_witness_def ebind_ok by auto
  then show ?thesis by (cases m) (auto intro: replay_on_confirmed [OF _ assms(3)])
qed

section \<open>A replayed counterexample\<close>

definition demo_early :: spsc_model where
  "demo_early = \<lparr>sm_n = 2, sm_m = 1, sm_mutation = ''publish_early'', sm_abort = True\<rparr>"

definition demo_states :: "spsc_state list" where
  "demo_states = (let s0 = spsc_initial demo_early; s1 = s0\<lparr>producer_pc := 2\<rparr>;
     s2 = s1\<lparr>producer_pc := 3, spsc_state.left := 0, spsc_state.owners := [1, 0], spsc_state.epochs := [1, 0]\<rparr>;
     s3 = s2\<lparr>producer_pc := 4, spsc_state.word0 := [1, 0]\<rparr>;
     s4 = s3\<lparr>published := 1, producer_pc := 6, committed := [1, 0], spsc_state.owners := [2, 0]\<rparr>
   in [s1, s2, s3, s4])"

definition demo_events :: "string list" where
  "demo_events = [''P: cached reclamation covers reserve'', ''P: private reservation and epoch advance'',
     ''P: ordinary word0 write'', ''P: MUTANT publication before second word'']"

definition demo_witness :: jvalue where
  "demo_witness = VDict [(''property'', VStr ''SPSC_TORN_OR_UNCOMMITTED''), (''initial'', spsc_json (spsc_initial demo_early)),
     (''steps'', VList (map (\<lambda>(l, s). VDict [(''event'', VStr l), (''state'', spsc_json s)]) (zip demo_events demo_states)))]"

definition demo_result :: "jvalue \<Rightarrow> jvalue" where
  "demo_result w = VDict [(''model'', VStr ''spsc-control-ownership''), (''config'', model_config (SpscModel demo_early)), (''witness'', w)]"

lemma demo_replayed: "replay_witness (demo_result demo_witness) = Inr ()"
  by code_simp

theorem replay_witness_genuine_witness:
  "\<exists>m. model_for (demo_result demo_witness) = Inr m \<and> (case m of
    NcqModel M \<Rightarrow> confirmed (ncq_checker M) ncq_json demo_witness ''SPSC_TORN_OR_UNCOMMITTED''
  | SpscModel M \<Rightarrow> confirmed (spsc_checker M) spsc_json demo_witness ''SPSC_TORN_OR_UNCOMMITTED'')"
  by (rule replay_witness_genuine [OF demo_replayed]) (simp_all add: demo_result_def demo_witness_def)

text \<open>A witness without steps and with a null property is accepted although it shows no violation.\<close>

definition empty_witness :: jvalue where
  "empty_witness = VDict [(''property'', VNone), (''initial'', spsc_json (spsc_initial demo_early)), (''steps'', VList [])]"

lemma empty_witness_accepted: "replay_witness (demo_result empty_witness) = Inr ()"
  by code_simp

end
