(* ===== verification/Release_Inventory.thy ===== *)
theory Release_Inventory
  imports Trust_Capsule "HOL-Library.List_Lexorder" "HOL-Library.Char_ord"
begin

text \<open>
  The release policy of \<open>tools/release_manifest.py\<close> and the inventory check of
  \<open>tools/verify_release.py\<close>. A directory tree gives the kind of every entry and the digest of every
  regular file; the texts of the two manifests, the bytes of the report and SHA-256 are parameters.
\<close>

definition GENERATED :: "string list" where
  "GENERATED = [''build'', ''dist'', ''.git'', ''__pycache__'', ''.pytest_cache'']"

definition REQUIRED :: "string list" where
  "REQUIRED = [''LICENSE'', ''.gitignore'', ''docs/ADVERSARIAL_AUDIT.md'',
     ''include/elite_version.h'', ''bindings/python/elite_buffer.c'',
     ''SOURCE_MANIFEST.sha256'', ''src/elite_pmc.c'', ''include/elite_pmc.h'',
     ''tools/verify_cache_provenance.py'', ''docs/CACHE_PROVENANCE.md'',
     ''src/elite_topology.c'', ''include/elite_topology.h'',
     ''benchmarks/bench_matrix.c'', ''benchmarks/matrix_bridge.c'',
     ''bindings/python/matrix_worker.py'', ''tools/run_matrix.py'',
     ''tools/verify_matrix_results.py'', ''docs/HARDWARE_BOUNDS.md'',
     ''docs/MATRIX_VERIFICATION.md'', ''tools/deposit_turn12.py'',
     ''formal/models/spsc.py'', ''formal/models/ncq.py'', ''formal/handoff.py'',
     ''formal/explore.py'', ''formal/boundaries.py'', ''formal/targeted.py'',
     ''formal/spsc_ownership.pml'', ''formal/ncq_sc64.pml'',
     ''formal/c11/spsc_handoff.c'', ''formal/c11/ncq_handoff.c'',
     ''formal/SOURCE_BINDING.json'', ''tools/run_formal.py'',
     ''tools/verify_formal_results.py'', ''tools/check_formal_binding.py'',
     ''tests/test_formal.py'', ''tests/test_formal_results.py'',
     ''docs/FORMAL_VERIFICATION.md'', ''tests/chaos_protocol.h'',
     ''tests/test_chaos_multiprocess.c'', ''tests/test_chaos_resources.c'',
     ''tools/run_chaos.py'', ''tools/verify_chaos_results.py'',
     ''tools/check_chaos.py'', ''tests/test_chaos_results.py'',
     ''docs/CHAOS_RECOVERY.md'', ''CHANGELOG.md'', ''README.md'',
     ''release/RELEASE.json'', ''docs/TRUST_CAPSULE.md'', ''docs/RELEASE_SCOPE.md'',
     ''tools/verify_trust_capsule.py'', ''tools/build_release_archive.py'',
     ''tests/test_wait_status.py'', ''tests/test_trust_capsule.py'',
     ''.github/workflows/ci.yml'', ''CMakeLists.txt'', ''vcpkg.json'', ''elite-ringbuffer.rb'',
     ''man/elite_ringbuffer.3'', ''man/eliteipc.7'', ''examples/live_throughput_demo.c'',
     ''tools/verify_live_demo.py'', ''tools/seed_packages.py'', ''docs/SEEDING.md'', REPORT]"

section \<open>The walk\<close>

text \<open>Entries of a directory in the order of the listing; a link is one to a directory or not.\<close>

datatype tree_node =
    Regular string
  | Special
  | LinkToDirectory
  | LinkToFile
  | Directory "(string \<times> tree_node) list"

definition release_file :: "bool \<Rightarrow> string \<Rightarrow> string \<times> tree_node \<Rightarrow> string list result" where
  "release_file strict pre e = (case e of (name, nd) \<Rightarrow>
     (case nd of
        Directory es \<Rightarrow> Inr []
      | LinkToDirectory \<Rightarrow> Inr []
      | Regular sha \<Rightarrow> Inr (if \<not> strict \<and> (suffix_of ''.pyc'' name \<or> name = ''.DS_Store'') then [] else [pre @ name])
      | _ \<Rightarrow> Inl (ValueError ''nonregular release member'')))"

fun walk :: "bool \<Rightarrow> string \<Rightarrow> tree_node \<Rightarrow> string list result" where
  "walk strict pre (Directory es) =
     ebind (eall (\<lambda>e. need (snd e \<noteq> LinkToDirectory) ''symlink directory'' (Inr ())) es) (\<lambda>_.
     ebind (emap (release_file strict pre) es) (\<lambda>here.
     ebind (emap (\<lambda>e. if \<not> strict \<and> fst e \<in> set GENERATED then Inr [] else walk strict (pre @ fst e @ ''/'') (snd e)) es)
       (\<lambda>below. Inr (concat here @ concat below))))"
| "walk strict pre nd = Inr []"

definition files :: "bool \<Rightarrow> tree_node \<Rightarrow> string list result" where
  "files strict base = ebind (walk strict [] base) (\<lambda>names. Inr (sort names))"

definition policy_member :: "string \<Rightarrow> bool" where
  "policy_member name \<longleftrightarrow>
     path_suffix name \<in> set [''.c'', ''.h'', ''.cpp'', ''.hpp'', ''.py'', ''.sh'', ''.pml'', ''.rb'', ''.cmake'',
        ''.yml'', ''.yaml'', ''.3'', ''.7'']
     \<or> path_name name \<in> set [''CMakeLists.txt'', ''vcpkg.json'']
     \<or> suffix_of ''.cmake.in'' name \<or> suffix_of ''.pc.in'' name \<or> suffix_of ''.rb.in'' name
     \<or> name = ''formal/SOURCE_BINDING.json''
     \<or> name \<in> set [''Makefile'', ''LICENSE'', ''.gitignore'', ''NOTICE.md'', ''docs/ADVERSARIAL_AUDIT.md'', ''release/RELEASE.json'']"

text \<open>The archive verifier keeps its own copy of the policy; it is the same.\<close>

lemma policy_agrees: "policy_member name \<longleftrightarrow> source_member name"
  by (auto simp: policy_member_def source_member_def)

section \<open>Verification of a tree\<close>

definition release_record :: "(string \<times> string) list \<Rightarrow> string \<Rightarrow> (string \<times> string) list result" where
  "release_record out line = (
    ebind ((case manifest_line line of None \<Rightarrow> Inl (ValueError ''invalid manifest record'') | Some p \<Rightarrow> Inr p)) (\<lambda>(sha, name).
    need (\<not> (is_absolute name \<or> ''..'' \<in> set (path_parts name) \<or> CHR 0x5C \<in> set name \<or> as_posix name \<noteq> name
         \<or> name \<in> fst ` set out \<or> name \<in> set [''.'', []])) ''unsafe/noncanonical/duplicate path''
       (Inr (out @ [(name, sha)]))))"

definition release_manifest :: "string \<Rightarrow> (string \<times> string) list result" where
  "release_manifest text = (
    ebind (efold release_record [] (splitlines text)) (\<lambda>out.
    need (out \<noteq> []) ''empty manifest'' (Inr out)))"

text \<open>The digest of the file a relative path names, found without following links.\<close>

fun digest_at :: "tree_node \<Rightarrow> string list \<Rightarrow> string option" where
  "digest_at (Regular sha) [] = Some sha"
| "digest_at (Directory es) (p # ps) = (case map_of es p of None \<Rightarrow> None | Some nd \<Rightarrow> digest_at nd ps)"
| "digest_at nd ps = None"

record release_tree =
  rt_root :: tree_node
  rt_manifest :: "string result"
  rt_sources :: "string result"
  rt_report :: "string result"

definition verify_release :: "(string \<Rightarrow> string) \<Rightarrow> bool \<Rightarrow> release_tree \<Rightarrow> (int \<times> int) result" where
  "verify_release sha strict t = (
    ebind (ebind (rt_manifest t) release_manifest) (\<lambda>full.
    ebind (ebind (rt_sources t) release_manifest) (\<lambda>sources.
    ebind (files strict (rt_root t)) (\<lambda>names.
    let present = filter (\<lambda>n. n \<noteq> ''MANIFEST.sha256'') names in
    need (set present = set (keys full)) ''inventory mismatch'' (
    need (set REQUIRED \<subseteq> set present) ''required release files missing'' (
    ebind (eall (\<lambda>(name, h). need (digest_at (rt_root t) (split_on (CHR ''/'') name) = Some h) ''hash/path mismatch'' (Inr ())) full) (\<lambda>_.
    need (set (keys sources) = set (filter policy_member present)) ''source inventory does not cover the defined source policy'' (
    ebind (eall (\<lambda>(name, h). ebind (at_key full name) (\<lambda>x. need (x = h) ''source hash disagrees'' (Inr ()))) sources) (\<lambda>_.
    ebind (rt_report t) (\<lambda>data.
    ebind (check_report sha data) (\<lambda>_.
    Inr (int (length full), int (length sources)))))))))))))"

end
