(* ===== verification/Release_Claims.thy ===== *)
theory Release_Claims
  imports Release_Inventory Capsule_Claims
begin

text \<open>
  The strict inventory of a release tree lists exactly its regular files, and an accepted release has a
  manifest that is the digest function of the tree.
\<close>

section \<open>Paths\<close>

lemma split_on_nonempty [simp]: "split_on c s \<noteq> []"
  by (induction s) (auto split: list.splits)

lemma join_split: "join_with [c] (split_on c s) = s"
proof (induction s)
  case (Cons x s)
  then show ?case by (cases "split_on c s") (auto, (cases "tl (split_on c s)"; auto)+)
qed simp

lemma split_append: "c \<notin> set p \<Longrightarrow> split_on c (p @ c # s) = p # split_on c s"
  by (induction p) auto

lemma split_plain: "c \<notin> set p \<Longrightarrow> split_on c p = [p]"
  by (induction p) auto

lemma split_join: "ps \<noteq> [] \<Longrightarrow> \<forall>p\<in>set ps. c \<notin> set p \<Longrightarrow> split_on c (join_with [c] ps) = ps"
proof (induction ps)
  case (Cons p ps)
  then show ?case by (cases ps) (simp_all add: split_plain split_append)
qed simp

section \<open>The walk\<close>

text \<open>Names of directory entries: distinct in a directory and without a slash.\<close>

fun plain_names :: "tree_node \<Rightarrow> bool" where
  "plain_names (Directory es) \<longleftrightarrow> distinct (map fst es) \<and> (\<forall>e\<in>set es. CHR ''/'' \<notin> set (fst e) \<and> plain_names (snd e))"
| "plain_names _ = True"

text \<open>The tree holds directories and regular files only.\<close>

fun regular_tree :: "tree_node \<Rightarrow> bool" where
  "regular_tree (Directory es) \<longleftrightarrow> (\<forall>e\<in>set es. regular_tree (snd e))"
| "regular_tree (Regular h) = True"
| "regular_tree _ = False"

definition leaf_paths :: "tree_node \<Rightarrow> string list set" where
  "leaf_paths nd = {ps. digest_at nd ps \<noteq> None}"

lemma leaf_paths_simps [simp]:
  "leaf_paths (Regular h) = {[]}" "leaf_paths Special = {}" "leaf_paths LinkToFile = {}" "leaf_paths LinkToDirectory = {}"
  by (auto simp: leaf_paths_def elim: digest_at.elims)

lemma leaf_paths_nil [simp]: "[] \<notin> leaf_paths (Directory es)"
  by (simp add: leaf_paths_def)

lemma leaf_paths_directory:
  assumes "distinct (map fst es)"
  shows "leaf_paths (Directory es) = (\<Union>e\<in>set es. (#) (fst e) ` leaf_paths (snd e))"
proof (rule set_eqI)
  fix x
  show "x \<in> leaf_paths (Directory es) \<longleftrightarrow> x \<in> (\<Union>e\<in>set es. (#) (fst e) ` leaf_paths (snd e))"
  proof (cases x)
    case (Cons p ps)
    have "p # ps \<in> leaf_paths (Directory es) \<longleftrightarrow> (\<exists>nd. map_of es p = Some nd \<and> ps \<in> leaf_paths nd)"
      by (auto simp: leaf_paths_def split: option.splits)
    then show ?thesis unfolding Cons map_of_eq_Some_iff [OF assms] by (force simp: image_iff)
  qed auto
qed

lemma leaf_paths_plain: "plain_names nd \<Longrightarrow> ps \<in> leaf_paths nd \<Longrightarrow> p \<in> set ps \<Longrightarrow> CHR ''/'' \<notin> set p"
proof (induction nd ps rule: digest_at.induct)
  case (2 es q qs)
  then obtain nd where "map_of es q = Some nd" "qs \<in> leaf_paths nd"
    by (auto simp: leaf_paths_def split: option.splits)
  moreover from this(1) have "(q, nd) \<in> set es" by (rule map_of_SomeD)
  ultimately show ?case using 2 by auto
qed (auto simp: leaf_paths_def)

lemma emap_concat:
  "emap f xs = Inr yss \<Longrightarrow> y \<in> set (concat yss) \<longleftrightarrow> (\<exists>x\<in>set xs. \<exists>ys. f x = Inr ys \<and> y \<in> set ys)"
proof (induction xs arbitrary: yss)
  case (Cons x xs)
  then obtain ys yss' where "f x = Inr ys" "emap f xs = Inr yss'" "yss = ys # yss'" by (auto simp: ebind_ok)
  with Cons.IH [of yss'] show ?case by simp
qed simp

lemma emap_each: "emap f xs = Inr yss \<Longrightarrow> x \<in> set xs \<Longrightarrow> \<exists>ys. f x = Inr ys"
  by (induction xs arbitrary: yss) (auto simp: ebind_ok)

text \<open>What one entry contributes to a strict walk.\<close>

definition below_entry :: "string \<Rightarrow> string \<times> tree_node \<Rightarrow> string set" where
  "below_entry pre e = (\<lambda>ps. pre @ join_with ''/'' (fst e # ps)) ` leaf_paths (snd e)"

lemma below_directory:
  assumes "distinct (map fst fs)"
  shows "below_entry pre (name, Directory fs) = (\<Union>d\<in>set fs. below_entry (pre @ name @ ''/'') d)"
  by (simp add: below_entry_def leaf_paths_directory [OF assms] image_UN image_image)

lemma strict_walk:
  assumes "walk True pre nd = Inr names" "plain_names nd" "nd = Directory es"
  shows "regular_tree nd \<and> set names = (\<Union>e\<in>set es. below_entry pre e)"
  using assms
proof (induction nd arbitrary: pre names es)
  case (Directory ds)
  then have [simp]: "ds = es" by simp
  obtain here below where links: "\<forall>e\<in>set es. snd e \<noteq> LinkToDirectory"
    and h: "emap (release_file True pre) es = Inr here"
    and b: "emap (\<lambda>e. walk True (pre @ fst e @ ''/'') (snd e)) es = Inr below"
    and names: "names = concat here @ concat below"
    using Directory.prems(1) by (auto simp: ebind_ok eall_ok need_ok)
  have entry: "regular_tree (snd e) \<and> (\<exists>xs ys. release_file True pre e = Inr xs
      \<and> walk True (pre @ fst e @ ''/'') (snd e) = Inr ys \<and> set xs \<union> set ys = below_entry pre e)" if e: "e \<in> set es" for e
  proof -
    obtain xs ys where x: "release_file True pre e = Inr xs" "walk True (pre @ fst e @ ''/'') (snd e) = Inr ys"
      using emap_each [OF h e] emap_each [OF b e] by auto
    have "regular_tree (snd e) \<and> set xs \<union> set ys = below_entry pre e"
    proof (cases "snd e")
      case (Directory fs)
      have plain: "plain_names (snd e)" using Directory.prems(2) e by auto
      then have "regular_tree (snd e) \<and> set ys = (\<Union>d\<in>set fs. below_entry (pre @ fst e @ ''/'') d)"
        using Directory.IH [of e "snd e" "pre @ fst e @ ''/''" ys fs] x(2) e Directory by (simp add: snds.simps)
      moreover have "xs = []" using x(1) Directory by (simp add: release_file_def split: prod.splits)
      moreover have "below_entry pre e = (\<Union>d\<in>set fs. below_entry (pre @ fst e @ ''/'') d)"
        using below_directory [of fs pre "fst e"] Directory plain by (metis plain_names.simps(1) prod.collapse)
      ultimately show ?thesis by simp
    qed (use x links e in \<open>auto simp: release_file_def below_entry_def split: prod.splits\<close>)
    then show ?thesis using x by blast
  qed
  have "y \<in> set names \<longleftrightarrow> (\<exists>e\<in>set es. y \<in> below_entry pre e)" for y
  proof -
    have "y \<in> set names \<longleftrightarrow> (\<exists>e\<in>set es. (\<exists>xs. release_file True pre e = Inr xs \<and> y \<in> set xs)
        \<or> (\<exists>ys. walk True (pre @ fst e @ ''/'') (snd e) = Inr ys \<and> y \<in> set ys))"
      unfolding names set_append Un_iff emap_concat [OF h] emap_concat [OF b] by blast
    also have "\<dots> \<longleftrightarrow> (\<exists>e\<in>set es. y \<in> below_entry pre e)"
    proof (rule bex_cong [OF refl])
      fix e assume "e \<in> set es"
      then obtain xs ys where "release_file True pre e = Inr xs" "walk True (pre @ fst e @ ''/'') (snd e) = Inr ys"
        "set xs \<union> set ys = below_entry pre e" using entry by blast
      then show "(\<exists>xs. release_file True pre e = Inr xs \<and> y \<in> set xs)
        \<or> (\<exists>ys. walk True (pre @ fst e @ ''/'') (snd e) = Inr ys \<and> y \<in> set ys) \<longleftrightarrow> y \<in> below_entry pre e" by auto
    qed
    finally show ?thesis .
  qed
  moreover have "regular_tree (Directory es)" using entry by simp
  ultimately show ?case by auto
qed auto

section \<open>The inventory\<close>

text \<open>The strict inventory of a directory names exactly its regular files, at any depth, and is refused
  when the tree holds a link or a special file.\<close>

lemma strict_inventory:
  assumes "files True base = Inr names" "base = Directory es" "plain_names base"
  shows "regular_tree base" "n \<in> set names \<longleftrightarrow> (\<exists>h. digest_at base (split_on (CHR ''/'') n) = Some h)"
proof -
  obtain listed where l: "walk True [] base = Inr listed" "set names = set listed"
    using assms(1) by (auto simp: files_def ebind_ok)
  note w = strict_walk [OF l(1) assms(3,2)]
  then show "regular_tree base" by simp
  have "distinct (map fst es)" using assms(2,3) by simp
  from leaf_paths_directory [OF this] have "set names = join_with ''/'' ` leaf_paths base"
    using w l(2) by (simp add: assms(2) below_entry_def image_UN image_image)
  moreover have "split_on (CHR ''/'') (join_with ''/'' ps) = ps" if "ps \<in> leaf_paths base" for ps
    using that split_join [of ps "CHR ''/''"] leaf_paths_plain [OF assms(3) that] assms(2) by (cases "ps = []") simp_all
  ultimately have "n \<in> set names \<longleftrightarrow> split_on (CHR ''/'') n \<in> leaf_paths base"
    using imageI [of "split_on (CHR ''/'') n" "leaf_paths base" "join_with ''/''"] unfolding join_split by auto
  then show "n \<in> set names \<longleftrightarrow> (\<exists>h. digest_at base (split_on (CHR ''/'') n) = Some h)"
    by (auto simp: leaf_paths_def)
qed

text \<open>C40: When a strict verification accepts a release tree, the tree holds directories and regular files
  only, and the manifest is its digest function: a name has digest \<open>h\<close> in the manifest exactly when the
  file of that name, at any depth of the tree, has digest \<open>h\<close>; only the manifest itself is left out.\<close>

theorem release_manifest_exact:
  assumes "verify_release sha True t = Inr r" "rt_root t = Directory es" "plain_names (rt_root t)"
  shows "regular_tree (rt_root t) \<and> (\<exists>full. ebind (rt_manifest t) release_manifest = Inr full
      \<and> (\<forall>n h. map_of full n = Some h \<longleftrightarrow> n \<noteq> ''MANIFEST.sha256'' \<and> digest_at (rt_root t) (split_on (CHR ''/'') n) = Some h))"
proof -
  obtain full names where m: "ebind (rt_manifest t) release_manifest = Inr full" and f: "files True (rt_root t) = Inr names"
    and k: "set (filter (\<lambda>n. n \<noteq> ''MANIFEST.sha256'') names) = set (keys full)"
    and d: "\<forall>e\<in>set full. digest_at (rt_root t) (split_on (CHR ''/'') (fst e)) = Some (snd e)"
    using assms(1) unfolding verify_release_def Let_def ebind_ok need_ok eall_ok by (force simp: need_ok)
  note inv = strict_inventory [OF f assms(2,3)]
  have "map_of full n = Some h \<longleftrightarrow> n \<noteq> ''MANIFEST.sha256'' \<and> digest_at (rt_root t) (split_on (CHR ''/'') n) = Some h" for n h
  proof
    assume "map_of full n = Some h"
    then have "(n, h) \<in> set full" by (rule map_of_SomeD)
    moreover from this have "n \<in> set (keys full)" by (force simp: keys_def)
    ultimately show "n \<noteq> ''MANIFEST.sha256'' \<and> digest_at (rt_root t) (split_on (CHR ''/'') n) = Some h"
      using d k by auto
  next
    assume a: "n \<noteq> ''MANIFEST.sha256'' \<and> digest_at (rt_root t) (split_on (CHR ''/'') n) = Some h"
    then have "n \<in> set (keys full)" using inv(2) [of n] k by auto
    then obtain g where g: "map_of full n = Some g" by (auto simp: keys_def dest: weak_map_of_SomeI)
    then have "digest_at (rt_root t) (split_on (CHR ''/'') n) = Some g" using d map_of_SomeD [OF g] by force
    with a g show "map_of full n = Some h" by simp
  qed
  then show ?thesis using m inv(1) by blast
qed

section \<open>An accepted release\<close>

definition canonical_name :: "string \<Rightarrow> bool" where
  "canonical_name name \<longleftrightarrow> \<not> (is_absolute name \<or> ''..'' \<in> set (path_parts name) \<or> CHR 0x5C \<in> set name \<or> as_posix name \<noteq> name
     \<or> name \<in> set [''.'', []])"

lemma release_lines:
  assumes "\<forall>p\<in>set m. storable p \<and> canonical_name (fst p)" "distinct (map fst m)" "fst ` set m \<inter> fst ` set out = {}"
  shows "efold release_record out (splitlines (render_manifest m)) = Inr (out @ m)"
  using assms
proof (induction m arbitrary: out)
  case (Cons p m)
  have "splitlines (render_manifest (p # m)) = render_line p # splitlines (render_manifest m)"
    using splitlines_line [of "render_line p" "render_manifest m"] line_no_break [of p] Cons.prems(1)
    by (simp add: render_manifest_def)
  moreover have "release_record out (render_line p) = Inr (out @ [p])"
    using Cons.prems by (auto simp: release_record_def parse_line canonical_name_def)
  moreover have "fst ` set m \<inter> fst ` set (out @ [p]) = {}" using Cons.prems(2,3) by auto
  ultimately show ?case using Cons.IH [of "out @ [p]"] Cons.prems by simp
qed (simp add: render_manifest_def splitlines_def)

definition demo_digest :: string where
  "demo_digest = replicate 64 (CHR ''a'')"

fun insert_path :: "string list \<Rightarrow> (string \<times> tree_node) list \<Rightarrow> (string \<times> tree_node) list" where
  "insert_path [] es = es"
| "insert_path [p] es = es @ [(p, Regular demo_digest)]"
| "insert_path (p # ps) es = (case map_of es p of
     Some (Directory ds) \<Rightarrow> AList.update p (Directory (insert_path ps ds)) es
   | _ \<Rightarrow> es @ [(p, Directory (insert_path ps []))])"

definition demo_entries :: "(string \<times> tree_node) list" where
  "demo_entries = fold (\<lambda>n. insert_path (split_on (CHR ''/'') n)) (''MANIFEST.sha256'' # REQUIRED) []"

definition listing :: "string list \<Rightarrow> (string \<times> string) list" where
  "listing ns = map (\<lambda>n. (n, demo_digest)) ns"

lemma listing_lookup: "n \<in> set ns \<Longrightarrow> map_of (listing ns) n = Some demo_digest"
  by (induction ns) (auto simp: listing_def)

lemma demo_names:
  "list_all (\<lambda>n. storable (n, demo_digest) \<and> canonical_name n \<and> n \<noteq> ''MANIFEST.sha256'') REQUIRED"
  by code_simp

lemma demo_distinct: "distinct REQUIRED"
  by code_simp

lemma demo_plain: "plain_names (Directory demo_entries)"
  by code_simp

lemma demo_walk:
  "case walk True [] (Directory demo_entries) of Inl e \<Rightarrow> False
   | Inr ns \<Rightarrow> list_all (\<lambda>n. List.member ns n) (''MANIFEST.sha256'' # REQUIRED)
       \<and> list_all (\<lambda>n. List.member (''MANIFEST.sha256'' # REQUIRED) n) ns"
  by code_simp

lemma demo_digests: "list_all (\<lambda>n. digest_at (Directory demo_entries) (split_on (CHR ''/'') n) = Some demo_digest) REQUIRED"
  by code_simp

definition demo_report :: string where
  "demo_report = CANONICAL @ demo_digest @ ''`''"

lemma demo_canonical: "check_report (\<lambda>x. demo_digest) demo_report = Inr demo_digest"
  by code_simp

definition demo_release :: release_tree where
  "demo_release = \<lparr>rt_root = Directory demo_entries, rt_manifest = Inr (render_manifest (listing REQUIRED)),
     rt_sources = Inr (render_manifest (listing (filter policy_member REQUIRED))), rt_report = Inr demo_report\<rparr>"

lemma demo_parsed:
  assumes "set ns \<subseteq> set REQUIRED" "distinct ns" "ns \<noteq> []"
  shows "release_manifest (render_manifest (listing ns)) = Inr (listing ns)"
proof -
  have "\<forall>p\<in>set (listing ns). storable p \<and> canonical_name (fst p)" "distinct (map fst (listing ns))"
    using assms(1,2) demo_names by (auto simp: listing_def list_all_iff comp_def)
  from release_lines [OF this, of "[]"] assms(3) show ?thesis
    by (simp add: release_manifest_def need_def) (simp add: listing_def)
qed

lemma demo_release_accepted: "\<exists>r. verify_release (\<lambda>x. demo_digest) True demo_release = Inr r"
proof -
  let ?policy = "filter policy_member REQUIRED"
  obtain ns where w: "walk True [] (Directory demo_entries) = Inr ns"
    and ns: "set ns = insert ''MANIFEST.sha256'' (set REQUIRED)"
    using demo_walk by (auto simp: list_all_iff List.member_iff split: sum.splits)
  define present where "present = filter (\<lambda>n. n \<noteq> ''MANIFEST.sha256'') (sort ns)"
  have "''MANIFEST.sha256'' \<notin> set REQUIRED" using demo_names by (auto simp: list_all_iff)
  then have present: "set present = set REQUIRED" using ns by (auto simp: present_def)
  have policy: "policy_member (hd REQUIRED)" "hd REQUIRED \<in> set REQUIRED"
    by (simp_all add: REQUIRED_def policy_member_def)
  then have "hd REQUIRED \<in> set ?policy" by simp
  then have "?policy \<noteq> []" by (metis list.set(1) empty_iff)
  moreover have "REQUIRED \<noteq> []" by (simp add: REQUIRED_def)
  ultimately have m: "release_manifest (render_manifest (listing REQUIRED)) = Inr (listing REQUIRED)"
    "release_manifest (render_manifest (listing ?policy)) = Inr (listing ?policy)"
    using demo_distinct by (auto intro!: demo_parsed)
  have k: "set (keys (listing xs)) = set xs" for xs by (force simp: keys_def listing_def)
  have h: "eall (\<lambda>(name, h). need (digest_at (Directory demo_entries) (split_on (CHR ''/'') name) = Some h) ''hash/path mismatch'' (Inr ()))
      (listing REQUIRED) = Inr ()"
    using demo_digests by (auto simp: eall_ok need_ok listing_def list_all_iff)
  have s: "eall (\<lambda>(name, h). ebind (at_key (listing REQUIRED) name) (\<lambda>x. need (x = h) ''source hash disagrees'' (Inr ())))
      (listing ?policy) = Inr ()"
    unfolding eall_ok
    by (auto simp: need_ok ebind_ok at_key_ok listing_lookup listing_def [of "filter policy_member REQUIRED"])
  have p: "set present = set (keys (listing REQUIRED))" "set REQUIRED \<subseteq> set present"
    "set (keys (listing ?policy)) = set (filter policy_member present)"
    unfolding k by (simp_all add: present)
  show ?thesis
    unfolding verify_release_def demo_release_def
    by (simp only: release_tree.simps ebind_simps m files_def w Let_def present_def [symmetric] p need_simps h s demo_canonical
      sum.inject) (use p(1,2) in \<open>simp add: need_def\<close>)
qed

theorem release_manifest_exact_witness:
  "regular_tree (rt_root demo_release) \<and> (\<exists>full. ebind (rt_manifest demo_release) release_manifest = Inr full
      \<and> (\<forall>n h. map_of full n = Some h \<longleftrightarrow> n \<noteq> ''MANIFEST.sha256''
          \<and> digest_at (rt_root demo_release) (split_on (CHR ''/'') n) = Some h))"
proof -
  obtain r where "verify_release (\<lambda>x. demo_digest) True demo_release = Inr r" using demo_release_accepted by blast
  then show ?thesis
    by (rule release_manifest_exact) (simp_all add: demo_release_def demo_plain del: plain_names.simps)
qed

end
