(* ===== verification/Bench_Results.thy ===== *)
theory Bench_Results
  imports Paths
begin

text \<open>
  \<open>tools/verify_results.py\<close>: the bounded-memory membership check of a throughput run and the checks of
  a run directory. The documents are values of the standard JSON reader (without hooks); the files, the
  resolution of paths and the native analyzer that replays round trips are parameters. The tool checks
  with \<open>assert\<close>, so a failed check is an \<open>AssertionError\<close>.
\<close>

unbundle bit_operations_syntax

definition assert_that :: "bool \<Rightarrow> string \<Rightarrow> 'a result \<Rightarrow> 'a result" where
  "assert_that c msg k = (if c then k else Inl (AssertionError msg))"

lemma assert_that_ok [accept]: "assert_that c msg k = Inr r \<longleftrightarrow> c \<and> k = Inr r"
  by (simp add: assert_that_def)

lemma assert_that_cong [cong]: "c = c' \<Longrightarrow> assert_that c msg k = assert_that c' msg k"
  by simp

fun le_bytes :: "nat \<Rightarrow> int \<Rightarrow> int list" where
  "le_bytes 0 x = []"
| "le_bytes (Suc k) x = x mod 256 # le_bytes k (x div 256)"

section \<open>Membership\<close>

text \<open>One consumer's chunk: its word is disjoint from the union so far and is added to it.\<close>

definition merge_word :: "int \<times> nat list \<Rightarrow> int list \<Rightarrow> (int \<times> nat list) result" where
  "merge_word acc raw = (case acc of (u, counts) \<Rightarrow> (
    let word = le_int raw in
    assert_that (u AND word = 0) ''duplicate across consumers''
       (Inr (u OR word, counts @ [bit_count (nat word)]))))"

definition expected_bits :: "int \<Rightarrow> nat \<Rightarrow> nat \<Rightarrow> nat" where
  "expected_bits count len remaining =
     nat (int len * 8 - (if remaining = len \<and> count mod 8 \<noteq> 0 then 8 - count mod 8 else 0))"

text \<open>The loop over chunks of at most 65536 bytes; \<open>streams\<close> and \<open>saved\<close> are what is left to read.\<close>

function member_chunks ::
    "int \<Rightarrow> nat \<Rightarrow> int list list \<Rightarrow> int list \<Rightarrow> nat list \<Rightarrow> (int list \<times> nat list) result" where
  "member_chunks count remaining streams saved populations =
     (if remaining = 0 then Inr (saved, populations)
      else (let len = min 65536 remaining in
        ebind (efold merge_word (0, []) (map (take len) streams)) (\<lambda>(u, counts).
          assert_that (u = push_bit (expected_bits count len remaining) 1 - 1) ''missing/out-of-range membership''
          (assert_that (take len saved = le_bytes len u) ''saved union mismatch''
            (member_chunks count (remaining - len) (map (drop len) streams) (drop len saved)
              (map2 (+) populations counts))))))"
  by pat_completeness auto

termination by (relation "measure (\<lambda>(count, remaining, streams, saved, populations). remaining)") auto

declare member_chunks.simps [simp del]

record bench_files =
  bf_bitmaps :: "nat \<Rightarrow> int list result"
  bf_union :: "int list result"

definition verify_membership :: "bench_files \<Rightarrow> jvalue \<Rightarrow> unit result" where
  "verify_membership f res = (
    ebind (ebind (item res ''messages'') index) (\<lambda>count.
    ebind (ebind (item res ''consumers'') index) (\<lambda>consumers.
    let total_bytes = (count + 7) div 8 in
    ebind (emap (\<lambda>i. bf_bitmaps f (nat i)) [0..consumers - 1]) (\<lambda>streams.
    if list_ex (\<lambda>s. int (length s) \<noteq> total_bytes) streams then Inl (AssertionError ''bitmap size'')
     else if total_bytes < 0 then Inl (ValueError ''negative shift count'')
     else (
       ebind (bf_union f) (\<lambda>saved.
       ebind (member_chunks count (nat total_bytes) streams saved (replicate (length streams) 0)) (\<lambda>(rest, populations).
       if rest \<noteq> [] then Inl (AssertionError []) else (
         ebind (item res ''workers_info'') (\<lambda>wv.
         ebind ((case wv of VList xs \<Rightarrow> Inr xs | _ \<Rightarrow> Inl (TypeError ''slice''))) (\<lambda>ws.
         ebind (ebind (item res ''producers'') index) (\<lambda>p.
         ebind (emap (\<lambda>w. item w ''count'') (drop (slice_end ws p) ws)) (\<lambda>expected.
         if \<not> (list_eq expected (map (\<lambda>n. VInt (int n)) populations) \<and> int (sum_list populations) = count)
         then Inl (AssertionError ''count reconciliation'') else (
           eall (\<lambda>w. (
             ebind (item w ''count'') (\<lambda>c.
             if p = 0 then Inl ZeroDivisionError
             else assert_that (py_eq c (VInt (count div p))) [] (Inr ())))) (take (slice_end ws p) ws))))))))))))))"

section \<open>What an accepted membership means\<close>

text \<open>Message \<open>k\<close> in a bitmap, and the bitmaps whose bytes are bytes.\<close>

definition has_message :: "int list \<Rightarrow> nat \<Rightarrow> bool" where
  "has_message s k \<longleftrightarrow> k div 8 < length s \<and> bit (s ! (k div 8)) (k mod 8)"

definition byte_list :: "int list \<Rightarrow> bool" where
  "byte_list s \<longleftrightarrow> (\<forall>b\<in>set s. 0 \<le> b \<and> b < 256)"

lemma bit_byte_low:
  fixes b x :: int
  assumes "k < 8"
  shows "bit (b + 256 * x) k \<longleftrightarrow> bit b k"
proof -
  obtain m where m: "8 = k + Suc m" using assms by (metis add_Suc_right less_imp_Suc_add)
  have "(256 :: int) = 2 ^ 8" by simp
  also have "\<dots> = 2 ^ k * (2 * 2 ^ m)" unfolding m power_add power_Suc ..
  finally have p: "(256 :: int) = 2 ^ k * (2 * 2 ^ m)" .
  have "(b + 256 * x) div 2 ^ k = b div 2 ^ k + 2 * (2 ^ m * x)"
    unfolding p by (simp add: mult.assoc)
  then show ?thesis by (simp add: bit_iff_odd)
qed

lemma bit_byte_high:
  fixes b x :: int
  assumes "0 \<le> b" "b < 256"
  shows "bit (b + 256 * x) (k + 8) \<longleftrightarrow> bit x k"
proof -
  have "(b + 256 * x) div 2 ^ (k + 8) = (b + 256 * x) div 256 div 2 ^ k"
    by (simp only: power_add mult.commute [of "2 ^ k"] zdiv_zmult2_eq zero_le_power zero_le_numeral) simp
  also have "(b + 256 * x) div 256 = x" using assms by simp
  finally show ?thesis by (simp add: bit_iff_odd)
qed

lemma byte_list_part: "byte_list s \<Longrightarrow> byte_list (take i s)" "byte_list s \<Longrightarrow> byte_list (drop i s)"
  by (auto simp: byte_list_def dest: in_set_takeD in_set_dropD)

lemma le_int_message: "byte_list bs \<Longrightarrow> bit (le_int bs) k \<longleftrightarrow> has_message bs k"
proof (induction bs arbitrary: k)
  case (Cons b bs)
  then have b: "0 \<le> b" "b < 256" "byte_list bs" by (auto simp: byte_list_def)
  show ?case
  proof (cases "k < 8")
    case False
    then obtain j where "k = j + 8" by (metis le_add_diff_inverse2 not_less)
    then show ?thesis using bit_byte_high [OF b(1,2)] Cons.IH [OF b(3)] by (simp add: has_message_def)
  qed (simp add: bit_byte_low has_message_def)
qed (simp add: has_message_def)

text \<open>Each bit of the union comes from exactly one word.\<close>

lemma merge_word_count:
  "efold merge_word (u, cs) raws = Inr (u', cs') \<Longrightarrow>
    of_bool (bit u' k) = of_bool (bit u k) + length (filter (\<lambda>raw. bit (le_int raw) k) raws)"
proof (induction raws arbitrary: u cs)
  case (Cons raw raws)
  have "merge_word (u, cs) raw = (if u AND le_int raw = 0
      then Inr (u OR le_int raw, cs @ [bit_count (nat (le_int raw))]) else Inl (AssertionError ''duplicate across consumers''))"
    by (simp add: merge_word_def assert_that_def Let_def)
  with Cons.prems have d: "u AND le_int raw = 0" and
    r: "efold merge_word (u OR le_int raw, cs @ [bit_count (nat (le_int raw))]) raws = Inr (u', cs')"
    by (simp_all split: if_splits)
  have "\<not> (bit u k \<and> bit (le_int raw) k)" using d by (metis bit_0_eq bit_and_iff bot_apply bot_bool_def)
  then show ?case using Cons.IH [OF r] by (auto simp: bit_or_iff)
qed simp

definition tail_bits :: "int \<Rightarrow> nat \<Rightarrow> nat" where
  "tail_bits n r = (if r = 0 then 0 else nat (int r * 8 - (if n mod 8 \<noteq> 0 then 8 - n mod 8 else 0)))"

lemma tail_bits_expected:
  assumes "0 < len" "len \<le> r"
  shows "k < 8 * len \<Longrightarrow> k < tail_bits n r \<longleftrightarrow> k < expected_bits n len r"
    "8 * len \<le> k \<Longrightarrow> k < tail_bits n r \<longleftrightarrow> k - 8 * len < tail_bits n (r - len)"
proof -
  define c where "c = (if n mod 8 \<noteq> 0 then 8 - n mod 8 else 0)"
  have c: "0 \<le> c" "c \<le> 7" using pos_mod_bound [of 8 n] pos_mod_sign [of 8 n] by (auto simp: c_def)
  have t: "tail_bits n q = (if q = 0 then 0 else nat (int q * 8 - c))" for q by (simp add: tail_bits_def c_def)
  have e: "expected_bits n len r = nat (int len * 8 - (if r = len then c else 0))" by (simp add: expected_bits_def c_def)
  show "k < 8 * len \<Longrightarrow> k < tail_bits n r \<longleftrightarrow> k < expected_bits n len r"
    using assms c unfolding t e by (auto simp: zless_nat_eq_int_zless)
  show "8 * len \<le> k \<Longrightarrow> k < tail_bits n r \<longleftrightarrow> k - 8 * len < tail_bits n (r - len)"
    using assms c unfolding t by (auto simp: zless_nat_eq_int_zless of_nat_diff)
qed

lemma has_message_take: "k < 8 * len \<Longrightarrow> has_message (take len s) k \<longleftrightarrow> has_message s k"
  by (auto simp: has_message_def)

lemma has_message_drop: "8 * len \<le> k \<Longrightarrow> has_message s k \<longleftrightarrow> has_message (drop len s) (k - 8 * len)"
proof -
  assume "8 * len \<le> k"
  then obtain j where "k = j + len * 8" by (metis le_add_diff_inverse2 mult.commute)
  then show ?thesis by (auto simp: has_message_def add.commute less_diff_conv)
qed

lemma member_chunks_exact:
  "member_chunks n r streams saved pops = Inr out \<Longrightarrow> \<forall>s\<in>set streams. length s = r \<and> byte_list s \<Longrightarrow>
    length (filter (\<lambda>s. has_message s k) streams) = of_bool (k < tail_bits n r)"
proof (induction r arbitrary: streams saved pops k rule: less_induct)
  case (less r)
  show ?case
  proof (cases "r = 0")
    case True
    then have "filter (\<lambda>s. has_message s k) streams = []" using less.prems(2) by (auto simp: filter_empty_conv has_message_def)
    then show ?thesis using True by (simp add: tail_bits_def)
  next
    case False
    define len where "len = min 65536 r"
    have len: "0 < len" "len \<le> r" using False by (auto simp: len_def)
    obtain u counts where u: "efold merge_word (0, []) (map (take len) streams) = Inr (u, counts)"
      and full: "u = push_bit (expected_bits n len r) 1 - 1"
      and rest: "member_chunks n (r - len) (map (drop len) streams) (drop len saved) (map2 (+) pops counts) = Inr out"
      using less.prems(1) False unfolding member_chunks.simps [of n r] len_def [symmetric] Let_def
      by (auto simp: ebind_ok assert_that_ok)
    show ?thesis
    proof (cases "k < 8 * len")
      case True
      have "filter (\<lambda>s. has_message s k) streams = filter (\<lambda>s. bit (le_int (take len s)) k) streams"
        using less.prems(2) True by (intro filter_cong refl) (simp add: le_int_message has_message_take byte_list_part)
      then have "length (filter (\<lambda>s. has_message s k) streams) = of_bool (bit u k)"
        using merge_word_count [OF u, of k] by (simp add: filter_map comp_def)
      also have "bit u k \<longleftrightarrow> k < expected_bits n len r"
        unfolding full by (simp add: bit_mask_iff push_bit_of_1 flip: mask_eq_exp_minus_1)
      finally show ?thesis using tail_bits_expected(1) [OF len True] by simp
    next
      case past: False
      have "length (filter (\<lambda>s. has_message s (k - 8 * len)) (map (drop len) streams)) = of_bool (k - 8 * len < tail_bits n (r - len))"
        using less.prems(2) len by (intro less.IH [OF _ rest]) (auto simp: byte_list_part)
      then show ?thesis using past tail_bits_expected(2) [OF len, of k n]
        by (simp add: filter_map comp_def has_message_drop [of len k])
    qed
  qed
qed

text \<open>The saved union is the union of the chunks.\<close>

lemma le_bytes_message: "has_message (le_bytes n x) k \<longleftrightarrow> k < 8 * n \<and> bit x k"
proof (induction n x arbitrary: k rule: le_bytes.induct)
  case (2 n x)
  have x: "x = x mod 256 + 256 * (x div 256)" by simp
  show ?case
  proof (cases "k < 8")
    case True
    then show ?thesis using bit_byte_low [OF True, of "x mod 256" "x div 256"] x by (simp add: has_message_def)
  next
    case False
    then obtain j where "k = j + 8" by (metis le_add_diff_inverse2 not_less)
    then show ?thesis using bit_byte_high [of "x mod 256" "x div 256" j] 2 [of j] x by (simp add: has_message_def)
  qed
qed (simp add: has_message_def)

lemma length_le_bytes [simp]: "length (le_bytes n x) = n"
  by (induction n x rule: le_bytes.induct) auto

lemma has_message_append: "length a = len \<Longrightarrow>
    has_message (a @ b) k \<longleftrightarrow> (if k < 8 * len then has_message a k else has_message b (k - 8 * len))"
  using has_message_take [of k len "a @ b"] has_message_drop [of len k "a @ b"] by auto

lemma member_chunks_saved:
  "member_chunks n r streams saved pops = Inr ([], out) \<Longrightarrow> has_message saved k \<longleftrightarrow> k < tail_bits n r"
proof (induction r arbitrary: streams saved pops k rule: less_induct)
  case (less r)
  show ?case
  proof (cases "r = 0")
    case True
    then show ?thesis using less.prems by (simp add: member_chunks.simps has_message_def tail_bits_def)
  next
    case False
    define len where "len = min 65536 r"
    have len: "0 < len" "len \<le> r" using False by (auto simp: len_def)
    obtain u counts where full: "u = push_bit (expected_bits n len r) 1 - 1" and t: "take len saved = le_bytes len u"
      and rest: "member_chunks n (r - len) (map (drop len) streams) (drop len saved) (map2 (+) pops counts) = Inr ([], out)"
      using less.prems False unfolding member_chunks.simps [of n r] len_def [symmetric] Let_def
      by (auto simp: ebind_ok assert_that_ok)
    have IH: "has_message (drop len saved) m \<longleftrightarrow> m < tail_bits n (r - len)" for m
      using len by (intro less.IH [OF _ rest]) simp
    have s: "saved = le_bytes len u @ drop len saved" using t by (metis append_take_drop_id)
    have "has_message saved k \<longleftrightarrow> (if k < 8 * len then bit u k else k - 8 * len < tail_bits n (r - len))"
      by (subst s) (simp add: has_message_append le_bytes_message IH)
    also have "bit u k \<longleftrightarrow> k < expected_bits n len r"
      unfolding full by (simp add: bit_mask_iff push_bit_of_1 flip: mask_eq_exp_minus_1)
    finally show ?thesis using tail_bits_expected [OF len, of k n] by auto
  qed
qed

lemma tail_bits_count: "tail_bits count (nat ((count + 7) div 8)) = nat count"
proof -
  have "(count + 7) div 8 * 8 - (if count mod 8 \<noteq> 0 then 8 - count mod 8 else 0) = count" by presburger
  moreover have "(count + 7) div 8 \<le> 0 \<Longrightarrow> count \<le> 0" by presburger
  ultimately show ?thesis by (auto simp: tail_bits_def)
qed

text \<open>C30: When the membership of a run is accepted, and the bitmap files hold bytes, every message
  below the recorded count is in exactly one consumer's bitmap, no bitmap holds any other bit, and the
  saved union holds exactly the messages below the count.\<close>

theorem membership_exact:
  assumes "verify_membership f res = Inr ()" "\<And>i s. bf_bitmaps f i = Inr s \<Longrightarrow> byte_list s"
  shows "\<exists>count consumers streams saved. ebind (item res ''messages'') index = Inr count
    \<and> ebind (item res ''consumers'') index = Inr consumers
    \<and> emap (\<lambda>i. bf_bitmaps f (nat i)) [0..consumers - 1] = Inr streams \<and> bf_union f = Inr saved
    \<and> (\<forall>k. length (filter (\<lambda>s. has_message s k) streams) = of_bool (int k < count)
        \<and> (has_message saved k \<longleftrightarrow> int k < count))"
proof -
  obtain count consumers streams saved pops where c: "ebind (item res ''messages'') index = Inr count"
    and s: "ebind (item res ''consumers'') index = Inr consumers" "emap (\<lambda>i. bf_bitmaps f (nat i)) [0..consumers - 1] = Inr streams"
    and l: "\<not> list_ex (\<lambda>s. int (length s) \<noteq> (count + 7) div 8) streams" and u: "bf_union f = Inr saved"
    and m: "member_chunks count (nat ((count + 7) div 8)) streams saved (replicate (length streams) 0) = Inr ([], pops)"
    using assms(1) unfolding verify_membership_def Let_def ebind_ok by (auto simp: ebind_ok split: if_splits)
  have "\<forall>s\<in>set streams. byte_list s" using s(2) by (fastforce simp: emap_ok list_all2_conv_all_nth in_set_conv_nth intro: assms(2))
  then have "\<forall>s\<in>set streams. length s = nat ((count + 7) div 8) \<and> byte_list s" using l by (auto simp: list_ex_iff)
  note member_chunks_exact [OF m this] member_chunks_saved [OF m]
  then have "\<forall>k. length (filter (\<lambda>s. has_message s k) streams) = of_bool (int k < count)
      \<and> (has_message saved k \<longleftrightarrow> int k < count)"
    by (simp add: tail_bits_count zless_nat_eq_int_zless)
  then show ?thesis using c s u by (intro exI [of _ count] exI [of _ consumers] exI [of _ streams] exI [of _ saved]) simp
qed

definition demo_bitmaps :: bench_files where
  "demo_bitmaps = \<lparr>bf_bitmaps = (\<lambda>i. Inr (if i = 0 then [1] else [6])), bf_union = Inr [7]\<rparr>"

definition demo_membership :: jvalue where
  "demo_membership = VDict [(''messages'', VInt 3), (''consumers'', VInt 2), (''producers'', VInt 1),
     (''workers_info'', VList [VDict [(''count'', VInt 3)], VDict [(''count'', VInt 1)], VDict [(''count'', VInt 2)]])]"

theorem membership_exact_witness:
  "length (filter (\<lambda>s. has_message s 1) [[1], [6]]) = 1 \<and> length (filter (\<lambda>s. has_message s 3) [[1], [6]]) = 0
    \<and> has_message [7] 2 \<and> \<not> has_message [7] 3"
proof -
  have m: "member_chunks 3 (Suc 0) [[1], [6]] [7] [0, 0] = Inr ([], [1, 2])"
    by (simp add: member_chunks.simps merge_word_def assert_that_def expected_bits_def bit_count.simps)
  have fields: "item demo_membership ''messages'' = Inr (VInt 3)" "item demo_membership ''consumers'' = Inr (VInt 2)"
    "item demo_membership ''producers'' = Inr (VInt 1)" "item demo_membership ''workers_info'' =
       Inr (VList [VDict [(''count'', VInt 3)], VDict [(''count'', VInt 1)], VDict [(''count'', VInt 2)]])"
    by code_simp+
  have counts: "item (VDict [(''count'', VInt n)]) ''count'' = Inr (VInt n)" for n by simp
  have cut: "slice_end xs 1 = 1" if "length xs = 3" for xs :: "jvalue list"
    using that by (simp add: slice_end_def)
  have streams: "bf_bitmaps demo_bitmaps i = Inr (if i = 0 then [1] else [6])" "bf_union demo_bitmaps = Inr [7]" for i
    by (simp_all add: demo_bitmaps_def)
  have v: "verify_membership demo_bitmaps demo_membership = Inr ()"
    by (simp add: verify_membership_def fields counts streams upto.simps numeral_2_eq_2 m cut assert_that_def)
  have b: "byte_list s" if "bf_bitmaps demo_bitmaps i = Inr s" for i s
    using that by (auto simp: demo_bitmaps_def byte_list_def split: if_splits)
  from membership_exact [OF v b] obtain saved streams where "saved = [7]" "streams = [[1], [6]]"
    "\<forall>k. length (filter (\<lambda>s. has_message s k) streams) = of_bool (int k < 3) \<and> (has_message saved k \<longleftrightarrow> int k < 3)"
    by (auto simp: fields streams upto.simps)
  then show ?thesis by auto
qed

section \<open>A run directory\<close>

text \<open>The raw files of one result and what the analyzer reports for a tick file (with or without the file of
  start ticks), a count and a time base.\<close>

record bench_run =
  br_result :: jvalue
  br_files :: bench_files
  br_replay :: "string \<Rightarrow> string option \<Rightarrow> jvalue \<Rightarrow> jvalue \<Rightarrow> jvalue \<Rightarrow> jvalue result"

definition verify_calibration :: "bench_run \<Rightarrow> jvalue \<Rightarrow> jvalue \<Rightarrow> string \<Rightarrow> unit result" where
  "verify_calibration r n d suffix = (
    ebind (item (br_result r) (''calibration_'' @ suffix)) (\<lambda>expected.
    ebind (item expected ''samples'') (\<lambda>samples.
    ebind (br_replay r (''clock_'' @ suffix @ ''.u64le'') None samples n d) (\<lambda>actual.
    assert_that (py_eq actual expected) ''calibration mismatch'' (Inr ())))))"

definition verify_run :: "bench_run \<Rightarrow> unit result" where
  "verify_run r = (
    ebind (item (br_result r) ''status'') (\<lambda>st.
    assert_that (py_eq st (VStr ''PASS_WITHIN_SCOPE'')) ''status''
       (ebind (item (br_result r) ''schema'') (\<lambda>schema.
         if schema = VStr ''elite-bench-throughput-v1'' then verify_membership (br_files r) (br_result r)
         else if schema = VStr ''elite-bench-rtt-v1'' then (
           ebind (item (br_result r) ''timebase_numer'') (\<lambda>n.
           ebind (item (br_result r) ''timebase_denom'') (\<lambda>d.
           ebind (item (br_result r) ''roundtrips'') (\<lambda>trips.
           ebind (br_replay r ''rtt_ticks.u64le'' (Some ''start_ticks.u64le'') trips n d) (\<lambda>actual.
           ebind (item (br_result r) ''latency'') (\<lambda>latency.
           assert_that (py_eq actual latency) ''latency ranks or ordering mismatch''
             (eall (verify_calibration r n d) [''before'', ''after'']))))))) else Inl (ValueError ''schema'')))))"

text \<open>\<open>bd_within\<close> resolves a manifest entry inside the directory, \<open>bd_sha\<close> is the digest of the file it names.\<close>

record bench_directory =
  bd_provenance :: "jvalue option"
  bd_manifest :: "string option"
  bd_within :: "string \<Rightarrow> bool"
  bd_sha :: "string \<Rightarrow> string result"
  bd_runs :: "bench_run list"
  bd_failures :: "string list"

definition check_provenance :: "jvalue \<Rightarrow> unit result" where
  "check_provenance v = (
    ebind (dget v ''status'' VNone) (\<lambda>st.
    assert_that (py_eq st (VStr ''COMPLETED_NATIVE_CONDITIONS'')) ''incomplete orchestrator''
       (ebind (ebind (item v ''runs'') iter) (\<lambda>runs.
        ebind (every (\<lambda>x. ebind (dget x ''exit_code'' VNone) (\<lambda>c. Inr (py_eq c (VInt 0)))) runs) (\<lambda>ok.
          assert_that ok ''failed condition'' (Inr ()))))))"

definition run_manifest_line :: "bench_directory \<Rightarrow> string \<Rightarrow> unit result" where
  "run_manifest_line d line = (
    ebind ((case split_once ''  '' line of None \<Rightarrow> Inl (ValueError ''unpack'') | Some p \<Rightarrow> Inr p)) (\<lambda>(expected, relative).
    assert_that (bd_within d relative) ''manifest path escape''
       (ebind (bd_sha d relative) (\<lambda>h. assert_that (h = expected) ''checksum mismatch'' (Inr ())))))"

text \<open>\<open>main\<close> after the arguments are parsed; \<open>optimised\<close> is \<open>not __debug__\<close>.\<close>

definition verify_bench :: "bool \<Rightarrow> bench_directory \<Rightarrow> int result" where
  "verify_bench optimised d =
     (if optimised then Inl (RuntimeError ''Verification must not disable assertions with Python -O'')
      else (
        ebind ((case bd_provenance d of None \<Rightarrow> Inr () | Some v \<Rightarrow> check_provenance v)) (\<lambda>_.
        ebind ((case bd_manifest d of None \<Rightarrow> Inr () | Some text \<Rightarrow> eall (run_manifest_line d) (splitlines text))) (\<lambda>_.
        if bd_runs d = [] then Inr 2
        else (
          ebind (eall verify_run (bd_runs d)) (\<lambda>_.
          assert_that (bd_failures d = []) ''Failed/incomplete records retained'' (Inr 0)))))))"

end
