(* ===== verification/Spec2Isabelle.thy ===== *)
theory Spec2Isabelle
  imports Ncq_Claims Spsc_Claims Explore_Claims Binding_Claims Handoff_Claims Boundaries Targeted_Claims
    Live_Claims Capsule_Claims Cache_Claims Chaos_Claims Matrix_Claims Plan_Claims Worker_Claims Formal_Claims
    Release_Claims Bench_Results
begin

text \<open>
  A verification development for the Python parts of elite-ringbuffer.

  The repository is a shared-memory ring buffer with two queue algorithms (a single-producer,
  single-consumer ring and NCQ, a ring of block tokens for many of each), a finite formal model of
  both with an explorer, a Python binding with a buffer exporter in C, and the tools that check the
  evidence a run leaves behind: campaigns of the explorer, chaos runs, benchmark and matrix records,
  counter receipts, release archives. The models, the explorer and the binding carry the program's own
  logic; the verifiers decide what evidence may be called a pass. The theories follow these parts.

  \<^bold>\<open>Queue models and explorer\<close> (\<open>formal/\<close>)

  \<^item> \<open>Prelude\<close>, \<open>Violations\<close>, \<open>Transition\<close>: exceptions as values, Python subscripts and slices, the
    events of a generator, the violations the models report, and the interface between a transition
    model and the explorer with the contract of a correct model (locales \<open>safe_model\<close> and
    \<open>ranked_model\<close>).
  \<^item> \<open>Ncq\<close>: the transition model of \<open>formal/models/ncq.py\<close>, one definition per program counter,
    every mutation switch included. \<open>Ncq_Invariant\<close>, \<open>Ncq_Turns\<close>, \<open>Ncq_Clean\<close> and \<open>Ncq_Checked\<close>
    hold its inductive invariant and the preservation by every turn; \<open>Ncq_Steps\<close> gives the turns as
    a step relation; \<open>Ncq_Safety\<close> and \<open>Ncq_Progress\<close> interpret the two locales; \<open>Ncq_Fifo\<close> states
    the abstract exchange of blocks and the refinement. \<open>Ncq_History\<close> defines \<open>ncq_run\<close>, a path of
    transitions that \<open>ncq_successors\<close> yields together with the blocks and values they publish, borrow,
    recycle and acquire, read off the two states of each transition; \<open>Ncq_Claims\<close> has the properties.
  \<^item> \<open>Spsc\<close>: the transition model of \<open>formal/models/spsc.py\<close>; \<open>Spsc_Safety\<close> interprets the
    contract, \<open>Spsc_Values\<close> follows the values along a path of \<open>spsc_successors\<close>, \<open>Spsc_Claims\<close> has
    the properties.
  \<^item> \<open>Explore\<close>: \<open>run\<close> of \<open>formal/explore.py\<close> for any model, state budget and clock;
    \<open>Explore_Cycles\<close> shows that the elimination decides acyclicity, \<open>Explore_Search\<close> what each
    verdict of the search means, \<open>Explore_Claims\<close> the properties.
  \<^item> \<open>Handoff\<close>: the memory-order fragments of \<open>formal/handoff.py\<close>; \<open>Handoff_Claims\<close> shows that the
    closure is reachability, what a clean analysis means, and for which memory orders of the entry accesses
    the queue fragment passes. \<open>Boundaries\<close>: \<open>formal/boundaries.py\<close>.
    \<open>Targeted\<close>: the schedules of \<open>formal/targeted.py\<close> over \<open>Ncq\<close>, with their counter of delivered
    messages; \<open>Targeted_Claims\<close> evaluates the three fixed schedules: they complete and their traces are runs. \<open>Aux_Records\<close>: the records these three tools write.

  \<^bold>\<open>Python binding\<close> (\<open>bindings/python/\<close>)

  \<^item> \<open>Effects\<close>: a program maps a heap to an exception or a value and a new heap, with weakest
    preconditions. \<open>Wire\<close>, \<open>Wire_Facts\<close>: the structures of \<open>_native.py\<close>, their layout check and the
    control encoding of \<open>__init__.py\<close>.
  \<^item> \<open>Bindings\<close>: the heap of the interpreter's objects (authorities, object and endpoint lifetimes,
    lease states, endpoints, managers, exporters), errors and lifetimes. \<open>Binding_Leases\<close>: leases,
    pins, transfer, finalizer and \<open>elite_buffer.c\<close>. \<open>Binding_Managers\<close>: \<open>EliteShm\<close>, \<open>_Endpoint\<close>,
    waiting and the exit hook. The native library is the parameter \<open>L\<close>, a function from a call and
    a world to an answer (a return with its outputs, or an interrupting exception) and a new world.
    The heap also records what the claims talk about and the code does not read: the native calls made
    for each endpoint with the process that made them, the pins finalized and the leases collected.
    A retained failure is recorded and then warned about; the field \<open>warn_error\<close> says whether the
    interpreter's filter makes a \<open>ResourceWarning\<close> an error, in which case the warning raises where the
    code warns. No event changes the filter. The heap \<open>fresh_heap\<close>, from which the runs of the
    reachability claims start, has the default, a filter that does not raise; what holds under an error
    filter is what \<open>background_raises_warnings_only\<close> and the claims over an arbitrary heap say.
    A deadline of a timed wait is the binary64 sum of the first clock reading and the timeout.
  \<^item> \<open>Binding_Protocol\<close>: the automaton of one native connection as \<open>include/elite_api.h\<close> documents
    it, and the invariant. The theories \<open>Binding_Invariant\<close> to \<open>Binding_Obtaining\<close> and
    \<open>Binding_Attaching\<close> show that each operation keeps the invariant, \<open>Binding_Scope\<close> and
    \<open>Binding_Upkeep\<close> what an operation leaves alone (locales \<open>outsider\<close>, \<open>bystander\<close>, \<open>custodian\<close> and
    \<open>onlooker\<close>, interpreted on the references and on the core of the heap), \<open>Binding_Sound\<close> joins both,
    \<open>Binding_Runs\<close> has the events of application, collector and operating system in any order,
    \<open>Binding_Safety\<close> and \<open>Binding_Claims\<close> the consequences. Where a claim needs the library it assumes
    \<open>documented L\<close>: an acquisition that finds nothing hands out no token, a transfer whose status is OK has
    transferred, and an attachment whose status is OK has set the handle.

  \<^bold>\<open>Evidence verifiers\<close> (\<open>tools/\<close>)

  \<^item> \<open>Pyvals\<close>, \<open>Floats\<close>, \<open>Order_Statistics\<close>, \<open>Paths\<close>: dynamically typed values with Python's equality,
    truth and subscripts, binary64 values as rationals with one rounding, nearest-rank statistics, text
    and path operations.
  \<^item> \<open>Live_Demo\<close>, \<open>Live_Claims\<close>: \<open>verify_live_demo.py\<close>; the samples of an accepted window follow each
    other in time and its percentiles are their nearest ranks, from above and from below. \<open>Trust_Capsule\<close>, \<open>Capsule_Claims\<close>:
    \<open>verify_trust_capsule.py\<close>. \<open>Release_Inventory\<close>, \<open>Release_Claims\<close>:
    \<open>release_manifest.py\<close> and \<open>verify_release.py\<close>; an accepted manifest is the digest function of the tree.
  \<^item> \<open>Cache_Counters\<close>, \<open>Cache_Record\<close>, \<open>Cache_Claims\<close>: \<open>verify_cache_provenance.py\<close>;
    the estimates of an accepted counter group are computed from its frames before and after.
  \<^item> \<open>Chaos\<close>, \<open>Chaos_Trace\<close>, \<open>Chaos_Verify\<close>, \<open>Chaos_Claims\<close>: \<open>verify_chaos_results.py\<close>, a state machine
    over the events of a trace, one definition per kind of event; what acceptance says of the messages of
    a cohort and of the tokens of a queue, also for the asynchronous cohort that is cut on purpose.
  \<^item> \<open>Matrix_Topology\<close>, \<open>Matrix_Record\<close>, \<open>Matrix_Traces\<close>, \<open>Matrix_Verify\<close>, \<open>Matrix_Claims\<close>:
    \<open>verify_matrix_results.py\<close>; an accepted record delivered every message exactly once.
    \<open>Matrix_Plan\<close>: the planner of \<open>run_matrix.py\<close>, the arithmetic of \<open>matrix_worker.py\<close> and the record
    it rebuilds from the traces; \<open>Plan_Claims\<close> and \<open>Worker_Claims\<close> hold them against that verifier.
  \<^item> \<open>Formal_Results\<close>, \<open>Formal_Claims\<close>: \<open>verify_formal_results.py\<close>, which replays counterexamples and
    searches on the same models \<open>Ncq\<close>, \<open>Spsc\<close> and \<open>Explore\<close> that the first group proves correct.
  \<^item> \<open>Bench_Results\<close>: \<open>verify_results.py\<close>; in an accepted membership every message is in exactly one bitmap
    and the saved union is the set of all messages.

  Parameters of these models are what is not under the repository's control: what the JSON scanner makes
  of a file (\<open>jtext\<close>), SHA-256 and CRC-32, the contents and listings of directories, the members of a zip
  archive, the decoding of UTF-8, the clock and the output of the compiled analyzer.

  \<^bold>\<open>Bounds and fuel.\<close> \<open>walk_back\<close> gets the number of states as fuel, which is enough because a parent has
  a smaller number than its child; the schedule loops of \<open>Targeted\<close> have the step bound 300 of the
  source; polling loops recurse over the clock readings they consume; all other loops are recursions
  with a termination proof. The bounds of the models are those of the source. Integers are Python's
  unbounded ones; the fields of native structures are checked against their width where they are
  written, and characters are code points below 256.

  \<^bold>\<open>Not modelled.\<close> Argument parsers, printing and the writing of reports; the programs that start
  processes (\<open>run_chaos.py\<close>, \<open>run_benchmarks.py\<close>, \<open>run_cache_profiling.py\<close>, \<open>execute\<close> and \<open>main\<close>
  of \<open>run_matrix.py\<close>, \<open>run\<close> of \<open>run_formal.py\<close>, the worker processes of \<open>matrix_worker.py\<close> and
  \<open>bench_python.py\<close>, \<open>ci/\<close>) and the build, release and packaging scripts: their content is the order of
  operating-system calls. The C library is known only by its documented interface. \<open>docs/history/\<close> and
  \<open>evidence/\<close> hold older or literal copies of modelled files; tests and reproductions exercise them.
\<close>

end
